(* ===== verification/Prelude.thy ===== *)
theory Prelude
  imports Main "HOL-Library.Word"
begin

unbundle bit_operations_syntax

section \<open>Shared vocabulary: results and machine integers\<close>

text \<open>
  The vocabulary every component of the model is written in.

  \<^item> A Rust \<open>Result<T, E>\<close> is a sum \<open>'e + 'a\<close>: \<open>Inl e\<close> is \<open>Err(e)\<close> and \<open>Inr v\<close> is
    \<open>Ok(v)\<close>. The question mark operator is \<open>and_then\<close>, a guard that bails out is
    \<open>ensure\<close>, \<open>Option::ok_or\<close> is \<open>ok_or\<close>, and a \<open>for\<close> loop over a slice whose body can
    return early is \<open>try_fold\<close>.
  \<^item> \<open>u8\<close> to \<open>u64\<close> are words of that width. The explicit operations of the standard
    library (\<open>checked_add\<close>, \<open>saturating_sub\<close>, ...) are definitions on words; a plain
    \<open>+\<close> or \<open>-\<close> is the wrapping one that the release profile of the workspace compiles to.

  The collections \<open>res_simps\<close> and \<open>word_facts\<close> hold what the component proofs rewrite with.
\<close>

named_theorems res_simps "inversion rules for results"
named_theorems word_facts "unat of the checked and saturating operations"

subsection \<open>Results\<close>

definition and_then :: "'e + 'a \<Rightarrow> ('a \<Rightarrow> 'e + 'b) \<Rightarrow> 'e + 'b" where
  "and_then r f = (case r of Inl e \<Rightarrow> Inl e | Inr x \<Rightarrow> f x)"

definition ensure :: "bool \<Rightarrow> 'e \<Rightarrow> 'e + unit" where
  "ensure b e = (if b then Inr () else Inl e)"

definition ok_or :: "'a option \<Rightarrow> 'e \<Rightarrow> 'e + 'a" where
  "ok_or x e = (case x of None \<Rightarrow> Inl e | Some v \<Rightarrow> Inr v)"

definition map_err :: "('e \<Rightarrow> 'f) \<Rightarrow> 'e + 'a \<Rightarrow> 'f + 'a" where
  "map_err g r = (case r of Inl e \<Rightarrow> Inl (g e) | Inr x \<Rightarrow> Inr x)"

definition is_ok :: "'e + 'a \<Rightarrow> bool" where
  "is_ok r = (case r of Inl _ \<Rightarrow> False | Inr _ \<Rightarrow> True)"

fun try_fold :: "('s \<Rightarrow> 'a \<Rightarrow> 'e + 's) \<Rightarrow> 's \<Rightarrow> 'a list \<Rightarrow> 'e + 's" where
  "try_fold f s [] = Inr s"
| "try_fold f s (x # xs) = and_then (f s x) (\<lambda>s'. try_fold f s' xs)"

lemma and_then_simps [simp]:
  "and_then (Inl e) f = Inl e"
  "and_then (Inr x) f = f x"
  by (simp_all add: and_then_def)

lemma and_then_cong [fundef_cong]:
  "r = r' \<Longrightarrow> (\<And>x. r' = Inr x \<Longrightarrow> f x = g x) \<Longrightarrow> and_then r f = and_then r' g"
  by (cases r') simp_all

lemma and_then_Inr_iff [res_simps]:
  "and_then r f = Inr y \<longleftrightarrow> (\<exists>x. r = Inr x \<and> f x = Inr y)"
  by (cases r) simp_all

lemma and_then_Inl_iff:
  "and_then r f = Inl e \<longleftrightarrow> r = Inl e \<or> (\<exists>x. r = Inr x \<and> f x = Inl e)"
  by (cases r) simp_all

lemma ensure_simps [simp]:
  "ensure True e = Inr ()"
  "ensure False e = Inl e"
  by (simp_all add: ensure_def)

lemma ensure_Inr_iff [res_simps]: "ensure b e = Inr u \<longleftrightarrow> b"
  by (simp add: ensure_def)

lemma ensure_Inl_iff: "ensure b e = Inl e' \<longleftrightarrow> \<not> b \<and> e' = e"
  by (auto simp: ensure_def)

lemma ok_or_simps [simp]:
  "ok_or None e = Inl e"
  "ok_or (Some x) e = Inr x"
  by (simp_all add: ok_or_def)

lemma ok_or_Inr_iff [res_simps]: "ok_or x e = Inr v \<longleftrightarrow> x = Some v"
  by (cases x) simp_all

text \<open>An early return, and its inversions.\<close>

lemma guard_Inr_iff: "(if b then Inl e else r) = Inr x \<longleftrightarrow> \<not> b \<and> r = Inr x"
  by simp

lemma guard_Inl_iff: "(if b then Inl e else r) = Inl e' \<longleftrightarrow> b \<and> e' = e \<or> \<not> b \<and> r = Inl e'"
  by auto

lemma map_err_simps [simp]:
  "map_err g (Inl e) = Inl (g e)"
  "map_err g (Inr x) = Inr x"
  by (simp_all add: map_err_def)

lemma map_err_Inr_iff [res_simps]: "map_err g r = Inr v \<longleftrightarrow> r = Inr v"
  by (cases r) simp_all

lemma is_ok_simps [simp]: "\<not> is_ok (Inl e)" "is_ok (Inr x)"
  by (simp_all add: is_ok_def)

lemma try_fold_append:
  "try_fold f s (xs @ ys) = and_then (try_fold f s xs) (\<lambda>s'. try_fold f s' ys)"
proof (induction xs arbitrary: s)
  case Nil
  show ?case by simp
next
  case (Cons x xs)
  then show ?case by (cases "f s x") simp_all
qed

lemma try_fold_invariant:
  assumes "try_fold f s xs = Inr t" and "P s"
    and "\<And>s x s'. x \<in> set xs \<Longrightarrow> P s \<Longrightarrow> f s x = Inr s' \<Longrightarrow> P s'"
  shows "P t"
  using assms
proof (induction xs arbitrary: s)
  case Nil
  then show ?case by simp
next
  case (Cons x xs)
  from Cons.prems(1) obtain s' where s': "f s x = Inr s'" and rest: "try_fold f s' xs = Inr t"
    by (auto simp: res_simps)
  show ?case
    by (rule Cons.IH [OF rest])
      (use Cons.prems(3) [OF _ Cons.prems(2) s'] Cons.prems(3) in \<open>auto\<close>)
qed

subsection \<open>Stateful results and vectors\<close>

text \<open>
  An operation on \<open>&mut self\<close> that can fail returns its result together with the state it
  leaves, because Rust keeps the mutations made before an early return. \<open>st_bind\<close> is the
  question mark operator for such a step; \<open>position\<close> is \<open>Iterator::position\<close>.
\<close>

definition st_bind ::
  "('e + 'a) \<times> 's \<Rightarrow> ('a \<Rightarrow> 's \<Rightarrow> ('e + 'b) \<times> 's) \<Rightarrow> ('e + 'b) \<times> 's" where
  "st_bind r f = (case r of (Inl e, s) \<Rightarrow> (Inl e, s) | (Inr x, s) \<Rightarrow> f x s)"

fun st_iter :: "('a \<Rightarrow> 's \<Rightarrow> ('e + 'b) \<times> 's) \<Rightarrow> 'a list \<Rightarrow> 's \<Rightarrow> ('e + unit) \<times> 's" where
  "st_iter f [] s = (Inr (), s)"
| "st_iter f (x # xs) s = st_bind (f x s) (\<lambda>_. st_iter f xs)"

fun position :: "('a \<Rightarrow> bool) \<Rightarrow> 'a list \<Rightarrow> nat option" where
  "position P [] = None"
| "position P (x # xs) = (if P x then Some 0 else map_option Suc (position P xs))"

lemma st_bind_simps [simp]:
  "st_bind (Inl e, s) f = (Inl e, s)"
  "st_bind (Inr x, s) f = f x s"
  by (simp_all add: st_bind_def)

lemma position_Some_iff:
  "position P xs = Some i \<longleftrightarrow> i < length xs \<and> P (xs ! i) \<and> (\<forall>j < i. \<not> P (xs ! j))"
proof (induction xs arbitrary: i)
  case Nil
  show ?case by simp
next
  case (Cons x xs)
  show ?case
  proof (cases i)
    case 0
    then show ?thesis by auto
  next
    case (Suc k)
    show ?thesis
    proof (cases "P x")
      case True
      then have "\<not> (\<forall>j < i. \<not> P ((x # xs) ! j))" using Suc by force
      with True Suc show ?thesis by simp
    next
      case False
      have "(\<forall>j < Suc k. \<not> P ((x # xs) ! j)) \<longleftrightarrow> (\<forall>j < k. \<not> P (xs ! j))"
        using False by (auto simp: All_less_Suc2)
      with False Suc show ?thesis by (auto simp: Cons.IH)
    qed
  qed
qed

lemma position_None_iff: "position P xs = None \<longleftrightarrow> (\<forall>x \<in> set xs. \<not> P x)"
  by (induction xs) auto

lemma position_distinct:
  assumes "distinct (map f xs)" and "i < length xs"
  shows "position (\<lambda>x. f x = f (xs ! i)) xs = Some i"
  using assms by (auto simp: position_Some_iff distinct_conv_nth)

lemma filter_le_1:
  "length (filter P xs) \<le> 1 \<longleftrightarrow> (\<forall>i < length xs. \<forall>j < length xs. P (xs ! i) \<and> P (xs ! j) \<longrightarrow> i = j)"
proof -
  have "finite {i. i < length xs \<and> P (xs ! i)}" by simp
  then show ?thesis
    by (auto simp: length_filter_conv_card One_nat_def card_le_Suc0_iff_eq)
qed

subsection \<open>Machine integers\<close>

type_synonym u8 = "8 word"
type_synonym u16 = "16 word"
type_synonym u32 = "32 word"
type_synonym u64 = "64 word"

abbreviation u32_max :: u32 where "u32_max \<equiv> - 1"
abbreviation u64_max :: u64 where "u64_max \<equiv> - 1"

definition checked_add :: "'a::len word \<Rightarrow> 'a word \<Rightarrow> 'a word option" where
  "checked_add a b = (if unat a + unat b < 2 ^ LENGTH('a) then Some (a + b) else None)"

definition checked_sub :: "'a::len word \<Rightarrow> 'a word \<Rightarrow> 'a word option" where
  "checked_sub a b = (if b \<le> a then Some (a - b) else None)"

definition checked_mul :: "'a::len word \<Rightarrow> 'a word \<Rightarrow> 'a word option" where
  "checked_mul a b = (if unat a * unat b < 2 ^ LENGTH('a) then Some (a * b) else None)"

definition saturating_add :: "'a::len word \<Rightarrow> 'a word \<Rightarrow> 'a word" where
  "saturating_add a b = (if unat a + unat b < 2 ^ LENGTH('a) then a + b else - 1)"

definition saturating_sub :: "'a::len word \<Rightarrow> 'a word \<Rightarrow> 'a word" where
  "saturating_sub a b = (if b \<le> a then a - b else 0)"

definition saturating_mul :: "'a::len word \<Rightarrow> 'a word \<Rightarrow> 'a word" where
  "saturating_mul a b = (if unat a * unat b < 2 ^ LENGTH('a) then a * b else - 1)"

definition saturating_pow :: "'a::len word \<Rightarrow> nat \<Rightarrow> 'a word" where
  "saturating_pow a n = (if unat a ^ n < 2 ^ LENGTH('a) then a ^ n else - 1)"

definition div_ceil :: "'a::len word \<Rightarrow> 'a word \<Rightarrow> 'a word" where
  "div_ceil a b = (if a mod b = 0 then a div b else a div b + 1)"

definition abs_diff :: "'a::len word \<Rightarrow> 'a word \<Rightarrow> 'a word" where
  "abs_diff a b = (if a < b then b - a else a - b)"

lemma unat_max_word: "unat (- 1 :: 'a::len word) = 2 ^ LENGTH('a) - 1"
  by (simp add: unsigned_minus_1_eq_mask mask_eq_exp_minus_1)

lemma unat_add_no_overflow:
  fixes a b :: "'a::len word"
  shows "unat a + unat b < 2 ^ LENGTH('a) \<Longrightarrow> unat (a + b) = unat a + unat b"
  by (simp add: unat_word_ariths)

lemma checked_add_Some [word_facts]:
  fixes a b c :: "'a::len word"
  shows "checked_add a b = Some c \<longleftrightarrow>
    unat a + unat b < 2 ^ LENGTH('a) \<and> unat c = unat a + unat b"
  by (auto simp: checked_add_def unat_add_no_overflow word_unat_eq_iff)

lemma checked_add_None [word_facts]:
  fixes a b :: "'a::len word"
  shows "checked_add a b = None \<longleftrightarrow> 2 ^ LENGTH('a) \<le> unat a + unat b"
  by (auto simp: checked_add_def)

lemma checked_sub_Some [word_facts]:
  fixes a b c :: "'a::len word"
  shows "checked_sub a b = Some c \<longleftrightarrow> unat b \<le> unat a \<and> unat c = unat a - unat b"
  by (auto simp: checked_sub_def word_le_nat_alt unat_sub word_unat_eq_iff)

lemma checked_sub_None [word_facts]:
  fixes a b :: "'a::len word"
  shows "checked_sub a b = None \<longleftrightarrow> unat a < unat b"
  by (auto simp: checked_sub_def word_le_nat_alt)

lemma checked_mul_Some [word_facts]:
  fixes a b c :: "'a::len word"
  shows "checked_mul a b = Some c \<longleftrightarrow>
    unat a * unat b < 2 ^ LENGTH('a) \<and> unat c = unat a * unat b"
  by (auto simp: checked_mul_def unat_word_ariths word_unat_eq_iff)

lemma unat_saturating_add [word_facts]:
  fixes a b :: "'a::len word"
  shows "unat (saturating_add a b) = min (unat a + unat b) (2 ^ LENGTH('a) - 1)"
  by (auto simp: saturating_add_def unat_add_no_overflow unat_max_word min_def)

lemma unat_saturating_sub [word_facts]:
  fixes a b :: "'a::len word"
  shows "unat (saturating_sub a b) = unat a - unat b"
  by (auto simp: saturating_sub_def word_le_nat_alt unat_sub)

lemma unat_saturating_mul [word_facts]:
  fixes a b :: "'a::len word"
  shows "unat (saturating_mul a b) = min (unat a * unat b) (2 ^ LENGTH('a) - 1)"
proof (cases "unat a * unat b < 2 ^ LENGTH('a)")
  case True
  then show ?thesis by (simp add: saturating_mul_def unat_word_ariths)
next
  case False
  then show ?thesis by (simp add: saturating_mul_def unat_max_word)
qed

lemma unat_power_no_overflow:
  fixes a :: "'a::len word"
  shows "unat a ^ n < 2 ^ LENGTH('a) \<Longrightarrow> unat (a ^ n) = unat a ^ n"
proof (induction n)
  case 0
  show ?case by simp
next
  case (Suc n)
  have "unat a ^ n < 2 ^ LENGTH('a) \<or> unat a = 0"
    using Suc.prems by (cases "unat a") (auto intro: le_less_trans [rotated])
  with Suc show ?case by (auto simp: unat_word_ariths)
qed

lemma unat_saturating_pow [word_facts]:
  fixes a :: "'a::len word"
  shows "unat (saturating_pow a n) = min (unat a ^ n) (2 ^ LENGTH('a) - 1)"
proof (cases "unat a ^ n < 2 ^ LENGTH('a)")
  case True
  then show ?thesis by (simp add: saturating_pow_def unat_power_no_overflow)
next
  case False
  then show ?thesis by (simp add: saturating_pow_def unat_max_word)
qed

lemma unat_div_ceil [word_facts]:
  fixes a b :: "'a::len word"
  assumes "0 < unat b"
  shows "unat (div_ceil a b) = (unat a + unat b - 1) div unat b"
proof (cases "a mod b = 0")
  case True
  then have "unat a mod unat b = 0" by (metis unat_0 unat_mod_distrib)
  then obtain k where k: "unat a = unat b * k" by auto
  have "unat a + unat b - 1 = (unat b - 1) + unat b * k"
    using assms k by simp
  then have "(unat a + unat b - 1) div unat b = k"
    using assms by (simp only: div_mult_self2) simp
  moreover have "unat (a div b) = k"
    using assms k by (simp add: unat_div_distrib)
  ultimately show ?thesis using True by (simp add: div_ceil_def)
next
  case False
  then have m: "0 < unat a mod unat b" by (metis gr0I unat_eq_0 unat_mod_distrib)
  have split: "unat a = unat b * (unat a div unat b) + unat a mod unat b" by simp
  have le: "unat a div unat b < unat a"
  proof -
    have "unat b \<noteq> 1" using m by auto
    moreover have "0 < unat a" using m by (cases "unat a") auto
    ultimately show ?thesis using assms by (intro div_less_dividend) auto
  qed
  have "unat (a div b + 1) = unat a div unat b + 1"
  proof -
    have "unat a < 2 ^ LENGTH('a)" by (rule unsigned_less)
    with le have "unat a div unat b + 1 < 2 ^ LENGTH('a)" by linarith
    then show ?thesis
      by (simp add: unat_add_no_overflow unat_div_distrib)
  qed
  moreover have "(unat a + unat b - 1) div unat b = unat a div unat b + 1"
  proof -
    have "unat a + unat b - 1 = unat b * (unat a div unat b + 1) + (unat a mod unat b - 1)"
    proof -
      have "unat b * (unat a div unat b + 1) = unat b * (unat a div unat b) + unat b" by simp
      with m split show ?thesis by linarith
    qed
    moreover have "unat a mod unat b - 1 < unat b"
      using assms by (meson less_imp_diff_less mod_less_divisor)
    ultimately show ?thesis using assms by (simp only: div_mult_self4) simp
  qed
  ultimately show ?thesis using False by (simp add: div_ceil_def)
qed

lemma unat_abs_diff [word_facts]:
  fixes a b :: "'a::len word"
  shows "unat (abs_diff a b) = (if unat a < unat b then unat b - unat a else unat a - unat b)"
  by (auto simp: abs_diff_def word_less_nat_alt unat_sub word_le_nat_alt)

lemma unat_max [word_facts]:
  fixes a b :: "'a::len word"
  shows "unat (max a b) = max (unat a) (unat b)"
  by (auto simp: max_def word_le_nat_alt)

lemma unat_min [word_facts]:
  fixes a b :: "'a::len word"
  shows "unat (min a b) = min (unat a) (unat b)"
  by (auto simp: min_def word_le_nat_alt)

lemma unat_bound: "unat (a :: 'a::len word) < 2 ^ LENGTH('a)"
  by (rule unsigned_less)

lemma unat_u32_to_u64 [word_facts]: "unat (ucast (a :: u32) :: u64) = unat a"
proof -
  have "unat a < 2 ^ 64" using unat_bound [of a] by simp
  then show ?thesis by (simp add: unsigned_ucast_eq take_bit_nat_eq_self)
qed

lemma unat_of_nat_word: "n < 2 ^ LENGTH('a) \<Longrightarrow> unat (of_nat n :: 'a::len word) = n"
  by (simp add: unsigned_of_nat take_bit_nat_eq_self)

text \<open>Quantification over a word whose value is given.\<close>

lemma ex_unat: "(\<exists>y :: u64. unat y = n \<and> P y) \<longleftrightarrow> n < 2 ^ 64 \<and> P (of_nat n)"
proof
  assume "\<exists>y :: u64. unat y = n \<and> P y"
  then obtain y :: u64 where "unat y = n" "P y" by blast
  then show "n < 2 ^ 64 \<and> P (of_nat n)" using unat_bound [of y] by auto
next
  assume "n < 2 ^ 64 \<and> P (of_nat n)"
  then show "\<exists>y :: u64. unat y = n \<and> P y"
    by (intro exI [of _ "of_nat n"]) (simp add: unat_of_nat_word)
qed

lemma ex_unat_eq: "(\<exists>y :: u64. unat y = n) \<longleftrightarrow> n < 2 ^ 64"
  using ex_unat [of n "\<lambda>_. True"] by simp

lemma le_saturating_add: "a \<le> saturating_add a (b :: 'a::len word)"
proof -
  have "unat a \<le> min (unat a + unat b) (2 ^ LENGTH('a) - 1)"
    using unat_bound [of a] by (intro min.boundedI) linarith+
  then show ?thesis by (simp add: word_le_nat_alt unat_saturating_add)
qed

lemma saturating_add_nonzero: "b \<noteq> 0 \<Longrightarrow> saturating_add a (b :: 'a::len word) \<noteq> 0"
proof -
  assume "b \<noteq> 0"
  then have "0 < unat b" by (simp add: unat_gt_0)
  moreover have "0 < (2::nat) ^ LENGTH('a) - 1"
    using one_less_power [of "2::nat" "LENGTH('a)"] by simp
  ultimately have "0 < unat (saturating_add a b)" by (simp only: unat_saturating_add)
  then show ?thesis by auto
qed

lemmas word_order_facts = word_le_nat_alt word_less_nat_alt word_unat_eq_iff

end
