(* ===== verification/Text.thy ===== *)
theory Text
  imports Prelude
begin

section \<open>Strings as UTF-8 bytes\<close>

text \<open>
  A Rust \<open>str\<close>, \<open>String\<close>, \<open>Path\<close> or byte slice is an Isabelle \<open>string\<close>: a list of
  \<open>char\<close>, which is exactly one byte. \<open>str::len\<close> is therefore \<open>length\<close>, and a test on
  ASCII characters is a test on bytes, because a byte below 128 never occurs inside a
  multi-byte UTF-8 sequence. The operations below are the parts of the standard library
  that the modelled code calls; those that look at whole Unicode characters (\<open>trim\<close>,
  \<open>encode_utf16\<close>, \<open>char::is_control\<close>, \<open>from_utf8\<close>) are spelled out on the encoded bytes.
\<close>

type_synonym bytes = "char list"

named_theorems text_simps "evaluation and inversion of the text operations"

abbreviation byte :: "char \<Rightarrow> nat" where "byte c \<equiv> of_char c"
abbreviation CR :: char where "CR \<equiv> CHR 0x0D"
abbreviation LF :: char where "LF \<equiv> CHR 0x0A"
abbreviation NUL :: char where "NUL \<equiv> CHR 0x00"
abbreviation CRLF :: string where "CRLF \<equiv> [CR, LF]"

subsection \<open>ASCII classes\<close>

definition is_digit :: "char \<Rightarrow> bool" where
  "is_digit c \<longleftrightarrow> 48 \<le> byte c \<and> byte c \<le> 57"

definition is_upper :: "char \<Rightarrow> bool" where
  "is_upper c \<longleftrightarrow> 65 \<le> byte c \<and> byte c \<le> 90"

definition is_lower :: "char \<Rightarrow> bool" where
  "is_lower c \<longleftrightarrow> 97 \<le> byte c \<and> byte c \<le> 122"

definition is_alpha :: "char \<Rightarrow> bool" where
  "is_alpha c \<longleftrightarrow> is_upper c \<or> is_lower c"

definition is_alnum :: "char \<Rightarrow> bool" where
  "is_alnum c \<longleftrightarrow> is_alpha c \<or> is_digit c"

definition is_lower_hex :: "char \<Rightarrow> bool" where
  "is_lower_hex c \<longleftrightarrow> is_digit c \<or> (97 \<le> byte c \<and> byte c \<le> 102)"

definition is_hexdigit :: "char \<Rightarrow> bool" where
  "is_hexdigit c \<longleftrightarrow> is_lower_hex c \<or> (65 \<le> byte c \<and> byte c \<le> 70)"

definition to_lower :: "char \<Rightarrow> char" where
  "to_lower c = (if is_upper c then char_of (byte c + 32) else c)"

definition to_upper :: "char \<Rightarrow> char" where
  "to_upper c = (if is_lower c then char_of (byte c - 32) else c)"

definition eq_ignore_ascii_case :: "string \<Rightarrow> string \<Rightarrow> bool" where
  "eq_ignore_ascii_case a b \<longleftrightarrow> map to_lower a = map to_lower b"

lemmas ascii_defs =
  is_digit_def is_upper_def is_lower_def is_alpha_def is_alnum_def is_lower_hex_def is_hexdigit_def

lemma lower_hex_hexdigit: "is_lower_hex c \<Longrightarrow> is_hexdigit c"
  by (simp add: is_hexdigit_def)

subsection \<open>Searching and cutting\<close>

fun strip_prefix :: "string \<Rightarrow> string \<Rightarrow> string option" where
  "strip_prefix [] s = Some s"
| "strip_prefix (p # ps) [] = None"
| "strip_prefix (p # ps) (c # cs) = (if p = c then strip_prefix ps cs else None)"

definition strip_suffix :: "string \<Rightarrow> string \<Rightarrow> string option" where
  "strip_suffix p s = map_option rev (strip_prefix (rev p) (rev s))"

definition starts_with :: "string \<Rightarrow> string \<Rightarrow> bool" where
  "starts_with p s \<longleftrightarrow> strip_prefix p s \<noteq> None"

definition ends_with :: "string \<Rightarrow> string \<Rightarrow> bool" where
  "ends_with p s \<longleftrightarrow> strip_suffix p s \<noteq> None"

definition ends_with_any :: "char list \<Rightarrow> string \<Rightarrow> bool" where
  "ends_with_any cs s \<longleftrightarrow> s \<noteq> [] \<and> last s \<in> set cs"

definition starts_with_any :: "char list \<Rightarrow> string \<Rightarrow> bool" where
  "starts_with_any cs s \<longleftrightarrow> s \<noteq> [] \<and> hd s \<in> set cs"

definition contains_any :: "char list \<Rightarrow> string \<Rightarrow> bool" where
  "contains_any cs s \<longleftrightarrow> list_ex (\<lambda>c. c \<in> set cs) s"

fun split_once :: "char \<Rightarrow> string \<Rightarrow> (string \<times> string) option" where
  "split_once d [] = None"
| "split_once d (c # cs) =
     (if c = d then Some ([], cs)
      else map_option (\<lambda>(a, b). (c # a, b)) (split_once d cs))"

fun split_on :: "char \<Rightarrow> string \<Rightarrow> string list" where
  "split_on d [] = [[]]"
| "split_on d (c # cs) =
     (if c = d then [] # split_on d cs
      else (case split_on d cs of [] \<Rightarrow> [[c]] | w # ws \<Rightarrow> (c # w) # ws))"

fun split_crlf :: "string \<Rightarrow> string list" where
  "split_crlf [] = [[]]"
| "split_crlf [c] = [[c]]"
| "split_crlf (c # d # r) =
     (if c = CR \<and> d = LF then [] # split_crlf r
      else (case split_crlf (d # r) of [] \<Rightarrow> [[c]] | w # ws \<Rightarrow> (c # w) # ws))"

fun remove_crlf :: "string \<Rightarrow> string" where
  "remove_crlf [] = []"
| "remove_crlf [c] = [c]"
| "remove_crlf (c # d # r) =
     (if c = CR \<and> d = LF then remove_crlf r else c # remove_crlf (d # r))"

text \<open>\<open>replace("\r\n", "\n")\<close>.\<close>

fun crlf_to_lf :: "string \<Rightarrow> string" where
  "crlf_to_lf [] = []"
| "crlf_to_lf [c] = [c]"
| "crlf_to_lf (c # d # r) =
     (if c = CR \<and> d = LF then LF # crlf_to_lf r else c # crlf_to_lf (d # r))"

text \<open>A text written with \<open>\r\n\<close> after every line.\<close>

definition crlf_text :: "string list \<Rightarrow> string" where
  "crlf_text ls = concat (map (\<lambda>l. l @ CRLF) ls)"

text \<open>
  \<open>str::lines\<close>: the pieces between line feeds; a piece that ends in a line feed loses one
  trailing carriage return, and a final empty piece is not a line.
\<close>

definition drop_cr :: "string \<Rightarrow> string" where
  "drop_cr s = (if s \<noteq> [] \<and> last s = CR then butlast s else s)"

definition str_lines :: "string \<Rightarrow> string list" where
  "str_lines s = (let ps = split_on LF s in
     map drop_cr (butlast ps) @ (if last ps = [] then [] else [last ps]))"

lemma strip_prefix_append [simp]: "strip_prefix p (p @ s) = Some s"
  by (induction p) simp_all

lemma strip_prefix_Some_iff: "strip_prefix p s = Some r \<longleftrightarrow> s = p @ r"
  by (induction p s rule: strip_prefix.induct) auto

lemma starts_with_iff: "starts_with p s \<longleftrightarrow> (\<exists>r. s = p @ r)"
  by (simp add: starts_with_def strip_prefix_Some_iff)

lemma contains_any_iff: "contains_any cs s \<longleftrightarrow> (\<exists>c \<in> set s. c \<in> set cs)"
  by (simp add: contains_any_def list_ex_iff)

lemma contains_any_append [simp]:
  "contains_any cs (a @ b) \<longleftrightarrow> contains_any cs a \<or> contains_any cs b"
  by (auto simp: contains_any_iff)

lemma split_once_Some:
  "split_once d s = Some (a, b) \<Longrightarrow> s = a @ d # b \<and> d \<notin> set a"
  by (induction s arbitrary: a b) (auto split: if_splits)

lemma split_once_append: "d \<notin> set a \<Longrightarrow> split_once d (a @ d # b) = Some (a, b)"
  by (induction a) auto

lemma split_on_nonempty [simp]: "split_on d s \<noteq> []"
  by (induction s) (auto split: list.splits)

lemma split_crlf_nonempty [simp]: "split_crlf s \<noteq> []"
  by (induction s rule: split_crlf.induct) (auto split: list.splits)

lemma split_crlf_line:
  "CR \<notin> set l \<Longrightarrow> split_crlf (l @ CR # LF # r) = l # split_crlf r"
proof (induction l)
  case Nil
  show ?case by simp
next
  case (Cons c l)
  then have IH: "split_crlf (l @ CR # LF # r) = l # split_crlf r" and "c \<noteq> CR" by auto
  then show ?case by (cases l) (auto split: list.splits)
qed

lemma remove_crlf_line:
  "CR \<notin> set l \<Longrightarrow> remove_crlf (l @ CR # LF # r) = l @ remove_crlf r"
proof (induction l)
  case Nil
  show ?case by simp
next
  case (Cons c l)
  then show ?case by (cases l) auto
qed

lemma crlf_to_lf_line:
  "CR \<notin> set l \<Longrightarrow> crlf_to_lf (l @ CR # LF # r) = l @ LF # crlf_to_lf r"
proof (induction l)
  case Nil
  show ?case by simp
next
  case (Cons c l)
  then show ?case by (cases l) auto
qed

lemma split_on_line: "d \<notin> set l \<Longrightarrow> split_on d (l @ d # r) = l # split_on d r"
  by (induction l) auto

definition plain_line :: "string \<Rightarrow> bool" where
  "plain_line l \<longleftrightarrow> CR \<notin> set l \<and> LF \<notin> set l"

lemma crlf_text_simps [simp]:
  "crlf_text [] = []"
  "crlf_text (l # ls) = l @ CR # LF # crlf_text ls"
  by (simp_all add: crlf_text_def)

lemma crlf_to_lf_text:
  "list_all plain_line ls \<Longrightarrow> crlf_to_lf (crlf_text ls) = concat (map (\<lambda>l. l @ [LF]) ls)"
  by (induction ls) (auto simp: crlf_to_lf_line plain_line_def)

lemma split_on_lf_text:
  "list_all plain_line ls \<Longrightarrow> split_on LF (concat (map (\<lambda>l. l @ [LF]) ls)) = ls @ [[]]"
  by (induction ls) (auto simp: split_on_line plain_line_def)

lemma drop_cr_plain: "plain_line l \<Longrightarrow> drop_cr l = l"
  by (auto simp: drop_cr_def plain_line_def dest: last_in_set)

lemma str_lines_text:
  "list_all plain_line ls \<Longrightarrow> str_lines (crlf_to_lf (crlf_text ls)) = ls"
  by (simp add: str_lines_def crlf_to_lf_text split_on_lf_text drop_cr_plain list_all_iff map_idI)

lemma crlf_text_no_cr:
  "list_all plain_line ls \<Longrightarrow> CR \<notin> set (crlf_to_lf (crlf_text ls))"
  by (induction ls) (auto simp: crlf_to_lf_line plain_line_def)

subsection \<open>Decimal numbers\<close>

definition digit_char :: "nat \<Rightarrow> char" where
  "digit_char d = char_of (48 + d)"

function show_nat :: "nat \<Rightarrow> string" where
  "show_nat n = (if n < 10 then [digit_char n] else show_nat (n div 10) @ [digit_char (n mod 10)])"
  by pat_completeness auto
termination
  by (relation "measure id") auto

declare show_nat.simps [simp del]

text \<open>\<open>digits_val\<close> is the accumulation loop of \<open>from_str_radix(_, 10)\<close>, without the bound.\<close>

definition digits_val :: "string \<Rightarrow> nat" where
  "digits_val s = foldl (\<lambda>a c. 10 * a + (byte c - 48)) 0 s"

text \<open>\<open>str::parse::<u64>\<close> and its smaller companions: an optional plus sign, at least one digit, nothing else, within the width.\<close>

definition parse_uint :: "nat \<Rightarrow> string \<Rightarrow> nat option" where
  "parse_uint bound s =
     (let ds = (case s of [] \<Rightarrow> [] | c # cs \<Rightarrow> (if c = CHR ''+'' then cs else s)) in
      if ds \<noteq> [] \<and> list_all is_digit ds \<and> digits_val ds < bound
      then Some (digits_val ds) else None)"

text \<open>\<open>format!("{index:04}")\<close>: left padding with zeros to a minimum width.\<close>

definition pad_left :: "nat \<Rightarrow> string \<Rightarrow> string" where
  "pad_left w s = replicate (w - length s) CHR ''0'' @ s"

lemma byte_char_of [simp]: "n < 256 \<Longrightarrow> byte (char_of n) = n"
  by simp

lemma byte_less [simp]: "byte c < 256"
  by (rule nat_of_char_less_256)

lemma byte_digit_char [simp]: "d < 10 \<Longrightarrow> byte (digit_char d) = 48 + d"
  by (simp add: digit_char_def)

lemma is_digit_digit_char [simp]: "d < 10 \<Longrightarrow> is_digit (digit_char d)"
  by (simp add: is_digit_def)

lemma show_nat_digits: "list_all is_digit (show_nat n)"
proof (induction n rule: show_nat.induct)
  case (1 n)
  then show ?case by (subst show_nat.simps) auto
qed

lemma show_nat_nonempty [simp]: "show_nat n \<noteq> []"
  by (subst show_nat.simps) simp

lemma digits_val_snoc: "digits_val (s @ [c]) = 10 * digits_val s + (byte c - 48)"
  by (simp add: digits_val_def)

lemma digits_val_show_nat [simp]: "digits_val (show_nat n) = n"
proof (induction n rule: show_nat.induct)
  case (1 n)
  show ?case
  proof (cases "n < 10")
    case True
    then show ?thesis by (subst show_nat.simps) (simp add: digits_val_def)
  next
    case False
    with 1 show ?thesis by (subst show_nat.simps) (simp add: digits_val_snoc)
  qed
qed

lemma show_nat_inj: "show_nat m = show_nat n \<Longrightarrow> m = n"
  by (metis digits_val_show_nat)

lemma show_nat_hd: "hd (show_nat n) = CHR ''0'' \<longleftrightarrow> n = 0"
proof (induction n rule: show_nat.induct)
  case (1 n)
  show ?case
  proof (cases "n < 10")
    case True
    have "digit_char n = CHR ''0'' \<longleftrightarrow> n = 0"
    proof
      assume "digit_char n = CHR ''0''"
      then have "byte (digit_char n) = byte (CHR ''0'')" by simp
      with True show "n = 0" by simp
    next
      assume "n = 0"
      then show "digit_char n = CHR ''0''" by (intro of_char_eqI [where ?'a = nat]) simp
    qed
    with True show ?thesis by (subst show_nat.simps) simp
  next
    case False
    with 1 show ?thesis by (subst show_nat.simps) auto
  qed
qed

lemma show_nat_zero_prefix: "1 < length (show_nat n) \<Longrightarrow> hd (show_nat n) \<noteq> CHR ''0''"
proof
  assume l: "1 < length (show_nat n)" and "hd (show_nat n) = CHR ''0''"
  then have "n = 0" by (simp add: show_nat_hd)
  with l show False by (subst (asm) show_nat.simps) simp
qed


lemma parse_uint_show_nat [simp]: "n < bound \<Longrightarrow> parse_uint bound (show_nat n) = Some n"
proof -
  assume n: "n < bound"
  obtain c cs where s: "show_nat n = c # cs" by (cases "show_nat n") auto
  have "is_digit c" using show_nat_digits [of n] s by simp
  then have "c \<noteq> CHR ''+''" by (auto simp: is_digit_def)
  with n s show ?thesis
    using show_nat_digits [of n] digits_val_show_nat [of n] by (simp add: parse_uint_def)
qed

lemma parse_uint_bound: "parse_uint bound s = Some n \<Longrightarrow> n < bound"
  by (auto simp: parse_uint_def Let_def split: if_splits)

lemma parse_uint_nonempty: "parse_uint bound s = Some n \<Longrightarrow> s \<noteq> []"
  by (auto simp: parse_uint_def Let_def)

subsection \<open>Hexadecimal\<close>

definition hex_char :: "nat \<Rightarrow> char" where
  "hex_char n = (if n < 10 then char_of (48 + n) else char_of (87 + n))"

definition hex_val :: "char \<Rightarrow> nat" where
  "hex_val c = (if is_digit c then byte c - 48
     else if is_lower c then byte c - 87 else byte c - 55)"

fun hex_pairs :: "string \<Rightarrow> bytes" where
  "hex_pairs (a # b # r) = char_of (16 * hex_val a + hex_val b) # hex_pairs r"
| "hex_pairs _ = []"

definition hex_bytes :: "bytes \<Rightarrow> string" where
  "hex_bytes bs = concat (map (\<lambda>b. [hex_char (byte b div 16), hex_char (byte b mod 16)]) bs)"

lemma byte_hex_char: "n < 16 \<Longrightarrow> byte (hex_char n) = (if n < 10 then 48 + n else 87 + n)"
  by (simp add: hex_char_def)

lemma is_lower_hex_hex_char [simp]: "n < 16 \<Longrightarrow> is_lower_hex (hex_char n)"
  by (simp add: is_lower_hex_def is_digit_def byte_hex_char)

lemma hex_val_hex_char [simp]: "n < 16 \<Longrightarrow> hex_val (hex_char n) = n"
  by (simp add: hex_val_def is_digit_def is_lower_def byte_hex_char)

lemma hex_bytes_simps [simp]:
  "hex_bytes [] = []"
  "hex_bytes (b # bs) = hex_char (byte b div 16) # hex_char (byte b mod 16) # hex_bytes bs"
  by (simp_all add: hex_bytes_def)

lemma byte_div_16 [simp]: "byte c div 16 < 16"
  using byte_less [of c] by linarith

lemma length_hex_bytes [simp]: "length (hex_bytes bs) = 2 * length bs"
  by (induction bs) simp_all

lemma hex_bytes_lower: "list_all is_lower_hex (hex_bytes bs)"
  by (induction bs) simp_all

lemma hex_pairs_hex_bytes [simp]: "hex_pairs (hex_bytes bs) = bs"
  by (induction bs) simp_all

lemma length_hex_pairs: "length (hex_pairs s) = length s div 2"
  by (induction s rule: hex_pairs.induct) simp_all

lemma hex_bytes_eq_Nil [simp]: "hex_bytes bs = [] \<longleftrightarrow> bs = []"
  by (cases bs) simp_all

lemma lower_hex_val_bound: "is_lower_hex c \<Longrightarrow> hex_val c < 16"
  by (auto simp: is_lower_hex_def is_digit_def is_lower_def hex_val_def)

lemma hex_char_hex_val: "is_lower_hex c \<Longrightarrow> hex_char (hex_val c) = c"
proof -
  assume "is_lower_hex c"
  then have "byte (hex_char (hex_val c)) = byte c"
    by (auto simp: is_lower_hex_def is_digit_def is_lower_def hex_val_def hex_char_def)
  then show ?thesis by (rule of_char_eqI)
qed

lemma hex_bytes_hex_pairs:
  "even (length s) \<Longrightarrow> list_all is_lower_hex s \<Longrightarrow> hex_bytes (hex_pairs s) = s"
proof (induction s rule: hex_pairs.induct)
  case (1 a b r)
  then have "hex_val a < 16" "hex_val b < 16" by (auto dest: lower_hex_val_bound)
  then have "byte (char_of (16 * hex_val a + hex_val b)) = 16 * hex_val a + hex_val b"
    by (intro byte_char_of) linarith
  with 1 \<open>hex_val b < 16\<close> show ?case by (simp add: hex_char_hex_val)
qed simp_all

subsection \<open>White space, control characters, UTF-16 length\<close>

text \<open>
  \<open>char::is_whitespace\<close> on the encoded bytes: the number of bytes of a white-space
  character at the front of the string, 0 if there is none. The second function reads the
  same characters from the back, on the reversed bytes.
\<close>

definition ws3 :: "nat \<Rightarrow> nat \<Rightarrow> nat \<Rightarrow> bool" where
  "ws3 a b c \<longleftrightarrow>
     (a = 0xE1 \<and> b = 0x9A \<and> c = 0x80) \<or>
     (a = 0xE2 \<and> b = 0x80 \<and> ((0x80 \<le> c \<and> c \<le> 0x8A) \<or> c = 0xA8 \<or> c = 0xA9 \<or> c = 0xAF)) \<or>
     (a = 0xE2 \<and> b = 0x81 \<and> c = 0x9F) \<or>
     (a = 0xE3 \<and> b = 0x80 \<and> c = 0x80)"

definition ws2 :: "nat \<Rightarrow> nat \<Rightarrow> bool" where
  "ws2 a b \<longleftrightarrow> a = 0xC2 \<and> (b = 0x85 \<or> b = 0xA0)"

definition ws1 :: "nat \<Rightarrow> bool" where
  "ws1 a \<longleftrightarrow> (9 \<le> a \<and> a \<le> 13) \<or> a = 32"

definition ws_len :: "bool \<Rightarrow> string \<Rightarrow> nat" where
  "ws_len back s =
     (if s \<noteq> [] \<and> ws1 (byte (s ! 0)) then 1
      else if 2 \<le> length s \<and> (if back then ws2 (byte (s ! 1)) (byte (s ! 0))
                              else ws2 (byte (s ! 0)) (byte (s ! 1))) then 2
      else if 3 \<le> length s \<and> (if back then ws3 (byte (s ! 2)) (byte (s ! 1)) (byte (s ! 0))
                              else ws3 (byte (s ! 0)) (byte (s ! 1)) (byte (s ! 2))) then 3
      else 0)"

function trim_ws :: "bool \<Rightarrow> string \<Rightarrow> string" where
  "trim_ws back s = (if ws_len back s = 0 then s else trim_ws back (drop (ws_len back s) s))"
  by pat_completeness auto
termination
  by (relation "measure (\<lambda>(back, s). length s)") (auto simp: ws_len_def split: if_splits)

declare trim_ws.simps [simp del]

definition trim :: "string \<Rightarrow> string" where
  "trim s = rev (trim_ws True (rev (trim_ws False s)))"

definition printable :: "char \<Rightarrow> bool" where
  "printable c \<longleftrightarrow> 33 \<le> byte c \<and> byte c \<le> 126"

lemma trim_ws_stop: "ws_len back s = 0 \<Longrightarrow> trim_ws back s = s"
  by (subst trim_ws.simps) simp

lemma ws_len_printable: "s = [] \<or> printable (hd s) \<Longrightarrow> ws_len back s = 0"
  by (cases s; cases "tl s"; cases "tl (tl s)")
    (auto simp: ws_len_def printable_def ws1_def ws2_def ws3_def)

lemma trim_id: "s = [] \<or> printable (hd s) \<and> printable (last s) \<Longrightarrow> trim s = s"
  by (auto simp: trim_def trim_ws_stop ws_len_printable hd_rev)

lemma trim_printable: "list_all printable s \<Longrightarrow> trim s = s"
  by (cases s) (auto intro!: trim_id simp: list_all_iff)

text \<open>White space is taken off completely, and only there.\<close>

lemma length_trim_ws: "length (trim_ws b s) \<le> length s"
proof (induction b s rule: trim_ws.induct)
  case (1 b s)
  then show ?case
    by (subst trim_ws.simps) (auto intro: le_trans)
qed

lemma trim_ws_shorter: "ws_len b s \<noteq> 0 \<Longrightarrow> length (trim_ws b s) < length s"
proof -
  assume n: "ws_len b s \<noteq> 0"
  then have "s \<noteq> []" by (auto simp: ws_len_def split: if_splits)
  with n have "length (drop (ws_len b s) s) < length s" by simp
  moreover have "trim_ws b s = trim_ws b (drop (ws_len b s) s)"
    using n by (subst trim_ws.simps) simp
  ultimately show ?thesis
    using length_trim_ws [of b "drop (ws_len b s) s"] by (metis le_less_trans)
qed

lemma ws_len_prefix: "ws_len False (u @ v) = 0 \<Longrightarrow> ws_len False u = 0"
  by (cases u; cases "tl u"; cases "tl (tl u)"; cases v)
    (auto simp: ws_len_def ws1_def ws2_def ws3_def split: if_splits)

lemma trim_ws_done: "ws_len b (trim_ws b s) = 0"
proof (induction b s rule: trim_ws.induct)
  case (1 b s)
  then show ?case by (cases "ws_len b s = 0") (subst trim_ws.simps, simp)+
qed

lemma trim_ws_suffix: "\<exists>p. s = p @ trim_ws b s"
proof (induction b s rule: trim_ws.induct)
  case (1 b s)
  show ?case
  proof (cases "ws_len b s = 0")
    case True
    then show ?thesis by (simp add: trim_ws_stop)
  next
    case False
    then obtain p where "drop (ws_len b s) s = p @ trim_ws b (drop (ws_len b s) s)" using 1 by blast
    moreover have "trim_ws b s = trim_ws b (drop (ws_len b s) s)"
      using False by (subst trim_ws.simps) simp
    ultimately have "s = (take (ws_len b s) s @ p) @ trim_ws b s"
      by (metis append.assoc append_take_drop_id)
    then show ?thesis by blast
  qed
qed

lemma trim_idem [simp]: "trim (trim s) = trim s"
proof -
  define t where "t = trim_ws False s"
  obtain p where "rev t = p @ trim_ws True (rev t)" using trim_ws_suffix by blast
  then have t: "t = rev (trim_ws True (rev t)) @ rev p" by (metis rev_append rev_rev_ident)
  have "ws_len False (rev (trim_ws True (rev t))) = 0"
    using ws_len_prefix trim_ws_done [of False s] t unfolding t_def [symmetric] by metis
  then show ?thesis
    by (simp add: trim_def t_def [symmetric] trim_ws_stop trim_ws_done)
qed

lemma lower_hex_printable: "is_lower_hex c \<Longrightarrow> printable c"
  by (auto simp: is_lower_hex_def is_digit_def printable_def)

lemma digit_printable: "is_digit c \<Longrightarrow> printable c"
  by (auto simp: is_digit_def printable_def)

lemma trim_hex_bytes [simp]: "trim (hex_bytes bs) = hex_bytes bs"
  using hex_bytes_lower [of bs]
  by (intro trim_printable) (auto simp: list_all_iff lower_hex_printable)

lemma trim_show_nat [simp]: "trim (show_nat n) = show_nat n"
  using show_nat_digits [of n]
  by (intro trim_printable) (auto simp: list_all_iff digit_printable)

definition is_continuation :: "char \<Rightarrow> bool" where
  "is_continuation c \<longleftrightarrow> 128 \<le> byte c \<and> byte c \<le> 191"

text \<open>\<open>encode_utf16().count()\<close>: one unit per character, two for those of four bytes.\<close>

definition utf16_len :: "string \<Rightarrow> nat" where
  "utf16_len s = length (filter (\<lambda>c. \<not> is_continuation c) s) + length (filter (\<lambda>c. 240 \<le> byte c) s)"

text \<open>\<open>chars().any(char::is_control)\<close>: U+0000 to U+001F, U+007F and U+0080 to U+009F.\<close>

fun has_control :: "string \<Rightarrow> bool" where
  "has_control [] = False"
| "has_control [c] = (byte c < 32 \<or> byte c = 127)"
| "has_control (c # d # r) =
     (byte c < 32 \<or> byte c = 127 \<or> (byte c = 0xC2 \<and> byte d \<le> 0x9F) \<or> has_control (d # r))"

subsection \<open>UTF-8 validity\<close>

text \<open>
  \<open>std::str::from_utf8\<close>: the well-formed sequences of one to four bytes, without overlong
  forms, surrogates and code points above U+10FFFF.
\<close>

definition cont :: "nat \<Rightarrow> bool" where
  "cont b \<longleftrightarrow> 0x80 \<le> b \<and> b \<le> 0xBF"

definition utf8_second :: "nat \<Rightarrow> nat \<Rightarrow> bool" where
  "utf8_second a b \<longleftrightarrow>
     (if a = 0xE0 then 0xA0 \<le> b \<and> b \<le> 0xBF
      else if a = 0xED then 0x80 \<le> b \<and> b \<le> 0x9F
      else if a = 0xF0 then 0x90 \<le> b \<and> b \<le> 0xBF
      else if a = 0xF4 then 0x80 \<le> b \<and> b \<le> 0x8F
      else cont b)"

definition utf8_width :: "nat \<Rightarrow> nat" where
  "utf8_width a = (if a < 0x80 then 1 else if 0xC2 \<le> a \<and> a \<le> 0xDF then 2
     else if 0xE0 \<le> a \<and> a \<le> 0xEF then 3 else if 0xF0 \<le> a \<and> a \<le> 0xF4 then 4 else 0)"

definition utf8_char :: "string \<Rightarrow> bool" where
  "utf8_char s \<longleftrightarrow> s \<noteq> [] \<and>
     (let w = utf8_width (byte (s ! 0)) in
      0 < w \<and> w \<le> length s \<and>
      (2 \<le> w \<longrightarrow> utf8_second (byte (s ! 0)) (byte (s ! 1))) \<and>
      (3 \<le> w \<longrightarrow> cont (byte (s ! 2))) \<and> (4 \<le> w \<longrightarrow> cont (byte (s ! 3))))"

function utf8_valid :: "string \<Rightarrow> bool" where
  "utf8_valid s =
     (if s = [] then True
      else if utf8_char s then utf8_valid (drop (utf8_width (byte (s ! 0))) s)
      else False)"
  by pat_completeness auto
termination
  by (relation "measure length") (auto simp: utf8_char_def Let_def)

declare utf8_valid.simps [simp del]

definition ascii :: "char \<Rightarrow> bool" where
  "ascii c \<longleftrightarrow> byte c < 128"

lemma utf8_valid_Nil [simp]: "utf8_valid []"
  by (subst utf8_valid.simps) simp

lemma utf8_valid_ascii_Cons: "ascii c \<Longrightarrow> utf8_valid (c # s) = utf8_valid s"
  by (subst utf8_valid.simps) (simp add: utf8_char_def utf8_width_def ascii_def)

lemma utf8_valid_ascii: "list_all ascii s \<Longrightarrow> utf8_valid s"
  by (induction s) (simp_all add: utf8_valid_ascii_Cons)

lemma printable_ascii: "printable c \<Longrightarrow> ascii c"
  by (simp add: printable_def ascii_def)

lemma printable_line: "list_all printable l \<Longrightarrow> plain_line l"
  by (auto simp: plain_line_def list_all_iff printable_def)

lemma utf8_valid_crlf_text: "list_all (list_all printable) ls \<Longrightarrow> utf8_valid (crlf_text ls)"
proof (rule utf8_valid_ascii)
  assume "list_all (list_all printable) ls"
  moreover have "ascii CR" "ascii LF" by (simp_all add: ascii_def)
  ultimately show "list_all ascii (crlf_text ls)"
    by (induction ls) (auto simp: list_all_iff printable_ascii)
qed

lemma length_show_nat: "0 < k \<Longrightarrow> n < 10 ^ k \<Longrightarrow> length (show_nat n) \<le> k"
proof (induction k arbitrary: n)
  case 0
  then show ?case by simp
next
  case (Suc k)
  show ?case
  proof (cases "n < 10")
    case True
    then show ?thesis by (subst show_nat.simps) simp
  next
    case False
    then have "0 < k" using Suc.prems by (cases k) auto
    moreover have "n div 10 < 10 ^ k" using Suc.prems(2) by (simp add: less_mult_imp_div_less mult.commute)
    ultimately have "length (show_nat (n div 10)) \<le> k" by (rule Suc.IH)
    with False show ?thesis by (subst show_nat.simps) simp
  qed
qed

lemma show_nat_printable [simp]: "list_all printable (show_nat n)"
  using show_nat_digits [of n] by (auto simp: list_all_iff digit_printable)

lemma hex_bytes_printable [simp]: "list_all printable (hex_bytes bs)"
  using hex_bytes_lower [of bs] by (auto simp: list_all_iff lower_hex_printable)

lemma lower_hex_printable_list: "list_all is_lower_hex s \<Longrightarrow> list_all printable s"
  by (auto simp: list_all_iff lower_hex_printable)

end
