(* ===== verification/OperationError.thy ===== *)
theory OperationError
  imports Text
begin

section \<open>Operation errors\<close>

text \<open>
  \<open>lr-core/src/operation/error.rs\<close>: the serializable error shared by checkpoints, retry and
  support bundles. \<open>std::io::Error\<close> is not code of the repository; what the code reads of
  it, its kind and its display text, is the record \<open>io_error\<close>.
\<close>

datatype op_error_kind =
  Validation | Io | CommandStart | CommandExit | Verification | Unsupported | Cancelled | State | Unknown

record op_error =
  err_kind :: op_error_kind
  err_code :: "string option"
  err_message :: string
  err_retryable :: bool

datatype io_kind =
  Interrupted | TimedOut | WouldBlock | NotConnected | NotFound | PermissionDenied | OtherIo string

record io_error =
  io_kind :: io_kind
  io_text :: string

fun io_kind_debug :: "io_kind \<Rightarrow> string" where
  "io_kind_debug Interrupted = ''Interrupted''"
| "io_kind_debug TimedOut = ''TimedOut''"
| "io_kind_debug WouldBlock = ''WouldBlock''"
| "io_kind_debug NotConnected = ''NotConnected''"
| "io_kind_debug NotFound = ''NotFound''"
| "io_kind_debug PermissionDenied = ''PermissionDenied''"
| "io_kind_debug (OtherIo name) = name"

definition is_transient_io_error :: "io_error \<Rightarrow> bool" where
  "is_transient_io_error e \<longleftrightarrow> io_kind e \<in> {Interrupted, TimedOut, WouldBlock, NotConnected}"

definition op_error_new :: "op_error_kind \<Rightarrow> string option \<Rightarrow> string \<Rightarrow> bool \<Rightarrow> op_error" where
  "op_error_new k c m r = \<lparr>err_kind = k, err_code = c, err_message = m, err_retryable = r\<rparr>"

definition validation_error :: "string \<Rightarrow> op_error" where
  "validation_error m = op_error_new Validation None m False"

definition state_error :: "string \<Rightarrow> op_error" where
  "state_error m = op_error_new State None m False"

definition verification_error :: "string \<Rightarrow> op_error" where
  "verification_error m = op_error_new Verification None m False"

definition command_start_error :: "string \<Rightarrow> io_error \<Rightarrow> op_error" where
  "command_start_error program e =
     op_error_new CommandStart (Some program)
       (''failed to start '' @ program @ '': '' @ io_text e) (is_transient_io_error e)"

definition show_int :: "int \<Rightarrow> string" where
  "show_int i = (if i < 0 then ''-'' @ show_nat (nat (- i)) else show_nat (nat i))"

definition command_exit_error :: "string \<Rightarrow> int option \<Rightarrow> string \<Rightarrow> op_error" where
  "command_exit_error program exit_code detail =
     op_error_new CommandExit (map_option show_int exit_code)
       (program @ '' failed: '' @ detail) False"

definition io_op_error :: "string \<Rightarrow> io_error \<Rightarrow> op_error" where
  "io_op_error action e =
     op_error_new Io (Some (io_kind_debug (io_kind e))) (action @ '': '' @ io_text e)
       (is_transient_io_error e)"

definition transient_io_error :: "string \<Rightarrow> string \<Rightarrow> op_error" where
  "transient_io_error action text = op_error_new Io None (action @ '': '' @ text) True"

definition cancelled_error :: "string \<Rightarrow> op_error" where
  "cancelled_error m = op_error_new Cancelled None m False"

definition op_error_display :: "op_error \<Rightarrow> string" where
  "op_error_display e = (case err_code e of
     Some c \<Rightarrow> err_message e @ '' ['' @ c @ '']'' | None \<Rightarrow> err_message e)"

lemmas op_error_defs = validation_error_def state_error_def verification_error_def
  command_start_error_def command_exit_error_def io_op_error_def transient_io_error_def
  cancelled_error_def op_error_new_def

text \<open>
  The constructors fix the retry intent: only I/O and command-start errors can be retryable,
  and those built from an \<open>io_error\<close> exactly when its kind is transient.
\<close>

lemma constructor_retryable [simp]:
  "\<not> err_retryable (validation_error m)" "\<not> err_retryable (state_error m)"
  "\<not> err_retryable (verification_error m)" "\<not> err_retryable (cancelled_error m)"
  "\<not> err_retryable (command_exit_error p c d)"
  "err_retryable (transient_io_error a t)"
  "err_retryable (io_op_error a e) = is_transient_io_error e"
  "err_retryable (command_start_error p e) = is_transient_io_error e"
  by (simp_all add: op_error_defs)

lemma constructor_kind [simp]:
  "err_kind (validation_error m) = Validation" "err_kind (state_error m) = State"
  "err_kind (verification_error m) = Verification" "err_kind (cancelled_error m) = Cancelled"
  "err_kind (command_exit_error p c d) = CommandExit" "err_kind (transient_io_error a t) = Io"
  "err_kind (io_op_error a e) = Io" "err_kind (command_start_error p e) = CommandStart"
  by (simp_all add: op_error_defs)

end
