(* ===== verification/Retry.thy ===== *)
theory Retry
  imports OperationError
begin

section \<open>Retry with a declared safety\<close>

text \<open>
  \<open>lr-core/src/operation/retry.rs\<close>. The retried closure is an argument: a function of the
  attempt number and of whatever state it works on. \<open>RetrySleeper::sleep\<close> is the list of the
  delays slept so far, in milliseconds. The \<open>for\<close> loop over \<open>1..=max_attempts\<close> is
  \<open>retry_from\<close>, structural in the number of attempts left.
\<close>

datatype retry_safety = Idempotent | NonIdempotent

record retry_policy =
  max_attempts :: u32
  initial_delay_ms :: u64
  max_delay_ms :: u64
  multiplier :: u32

datatype retry_stop_reason = StopNonIdempotent | PermanentError | AttemptsExhausted

datatype retry_decision = RetryAfter u64 | Stop retry_stop_reason

definition retry_policy_new :: "u32 \<Rightarrow> u64 \<Rightarrow> u64 \<Rightarrow> u32 \<Rightarrow> op_error + retry_policy" where
  "retry_policy_new attempts initial maximum mult =
     (if attempts = 0 then Inl (validation_error ''retry max_attempts must be at least one'')
      else if mult = 0 then Inl (validation_error ''retry multiplier must be at least one'')
      else if maximum < initial then
        Inl (validation_error ''retry max_delay_ms cannot be less than initial_delay_ms'')
      else Inr \<lparr>max_attempts = attempts, initial_delay_ms = initial,
                 max_delay_ms = maximum, multiplier = mult\<rparr>)"

definition transient_io_policy :: retry_policy where
  "transient_io_policy =
     \<lparr>max_attempts = 3, initial_delay_ms = 100, max_delay_ms = 1000, multiplier = 2\<rparr>"

definition retry_delay :: "retry_policy \<Rightarrow> u32 \<Rightarrow> u64" where
  "retry_delay p completed =
     (let exponent = saturating_sub completed 1;
          factor = saturating_pow (ucast (multiplier p) :: u64) (unat exponent)
      in min (saturating_mul (initial_delay_ms p) factor) (max_delay_ms p))"

definition retry_decide :: "retry_policy \<Rightarrow> retry_safety \<Rightarrow> u32 \<Rightarrow> op_error \<Rightarrow> retry_decision" where
  "retry_decide p safety completed e =
     (if safety \<noteq> Idempotent then Stop StopNonIdempotent
      else if \<not> err_retryable e then Stop PermanentError
      else if max_attempts p \<le> completed then Stop AttemptsExhausted
      else RetryAfter (retry_delay p completed))"

definition retry_loop_error :: op_error where
  "retry_loop_error = op_error_new State None ''retry loop exited without a result'' False"

fun retry_from ::
  "nat \<Rightarrow> retry_policy \<Rightarrow> retry_safety \<Rightarrow> (u32 \<Rightarrow> 's \<Rightarrow> (op_error + 'a) \<times> 's) \<Rightarrow>
    u32 \<Rightarrow> 's \<Rightarrow> u64 list \<Rightarrow> (op_error + 'a) \<times> 's \<times> u64 list" where
  "retry_from 0 p safety f attempt s slept = (Inl retry_loop_error, s, slept)"
| "retry_from (Suc n) p safety f attempt s slept =
     (case f attempt s of
        (Inr v, s') \<Rightarrow> (Inr v, s', slept)
      | (Inl e, s') \<Rightarrow>
          (case retry_decide p safety attempt e of
             RetryAfter d \<Rightarrow> retry_from n p safety f (attempt + 1) s' (slept @ [d])
           | Stop _ \<Rightarrow> (Inl e, s', slept)))"

definition run_with_retry ::
  "retry_policy \<Rightarrow> retry_safety \<Rightarrow> (u32 \<Rightarrow> 's \<Rightarrow> (op_error + 'a) \<times> 's) \<Rightarrow> 's \<Rightarrow>
    (op_error + 'a) \<times> 's \<times> u64 list" where
  "run_with_retry p safety f s = retry_from (unat (max_attempts p)) p safety f 1 s []"

subsection \<open>What a policy may be\<close>

definition policy_ok :: "retry_policy \<Rightarrow> bool" where
  "policy_ok p \<longleftrightarrow> max_attempts p \<noteq> 0 \<and> multiplier p \<noteq> 0 \<and> initial_delay_ms p \<le> max_delay_ms p"

lemma retry_policy_new_iff:
  "retry_policy_new a i m k = Inr p \<longleftrightarrow>
     p = \<lparr>max_attempts = a, initial_delay_ms = i, max_delay_ms = m, multiplier = k\<rparr> \<and> policy_ok p"
  by (auto simp: retry_policy_new_def policy_ok_def)

lemma transient_io_policy_ok [simp]: "policy_ok transient_io_policy"
  by (simp add: policy_ok_def transient_io_policy_def)

subsection \<open>The delays\<close>

lemma retry_delay_bound: "retry_delay p n \<le> max_delay_ms p"
  by (simp add: retry_delay_def Let_def)

lemma retry_delay_mono:
  assumes "policy_ok p" and "m \<le> n"
  shows "retry_delay p m \<le> retry_delay p n"
proof -
  have k: "0 < unat (multiplier p)"
    using assms(1) by (simp add: policy_ok_def unat_gt_0)
  have "unat (saturating_sub m 1) \<le> unat (saturating_sub n 1)"
    using assms(2) by (simp add: word_facts word_le_nat_alt)
  then have "unat (multiplier p) ^ unat (saturating_sub m 1)
      \<le> unat (multiplier p) ^ unat (saturating_sub n 1)"
    using k by (intro power_increasing) auto
  then have "min (unat (multiplier p) ^ unat (saturating_sub m 1)) (2 ^ 64 - 1)
      \<le> min (unat (multiplier p) ^ unat (saturating_sub n 1)) (2 ^ 64 - 1)"
    by (rule min.mono) simp
  then have "unat (initial_delay_ms p) * min (unat (multiplier p) ^ unat (saturating_sub m 1)) (2 ^ 64 - 1)
      \<le> unat (initial_delay_ms p) * min (unat (multiplier p) ^ unat (saturating_sub n 1)) (2 ^ 64 - 1)"
    by (rule mult_le_mono2)
  then have "unat (saturating_mul (initial_delay_ms p) (saturating_pow (ucast (multiplier p) :: u64) (unat (saturating_sub m 1))))
      \<le> unat (saturating_mul (initial_delay_ms p) (saturating_pow (ucast (multiplier p) :: u64) (unat (saturating_sub n 1))))"
    unfolding unat_saturating_mul unat_saturating_pow unat_u32_to_u64
    by (intro min.mono) simp_all
  then show ?thesis
    unfolding retry_delay_def Let_def word_le_nat_alt unat_min by (intro min.mono) simp_all
qed

subsection \<open>The loop against its specification\<close>

text \<open>
  The abstract story of a run: \<open>state_after f s k\<close> is the state after the first \<open>k\<close>
  attempts when each is made, and the run ends with attempt \<open>k + 1\<close> for the \<open>k\<close> sleeps
  it made.
\<close>

fun state_after :: "(u32 \<Rightarrow> 's \<Rightarrow> 'r \<times> 's) \<Rightarrow> 's \<Rightarrow> nat \<Rightarrow> 's" where
  "state_after f s 0 = s"
| "state_after f s (Suc k) = snd (f (of_nat (Suc k)) (state_after f s k))"

definition attempt_result :: "(u32 \<Rightarrow> 's \<Rightarrow> 'r \<times> 's) \<Rightarrow> 's \<Rightarrow> nat \<Rightarrow> 'r" where
  "attempt_result f s k = fst (f (of_nat (Suc k)) (state_after f s k))"

definition retryable_failure :: "op_error + 'a \<Rightarrow> bool" where
  "retryable_failure r = (case r of Inl e \<Rightarrow> err_retryable e | Inr _ \<Rightarrow> False)"

definition run_explained ::
  "retry_policy \<Rightarrow> retry_safety \<Rightarrow> (u32 \<Rightarrow> 's \<Rightarrow> (op_error + 'a) \<times> 's) \<Rightarrow> 's \<Rightarrow>
    (op_error + 'a) \<times> 's \<times> u64 list \<Rightarrow> bool" where
  "run_explained p safety f s out =
     (case out of (r, s', slept) \<Rightarrow>
        length slept < unat (max_attempts p) \<and>
        slept = map (\<lambda>i. retry_delay p (of_nat i)) [1..<Suc (length slept)] \<and>
        (\<forall>i < length slept. retryable_failure (attempt_result f s i)) \<and>
        r = attempt_result f s (length slept) \<and> s' = state_after f s (Suc (length slept)) \<and>
        (safety = Idempotent \<and> retryable_failure r \<longrightarrow>
           Suc (length slept) = unat (max_attempts p)) \<and>
        (safety = NonIdempotent \<longrightarrow> slept = []))"

lemma retry_from_explained:
  assumes "n + k = unat (max_attempts p)" and "0 < n"
    and "slept = map (\<lambda>i. retry_delay p (of_nat i)) [1..<Suc k]"
    and "\<forall>i < k. retryable_failure (attempt_result f s i)"
    and "safety = NonIdempotent \<longrightarrow> k = 0"
  shows "run_explained p safety f s
    (retry_from n p safety f (of_nat (Suc k)) (state_after f s k) slept)"
  using assms
proof (induction n arbitrary: k slept)
  case 0
  then show ?case by simp
next
  case (Suc n)
  have len: "length slept = k" using Suc.prems(3) by simp
  have unat_attempt: "unat (of_nat (Suc k) :: u32) = Suc k"
  proof -
    have "unat (max_attempts p) < 2 ^ 32" using unat_bound [of "max_attempts p"] by simp
    then show ?thesis using Suc.prems(1) by (intro unat_of_nat_word) simp
  qed
  obtain r s' where f: "f (of_nat (Suc k)) (state_after f s k) = (r, s')" by fastforce
  have res: "attempt_result f s k = r" and st: "state_after f s (Suc k) = s'"
    using f by (simp_all add: attempt_result_def)
  show ?case
  proof (cases r)
    case (Inr v)
    then show ?thesis
      using f Suc.prems len res st by (simp add: run_explained_def retryable_failure_def)
  next
    case (Inl e)
    show ?thesis
    proof (cases "retry_decide p safety (of_nat (Suc k)) e")
      case (RetryAfter d)
      then have cond: "safety = Idempotent" "err_retryable e" "\<not> max_attempts p \<le> of_nat (Suc k)"
        and d: "d = retry_delay p (of_nat (Suc k))"
        by (auto simp: retry_decide_def split: if_splits)
      have "Suc k < unat (max_attempts p)"
        using cond(3) unat_attempt by (simp add: word_le_nat_alt not_le)
      then have n: "0 < n" "n + Suc k = unat (max_attempts p)" using Suc.prems(1) by auto
      have "run_explained p safety f s
          (retry_from n p safety f (of_nat (Suc (Suc k))) (state_after f s (Suc k)) (slept @ [d]))"
        using n Suc.prems(3,4) cond d res Inl
        by (intro Suc.IH) (auto simp: less_Suc_eq retryable_failure_def)
      then show ?thesis using f Inl RetryAfter st by (simp add: add.commute)
    next
      case (Stop reason)
      then have "safety = Idempotent \<and> err_retryable e \<longrightarrow> unat (max_attempts p) \<le> Suc k"
        using unat_attempt by (auto simp: retry_decide_def word_le_nat_alt split: if_splits)
      then show ?thesis
        using f Inl Stop Suc.prems len res st
        by (auto simp: run_explained_def retryable_failure_def)
    qed
  qed
qed

lemma run_with_retry_explained:
  "policy_ok p \<Longrightarrow> run_explained p safety f s (run_with_retry p safety f s)"
  using retry_from_explained [of "unat (max_attempts p)" 0 p "[]" f s safety]
  by (simp add: run_with_retry_def policy_ok_def unat_gt_0)

text \<open>
  What a client that retries a transactional step relies on: an invariant kept by failing
  attempts is kept by the whole run, up to the attempt whose success is returned.
\<close>

lemma retry_from_invariant:
  assumes "retry_from n p safety f k s slept = (r, s', slept')" and "I s"
    and "\<And>a t e t'. I t \<Longrightarrow> f a t = (Inl e, t') \<Longrightarrow> I t'"
  shows "(\<exists>e. r = Inl e \<and> I s') \<or> (\<exists>v a t. r = Inr v \<and> I t \<and> f a t = (Inr v, s'))"
  using assms(1,2)
proof (induction n arbitrary: k s slept)
  case 0
  then show ?case by auto
next
  case (Suc n)
  obtain q t where q: "f k s = (q, t)" by fastforce
  show ?case
  proof (cases q)
    case (Inl e)
    then have "I t" using assms(3) Suc.prems(2) q by blast
    then show ?thesis
      using Suc.prems Suc.IH [of "k + 1" t] q Inl by (cases "retry_decide p safety k e") auto
  next
    case (Inr v)
    then show ?thesis using Suc.prems q by auto
  qed
qed

lemma sorted_map_upt:
  assumes "\<And>i j. a \<le> i \<Longrightarrow> i \<le> j \<Longrightarrow> j < b \<Longrightarrow> f i \<le> (f j :: 'a::linorder)"
  shows "sorted (map f [a..<b])"
  using assms by (auto simp: sorted_iff_nth_mono)

subsection \<open>Property of the retry loop\<close>

text \<open>
  C25. The retry loop under a policy that \<open>RetryPolicy::new\<close> accepts. It stops after at most
  \<open>max_attempts\<close> attempts and returns the result and the state of the last one made, so the
  fall-through error of the loop is never returned in its place; every attempt before the
  last failed with a retryable error; a retryable failure of an idempotent operation is
  returned only when the attempts are used up; a non-idempotent operation is never repeated;
  the delays slept are the exponential schedule, they never decrease, never exceed
  \<open>max_delay_ms\<close>, and none follows the last attempt.
\<close>

theorem run_with_retry_schedule:
  assumes "retry_policy_new a i m k = Inr p" and "run_with_retry p safety f s = (r, s', slept)"
  shows "length slept < unat a \<and>
    r = attempt_result f s (length slept) \<and> s' = state_after f s (Suc (length slept)) \<and>
    (\<forall>n < length slept. retryable_failure (attempt_result f s n)) \<and>
    (safety = Idempotent \<and> retryable_failure r \<longrightarrow> Suc (length slept) = unat a) \<and>
    (safety = NonIdempotent \<longrightarrow> slept = []) \<and>
    slept = map (\<lambda>n. retry_delay p (of_nat n)) [1..<Suc (length slept)] \<and>
    sorted slept \<and> (\<forall>d \<in> set slept. d \<le> m)"
proof -
  have p: "policy_ok p" and fields: "max_attempts p = a" "max_delay_ms p = m"
    using assms(1) by (auto simp: retry_policy_new_iff)
  have run: "run_explained p safety f s (r, s', slept)"
    using run_with_retry_explained [OF p] assms(2) by metis
  then have sched: "slept = map (\<lambda>n. retry_delay p (of_nat n)) [1..<Suc (length slept)]"
    and len: "length slept < unat a"
    by (simp_all add: run_explained_def fields)
  have word: "unat (of_nat n :: u32) = n" if "n \<le> length slept" for n
    using that len unat_bound [of a] by (intro unat_of_nat_word) simp
  have "sorted (map (\<lambda>n. retry_delay p (of_nat n)) [1..<Suc (length slept)])"
    by (intro sorted_map_upt retry_delay_mono [OF p]) (simp add: word_le_nat_alt word)
  then have "sorted slept" using sched by simp
  moreover have "\<forall>d \<in> set slept. d \<le> m"
    by (subst sched) (auto simp: retry_delay_bound simp flip: fields)
  ultimately show ?thesis using run sched by (simp add: run_explained_def fields)
qed

lemma retry_from_numeral:
  "retry_from (numeral n) p safety f attempt s slept =
     (case f attempt s of
        (Inr v, s') \<Rightarrow> (Inr v, s', slept)
      | (Inl e, s') \<Rightarrow>
          (case retry_decide p safety attempt e of
             RetryAfter d \<Rightarrow> retry_from (pred_numeral n) p safety f (attempt + 1) s' (slept @ [d])
           | Stop _ \<Rightarrow> (Inl e, s', slept)))"
  by (simp only: numeral_eq_Suc retry_from.simps)

theorem run_with_retry_schedule_witness:
  "(snd (snd (run_with_retry \<lparr>max_attempts = 4, initial_delay_ms = 100, max_delay_ms = 250, multiplier = 2\<rparr>
      Idempotent (\<lambda>_ n. (Inl (transient_io_error ''read'' ''busy'') :: op_error + unit, Suc n)) 0)))
    = [100, 200, 250] \<and> sorted [100, 200, 250 :: u64]"
proof -
  let ?p = "\<lparr>max_attempts = 4, initial_delay_ms = 100, max_delay_ms = 250, multiplier = 2\<rparr>"
  let ?f = "\<lambda>_ n. (Inl (transient_io_error ''read'' ''busy'') :: op_error + unit, Suc n)"
  have new: "retry_policy_new 4 100 250 2 = Inr ?p" by (simp add: retry_policy_new_def)
  have run: "run_with_retry ?p Idempotent ?f 0 =
      (Inl (transient_io_error ''read'' ''busy''), 4, [100, 200, 250])"
    by (simp add: run_with_retry_def retry_from_numeral retry_decide_def retry_delay_def
        saturating_sub_def saturating_mul_def saturating_pow_def word_le_nat_alt)
  show ?thesis using run_with_retry_schedule [OF new run] run by simp
qed

end
