(* ===== verification/Checkpoint.thy ===== *)
theory Checkpoint
  imports Retry
begin

section \<open>The operation checkpoint state machine\<close>

text \<open>
  \<open>lr-core/src/operation/checkpoint.rs\<close>, the in-memory part: an operation (install,
  backup, expand, ...) is a list of named steps with a status each, and the operations below
  are the only code that changes it. A \<open>&mut self\<close> method that returns a
  \<open>Result\<close> is a function to the result and the state left behind, also on \<open>Err\<close>.
\<close>

subsection \<open>Data\<close>

datatype operation_kind = OpInstall | OpBackup | OpExpand | OpRepair | OpCustom

datatype operation_status =
  OpPending | OpRunning | OpInterrupted | OpFailed | OpCancelled | OpSucceeded

datatype step_status = StPending | StRunning | StInterrupted | StFailed | StSkipped | StSucceeded

fun is_complete :: "step_status \<Rightarrow> bool" where
  "is_complete StSkipped = True"
| "is_complete StSucceeded = True"
| "is_complete _ = False"

record step_definition =
  def_id :: string
  def_name :: string
  def_idempotent :: bool

record step_checkpoint =
  step_id :: string
  step_name :: string
  idempotent :: bool
  step_status :: step_status
  attempts :: u32
  step_error :: "op_error option"

record target_fingerprint =
  tf_disk_number :: "u32 option"
  tf_partition_number :: "u32 option"
  tf_disk_serial :: "string option"
  tf_volume_guid :: "string option"
  tf_disk_size_bytes :: "u64 option"
  tf_partition_offset_bytes :: "u64 option"
  tf_partition_size_bytes :: "u64 option"

record checkpoint =
  schema_version :: u32
  operation_id :: string
  op_kind :: operation_kind
  op_status :: operation_status
  current_step :: "string option"
  op_last_error :: "op_error option"
  revision :: u64
  created_unix_ms :: u64
  updated_unix_ms :: u64
  target :: "target_fingerprint option"
  steps :: "step_checkpoint list"

datatype step_transition = Applied | AlreadyComplete | AlreadyRunning

definition checkpoint_schema_version :: u32 where
  "checkpoint_schema_version = 1"

definition max_steps :: nat where
  "max_steps = 128"

subsection \<open>Validation\<close>

definition identifier_char :: "char \<Rightarrow> bool" where
  "identifier_char c \<longleftrightarrow> is_alnum c \<or> c \<in> {CHR ''-'', CHR ''_'', CHR ''.''}"

definition validate_identifier :: "string \<Rightarrow> string \<Rightarrow> op_error + unit" where
  "validate_identifier v field =
     (if v = [] \<or> 128 < length v then
        Inl (validation_error (field @ '' must contain 1 to 128 characters''))
      else if \<not> list_all identifier_char v then
        Inl (validation_error (field @ '' contains unsupported characters''))
      else Inr ())"

definition validate_display_name :: "string \<Rightarrow> string \<Rightarrow> op_error + unit" where
  "validate_display_name v field =
     (if trim v = [] \<or> 256 < length v \<or> contains_any [CR, LF, NUL] v then
        Inl (validation_error (field @ '' is empty, too long, or contains a control character''))
      else Inr ())"

definition validate_target :: "target_fingerprint \<Rightarrow> op_error + unit" where
  "validate_target t =
     try_fold (\<lambda>_ (field, v). case v of None \<Rightarrow> Inr () | Some s \<Rightarrow> validate_display_name s field) ()
       [(''disk serial'', tf_disk_serial t), (''volume guid'', tf_volume_guid t)]"

text \<open>One pass of the loop over the steps: the identifiers seen so far and the running steps.\<close>

definition validate_step :: "string set \<times> nat \<Rightarrow> step_checkpoint \<Rightarrow> op_error + (string set \<times> nat)" where
  "validate_step acc s =
     and_then (validate_identifier (step_id s) ''step id'') (\<lambda>_.
     and_then (validate_display_name (step_name s) ''step name'') (\<lambda>_.
     if step_id s \<in> fst acc then
       Inl (validation_error (''duplicate checkpoint step id: '' @ step_id s))
     else Inr (insert (step_id s) (fst acc),
               if step_status s = StRunning then snd acc + 1 else snd acc)))"

definition validate :: "checkpoint \<Rightarrow> op_error + unit" where
  "validate c =
     (if schema_version c \<noteq> checkpoint_schema_version then
        Inl (validation_error
          (''unsupported checkpoint schema version '' @ show_nat (unat (schema_version c))))
      else
        and_then (validate_identifier (operation_id c) ''operation id'') (\<lambda>_.
        if steps c = [] \<or> max_steps < length (steps c) then
          Inl (validation_error
            (''checkpoint must contain between 1 and '' @ show_nat max_steps @ '' steps''))
        else
          and_then (try_fold validate_step ({}, 0) (steps c)) (\<lambda>(ids, running).
          if 1 < running then
            Inl (validation_error ''checkpoint cannot contain more than one running step'')
          else if (case current_step c of Some cur \<Rightarrow> cur \<notin> ids | None \<Rightarrow> False) then
            Inl (validation_error (''current step is not declared: '' @ the (current_step c)))
          else if op_status c = OpSucceeded \<and>
              list_ex (\<lambda>s. \<not> is_complete (step_status s)) (steps c) then
            Inl (validation_error
              ''a succeeded operation must have only completed or skipped steps'')
          else (case target c of None \<Rightarrow> Inr () | Some t \<Rightarrow> validate_target t))))"

subsection \<open>Construction\<close>

definition step_of_definition :: "step_definition \<Rightarrow> step_checkpoint" where
  "step_of_definition d =
     \<lparr>step_id = def_id d, step_name = def_name d, idempotent = def_idempotent d,
      step_status = StPending, attempts = 0, step_error = None\<rparr>"

definition checkpoint_new ::
  "string \<Rightarrow> operation_kind \<Rightarrow> step_definition list \<Rightarrow> u64 \<Rightarrow> op_error + checkpoint" where
  "checkpoint_new oid kind defs now =
     (let c = \<lparr>schema_version = checkpoint_schema_version, operation_id = oid, op_kind = kind,
               op_status = OpPending, current_step = None, op_last_error = None, revision = 0,
               created_unix_ms = now, updated_unix_ms = now, target = None,
               steps = map step_of_definition defs\<rparr>
      in and_then (validate c) (\<lambda>_. Inr c))"

definition with_target :: "target_fingerprint \<Rightarrow> checkpoint \<Rightarrow> op_error + checkpoint" where
  "with_target t c = and_then (validate_target t) (\<lambda>_. Inr (c\<lparr>target := Some t\<rparr>))"

subsection \<open>Transitions\<close>

definition touch :: "u64 \<Rightarrow> checkpoint \<Rightarrow> checkpoint" where
  "touch now c = c\<lparr>updated_unix_ms := max now (updated_unix_ms c),
                   revision := saturating_add (revision c) 1\<rparr>"

definition find_step :: "checkpoint \<Rightarrow> string \<Rightarrow> step_checkpoint option" where
  "find_step c sid = List.find (\<lambda>s. step_id s = sid) (steps c)"

definition step_index :: "string \<Rightarrow> checkpoint \<Rightarrow> op_error + nat" where
  "step_index sid c = ok_or (position (\<lambda>s. step_id s = sid) (steps c))
     (validation_error (''unknown checkpoint step: '' @ sid))"

definition modify_step :: "nat \<Rightarrow> (step_checkpoint \<Rightarrow> step_checkpoint) \<Rightarrow> checkpoint \<Rightarrow> checkpoint" where
  "modify_step i f c = c\<lparr>steps := (steps c)[i := f (steps c ! i)]\<rparr>"

definition start :: "u64 \<Rightarrow> checkpoint \<Rightarrow> (op_error + unit) \<times> checkpoint" where
  "start now c =
     (if op_status c \<in> {OpPending, OpInterrupted, OpFailed} then
        (Inr (), touch now (c\<lparr>op_status := OpRunning, op_last_error := None\<rparr>))
      else if op_status c = OpRunning then (Inr (), c)
      else (Inl (state_error ''a completed or cancelled operation cannot be started''), c))"

definition other_running :: "nat \<Rightarrow> checkpoint \<Rightarrow> bool" where
  "other_running i c =
     list_ex (\<lambda>(other, s). other \<noteq> i \<and> step_status s = StRunning) (List.enumerate 0 (steps c))"

definition begin_step :: "string \<Rightarrow> u64 \<Rightarrow> checkpoint \<Rightarrow> (op_error + step_transition) \<times> checkpoint" where
  "begin_step sid now c = (case step_index sid c of
     Inl e \<Rightarrow> (Inl e, c)
   | Inr i \<Rightarrow>
      (let st = step_status (steps c ! i) in
       if is_complete st then (Inr AlreadyComplete, c)
       else if st = StRunning then (Inr AlreadyRunning, c)
       else if list_ex (\<lambda>s. \<not> is_complete (step_status s)) (take i (steps c)) then
         (Inl (state_error (''cannot start step '' @ sid @ '' before previous steps complete'')), c)
       else if st \<in> {StFailed, StInterrupted} \<and> \<not> idempotent (steps c ! i) then
         (Inl (state_error (''step '' @ sid @
            '' is non-idempotent and requires manual restart confirmation'')), c)
       else st_bind (start now c) (\<lambda>_ c1.
         if other_running i c1 then
           (Inl (state_error ''another checkpoint step is already running''), c1)
         else
           (Inr Applied,
            touch now
              ((modify_step i (\<lambda>s. s\<lparr>step_status := StRunning,
                  attempts := saturating_add (attempts s) 1, step_error := None\<rparr>) c1)
               \<lparr>current_step := Some sid\<rparr>)))))"

definition complete_step :: "string \<Rightarrow> u64 \<Rightarrow> checkpoint \<Rightarrow> (op_error + step_transition) \<times> checkpoint" where
  "complete_step sid now c = (case step_index sid c of
     Inl e \<Rightarrow> (Inl e, c)
   | Inr i \<Rightarrow>
      (if is_complete (step_status (steps c ! i)) then (Inr AlreadyComplete, c)
       else if step_status (steps c ! i) \<noteq> StRunning then
         (Inl (state_error (''step '' @ sid @ '' is not running'')), c)
       else (Inr Applied,
         touch now ((modify_step i (\<lambda>s. s\<lparr>step_status := StSucceeded, step_error := None\<rparr>) c)
           \<lparr>current_step := None\<rparr>))))"

definition skip_step :: "string \<Rightarrow> u64 \<Rightarrow> checkpoint \<Rightarrow> (op_error + unit) \<times> checkpoint" where
  "skip_step sid now c = (case step_index sid c of
     Inl e \<Rightarrow> (Inl e, c)
   | Inr i \<Rightarrow> (case step_status (steps c ! i) of
       StPending \<Rightarrow> (Inr (),
         touch now (modify_step i (\<lambda>s. s\<lparr>step_status := StSkipped, step_error := None\<rparr>) c))
     | StSkipped \<Rightarrow> (Inr (), c)
     | _ \<Rightarrow> (Inl (state_error (''step '' @ sid @ '' can only be skipped while pending'')), c)))"

definition fail_step :: "string \<Rightarrow> op_error \<Rightarrow> u64 \<Rightarrow> checkpoint \<Rightarrow> (op_error + unit) \<times> checkpoint" where
  "fail_step sid e now c = (case step_index sid c of
     Inl err \<Rightarrow> (Inl err, c)
   | Inr i \<Rightarrow>
      (if step_status (steps c ! i) \<noteq> StRunning then
         (Inl (state_error (''step '' @ sid @ '' is not running'')), c)
       else (Inr (),
         touch now ((modify_step i (\<lambda>s. s\<lparr>step_status := StFailed, step_error := Some e\<rparr>) c)
           \<lparr>op_status := OpFailed, current_step := Some sid, op_last_error := Some e\<rparr>))))"

definition mark_failed :: "op_error \<Rightarrow> u64 \<Rightarrow> checkpoint \<Rightarrow> checkpoint" where
  "mark_failed e now c = touch now (c\<lparr>op_status := OpFailed, op_last_error := Some e\<rparr>)"

definition interrupt_step :: "step_checkpoint \<Rightarrow> step_checkpoint" where
  "interrupt_step s = (if step_status s = StRunning then s\<lparr>step_status := StInterrupted\<rparr> else s)"

definition mark_interrupted :: "u64 \<Rightarrow> checkpoint \<Rightarrow> checkpoint" where
  "mark_interrupted now c =
     (let c1 = c\<lparr>steps := map interrupt_step (steps c)\<rparr> in
      if op_status c1 \<in> {OpPending, OpRunning} then touch now (c1\<lparr>op_status := OpInterrupted\<rparr>)
      else c1)"

definition mark_cancelled :: "u64 \<Rightarrow> checkpoint \<Rightarrow> (op_error + unit) \<times> checkpoint" where
  "mark_cancelled now c =
     (if op_status c = OpSucceeded then
        (Inl (state_error ''a succeeded operation cannot be cancelled''), c)
      else (Inr (), touch now (c\<lparr>op_status := OpCancelled, op_last_error := None\<rparr>)))"

definition mark_succeeded :: "u64 \<Rightarrow> checkpoint \<Rightarrow> (op_error + unit) \<times> checkpoint" where
  "mark_succeeded now c =
     (if list_ex (\<lambda>s. \<not> is_complete (step_status s)) (steps c) then
        (Inl (state_error ''cannot complete an operation with unfinished steps''), c)
      else (Inr (), touch now
        (c\<lparr>op_status := OpSucceeded, current_step := None, op_last_error := None\<rparr>)))"

subsection \<open>What validation accepts\<close>

text \<open>
  The contract of a checkpoint, stated without the order of the tests: this is what a stored
  file must satisfy to be loaded and what every operation keeps.
\<close>

definition identifier_ok :: "string \<Rightarrow> bool" where
  "identifier_ok v \<longleftrightarrow> v \<noteq> [] \<and> length v \<le> 128 \<and> list_all identifier_char v"

definition display_ok :: "string \<Rightarrow> bool" where
  "display_ok v \<longleftrightarrow> trim v \<noteq> [] \<and> length v \<le> 256 \<and> \<not> contains_any [CR, LF, NUL] v"

definition target_ok :: "target_fingerprint \<Rightarrow> bool" where
  "target_ok t \<longleftrightarrow>
     pred_option display_ok (tf_disk_serial t) \<and> pred_option display_ok (tf_volume_guid t)"

definition running_count :: "step_checkpoint list \<Rightarrow> nat" where
  "running_count ss = length (filter (\<lambda>s. step_status s = StRunning) ss)"

definition all_complete :: "step_checkpoint list \<Rightarrow> bool" where
  "all_complete ss \<longleftrightarrow> list_all (\<lambda>s. is_complete (step_status s)) ss"

definition checkpoint_wf :: "checkpoint \<Rightarrow> bool" where
  "checkpoint_wf c \<longleftrightarrow>
     schema_version c = checkpoint_schema_version \<and> identifier_ok (operation_id c) \<and>
     steps c \<noteq> [] \<and> length (steps c) \<le> max_steps \<and>
     list_all (\<lambda>s. identifier_ok (step_id s) \<and> display_ok (step_name s)) (steps c) \<and>
     distinct (map step_id (steps c)) \<and> running_count (steps c) \<le> 1 \<and>
     pred_option (\<lambda>cur. cur \<in> step_id ` set (steps c)) (current_step c) \<and>
     (op_status c = OpSucceeded \<longrightarrow> all_complete (steps c)) \<and>
     pred_option target_ok (target c)"

named_theorems checkpoint_ok_defs "the contract of a checkpoint, unfolded"

lemma validate_identifier_iff [simp]: "validate_identifier v f = Inr u \<longleftrightarrow> identifier_ok v"
  by (auto simp: validate_identifier_def identifier_ok_def)

lemma validate_display_name_iff [simp]: "validate_display_name v f = Inr u \<longleftrightarrow> display_ok v"
  by (auto simp: validate_display_name_def display_ok_def)

lemma validate_target_iff [simp]: "validate_target t = Inr u \<longleftrightarrow> target_ok t"
  by (auto simp: validate_target_def target_ok_def res_simps split: option.splits)

lemma not_all_complete: "list_ex (\<lambda>s. \<not> is_complete (step_status s)) ss \<longleftrightarrow> \<not> all_complete ss"
  by (auto simp: all_complete_def list_ex_iff list_all_iff)

lemma validate_steps_iff:
  "try_fold validate_step (ids, n) ss = Inr (ids', n') \<longleftrightarrow>
     list_all (\<lambda>s. identifier_ok (step_id s) \<and> display_ok (step_name s)) ss \<and>
     distinct (map step_id ss) \<and> ids \<inter> step_id ` set ss = {} \<and>
     ids' = ids \<union> step_id ` set ss \<and> n' = n + running_count ss"
proof (induction ss arbitrary: ids n)
  case Nil
  show ?case by (auto simp: running_count_def)
next
  case (Cons s ss)
  have step: "try_fold validate_step (ids, n) (s # ss) = Inr (ids', n') \<longleftrightarrow>
      identifier_ok (step_id s) \<and> display_ok (step_name s) \<and> step_id s \<notin> ids \<and>
      try_fold validate_step
        (insert (step_id s) ids, if step_status s = StRunning then n + 1 else n) ss = Inr (ids', n')"
    by (auto simp: res_simps validate_step_def split: if_splits)
  show ?case unfolding step Cons.IH by (auto simp: running_count_def)
qed

text \<open>Validation accepts exactly the checkpoints of the contract: schema version 1, between
  1 and 128 steps with legal, pairwise different identifiers and display names, at most one
  step running, a declared current step, only complete steps under a succeeded operation and
  a printable target.
\<close>

theorem validate_exact: "validate c = Inr () \<longleftrightarrow> checkpoint_wf c"
proof -
  have loop: "(\<exists>ids n. try_fold validate_step ({}, 0) (steps c) = Inr (ids, n) \<and> P ids n) \<longleftrightarrow>
      list_all (\<lambda>s. identifier_ok (step_id s) \<and> display_ok (step_name s)) (steps c) \<and>
      distinct (map step_id (steps c)) \<and> P (step_id ` set (steps c)) (running_count (steps c))"
    for P :: "string set \<Rightarrow> nat \<Rightarrow> bool"
    by (simp add: validate_steps_iff)
  show ?thesis
    using loop
    by (auto simp: validate_def checkpoint_wf_def res_simps not_all_complete split: option.splits if_splits)
qed

subsection \<open>The effect of each operation\<close>

text \<open>
  Every operation leaves the steps alone, replaces the one it names, or interrupts the running
  ones. The lemmas below state those effects once; the invariants are then read off them.
\<close>

lemma running_count_le_1:
  "running_count ss \<le> 1 \<longleftrightarrow> (\<forall>i < length ss. \<forall>j < length ss.
     step_status (ss ! i) = StRunning \<and> step_status (ss ! j) = StRunning \<longrightarrow> i = j)"
  unfolding running_count_def by (rule filter_le_1)

lemma other_running_iff:
  "other_running i c \<longleftrightarrow>
     (\<exists>j < length (steps c). j \<noteq> i \<and> step_status (steps c ! j) = StRunning)"
  by (auto simp: other_running_def list_ex_iff in_set_enumerate_eq)

lemma all_complete_nth: "all_complete ss \<longleftrightarrow> (\<forall>i < length ss. is_complete (step_status (ss ! i)))"
  by (simp add: all_complete_def list_all_length)

lemma step_index_Inr:
  "step_index sid c = Inr i \<longleftrightarrow>
     i < length (steps c) \<and> step_id (steps c ! i) = sid \<and> (\<forall>j < i. step_id (steps c ! j) \<noteq> sid)"
  by (auto simp: step_index_def ok_or_Inr_iff position_Some_iff)

lemma step_index_Inl: "step_index sid c = Inl e \<longleftrightarrow>
    sid \<notin> step_id ` set (steps c) \<and> e = validation_error (''unknown checkpoint step: '' @ sid)"
proof (cases "position (\<lambda>s. step_id s = sid) (steps c)")
  case None
  then have "sid \<notin> step_id ` set (steps c)" by (auto simp: position_None_iff)
  with None show ?thesis by (auto simp: step_index_def)
next
  case (Some i)
  then have "sid \<in> step_id ` set (steps c)" by (auto simp: position_Some_iff)
  with Some show ?thesis by (simp add: step_index_def)
qed

lemma touch_simps [simp]:
  "schema_version (touch n c) = schema_version c" "operation_id (touch n c) = operation_id c"
  "op_kind (touch n c) = op_kind c" "op_status (touch n c) = op_status c"
  "current_step (touch n c) = current_step c" "op_last_error (touch n c) = op_last_error c"
  "created_unix_ms (touch n c) = created_unix_ms c" "target (touch n c) = target c"
  "steps (touch n c) = steps c" "updated_unix_ms (touch n c) = max n (updated_unix_ms c)"
  "revision (touch n c) = saturating_add (revision c) 1"
  by (simp_all add: touch_def)

lemma modify_step_simps [simp]:
  "schema_version (modify_step i f c) = schema_version c"
  "operation_id (modify_step i f c) = operation_id c"
  "op_kind (modify_step i f c) = op_kind c" "op_status (modify_step i f c) = op_status c"
  "current_step (modify_step i f c) = current_step c"
  "op_last_error (modify_step i f c) = op_last_error c"
  "revision (modify_step i f c) = revision c"
  "created_unix_ms (modify_step i f c) = created_unix_ms c"
  "updated_unix_ms (modify_step i f c) = updated_unix_ms c"
  "target (modify_step i f c) = target c"
  "steps (modify_step i f c) = (steps c)[i := f (steps c ! i)]"
  by (simp_all add: modify_step_def)

lemma start_simps [simp]:
  "schema_version (snd (start n c)) = schema_version c"
  "operation_id (snd (start n c)) = operation_id c" "op_kind (snd (start n c)) = op_kind c"
  "current_step (snd (start n c)) = current_step c"
  "created_unix_ms (snd (start n c)) = created_unix_ms c"
  "target (snd (start n c)) = target c" "steps (snd (start n c)) = steps c"
  by (simp_all add: start_def)

lemma start_status: "op_status (snd (start n c)) =
    (if op_status c \<in> {OpCancelled, OpSucceeded} then op_status c else OpRunning)"
  by (cases "op_status c") (simp_all add: start_def)

lemma start_ok_iff: "fst (start n c) = Inr () \<longleftrightarrow> op_status c \<notin> {OpCancelled, OpSucceeded}"
  by (cases "op_status c") (simp_all add: start_def)

lemma start_clock:
  "updated_unix_ms c \<le> updated_unix_ms (snd (start n c))" "revision c \<le> revision (snd (start n c))"
  by (simp_all add: start_def le_saturating_add)

text \<open>
  The situation in which \<open>begin_step\<close> starts step \<open>i\<close>, and the checkpoint it then leaves.
\<close>

definition can_begin :: "nat \<Rightarrow> checkpoint \<Rightarrow> bool" where
  "can_begin i c \<longleftrightarrow>
     (step_status (steps c ! i) = StPending \<or>
      step_status (steps c ! i) \<in> {StFailed, StInterrupted} \<and> idempotent (steps c ! i)) \<and>
     all_complete (take i (steps c)) \<and> op_status c \<notin> {OpCancelled, OpSucceeded}"

definition begun :: "nat \<Rightarrow> string \<Rightarrow> u64 \<Rightarrow> checkpoint \<Rightarrow> checkpoint" where
  "begun i sid now c = touch now
     ((modify_step i (\<lambda>s. s\<lparr>step_status := StRunning,
         attempts := saturating_add (attempts s) 1, step_error := None\<rparr>) (snd (start now c)))
      \<lparr>current_step := Some sid\<rparr>)"

lemma begin_step_applied:
  "begin_step sid now c = (Inr Applied, c') \<longleftrightarrow>
     (\<exists>i. step_index sid c = Inr i \<and> can_begin i c \<and> \<not> other_running i c \<and> c' = begun i sid now c)"
proof -
  have other: "other_running i (snd (start now c)) = other_running i c" for i
    by (simp add: other_running_def)
  show ?thesis
  proof (cases "step_index sid c")
    case (Inl e)
    then show ?thesis by (simp add: begin_step_def)
  next
    case (Inr i)
    show ?thesis
    proof (cases "start now c")
      case (Pair r c1)
      then have "r = Inr () \<longleftrightarrow> op_status c \<notin> {OpCancelled, OpSucceeded}"
        using start_ok_iff [of now c] by simp
      with Inr Pair other [of i] show ?thesis
        by (cases "step_status (steps c ! i)"; cases r)
          (auto simp: begin_step_def can_begin_def begun_def not_all_complete)
    qed
  qed
qed

lemma begin_step_state:
  "begin_step sid now c = (r, c') \<Longrightarrow> r = Inr Applied \<or> c' = c \<or>
     (c' = snd (start now c) \<and> (\<exists>i < length (steps c). other_running i c \<and> can_begin i c))"
proof -
  assume b: "begin_step sid now c = (r, c')"
  have other: "other_running i (snd (start now c)) = other_running i c" for i
    by (simp add: other_running_def)
  have err: "fst (start now c) = Inl e \<Longrightarrow> snd (start now c) = c" for e
    by (auto simp: start_def split: if_splits)
  show ?thesis
  proof (cases "step_index sid c")
    case (Inl e)
    with b show ?thesis by (simp add: begin_step_def)
  next
    case (Inr i)
    then have i: "i < length (steps c)" by (simp add: step_index_Inr)
    obtain q c1 where q: "start now c = (q, c1)" by fastforce
    have ok: "q = Inr () \<longleftrightarrow> op_status c \<notin> {OpCancelled, OpSucceeded}"
      using q start_ok_iff [of now c] by simp
    show ?thesis
    proof (cases q)
      case (Inl e)
      with err q have "c1 = c" by (metis fst_conv snd_conv)
      with Inl q b Inr show ?thesis
        by (auto simp: begin_step_def Let_def split: if_splits)
    next
      case (Inr u)
      with ok have "op_status c \<notin> {OpCancelled, OpSucceeded}" by simp
      with Inr q b \<open>step_index sid c = Inr i\<close> i other [of i] show ?thesis
        by (cases "step_status (steps c ! i)")
          (auto simp: begin_step_def can_begin_def not_all_complete split: if_splits)
    qed
  qed
qed

definition completed :: "nat \<Rightarrow> u64 \<Rightarrow> checkpoint \<Rightarrow> checkpoint" where
  "completed i now c = touch now
     ((modify_step i (\<lambda>s. s\<lparr>step_status := StSucceeded, step_error := None\<rparr>) c)\<lparr>current_step := None\<rparr>)"

definition skipped :: "nat \<Rightarrow> u64 \<Rightarrow> checkpoint \<Rightarrow> checkpoint" where
  "skipped i now c = touch now
     (modify_step i (\<lambda>s. s\<lparr>step_status := StSkipped, step_error := None\<rparr>) c)"

definition failed :: "nat \<Rightarrow> op_error \<Rightarrow> u64 \<Rightarrow> checkpoint \<Rightarrow> checkpoint" where
  "failed i e now c = touch now
     ((modify_step i (\<lambda>s. s\<lparr>step_status := StFailed, step_error := Some e\<rparr>) c)
       \<lparr>op_status := OpFailed, current_step := Some (step_id (steps c ! i)), op_last_error := Some e\<rparr>)"

lemma complete_step_state:
  "complete_step sid now c = (r, c') \<Longrightarrow> c' = c \<or>
     (\<exists>i. step_index sid c = Inr i \<and> step_status (steps c ! i) = StRunning \<and> c' = completed i now c)"
  by (auto simp: complete_step_def completed_def split: sum.splits if_splits)

lemma skip_step_state:
  "skip_step sid now c = (r, c') \<Longrightarrow> c' = c \<or>
     (\<exists>i. step_index sid c = Inr i \<and> step_status (steps c ! i) = StPending \<and> c' = skipped i now c)"
  by (auto simp: skip_step_def skipped_def split: sum.splits step_status.splits)

lemma fail_step_state:
  "fail_step sid e now c = (r, c') \<Longrightarrow> c' = c \<or>
     (\<exists>i. step_index sid c = Inr i \<and> step_status (steps c ! i) = StRunning \<and> c' = failed i e now c)"
  by (auto simp: fail_step_def failed_def step_index_Inr split: sum.splits if_splits)

subsection \<open>One operation as a step relation\<close>

text \<open>
  \<open>cp_op c c'\<close>: some public operation, called with any arguments in state \<open>c\<close>, returns (with
  \<open>Ok\<close> or with \<open>Err\<close>) and leaves \<open>c'\<close>. \<open>reachable c\<close>: the states of a checkpoint created
  by \<open>new\<close> under any sequence of such calls.
\<close>

inductive cp_op :: "checkpoint \<Rightarrow> checkpoint \<Rightarrow> bool" where
  op_start: "start now c = (r, c') \<Longrightarrow> cp_op c c'"
| op_begin: "begin_step sid now c = (r, c') \<Longrightarrow> cp_op c c'"
| op_complete: "complete_step sid now c = (r, c') \<Longrightarrow> cp_op c c'"
| op_skip: "skip_step sid now c = (r, c') \<Longrightarrow> cp_op c c'"
| op_fail: "fail_step sid e now c = (r, c') \<Longrightarrow> cp_op c c'"
| op_mark_failed: "cp_op c (mark_failed e now c)"
| op_interrupt: "cp_op c (mark_interrupted now c)"
| op_cancel: "mark_cancelled now c = (r, c') \<Longrightarrow> cp_op c c'"
| op_succeed: "mark_succeeded now c = (r, c') \<Longrightarrow> cp_op c c'"
| op_target: "with_target t c = Inr c' \<Longrightarrow> cp_op c c'"

inductive reachable :: "checkpoint \<Rightarrow> bool" where
  created: "checkpoint_new oid kind defs now = Inr c \<Longrightarrow> reachable c"
| operated: "reachable c \<Longrightarrow> cp_op c c' \<Longrightarrow> reachable c'"

text \<open>
  The possible effects of an operation. Everything an invariant needs to know about the ten
  operations is in this case rule.
\<close>

lemma cp_op_effects:
  assumes "cp_op c c'"
  obtains
    (same) "steps c' = steps c" "current_step c' = current_step c" "op_status c' \<noteq> OpSucceeded \<or> op_status c' = op_status c"
      "schema_version c' = schema_version c" "operation_id c' = operation_id c"
      "op_kind c' = op_kind c" "created_unix_ms c' = created_unix_ms c"
      "updated_unix_ms c \<le> updated_unix_ms c'" "revision c \<le> revision c'"
      "target c' = target c \<or> pred_option target_ok (target c')"
  | (begun) i now where "i < length (steps c)" "can_begin i c" "\<not> other_running i c"
      "c' = begun i (step_id (steps c ! i)) now c"
  | (completed) i now where "i < length (steps c)" "step_status (steps c ! i) = StRunning"
      "c' = completed i now c"
  | (skipped) i now where "i < length (steps c)" "step_status (steps c ! i) = StPending"
      "c' = skipped i now c"
  | (failed) i e now where "i < length (steps c)" "step_status (steps c ! i) = StRunning"
      "c' = failed i e now c"
  | (interrupted) now where "c' = mark_interrupted now c"
  | (succeeded) now where "all_complete (steps c)"
      "c' = touch now (c\<lparr>op_status := OpSucceeded, current_step := None, op_last_error := None\<rparr>)"
  using assms
proof (cases rule: cp_op.cases)
  case (op_start now r)
  then have "c' = snd (start now c)" by simp
  then show ?thesis using start_clock [of c now] by (intro same) (simp_all add: start_status)
next
  case (op_begin sid now r)
  from begin_step_state [OF op_begin] consider
    "r = Inr Applied" | "c' = c" | "c' = snd (start now c)" by auto
  then show ?thesis
  proof cases
    case 1
    with op_begin obtain i where "step_index sid c = Inr i" "can_begin i c" "\<not> other_running i c"
      "c' = begun i sid now c" by (auto simp: begin_step_applied)
    then show ?thesis by (intro begun [of i now]) (auto simp: step_index_Inr)
  next
    case 2
    then show ?thesis by (intro same) simp_all
  next
    case 3
    then show ?thesis using start_clock [of c now] by (intro same) (simp_all add: start_status)
  qed
next
  case (op_complete sid now r)
  from complete_step_state [OF op_complete] show ?thesis
    by (auto simp: step_index_Inr intro: same completed)
next
  case (op_skip sid now r)
  from skip_step_state [OF op_skip] show ?thesis
    by (auto simp: step_index_Inr intro: same skipped)
next
  case (op_fail sid e now r)
  from fail_step_state [OF op_fail] show ?thesis
    by (auto simp: step_index_Inr intro: same failed)
next
  case (op_mark_failed e now)
  then show ?thesis by (intro same) (simp_all add: mark_failed_def le_saturating_add)
next
  case (op_interrupt now)
  then show ?thesis by (rule interrupted)
next
  case (op_cancel now r)
  then show ?thesis
    by (cases "op_status c = OpSucceeded")
      (auto simp: mark_cancelled_def le_saturating_add intro!: same)
next
  case (op_succeed now r)
  then show ?thesis
    by (cases "all_complete (steps c)")
      (auto simp: mark_succeeded_def not_all_complete intro: same succeeded)
next
  case (op_target t)
  then show ?thesis by (intro same) (auto simp: with_target_def res_simps)
qed

subsection \<open>Preservation of the contract\<close>

definition identity :: "step_checkpoint \<Rightarrow> string \<times> string \<times> bool" where
  "identity s = (step_id s, step_name s, idempotent s)"

definition shape :: "step_checkpoint list \<Rightarrow> (string \<times> string \<times> bool) list" where
  "shape ss = map identity ss"

lemmas op_state_defs = begun_def completed_def skipped_def failed_def mark_interrupted_def Let_def

lemma shape_update: "identity (f (ss ! i)) = identity (ss ! i) \<Longrightarrow> shape (ss[i := f (ss ! i)]) = shape ss"
  by (metis list_update_id map_update shape_def)

lemma shape_interrupt: "shape (map interrupt_step ss) = shape ss"
  by (simp add: shape_def interrupt_step_def identity_def)

lemma cp_op_shape:
  assumes "cp_op c c'"
  shows "shape (steps c') = shape (steps c)"
  using assms
  by (cases rule: cp_op_effects)
    (auto simp: op_state_defs shape_interrupt identity_def intro!: shape_update)

lemma shape_facts:
  assumes "shape ss' = shape ss"
  shows "length ss' = length ss" "map step_id ss' = map step_id ss"
    "list_all (\<lambda>s. P (step_id s) (step_name s)) ss' = list_all (\<lambda>s. P (step_id s) (step_name s)) ss"
proof -
  show len: "length ss' = length ss"
    using assms by (metis length_map shape_def)
  have nth: "identity (ss' ! i) = identity (ss ! i)" if "i < length ss" for i
    using assms len that by (metis nth_map shape_def)
  show "map step_id ss' = map step_id ss"
    using len nth by (auto intro!: nth_equalityI simp: identity_def)
  show "list_all (\<lambda>s. P (step_id s) (step_name s)) ss' = list_all (\<lambda>s. P (step_id s) (step_name s)) ss"
    using len nth by (auto simp: list_all_length identity_def)
qed

lemma shape_nth: "shape ss' = shape ss \<Longrightarrow> i < length ss \<Longrightarrow> identity (ss' ! i) = identity (ss ! i)"
  by (metis length_map nth_map shape_def)

lemma ids_of_shape: "shape ss' = shape ss \<Longrightarrow> step_id ` set ss' = step_id ` set ss"
  by (metis image_set shape_facts(2))

lemma begun_clock:
  "updated_unix_ms c \<le> updated_unix_ms (begun i sid now c)" "revision c \<le> revision (begun i sid now c)"
  using start_clock [of c now]
  by (auto simp: begun_def le_max_iff_disj intro: order_trans le_saturating_add)

lemma interrupted_simps [simp]:
  "schema_version (mark_interrupted n c) = schema_version c"
  "operation_id (mark_interrupted n c) = operation_id c"
  "op_kind (mark_interrupted n c) = op_kind c"
  "current_step (mark_interrupted n c) = current_step c"
  "created_unix_ms (mark_interrupted n c) = created_unix_ms c"
  "target (mark_interrupted n c) = target c"
  "steps (mark_interrupted n c) = map interrupt_step (steps c)"
  "updated_unix_ms c \<le> updated_unix_ms (mark_interrupted n c)"
  "revision c \<le> revision (mark_interrupted n c)"
  "op_status (mark_interrupted n c) =
     (if op_status c \<in> {OpPending, OpRunning} then OpInterrupted else op_status c)"
  by (simp_all add: mark_interrupted_def Let_def le_saturating_add)

lemma cp_op_header:
  assumes "cp_op c c'"
  shows "schema_version c' = schema_version c \<and> operation_id c' = operation_id c \<and>
    op_kind c' = op_kind c \<and> created_unix_ms c' = created_unix_ms c \<and>
    updated_unix_ms c \<le> updated_unix_ms c' \<and> revision c \<le> revision c' \<and>
    (target c' = target c \<or> pred_option target_ok (target c'))"
  using assms
proof (cases rule: cp_op_effects)
  case (begun i now)
  then show ?thesis using begun_clock [of c i _ now] by (simp add: begun_def)
qed (simp_all add: completed_def skipped_def failed_def le_saturating_add)

lemma cp_op_running:
  assumes "cp_op c c'" and "running_count (steps c) \<le> 1"
  shows "running_count (steps c') \<le> 1"
  using assms(1)
proof (cases rule: cp_op_effects)
  case (begun i now)
  then show ?thesis
    using assms(2) unfolding running_count_le_1
    by (auto simp: begun_def other_running_iff nth_list_update)
qed (use assms(2) in \<open>unfold running_count_le_1,
      auto simp: completed_def skipped_def failed_def nth_list_update interrupt_step_def\<close>)

lemma cp_op_current:
  assumes "cp_op c c'" and "pred_option (\<lambda>cur. cur \<in> step_id ` set (steps c)) (current_step c)"
  shows "pred_option (\<lambda>cur. cur \<in> step_id ` set (steps c')) (current_step c')"
  unfolding ids_of_shape [OF cp_op_shape [OF assms(1)]]
  using assms(1) by (cases rule: cp_op_effects) (use assms(2) in \<open>auto simp: op_state_defs\<close>)

lemma cp_op_succeeded:
  assumes "cp_op c c'" and "op_status c = OpSucceeded \<longrightarrow> all_complete (steps c)"
  shows "op_status c' = OpSucceeded \<longrightarrow> all_complete (steps c')"
  using assms(1)
proof (cases rule: cp_op_effects)
  case (begun i now)
  then show ?thesis by (simp add: op_state_defs start_status can_begin_def)
next
  case (interrupted now)
  then show ?thesis
    using assms(2) by (auto simp: op_state_defs all_complete_def interrupt_step_def list_all_iff)
qed (use assms(2) in \<open>auto simp: op_state_defs all_complete_nth nth_list_update\<close>)

lemma cp_op_wf:
  assumes "cp_op c c'" and "checkpoint_wf c"
  shows "checkpoint_wf c'"
proof -
  note sh = cp_op_shape [OF assms(1)] and hd = cp_op_header [OF assms(1)]
  have "steps c' = [] \<longleftrightarrow> steps c = []"
    using shape_facts(1) [OF sh] by (metis length_0_conv)
  moreover have "pred_option target_ok (target c')"
    using assms(2) hd by (auto simp: checkpoint_wf_def)
  ultimately show ?thesis
    using assms(2) hd cp_op_running [OF assms(1)] cp_op_current [OF assms(1)]
      cp_op_succeeded [OF assms(1)]
      shape_facts(1,2) [OF sh]
      shape_facts(3) [OF sh, where P = "\<lambda>a b. identifier_ok a \<and> display_ok b"]
    unfolding checkpoint_wf_def by simp
qed

subsection \<open>The life cycle of a checkpoint that was created by the program\<close>

text \<open>
  A step is started when an attempt was made at it, and open when it was started and has not
  completed. The invariant of every state reachable from \<open>new\<close>: identifiers are distinct;
  a started step has only complete steps before it; the current step is exactly the open one;
  the attempt counter counts starts, and a non-idempotent step is started at most once; an
  error is attached to a step exactly while it is failed.
\<close>

definition started :: "step_status \<Rightarrow> bool" where
  "started st \<longleftrightarrow> st \<in> {StRunning, StInterrupted, StFailed, StSucceeded}"

definition open_status :: "step_status \<Rightarrow> bool" where
  "open_status st \<longleftrightarrow> st \<in> {StRunning, StInterrupted, StFailed}"

definition step_accounted :: "step_checkpoint \<Rightarrow> bool" where
  "step_accounted s \<longleftrightarrow>
     (attempts s = 0 \<longleftrightarrow> \<not> started (step_status s)) \<and>
     (\<not> idempotent s \<longrightarrow> attempts s \<le> 1) \<and>
     (step_error s = None \<longleftrightarrow> step_status s \<noteq> StFailed)"

definition lifecycle :: "checkpoint \<Rightarrow> bool" where
  "lifecycle c \<longleftrightarrow>
     distinct (map step_id (steps c)) \<and>
     (\<forall>i < length (steps c).
        step_accounted (steps c ! i) \<and>
        (started (step_status (steps c ! i)) \<longrightarrow> all_complete (take i (steps c))) \<and>
        (current_step c = Some (step_id (steps c ! i)) \<longleftrightarrow> open_status (step_status (steps c ! i))))"

lemma status_facts [simp]:
  "started StRunning" "started StInterrupted" "started StFailed" "started StSucceeded"
  "\<not> started StPending" "\<not> started StSkipped"
  "open_status StRunning" "open_status StInterrupted" "open_status StFailed"
  "\<not> open_status StPending" "\<not> open_status StSkipped" "\<not> open_status StSucceeded"
  by (simp_all add: started_def open_status_def)

lemma open_iff: "open_status st \<longleftrightarrow> started st \<and> \<not> is_complete st"
  by (cases st) simp_all

lemma all_complete_take:
  "i \<le> length ss \<Longrightarrow> all_complete (take i ss) \<longleftrightarrow> (\<forall>j < i. is_complete (step_status (ss ! j)))"
  by (auto simp: all_complete_nth min_def)

lemma lifecycleD:
  assumes "lifecycle c" and "i < length (steps c)"
  shows "step_accounted (steps c ! i)"
    and "started (step_status (steps c ! i)) \<Longrightarrow> j < i \<Longrightarrow> is_complete (step_status (steps c ! j))"
    and "current_step c = Some (step_id (steps c ! i)) \<longleftrightarrow> open_status (step_status (steps c ! i))"
  using assms by (auto simp: lifecycle_def all_complete_take)

lemma lifecycle_id_inj:
  assumes "lifecycle c" "i < length (steps c)" "j < length (steps c)"
  shows "step_id (steps c ! i) = step_id (steps c ! j) \<longleftrightarrow> i = j"
proof -
  have "distinct (map step_id (steps c))" using assms(1) by (simp add: lifecycle_def)
  then show ?thesis using assms(2,3) by (auto simp: distinct_conv_nth)
qed

lemma lifecycle_one_open:
  assumes "lifecycle c" "i < length (steps c)" "j < length (steps c)"
    and "open_status (step_status (steps c ! i))" "open_status (step_status (steps c ! j))"
  shows "i = j"
  using assms lifecycleD(3) [OF assms(1)] lifecycle_id_inj [OF assms(1-3)]
  by (metis option.inject)

lemma step_index_nth:
  assumes "lifecycle c" "i < length (steps c)"
  shows "step_index (step_id (steps c ! i)) c = Inr i"
  using assms lifecycle_id_inj [OF assms(1)] by (auto simp: step_index_Inr)

text \<open>
  The one update lemma behind the invariant: step \<open>i\<close> becomes \<open>s'\<close>, no other step is open
  before or after, and the current step is set to match.
\<close>

lemma lifecycle_update:
  assumes lc: "lifecycle c" and i: "i < length (steps c)"
    and steps': "steps c' = (steps c)[i := s']" and id: "step_id s' = step_id (steps c ! i)"
    and acc: "step_accounted s'"
    and before: "started (step_status s') \<Longrightarrow> all_complete (take i (steps c))"
    and keep: "is_complete (step_status (steps c ! i)) \<Longrightarrow> is_complete (step_status s')"
    and cur: "\<And>j. j < length (steps c) \<Longrightarrow> current_step c' = Some (step_id (steps c ! j)) \<longleftrightarrow>
      (if j = i then open_status (step_status s') else open_status (step_status (steps c ! j)))"
  shows "lifecycle c'"
proof -
  have ids: "map step_id (steps c') = map step_id (steps c)"
    using steps' id by (metis list_update_id map_update)
  have nth: "steps c' ! j = (if j = i then s' else steps c ! j)" if "j < length (steps c)" for j
    using that i steps' by (simp add: nth_list_update)
  have len: "length (steps c') = length (steps c)" using steps' by simp
  have "step_accounted (steps c' ! j) \<and>
      (started (step_status (steps c' ! j)) \<longrightarrow> all_complete (take j (steps c'))) \<and>
      (current_step c' = Some (step_id (steps c' ! j)) \<longleftrightarrow> open_status (step_status (steps c' ! j)))"
    if j: "j < length (steps c)" for j
  proof (intro conjI impI)
    show "step_accounted (steps c' ! j)"
      using acc lifecycleD(1) [OF lc j] nth [OF j] by simp
    show "current_step c' = Some (step_id (steps c' ! j)) \<longleftrightarrow> open_status (step_status (steps c' ! j))"
      using cur [OF j] nth [OF j] id by (cases "j = i") simp_all
    assume "started (step_status (steps c' ! j))"
    then have "is_complete (step_status (steps c ! k))" if "k < j" for k
      using that nth [OF j] before lifecycleD(2) [OF lc j] i j
      by (auto simp: all_complete_take split: if_splits)
    then show "all_complete (take j (steps c'))"
      using j len nth keep by (auto simp: all_complete_take)
  qed
  then show ?thesis using lc ids len by (auto simp: lifecycle_def)
qed

lemma interrupt_step_simps [simp]:
  "step_id (interrupt_step s) = step_id s" "step_name (interrupt_step s) = step_name s"
  "idempotent (interrupt_step s) = idempotent s" "attempts (interrupt_step s) = attempts s"
  "step_error (interrupt_step s) = step_error s"
  "is_complete (step_status (interrupt_step s)) = is_complete (step_status s)"
  "started (step_status (interrupt_step s)) = started (step_status s)"
  "open_status (step_status (interrupt_step s)) = open_status (step_status s)"
  "step_accounted (interrupt_step s) = step_accounted s"
  by (simp_all add: interrupt_step_def step_accounted_def)

lemma lifecycle_interrupt: "lifecycle c \<Longrightarrow> lifecycle (mark_interrupted now c)"
  by (simp add: lifecycle_def all_complete_take comp_def)

lemma lifecycle_no_open:
  assumes "lifecycle c" "i < length (steps c)" "can_begin i c" "j < length (steps c)" "j \<noteq> i"
  shows "\<not> open_status (step_status (steps c ! j))"
proof
  assume "open_status (step_status (steps c ! j))"
  then have st: "started (step_status (steps c ! j))" "\<not> is_complete (step_status (steps c ! j))"
    by (auto simp: open_iff)
  from assms(5) consider "j < i" | "i < j" by linarith
  then show False
  proof cases
    case 1
    then show ?thesis using assms(2,3) st by (auto simp: can_begin_def all_complete_take)
  next
    case 2
    then have "is_complete (step_status (steps c ! i))"
      using lifecycleD(2) [OF assms(1,4) st(1)] by simp
    then show ?thesis using assms(3) by (auto simp: can_begin_def)
  qed
qed

lemma accounted_begin:
  assumes "step_accounted s"
    and "step_status s = StPending \<or> step_status s \<in> {StFailed, StInterrupted} \<and> idempotent s"
  shows "step_accounted
    (s\<lparr>step_status := StRunning, attempts := saturating_add (attempts s) 1, step_error := None\<rparr>)"
proof -
  have "saturating_add 0 (1::u32) = 1" by (simp add: saturating_add_def)
  moreover have "saturating_add (attempts s) 1 \<noteq> 0" by (rule saturating_add_nonzero) simp
  ultimately show ?thesis using assms by (auto simp: step_accounted_def)
qed

lemma lifecycle_preserved:
  assumes "cp_op c c'" and lc: "lifecycle c"
  shows "lifecycle c'"
  using assms(1)
proof (cases rule: cp_op_effects)
  case same
  then show ?thesis using lc by (simp add: lifecycle_def)
next
  case (begun i now)
  have "step_accounted (steps c ! i)" by (rule lifecycleD(1) [OF lc begun(1)])
  then have acc: "step_accounted ((steps c ! i)\<lparr>step_status := StRunning,
      attempts := saturating_add (attempts (steps c ! i)) 1, step_error := None\<rparr>)"
    using begun(2) by (intro accounted_begin) (auto simp: can_begin_def)
  show ?thesis
  proof (rule lifecycle_update [OF lc begun(1), where
      s' = "(steps c ! i)\<lparr>step_status := StRunning,
        attempts := saturating_add (attempts (steps c ! i)) 1, step_error := None\<rparr>"])
    show "current_step c' = Some (step_id (steps c ! j)) \<longleftrightarrow>
        (if j = i then open_status (step_status ((steps c ! i)\<lparr>step_status := StRunning,
            attempts := saturating_add (attempts (steps c ! i)) 1, step_error := None\<rparr>))
         else open_status (step_status (steps c ! j)))" if "j < length (steps c)" for j
      using lifecycle_no_open [OF lc begun(1,2) that] lifecycle_id_inj [OF lc begun(1) that] begun(4)
      by (auto simp: begun_def)
  qed (use begun acc in \<open>auto simp: begun_def can_begin_def\<close>)
next
  case (completed i now)
  have acc: "step_accounted ((steps c ! i)\<lparr>step_status := StSucceeded, step_error := None\<rparr>)"
    using lifecycleD(1) [OF lc completed(1)] completed(2) by (simp add: step_accounted_def)
  have sole: "\<not> open_status (step_status (steps c ! j))" if "j < length (steps c)" "j \<noteq> i" for j
    using lifecycle_one_open [OF lc completed(1) that(1)] completed(2) that(2) by auto
  show ?thesis
    by (rule lifecycle_update [OF lc completed(1), where
          s' = "(steps c ! i)\<lparr>step_status := StSucceeded, step_error := None\<rparr>"])
      (use completed acc sole lifecycleD(2) [OF lc completed(1)] in
        \<open>auto simp: completed_def all_complete_take\<close>)
next
  case (skipped i now)
  have acc: "step_accounted ((steps c ! i)\<lparr>step_status := StSkipped, step_error := None\<rparr>)"
    using lifecycleD(1) [OF lc skipped(1)] skipped(2) by (simp add: step_accounted_def)
  show ?thesis
    by (rule lifecycle_update [OF lc skipped(1), where
          s' = "(steps c ! i)\<lparr>step_status := StSkipped, step_error := None\<rparr>"])
      (use skipped acc lifecycleD(3) [OF lc] in \<open>auto simp: skipped_def\<close>)
next
  case (failed i e now)
  have acc: "step_accounted ((steps c ! i)\<lparr>step_status := StFailed, step_error := Some e\<rparr>)"
    using lifecycleD(1) [OF lc failed(1)] failed(2) by (simp add: step_accounted_def)
  have sole: "\<not> open_status (step_status (steps c ! j))" if "j < length (steps c)" "j \<noteq> i" for j
    using lifecycle_one_open [OF lc failed(1) that(1)] failed(2) that(2) by auto
  show ?thesis
    by (rule lifecycle_update [OF lc failed(1), where
          s' = "(steps c ! i)\<lparr>step_status := StFailed, step_error := Some e\<rparr>"])
      (use failed acc sole lifecycleD(2) [OF lc failed(1)] lifecycle_id_inj [OF lc failed(1)] in
        \<open>auto simp: failed_def all_complete_take\<close>)
next
  case (interrupted now)
  then show ?thesis using lc lifecycle_interrupt by simp
next
  case (succeeded now)
  then show ?thesis using lc by (auto simp: lifecycle_def all_complete_nth open_iff)
qed

lemma lifecycle_new: "checkpoint_new oid kind defs now = Inr c \<Longrightarrow> lifecycle c \<and> checkpoint_wf c"
proof -
  assume new: "checkpoint_new oid kind defs now = Inr c"
  then have "checkpoint_wf c"
    by (auto simp: checkpoint_new_def Let_def res_simps simp flip: validate_exact)
  moreover have "steps c = map step_of_definition defs" "current_step c = None"
    using new by (auto simp: checkpoint_new_def Let_def res_simps)
  ultimately show ?thesis
    by (simp add: lifecycle_def checkpoint_wf_def step_of_definition_def step_accounted_def)
qed

lemma reachable_lifecycle: "reachable c \<Longrightarrow> lifecycle c \<and> checkpoint_wf c"
  by (induction rule: reachable.induct) (auto simp: lifecycle_new lifecycle_preserved cp_op_wf)

lemma completed_step_kept:
  assumes "cp_op c c'" "i < length (steps c)" "is_complete (step_status (steps c ! i))"
  shows "steps c' ! i = steps c ! i"
  using assms(1)
proof (cases rule: cp_op_effects)
  case (interrupted now)
  then show ?thesis using assms by (auto simp: interrupt_step_def)
qed (use assms in \<open>auto simp: begun_def completed_def skipped_def failed_def can_begin_def nth_list_update\<close>)

lemma lifecycle_no_other_running:
  assumes "lifecycle c" "i < length (steps c)" "can_begin i c"
  shows "\<not> other_running i c"
  using lifecycle_no_open [OF assms] status_facts(7) unfolding other_running_iff by metis

subsection \<open>A concrete checkpoint\<close>

definition sample_definitions :: "step_definition list" where
  "sample_definitions =
     [\<lparr>def_id = ''format'', def_name = ''Format target'', def_idempotent = False\<rparr>,
      \<lparr>def_id = ''apply'', def_name = ''Apply image'', def_idempotent = True\<rparr>,
      \<lparr>def_id = ''boot'', def_name = ''Repair boot'', def_idempotent = True\<rparr>]"

definition sample_checkpoint :: checkpoint where
  "sample_checkpoint =
     \<lparr>schema_version = 1, operation_id = ''install-1'', op_kind = OpInstall,
      op_status = OpPending, current_step = None, op_last_error = None, revision = 0,
      created_unix_ms = 10, updated_unix_ms = 10, target = None,
      steps = map step_of_definition sample_definitions\<rparr>"

lemma sample_new: "checkpoint_new ''install-1'' OpInstall sample_definitions 10 = Inr sample_checkpoint"
  by code_simp

lemma sample_reachable: "reachable sample_checkpoint"
  by (rule reachable.created [OF sample_new])

lemmas checkpoint_eval = begin_step_def complete_step_def skip_step_def fail_step_def
  mark_succeeded_def step_index_def start_def other_running_def modify_step_def touch_def Let_def
  sample_checkpoint_def sample_definitions_def step_of_definition_def

lemma sample_wf: "checkpoint_wf sample_checkpoint"
  using reachable_lifecycle [OF sample_reachable] by simp

subsection \<open>Properties of the checkpoint\<close>

text \<open>
  C20. Whatever operation is called, with whatever arguments, and whether it returns \<open>Ok\<close> or
  \<open>Err\<close>: a checkpoint that satisfies the contract still satisfies it, so it can always be
  saved and loaded again; its identity, kind, creation time and the names, identifiers and
  idempotency of its steps do not change; its clock and its revision never go back.
\<close>

theorem operations_preserve_contract:
  assumes "cp_op c c'" and "checkpoint_wf c"
  shows "checkpoint_wf c' \<and> shape (steps c') = shape (steps c) \<and>
    operation_id c' = operation_id c \<and> op_kind c' = op_kind c \<and>
    created_unix_ms c' = created_unix_ms c \<and>
    updated_unix_ms c \<le> updated_unix_ms c' \<and> revision c \<le> revision c'"
  using cp_op_wf [OF assms] cp_op_shape [OF assms(1)] cp_op_header [OF assms(1)] by simp

theorem operations_preserve_contract_witness:
  "checkpoint_wf (snd (begin_step ''format'' 20 sample_checkpoint))"
  using operations_preserve_contract [OF cp_op.op_begin [OF prod.collapse [symmetric]] sample_wf]
  by blast

text \<open>
  C21. In every checkpoint the program can reach from \<open>new\<close>: a step is started only after all
  earlier steps are complete, at most one step is open and it is the one that
  \<open>current_step\<close> names, a step that may not be repeated was started at most once, and a step
  carries an error exactly while it is failed.
\<close>

theorem reachable_step_order:
  assumes "reachable c" and "i < length (steps c)"
  shows "(started (step_status (steps c ! i)) \<longrightarrow>
            (\<forall>j < i. is_complete (step_status (steps c ! j)))) \<and>
    (current_step c = Some (step_id (steps c ! i)) \<longleftrightarrow> open_status (step_status (steps c ! i))) \<and>
    (open_status (step_status (steps c ! i)) \<longrightarrow>
       (\<forall>j < length (steps c). open_status (step_status (steps c ! j)) \<longrightarrow> j = i)) \<and>
    (attempts (steps c ! i) = 0 \<longleftrightarrow> \<not> started (step_status (steps c ! i))) \<and>
    (\<not> idempotent (steps c ! i) \<longrightarrow> attempts (steps c ! i) \<le> 1) \<and>
    (step_error (steps c ! i) \<noteq> None \<longleftrightarrow> step_status (steps c ! i) = StFailed)"
proof -
  have lc: "lifecycle c" using assms(1) reachable_lifecycle by simp
  show ?thesis
    using lifecycleD [OF lc assms(2)] lifecycle_one_open [OF lc _ assms(2)] assms(2)
    by (auto simp: step_accounted_def)
qed

lemma sample_begun_reachable: "reachable (snd (begin_step ''format'' 20 sample_checkpoint))"
  by (rule reachable.operated [OF sample_reachable cp_op.op_begin [OF prod.collapse [symmetric]]])

theorem reachable_step_order_witness:
  "attempts (steps (snd (begin_step ''format'' 20 sample_checkpoint)) ! 0) \<le> 1 \<and>
   attempts (steps (snd (begin_step ''format'' 20 sample_checkpoint)) ! 0) \<noteq> 0"
proof -
  have facts: "0 < length (steps (snd (begin_step ''format'' 20 sample_checkpoint)))"
    "started (step_status (steps (snd (begin_step ''format'' 20 sample_checkpoint)) ! 0))"
    "\<not> idempotent (steps (snd (begin_step ''format'' 20 sample_checkpoint)) ! 0)"
    by (simp_all add: checkpoint_eval)
  show ?thesis
    using reachable_step_order [OF sample_begun_reachable facts(1)] facts(2,3) by argo
qed

text \<open>A completed or skipped step is final: no later sequence of operations changes it in any
  field, and its position in the plan stays the same.
\<close>

theorem completed_steps_are_final:
  assumes "cp_op\<^sup>*\<^sup>* c c'" and "i < length (steps c)" and "is_complete (step_status (steps c ! i))"
  shows "i < length (steps c') \<and> steps c' ! i = steps c ! i"
  using assms(1)
proof (induction rule: rtranclp_induct)
  case base
  then show ?case using assms by simp
next
  case (step d e)
  then show ?case
    using completed_step_kept [OF step(2)] shape_facts(1) [OF cp_op_shape [OF step(2)]] assms(3)
    by simp
qed

theorem completed_steps_are_final_witness:
  "step_status (steps (mark_interrupted 30 (snd (skip_step ''apply'' 20 sample_checkpoint))) ! 1) = StSkipped"
proof -
  let ?c = "snd (skip_step ''apply'' 20 sample_checkpoint)"
  have facts: "1 < length (steps ?c)" "is_complete (step_status (steps ?c ! 1))"
    "step_status (steps ?c ! 1) = StSkipped"
    by (simp_all add: checkpoint_eval)
  have run: "cp_op\<^sup>*\<^sup>* ?c (mark_interrupted 30 ?c)"
    by (rule r_into_rtranclp) (rule cp_op.op_interrupt)
  show ?thesis using completed_steps_are_final [OF run facts(1,2)] facts(3) by simp
qed

text \<open>
  \<open>begin_step\<close> in a reachable checkpoint: the complete table of its results. It starts the
  step exactly when the step is pending, or failed or interrupted and idempotent, every
  earlier step is complete and the operation is neither cancelled nor succeeded; in every
  other case the checkpoint is left exactly as it was. The guard against a second running
  step never fires.
\<close>

theorem begin_step_outcome:
  assumes "reachable c" and "i < length (steps c)" and "sid = step_id (steps c ! i)"
  shows "begin_step sid now c =
    (if is_complete (step_status (steps c ! i)) then (Inr AlreadyComplete, c)
     else if step_status (steps c ! i) = StRunning then (Inr AlreadyRunning, c)
     else if \<not> all_complete (take i (steps c)) then
       (Inl (state_error (''cannot start step '' @ sid @ '' before previous steps complete'')), c)
     else if step_status (steps c ! i) \<noteq> StPending \<and> \<not> idempotent (steps c ! i) then
       (Inl (state_error (''step '' @ sid @
          '' is non-idempotent and requires manual restart confirmation'')), c)
     else if op_status c \<in> {OpCancelled, OpSucceeded} then
       (Inl (state_error ''a completed or cancelled operation cannot be started''), c)
     else (Inr Applied, begun i sid now c))"
proof -
  have lc: "lifecycle c" using assms(1) reachable_lifecycle by simp
  have idx: "step_index sid c = Inr i" using step_index_nth [OF lc assms(2)] assms(3) by simp
  show ?thesis
  proof (cases "can_begin i c")
    case True
    then have "begin_step sid now c = (Inr Applied, begun i sid now c)"
      using idx lifecycle_no_other_running [OF lc assms(2)] by (auto simp: begin_step_applied)
    with True show ?thesis by (auto simp: can_begin_def)
  next
    case False
    then show ?thesis
      using idx
      by (cases "step_status (steps c ! i)"; cases "op_status c")
        (simp_all add: begin_step_def can_begin_def not_all_complete start_def)
  qed
qed

theorem begin_step_outcome_witness:
  "fst (begin_step ''apply'' 20 sample_checkpoint) =
     Inl (state_error ''cannot start step apply before previous steps complete'')"
proof -
  have facts: "1 < length (steps sample_checkpoint)" "''apply'' = step_id (steps sample_checkpoint ! 1)"
    "\<not> is_complete (step_status (steps sample_checkpoint ! 1))"
    "step_status (steps sample_checkpoint ! 1) \<noteq> StRunning"
    "\<not> all_complete (take 1 (steps sample_checkpoint))"
    by (simp_all add: checkpoint_eval all_complete_def)
  show ?thesis
    unfolding begin_step_outcome [OF sample_reachable facts(1,2)] using facts(3-5) by simp
qed

end
