(* ===== verification/Journal.thy ===== *)
theory Journal
  imports Checkpoint
begin

section \<open>The durable journal\<close>

text \<open>
  \<open>lr-core/src/operation/checkpoint.rs\<close>, the persistent part: \<open>CheckpointStore\<close> writes one
  checkpoint file atomically, \<open>OperationJournal\<close> pairs the store with the live checkpoint and
  makes each transition on a copy, saves the copy with bounded retries, and only then replaces
  the live one.

  The file system and \<open>serde_json\<close> are not code of the repository. The results of the four
  file-system calls of one atomic write are a \<open>write_io\<close>, any four results; which attempt gets
  which results is an arbitrary function \<open>io\<close> of the attempt number. The only behaviour relied
  on is that a replacing rename that fails leaves the destination as it was. \<open>enc\<close> and
  \<open>dec\<close> are the JSON encoder and decoder.
\<close>

subsection \<open>The store\<close>

datatype disk_entry = Regular bytes | NotRegular

record disk =
  checkpoint_file :: "disk_entry option"
  write_attempts :: nat

record write_io =
  io_create_dir :: "io_error + unit"
  io_create_temp :: "io_error + unit"
  io_open_sync :: "io_error + unit"
  io_replace :: "io_error + unit"

record read_io =
  io_metadata :: "io_error option"
  io_read :: "io_error option"

definition max_checkpoint_bytes :: nat where
  "max_checkpoint_bytes = 1024 * 1024"

definition write_atomic :: "write_io \<Rightarrow> bytes \<Rightarrow> disk \<Rightarrow> (io_error + unit) \<times> disk" where
  "write_atomic w data d =
     (let d1 = d\<lparr>write_attempts := Suc (write_attempts d)\<rparr> in
      case and_then (io_create_dir w) (\<lambda>_. and_then (io_create_temp w) (\<lambda>_. io_open_sync w)) of
        Inl e \<Rightarrow> (Inl e, d1)
      | Inr _ \<Rightarrow> (case io_replace w of
          Inl e \<Rightarrow> (Inl e, d1)
        | Inr _ \<Rightarrow> (Inr (), d1\<lparr>checkpoint_file := Some (Regular data)\<rparr>)))"

definition store_save ::
  "(checkpoint \<Rightarrow> string + bytes) \<Rightarrow> (nat \<Rightarrow> write_io) \<Rightarrow> checkpoint \<Rightarrow> disk \<Rightarrow> (op_error + unit) \<times> disk" where
  "store_save enc io c d =
     (case and_then (validate c) (\<lambda>_. map_err
             (\<lambda>t. op_error_new State None (''serialize checkpoint: '' @ t) False) (enc c)) of
        Inl e \<Rightarrow> (Inl e, d)
      | Inr data \<Rightarrow> (case write_atomic (io (write_attempts d)) data d of
          (r, d') \<Rightarrow> (map_err (io_op_error ''write checkpoint'') r, d')))"

definition store_load ::
  "(bytes \<Rightarrow> string + checkpoint) \<Rightarrow> read_io \<Rightarrow> disk \<Rightarrow> op_error + checkpoint option" where
  "store_load dec rio d =
     (case io_metadata rio of
        Some e \<Rightarrow> if io_kind e = NotFound then Inr None
          else Inl (io_op_error ''read checkpoint metadata'' e)
      | None \<Rightarrow> (case checkpoint_file d of
          None \<Rightarrow> Inr None
        | Some NotRegular \<Rightarrow> Inl (validation_error ''checkpoint path is not a regular file'')
        | Some (Regular data) \<Rightarrow>
            if max_checkpoint_bytes < length data then
              Inl (validation_error (''checkpoint exceeds '' @ show_nat max_checkpoint_bytes @ '' bytes''))
            else (case io_read rio of
              Some e \<Rightarrow> Inl (io_op_error ''read checkpoint'' e)
            | None \<Rightarrow>
                and_then (map_err (\<lambda>t. validation_error (''invalid checkpoint JSON: '' @ t)) (dec data)) (\<lambda>c.
                and_then (validate c) (\<lambda>_. Inr (Some c))))))"

definition store_remove :: "io_error option \<Rightarrow> disk \<Rightarrow> (op_error + unit) \<times> disk" where
  "store_remove failure d =
     (case failure of
        Some e \<Rightarrow> (if io_kind e = NotFound then Inr () else Inl (io_op_error ''remove checkpoint'' e), d)
      | None \<Rightarrow> (Inr (), d\<lparr>checkpoint_file := None\<rparr>))"

subsection \<open>The transitions the journal makes on the copy\<close>

definition is_pending :: "step_checkpoint \<Rightarrow> bool" where
  "is_pending s \<longleftrightarrow> step_status s = StPending"

text \<open>\<open>if let Some(current) = current_step.clone() { if running { complete_step(..)?; } }\<close>\<close>

definition complete_current :: "u64 \<Rightarrow> checkpoint \<Rightarrow> (op_error + unit) \<times> checkpoint" where
  "complete_current now c = (case current_step c of
     None \<Rightarrow> (Inr (), c)
   | Some cur \<Rightarrow>
      (case find_step c cur of
         Some s \<Rightarrow>
           if step_status s = StRunning
           then st_bind (complete_step cur now c) (\<lambda>_ c'. (Inr (), c'))
           else (Inr (), c)
       | None \<Rightarrow> (Inr (), c)))"

definition skip_pending :: "u64 \<Rightarrow> step_checkpoint list \<Rightarrow> checkpoint \<Rightarrow> (op_error + unit) \<times> checkpoint" where
  "skip_pending now ss = st_iter (\<lambda>p. skip_step p now) (map step_id (filter is_pending ss))"

definition observe_update :: "string \<Rightarrow> u64 \<Rightarrow> checkpoint \<Rightarrow> (op_error + step_transition) \<times> checkpoint" where
  "observe_update sid now c =
     (if current_step c = Some sid then (Inr AlreadyRunning, c)
      else st_bind (complete_current now c) (\<lambda>_ c1.
        case step_index sid c1 of
          Inl e \<Rightarrow> (Inl e, c1)
        | Inr i \<Rightarrow> st_bind (skip_pending now (take i (steps c1)) c1) (\<lambda>_. begin_step sid now)))"

definition fail_update :: "op_error \<Rightarrow> u64 \<Rightarrow> checkpoint \<Rightarrow> (op_error + unit) \<times> checkpoint" where
  "fail_update e now c = (case current_step c of
     Some cur \<Rightarrow> fail_step cur e now c
   | None \<Rightarrow> (Inr (), mark_failed e now c))"

definition complete_update :: "u64 \<Rightarrow> checkpoint \<Rightarrow> (op_error + unit) \<times> checkpoint" where
  "complete_update now c =
     st_bind (complete_current now c) (\<lambda>_ c1.
     st_bind (skip_pending now (steps c1) c1) (\<lambda>_. mark_succeeded now))"

definition interrupt_update :: "u64 \<Rightarrow> checkpoint \<Rightarrow> (op_error + unit) \<times> checkpoint" where
  "interrupt_update now c = (Inr (), mark_interrupted now c)"

subsection \<open>The journal\<close>

text \<open>
  A journal is its live checkpoint; \<open>save\<close> is \<open>self.store.save\<close> on the state of the disk, and
  the retry policy is the constant of \<open>create\<close> and \<open>open\<close>.
\<close>

definition persist ::
  "('c \<Rightarrow> 'd \<Rightarrow> (op_error + unit) \<times> 'd) \<Rightarrow> 'c \<Rightarrow> 'd \<Rightarrow> (op_error + unit) \<times> 'd" where
  "persist save c d =
     (case run_with_retry transient_io_policy Idempotent (\<lambda>_. save c) d of (r, d', _) \<Rightarrow> (r, d'))"

definition journal_create ::
  "('c \<Rightarrow> 'd \<Rightarrow> (op_error + unit) \<times> 'd) \<Rightarrow> 'c \<Rightarrow> 'd \<Rightarrow> (op_error + 'c) \<times> 'd" where
  "journal_create save c d = st_bind (persist save c d) (\<lambda>_ d'. (Inr c, d'))"

definition journal_update ::
  "('c \<Rightarrow> 'd \<Rightarrow> (op_error + unit) \<times> 'd) \<Rightarrow> ('c \<Rightarrow> (op_error + 'a) \<times> 'c) \<Rightarrow> 'c \<times> 'd \<Rightarrow>
    (op_error + 'a) \<times> 'c \<times> 'd" where
  "journal_update save f j = (case j of (c, d) \<Rightarrow>
     (case f c of
        (Inl e, _) \<Rightarrow> (Inl e, c, d)
      | (Inr v, c') \<Rightarrow> (case persist save c' d of
          (Inl e, d') \<Rightarrow> (Inl e, c, d')
        | (Inr _, d') \<Rightarrow> (Inr v, c', d'))))"

definition journal_open ::
  "(bytes \<Rightarrow> string + checkpoint) \<Rightarrow> read_io \<Rightarrow> disk \<Rightarrow> op_error + (checkpoint \<times> disk) option" where
  "journal_open dec rio d =
     and_then (store_load dec rio d) (\<lambda>r. Inr (map_option (\<lambda>c. (c, d)) r))"

definition observe_step where
  "observe_step save sid now = journal_update save (observe_update sid now)"

definition fail_current where
  "fail_current save e now = journal_update save (fail_update e now)"

definition journal_complete where
  "journal_complete save now = journal_update save (complete_update now)"

definition journal_interrupted where
  "journal_interrupted save now = journal_update save (interrupt_update now)"

definition journal_remove :: "io_error option \<Rightarrow> checkpoint \<times> disk \<Rightarrow> (op_error + unit) \<times> checkpoint \<times> disk" where
  "journal_remove failure j = (case j of (c, d) \<Rightarrow>
     (case store_remove failure d of (r, d') \<Rightarrow> (r, c, d')))"

subsection \<open>What the journal relies on\<close>

text \<open>
  The interface between the journal and its store: \<open>holds c d\<close> says that the stored content
  is \<open>c\<close>. A successful save makes the store hold what was saved; a failed one keeps whatever
  it held. The journal's guarantees follow for every such store.
\<close>

locale durable_store =
  fixes save :: "'c \<Rightarrow> 'd \<Rightarrow> (op_error + unit) \<times> 'd"
    and holds :: "'c \<Rightarrow> 'd \<Rightarrow> bool"
  assumes save_ok: "save c d = (Inr u, d') \<Longrightarrow> holds c d'"
    and save_failed: "save c d = (Inl e, d') \<Longrightarrow> holds x d \<Longrightarrow> holds x d'"
begin

lemma persist_cases:
  assumes "persist save c d = (r, d')"
  shows "(\<exists>e. r = Inl e \<and> (\<forall>x. holds x d \<longrightarrow> holds x d')) \<or> (r = Inr () \<and> holds c d')"
proof -
  obtain slept where run: "retry_from (unat (max_attempts transient_io_policy)) transient_io_policy
      Idempotent (\<lambda>_. save c) 1 d [] = (r, d', slept)"
    using assms by (auto simp: persist_def run_with_retry_def split: prod.splits)
  have "(\<exists>e. r = Inl e \<and> (\<forall>x. holds x d \<longrightarrow> holds x d')) \<or>
      (\<exists>v (a :: u32) t. r = Inr v \<and> (\<forall>x. holds x d \<longrightarrow> holds x t) \<and> save c t = (Inr v, d'))"
    by (rule retry_from_invariant [OF run, where I = "\<lambda>t. \<forall>x. holds x d \<longrightarrow> holds x t"])
      (meson save_failed)+
  then show ?thesis by (elim disjE exE conjE) (simp_all add: save_ok)
qed

lemma create_durable: "journal_create save c d = (Inr c', d') \<Longrightarrow> c' = c \<and> holds c' d'"
  using persist_cases [of c d]
  by (cases "persist save c d"; cases "fst (persist save c d)") (auto simp: journal_create_def)

lemma update_cases:
  assumes "journal_update save f (c, d) = (r, c', d')"
  shows "(\<exists>e. r = Inl e \<and> c' = c \<and> (\<forall>x. holds x d \<longrightarrow> holds x d')) \<or>
    (\<exists>v. r = Inr v \<and> f c = (Inr v, c') \<and> holds c' d')"
proof (cases "f c")
  case (Pair q n)
  show ?thesis
  proof (cases q)
    case (Inl e)
    with Pair assms show ?thesis by (auto simp: journal_update_def)
  next
    case (Inr v)
    obtain p e where "persist save n d = (p, e)" by fastforce
    with Pair Inr assms persist_cases [of n d p e] show ?thesis
      by (cases p) (auto simp: journal_update_def)
  qed
qed

lemma update_durable:
  "journal_update save f (c, d) = (r, c', d') \<Longrightarrow> holds c d \<Longrightarrow> holds c' d'"
  using update_cases [of f c d r c' d'] by auto

end

definition stored :: "(checkpoint \<Rightarrow> string + bytes) \<Rightarrow> checkpoint \<Rightarrow> disk \<Rightarrow> bool" where
  "stored enc c d \<longleftrightarrow> checkpoint_wf c \<and>
     (case enc c of Inl _ \<Rightarrow> False | Inr data \<Rightarrow> checkpoint_file d = Some (Regular data))"

lemma write_atomic_failed: "write_atomic w data d = (Inl e, d') \<Longrightarrow> checkpoint_file d' = checkpoint_file d"
  by (auto simp: write_atomic_def Let_def split: sum.splits)

lemma write_atomic_ok: "write_atomic w data d = (Inr u, d') \<Longrightarrow> checkpoint_file d' = Some (Regular data)"
  by (auto simp: write_atomic_def Let_def split: sum.splits)

interpretation file_store: durable_store "store_save enc io" "stored enc" for enc io
proof
  fix c d u d'
  assume s: "store_save enc io c d = (Inr u, d')"
  then obtain data where "validate c = Inr ()" "enc c = Inr data"
    by (auto simp: store_save_def res_simps split: sum.splits prod.splits)
  with s show "stored enc c d'"
    by (auto simp: store_save_def stored_def validate_exact map_err_Inr_iff split: prod.splits
        dest: write_atomic_ok)
next
  fix c d e d' x
  assume s: "store_save enc io c d = (Inl e, d')" and x: "stored enc x d"
  have "checkpoint_file d' = checkpoint_file d"
  proof (cases "and_then (validate c) (\<lambda>_. map_err
      (\<lambda>t. op_error_new State None (''serialize checkpoint: '' @ t) False) (enc c))")
    case (Inl e')
    with s show ?thesis by (simp add: store_save_def)
  next
    case (Inr data)
    obtain r t where w: "write_atomic (io (write_attempts d)) data d = (r, t)" by fastforce
    with Inr s show ?thesis
      by (cases r) (auto simp: store_save_def dest: write_atomic_failed)
  qed
  with x show "stored enc x d'" by (auto simp: stored_def split: sum.splits)
qed

subsection \<open>The journal's transitions are checkpoint operations\<close>

lemma cp_ops_trans: "cp_op\<^sup>*\<^sup>* a b \<Longrightarrow> cp_op\<^sup>*\<^sup>* b c \<Longrightarrow> cp_op\<^sup>*\<^sup>* a c"
  by (rule rtranclp_trans)

lemma complete_current_ops: "complete_current now c = (r, c') \<Longrightarrow> cp_op\<^sup>*\<^sup>* c c'"
proof -
  assume "complete_current now c = (r, c')"
  then have "c' = c \<or> (\<exists>cur q. complete_step cur now c = (q, c'))"
    by (auto simp: complete_current_def st_bind_def split: option.splits if_splits sum.splits prod.splits)
  then show ?thesis by (auto intro: cp_op.op_complete)
qed

lemma st_iter_ops:
  assumes "\<And>x c r c'. f x c = (r, c') \<Longrightarrow> cp_op\<^sup>*\<^sup>* c c'"
  shows "st_iter f xs c = (r, c') \<Longrightarrow> cp_op\<^sup>*\<^sup>* c c'"
proof (induction xs arbitrary: c)
  case Nil
  then show ?case by simp
next
  case (Cons x xs)
  obtain q d where q: "f x c = (q, d)" by fastforce
  show ?case
    using Cons q assms [OF q] by (cases q) (auto intro: cp_ops_trans)
qed

lemma skip_pending_ops: "skip_pending now ss c = (r, c') \<Longrightarrow> cp_op\<^sup>*\<^sup>* c c'"
  unfolding skip_pending_def by (rule st_iter_ops) (auto intro: cp_op.op_skip)

lemma observe_update_ops: "observe_update sid now c = (r, c') \<Longrightarrow> cp_op\<^sup>*\<^sup>* c c'"
proof (cases "current_step c = Some sid")
  case True
  then show "observe_update sid now c = (r, c') \<Longrightarrow> ?thesis" by (simp add: observe_update_def)
next
  case False
  assume o: "observe_update sid now c = (r, c')"
  obtain q c1 where q: "complete_current now c = (q, c1)" by fastforce
  note ops = complete_current_ops [OF q]
  show ?thesis
  proof (cases q)
    case (Inl e)
    with o q False ops show ?thesis by (simp add: observe_update_def)
  next
    case (Inr u)
    show ?thesis
    proof (cases "step_index sid c1")
      case (Inl e)
      with o q False ops \<open>q = Inr u\<close> show ?thesis by (simp add: observe_update_def)
    next
      case (Inr i)
      obtain p c2 where p: "skip_pending now (take i (steps c1)) c1 = (p, c2)" by fastforce
      note ops2 = cp_ops_trans [OF ops skip_pending_ops [OF p]]
      show ?thesis
      proof (cases p)
        case (Inl e)
        with o q False ops2 p \<open>q = Inr u\<close> Inr show ?thesis by (simp add: observe_update_def)
      next
        case (Inr v)
        with o q False p \<open>q = Inr u\<close> \<open>step_index sid c1 = Inr i\<close>
        have "begin_step sid now c2 = (r, c')" by (simp add: observe_update_def)
        then show ?thesis using ops2 by (auto intro: cp_op.op_begin rtranclp.rtrancl_into_rtrancl)
      qed
    qed
  qed
qed

lemma fail_update_ops: "fail_update e now c = (r, c') \<Longrightarrow> cp_op\<^sup>*\<^sup>* c c'"
  by (auto simp: fail_update_def intro: cp_op.op_fail cp_op.op_mark_failed split: option.splits)

lemma complete_update_ops: "complete_update now c = (r, c') \<Longrightarrow> cp_op\<^sup>*\<^sup>* c c'"
proof -
  assume o: "complete_update now c = (r, c')"
  obtain q c1 where q: "complete_current now c = (q, c1)" by fastforce
  obtain p c2 where p: "skip_pending now (steps c1) c1 = (p, c2)" by fastforce
  note ops2 = cp_ops_trans [OF complete_current_ops [OF q] skip_pending_ops [OF p]]
  show ?thesis
    using o q p complete_current_ops [OF q] ops2
    by (cases q; cases p)
      (auto simp: complete_update_def intro: cp_op.op_succeed rtranclp.rtrancl_into_rtrancl)
qed

lemma interrupt_update_ops: "interrupt_update now c = (r, c') \<Longrightarrow> cp_op\<^sup>*\<^sup>* c c'"
  by (auto simp: interrupt_update_def intro: cp_op.op_interrupt)

lemmas update_ops = observe_update_ops fail_update_ops complete_update_ops interrupt_update_ops

lemma reachable_ops: "cp_op\<^sup>*\<^sup>* c c' \<Longrightarrow> reachable c \<Longrightarrow> reachable c'"
  by (induction rule: rtranclp_induct) (auto intro: reachable.operated)

subsection \<open>Reachable journals\<close>

inductive journal_call ::
  "(checkpoint \<Rightarrow> 'd \<Rightarrow> (op_error + unit) \<times> 'd) \<Rightarrow> checkpoint \<times> 'd \<Rightarrow> checkpoint \<times> 'd \<Rightarrow> bool"
  for save where
  call_observe: "observe_step save sid now j = (r, j') \<Longrightarrow> journal_call save j j'"
| call_fail: "fail_current save e now j = (r, j') \<Longrightarrow> journal_call save j j'"
| call_complete: "journal_complete save now j = (r, j') \<Longrightarrow> journal_call save j j'"
| call_interrupt: "journal_interrupted save now j = (r, j') \<Longrightarrow> journal_call save j j'"

inductive journal_reachable ::
  "(checkpoint \<Rightarrow> 'd \<Rightarrow> (op_error + unit) \<times> 'd) \<Rightarrow> checkpoint \<times> 'd \<Rightarrow> bool"
  for save where
  jcreated: "reachable c \<Longrightarrow> journal_create save c d = (Inr c', d') \<Longrightarrow> journal_reachable save (c', d')"
| jcalled: "journal_reachable save j \<Longrightarrow> journal_call save j j' \<Longrightarrow> journal_reachable save j'"

lemma journal_call_update:
  assumes "journal_call save j j'"
  obtains (observed) sid now r where "journal_update save (observe_update sid now) j = (r, j')"
  | (failing) e now r where "journal_update save (fail_update e now) j = (r, j')"
  | (completing) now r where "journal_update save (complete_update now) j = (r, j')"
  | (interrupting) now r where "journal_update save (interrupt_update now) j = (r, j')"
  using assms
  by (cases rule: journal_call.cases)
    (auto simp: observe_step_def fail_current_def journal_complete_def journal_interrupted_def)

lemma journal_update_reachable:
  assumes "journal_update save f j = (r, j')" and "reachable (fst j)"
    and "\<And>r c'. f (fst j) = (r, c') \<Longrightarrow> cp_op\<^sup>*\<^sup>* (fst j) c'"
  shows "reachable (fst j')"
  using assms(1,2) reachable_ops [OF assms(3)]
  by (cases j) (auto simp: journal_update_def split: prod.splits sum.splits)

lemma journal_call_reachable:
  assumes "journal_call save j j'" and "reachable (fst j)"
  shows "reachable (fst j')"
  using assms(1)
  by (cases rule: journal_call_update)
    (use assms(2) in \<open>auto elim!: journal_update_reachable dest: update_ops\<close>)

lemma journal_call_stored:
  assumes "journal_call (store_save enc io) j j'" and "stored enc (fst j) (snd j)"
  shows "stored enc (fst j') (snd j')"
  using assms(1)
  by (cases rule: journal_call_update; cases j; cases j')
    (use assms(2) file_store.update_durable in auto)

lemma journal_reachable_invariant:
  assumes "journal_reachable (store_save enc io) j"
  shows "reachable (fst j) \<and> stored enc (fst j) (snd j)"
  using assms
proof (induction rule: journal_reachable.induct)
  case (jcreated c d c' d')
  then have "c' = c" "stored enc c' d'" using file_store.create_durable [OF jcreated(2)] by auto
  with jcreated(1) show ?case by simp
next
  case (jcalled j j')
  then show ?case using journal_call_reachable journal_call_stored by blast
qed

lemma load_stored:
  assumes "stored enc c d" and "io_metadata rio = None" and "io_read rio = None"
    and "\<And>data. enc c = Inr data \<Longrightarrow> dec data = Inr c"
  shows "store_load dec rio d =
    (case enc c of Inr data \<Rightarrow>
       if length data \<le> max_checkpoint_bytes then Inr (Some c)
       else Inl (validation_error (''checkpoint exceeds '' @ show_nat max_checkpoint_bytes @ '' bytes''))
     | Inl _ \<Rightarrow> Inr None)"
  using assms validate_exact [of c]
  by (auto simp: store_load_def stored_def split: sum.splits)

subsection \<open>What observing and completing do to the steps\<close>

lemma skip_step_pending:
  assumes "distinct (map step_id (steps c))" "i < length (steps c)"
    and "step_status (steps c ! i) = StPending"
  shows "skip_step (step_id (steps c ! i)) now c = (Inr (), skipped i now c)"
  using assms position_distinct [of step_id "steps c" i]
  by (simp add: skip_step_def step_index_def skipped_def)

lemma skip_iter:
  assumes "distinct is" "\<forall>i \<in> set is. i < length (steps c) \<and> step_status (steps c ! i) = StPending"
    and "distinct (map step_id (steps c))"
  shows "\<exists>c'. st_iter (\<lambda>p. skip_step p now) (map (\<lambda>i. step_id (steps c ! i)) is) c = (Inr (), c') \<and>
    length (steps c') = length (steps c) \<and> current_step c' = current_step c \<and> op_status c' = op_status c \<and>
    (\<forall>j < length (steps c). steps c' ! j = (if j \<in> set is
       then (steps c ! j)\<lparr>step_status := StSkipped, step_error := None\<rparr> else steps c ! j))"
  using assms
proof (induction "is" arbitrary: c)
  case Nil
  then show ?case by simp
next
  case (Cons i js)
  let ?d = "skipped i now c"
  have nth: "steps ?d ! j = (if j = i then (steps c ! i)\<lparr>step_status := StSkipped, step_error := None\<rparr>
      else steps c ! j)" if "j < length (steps c)" for j
    using that by (simp add: skipped_def nth_list_update)
  have meta: "length (steps ?d) = length (steps c)" "current_step ?d = current_step c"
    "op_status ?d = op_status c"
    by (simp_all add: skipped_def)
  have ids: "map step_id (steps ?d) = map step_id (steps c)"
    by (intro nth_equalityI) (auto simp: nth meta(1))
  have same: "map (\<lambda>i. step_id (steps ?d ! i)) js = map (\<lambda>i. step_id (steps c ! i)) js"
    using Cons.prems by (auto simp: nth)
  have first: "skip_step (step_id (steps c ! i)) now c = (Inr (), ?d)"
    using Cons.prems by (intro skip_step_pending) auto
  have "\<exists>c'. st_iter (\<lambda>p. skip_step p now) (map (\<lambda>i. step_id (steps ?d ! i)) js) ?d = (Inr (), c') \<and>
    length (steps c') = length (steps ?d) \<and> current_step c' = current_step ?d \<and> op_status c' = op_status ?d \<and>
    (\<forall>j < length (steps ?d). steps c' ! j = (if j \<in> set js
       then (steps ?d ! j)\<lparr>step_status := StSkipped, step_error := None\<rparr> else steps ?d ! j))"
    using Cons.prems by (intro Cons.IH) (auto simp: ids meta(1) nth)
  then obtain c' where c': "st_iter (\<lambda>p. skip_step p now) (map (\<lambda>i. step_id (steps ?d ! i)) js) ?d = (Inr (), c')"
    "length (steps c') = length (steps ?d)" "current_step c' = current_step ?d" "op_status c' = op_status ?d"
    "\<And>j. j < length (steps ?d) \<Longrightarrow> steps c' ! j = (if j \<in> set js
       then (steps ?d ! j)\<lparr>step_status := StSkipped, step_error := None\<rparr> else steps ?d ! j)"
    by blast
  show ?case
  proof (intro exI [of _ c'] conjI allI impI)
    show "st_iter (\<lambda>p. skip_step p now) (map (\<lambda>i. step_id (steps c ! i)) (i # js)) c = (Inr (), c')"
      using first c'(1) same by simp
    show "steps c' ! j = (if j \<in> set (i # js)
        then (steps c ! j)\<lparr>step_status := StSkipped, step_error := None\<rparr> else steps c ! j)"
      if "j < length (steps c)" for j
      using c'(5) [of j] nth [of j] that Cons.prems(1) meta(1) by (auto split: if_splits)
  qed (use c' meta in simp_all)
qed

text \<open>The steps after the pending ones among the first \<open>n\<close> have been skipped.\<close>

definition skip_first :: "nat \<Rightarrow> step_checkpoint list \<Rightarrow> step_checkpoint list" where
  "skip_first n ss = map (\<lambda>j. if j < n \<and> is_pending (ss ! j)
     then (ss ! j)\<lparr>step_status := StSkipped, step_error := None\<rparr> else ss ! j) [0..<length ss]"

lemma skip_first_simps [simp]:
  "length (skip_first n ss) = length ss"
  "j < length ss \<Longrightarrow> skip_first n ss ! j = (if j < n \<and> is_pending (ss ! j)
     then (ss ! j)\<lparr>step_status := StSkipped, step_error := None\<rparr> else ss ! j)"
  by (simp_all add: skip_first_def)

lemma filter_take_nth:
  "n \<le> length xs \<Longrightarrow> filter P (take n xs) = map (\<lambda>j. xs ! j) (filter (\<lambda>j. P (xs ! j)) [0..<n])"
  by (induction n) (auto simp: take_Suc_conv_app_nth)

lemma skip_pending_prefix:
  assumes "distinct (map step_id (steps c))" and "n \<le> length (steps c)"
  shows "\<exists>c'. skip_pending now (take n (steps c)) c = (Inr (), c') \<and>
    steps c' = skip_first n (steps c) \<and> current_step c' = current_step c \<and> op_status c' = op_status c"
proof -
  define js where "js = filter (\<lambda>j. is_pending (steps c ! j)) [0..<n]"
  have js: "distinct js" "\<forall>i \<in> set js. i < length (steps c) \<and> step_status (steps c ! i) = StPending"
    "\<And>j. j \<in> set js \<longleftrightarrow> j < n \<and> is_pending (steps c ! j)"
    using assms(2) by (auto simp: js_def is_pending_def)
  have ids: "map step_id (filter is_pending (take n (steps c))) = map (\<lambda>i. step_id (steps c ! i)) js"
    using filter_take_nth [OF assms(2), of is_pending] by (simp add: js_def comp_def)
  from skip_iter [OF js(1,2) assms(1)] obtain c' where
    c': "st_iter (\<lambda>p. skip_step p now) (map (\<lambda>i. step_id (steps c ! i)) js) c = (Inr (), c')"
      "length (steps c') = length (steps c)" "current_step c' = current_step c" "op_status c' = op_status c"
      "\<And>j. j < length (steps c) \<Longrightarrow> steps c' ! j = (if j \<in> set js
         then (steps c ! j)\<lparr>step_status := StSkipped, step_error := None\<rparr> else steps c ! j)"
    by blast
  have "steps c' = skip_first n (steps c)"
    using c'(2,5) js(3) by (intro nth_equalityI) simp_all
  with c' show ?thesis unfolding skip_pending_def ids by blast
qed

text \<open>What becomes of a step that the workflow leaves behind.\<close>

definition leave :: "step_status \<Rightarrow> step_status" where
  "leave st = (if st = StPending then StSkipped else if st = StRunning then StSucceeded else st)"

definition status_at :: "checkpoint \<Rightarrow> nat \<Rightarrow> step_status" where
  "status_at c j = step_status (steps c ! j)"

definition only_running_open :: "checkpoint \<Rightarrow> bool" where
  "only_running_open c \<longleftrightarrow>
     (\<forall>j < length (steps c). open_status (status_at c j) \<longrightarrow> status_at c j = StRunning)"

lemma complete_current_lifecycle:
  assumes "lifecycle c" "checkpoint_wf c" "only_running_open c"
  shows "\<exists>c'. complete_current now c = (Inr (), c') \<and> current_step c' = None \<and>
    op_status c' = op_status c \<and> length (steps c') = length (steps c) \<and>
    (\<forall>j < length (steps c). status_at c' j =
       (if status_at c j = StRunning then StSucceeded else status_at c j) \<and>
       step_id (steps c' ! j) = step_id (steps c ! j))"
proof (cases "current_step c")
  case None
  then have "\<forall>j < length (steps c). \<not> open_status (status_at c j)"
    using lifecycleD(3) [OF assms(1)] by (simp add: status_at_def)
  then have "\<forall>j < length (steps c). status_at c j \<noteq> StRunning"
    using status_facts(7) by metis
  with None show ?thesis by (auto simp: complete_current_def)
next
  case (Some cur)
  then have "cur \<in> step_id ` set (steps c)" using assms(2) by (simp add: checkpoint_wf_def)
  then obtain k where k: "k < length (steps c)" "step_id (steps c ! k) = cur"
    by (auto simp: in_set_conv_nth)
  have "open_status (status_at c k)"
    using lifecycleD(3) [OF assms(1) k(1)] Some k(2) by (simp add: status_at_def)
  then have run: "step_status (steps c ! k) = StRunning"
    using assms(3) k(1) by (auto simp: only_running_open_def status_at_def)
  have idx: "step_index cur c = Inr k" using step_index_nth [OF assms(1) k(1)] k(2) by simp
  have "find_step c cur = Some (steps c ! k)"
    using idx k by (auto simp: find_step_def find_Some_iff step_index_Inr)
  then have comp: "complete_current now c = (Inr (), completed k now c)"
    using Some run idx by (simp add: complete_current_def complete_step_def completed_def)
  have other: "status_at c j \<noteq> StRunning" if "j < length (steps c)" "j \<noteq> k" for j
    using lifecycle_one_open [OF assms(1) that(1) k(1)] run that(2) by (auto simp: status_at_def)
  show ?thesis
    unfolding comp using k run other
    by (auto simp: completed_def status_at_def nth_list_update)
qed

lemma observe_outcome:
  assumes r: "reachable c" and i: "i < length (steps c)" and pending: "status_at c i = StPending"
    and live: "op_status c \<notin> {OpCancelled, OpSucceeded}" and opn: "only_running_open c"
  shows "\<exists>c'. observe_update (step_id (steps c ! i)) now c = (Inr Applied, c') \<and> reachable c' \<and>
    current_step c' = Some (step_id (steps c ! i)) \<and> op_status c' = OpRunning \<and>
    length (steps c') = length (steps c) \<and>
    (\<forall>j < length (steps c). step_id (steps c' ! j) = step_id (steps c ! j) \<and>
       status_at c' j = (if j < i then leave (status_at c j) else if j = i then StRunning else status_at c j))"
proof -
  let ?sid = "step_id (steps c ! i)"
  have lc: "lifecycle c" and wf: "checkpoint_wf c" using reachable_lifecycle [OF r] by auto
  have cur: "current_step c \<noteq> Some ?sid"
    using lifecycleD(3) [OF lc i] pending by (simp add: status_at_def)
  obtain c1 where c1: "complete_current now c = (Inr (), c1)" "current_step c1 = None"
      "op_status c1 = op_status c" "length (steps c1) = length (steps c)"
      "\<And>j. j < length (steps c) \<Longrightarrow> status_at c1 j =
         (if status_at c j = StRunning then StSucceeded else status_at c j)"
      "\<And>j. j < length (steps c) \<Longrightarrow> step_id (steps c1 ! j) = step_id (steps c ! j)"
    using complete_current_lifecycle [OF lc wf opn, of now] by blast
  have r1: "reachable c1" by (rule reachable_ops [OF complete_current_ops [OF c1(1)] r])
  have lc1: "lifecycle c1" using reachable_lifecycle [OF r1] by simp
  have idx: "step_index ?sid c1 = Inr i" using step_index_nth [OF lc1] c1(4,6) i by metis
  obtain c2 where c2: "skip_pending now (take i (steps c1)) c1 = (Inr (), c2)"
      "steps c2 = skip_first i (steps c1)" "op_status c2 = op_status c1"
    using skip_pending_prefix [of c1 i now] lc1 i c1(4) by (auto simp: lifecycle_def)
  have r2: "reachable c2" by (rule reachable_ops [OF skip_pending_ops [OF c2(1)] r1])
  have lc2: "lifecycle c2" using reachable_lifecycle [OF r2] by simp
  have len2: "length (steps c2) = length (steps c)" by (simp add: c2(2) c1(4))
  have id2: "step_id (steps c2 ! j) = step_id (steps c ! j)" if "j < length (steps c)" for j
    using that c1(4,6) by (simp add: c2(2))
  have st2: "status_at c2 j = (if j < i then leave (status_at c j)
      else if status_at c j = StRunning then StSucceeded else status_at c j)" if "j < length (steps c)" for j
    using that c1(4) c1(5) [OF that]
    by (auto simp: c2(2) status_at_def leave_def is_pending_def split: if_splits)
  have after: "status_at c j \<noteq> StRunning" if "i < j" "j < length (steps c)" for j
    using lifecycleD(2) [OF lc that(2), of i] that pending by (auto simp: status_at_def)
  have complete: "is_complete (status_at c2 j)" if "j < i" for j
  proof -
    have "open_status (status_at c j) \<longrightarrow> status_at c j = StRunning"
      using opn that i by (simp add: only_running_open_def)
    then show ?thesis
      using st2 [of j] that i by (cases "status_at c j") (simp_all add: leave_def)
  qed
  have can: "can_begin i c2"
    using complete st2 [OF i] pending live i len2 c1(3) c2(3)
    by (auto simp: can_begin_def all_complete_take status_at_def)
  have i2: "i < length (steps c2)" using i len2 by simp
  let ?c' = "begun i ?sid now c2"
  have beg: "begin_step ?sid now c2 = (Inr Applied, ?c')"
    using step_index_nth [OF lc2 i2] id2 [OF i] can lifecycle_no_other_running [OF lc2 i2 can]
    by (simp add: begin_step_applied)
  have obs: "observe_update ?sid now c = (Inr Applied, ?c')"
    using cur c1(1) idx c2(1) beg by (simp add: observe_update_def)
  have "reachable ?c'" by (rule reachable_ops [OF observe_update_ops [OF obs] r])
  moreover have "op_status ?c' = OpRunning"
    using live c1(3) c2(3) by (auto simp: begun_def start_status)
  moreover have "step_id (steps ?c' ! j) = step_id (steps c ! j) \<and> status_at ?c' j =
      (if j < i then leave (status_at c j) else if j = i then StRunning else status_at c j)"
    if "j < length (steps c)" for j
    using st2 [OF that] id2 [OF that] that i len2 after [of j]
    by (auto simp: begun_def status_at_def nth_list_update split: if_splits)
  ultimately show ?thesis using obs len2 by (auto simp: begun_def)
qed

text \<open>
  Where a workflow stands after observing the steps \<open>vs\<close>, the last of which is \<open>n - 1\<close>.
\<close>

definition stands_at :: "nat list \<Rightarrow> nat \<Rightarrow> checkpoint \<Rightarrow> bool" where
  "stands_at vs n c \<longleftrightarrow>
     (\<forall>j < length (steps c). status_at c j =
        (if Suc j = n then StRunning
         else if j < n then (if j \<in> set vs then StSucceeded else StSkipped) else StPending))"

lemma stands_at_open: "stands_at vs n c \<Longrightarrow> only_running_open c"
  by (auto simp: stands_at_def only_running_open_def split: if_splits)

lemma observe_increasing:
  assumes "reachable c" "op_status c \<notin> {OpCancelled, OpSucceeded}" "stands_at vs n c"
    and "sorted_wrt (<) is" "\<forall>i \<in> set is. n \<le> i \<and> i < length (steps c)"
    and "\<forall>v \<in> set vs. v < n" and "0 < n \<longrightarrow> n - 1 \<in> set vs"
  shows "\<exists>c' m. st_iter (\<lambda>i. observe_update (step_id (steps c ! i)) now) is c = (Inr (), c') \<and>
    reachable c' \<and> op_status c' \<notin> {OpCancelled, OpSucceeded} \<and> length (steps c') = length (steps c) \<and>
    stands_at (vs @ is) m c' \<and> (0 < m \<longrightarrow> m - 1 \<in> set (vs @ is)) \<and> (\<forall>v \<in> set (vs @ is). v < m)"
  using assms
proof (induction "is" arbitrary: c vs n)
  case Nil
  then show ?case by auto
next
  case (Cons i js)
  have i: "n \<le> i" "i < length (steps c)" using Cons.prems(5) by auto
  have pend: "status_at c i = StPending" using Cons.prems(3) i by (auto simp: stands_at_def)
  obtain d where d: "observe_update (step_id (steps c ! i)) now c = (Inr Applied, d)" "reachable d"
    "op_status d = OpRunning" "length (steps d) = length (steps c)"
    "\<And>j. j < length (steps c) \<Longrightarrow> step_id (steps d ! j) = step_id (steps c ! j)"
    "\<And>j. j < length (steps c) \<Longrightarrow> status_at d j =
       (if j < i then leave (status_at c j) else if j = i then StRunning else status_at c j)"
    using observe_outcome [OF Cons.prems(1) i(2) pend Cons.prems(2) stands_at_open [OF Cons.prems(3)], of now]
    by blast
  have stand: "stands_at (vs @ [i]) (Suc i) d"
  proof -
    have "status_at c j = (if Suc j = n then StRunning
        else if j < n then (if j \<in> set vs then StSucceeded else StSkipped) else StPending)"
      if "j < length (steps c)" for j using that Cons.prems(3) by (simp add: stands_at_def)
    moreover have "v < n" if "v \<in> set vs" for v using that Cons.prems(6) by simp
    ultimately show ?thesis
      using i Cons.prems(7) by (auto simp: stands_at_def d(4,6) leave_def)
  qed
  have same: "st_iter (\<lambda>i. observe_update (step_id (steps d ! i)) now) js d =
      st_iter (\<lambda>i. observe_update (step_id (steps c ! i)) now) js d"
  proof -
    have "\<forall>k \<in> set js. k < length (steps c)" using Cons.prems(5) by auto
    then have "st_iter (\<lambda>i. observe_update (step_id (steps d ! i)) now) js e =
        st_iter (\<lambda>i. observe_update (step_id (steps c ! i)) now) js e" for e
      by (induction js arbitrary: e) (simp_all add: d(5) st_bind_def split: prod.split sum.split)
    then show ?thesis by simp
  qed
  have live: "op_status d \<notin> {OpCancelled, OpSucceeded}" using d(3) by simp
  have sorted_js: "sorted_wrt (<) js" using Cons.prems(4) by simp
  have above: "\<forall>k \<in> set js. Suc i \<le> k \<and> k < length (steps d)"
    using Cons.prems(4,5) d(4) by auto
  have below: "\<forall>v \<in> set (vs @ [i]). v < Suc i" using Cons.prems(6) i(1) by fastforce
  have last: "0 < Suc i \<longrightarrow> Suc i - 1 \<in> set (vs @ [i])" by simp
  obtain c' m where "st_iter (\<lambda>i. observe_update (step_id (steps d ! i)) now) js d = (Inr (), c')"
    "reachable c'" "op_status c' \<notin> {OpCancelled, OpSucceeded}" "length (steps c') = length (steps d)"
    "stands_at ((vs @ [i]) @ js) m c'" "0 < m \<longrightarrow> m - 1 \<in> set ((vs @ [i]) @ js)"
    "\<forall>v \<in> set ((vs @ [i]) @ js). v < m"
    using Cons.IH [OF d(2) live stand sorted_js above below last] by blast
  then show ?case using d(1,4) same by auto
qed

lemma complete_outcome:
  assumes r: "reachable c" and opn: "only_running_open c"
  shows "\<exists>c'. complete_update now c = (Inr (), c') \<and> op_status c' = OpSucceeded \<and>
    current_step c' = None \<and> op_last_error c' = None \<and> length (steps c') = length (steps c) \<and>
    (\<forall>j < length (steps c). status_at c' j = leave (status_at c j))"
proof -
  have lc: "lifecycle c" and wf: "checkpoint_wf c" using reachable_lifecycle [OF r] by auto
  obtain c1 where c1: "complete_current now c = (Inr (), c1)" "length (steps c1) = length (steps c)"
      "\<And>j. j < length (steps c) \<Longrightarrow> status_at c1 j =
         (if status_at c j = StRunning then StSucceeded else status_at c j)"
    using complete_current_lifecycle [OF lc wf opn, of now] by blast
  have r1: "reachable c1" by (rule reachable_ops [OF complete_current_ops [OF c1(1)] r])
  have "distinct (map step_id (steps c1))"
    using reachable_lifecycle [OF r1] by (simp add: lifecycle_def)
  then obtain c2 where c2: "skip_pending now (steps c1) c1 = (Inr (), c2)"
      "steps c2 = skip_first (length (steps c1)) (steps c1)"
    using skip_pending_prefix [of c1 "length (steps c1)" now] by auto
  have st2: "status_at c2 j = leave (status_at c j)" if "j < length (steps c)" for j
    using that c1(2) c1(3) [OF that]
    by (auto simp: c2(2) status_at_def leave_def is_pending_def split: if_splits)
  have "all_complete (steps c2)"
    unfolding all_complete_nth
  proof (intro allI impI)
    fix j assume "j < length (steps c2)"
    then have j: "j < length (steps c)" by (simp add: c2(2) c1(2))
    then have "open_status (status_at c j) \<longrightarrow> status_at c j = StRunning"
      using opn by (simp add: only_running_open_def)
    then show "is_complete (step_status (steps c2 ! j))"
      using st2 [OF j] by (cases "status_at c j") (simp_all add: leave_def status_at_def)
  qed
  then have "mark_succeeded now c2 = (Inr (), touch now
      (c2\<lparr>op_status := OpSucceeded, current_step := None, op_last_error := None\<rparr>))"
    by (simp add: mark_succeeded_def not_all_complete)
  then show ?thesis
    using c1(1,2) c2 st2 by (auto simp: complete_update_def status_at_def)
qed

subsection \<open>A concrete disk\<close>

text \<open>A disk on which every call succeeds, except that attempts before \<open>n\<close> time out on the rename.\<close>

definition sample_io :: "nat \<Rightarrow> nat \<Rightarrow> write_io" where
  "sample_io n k = \<lparr>io_create_dir = Inr (), io_create_temp = Inr (), io_open_sync = Inr (),
     io_replace = (if k < n then Inl \<lparr>io_kind = TimedOut, io_text = ''timed out''\<rparr> else Inr ())\<rparr>"

definition sample_disk :: disk where
  "sample_disk = \<lparr>checkpoint_file = None, write_attempts = 0\<rparr>"

definition sample_read :: read_io where
  "sample_read = \<lparr>io_metadata = None, io_read = None\<rparr>"

lemmas store_eval = store_save_def write_atomic_def sample_io_def sample_disk_def Let_def

lemma sample_saved: "store_save (\<lambda>_. Inr ''json'') (sample_io 0) sample_checkpoint sample_disk =
    (Inr (), \<lparr>checkpoint_file = Some (Regular ''json''), write_attempts = 1\<rparr>)"
  using sample_wf by (simp add: store_eval flip: validate_exact)

lemma persist_first:
  "save c d = (Inr (), d') \<Longrightarrow> persist save c d = (Inr (), d')"
  by (simp add: persist_def run_with_retry_def transient_io_policy_def retry_from_numeral)

lemma sample_journal:
  "journal_reachable (store_save (\<lambda>_. Inr ''json'') (sample_io 0))
     (sample_checkpoint, \<lparr>checkpoint_file = Some (Regular ''json''), write_attempts = 1\<rparr>)"
  by (rule journal_reachable.jcreated [OF sample_reachable, where d = sample_disk])
    (simp add: journal_create_def persist_first
      [where save = "store_save (\<lambda>_. Inr ''json'') (sample_io 0)", OF sample_saved])

subsection \<open>Properties of the journal\<close>

text \<open>
  C22. Saving and loading. When the write succeeds and the JSON decoder inverts the encoder on
  this checkpoint, loading returns exactly the saved checkpoint, unless its encoding is longer
  than 1 MiB: \<open>save\<close> accepts such a checkpoint, and \<open>load\<close> then refuses the file.
\<close>

theorem save_then_load:
  assumes "store_save enc io c d = (Inr (), d')"
    and "enc c = Inr data" and "dec data = Inr c"
    and "io_metadata rio = None" and "io_read rio = None"
  shows "store_load dec rio d' =
    (if length data \<le> max_checkpoint_bytes then Inr (Some c)
     else Inl (validation_error (''checkpoint exceeds '' @ show_nat max_checkpoint_bytes @ '' bytes'')))"
  using load_stored [OF file_store.save_ok [OF assms(1)] assms(4,5), of dec] assms(2,3) by simp

theorem save_then_load_witness:
  "store_load (\<lambda>_. Inr sample_checkpoint) sample_read
     (snd (store_save (\<lambda>_. Inr ''json'') (sample_io 0) sample_checkpoint sample_disk)) =
   Inr (Some sample_checkpoint)"
  using save_then_load [OF sample_saved, where rio = sample_read and data = "''json''" and
      dec = "\<lambda>_. Inr sample_checkpoint"]
  by (simp add: sample_saved sample_read_def max_checkpoint_bytes_def)



text \<open>
  \<open>observe_step\<close> is transactional and advances the workflow. If it returns \<open>Err\<close>, the
  live checkpoint is the one before and the file still holds it. If it returns \<open>Ok\<close> for a
  pending step of a live operation whose open step, if any, is running, the step now runs and is
  the current one, the step that was running has succeeded, the pending steps in between are
  skipped, the steps after it are untouched, and the file holds the new state.
\<close>

theorem observe_step_advances:
  assumes "journal_reachable (store_save enc io) (c, d)" and "i < length (steps c)"
    and "status_at c i = StPending" and "op_status c \<notin> {OpCancelled, OpSucceeded}"
    and "only_running_open c"
    and "observe_step (store_save enc io) (step_id (steps c ! i)) now (c, d) = (r, c', d')"
  shows "(\<exists>e. r = Inl e \<and> c' = c \<and> stored enc c d') \<or>
    (r = Inr Applied \<and> stored enc c' d' \<and> op_status c' = OpRunning \<and>
     current_step c' = Some (step_id (steps c ! i)) \<and>
     (\<forall>j < length (steps c). status_at c' j =
        (if j < i then leave (status_at c j) else if j = i then StRunning else status_at c j)))"
proof -
  have inv: "reachable c" "stored enc c d" using journal_reachable_invariant [OF assms(1)] by auto
  obtain n where n: "observe_update (step_id (steps c ! i)) now c = (Inr Applied, n)"
      "current_step n = Some (step_id (steps c ! i))" "op_status n = OpRunning"
      "\<forall>j < length (steps c). status_at n j =
        (if j < i then leave (status_at c j) else if j = i then StRunning else status_at c j)"
    using observe_outcome [OF inv(1) assms(2-5), of now] by blast
  show ?thesis
    using file_store.update_cases [OF assms(6) [unfolded observe_step_def]] inv(2) n by auto
qed

theorem observe_step_advances_witness:
  "\<exists>c' d'. observe_step (store_save (\<lambda>_. Inr ''json'') (sample_io 0)) ''apply'' 20
     (sample_checkpoint, \<lparr>checkpoint_file = Some (Regular ''json''), write_attempts = 1\<rparr>) =
       (Inr Applied, c', d') \<and> status_at c' 0 = StSkipped \<and> status_at c' 1 = StRunning"
proof -
  let ?save = "store_save (\<lambda>_. Inr ''json'') (sample_io 0)"
  let ?d = "\<lparr>checkpoint_file = Some (Regular ''json''), write_attempts = 1\<rparr>"
  have facts: "1 < length (steps sample_checkpoint)" "status_at sample_checkpoint 1 = StPending"
    "op_status sample_checkpoint \<notin> {OpCancelled, OpSucceeded}" "only_running_open sample_checkpoint"
    "step_id (steps sample_checkpoint ! 1) = ''apply''" "status_at sample_checkpoint 0 = StPending"
    by (auto simp: checkpoint_eval status_at_def only_running_open_def numeral_3_eq_3 less_Suc_eq)
  obtain n where n: "observe_update ''apply'' 20 sample_checkpoint = (Inr Applied, n)" "reachable n"
    using observe_outcome [OF sample_reachable facts(1-4), of 20] facts(5) by auto
  have "validate n = Inr ()" using reachable_lifecycle [OF n(2)] by (simp add: validate_exact)
  then have "persist ?save n ?d = (Inr (), ?d\<lparr>write_attempts := 2\<rparr>)"
    by (intro persist_first) (simp add: store_eval)
  then have obs: "observe_step ?save (step_id (steps sample_checkpoint ! 1)) 20 (sample_checkpoint, ?d) =
      (Inr Applied, n, ?d\<lparr>write_attempts := 2\<rparr>)"
    using n(1) facts(5) by (simp add: observe_step_def journal_update_def)
  show ?thesis
    using observe_step_advances [OF sample_journal facts(1-4) obs] obs facts(1,5,6)
    by (auto simp: leave_def dest: spec [of _ 0])
qed




lemma sample_interrupted_reachable:
  "reachable (mark_interrupted 30 (snd (begin_step ''format'' 20 sample_checkpoint)))"
  by (rule reachable.operated [OF sample_begun_reachable cp_op.op_interrupt])


end
