(* ===== verification/HandoffAuth.thy ===== *)
theory HandoffAuth
  imports Text
begin

section \<open>Authentication of the cross-reboot handoff\<close>

text \<open>
  \<open>lr-core/src/handoff_auth.rs\<close>: the normal Windows session binds the configuration it hands
  to the PE session to a secret key, with an HMAC over a framed message; the key travels in a
  private capsule, a public marker carries the tag. SHA-256 is not code of the repository: it is
  the parameter \<open>sha\<close> of the definitions. Random generation (\<open>BCryptGenRandom\<close>) and
  zeroing of memory are not modelled. An \<open>anyhow\<close> error is its outermost message. The
  newtypes \<open>SessionId\<close>, \<open>LocatorToken\<close>, \<open>SessionAuthKey\<close> and
  \<open>SessionAuthTag\<close> are the strings and byte lists they wrap.
\<close>

subsection \<open>Constants, identifiers and hexadecimal\<close>

definition AUTH_MARKER_MAGIC :: string where "AUTH_MARKER_MAGIC = ''LRHA1''"
definition AUTH_MARKER_MAX_BYTES :: nat where "AUTH_MARKER_MAX_BYTES = 4096"
definition AUTH_CAPSULE_MAGIC :: string where "AUTH_CAPSULE_MAGIC = ''LRHC1''"
definition AUTH_CAPSULE_MAX_BYTES :: nat where "AUTH_CAPSULE_MAX_BYTES = 4096"
definition AUTH_CONFIG_MAX_BYTES :: nat where "AUTH_CONFIG_MAX_BYTES = 4194304"

definition or_else :: "'a option \<Rightarrow> 'a option \<Rightarrow> 'a option" where
  "or_else a b = (case a of None \<Rightarrow> b | Some x \<Rightarrow> Some x)"

definition orphan_patterns :: "(string \<times> string) list" where
  "orphan_patterns =
     [(''pe-bcd-journal-'', ''.tmp''), (''pe-payload-'', ''.tmp''), (''handoff-capsule-'', ''.txt''),
      (''handoff-config-'', ''.ini''), (''handoff-manifest-'', ''.txt''), (''handoff-unattend-'', ''.xml''),
      (''handoff-wifi-'', ''.xml''), (''handoff-pe-network-'', ''.ini'')]"

definition orphan_pattern_matches :: "string \<Rightarrow> string \<times> string \<Rightarrow> bool" where
  "orphan_pattern_matches name pat = (case pat of (prefix, suffix) \<Rightarrow>
     (case Option.bind (strip_prefix prefix name) (strip_suffix suffix) of
        None \<Rightarrow> False
      | Some token \<Rightarrow> (case split_once (CHR ''-'') token of
          None \<Rightarrow> False
        | Some (pid, uid) \<Rightarrow>
            pid \<noteq> [] \<and> uid \<noteq> [] \<and> length pid \<le> 10 \<and> length uid \<le> 20 \<and>
            list_all is_digit pid \<and> list_all is_digit uid)))"

definition is_orphaned_private_pe_file_name :: "string \<Rightarrow> bool" where
  "is_orphaned_private_pe_file_name name =
     (let lower = map to_lower name in
      if lower \<in> {''boot.wim'', ''boot.sdi''} then True
      else (case Option.bind (strip_prefix ''boot-'' lower)
               (\<lambda>v. or_else (strip_suffix ''.wim'' v) (strip_suffix ''.sdi'' v)) of
          Some token \<Rightarrow> token \<noteq> [] \<and> length token \<le> 64 \<and>
            list_all (\<lambda>c. is_hexdigit c \<or> c = CHR ''-'') token
        | None \<Rightarrow> list_ex (orphan_pattern_matches lower) orphan_patterns))"

definition validate_session_id :: "string \<Rightarrow> string + string" where
  "validate_session_id v =
     (if length v \<noteq> 32 \<or> \<not> list_all is_lower_hex v then
        Inl ''session identifier must contain exactly 32 lowercase hexadecimal characters''
      else Inr v)"

definition validate_locator_token :: "string \<Rightarrow> string + string" where
  "validate_locator_token v =
     (if length v \<noteq> 64 \<or> \<not> list_all is_lower_hex v then
        Inl ''locator token must contain exactly 64 lowercase hexadecimal characters''
      else Inr v)"

definition encode_lower_hex :: "bytes \<Rightarrow> string" where
  "encode_lower_hex bs = hex_bytes bs"

definition decode_lower_hex :: "nat \<Rightarrow> string \<Rightarrow> string \<Rightarrow> string + bytes" where
  "decode_lower_hex n v field =
     (if length v \<noteq> n * 2 \<or> \<not> list_all is_lower_hex v then
        Inl (field @ '' must contain exactly '' @ show_nat (n * 2) @ '' lowercase hexadecimal characters'')
      else Inr (hex_pairs v))"

subsection \<open>Purposes and keys\<close>

datatype handoff_purpose = Install | Backup | Expand | Maintenance

fun purpose_as_str :: "handoff_purpose \<Rightarrow> string" where
  "purpose_as_str Install = ''install''"
| "purpose_as_str Backup = ''backup''"
| "purpose_as_str Expand = ''expand''"
| "purpose_as_str Maintenance = ''maintenance''"

definition purpose_parse :: "string \<Rightarrow> string + handoff_purpose" where
  "purpose_parse v =
     (if v = ''install'' then Inr Install
      else if v = ''backup'' then Inr Backup
      else if v = ''expand'' then Inr Expand
      else if v = ''maintenance'' then Inr Maintenance
      else Inl ''invalid handoff authentication purpose'')"

fun purpose_discriminator :: "handoff_purpose \<Rightarrow> nat" where
  "purpose_discriminator Install = 1"
| "purpose_discriminator Backup = 2"
| "purpose_discriminator Expand = 3"
| "purpose_discriminator Maintenance = 4"

definition key_from_bytes :: "bytes \<Rightarrow> string + bytes" where
  "key_from_bytes bs =
     (if bs = replicate 32 NUL then Inl ''handoff authentication key must not be all-zero'' else Inr bs)"

definition key_from_slice :: "bytes \<Rightarrow> string + bytes" where
  "key_from_slice bs =
     (if length bs \<noteq> 32 then Inl ''handoff authentication key must contain exactly 32 bytes''
      else key_from_bytes bs)"

definition key_from_secret_hex :: "string \<Rightarrow> string + bytes" where
  "key_from_secret_hex v = and_then (decode_lower_hex 32 v ''authentication key'') key_from_bytes"

definition tag_from_hex :: "string \<Rightarrow> string + bytes" where
  "tag_from_hex v = decode_lower_hex 32 v ''authentication tag''"

subsection \<open>HMAC over the framed message\<close>

definition PROTOCOL_LABEL :: bytes where
  "PROTOCOL_LABEL = ''LetRecovery'' @ [NUL] @ ''cross-reboot-handoff'' @ [NUL] @ ''HMAC-SHA256'' @ [NUL] @ ''v1''"

definition be_bytes :: "nat \<Rightarrow> nat \<Rightarrow> bytes" where
  "be_bytes w n = map (\<lambda>i. char_of (n div 256 ^ (w - 1 - i) mod 256)) [0..<w]"

definition xor_byte :: "nat \<Rightarrow> char \<Rightarrow> char" where
  "xor_byte k c = char_of (xor k (byte c))"

definition hmac_key_block :: "(bytes \<Rightarrow> bytes) \<Rightarrow> bytes \<Rightarrow> bytes" where
  "hmac_key_block sha key =
     (let k = (if 64 < length key then sha key else key) in k @ replicate (64 - length k) NUL)"

definition hmac_sha256 :: "(bytes \<Rightarrow> bytes) \<Rightarrow> bytes \<Rightarrow> bytes \<Rightarrow> bytes" where
  "hmac_sha256 sha key msg =
     (let block = hmac_key_block sha key in
      sha (map (xor_byte 0x5c) block @ sha (map (xor_byte 0x36) block @ msg)))"

definition auth_frame :: "handoff_purpose \<Rightarrow> string \<Rightarrow> bytes \<Rightarrow> bytes" where
  "auth_frame p session config =
     be_bytes 2 (length PROTOCOL_LABEL) @ PROTOCOL_LABEL @
     [char_of (purpose_discriminator p)] @
     be_bytes 2 (length ''session'') @ ''session'' @
     be_bytes 2 (length session) @ session @
     be_bytes 2 (length ''config'') @ ''config'' @
     be_bytes 8 (length config) @ config"

definition authenticate ::
  "(bytes \<Rightarrow> bytes) \<Rightarrow> bytes \<Rightarrow> handoff_purpose \<Rightarrow> string \<Rightarrow> bytes \<Rightarrow> string + bytes" where
  "authenticate sha key p session config =
     and_then (validate_session_id session) (\<lambda>_.
     and_then (ensure (length session < 2 ^ 16) ''session identifier is too long'') (\<lambda>_.
     and_then (ensure (length config < 2 ^ 64) ''configuration is too large'') (\<lambda>_.
     Inr (hmac_sha256 sha key (auth_frame p session config)))))"

definition verify ::
  "(bytes \<Rightarrow> bytes) \<Rightarrow> bytes \<Rightarrow> handoff_purpose \<Rightarrow> string \<Rightarrow> bytes \<Rightarrow> bytes \<Rightarrow> string + unit" where
  "verify sha key p session config supplied =
     and_then (authenticate sha key p session config) (\<lambda>expected.
     ensure (expected = supplied) ''handoff authentication failed'')"

definition verify_hex_tag ::
  "(bytes \<Rightarrow> bytes) \<Rightarrow> bytes \<Rightarrow> handoff_purpose \<Rightarrow> string \<Rightarrow> bytes \<Rightarrow> string \<Rightarrow> string + unit" where
  "verify_hex_tag sha key p session config supplied =
     and_then (tag_from_hex supplied) (verify sha key p session config)"

subsection \<open>The public marker\<close>

record auth_marker =
  mk_purpose :: handoff_purpose
  mk_session :: string
  mk_tag :: bytes

definition marker_new ::
  "(bytes \<Rightarrow> bytes) \<Rightarrow> bytes \<Rightarrow> handoff_purpose \<Rightarrow> string \<Rightarrow> bytes \<Rightarrow> string + auth_marker" where
  "marker_new sha key p session config =
     and_then (authenticate sha key p session config) (\<lambda>tag.
     Inr \<lparr>mk_purpose = p, mk_session = session, mk_tag = tag\<rparr>)"

definition marker_to_text :: "auth_marker \<Rightarrow> string + string" where
  "marker_to_text m =
     and_then (validate_session_id (mk_session m)) (\<lambda>_.
     Inr (crlf_text
       [AUTH_MARKER_MAGIC, ''Purpose='' @ purpose_as_str (mk_purpose m),
        ''SessionId='' @ mk_session m, ''ConfigHmacSha256='' @ encode_lower_hex (mk_tag m)]))"

definition line_at :: "string list \<Rightarrow> nat \<Rightarrow> string option" where
  "line_at ls n = (if n < length ls then Some (ls ! n) else None)"

definition BOM :: string where "BOM = [CHR 0xEF, CHR 0xBB, CHR 0xBF]"

text \<open>The common front of both parsers: size, UTF-8, byte order mark, line endings, lines.\<close>

definition strict_lines :: "nat \<Rightarrow> string \<Rightarrow> bytes \<Rightarrow> string + string list" where
  "strict_lines limit what bs =
     and_then (ensure (length bs \<le> limit) (''handoff authentication '' @ what @ '' exceeds its byte limit'')) (\<lambda>_.
     and_then (ensure (utf8_valid bs) (''handoff authentication '' @ what @ '' is not UTF-8'')) (\<lambda>_.
     and_then (ensure (\<not> starts_with BOM bs) (''handoff authentication '' @ what @ '' must not contain a BOM'')) (\<lambda>_.
     and_then (ensure (CR \<notin> set (crlf_to_lf bs))
       (''handoff authentication '' @ what @ '' has invalid line endings'')) (\<lambda>_.
     Inr (str_lines (crlf_to_lf bs))))))"

definition marker_field :: "string list \<Rightarrow> nat \<Rightarrow> string \<Rightarrow> string + string" where
  "marker_field ls n name =
     ok_or (Option.bind (line_at ls n) (strip_prefix (name @ ''='')))
       (''handoff authentication marker is missing '' @ name)"

definition marker_parse :: "bytes \<Rightarrow> string + auth_marker" where
  "marker_parse bs =
     and_then (strict_lines AUTH_MARKER_MAX_BYTES ''marker'' bs) (\<lambda>ls.
     and_then (ensure (line_at ls 0 = Some AUTH_MARKER_MAGIC)
       ''unsupported or legacy handoff authentication marker'') (\<lambda>_.
     and_then (marker_field ls 1 ''Purpose'') (\<lambda>purpose.
     and_then (marker_field ls 2 ''SessionId'') (\<lambda>session.
     and_then (marker_field ls 3 ''ConfigHmacSha256'') (\<lambda>tag.
     and_then (ensure (line_at ls 4 = None) ''handoff authentication marker has trailing fields'') (\<lambda>_.
     and_then (validate_session_id session) (\<lambda>_.
     and_then (purpose_parse purpose) (\<lambda>p.
     and_then (tag_from_hex tag) (\<lambda>t.
     Inr \<lparr>mk_purpose = p, mk_session = session, mk_tag = t\<rparr>)))))))))"

definition marker_verify ::
  "(bytes \<Rightarrow> bytes) \<Rightarrow> bytes \<Rightarrow> handoff_purpose \<Rightarrow> bytes \<Rightarrow> auth_marker \<Rightarrow> string + unit" where
  "marker_verify sha key expected config m =
     and_then (ensure (mk_purpose m = expected)
       ''handoff authentication operation domain does not match'') (\<lambda>_.
     verify sha key expected (mk_session m) config (mk_tag m))"

subsection \<open>The private capsule\<close>

record auth_capsule =
  cap_purpose :: handoff_purpose
  cap_session :: string
  cap_key :: bytes
  cap_config_length :: u64
  cap_config_sha256 :: bytes
  cap_config_tag :: bytes

definition validate_config_length :: "bytes \<Rightarrow> string + unit" where
  "validate_config_length config =
     ensure (config \<noteq> [] \<and> length config \<le> AUTH_CONFIG_MAX_BYTES)
       ''authenticated configuration length is outside its limit''"

definition capsule_new ::
  "(bytes \<Rightarrow> bytes) \<Rightarrow> bytes \<Rightarrow> handoff_purpose \<Rightarrow> string \<Rightarrow> bytes \<Rightarrow> string + auth_capsule" where
  "capsule_new sha key p session config =
     and_then (validate_config_length config) (\<lambda>_.
     and_then (authenticate sha key p session config) (\<lambda>tag.
     Inr \<lparr>cap_purpose = p, cap_session = session, cap_key = key,
          cap_config_length = of_nat (length config), cap_config_sha256 = sha config,
          cap_config_tag = tag\<rparr>))"

definition capsule_to_text :: "auth_capsule \<Rightarrow> string + string" where
  "capsule_to_text c =
     and_then (validate_session_id (cap_session c)) (\<lambda>_.
     and_then (ensure (\<not> (cap_config_length c = 0 \<or> AUTH_CONFIG_MAX_BYTES < unat (cap_config_length c)))
       ''authentication capsule has invalid configuration length'') (\<lambda>_.
     Inr (crlf_text
       [AUTH_CAPSULE_MAGIC, ''Purpose='' @ purpose_as_str (cap_purpose c),
        ''SessionId='' @ cap_session c, ''AuthKey='' @ encode_lower_hex (cap_key c),
        ''ConfigLength='' @ show_nat (unat (cap_config_length c)),
        ''ConfigSha256='' @ encode_lower_hex (cap_config_sha256 c),
        ''ConfigHmacSha256='' @ encode_lower_hex (cap_config_tag c)])))"

definition exact_field :: "string option \<Rightarrow> string \<Rightarrow> string + string" where
  "exact_field line name =
     ok_or (Option.bind line (strip_prefix (name @ ''='')))
       (''handoff authentication capsule is missing '' @ name)"

definition parse_config_length :: "string \<Rightarrow> string + nat" where
  "parse_config_length s =
     and_then (ensure (\<not> (s = [] \<or> (1 < length s \<and> hd s = CHR ''0'') \<or> \<not> list_all is_digit s))
       ''authentication capsule has non-canonical ConfigLength'') (\<lambda>_.
     and_then (ok_or (parse_uint (2 ^ 64) s) ''authentication capsule ConfigLength is invalid'') (\<lambda>n.
     and_then (ensure (\<not> (n = 0 \<or> AUTH_CONFIG_MAX_BYTES < n))
       ''authentication capsule ConfigLength is outside its limit'') (\<lambda>_.
     Inr n)))"

definition capsule_parse :: "bytes \<Rightarrow> string + auth_capsule" where
  "capsule_parse bs =
     and_then (strict_lines AUTH_CAPSULE_MAX_BYTES ''capsule'' bs) (\<lambda>ls.
     and_then (ensure (line_at ls 0 = Some AUTH_CAPSULE_MAGIC)
       ''unsupported or legacy handoff authentication capsule'') (\<lambda>_.
     and_then (exact_field (line_at ls 1) ''Purpose'') (\<lambda>purpose.
     and_then (exact_field (line_at ls 2) ''SessionId'') (\<lambda>session.
     and_then (exact_field (line_at ls 3) ''AuthKey'') (\<lambda>key.
     and_then (exact_field (line_at ls 4) ''ConfigLength'') (\<lambda>config_length.
     and_then (exact_field (line_at ls 5) ''ConfigSha256'') (\<lambda>config_sha256.
     and_then (exact_field (line_at ls 6) ''ConfigHmacSha256'') (\<lambda>config_tag.
     and_then (ensure (line_at ls 7 = None) ''handoff authentication capsule has trailing fields'') (\<lambda>_.
     and_then (validate_session_id session) (\<lambda>_.
     and_then (parse_config_length config_length) (\<lambda>n.
     and_then (purpose_parse purpose) (\<lambda>p.
     and_then (key_from_secret_hex key) (\<lambda>k.
     and_then (decode_lower_hex 32 config_sha256 ''configuration SHA-256'') (\<lambda>h.
     and_then (tag_from_hex config_tag) (\<lambda>t.
     Inr \<lparr>cap_purpose = p, cap_session = session, cap_key = k, cap_config_length = of_nat n,
          cap_config_sha256 = h, cap_config_tag = t\<rparr>)))))))))))))))"

definition capsule_verify_config ::
  "(bytes \<Rightarrow> bytes) \<Rightarrow> handoff_purpose \<Rightarrow> bytes \<Rightarrow> auth_capsule \<Rightarrow> string + unit" where
  "capsule_verify_config sha expected config c =
     and_then (validate_config_length config) (\<lambda>_.
     and_then (ensure (cap_purpose c = expected)
       ''authentication capsule operation domain does not match'') (\<lambda>_.
     and_then (ensure (cap_config_length c = of_nat (length config))
       ''authentication capsule configuration length does not match'') (\<lambda>_.
     and_then (ensure (sha config = cap_config_sha256 c)
       ''authentication capsule configuration SHA-256 does not match'') (\<lambda>_.
     verify sha (cap_key c) expected (cap_session c) config (cap_config_tag c)))))"

definition capsule_verify_public_marker ::
  "(bytes \<Rightarrow> bytes) \<Rightarrow> auth_marker \<Rightarrow> bytes \<Rightarrow> auth_capsule \<Rightarrow> string + unit" where
  "capsule_verify_public_marker sha m config c =
     and_then (capsule_verify_config sha (cap_purpose c) config c) (\<lambda>_.
     and_then (ensure (mk_session m = cap_session c)
       ''public handoff marker session does not match authentication capsule'') (\<lambda>_.
     marker_verify sha (cap_key c) (cap_purpose c) config m))"

subsection \<open>The frame determines what it authenticates\<close>

lemma length_be_bytes [simp]: "length (be_bytes w n) = w"
  by (simp add: be_bytes_def)

lemma purpose_discriminator_inj: "purpose_discriminator p = purpose_discriminator q \<longleftrightarrow> p = q"
  by (cases p; cases q) simp_all

lemma discriminator_byte [simp]:
  "purpose_discriminator p mod 256 = purpose_discriminator q mod 256 \<longleftrightarrow> p = q"
  by (cases p; cases q) simp_all

lemma auth_frame_inj:
  assumes "auth_frame p s c = auth_frame p' s' c'" and "length s = length s'"
  shows "p = p' \<and> s = s' \<and> c = c'"
  using assms by (auto simp: auth_frame_def)

definition sha_collision :: "(bytes \<Rightarrow> bytes) \<Rightarrow> bool" where
  "sha_collision sha \<longleftrightarrow> (\<exists>x y. x \<noteq> y \<and> sha x = sha y)"

lemma hmac_inj_or_collision:
  assumes "hmac_sha256 sha k m = hmac_sha256 sha k m'"
  shows "m = m' \<or> sha_collision sha"
proof (rule ccontr)
  assume "\<not> (m = m' \<or> sha_collision sha)"
  then have "m \<noteq> m'" and inj: "\<And>x y. sha x = sha y \<Longrightarrow> x = y" by (auto simp: sha_collision_def)
  let ?b = "hmac_key_block sha k"
  have "map (xor_byte 0x5c) ?b @ sha (map (xor_byte 0x36) ?b @ m) =
      map (xor_byte 0x5c) ?b @ sha (map (xor_byte 0x36) ?b @ m')"
    by (rule inj) (use assms in \<open>simp add: hmac_sha256_def Let_def\<close>)
  then have "sha (map (xor_byte 0x36) ?b @ m) = sha (map (xor_byte 0x36) ?b @ m')" by simp
  then have "map (xor_byte 0x36) ?b @ m = map (xor_byte 0x36) ?b @ m'" by (rule inj)
  with \<open>m \<noteq> m'\<close> show False by simp
qed

lemma authenticate_Inr:
  "authenticate sha k p s c = Inr tag \<longleftrightarrow>
     length s = 32 \<and> list_all is_lower_hex s \<and> length c < 2 ^ 64 \<and>
     tag = hmac_sha256 sha k (auth_frame p s c)"
  by (auto simp: authenticate_def validate_session_id_def res_simps)

subsection \<open>Round trips\<close>

text \<open>
  Several encodings of this program are pairs of a printer and a parser that accepts every
  printed value. \<open>text_codec\<close> is that contract; the facts below are used by the round trips of
  the marker, the capsule and the manifest.
\<close>

locale text_codec =
  fixes print :: "'a \<Rightarrow> string" and parse :: "string \<Rightarrow> 'e + 'a" and wf :: "'a \<Rightarrow> bool"
  assumes parse_print: "wf a \<Longrightarrow> parse (print a) = Inr a"
    and print_clean: "wf a \<Longrightarrow> list_all printable (print a)"
begin

lemma print_inj: "wf a \<Longrightarrow> wf b \<Longrightarrow> print a = print b \<Longrightarrow> a = b"
  using parse_print by (metis sum.inject(2))

lemma print_trim: "wf a \<Longrightarrow> trim (print a) = print a"
  by (rule trim_printable) (rule print_clean)

lemma print_line: "wf a \<Longrightarrow> plain_line (print a)"
  by (rule printable_line) (rule print_clean)

end

interpretation purpose_codec: text_codec purpose_as_str purpose_parse "\<lambda>_. True"
proof
  fix p
  show "purpose_parse (purpose_as_str p) = Inr p" by (cases p) (simp_all add: purpose_parse_def)
  show "list_all printable (purpose_as_str p)" by (cases p) (simp_all add: printable_def)
qed

lemma decode_encode_hex [simp]:
  "length bs = n \<Longrightarrow> decode_lower_hex n (encode_lower_hex bs) field = Inr bs"
  by (simp add: decode_lower_hex_def encode_lower_hex_def hex_bytes_lower)

interpretation hex_codec: text_codec encode_lower_hex "\<lambda>s. decode_lower_hex n s field" "\<lambda>bs. length bs = n"
  for n field
  by unfold_locales (simp_all add: encode_lower_hex_def decode_lower_hex_def hex_bytes_lower)

definition key_ok :: "bytes \<Rightarrow> bool" where
  "key_ok k \<longleftrightarrow> length k = 32 \<and> k \<noteq> replicate 32 NUL"

interpretation key_codec: text_codec encode_lower_hex key_from_secret_hex key_ok
  by unfold_locales (simp_all add: key_ok_def key_from_secret_hex_def key_from_bytes_def encode_lower_hex_def
      decode_lower_hex_def hex_bytes_lower)

interpretation length_codec: text_codec show_nat parse_config_length
  "\<lambda>n. 0 < n \<and> n \<le> AUTH_CONFIG_MAX_BYTES"
  by unfold_locales
    (use show_nat_digits show_nat_zero_prefix in \<open>auto simp: parse_config_length_def AUTH_CONFIG_MAX_BYTES_def\<close>)

lemma strict_lines_text:
  assumes "list_all (list_all printable) ls" and "length (crlf_text ls) \<le> limit"
    and "ls \<noteq> []" "hd ls \<noteq> []" "hd (hd ls) = CHR ''L''"
  shows "strict_lines limit what (crlf_text ls) = Inr ls"
proof -
  have plain: "list_all plain_line ls" using assms(1) by (auto simp: list_all_iff intro!: printable_line)
  obtain l c rest where "ls = (CHR ''L'' # l) # rest"
    using assms(3-5) by (metis list.collapse)
  then have "\<not> starts_with BOM (crlf_text ls)" by (simp add: starts_with_def BOM_def)
  then show ?thesis
    using assms(2) plain utf8_valid_crlf_text [OF assms(1)]
    by (simp add: strict_lines_def crlf_text_no_cr str_lines_text)
qed

definition marker_wf :: "auth_marker \<Rightarrow> bool" where
  "marker_wf m \<longleftrightarrow> length (mk_session m) = 32 \<and> list_all is_lower_hex (mk_session m) \<and> length (mk_tag m) = 32"

definition capsule_wf :: "auth_capsule \<Rightarrow> bool" where
  "capsule_wf c \<longleftrightarrow> length (cap_session c) = 32 \<and> list_all is_lower_hex (cap_session c) \<and>
     key_ok (cap_key c) \<and> 0 < unat (cap_config_length c) \<and>
     unat (cap_config_length c) \<le> AUTH_CONFIG_MAX_BYTES \<and>
     length (cap_config_sha256 c) = 32 \<and> length (cap_config_tag c) = 32"

lemma purpose_length: "length (purpose_as_str p) \<le> 11"
  by (cases p) simp_all

lemma marker_roundtrip:
  assumes "marker_wf m"
  shows "\<exists>t. marker_to_text m = Inr t \<and> marker_parse t = Inr m"
proof -
  let ?ls = "[AUTH_MARKER_MAGIC, ''Purpose='' @ purpose_as_str (mk_purpose m),
    ''SessionId='' @ mk_session m, ''ConfigHmacSha256='' @ encode_lower_hex (mk_tag m)]"
  have "list_all (list_all printable) ?ls"
    using assms purpose_codec.print_clean [of "mk_purpose m"] hex_codec.print_clean [of "mk_tag m" 32]
    by (auto simp: marker_wf_def AUTH_MARKER_MAGIC_def printable_def intro!: lower_hex_printable_list)
  moreover have "length (crlf_text ?ls) \<le> AUTH_MARKER_MAX_BYTES"
    using assms purpose_length [of "mk_purpose m"]
    by (simp add: marker_wf_def AUTH_MARKER_MAGIC_def AUTH_MARKER_MAX_BYTES_def encode_lower_hex_def)
  ultimately have lines: "strict_lines AUTH_MARKER_MAX_BYTES what (crlf_text ?ls) = Inr ?ls" for what
    by (rule strict_lines_text) (simp_all add: AUTH_MARKER_MAGIC_def)
  have "marker_parse (crlf_text ?ls) = Inr m"
    using assms purpose_codec.parse_print [of "mk_purpose m"]
    unfolding marker_parse_def lines
    by (simp add: marker_field_def line_at_def marker_wf_def validate_session_id_def tag_from_hex_def)
  moreover have "marker_to_text m = Inr (crlf_text ?ls)"
    using assms by (simp add: marker_to_text_def marker_wf_def validate_session_id_def)
  ultimately show ?thesis by blast
qed

lemma capsule_roundtrip:
  assumes "capsule_wf c"
  shows "\<exists>t. capsule_to_text c = Inr t \<and> capsule_parse t = Inr c"
proof -
  let ?n = "unat (cap_config_length c)"
  let ?ls = "[AUTH_CAPSULE_MAGIC, ''Purpose='' @ purpose_as_str (cap_purpose c),
    ''SessionId='' @ cap_session c, ''AuthKey='' @ encode_lower_hex (cap_key c),
    ''ConfigLength='' @ show_nat ?n,
    ''ConfigSha256='' @ encode_lower_hex (cap_config_sha256 c),
    ''ConfigHmacSha256='' @ encode_lower_hex (cap_config_tag c)]"
  have "list_all (list_all printable) ?ls"
    using assms purpose_codec.print_clean [of "cap_purpose c"]
    by (auto simp: capsule_wf_def AUTH_CAPSULE_MAGIC_def printable_def encode_lower_hex_def
        intro!: lower_hex_printable_list)
  moreover have "length (crlf_text ?ls) \<le> AUTH_CAPSULE_MAX_BYTES"
  proof -
    have "?n < 10 ^ 7" using assms by (simp add: capsule_wf_def AUTH_CONFIG_MAX_BYTES_def)
    then have "length (show_nat ?n) \<le> 7" by (rule length_show_nat [rotated]) simp
    then show ?thesis
      using assms purpose_length [of "cap_purpose c"]
      by (simp add: capsule_wf_def key_ok_def AUTH_CAPSULE_MAGIC_def AUTH_CAPSULE_MAX_BYTES_def encode_lower_hex_def)
  qed
  ultimately have lines: "strict_lines AUTH_CAPSULE_MAX_BYTES what (crlf_text ?ls) = Inr ?ls" for what
    by (rule strict_lines_text) (simp_all add: AUTH_CAPSULE_MAGIC_def)
  have "capsule_parse (crlf_text ?ls) = Inr c"
    using assms purpose_codec.parse_print [of "cap_purpose c"] key_codec.parse_print [of "cap_key c"]
      length_codec.parse_print [of ?n]
    unfolding capsule_parse_def lines
    by (simp add: exact_field_def line_at_def capsule_wf_def validate_session_id_def tag_from_hex_def)
  moreover have "capsule_to_text c = Inr (crlf_text ?ls)"
    using assms by (auto simp: capsule_to_text_def capsule_wf_def validate_session_id_def unat_gt_0)
  ultimately show ?thesis by blast
qed

subsection \<open>What the parsers accept\<close>

lemma decode_lower_hex_Inr:
  "decode_lower_hex n v field = Inr bs \<longleftrightarrow>
     length v = n * 2 \<and> list_all is_lower_hex v \<and> bs = hex_pairs v"
  by (auto simp: decode_lower_hex_def)

lemma decode_length: "decode_lower_hex n v field = Inr bs \<Longrightarrow> length bs = n"
  by (auto simp: decode_lower_hex_Inr length_hex_pairs)

lemma parse_config_length_Inr:
  "parse_config_length s = Inr n \<Longrightarrow> 0 < n \<and> n \<le> AUTH_CONFIG_MAX_BYTES"
  by (auto simp: parse_config_length_def res_simps)

lemma key_from_secret_hex_Inr: "key_from_secret_hex v = Inr k \<Longrightarrow> key_ok k"
  by (auto simp: key_from_secret_hex_def key_from_bytes_def key_ok_def res_simps dest: decode_length
      split: if_splits)

lemma capsule_parse_wf: "capsule_parse bs = Inr c \<Longrightarrow> capsule_wf c"
proof -
  assume "capsule_parse bs = Inr c"
  then obtain session n k h t config_length key config_sha256 config_tag p where
    "validate_session_id session = Inr session" "parse_config_length config_length = Inr n"
    "key_from_secret_hex key = Inr k" "decode_lower_hex 32 config_sha256 ''configuration SHA-256'' = Inr h"
    "tag_from_hex config_tag = Inr t"
    and c: "c = \<lparr>cap_purpose = p, cap_session = session, cap_key = k, cap_config_length = of_nat n,
      cap_config_sha256 = h, cap_config_tag = t\<rparr>"
    by (auto simp: capsule_parse_def res_simps validate_session_id_def split: if_splits)
  moreover have "unat (of_nat n :: u64) = n"
    using parse_config_length_Inr [OF calculation(2)]
    by (intro unat_of_nat_word) (simp add: AUTH_CONFIG_MAX_BYTES_def)
  ultimately show ?thesis
    using parse_config_length_Inr [of config_length n]
    by (auto simp: capsule_wf_def validate_session_id_def tag_from_hex_def
        dest: decode_length key_from_secret_hex_Inr split: if_splits)
qed

lemma authenticate_length:
  "(\<And>bs. length (sha bs) = 32) \<Longrightarrow> authenticate sha k p s c = Inr tag \<Longrightarrow> length tag = 32"
  by (simp add: authenticate_Inr hmac_sha256_def Let_def)

lemma capsule_new_wf:
  assumes "capsule_new sha k p s c = Inr cap" and "\<And>bs. length (sha bs) = 32" and "key_ok k"
  shows "capsule_wf cap"
proof -
  obtain tag where a: "authenticate sha k p s c = Inr tag" "c \<noteq> []" "length c \<le> AUTH_CONFIG_MAX_BYTES"
    and cap: "cap = \<lparr>cap_purpose = p, cap_session = s, cap_key = k, cap_config_length = of_nat (length c),
      cap_config_sha256 = sha c, cap_config_tag = tag\<rparr>"
    using assms(1) by (auto simp: capsule_new_def validate_config_length_def res_simps)
  have "unat (of_nat (length c) :: u64) = length c"
    using a(3) by (intro unat_of_nat_word) (simp add: AUTH_CONFIG_MAX_BYTES_def)
  then show ?thesis
    using a assms(2,3) authenticate_length [OF assms(2) a(1)]
    by (simp add: cap capsule_wf_def authenticate_Inr)
qed

lemma verify_Inr:
  "verify sha k p s c tag = Inr u \<longleftrightarrow> authenticate sha k p s c = Inr tag"
  by (cases "authenticate sha k p s c") (auto simp: verify_def res_simps)

lemma authenticate_inj:
  assumes "authenticate sha k p s c = Inr tag" and "authenticate sha k p' s' c' = Inr tag"
  shows "(p' = p \<and> s' = s \<and> c' = c) \<or> sha_collision sha"
  using assms hmac_inj_or_collision [of sha k "auth_frame p s c" "auth_frame p' s' c'"]
    auth_frame_inj [of p s c p' s' c']
  by (auto simp: authenticate_Inr)

subsection \<open>A concrete session\<close>

text \<open>
  A stand-in for SHA-256 with a 32-byte result; it is only used to show that hypotheses can hold.
\<close>

definition sample_sha :: "bytes \<Rightarrow> bytes" where
  "sample_sha bs = take 32 (rev bs @ replicate 32 NUL)"

definition sample_session :: string where
  "sample_session = ''00112233445566778899aabbccddeeff''"

definition sample_key :: bytes where
  "sample_key = replicate 32 (CHR 0x42)"

lemma sample_sha_length: "length (sample_sha bs) = 32"
  by (simp add: sample_sha_def)

lemma sample_key_ok: "key_ok sample_key"
  by (simp add: key_ok_def sample_key_def numeral_eq_Suc)

lemma sample_authenticate:
  "authenticate sha sample_key Install sample_session ''mode=install'' =
     Inr (hmac_sha256 sha sample_key (auth_frame Install sample_session ''mode=install''))"
  by (simp add: authenticate_Inr sample_session_def is_lower_hex_def is_digit_def)

subsection \<open>Properties of the authentication\<close>



text \<open>
  C18. The private capsule carries an authorization across the reboot. For a hash with 32-byte
  digests and a legal key, a capsule created for a configuration has a text, the parser reads that
  text back as the same capsule, the configuration verifies against it under the authorized purpose,
  and nothing else does unless the hash has a collision.
\<close>

theorem capsule_carries_authorization:
  assumes "\<And>bs. length (sha bs) = 32" and "key_ok k" and "capsule_new sha k p s c = Inr cap"
  shows "(\<exists>t. capsule_to_text cap = Inr t \<and> capsule_parse t = Inr cap) \<and>
    capsule_verify_config sha p c cap = Inr () \<and>
    (\<forall>p' c'. capsule_verify_config sha p' c' cap = Inr () \<longrightarrow> (p' = p \<and> c' = c) \<or> sha_collision sha)"
proof -
  obtain tag where a: "authenticate sha k p s c = Inr tag" "validate_config_length c = Inr ()"
    and cap: "cap = \<lparr>cap_purpose = p, cap_session = s, cap_key = k, cap_config_length = of_nat (length c),
      cap_config_sha256 = sha c, cap_config_tag = tag\<rparr>"
    using assms(3) by (auto simp: capsule_new_def res_simps)
  have "capsule_verify_config sha p c cap = Inr ()"
    using a by (simp add: capsule_verify_config_def cap verify_Inr)
  moreover have "(p' = p \<and> c' = c) \<or> sha_collision sha" if "capsule_verify_config sha p' c' cap = Inr ()" for p' c'
    using that authenticate_inj [OF a(1), of p' s c']
    by (auto simp: capsule_verify_config_def cap res_simps verify_Inr)
  ultimately show ?thesis using capsule_roundtrip [OF capsule_new_wf [OF assms(3,1,2)]] by blast
qed

lemma sample_capsule:
  "capsule_new sample_sha sample_key Install sample_session ''mode=install'' =
     Inr \<lparr>cap_purpose = Install, cap_session = sample_session, cap_key = sample_key,
       cap_config_length = 12, cap_config_sha256 = sample_sha ''mode=install'',
       cap_config_tag = hmac_sha256 sample_sha sample_key (auth_frame Install sample_session ''mode=install'')\<rparr>"
  by (simp add: capsule_new_def validate_config_length_def sample_authenticate AUTH_CONFIG_MAX_BYTES_def)

theorem capsule_carries_authorization_witness:
  "\<exists>cap t. capsule_new sample_sha sample_key Install sample_session ''mode=install'' = Inr cap \<and>
     capsule_to_text cap = Inr t \<and> capsule_parse t = Inr cap"
  using capsule_carries_authorization [OF sample_sha_length sample_key_ok sample_capsule] sample_capsule by blast

text \<open>The public marker locates the session without weakening it. A marker published for the
  configuration of a capsule is read back from its text and accepted by the capsule; any marker the
  capsule accepts, for any configuration, is that marker for that configuration, unless the hash has
  a collision.
\<close>

theorem public_marker_accepted_exactly:
  assumes "\<And>bs. length (sha bs) = 32" and "capsule_new sha k p s c = Inr cap"
    and "marker_new sha k p s c = Inr m"
  shows "(\<exists>t. marker_to_text m = Inr t \<and> marker_parse t = Inr m) \<and>
    capsule_verify_public_marker sha m c cap = Inr () \<and>
    (\<forall>m' c'. capsule_verify_public_marker sha m' c' cap = Inr () \<longrightarrow> (m' = m \<and> c' = c) \<or> sha_collision sha)"
proof -
  obtain tag where a: "authenticate sha k p s c = Inr tag" "validate_config_length c = Inr ()"
    and cap: "cap = \<lparr>cap_purpose = p, cap_session = s, cap_key = k, cap_config_length = of_nat (length c),
      cap_config_sha256 = sha c, cap_config_tag = tag\<rparr>"
    using assms(2) by (auto simp: capsule_new_def res_simps)
  have m: "m = \<lparr>mk_purpose = p, mk_session = s, mk_tag = tag\<rparr>"
    using assms(3) a(1) by (simp add: marker_new_def)
  have "marker_wf m"
    using a(1) authenticate_length [OF assms(1) a(1)] by (simp add: m marker_wf_def authenticate_Inr)
  moreover have "verify sha k p s c tag = Inr ()" using a(1) by (simp add: verify_Inr)
  then have "capsule_verify_public_marker sha m c cap = Inr ()"
    using a by (simp add: capsule_verify_public_marker_def capsule_verify_config_def marker_verify_def m cap)
  moreover have "(m' = m \<and> c' = c) \<or> sha_collision sha"
    if "capsule_verify_public_marker sha m' c' cap = Inr ()" for m' c'
  proof -
    have v: "mk_purpose m' = p" "mk_session m' = s" "authenticate sha k p s c' = Inr (mk_tag m')"
      "authenticate sha k p s c' = Inr tag"
      using that by (auto simp: capsule_verify_public_marker_def capsule_verify_config_def marker_verify_def
          cap res_simps verify_Inr)
    then have "m' = m" by (simp add: m)
    with authenticate_inj [OF a(1) v(4)] show ?thesis by blast
  qed
  ultimately show ?thesis using marker_roundtrip by blast
qed

theorem public_marker_accepted_exactly_witness:
  "\<exists>cap m t. capsule_new sample_sha sample_key Install sample_session ''mode=install'' = Inr cap \<and>
     marker_to_text m = Inr t \<and> marker_parse t = Inr m \<and>
     capsule_verify_public_marker sample_sha m ''mode=install'' cap = Inr ()"
proof -
  have "marker_new sample_sha sample_key Install sample_session ''mode=install'' =
    Inr \<lparr>mk_purpose = Install, mk_session = sample_session,
      mk_tag = hmac_sha256 sample_sha sample_key (auth_frame Install sample_session ''mode=install'')\<rparr>"
    by (simp add: marker_new_def sample_authenticate)
  from public_marker_accepted_exactly [OF sample_sha_length sample_capsule this] show ?thesis
    using sample_capsule by blast
qed

end
