(* ===== verification/DiskIdentity.thy ===== *)
theory DiskIdentity
  imports HandoffAuth "HOL-Library.Multiset" "HOL-Library.Product_Lexorder" "HOL-Library.List_Lexorder"
begin

section \<open>Recognising the target disk after the reboot\<close>

text \<open>
  The layout snapshot of \<open>lr-core/src/windows_storage.rs\<close> and its digest, and the canonical
  installation target of \<open>lr-core/src/install_handoff.rs\<close> that is captured before the reboot and
  matched against the disks WinPE sees. SHA-256 is the parameter \<open>sha\<close>. Reading a snapshot from
  the storage stack is Windows I/O and not modelled; a snapshot is a value.
\<close>

subsection \<open>Snapshots\<close>

datatype disk_identity = RawDisk | GptDisk bytes | MbrDisk u32

datatype partition_token = GptToken bytes bytes u64 | MbrToken char bool

datatype partition_snapshot =
  PartitionSnapshot (ps_offset: u64) (ps_size: u64) (ps_token: partition_token)

record disk_snapshot =
  ds_size :: u64
  ds_estimated :: bool
  ds_disk :: disk_identity
  ds_device_id :: "bytes option"
  ds_partitions :: "partition_snapshot list"

text \<open>The derived order of a partition: offset, size, then the token, by variant and fields.\<close>

type_synonym partition_key = "nat \<times> nat \<times> nat \<times> nat list \<times> nat list \<times> nat"

fun partition_key :: "partition_snapshot \<Rightarrow> partition_key" where
  "partition_key (PartitionSnapshot off len (GptToken ptype pid attrs)) =
     (unat off, unat len, 0, map byte ptype, map byte pid, unat attrs)"
| "partition_key (PartitionSnapshot off len (MbrToken ptype boot)) =
     (unat off, unat len, 1, [byte ptype], [of_bool boot], 0)"

lemma partition_key_inj: "partition_key p = partition_key q \<Longrightarrow> p = q"
proof -
  have bytes: "map byte xs = map byte ys \<Longrightarrow> xs = ys" for xs ys :: bytes
    by (metis inj_map_eq_map inj_of_char)
  show "partition_key p = partition_key q \<Longrightarrow> p = q"
    by (cases p rule: partition_key.cases; cases q rule: partition_key.cases)
      (auto simp: word_unat_eq_iff of_bool_def dest: bytes split: if_splits)
qed

instantiation partition_snapshot :: linorder
begin

definition less_eq_partition_snapshot :: "partition_snapshot \<Rightarrow> partition_snapshot \<Rightarrow> bool" where
  "less_eq_partition_snapshot p q \<longleftrightarrow> partition_key p \<le> partition_key q"

definition less_partition_snapshot :: "partition_snapshot \<Rightarrow> partition_snapshot \<Rightarrow> bool" where
  "less_partition_snapshot p q \<longleftrightarrow> partition_key p < partition_key q"

instance
  by standard (auto simp: less_eq_partition_snapshot_def less_partition_snapshot_def
      dest: partition_key_inj)

end

subsection \<open>The digest\<close>

fun le_bytes :: "nat \<Rightarrow> nat \<Rightarrow> bytes" where
  "le_bytes 0 n = []"
| "le_bytes (Suc w) n = char_of (n mod 256) # le_bytes w (n div 256)"

definition u64_le :: "u64 \<Rightarrow> bytes" where
  "u64_le n = le_bytes 8 (unat n)"

fun identity_bytes :: "disk_identity \<Rightarrow> bytes" where
  "identity_bytes RawDisk = [CHR 0x00]"
| "identity_bytes (GptDisk disk_id) = CHR 0x02 # disk_id"
| "identity_bytes (MbrDisk signature) = CHR 0x01 # le_bytes 4 (unat signature)"

fun device_bytes :: "bytes option \<Rightarrow> bytes" where
  "device_bytes (Some device_id) = CHR 0x01 # device_id"
| "device_bytes None = [CHR 0x00]"

fun token_bytes :: "partition_token \<Rightarrow> bytes" where
  "token_bytes (GptToken ptype pid attrs) = CHR 0x02 # ptype @ pid @ u64_le attrs"
| "token_bytes (MbrToken ptype boot) = [CHR 0x01, ptype, (if boot then CHR 0x01 else CHR 0x00)]"

definition partition_bytes :: "partition_snapshot \<Rightarrow> bytes" where
  "partition_bytes p = u64_le (ps_offset p) @ u64_le (ps_size p) @ token_bytes (ps_token p)"

definition snapshot_message :: "disk_snapshot \<Rightarrow> bytes" where
  "snapshot_message s =
     ''LetRecovery.DiskLayoutSnapshot.V2'' @ [NUL] @ u64_le (ds_size s) @ identity_bytes (ds_disk s) @
     device_bytes (ds_device_id s) @
     (let parts = sort (ds_partitions s) in
      le_bytes 8 (length parts mod 2 ^ 64) @ concat (map partition_bytes parts))"

definition disk_layout_snapshot_digest :: "(bytes \<Rightarrow> bytes) \<Rightarrow> disk_snapshot \<Rightarrow> bytes" where
  "disk_layout_snapshot_digest sha s = sha (snapshot_message s)"

subsection \<open>The canonical target\<close>

datatype target_style = GptStyle | MbrStyle

fun style_as_str :: "target_style \<Rightarrow> string" where
  "style_as_str GptStyle = ''GPT''"
| "style_as_str MbrStyle = ''MBR''"

definition style_parse :: "string \<Rightarrow> string + target_style" where
  "style_parse v =
     (if trim v = ''GPT'' then Inr GptStyle else if trim v = ''MBR'' then Inr MbrStyle
      else Inl (''invalid canonical target disk style: '' @ v))"

record canonical_target =
  ct_layout_digest :: bytes
  ct_device_id_hash :: "bytes option"
  ct_offset :: u64
  ct_length :: u64
  ct_style :: target_style
  ct_gpt_id :: "bytes option"

definition portable_snapshot :: "disk_snapshot \<Rightarrow> disk_snapshot" where
  "portable_snapshot s =
     (let p = s\<lparr>ds_device_id := None\<rparr> in
      if ds_estimated p then p\<lparr>ds_size := 0, ds_estimated := False\<rparr> else p)"

definition portable_layout_digest :: "(bytes \<Rightarrow> bytes) \<Rightarrow> disk_snapshot \<Rightarrow> bytes" where
  "portable_layout_digest sha s = disk_layout_snapshot_digest sha (portable_snapshot s)"

definition size_agnostic_layout_digest :: "(bytes \<Rightarrow> bytes) \<Rightarrow> disk_snapshot \<Rightarrow> bytes" where
  "size_agnostic_layout_digest sha s =
     disk_layout_snapshot_digest sha (s\<lparr>ds_device_id := None, ds_size := 0, ds_estimated := False\<rparr>)"

definition target_kind :: "disk_identity \<Rightarrow> partition_token \<Rightarrow> (target_style \<times> bytes option) option" where
  "target_kind disk token = (case (disk, token) of
     (GptDisk _, GptToken _ pid _) \<Rightarrow> if pid \<noteq> replicate 16 NUL then Some (GptStyle, Some pid) else None
   | (MbrDisk signature, MbrToken _ _) \<Rightarrow> if signature \<noteq> 0 then Some (MbrStyle, None) else None
   | _ \<Rightarrow> None)"

definition from_snapshot :: "(bytes \<Rightarrow> bytes) \<Rightarrow> disk_snapshot \<Rightarrow> u64 \<Rightarrow> u64 \<Rightarrow> string + canonical_target" where
  "from_snapshot sha s off len =
     and_then (ensure (len \<noteq> 0) ''canonical target partition length must be nonzero'') (\<lambda>_.
     and_then (ok_or (List.find (\<lambda>p. ps_offset p = off \<and> ps_size p = len) (ds_partitions s))
       ''canonical target extent is absent from disk layout'') (\<lambda>p.
     and_then (ok_or (target_kind (ds_disk s) (ps_token p))
       ''canonical target disk and partition styles are inconsistent or unstable'') (\<lambda>(style, gpt).
     Inr \<lparr>ct_layout_digest = portable_layout_digest sha s, ct_device_id_hash = ds_device_id s,
          ct_offset = off, ct_length = len, ct_style = style, ct_gpt_id = gpt\<rparr>)))"

definition partition_matches :: "canonical_target \<Rightarrow> disk_identity \<Rightarrow> partition_snapshot \<Rightarrow> bool" where
  "partition_matches t disk p =
     (if ps_offset p \<noteq> ct_offset t \<or> ps_size p \<noteq> ct_length t then False
      else (case (ct_style t, ct_gpt_id t, disk, ps_token p) of
        (GptStyle, Some expected, GptDisk _, GptToken _ pid _) \<Rightarrow> expected = pid
      | (MbrStyle, None, MbrDisk signature, MbrToken _ _) \<Rightarrow> signature \<noteq> 0
      | _ \<Rightarrow> False))"

definition matches_snapshot :: "(bytes \<Rightarrow> bytes) \<Rightarrow> canonical_target \<Rightarrow> disk_snapshot \<Rightarrow> bool" where
  "matches_snapshot sha t s =
     (if ct_length t = 0 \<or>
         (portable_layout_digest sha s \<noteq> ct_layout_digest t \<and>
          size_agnostic_layout_digest sha s \<noteq> ct_layout_digest t) then False
      else list_ex (partition_matches t (ds_disk s)) (ds_partitions s))"

definition unique_canonical_target_match ::
  "(bytes \<Rightarrow> bytes) \<Rightarrow> canonical_target \<Rightarrow> (u32 \<times> disk_snapshot) list \<Rightarrow> string + u32" where
  "unique_canonical_target_match sha t candidates =
     (case filter (\<lambda>(_, s). matches_snapshot sha t s) candidates of
        [(n, _)] \<Rightarrow> Inr n
      | [] \<Rightarrow> Inl ''canonical installation target no longer matches any physical disk''
      | ms \<Rightarrow>
         (case ct_device_id_hash t of
            Some expected \<Rightarrow>
              if list_all (\<lambda>(_, s). ds_device_id s \<noteq> None) ms then
                (case map fst (filter (\<lambda>(_, s). ds_device_id s = Some expected) ms) of
                   [n] \<Rightarrow> Inr n
                 | _ \<Rightarrow> Inl ''canonical installation target matches multiple cloned physical disks'')
              else Inl ''canonical installation target matches multiple cloned physical disks''
          | None \<Rightarrow> Inl ''canonical installation target matches multiple cloned physical disks''))"

subsection \<open>Fields of the authenticated configuration\<close>

definition encode_hex :: "bytes \<Rightarrow> string" where
  "encode_hex bs = hex_bytes bs"

definition decode_hex_array :: "nat \<Rightarrow> string \<Rightarrow> string \<Rightarrow> string + bytes" where
  "decode_hex_array n v field =
     (let t = trim v in
      if length t \<noteq> n * 2 \<or> \<not> list_all is_hexdigit t then
        Inl (field @ '' must contain exactly '' @ show_nat (n * 2) @ '' hexadecimal characters'')
      else Inr (hex_pairs t))"

definition CANONICAL_TARGET_VERSION :: nat where "CANONICAL_TARGET_VERSION = 2"

definition canonical_target_from_fields ::
  "nat option \<Rightarrow> string option \<Rightarrow> u64 option \<Rightarrow> u64 option \<Rightarrow> string option \<Rightarrow> string option \<Rightarrow>
    string option \<Rightarrow> string + canonical_target option" where
  "canonical_target_from_fields version digest off len style gpt device =
     (let present = [version \<noteq> None, digest \<noteq> None, off \<noteq> None, len \<noteq> None, style \<noteq> None, gpt \<noteq> None] in
      if list_all Not present then
        (if device \<noteq> None then Inl ''canonical storage identity is present without a canonical target''
         else Inr None)
      else if list_ex Not present then Inl ''canonical V2 installation target fields are incomplete''
      else if version \<noteq> Some CANONICAL_TARGET_VERSION then
        Inl ''unsupported canonical installation target version''
      else
        and_then (style_parse (the style)) (\<lambda>st.
        and_then (case st of
            GptStyle \<Rightarrow> and_then (decode_hex_array 16 (the gpt) ''CanonicalGptPartitionId'') (\<lambda>b. Inr (Some b))
          | MbrStyle \<Rightarrow> if the gpt = ''none'' then Inr None
              else Inl (''MBR canonical target must use GPT partition ID '' @ [CHR 0x27] @ ''none'' @ [CHR 0x27])) (\<lambda>gpt_id.
        if the len = 0 then Inl ''canonical target partition length must be nonzero''
        else
          and_then (decode_hex_array 32 (the digest) ''CanonicalDiskLayoutSha256'') (\<lambda>d.
          and_then (case device of None \<Rightarrow> Inr None
            | Some v \<Rightarrow> and_then (decode_hex_array 32 v ''CanonicalStorageIdSha256'') (\<lambda>b. Inr (Some b))) (\<lambda>dev.
          Inr (Some \<lparr>ct_layout_digest = d, ct_device_id_hash = dev, ct_offset = the off,
                     ct_length = the len, ct_style = st, ct_gpt_id = gpt_id\<rparr>))))))"

subsection \<open>The message determines the layout\<close>

lemma length_le_bytes [simp]: "length (le_bytes w n) = w"
  by (induction w arbitrary: n) simp_all

lemma le_bytes_inj: "le_bytes w m = le_bytes w n \<Longrightarrow> m < 256 ^ w \<Longrightarrow> n < 256 ^ w \<Longrightarrow> m = n"
proof (induction w arbitrary: m n)
  case 0
  then show ?case by simp
next
  case (Suc w)
  have "(char_of (m mod 256) :: char) = char_of (n mod 256)" using Suc.prems(1) by simp
  then have "byte (char_of (m mod 256)) = byte (char_of (n mod 256))" by simp
  then have low: "m mod 256 = n mod 256" by simp
  have "le_bytes w (m div 256) = le_bytes w (n div 256)" using Suc.prems(1) by simp
  moreover have "m div 256 < 256 ^ w" "n div 256 < 256 ^ w"
    using Suc.prems(2,3) by (simp_all add: less_mult_imp_div_less mult.commute)
  ultimately have "m div 256 = n div 256" by (rule Suc.IH)
  with low show ?case by (metis div_mult_mod_eq)
qed

lemma length_u64_le [simp]: "length (u64_le n) = 8"
  by (simp add: u64_le_def)

lemma u64_le_inj [simp]: "u64_le a = u64_le b \<longleftrightarrow> a = b"
proof
  assume "u64_le a = u64_le b"
  then have "unat a = unat b"
    unfolding u64_le_def by (rule le_bytes_inj) (use unat_bound [of a] unat_bound [of b] in simp_all)
  then show "a = b" by (simp add: word_unat_eq_iff)
qed simp

lemma u32_le_inj: "le_bytes 4 (unat a) = le_bytes 4 (unat b) \<longleftrightarrow> a = (b :: u32)"
proof
  assume "le_bytes 4 (unat a) = le_bytes 4 (unat b)"
  then have "unat a = unat b"
    by (rule le_bytes_inj) (use unat_bound [of a] unat_bound [of b] in simp_all)
  then show "a = b" by (simp add: word_unat_eq_iff)
qed simp

text \<open>The fixed widths of the Rust arrays.\<close>

fun identity_ok :: "disk_identity \<Rightarrow> bool" where
  "identity_ok (GptDisk disk_id) = (length disk_id = 16)"
| "identity_ok _ = True"

fun token_ok :: "partition_token \<Rightarrow> bool" where
  "token_ok (GptToken ptype pid _) = (length ptype = 16 \<and> length pid = 16)"
| "token_ok _ = True"

definition snapshot_ok :: "disk_snapshot \<Rightarrow> bool" where
  "snapshot_ok s \<longleftrightarrow> identity_ok (ds_disk s) \<and> pred_option (\<lambda>b. length b = 32) (ds_device_id s) \<and>
     list_all (\<lambda>p. token_ok (ps_token p)) (ds_partitions s) \<and> length (ds_partitions s) < 2 ^ 64"

lemma identity_bytes_cut:
  assumes "identity_bytes a @ r = identity_bytes b @ r'" "identity_ok a" "identity_ok b"
  shows "a = b \<and> r = r'"
  using assms by (cases a; cases b) (auto simp: append_eq_append_conv u32_le_inj)

lemma device_bytes_cut:
  assumes "device_bytes a @ r = device_bytes b @ r'" "pred_option (\<lambda>x. length x = 32) a"
    "pred_option (\<lambda>x. length x = 32) b"
  shows "a = b \<and> r = r'"
  using assms by (cases a; cases b) (auto simp: append_eq_append_conv)

lemma token_bytes_cut:
  assumes "token_bytes a @ r = token_bytes b @ r'" "token_ok a" "token_ok b"
  shows "a = b \<and> r = r'"
  using assms by (cases a; cases b) (auto simp: append_eq_append_conv split: if_splits)

lemma partition_bytes_cut:
  assumes "partition_bytes p @ r = partition_bytes q @ r'" "token_ok (ps_token p)" "token_ok (ps_token q)"
  shows "p = q \<and> r = r'"
proof -
  have "ps_offset p = ps_offset q" "ps_size p = ps_size q"
    "token_bytes (ps_token p) @ r = token_bytes (ps_token q) @ r'"
    using assms(1) by (simp_all add: partition_bytes_def append_eq_append_conv)
  with token_bytes_cut assms(2,3) show ?thesis by (metis partition_snapshot.expand)
qed

lemma partitions_bytes_inj:
  assumes "concat (map partition_bytes ps) = concat (map partition_bytes qs)" "length ps = length qs"
    and "list_all (\<lambda>p. token_ok (ps_token p)) ps" "list_all (\<lambda>p. token_ok (ps_token p)) qs"
  shows "ps = qs"
  using assms(2,1,3,4)
proof (induction ps qs rule: list_induct2)
  case Nil
  show ?case by simp
next
  case (Cons p ps q qs)
  then have "p = q \<and> concat (map partition_bytes ps) = concat (map partition_bytes qs)"
    by (intro partition_bytes_cut) simp_all
  with Cons show ?case by simp
qed

text \<open>What the digest is meant to stand for: capacity, disk identity, device and the partitions in any order.\<close>

definition same_layout :: "disk_snapshot \<Rightarrow> disk_snapshot \<Rightarrow> bool" where
  "same_layout a b \<longleftrightarrow> ds_size a = ds_size b \<and> ds_disk a = ds_disk b \<and>
     ds_device_id a = ds_device_id b \<and> mset (ds_partitions a) = mset (ds_partitions b)"

lemma sort_eq_mset: "sort xs = sort ys \<longleftrightarrow> mset xs = mset (ys :: 'a::linorder list)"
  by (metis mset_sort sorted_list_of_multiset_mset)

lemma snapshot_message_iff:
  assumes "snapshot_ok a" "snapshot_ok b"
  shows "snapshot_message a = snapshot_message b \<longleftrightarrow> same_layout a b"
proof
  assume "same_layout a b"
  then have "sort (ds_partitions a) = sort (ds_partitions b)" by (simp add: sort_eq_mset same_layout_def)
  with \<open>same_layout a b\<close> show "snapshot_message a = snapshot_message b"
    by (simp add: snapshot_message_def same_layout_def)
next
  assume eq: "snapshot_message a = snapshot_message b"
  let ?pa = "sort (ds_partitions a)" and ?pb = "sort (ds_partitions b)"
  have size: "ds_size a = ds_size b" and
    rest: "identity_bytes (ds_disk a) @ device_bytes (ds_device_id a) @
        le_bytes 8 (length ?pa mod 2 ^ 64) @ concat (map partition_bytes ?pa) =
      identity_bytes (ds_disk b) @ device_bytes (ds_device_id b) @
        le_bytes 8 (length ?pb mod 2 ^ 64) @ concat (map partition_bytes ?pb)"
    using eq by (simp_all add: snapshot_message_def Let_def append_eq_append_conv)
  have ok: "identity_ok (ds_disk a)" "identity_ok (ds_disk b)"
    "pred_option (\<lambda>x. length x = 32) (ds_device_id a)" "pred_option (\<lambda>x. length x = 32) (ds_device_id b)"
    "list_all (\<lambda>p. token_ok (ps_token p)) ?pa" "list_all (\<lambda>p. token_ok (ps_token p)) ?pb"
    "length ?pa < 2 ^ 64" "length ?pb < 2 ^ 64"
    using assms by (simp_all add: snapshot_ok_def list_all_iff)
  from identity_bytes_cut [OF rest ok(1,2)] have disk: "ds_disk a = ds_disk b" and
    rest2: "device_bytes (ds_device_id a) @ le_bytes 8 (length ?pa mod 2 ^ 64) @ concat (map partition_bytes ?pa) =
      device_bytes (ds_device_id b) @ le_bytes 8 (length ?pb mod 2 ^ 64) @ concat (map partition_bytes ?pb)"
    by auto
  from device_bytes_cut [OF rest2 ok(3,4)] have dev: "ds_device_id a = ds_device_id b" and
    len: "le_bytes 8 (length ?pa mod 2 ^ 64) = le_bytes 8 (length ?pb mod 2 ^ 64)" and
    parts: "concat (map partition_bytes ?pa) = concat (map partition_bytes ?pb)"
    by (simp_all add: append_eq_append_conv)
  have "length ?pa mod 2 ^ 64 = length ?pb mod 2 ^ 64"
    by (rule le_bytes_inj [OF len]) simp_all
  then have "length ?pa = length ?pb" using ok(7,8) by (simp del: length_sort)
  then have "?pa = ?pb" using partitions_bytes_inj [OF parts] ok(5,6) by simp
  then show "same_layout a b" using size disk dev by (simp add: same_layout_def sort_eq_mset)
qed

lemma digest_iff:
  assumes "snapshot_ok a" "snapshot_ok b" "\<not> sha_collision sha"
  shows "disk_layout_snapshot_digest sha a = disk_layout_snapshot_digest sha b \<longleftrightarrow> same_layout a b"
proof -
  have "sha x = sha y \<longleftrightarrow> x = y" for x y
    using assms(3) by (auto simp: sha_collision_def)
  then show ?thesis by (simp add: disk_layout_snapshot_digest_def snapshot_message_iff [OF assms(1,2)])
qed

subsection \<open>Matching a captured target\<close>

text \<open>The capacity that enters the portable digest.\<close>

definition portable_size :: "disk_snapshot \<Rightarrow> u64" where
  "portable_size s = (if ds_estimated s then 0 else ds_size s)"

lemma portable_simps [simp]:
  "ds_size (portable_snapshot s) = portable_size s" "ds_disk (portable_snapshot s) = ds_disk s"
  "ds_device_id (portable_snapshot s) = None" "ds_partitions (portable_snapshot s) = ds_partitions s"
  by (simp_all add: portable_snapshot_def portable_size_def Let_def)

lemma portable_ok: "snapshot_ok s \<Longrightarrow> snapshot_ok (portable_snapshot s)"
  by (simp add: snapshot_ok_def)

lemma size_agnostic_ok:
  "snapshot_ok s \<Longrightarrow> snapshot_ok (s\<lparr>ds_device_id := None, ds_size := 0, ds_estimated := False\<rparr>)"
  by (simp add: snapshot_ok_def)

lemma find_SomeD: "List.find P xs = Some x \<Longrightarrow> x \<in> set xs \<and> P x"
  by (induction xs) (auto split: if_splits)

lemma from_snapshot_Inr:
  "from_snapshot sha s off len = Inr t \<Longrightarrow>
     len \<noteq> 0 \<and> ct_offset t = off \<and> ct_length t = len \<and> ct_device_id_hash t = ds_device_id s \<and>
     ct_layout_digest t = portable_layout_digest sha s \<and>
     (\<exists>p \<in> set (ds_partitions s). ps_offset p = off \<and> ps_size p = len \<and>
        target_kind (ds_disk s) (ps_token p) = Some (ct_style t, ct_gpt_id t))"
  by (force simp: from_snapshot_def res_simps dest!: find_SomeD)

lemma partition_matches_kind:
  "target_kind disk (ps_token p) = Some (ct_style t, ct_gpt_id t) \<Longrightarrow> ps_offset p = ct_offset t \<Longrightarrow>
     ps_size p = ct_length t \<Longrightarrow> partition_matches t disk p"
  by (cases "ct_gpt_id t"; cases "ct_style t"; cases disk; cases "ps_token p")
    (auto simp: partition_matches_def target_kind_def split: if_splits)

lemma matches_iff:
  assumes "from_snapshot sha s off len = Inr t" "snapshot_ok s" "snapshot_ok s'" "\<not> sha_collision sha"
  shows "matches_snapshot sha t s' \<longleftrightarrow>
    ds_disk s' = ds_disk s \<and> mset (ds_partitions s') = mset (ds_partitions s) \<and>
    (portable_size s = portable_size s' \<or> portable_size s = 0)"
proof -
  note f = from_snapshot_Inr [OF assms(1)]
  let ?agn = "s'\<lparr>ds_device_id := None, ds_size := 0, ds_estimated := False\<rparr>"
  have "portable_layout_digest sha s' = ct_layout_digest t \<longleftrightarrow>
      same_layout (portable_snapshot s') (portable_snapshot s)"
    using f digest_iff [OF portable_ok [OF assms(3)] portable_ok [OF assms(2)] assms(4)]
    by (simp add: portable_layout_digest_def)
  moreover have "size_agnostic_layout_digest sha s' = ct_layout_digest t \<longleftrightarrow>
      same_layout ?agn (portable_snapshot s)"
    using f digest_iff [OF size_agnostic_ok [OF assms(3)] portable_ok [OF assms(2)] assms(4)]
    by (simp add: portable_layout_digest_def size_agnostic_layout_digest_def)
  moreover have "list_ex (partition_matches t (ds_disk s')) (ds_partitions s')"
    if "ds_disk s' = ds_disk s" "mset (ds_partitions s') = mset (ds_partitions s)"
  proof -
    have "set (ds_partitions s') = set (ds_partitions s)" using that(2) by (metis set_mset_mset)
    then show ?thesis
      using f that(1) by (auto simp: list_ex_iff intro!: partition_matches_kind)
  qed
  ultimately show ?thesis using f by (auto simp: matches_snapshot_def same_layout_def)
qed

lemma unique_match_cases:
  assumes "unique_canonical_target_match sha t cs = Inr n"
  obtains (single) s where "filter (\<lambda>(_, s). matches_snapshot sha t s) cs = [(n, s)]"
  | (by_device) e s where "ct_device_id_hash t = Some e"
      "list_all (\<lambda>(_, s). ds_device_id s \<noteq> None) (filter (\<lambda>(_, s). matches_snapshot sha t s) cs)"
      "filter (\<lambda>(_, s). ds_device_id s = Some e) (filter (\<lambda>(_, s). matches_snapshot sha t s) cs) = [(n, s)]"
proof (cases "filter (\<lambda>(_, s). matches_snapshot sha t s) cs")
  case Nil
  then show ?thesis using assms by (simp add: unique_canonical_target_match_def)
next
  case (Cons c rest)
  show ?thesis
  proof (cases rest)
    case Nil
    then show ?thesis
      using assms Cons single by (cases c) (simp add: unique_canonical_target_match_def)
  next
    case (Cons c' rest')
    let ?ms = "c # c' # rest'"
    have ms: "filter (\<lambda>(_, s). matches_snapshot sha t s) cs = ?ms"
      using \<open>filter _ cs = c # rest\<close> Cons by simp
    obtain e where e: "ct_device_id_hash t = Some e"
      "list_all (\<lambda>(_, s). ds_device_id s \<noteq> None) ?ms"
      "(case map fst (filter (\<lambda>(_, s). ds_device_id s = Some e) ?ms) of [n] \<Rightarrow> Inr n
        | _ \<Rightarrow> Inl ''canonical installation target matches multiple cloned physical disks'') = Inr n"
      using assms ms
      by (cases c; cases c') (auto simp: unique_canonical_target_match_def split: option.splits if_splits)
    have "F = [n]" if "(case F of [m] \<Rightarrow> Inr m | _ \<Rightarrow> Inl msg) = Inr n" for F and msg :: string
      using that by (auto split: list.splits)
    from this [OF e(3)] have "map fst (filter (\<lambda>(_, s). ds_device_id s = Some e) ?ms) = [n]" .
    then obtain s where "filter (\<lambda>(_, s). ds_device_id s = Some e) ?ms = [(n, s)]"
      by (cases "filter (\<lambda>(_, s). ds_device_id s = Some e) ?ms") auto
    then show ?thesis using by_device e(1,2) ms by simp
  qed
qed

lemma filter_singleton_nth:
  assumes "filter P xs = [x]"
  shows "\<exists>i < length xs. xs ! i = x \<and> P x \<and> (\<forall>j < length xs. j \<noteq> i \<longrightarrow> \<not> P (xs ! j))"
proof -
  have "length (filter P xs) \<le> 1" using assms by simp
  then have unique: "\<forall>i < length xs. \<forall>j < length xs. P (xs ! i) \<and> P (xs ! j) \<longrightarrow> i = j"
    unfolding filter_le_1 .
  have "x \<in> set (filter P xs)" using assms by simp
  then have "x \<in> set xs" "P x" by auto
  then obtain i where "i < length xs" "xs ! i = x" by (auto simp: in_set_conv_nth)
  then show ?thesis using unique \<open>P x\<close> by blast
qed

subsection \<open>Concrete disks\<close>

definition sample_disk_a :: disk_snapshot where
  "sample_disk_a = \<lparr>ds_size = 1000000, ds_estimated = False, ds_disk = MbrDisk 7, ds_device_id = None,
     ds_partitions = [PartitionSnapshot 2048 500000 (MbrToken (CHR 0x07) True),
                      PartitionSnapshot 600000 300000 (MbrToken (CHR 0x07) False)]\<rparr>"

definition sample_disk_b :: disk_snapshot where
  "sample_disk_b = sample_disk_a\<lparr>ds_partitions := rev (ds_partitions sample_disk_a),
     ds_device_id := Some (replicate 32 (CHR 0x01))\<rparr>"

lemma sample_disks_ok: "snapshot_ok sample_disk_a" "snapshot_ok sample_disk_b"
  by (simp_all add: sample_disk_a_def sample_disk_b_def snapshot_ok_def)

lemma sample_target: "from_snapshot sha sample_disk_a 2048 500000 =
    Inr \<lparr>ct_layout_digest = portable_layout_digest sha sample_disk_a, ct_device_id_hash = None,
      ct_offset = 2048, ct_length = 500000, ct_style = MbrStyle, ct_gpt_id = None\<rparr>"
  by (simp add: from_snapshot_def sample_disk_a_def target_kind_def)

lemma id_no_collision: "\<not> sha_collision (\<lambda>bs. bs)"
  by (simp add: sha_collision_def)

subsection \<open>Properties of the target identity\<close>

text \<open>The layout digest stands for the layout. Two snapshots have the same digest exactly when they
  agree on capacity, disk identity, device identifier and the set of partitions with their offsets,
  sizes, types, identifiers and flags; the order in which the partitions were enumerated does not
  matter. The encoding is unambiguous: the only other possibility is a collision of the hash.
\<close>

theorem layout_digest_exact:
  assumes "snapshot_ok a" and "snapshot_ok b" and "\<And>x y. sha x = sha y \<Longrightarrow> x = y"
  shows "disk_layout_snapshot_digest sha a = disk_layout_snapshot_digest sha b \<longleftrightarrow>
    ds_size a = ds_size b \<and> ds_disk a = ds_disk b \<and> ds_device_id a = ds_device_id b \<and>
    mset (ds_partitions a) = mset (ds_partitions b)"
proof -
  have "\<not> sha_collision sha" using assms(3) by (auto simp: sha_collision_def)
  from digest_iff [OF assms(1,2) this] show ?thesis by (simp add: same_layout_def)
qed

theorem layout_digest_exact_witness:
  "disk_layout_snapshot_digest (\<lambda>bs. bs) sample_disk_a \<noteq> disk_layout_snapshot_digest (\<lambda>bs. bs) sample_disk_b"
  using layout_digest_exact [OF sample_disks_ok, where sha = "\<lambda>bs. bs"]
  by (simp add: sample_disk_a_def sample_disk_b_def)

text \<open>The captured target is recognised exactly on its own disk. A target captured from one
  snapshot matches another snapshot, however its partitions are enumerated and whatever storage
  identifier the other system reports, exactly when the disk identity and the partitions are the
  same and the capacity agrees or was not known exactly when the target was captured.
\<close>

theorem target_recognised_exactly:
  assumes "from_snapshot sha s off len = Inr t" and "snapshot_ok s" and "snapshot_ok s'"
    and "\<And>x y. sha x = sha y \<Longrightarrow> x = y"
  shows "matches_snapshot sha t s' \<longleftrightarrow>
    ds_disk s' = ds_disk s \<and> mset (ds_partitions s') = mset (ds_partitions s) \<and>
    ((if ds_estimated s then 0 else ds_size s) = (if ds_estimated s' then 0 else ds_size s') \<or>
     (if ds_estimated s then 0 else ds_size s) = 0)"
proof -
  have "\<not> sha_collision sha" using assms(4) by (auto simp: sha_collision_def)
  from matches_iff [OF assms(1-3) this] show ?thesis by (simp add: portable_size_def)
qed

theorem target_recognised_exactly_witness:
  "matches_snapshot (\<lambda>bs. bs) \<lparr>ct_layout_digest = portable_layout_digest (\<lambda>bs. bs) sample_disk_a,
     ct_device_id_hash = None, ct_offset = 2048, ct_length = 500000, ct_style = MbrStyle,
     ct_gpt_id = None\<rparr> sample_disk_b"
  using target_recognised_exactly [OF sample_target sample_disks_ok, where sha = "\<lambda>bs. bs"]
  by (simp add: sample_disk_a_def sample_disk_b_def)

text \<open>The installer never guesses between clones. When a disk is selected for the target, it is one
  of the candidates, its snapshot matches the target, and every other candidate either does not
  match or reports a storage identifier that differs from the captured one while the selected disk
  reports exactly the captured one.
\<close>

theorem selected_disk_is_unambiguous:
  assumes "unique_canonical_target_match sha t cs = Inr n"
  shows "\<exists>i < length cs. fst (cs ! i) = n \<and> matches_snapshot sha t (snd (cs ! i)) \<and>
    (\<forall>j < length cs. j \<noteq> i \<longrightarrow> \<not> matches_snapshot sha t (snd (cs ! j)) \<or>
      (\<exists>e e'. ct_device_id_hash t = Some e \<and> ds_device_id (snd (cs ! i)) = Some e \<and>
         ds_device_id (snd (cs ! j)) = Some e' \<and> e' \<noteq> e))"
  using assms
proof (cases rule: unique_match_cases)
  case (single s)
  from filter_singleton_nth [OF single] show ?thesis by (auto simp: case_prod_beta)
next
  case (by_device e s)
  let ?M = "\<lambda>(_, s). matches_snapshot sha t s"
  have "filter (\<lambda>c. ds_device_id (snd c) = Some e \<and> ?M c) cs = [(n, s)]"
    using by_device(3) by (simp add: case_prod_beta conj_commute)
  from filter_singleton_nth [OF this] obtain i where
    i: "i < length cs" "cs ! i = (n, s)" "ds_device_id s = Some e" "matches_snapshot sha t s"
    "\<forall>j < length cs. j \<noteq> i \<longrightarrow> \<not> (ds_device_id (snd (cs ! j)) = Some e \<and> ?M (cs ! j))"
    by auto
  have "ds_device_id (snd (cs ! j)) \<noteq> None"
    if "j < length cs" "matches_snapshot sha t (snd (cs ! j))" for j
  proof -
    have "\<forall>c \<in> set cs. matches_snapshot sha t (snd c) \<longrightarrow> ds_device_id (snd c) \<noteq> None"
      using by_device(2) by (auto simp: list_all_iff case_prod_beta)
    then show ?thesis using that nth_mem [OF that(1)] by blast
  qed
  then show ?thesis
    using i by_device(1) by (intro exI [of _ i]) (auto simp: case_prod_beta)
qed

theorem selected_disk_is_unambiguous_witness:
  "matches_snapshot (\<lambda>bs. bs) \<lparr>ct_layout_digest = portable_layout_digest (\<lambda>bs. bs) sample_disk_a,
     ct_device_id_hash = None, ct_offset = 2048, ct_length = 500000, ct_style = MbrStyle,
     ct_gpt_id = None\<rparr> (snd ([(3, sample_disk_a)] ! 0))"
proof -
  let ?t = "\<lparr>ct_layout_digest = portable_layout_digest (\<lambda>bs. bs) sample_disk_a,
     ct_device_id_hash = None, ct_offset = 2048, ct_length = 500000, ct_style = MbrStyle, ct_gpt_id = None\<rparr>"
  have "matches_snapshot (\<lambda>bs. bs) ?t sample_disk_a"
    by (simp add: matches_iff [OF sample_target sample_disks_ok(1) sample_disks_ok(1) id_no_collision])
  then have "unique_canonical_target_match (\<lambda>bs. bs) ?t [(3, sample_disk_a)] = Inr 3"
    by (simp add: unique_canonical_target_match_def)
  from selected_disk_is_unambiguous [OF this] show ?thesis by simp
qed

end
