(* ===== verification/InstallHandoff.thy ===== *)
theory InstallHandoff
  imports DiskIdentity
begin

section \<open>The syntax gate of the installation handoff\<close>

text \<open>
  \<open>lr-core/src/install_handoff.rs\<close>, the strict gate in front of the two lenient parsers of the
  installation configuration: which fields exist, in which section they may stand and which values
  they take. Text is UTF-8 bytes; lines are those of \<open>str::lines\<close>. Errors carry the message of the
  code, with the number of the line. The module also holds the marker files that let the boot
  environment find the volumes again.
\<close>

subsection \<open>Marker files\<close>

definition locator_marker_bytes :: "string \<Rightarrow> string + bytes" where
  "locator_marker_bytes token = and_then (validate_locator_token token) (\<lambda>_. Inr token)"

definition locator_marker_matches :: "bytes \<Rightarrow> string \<Rightarrow> bool" where
  "locator_marker_matches bs token = (case locator_marker_bytes token of
     Inl _ \<Rightarrow> False
   | Inr expected \<Rightarrow> expected = bs)"

subsection \<open>Fields\<close>

datatype value_kind =
  TextValue | BoolValue | U8Value nat | U16Value | U32Value | NonZeroU32Value | BootPcaValue | U64Value
| HexValue nat | CanonicalStyleValue | CanonicalGptIdValue

definition install_text_fields :: "string list" where
  "install_text_fields =
     [''SessionId'', ''OriginalGUID'', ''TargetPartition'', ''ImagePath'', ''XpSourceArch'',
      ''PcaCompatPackage'', ''PcaCompatSha256'', ''Language'', ''AutomaticFeedbackMode'',
      ''CustomInstallPlanJson'', ''InstallReport'']"

definition install_bool_fields :: "string list" where
  "install_bool_fields =
     [''Unattended'', ''RestoreDrivers'', ''AutoReboot'', ''AutomationShutdownOnTerminal'',
      ''FormatPartition'', ''PreservePersonalFiles'', ''RepairBoot'', ''SourceImageVerified'', ''IsGho'',
      ''IsXp'', ''IsXpI386'', ''RunDiskpartScripts'', ''MigrateWifi'', ''PeNetworkEnabled'',
      ''ImageChunked'', ''InPlaceTargetStaging'']"

definition install_u64_fields :: "string list" where
  "install_u64_fields =
     [''CanonicalPartitionOffsetBytes'', ''CanonicalPartitionLengthBytes'', ''WifiProfileLength'',
      ''PeNetworkPayloadLength'', ''ImageChunkedLength'', ''ImageExpandedBytes'']"

definition advanced_bool_fields :: "string list" where
  "advanced_bool_fields =
     [''InstallCabPackages'', ''RemoveShortcutArrow'', ''RestoreClassicContextMenu'', ''BypassNRO'',
      ''DisableWindowsUpdate'', ''DisableWindowsDefender'', ''DisableReservedStorage'', ''DisableUAC'',
      ''DisableDeviceEncryption'', ''RemoveUWPApps'', ''ImportStorageControllerDrivers'',
      ''BuiltinAdministrator'', ''BuiltinAdministratorAutoLogon'']"

definition advanced_text_fields :: "string list" where
  "advanced_text_fields =
     [''CustomUsername'', ''BuiltinAdministratorName'', ''BuiltinAdministratorPassword'', ''VolumeLabel'',
      ''CustomUnattendFile'', ''PreinstalledSoftwareConfig'']"

definition field_rule :: "string \<Rightarrow> (string \<times> value_kind) option" where
  "field_rule key =
     (if key \<in> set install_text_fields then Some (''Install'', TextValue)
      else if key \<in> set install_bool_fields then Some (''Install'', BoolValue)
      else if key = ''DriverActionMode'' then Some (''Install'', U8Value 2)
      else if key = ''WimEngine'' then Some (''Install'', U8Value 1)
      else if key = ''BootMode'' then Some (''Install'', U8Value 2)
      else if key = ''VolumeIndex'' then Some (''Install'', NonZeroU32Value)
      else if key = ''BootPcaMode'' then Some (''Install'', BootPcaValue)
      else if key \<in> {''PcaCompatImageIndex'', ''PcaCompatTargetBuild''} then Some (''Install'', U32Value)
      else if key = ''PcaCompatTargetArchitecture'' then Some (''Install'', U16Value)
      else if key = ''CanonicalTargetVersion'' then Some (''Install'', U8Value 2)
      else if key \<in> {''CanonicalDiskLayoutSha256'', ''CanonicalStorageIdSha256''} then Some (''Install'', HexValue 32)
      else if key \<in> set install_u64_fields then Some (''Install'', U64Value)
      else if key \<in> {''ImageChunkedSha256'', ''WifiProfileSha256'', ''PeNetworkPayloadSha256''}
        then Some (''Install'', HexValue 32)
      else if key = ''CanonicalDiskStyle'' then Some (''Install'', CanonicalStyleValue)
      else if key = ''CanonicalGptPartitionId'' then Some (''Install'', CanonicalGptIdValue)
      else if key = ''HandoffManifestVersion'' then Some (''HandoffManifest'', U8Value 1)
      else if key = ''HandoffManifestLength'' then Some (''HandoffManifest'', U64Value)
      else if key = ''HandoffManifestSha256'' then Some (''HandoffManifest'', HexValue 32)
      else if key \<in> set advanced_bool_fields then Some (''Advanced'', BoolValue)
      else if key \<in> set advanced_text_fields then Some (''Advanced'', TextValue)
      else if key \<in> {''Win7UefiPatch'', ''Win7InjectUsb3Driver'', ''Win7InjectNvmeDriver'', ''Win7FixAcpiBsod'',
          ''Win7FixStorageBsod''} then Some (''Win7'', BoolValue)
      else if key \<in> {''XpInjectUsb3Driver'', ''XpInjectNvmeDriver''} then Some (''Xp'', BoolValue)
      else None)"

definition invalid :: "string \<Rightarrow> string \<Rightarrow> string \<Rightarrow> string" where
  "invalid what key v = ''invalid '' @ what @ '' for '' @ key @ '': '' @ v"

definition parse_integer :: "nat \<Rightarrow> string \<Rightarrow> string \<Rightarrow> string + nat" where
  "parse_integer bits key v = ok_or (parse_uint (2 ^ bits) v) (invalid ''integer'' key v)"

definition boot_pca_names :: "string list" where
  "boot_pca_names = [''auto'', ''pca2011'', ''2011'', ''1'', ''pca2023'', ''2023'', ''2'']"

fun validate_value :: "string \<Rightarrow> string \<Rightarrow> value_kind \<Rightarrow> string + unit" where
  "validate_value key v TextValue = Inr ()"
| "validate_value key v BoolValue =
     ensure (v = ''true'' \<or> v = ''false'') (invalid ''boolean'' key v)"
| "validate_value key v (U8Value limit) =
     and_then (parse_integer 8 key v) (\<lambda>parsed.
     ensure (\<not> limit < parsed)
       (key @ '' is outside the supported range 0..='' @ show_nat limit @ '': '' @ show_nat parsed))"
| "validate_value key v U16Value = and_then (parse_integer 16 key v) (\<lambda>_. Inr ())"
| "validate_value key v U32Value = and_then (parse_integer 32 key v) (\<lambda>_. Inr ())"
| "validate_value key v NonZeroU32Value =
     and_then (parse_integer 32 key v) (\<lambda>parsed.
     ensure (parsed \<noteq> 0) (key @ '' must be greater than zero''))"
| "validate_value key v BootPcaValue =
     ensure (map to_lower (trim v) \<in> set boot_pca_names) (''invalid BootPcaMode: '' @ v)"
| "validate_value key v U64Value = and_then (parse_integer 64 key v) (\<lambda>_. Inr ())"
| "validate_value key v (HexValue n) =
     ensure (\<not> (length v \<noteq> n * 2 \<or> \<not> list_all is_hexdigit v)) (''invalid hexadecimal value for '' @ key)"
| "validate_value key v CanonicalStyleValue = and_then (style_parse v) (\<lambda>_. Inr ())"
| "validate_value key v CanonicalGptIdValue =
     ensure (v = ''none'' \<or> (length v = 32 \<and> list_all is_hexdigit v)) ''invalid canonical GPT partition ID''"

subsection \<open>The loop over the lines\<close>

text \<open>The state of the loop: the section the line is in and the keys seen so far.\<close>

type_synonym gate_state = "string \<times> string set"

text \<open>\<open>trim_start_matches('\u{feff}')\<close>\<close>

function trim_start_bom :: "string \<Rightarrow> string" where
  "trim_start_bom s = (if starts_with BOM s then trim_start_bom (drop 3 s) else s)"
  by pat_completeness auto
termination
  by (relation "measure length") (auto simp: starts_with_def BOM_def strip_prefix_Some_iff split: option.splits)

declare trim_start_bom.simps [simp del]

definition at_line :: "nat \<Rightarrow> string" where
  "at_line index = '' on line '' @ show_nat (index + 1)"

definition gate_field :: "nat \<Rightarrow> gate_state \<Rightarrow> string \<Rightarrow> string \<Rightarrow> string + gate_state" where
  "gate_field index st key v = (case st of (sect, seen) \<Rightarrow>
     and_then (ok_or (field_rule key)
       (''unknown install field '' @ key @ '' in section ['' @ sect @ '']'' @ at_line index)) (\<lambda>(expected, kind).
     and_then (ensure (\<not> (sect \<noteq> expected \<and> sect \<noteq> ''Install''))
       (''known install field '' @ key @ '' is in unexpected section ['' @ sect @ '']'' @ at_line index)) (\<lambda>_.
     and_then (ensure (key \<notin> seen) (''duplicate install field '' @ key @ at_line index)) (\<lambda>_.
     and_then (validate_value key v kind) (\<lambda>_.
     Inr (sect, insert key seen))))))"

definition gate_line :: "nat \<Rightarrow> gate_state \<Rightarrow> string \<Rightarrow> string + gate_state" where
  "gate_line index st raw_line =
     (let line = trim_start_bom (trim raw_line) in
      if line = [] \<or> starts_with ''#'' line \<or> starts_with '';'' line then Inr st
      else if starts_with ''['' line then
        (if \<not> ends_with '']'' line \<or> length line < 3
         then Inl (''malformed INI section'' @ at_line index)
         else Inr (trim (butlast (tl line)), snd st))
      else
        and_then (ok_or (split_once (CHR ''='') line) (''malformed INI field'' @ at_line index)) (\<lambda>(key, v).
        gate_field index st (trim key) (trim v)))"

definition validate_install_handoff_ini :: "string \<Rightarrow> string + unit" where
  "validate_install_handoff_ini content =
     and_then (try_fold (\<lambda>st (index, raw_line). gate_line index st raw_line) ([], {})
       (List.enumerate 0 (str_lines content))) (\<lambda>_. Inr ())"

subsection \<open>What the gate means\<close>

text \<open>A line read on its own, with no state.\<close>

datatype ini_line = Ignored | SectionLine string | FieldLine string string | MalformedLine

definition read_line :: "string \<Rightarrow> ini_line" where
  "read_line raw_line =
     (let line = trim_start_bom (trim raw_line) in
      if line = [] \<or> hd line \<in> {CHR ''#'', CHR '';''} then Ignored
      else if hd line = CHR ''['' then
        (if last line = CHR '']'' \<and> 3 \<le> length line then SectionLine (trim (butlast (tl line)))
         else MalformedLine)
      else (case split_once (CHR ''='') line of
        None \<Rightarrow> MalformedLine
      | Some (key, v) \<Rightarrow> FieldLine (trim key) (trim v)))"

text \<open>The fields of a configuration with the section each one stands in.\<close>

fun ini_fields :: "string \<Rightarrow> ini_line list \<Rightarrow> (string \<times> string \<times> string) list" where
  "ini_fields sect [] = []"
| "ini_fields sect (SectionLine s # ls) = ini_fields s ls"
| "ini_fields sect (FieldLine key v # ls) = (sect, key, v) # ini_fields sect ls"
| "ini_fields sect (Ignored # ls) = ini_fields sect ls"
| "ini_fields sect (MalformedLine # ls) = ini_fields sect ls"

definition field_accepted :: "string \<times> string \<times> string \<Rightarrow> bool" where
  "field_accepted f = (case f of (sect, key, v) \<Rightarrow>
     (case field_rule key of
        None \<Rightarrow> False
      | Some (expected, kind) \<Rightarrow>
          (sect = expected \<or> sect = ''Install'') \<and> validate_value key v kind = Inr ()))"

lemma gate_field_Inr:
  "gate_field i (sect, seen) key v = Inr st \<longleftrightarrow>
     field_accepted (sect, key, v) \<and> key \<notin> seen \<and> st = (sect, insert key seen)"
  by (auto simp: gate_field_def field_accepted_def res_simps split: option.splits)

lemma starts_with_char: "starts_with [c] s \<longleftrightarrow> s \<noteq> [] \<and> hd s = c"
  by (cases s) (auto simp: starts_with_def)

lemma ends_with_char: "ends_with [c] s \<longleftrightarrow> s \<noteq> [] \<and> last s = c"
  by (cases s rule: rev_cases) (auto simp: ends_with_def strip_suffix_def)

lemma gate_line_Inr:
  "gate_line i (sect, seen) l = Inr st \<longleftrightarrow> (case read_line l of
     Ignored \<Rightarrow> st = (sect, seen)
   | SectionLine s \<Rightarrow> st = (s, seen)
   | FieldLine key v \<Rightarrow> field_accepted (sect, key, v) \<and> key \<notin> seen \<and> st = (sect, insert key seen)
   | MalformedLine \<Rightarrow> False)"
  by (auto simp: gate_line_def read_line_def Let_def starts_with_char ends_with_char res_simps gate_field_Inr
      split: option.splits)

lemma gate_lines_Inr:
  "(\<exists>st. try_fold (\<lambda>st (i, l). gate_line i st l) (sect, seen) (List.enumerate n ls) = Inr st) \<longleftrightarrow>
     MalformedLine \<notin> read_line ` set ls \<and>
     (let fs = ini_fields sect (map read_line ls) in
      list_all field_accepted fs \<and> distinct (map (fst \<circ> snd) fs) \<and> (\<forall>f \<in> set fs. fst (snd f) \<notin> seen))"
proof (induction ls arbitrary: sect seen n)
  case (Cons l ls)
  have "(\<exists>st. try_fold (\<lambda>st (i, l). gate_line i st l) (sect, seen) (List.enumerate n (l # ls)) = Inr st) \<longleftrightarrow>
    (\<exists>sect' seen'. gate_line n (sect, seen) l = Inr (sect', seen') \<and>
      (\<exists>st. try_fold (\<lambda>st (i, l). gate_line i st l) (sect', seen') (List.enumerate (Suc n) ls) = Inr st))"
    by (auto simp: res_simps)
  also have "\<dots> \<longleftrightarrow> MalformedLine \<notin> read_line ` set (l # ls) \<and>
     (let fs = ini_fields sect (map read_line (l # ls)) in
      list_all field_accepted fs \<and> distinct (map (fst \<circ> snd) fs) \<and> (\<forall>f \<in> set fs. fst (snd f) \<notin> seen))"
    unfolding Cons.IH gate_line_Inr Let_def
    by (cases "read_line l") (auto simp: image_iff)
  finally show ?case .
qed (simp add: Let_def)

text \<open>C34. The gate accepts a configuration exactly when every line is a comment, a section header or
  a field; every field is known, stands in its own section or in \<open>[Install]\<close>, and has a value of its
  type; and no key occurs twice, not even in different sections. Fields that are absent are never
  asked for.\<close>

theorem install_gate_exact:
  "validate_install_handoff_ini content = Inr () \<longleftrightarrow>
     (let ls = map read_line (str_lines content); fs = ini_fields [] ls in
      MalformedLine \<notin> set ls \<and> list_all field_accepted fs \<and> distinct (map (fst \<circ> snd) fs))"
  using gate_lines_Inr [of "[]" "{}" 0 "str_lines content"]
  by (auto simp: validate_install_handoff_ini_def res_simps Let_def)

text \<open>A marker file matches a token when the token is canonical and the file is nothing but the token.\<close>

lemma locator_marker_matches_iff:
  "locator_marker_matches bs token \<longleftrightarrow> length token = 64 \<and> list_all is_lower_hex token \<and> bs = token"
  by (auto simp: locator_marker_matches_def locator_marker_bytes_def validate_locator_token_def ensure_def)

lemma hexdigit_printable: "is_hexdigit c \<Longrightarrow> printable c"
  by (auto simp: is_hexdigit_def is_lower_hex_def is_digit_def printable_def)

lemma decode_hex_gate: "length v = n * 2 \<Longrightarrow> list_all is_hexdigit v \<Longrightarrow> decode_hex_array n v field = Inr (hex_pairs v)"
  using trim_printable [of v] by (simp add: decode_hex_array_def list_all_iff hexdigit_printable)

text \<open>The gate is strong enough for the decoder of the target partition. When each of the canonical
  fields has passed the gate on its own, decoding them together fails for no other reason than the
  three that concern the group: a version other than 2, an empty partition, or a GPT identifier that is
  present on an MBR disk or missing on a GPT disk.\<close>

theorem gated_target_decodes:
  assumes "validate_value k1 digest (HexValue 32) = Inr ()" "validate_value k2 device (HexValue 32) = Inr ()"
    and "validate_value k3 style CanonicalStyleValue = Inr ()"
    and "validate_value k4 gpt CanonicalGptIdValue = Inr ()"
  shows "is_ok (canonical_target_from_fields (Some version) (Some digest) (Some off) (Some len) (Some style)
      (Some gpt) (Some device)) \<longleftrightarrow>
    version = 2 \<and> len \<noteq> 0 \<and> (gpt = ''none'' \<longleftrightarrow> style_parse style = Inr MbrStyle)"
proof -
  obtain st where st: "style_parse style = Inr st" using assms(3) by (auto simp: res_simps)
  have gpt: "gpt = ''none'' \<or> gpt \<noteq> ''none'' \<and> length gpt = 16 * 2 \<and> list_all is_hexdigit gpt"
    using assms(4) by (auto simp: ensure_Inr_iff)
  have none: "\<not> is_ok (decode_hex_array 16 ''none'' ''CanonicalGptPartitionId'')"
    using trim_printable [of "''none''"] by (simp add: decode_hex_array_def printable_def)
  have "decode_hex_array 32 digest f = Inr (hex_pairs digest)" "decode_hex_array 32 device f = Inr (hex_pairs device)" for f
    using assms(1,2) by (auto simp: ensure_Inr_iff decode_hex_gate)
  then show ?thesis
    using st gpt none
    by (cases st; cases "decode_hex_array 16 ''none'' ''CanonicalGptPartitionId''")
      (auto simp: canonical_target_from_fields_def CANONICAL_TARGET_VERSION_def decode_hex_gate)
qed

theorem gated_target_decodes_witness:
  "is_ok (canonical_target_from_fields (Some 2) (Some (replicate 64 (CHR ''a''))) (Some 1048576)
     (Some 4096) (Some ''MBR'') (Some ''none'') (Some (replicate 64 (CHR ''b''))))"
  using gated_target_decodes [of "''CanonicalDiskLayoutSha256''" "replicate 64 (CHR ''a'')"
      "''CanonicalStorageIdSha256''" "replicate 64 (CHR ''b'')" "''CanonicalDiskStyle''" "''MBR''"
      "''CanonicalGptPartitionId''" "''none''" 2 1048576 4096] trim_printable [of "''MBR''"]
  by (simp add: list_all_iff is_hexdigit_def is_lower_hex_def style_parse_def printable_def)

end
