(* ===== verification/Manifest.thy ===== *)
theory Manifest
  imports DiskIdentity
begin

section \<open>The handoff manifest\<close>

text \<open>
  \<open>lr-core/src/handoff_manifest.rs\<close>: the strict, canonical list of files and of the
  partition-cleanup authority that a cross-reboot task carries. Case-insensitive path comparison is
  a Windows call (\<open>CompareStringOrdinal\<close>), the parameter \<open>same_path\<close>, which may also fail;
  SHA-256 is \<open>sha\<close>. The text is written line by line as in the code; the parser consumes an
  iterator of lines, here the list of the lines that are left.
\<close>

subsection \<open>Roles and locations\<close>

datatype artifact_role =
  InstallImageSpan | InstallImageChunk | XpSourceFile | CustomUnattend | XpAnswer | PreservedDriver
| UserDriver | StorageControllerDriver | DeployScript | FirstLoginScript | RegistryImport | CustomFile
| PcaPackage | UefiSevenFile | UpdatePackage | Win7DriverPackage | PreinstalledSoftware
| AutoPartitionMarker | ProtectedAdministratorSecret | ProtectedBitLockerSecret | BackupBaseImage

text \<open>The roles in the order of their declaration, which is the derived order of the enum.\<close>

definition all_roles :: "artifact_role list" where
  "all_roles =
     [InstallImageSpan, InstallImageChunk, XpSourceFile, CustomUnattend, XpAnswer, PreservedDriver,
      UserDriver, StorageControllerDriver, DeployScript, FirstLoginScript, RegistryImport, CustomFile,
      PcaPackage, UefiSevenFile, UpdatePackage, Win7DriverPackage, PreinstalledSoftware,
      AutoPartitionMarker, ProtectedAdministratorSecret, ProtectedBitLockerSecret, BackupBaseImage]"

fun role_as_str :: "artifact_role \<Rightarrow> string" where
  "role_as_str InstallImageSpan = ''install_image_span''"
| "role_as_str InstallImageChunk = ''install_image_chunk''"
| "role_as_str XpSourceFile = ''xp_source_file''"
| "role_as_str CustomUnattend = ''custom_unattend''"
| "role_as_str XpAnswer = ''xp_answer''"
| "role_as_str PreservedDriver = ''preserved_driver''"
| "role_as_str UserDriver = ''user_driver''"
| "role_as_str StorageControllerDriver = ''storage_controller_driver''"
| "role_as_str DeployScript = ''deploy_script''"
| "role_as_str FirstLoginScript = ''first_login_script''"
| "role_as_str RegistryImport = ''registry_import''"
| "role_as_str CustomFile = ''custom_file''"
| "role_as_str PcaPackage = ''pca_package''"
| "role_as_str UefiSevenFile = ''uefiseven_file''"
| "role_as_str UpdatePackage = ''update_package''"
| "role_as_str Win7DriverPackage = ''win7_driver_package''"
| "role_as_str PreinstalledSoftware = ''preinstalled_software''"
| "role_as_str AutoPartitionMarker = ''auto_partition_marker''"
| "role_as_str ProtectedAdministratorSecret = ''protected_administrator_secret''"
| "role_as_str ProtectedBitLockerSecret = ''protected_bitlocker_secret''"
| "role_as_str BackupBaseImage = ''backup_base_image''"

definition role_parse :: "string \<Rightarrow> string + artifact_role" where
  "role_parse v =
     (if v = ''install_image_span'' then Inr InstallImageSpan
      else if v = ''install_image_chunk'' then Inr InstallImageChunk
      else if v = ''xp_source_file'' then Inr XpSourceFile
      else if v = ''custom_unattend'' then Inr CustomUnattend
      else if v = ''xp_answer'' then Inr XpAnswer
      else if v = ''preserved_driver'' then Inr PreservedDriver
      else if v = ''user_driver'' then Inr UserDriver
      else if v = ''storage_controller_driver'' then Inr StorageControllerDriver
      else if v = ''deploy_script'' then Inr DeployScript
      else if v = ''first_login_script'' then Inr FirstLoginScript
      else if v = ''registry_import'' then Inr RegistryImport
      else if v = ''custom_file'' then Inr CustomFile
      else if v = ''pca_package'' then Inr PcaPackage
      else if v = ''uefiseven_file'' then Inr UefiSevenFile
      else if v = ''update_package'' then Inr UpdatePackage
      else if v = ''win7_driver_package'' then Inr Win7DriverPackage
      else if v = ''preinstalled_software'' then Inr PreinstalledSoftware
      else if v = ''auto_partition_marker'' then Inr AutoPartitionMarker
      else if v = ''protected_administrator_secret'' then Inr ProtectedAdministratorSecret
      else if v = ''protected_bitlocker_secret'' then Inr ProtectedBitLockerSecret
      else if v = ''backup_base_image'' then Inr BackupBaseImage
      else Inl ''unknown handoff artifact role'')"

definition requires_protected_boot :: "artifact_role \<Rightarrow> bool" where
  "requires_protected_boot r \<longleftrightarrow>
     r \<in> {CustomUnattend, XpAnswer, DeployScript, FirstLoginScript, RegistryImport, CustomFile,
          ProtectedAdministratorSecret, ProtectedBitLockerSecret}"

definition requires_nonempty_payload :: "artifact_role \<Rightarrow> bool" where
  "requires_nonempty_payload r \<longleftrightarrow>
     r \<in> {InstallImageSpan, InstallImageChunk, PcaPackage, AutoPartitionMarker,
          ProtectedAdministratorSecret, ProtectedBitLockerSecret}"

datatype artifact_location = PublicData | ProtectedBoot

fun location_as_str :: "artifact_location \<Rightarrow> string" where
  "location_as_str PublicData = ''public_data''"
| "location_as_str ProtectedBoot = ''protected_boot''"

definition location_parse :: "string \<Rightarrow> string + artifact_location" where
  "location_parse v =
     (if v = ''public_data'' then Inr PublicData
      else if v = ''protected_boot'' then Inr ProtectedBoot
      else Inl ''unknown handoff artifact location'')"

subsection \<open>Artifacts\<close>

definition HANDOFF_MANIFEST_MAGIC :: string where "HANDOFF_MANIFEST_MAGIC = ''LRHM3''"
definition HANDOFF_MANIFEST_MAX_BYTES :: nat where "HANDOFF_MANIFEST_MAX_BYTES = 4194304"
definition HANDOFF_MANIFEST_MAX_ARTIFACTS :: nat where "HANDOFF_MANIFEST_MAX_ARTIFACTS = 4096"
definition HANDOFF_ARTIFACT_MAX_PATH_BYTES :: nat where "HANDOFF_ARTIFACT_MAX_PATH_BYTES = 4096"
definition HANDOFF_ARTIFACT_MAX_BYTES :: u64 where "HANDOFF_ARTIFACT_MAX_BYTES = 4398046511104"

record artifact =
  art_role :: artifact_role
  art_location :: artifact_location
  art_ordinal :: u32
  art_path :: string
  art_length :: u64
  art_sha256 :: bytes

abbreviation BACKSLASH :: char where "BACKSLASH \<equiv> CHR 0x5C"

definition is_reserved_numbered_device :: "string \<Rightarrow> bool" where
  "is_reserved_numbered_device v \<longleftrightarrow>
     or_else (strip_prefix ''COM'' v) (strip_prefix ''LPT'' v) \<in>
       Some ` {''1'', ''2'', ''3'', ''4'', ''5'', ''6'', ''7'', ''8'', ''9'',
               [CHR 0xC2, CHR 0xB9], [CHR 0xC2, CHR 0xB2], [CHR 0xC2, CHR 0xB3]}"

definition validate_component :: "string \<Rightarrow> string + unit" where
  "validate_component part =
     (if part = [] \<or> part \<in> {''.'', ''..''} \<or> ends_with_any [CHR ''.'', CHR '' ''] part then
        Inl ''handoff artifact path contains an unsafe component''
      else if list_ex (\<lambda>c. byte c \<le> 0x1f \<or>
          c \<in> {CHR ''<'', CHR ''>'', CHR '':'', CHR 0x22, CHR ''|'', CHR ''?'', CHR ''*''}) part then
        Inl ''handoff artifact path contains an invalid Windows character''
      else
        (let upper = map to_upper (hd (split_on (CHR ''.'') part)) in
         if upper \<in> {''CON'', ''PRN'', ''AUX'', ''NUL'', ''CONIN$'', ''CONOUT$''} \<or>
             is_reserved_numbered_device upper
         then Inl ''handoff artifact path contains a reserved DOS device name''
         else Inr ()))"

definition validate_relative_path :: "string \<Rightarrow> string + unit" where
  "validate_relative_path v =
     (if v = [] \<or> HANDOFF_ARTIFACT_MAX_PATH_BYTES < length v \<or>
         starts_with_any [BACKSLASH, CHR ''/''] v \<or> CHR ''/'' \<in> set v then
        Inl ''handoff artifact path is not a bounded Windows relative path''
      else try_fold (\<lambda>_. validate_component) () (split_on BACKSLASH v))"

definition validate_artifact :: "artifact \<Rightarrow> string + unit" where
  "validate_artifact a =
     and_then (validate_relative_path (art_path a)) (\<lambda>_.
     and_then (ensure (\<not> (art_length a = 0 \<and> requires_nonempty_payload (art_role a)))
       ''handoff artifact role requires a nonempty payload'') (\<lambda>_.
     and_then (ensure (\<not> HANDOFF_ARTIFACT_MAX_BYTES < art_length a)
       ''handoff artifact length is outside its limit'') (\<lambda>_.
     and_then (ensure (art_sha256 a \<noteq> replicate 32 NUL)
       ''handoff artifact SHA-256 must not be all-zero'') (\<lambda>_.
     ensure (\<not> (requires_protected_boot (art_role a) \<and> art_location a \<noteq> ProtectedBoot))
       ''secret-bearing handoff artifact must be in the protected boot payload''))))"

text \<open>The key that orders the artifacts: role, ordinal, location, path.\<close>

definition role_index :: "artifact_role \<Rightarrow> nat" where
  "role_index r = the (position (\<lambda>x. x = r) all_roles)"

fun location_index :: "artifact_location \<Rightarrow> nat" where
  "location_index PublicData = 0"
| "location_index ProtectedBoot = 1"

definition artifact_key :: "artifact \<Rightarrow> nat \<times> nat \<times> nat \<times> nat list" where
  "artifact_key a =
     (role_index (art_role a), unat (art_ordinal a), location_index (art_location a),
      map byte (art_path a))"

subsection \<open>The authority to delete a staging partition\<close>

record auto_staging =
  stg_source :: canonical_target
  stg_temporary :: canonical_target
  stg_length_before :: u64

definition validate_extent :: "canonical_target \<Rightarrow> string \<Rightarrow> string + unit" where
  "validate_extent t label =
     (if ct_layout_digest t = replicate 32 NUL \<or> ct_length t = 0 then
        Inl (''canonical '' @ label @ '' extent is incomplete'')
      else if ct_style t = GptStyle \<and> ct_gpt_id t = None then
        Inl (''canonical GPT '' @ label @ '' extent has no partition identifier'')
      else if ct_style t = MbrStyle \<and> ct_gpt_id t \<noteq> None then
        Inl (''canonical MBR '' @ label @ '' extent unexpectedly has a GPT identifier'')
      else Inr ())"

definition reclaim_length_bytes :: "auto_staging \<Rightarrow> string + u64" where
  "reclaim_length_bytes s =
     and_then (validate_extent (stg_source s) ''source'') (\<lambda>_.
     and_then (validate_extent (stg_temporary s) ''temporary'') (\<lambda>_.
     and_then (ensure (ct_layout_digest (stg_source s) = ct_layout_digest (stg_temporary s))
       ''automatic staging extents must belong to the same canonical disk layout'') (\<lambda>_.
     and_then (ensure (ct_device_id_hash (stg_source s) = ct_device_id_hash (stg_temporary s))
       ''automatic staging extents do not share the same captured storage identity'') (\<lambda>_.
     and_then (ok_or (checked_add (ct_offset (stg_source s)) (ct_length (stg_source s)))
       ''automatic staging source extent end overflows'') (\<lambda>source_end.
     and_then (ensure (\<not> ct_offset (stg_temporary s) < source_end)
       ''automatic staging extent overlaps or precedes the source extent'') (\<lambda>_.
     and_then (ok_or (checked_add (ct_offset (stg_temporary s)) (ct_length (stg_temporary s)))
       ''automatic staging temporary extent end overflows'') (\<lambda>temporary_end.
     and_then (ok_or (checked_add (ct_offset (stg_source s)) (stg_length_before s))
       ''automatic staging original source extent end overflows'') (\<lambda>original_source_end.
     and_then (ensure (\<not> stg_length_before s \<le> ct_length (stg_source s))
       ''automatic staging original source length must exceed its post-shrink length'') (\<lambda>_.
     and_then (ensure (\<not> original_source_end < temporary_end)
       ''automatic staging extent exceeds the authenticated original source boundary'') (\<lambda>_.
     ok_or (checked_sub (stg_length_before s) (ct_length (stg_source s)))
       ''automatic staging reclaim length underflows''))))))))))"

subsection \<open>Validation of a manifest\<close>

record manifest =
  mf_purpose :: handoff_purpose
  mf_session :: string
  mf_data_token :: string
  mf_target_token :: "string option"
  mf_staging :: "auto_staging option"
  mf_artifacts :: "artifact list"

definition records_of :: "artifact_role \<Rightarrow> artifact list \<Rightarrow> artifact list" where
  "records_of r arts = filter (\<lambda>a. art_role a = r) arts"

definition role_allowed :: "handoff_purpose \<Rightarrow> artifact_role \<Rightarrow> bool" where
  "role_allowed p r = (case p of
     Install \<Rightarrow> r \<noteq> BackupBaseImage
   | Backup \<Rightarrow> r \<in> {BackupBaseImage, ProtectedBitLockerSecret}
   | Expand \<Rightarrow> False
   | Maintenance \<Rightarrow> r = ProtectedBitLockerSecret)"

definition singleton_role :: "artifact_role \<Rightarrow> bool" where
  "singleton_role r \<longleftrightarrow>
     r \<in> {CustomUnattend, XpAnswer, DeployScript, FirstLoginScript, RegistryImport,
          AutoPartitionMarker, ProtectedAdministratorSecret, ProtectedBitLockerSecret, BackupBaseImage}"

definition validate_role :: "handoff_purpose \<Rightarrow> artifact list \<Rightarrow> artifact_role \<Rightarrow> string + unit" where
  "validate_role p arts r =
     (let records = records_of r arts in
      if records = [] then Inr ()
      else
        and_then (ensure (role_allowed p r)
          ''handoff artifact role is not allowed for this operation purpose'') (\<lambda>_.
        and_then (ensure (map art_ordinal records = map of_nat [0..<length records])
          ''handoff artifact ordinals must be unique and contiguous from zero per role'') (\<lambda>_.
        ensure (\<not> (singleton_role r \<and> length records \<noteq> 1))
          ''singleton handoff artifact role appears more than once'')))"

definition validate_role_matrix :: "handoff_purpose \<Rightarrow> bool \<Rightarrow> artifact list \<Rightarrow> string + unit" where
  "validate_role_matrix p has_staging arts =
     and_then (try_fold (\<lambda>_. validate_role p arts) () all_roles) (\<lambda>_.
     let markers = records_of AutoPartitionMarker arts in
     and_then (ensure (has_staging = (length markers = 1))
       ''automatic staging authorization and marker artifact must be present together'') (\<lambda>_.
     and_then (ensure (\<not> (markers \<noteq> [] \<and>
         (art_location (hd markers) \<noteq> PublicData \<or> art_ordinal (hd markers) \<noteq> 0)))
       ''automatic staging marker must be the sole ordinal-zero public artifact'') (\<lambda>_.
     let span_count = length (records_of InstallImageSpan arts);
         chunk_count = length (records_of InstallImageChunk arts);
         image_count = span_count + chunk_count;
         xp_count = length (records_of XpSourceFile arts)
     in
     and_then (if p = Install then
         and_then (ensure (\<not> (span_count \<noteq> 0 \<and> chunk_count \<noteq> 0))
           ''installation handoff cannot mix image spans with raw image chunks'') (\<lambda>_.
         and_then (ensure (\<not> (image_count = 0 \<and> xp_count = 0))
           ''installation handoff manifest has no authenticated image or XP source files'') (\<lambda>_.
         ensure (\<not> (image_count \<noteq> 0 \<and> xp_count \<noteq> 0))
           ''installation handoff cannot mix image spans with an XP source tree''))
       else Inr ()) (\<lambda>_.
     ensure (\<not> 1 < length (records_of ProtectedBitLockerSecret arts))
       ''handoff has more than one protected BitLocker secret artifact''))))"

text \<open>One pass of the loop over the artifacts: the running total, the paths seen, the last key.\<close>

type_synonym artifact_scan = "u64 \<times> (artifact_location \<times> string) list \<times> (nat \<times> nat \<times> nat \<times> nat list) option"

definition scan_artifact ::
  "(string \<Rightarrow> string \<Rightarrow> string + bool) \<Rightarrow> artifact_scan \<Rightarrow> artifact \<Rightarrow> string + artifact_scan" where
  "scan_artifact same_path acc a = (case acc of (total_bytes, paths, previous) \<Rightarrow>
     and_then (validate_artifact a) (\<lambda>_.
     and_then (ok_or (checked_add total_bytes (art_length a)) ''handoff artifact total length overflow'') (\<lambda>t.
     and_then (ensure (\<not> HANDOFF_ARTIFACT_MAX_BYTES < t)
       ''handoff artifact total length exceeds its limit'') (\<lambda>_.
     and_then (ensure (case previous of None \<Rightarrow> True | Some k \<Rightarrow> k < artifact_key a)
       ''handoff artifacts are not in strict canonical order'') (\<lambda>_.
     and_then (try_fold (\<lambda>_ (loc, path).
         if loc = art_location a then
           and_then (same_path path (art_path a)) (\<lambda>eq.
           ensure (\<not> eq) ''handoff manifest contains a duplicate case-insensitive path'')
         else Inr ()) () paths) (\<lambda>_.
     Inr (t, paths @ [(art_location a, art_path a)], Some (artifact_key a))))))))"

definition validate_target_token :: "handoff_purpose \<Rightarrow> string \<Rightarrow> string option \<Rightarrow> string + unit" where
  "validate_target_token p data_token target_token = (case target_token of
     Some token \<Rightarrow>
       (if p = Install then
          and_then (validate_locator_token token) (\<lambda>_.
          ensure (token \<noteq> data_token)
            ''installation data and target locator tokens must be independent'')
        else Inl ''only installation handoffs may carry a target locator token'')
   | None \<Rightarrow>
       (if p = Install then Inl ''installation handoff has no target locator token'' else Inr ()))"

definition manifest_validate :: "(string \<Rightarrow> string \<Rightarrow> string + bool) \<Rightarrow> manifest \<Rightarrow> string + unit" where
  "manifest_validate same_path m =
     and_then (validate_session_id (mf_session m)) (\<lambda>_.
     and_then (validate_locator_token (mf_data_token m)) (\<lambda>_.
     and_then (validate_target_token (mf_purpose m) (mf_data_token m) (mf_target_token m)) (\<lambda>_.
     and_then (ensure (\<not> HANDOFF_MANIFEST_MAX_ARTIFACTS < length (mf_artifacts m))
       ''handoff manifest contains too many artifacts'') (\<lambda>_.
     and_then (case mf_staging m of None \<Rightarrow> Inr () | Some s \<Rightarrow>
         and_then (ensure (mf_purpose m = Install)
           ''automatic staging deletion is valid only for installation handoffs'') (\<lambda>_.
         and_then (reclaim_length_bytes s) (\<lambda>_. Inr ()))) (\<lambda>_.
     and_then (try_fold (scan_artifact same_path) (0, [], None) (mf_artifacts m)) (\<lambda>_.
     validate_role_matrix (mf_purpose m) (mf_staging m \<noteq> None) (mf_artifacts m)))))))"

definition manifest_new ::
  "(string \<Rightarrow> string \<Rightarrow> string + bool) \<Rightarrow> handoff_purpose \<Rightarrow> string \<Rightarrow> string \<Rightarrow> string option \<Rightarrow>
    auto_staging option \<Rightarrow> artifact list \<Rightarrow> string + manifest" where
  "manifest_new same_path p session data_token target_token staging arts =
     (let m = \<lparr>mf_purpose = p, mf_session = session, mf_data_token = data_token,
               mf_target_token = target_token, mf_staging = staging,
               mf_artifacts = sort_key artifact_key arts\<rparr>
      in and_then (manifest_validate same_path m) (\<lambda>_. Inr m))"

subsection \<open>Writing\<close>

definition push_line :: "string \<Rightarrow> string \<Rightarrow> string \<Rightarrow> string + string" where
  "push_line text name v =
     (if name = [] \<or> contains_any [CR, LF, CHR ''=''] name \<or> contains_any [CR, LF] v \<or> v = [] then
        Inl ''handoff manifest field contains an invalid character''
      else Inr (text @ name @ ''='' @ v @ CRLF))"

definition push_lines :: "string \<Rightarrow> (string \<times> string) list \<Rightarrow> string + string" where
  "push_lines text fs = try_fold (\<lambda>t (name, v). push_line t name v) text fs"

definition show_u64 :: "u64 \<Rightarrow> string" where
  "show_u64 n = show_nat (unat n)"

definition hex_or_none :: "bytes option \<Rightarrow> string" where
  "hex_or_none b = (case b of None \<Rightarrow> ''none'' | Some v \<Rightarrow> encode_hex v)"

definition extent_fields :: "string \<Rightarrow> canonical_target \<Rightarrow> (string \<times> string) list" where
  "extent_fields prefix t =
     [(prefix @ ''.LayoutSha256'', encode_hex (ct_layout_digest t)),
      (prefix @ ''.StorageIdSha256'', hex_or_none (ct_device_id_hash t)),
      (prefix @ ''.Offset'', show_u64 (ct_offset t)),
      (prefix @ ''.Length'', show_u64 (ct_length t)),
      (prefix @ ''.Style'', style_as_str (ct_style t)),
      (prefix @ ''.GptPartitionId'', hex_or_none (ct_gpt_id t))]"

definition push_extent :: "string \<Rightarrow> string \<Rightarrow> canonical_target \<Rightarrow> string + string" where
  "push_extent text prefix t =
     and_then (validate_extent t prefix) (\<lambda>_. push_lines text (extent_fields prefix t))"

definition header_fields :: "manifest \<Rightarrow> (string \<times> string) list" where
  "header_fields m =
     [(''Purpose'', purpose_as_str (mf_purpose m)),
      (''SessionId'', mf_session m),
      (''DataLocatorToken'', mf_data_token m),
      (''InstallTargetToken'', case mf_target_token m of None \<Rightarrow> ''none'' | Some t \<Rightarrow> t),
      (''AutoStagingPresent'', if mf_staging m \<noteq> None then ''true'' else ''false'')]"

definition artifact_prefix :: "nat \<Rightarrow> string" where
  "artifact_prefix index = ''Artifact'' @ pad_left 4 (show_nat index)"

definition artifact_fields :: "nat \<Rightarrow> artifact \<Rightarrow> (string \<times> string) list" where
  "artifact_fields index a =
     (let prefix = artifact_prefix index in
      [(prefix @ ''.Role'', role_as_str (art_role a)),
       (prefix @ ''.Location'', location_as_str (art_location a)),
       (prefix @ ''.Ordinal'', show_nat (unat (art_ordinal a))),
       (prefix @ ''.PathUtf8Hex'', encode_hex (art_path a)),
       (prefix @ ''.Length'', show_u64 (art_length a)),
       (prefix @ ''.Sha256'', encode_hex (art_sha256 a))])"

definition manifest_to_bytes ::
  "(string \<Rightarrow> string \<Rightarrow> string + bool) \<Rightarrow> manifest \<Rightarrow> string + bytes" where
  "manifest_to_bytes same_path m =
     and_then (manifest_validate same_path m) (\<lambda>_.
     and_then (push_lines (HANDOFF_MANIFEST_MAGIC @ CRLF) (header_fields m)) (\<lambda>text.
     and_then (case mf_staging m of None \<Rightarrow> Inr text | Some s \<Rightarrow>
         and_then (push_extent text ''Source'' (stg_source s)) (\<lambda>text.
         and_then (push_extent text ''Temporary'' (stg_temporary s)) (\<lambda>text.
         push_line text ''SourceLengthBeforeBytes'' (show_u64 (stg_length_before s))))) (\<lambda>text.
     and_then (push_line text ''ArtifactCount'' (show_nat (length (mf_artifacts m)))) (\<lambda>text.
     and_then (try_fold (\<lambda>t (i, a). push_lines t (artifact_fields i a)) text
         (List.enumerate 0 (mf_artifacts m))) (\<lambda>text.
     and_then (ensure (\<not> HANDOFF_MANIFEST_MAX_BYTES < length text)
       ''handoff manifest exceeds its byte limit'') (\<lambda>_.
     Inr text))))))"

subsection \<open>Parsing\<close>

definition exact_line :: "string \<Rightarrow> string list \<Rightarrow> string + (string \<times> string list)" where
  "exact_line name ls =
     and_then (ok_or (case ls of [] \<Rightarrow> None | l # _ \<Rightarrow> strip_prefix (name @ ''='') l)
       (''handoff manifest is missing or reordered at '' @ name)) (\<lambda>v. Inr (v, tl ls))"

definition parse_canonical_u64 :: "string \<Rightarrow> string \<Rightarrow> string + u64" where
  "parse_canonical_u64 v label =
     (if v = [] \<or> (1 < length v \<and> hd v = CHR ''0'') \<or> \<not> list_all is_digit v then
        Inl (label @ '' is not a canonical unsigned integer'')
      else and_then (ok_or (parse_uint (2 ^ 64) v) (label @ '' is outside u64'')) (\<lambda>n. Inr (of_nat n)))"

definition hex_option :: "nat \<Rightarrow> string \<Rightarrow> string \<Rightarrow> string + bytes option" where
  "hex_option n v field =
     (if v = ''none'' then Inr None else and_then (decode_hex_array n v field) (\<lambda>b. Inr (Some b)))"

definition parse_extent :: "string \<Rightarrow> string list \<Rightarrow> string + (canonical_target \<times> string list)" where
  "parse_extent prefix ls =
     and_then (exact_line (prefix @ ''.LayoutSha256'') ls) (\<lambda>(v, ls).
     and_then (decode_hex_array 32 v ''layout SHA-256'') (\<lambda>layout.
     and_then (exact_line (prefix @ ''.StorageIdSha256'') ls) (\<lambda>(v, ls).
     and_then (hex_option 32 v ''storage ID SHA-256'') (\<lambda>device.
     and_then (exact_line (prefix @ ''.Offset'') ls) (\<lambda>(v, ls).
     and_then (parse_canonical_u64 v ''extent offset'') (\<lambda>off.
     and_then (exact_line (prefix @ ''.Length'') ls) (\<lambda>(v, ls).
     and_then (parse_canonical_u64 v ''extent length'') (\<lambda>len.
     and_then (exact_line (prefix @ ''.Style'') ls) (\<lambda>(v, ls).
     and_then (style_parse v) (\<lambda>style.
     and_then (exact_line (prefix @ ''.GptPartitionId'') ls) (\<lambda>(v, ls).
     and_then (hex_option 16 v ''GPT partition identifier'') (\<lambda>gpt.
     Inr (\<lparr>ct_layout_digest = layout, ct_device_id_hash = device, ct_offset = off, ct_length = len,
           ct_style = style, ct_gpt_id = gpt\<rparr>, ls)))))))))))))"

definition decode_path_hex :: "string \<Rightarrow> string + string" where
  "decode_path_hex h =
     and_then (ensure (\<not> (HANDOFF_ARTIFACT_MAX_PATH_BYTES * 2 < length h \<or> odd (length h) \<or>
         \<not> list_all is_hexdigit h)) ''artifact path hex is invalid'') (\<lambda>_.
     and_then (ensure (list_all is_lower_hex h) ''hexadecimal value is not canonical lowercase'') (\<lambda>_.
     and_then (ensure (utf8_valid (hex_pairs h)) ''artifact path is not UTF-8'') (\<lambda>_.
     Inr (hex_pairs h))))"

definition parse_artifact :: "nat \<Rightarrow> string list \<Rightarrow> string + (artifact \<times> string list)" where
  "parse_artifact index ls =
     (let prefix = artifact_prefix index in
      and_then (exact_line (prefix @ ''.Role'') ls) (\<lambda>(v, ls).
      and_then (role_parse v) (\<lambda>role.
      and_then (exact_line (prefix @ ''.Location'') ls) (\<lambda>(v, ls).
      and_then (location_parse v) (\<lambda>location.
      and_then (exact_line (prefix @ ''.Ordinal'') ls) (\<lambda>(v, ls).
      and_then (parse_canonical_u64 v ''artifact ordinal'') (\<lambda>ordinal.
      and_then (ensure (unat ordinal < 2 ^ 32) ''artifact ordinal exceeds u32'') (\<lambda>_.
      and_then (exact_line (prefix @ ''.PathUtf8Hex'') ls) (\<lambda>(v, ls).
      and_then (decode_path_hex v) (\<lambda>path.
      and_then (exact_line (prefix @ ''.Length'') ls) (\<lambda>(v, ls).
      and_then (parse_canonical_u64 v ''artifact length'') (\<lambda>len.
      and_then (exact_line (prefix @ ''.Sha256'') ls) (\<lambda>(v, ls).
      and_then (decode_hex_array 32 v ''artifact SHA-256'') (\<lambda>sha256.
      Inr (\<lparr>art_role = role, art_location = location, art_ordinal = ucast ordinal, art_path = path,
            art_length = len, art_sha256 = sha256\<rparr>, ls)))))))))))))))"

fun parse_artifacts :: "nat \<Rightarrow> nat \<Rightarrow> string list \<Rightarrow> string + (artifact list \<times> string list)" where
  "parse_artifacts index 0 ls = Inr ([], ls)"
| "parse_artifacts index (Suc n) ls =
     and_then (parse_artifact index ls) (\<lambda>(a, ls).
     and_then (parse_artifacts (Suc index) n ls) (\<lambda>(arts, ls). Inr (a # arts, ls)))"

definition parse_staging :: "string \<Rightarrow> string list \<Rightarrow> string + (auto_staging option \<times> string list)" where
  "parse_staging present ls =
     (if present = ''false'' then Inr (None, ls)
      else if present = ''true'' then
        and_then (parse_extent ''Source'' ls) (\<lambda>(source, ls).
        and_then (parse_extent ''Temporary'' ls) (\<lambda>(temporary, ls).
        and_then (exact_line ''SourceLengthBeforeBytes'' ls) (\<lambda>(v, ls).
        and_then (parse_canonical_u64 v ''SourceLengthBeforeBytes'') (\<lambda>before.
        Inr (Some \<lparr>stg_source = source, stg_temporary = temporary, stg_length_before = before\<rparr>, ls)))))
      else Inl ''invalid AutoStagingPresent value'')"

definition parse_manifest_lines :: "string list \<Rightarrow> string + (manifest \<times> string list)" where
  "parse_manifest_lines ls =
     and_then (exact_line ''Purpose'' ls) (\<lambda>(v, ls).
     and_then (purpose_parse v) (\<lambda>purpose.
     and_then (exact_line ''SessionId'' ls) (\<lambda>(session, ls).
     and_then (exact_line ''DataLocatorToken'' ls) (\<lambda>(data_token, ls).
     and_then (exact_line ''InstallTargetToken'' ls) (\<lambda>(v, ls).
     let target_token = (if v = ''none'' then None else Some v) in
     and_then (exact_line ''AutoStagingPresent'' ls) (\<lambda>(v, ls).
     and_then (parse_staging v ls) (\<lambda>(staging, ls).
     and_then (exact_line ''ArtifactCount'' ls) (\<lambda>(v, ls).
     and_then (parse_canonical_u64 v ''ArtifactCount'') (\<lambda>count.
     and_then (ensure (\<not> HANDOFF_MANIFEST_MAX_ARTIFACTS < unat count)
       ''handoff manifest contains too many artifacts'') (\<lambda>_.
     and_then (parse_artifacts 0 (unat count) ls) (\<lambda>(arts, ls).
     Inr (\<lparr>mf_purpose = purpose, mf_session = session, mf_data_token = data_token,
           mf_target_token = target_token, mf_staging = staging, mf_artifacts = arts\<rparr>, ls))))))))))))"

definition manifest_parse ::
  "(string \<Rightarrow> string \<Rightarrow> string + bool) \<Rightarrow> bytes \<Rightarrow> string + manifest" where
  "manifest_parse same_path bs =
     and_then (ensure (\<not> (bs = [] \<or> HANDOFF_MANIFEST_MAX_BYTES < length bs))
       ''handoff manifest length is outside its limit'') (\<lambda>_.
     and_then (ensure (utf8_valid bs) ''handoff manifest is not UTF-8'') (\<lambda>_.
     and_then (ensure (\<not> (starts_with BOM bs \<or> contains_any [CR, LF] (remove_crlf bs)))
       ''handoff manifest has invalid line endings'') (\<lambda>_.
     let ls = split_crlf bs in
     and_then (ensure (hd ls = HANDOFF_MANIFEST_MAGIC) ''unsupported or legacy handoff manifest'') (\<lambda>_.
     and_then (parse_manifest_lines (tl ls)) (\<lambda>(m, rest).
     and_then (ensure (\<not> list_ex (\<lambda>l. l \<noteq> []) rest) ''handoff manifest has trailing fields'') (\<lambda>_.
     and_then (manifest_validate same_path m) (\<lambda>_.
     and_then (manifest_to_bytes same_path m) (\<lambda>canonical.
     and_then (ensure (canonical = bs) ''handoff manifest is not in canonical byte form'') (\<lambda>_.
     Inr m)))))))))"

subsection \<open>The binding in the authenticated configuration\<close>

record manifest_binding =
  mb_length :: u64
  mb_sha256 :: bytes

definition binding_new ::
  "(bytes \<Rightarrow> bytes) \<Rightarrow> (string \<Rightarrow> string \<Rightarrow> string + bool) \<Rightarrow> bytes \<Rightarrow> string + manifest_binding" where
  "binding_new sha same_path bs =
     and_then (manifest_parse same_path bs) (\<lambda>_.
     Inr \<lparr>mb_length = of_nat (length bs), mb_sha256 = sha bs\<rparr>)"

definition binding_verify ::
  "(bytes \<Rightarrow> bytes) \<Rightarrow> (string \<Rightarrow> string \<Rightarrow> string + bool) \<Rightarrow> manifest_binding \<Rightarrow> bytes \<Rightarrow> string + manifest" where
  "binding_verify sha same_path b bs =
     and_then (ensure (mb_length b = of_nat (length bs))
       ''handoff manifest length does not match authenticated binding'') (\<lambda>_.
     and_then (ensure (sha bs = mb_sha256 b)
       ''handoff manifest SHA-256 does not match authenticated binding'') (\<lambda>_.
     manifest_parse same_path bs))"

definition binding_verify_for ::
  "(bytes \<Rightarrow> bytes) \<Rightarrow> (string \<Rightarrow> string \<Rightarrow> string + bool) \<Rightarrow> manifest_binding \<Rightarrow> bytes \<Rightarrow>
    handoff_purpose \<Rightarrow> string \<Rightarrow> string + manifest" where
  "binding_verify_for sha same_path b bs expected_purpose expected_session =
     and_then (validate_session_id expected_session) (\<lambda>_.
     and_then (binding_verify sha same_path b bs) (\<lambda>m.
     and_then (ensure (\<not> (mf_purpose m \<noteq> expected_purpose \<or> mf_session m \<noteq> expected_session))
       ''handoff manifest purpose/session does not match authenticated config'') (\<lambda>_.
     Inr m)))"

definition binding_from_config_fields :: "string \<Rightarrow> string \<Rightarrow> string \<Rightarrow> string + manifest_binding" where
  "binding_from_config_fields version len sha256 =
     and_then (ensure (version = ''1'') ''unsupported handoff manifest binding version'') (\<lambda>_.
     and_then (parse_canonical_u64 len ''handoff manifest length'') (\<lambda>n.
     and_then (ensure (\<not> (n = 0 \<or> HANDOFF_MANIFEST_MAX_BYTES < unat n))
       ''handoff manifest binding length is outside its limit'') (\<lambda>_.
     and_then (decode_hex_array 32 sha256 ''handoff manifest SHA-256'') (\<lambda>h.
     Inr \<lparr>mb_length = n, mb_sha256 = h\<rparr>))))"

definition binding_to_config_lines :: "manifest_binding \<Rightarrow> string" where
  "binding_to_config_lines b =
     crlf_text [''HandoffManifestVersion=1'', ''HandoffManifestLength='' @ show_u64 (mb_length b),
                ''HandoffManifestSha256='' @ encode_hex (mb_sha256 b)]"

definition fill_slot :: "string \<Rightarrow> string \<Rightarrow> string option \<Rightarrow> string + string option" where
  "fill_slot name line slot = (case strip_prefix (name @ ''='') line of
     None \<Rightarrow> Inr slot
   | Some v \<Rightarrow> (if slot \<noteq> None
       then Inl (''authoritative handoff configuration repeats '' @ name) else Inr (Some v)))"

definition scan_config_line ::
  "string option \<times> string option \<times> string option \<Rightarrow> string \<Rightarrow>
    string + (string option \<times> string option \<times> string option)" where
  "scan_config_line slots raw_line = (case slots of (version, len, sha256) \<Rightarrow>
     (let line = drop_cr raw_line in
      and_then (fill_slot ''HandoffManifestVersion'' line version) (\<lambda>version.
      and_then (fill_slot ''HandoffManifestLength'' line len) (\<lambda>len.
      and_then (fill_slot ''HandoffManifestSha256'' line sha256) (\<lambda>sha256.
      Inr (version, len, sha256))))))"

definition binding_from_config_bytes :: "bytes \<Rightarrow> string + manifest_binding" where
  "binding_from_config_bytes bs =
     and_then (ensure (utf8_valid bs) ''authoritative handoff configuration is not UTF-8'') (\<lambda>_.
     and_then (ensure (\<not> (starts_with BOM bs \<or> NUL \<in> set bs))
       ''authoritative handoff configuration has an invalid encoding prefix'') (\<lambda>_.
     and_then (try_fold scan_config_line (None, None, None) (split_on LF bs)) (\<lambda>(version, len, sha256).
     and_then (ensure (version = Some ''1'')
       ''authoritative handoff configuration has no supported manifest version'') (\<lambda>_.
     and_then (ok_or len ''authoritative handoff configuration is missing manifest length'') (\<lambda>len.
     and_then (parse_canonical_u64 len ''manifest binding length'') (\<lambda>n.
     and_then (ensure (\<not> (n = 0 \<or> HANDOFF_MANIFEST_MAX_BYTES < unat n))
       ''manifest binding length is outside its limit'') (\<lambda>_.
     and_then (ok_or sha256 ''authoritative handoff configuration is missing manifest SHA-256'') (\<lambda>h.
     and_then (ensure (\<not> (length h \<noteq> 64 \<or> \<not> list_all is_lower_hex h))
       ''manifest binding SHA-256 is not canonical lowercase hexadecimal'') (\<lambda>_.
     and_then (decode_hex_array 32 h ''manifest binding SHA-256'') (\<lambda>d.
     Inr \<lparr>mb_length = n, mb_sha256 = d\<rparr>))))))))))"

subsection \<open>Codecs\<close>

interpretation role_codec: text_codec role_as_str role_parse "\<lambda>_. True"
proof
  fix r
  show "role_parse (role_as_str r) = Inr r" by (cases r) (simp_all add: role_parse_def)
  show "list_all printable (role_as_str r)" by (cases r) (simp_all add: printable_def)
qed

interpretation location_codec: text_codec location_as_str location_parse "\<lambda>_. True"
proof
  fix l
  show "location_parse (location_as_str l) = Inr l" by (cases l) (simp_all add: location_parse_def)
  show "list_all printable (location_as_str l)" by (cases l) (simp_all add: printable_def)
qed

interpretation style_codec: text_codec style_as_str style_parse "\<lambda>_. True"
proof
  fix s
  have clean: "list_all printable (style_as_str s)" by (cases s) (simp_all add: printable_def)
  then have "trim (style_as_str s) = style_as_str s" by (rule trim_printable)
  then show "style_parse (style_as_str s) = Inr s" by (cases s) (simp_all add: style_parse_def)
  show "list_all printable (style_as_str s)" by (rule clean)
qed

interpretation u64_codec: text_codec show_u64 "\<lambda>v. parse_canonical_u64 v label" "\<lambda>_. True" for label
proof
  fix n :: u64
  have "unat n < 2 ^ 64" using unat_bound [of n] by simp
  then show "parse_canonical_u64 (show_u64 n) label = Inr n"
    using show_nat_digits [of "unat n"] show_nat_zero_prefix [of "unat n"]
    by (simp add: parse_canonical_u64_def show_u64_def)
  show "list_all printable (show_u64 n)" by (simp add: show_u64_def)
qed

lemma lower_hex_hexdigits: "list_all is_lower_hex s \<Longrightarrow> list_all is_hexdigit s"
  by (auto simp: list_all_iff lower_hex_hexdigit)

interpretation array_codec: text_codec encode_hex "\<lambda>v. decode_hex_array n v field" "\<lambda>bs. length bs = n"
  for n field
  by unfold_locales
    (simp_all add: encode_hex_def decode_hex_array_def hex_bytes_lower lower_hex_hexdigits)

subsection \<open>The lines of a manifest\<close>

definition line_of :: "string \<times> string \<Rightarrow> string" where
  "line_of f = fst f @ ''='' @ snd f"

definition field_ok :: "string \<times> string \<Rightarrow> bool" where
  "field_ok f \<longleftrightarrow> fst f \<noteq> [] \<and> \<not> contains_any [CR, LF, CHR ''=''] (fst f) \<and>
     \<not> contains_any [CR, LF] (snd f) \<and> snd f \<noteq> []"

definition staging_fields :: "auto_staging option \<Rightarrow> (string \<times> string) list" where
  "staging_fields s = (case s of None \<Rightarrow> [] | Some s \<Rightarrow>
     extent_fields ''Source'' (stg_source s) @ extent_fields ''Temporary'' (stg_temporary s) @
     [(''SourceLengthBeforeBytes'', show_u64 (stg_length_before s))])"

fun artifacts_fields :: "nat \<Rightarrow> artifact list \<Rightarrow> (string \<times> string) list" where
  "artifacts_fields i [] = []"
| "artifacts_fields i (a # arts) = artifact_fields i a @ artifacts_fields (Suc i) arts"

definition manifest_fields :: "manifest \<Rightarrow> (string \<times> string) list" where
  "manifest_fields m = header_fields m @ staging_fields (mf_staging m) @
     [(''ArtifactCount'', show_nat (length (mf_artifacts m)))] @ artifacts_fields 0 (mf_artifacts m)"

definition manifest_text :: "manifest \<Rightarrow> string" where
  "manifest_text m = crlf_text (HANDOFF_MANIFEST_MAGIC # map line_of (manifest_fields m))"

lemma push_line_iff: "push_line pre name v = Inr t \<longleftrightarrow>
    field_ok (name, v) \<and> t = pre @ crlf_text [line_of (name, v)]"
  by (auto simp: push_line_def field_ok_def line_of_def)

lemma crlf_text_append: "crlf_text (a @ b) = crlf_text a @ crlf_text b"
  by (simp add: crlf_text_def)

lemma push_lines_iff: "push_lines pre fs = Inr t \<longleftrightarrow>
    list_all field_ok fs \<and> t = pre @ crlf_text (map line_of fs)"
proof (induction fs arbitrary: pre)
  case Nil
  show ?case by (auto simp: push_lines_def)
next
  case (Cons f fs)
  obtain n v where f: "f = (n, v)" by fastforce
  have "push_lines pre (f # fs) = Inr t \<longleftrightarrow> (\<exists>u. push_line pre n v = Inr u \<and> push_lines u fs = Inr t)"
    by (simp add: push_lines_def f res_simps)
  then show ?case using Cons.IH by (auto simp: push_line_iff f)
qed

lemma push_artifacts_iff:
  "try_fold (\<lambda>t (i, a). push_lines t (artifact_fields i a)) pre (List.enumerate n arts) = Inr t \<longleftrightarrow>
     list_all field_ok (artifacts_fields n arts) \<and> t = pre @ crlf_text (map line_of (artifacts_fields n arts))"
  by (induction arts arbitrary: n pre) (auto simp: res_simps push_lines_iff crlf_text_append)

lemma to_bytes_Inr:
  "manifest_to_bytes same m = Inr bs \<longleftrightarrow>
     manifest_validate same m = Inr () \<and>
     (case mf_staging m of None \<Rightarrow> True | Some s \<Rightarrow>
        validate_extent (stg_source s) ''Source'' = Inr () \<and>
        validate_extent (stg_temporary s) ''Temporary'' = Inr ()) \<and>
     list_all field_ok (manifest_fields m) \<and>
     bs = manifest_text m \<and> length bs \<le> HANDOFF_MANIFEST_MAX_BYTES"
  by (cases "mf_staging m")
    (auto simp: manifest_to_bytes_def res_simps push_lines_iff push_extent_def push_line_iff
      push_artifacts_iff manifest_fields_def staging_fields_def manifest_text_def crlf_text_append)

subsection \<open>Parsing what was written\<close>

text \<open>The widths of the byte arrays and the encoding of the paths, which Rust's types guarantee.\<close>

definition target_typed :: "canonical_target \<Rightarrow> bool" where
  "target_typed t \<longleftrightarrow> length (ct_layout_digest t) = 32 \<and>
     pred_option (\<lambda>b. length b = 32) (ct_device_id_hash t) \<and> pred_option (\<lambda>b. length b = 16) (ct_gpt_id t)"

definition artifact_typed :: "artifact \<Rightarrow> bool" where
  "artifact_typed a \<longleftrightarrow> utf8_valid (art_path a) \<and> length (art_sha256 a) = 32"

definition manifest_typed :: "manifest \<Rightarrow> bool" where
  "manifest_typed m \<longleftrightarrow>
     pred_option (\<lambda>s. target_typed (stg_source s) \<and> target_typed (stg_temporary s)) (mf_staging m) \<and>
     list_all artifact_typed (mf_artifacts m)"

lemma exact_line_of [simp]: "exact_line n (line_of (n, v) # ls) = Inr (v, ls)"
  using strip_prefix_append [of "n @ ''=''" v] by (simp add: exact_line_def line_of_def)

lemma hex_option_none [simp]: "hex_option n (hex_or_none None) field = Inr None"
  by (simp add: hex_option_def hex_or_none_def)

lemma hex_option_or_none:
  "pred_option (\<lambda>b. length b = n) b \<Longrightarrow> n \<noteq> 2 \<Longrightarrow> hex_option n (hex_or_none b) field = Inr b"
proof (cases b)
  case (Some x)
  assume "pred_option (\<lambda>b. length b = n) b" "n \<noteq> 2"
  then have "length (encode_hex x) \<noteq> 4" "length x = n" using Some by (auto simp: encode_hex_def)
  then have "encode_hex x \<noteq> ''none''" by auto
  with Some \<open>length x = n\<close> show ?thesis
    using array_codec.parse_print by (simp add: hex_option_def hex_or_none_def)
qed simp

lemma parse_extent_lines:
  "target_typed t \<Longrightarrow> parse_extent p (map line_of (extent_fields p t) @ ls) = Inr (t, ls)"
  by (simp add: parse_extent_def extent_fields_def target_typed_def hex_option_or_none
      array_codec.parse_print style_codec.parse_print u64_codec.parse_print)

lemma show_ordinal: "show_nat (unat (a :: u32)) = show_u64 (ucast a)"
  by (simp add: show_u64_def unat_u32_to_u64)

lemma ucast_u32_back: "(ucast (ucast (a :: u32) :: u64) :: u32) = a"
  by (rule ucast_up_ucast_id) (simp add: is_up)

lemma decode_path_encode:
  "utf8_valid p \<Longrightarrow> length p \<le> HANDOFF_ARTIFACT_MAX_PATH_BYTES \<Longrightarrow> decode_path_hex (encode_hex p) = Inr p"
  by (simp add: decode_path_hex_def encode_hex_def hex_bytes_lower lower_hex_hexdigits)

lemma parse_artifact_lines:
  assumes "artifact_typed a" "length (art_path a) \<le> HANDOFF_ARTIFACT_MAX_PATH_BYTES"
  shows "parse_artifact i (map line_of (artifact_fields i a) @ ls) = Inr (a, ls)"
proof -
  have "unat (ucast (art_ordinal a) :: u64) < 2 ^ 32"
    using unat_bound [of "art_ordinal a"] by (simp add: unat_u32_to_u64)
  then show ?thesis
    using assms
    by (simp add: parse_artifact_def artifact_fields_def Let_def artifact_typed_def decode_path_encode
        role_codec.parse_print location_codec.parse_print u64_codec.parse_print array_codec.parse_print
        show_ordinal ucast_u32_back)
qed

lemma parse_artifacts_lines:
  "list_all (\<lambda>a. artifact_typed a \<and> length (art_path a) \<le> HANDOFF_ARTIFACT_MAX_PATH_BYTES) arts \<Longrightarrow>
     parse_artifacts i (length arts) (map line_of (artifacts_fields i arts) @ ls) = Inr (arts, ls)"
  by (induction arts arbitrary: i) (simp_all add: parse_artifact_lines)

lemma parse_staging_lines:
  assumes "pred_option (\<lambda>s. target_typed (stg_source s) \<and> target_typed (stg_temporary s)) s"
  shows "parse_staging (if s \<noteq> None then ''true'' else ''false'') (map line_of (staging_fields s) @ ls) =
    Inr (s, ls)"
  using assms
  by (cases s) (simp_all add: parse_staging_def staging_fields_def parse_extent_lines u64_codec.parse_print)

lemma parse_manifest_fields:
  assumes "manifest_typed m" "list_all (\<lambda>a. length (art_path a) \<le> HANDOFF_ARTIFACT_MAX_PATH_BYTES) (mf_artifacts m)"
    and "mf_target_token m \<noteq> Some ''none''" "length (mf_artifacts m) \<le> HANDOFF_MANIFEST_MAX_ARTIFACTS"
  shows "parse_manifest_lines (map line_of (manifest_fields m) @ ls) = Inr (m, ls)"
proof -
  have arts: "list_all (\<lambda>a. artifact_typed a \<and> length (art_path a) \<le> HANDOFF_ARTIFACT_MAX_PATH_BYTES) (mf_artifacts m)"
    using assms(1,2) by (simp add: manifest_typed_def list_all_iff)
  have n: "unat (of_nat (length (mf_artifacts m)) :: u64) = length (mf_artifacts m)"
    using assms(4) by (intro unat_of_nat_word) (simp add: HANDOFF_MANIFEST_MAX_ARTIFACTS_def)
  have count: "parse_canonical_u64 (show_nat (length (mf_artifacts m))) label =
      Inr (of_nat (length (mf_artifacts m)))" for label
    using u64_codec.parse_print [of "of_nat (length (mf_artifacts m))"] by (simp add: show_u64_def n)
  have token: "(if (case mf_target_token m of None \<Rightarrow> ''none'' | Some t \<Rightarrow> t) = ''none'' then None
      else Some (case mf_target_token m of None \<Rightarrow> ''none'' | Some t \<Rightarrow> t)) = mf_target_token m"
    using assms(3) by (cases "mf_target_token m") auto
  show ?thesis
    using assms(1,4) parse_artifacts_lines [OF arts] parse_staging_lines [of "mf_staging m"]
    unfolding parse_manifest_lines_def manifest_fields_def header_fields_def
    by (simp add: purpose_codec.parse_print count n manifest_typed_def Let_def token)
qed

subsection \<open>The text as bytes\<close>

lemma field_ok_line: "field_ok f \<Longrightarrow> plain_line (line_of f)"
  by (auto simp: field_ok_def line_of_def plain_line_def contains_any_iff)

lemma split_crlf_text: "list_all plain_line ls \<Longrightarrow> split_crlf (crlf_text ls) = ls @ [[]]"
  by (induction ls) (simp_all add: split_crlf_line plain_line_def)

lemma remove_crlf_text: "list_all plain_line ls \<Longrightarrow> remove_crlf (crlf_text ls) = concat ls"
  by (induction ls) (simp_all add: remove_crlf_line plain_line_def)

lemma line_printable: "list_all printable n \<Longrightarrow> list_all printable v \<Longrightarrow> list_all printable (line_of (n, v))"
  by (simp add: line_of_def printable_def)

lemma hex_or_none_printable: "list_all printable (hex_or_none b)"
  by (cases b) (simp_all add: hex_or_none_def encode_hex_def, simp add: printable_def)

lemma extent_printable:
  assumes p: "list_all printable p"
  shows "list_all (list_all printable) (map line_of (extent_fields p t))"
proof -
  have "list_all printable ''.LayoutSha256''" "list_all printable ''.StorageIdSha256''"
    "list_all printable ''.Offset''" "list_all printable ''.Length''" "list_all printable ''.Style''"
    "list_all printable ''.GptPartitionId''"
    by (simp_all add: printable_def)
  with p show ?thesis
    using style_codec.print_clean [of "ct_style t"]
    by (simp add: extent_fields_def line_printable hex_or_none_printable encode_hex_def show_u64_def)
qed

lemma artifact_printable: "list_all (list_all printable) (map line_of (artifact_fields i a))"
proof -
  have "list_all printable (artifact_prefix i)"
    using show_nat_printable [of i]
    by (auto simp: artifact_prefix_def pad_left_def list_all_iff printable_def)
  moreover have "list_all printable ''.Role''" "list_all printable ''.Location''" "list_all printable ''.Ordinal''"
    "list_all printable ''.PathUtf8Hex''" "list_all printable ''.Length''" "list_all printable ''.Sha256''"
    by (simp_all add: printable_def)
  ultimately show ?thesis
    using role_codec.print_clean [of "art_role a"] location_codec.print_clean [of "art_location a"]
    by (simp add: artifact_fields_def Let_def line_printable encode_hex_def show_u64_def)
qed

lemma artifacts_printable: "list_all (list_all printable) (map line_of (artifacts_fields i arts))"
  by (induction arts arbitrary: i) (use artifact_printable in auto)

text \<open>What validation says about the free-form fields of the header.\<close>

definition tokens_ok :: "manifest \<Rightarrow> bool" where
  "tokens_ok m \<longleftrightarrow> length (mf_session m) = 32 \<and> list_all is_lower_hex (mf_session m) \<and>
     length (mf_data_token m) = 64 \<and> list_all is_lower_hex (mf_data_token m) \<and>
     (case mf_target_token m of
        None \<Rightarrow> mf_purpose m \<noteq> Install
      | Some t \<Rightarrow> mf_purpose m = Install \<and> length t = 64 \<and> list_all is_lower_hex t \<and> t \<noteq> mf_data_token m)"

lemma validate_token_Inr:
  "validate_target_token p d t = Inr () \<longleftrightarrow> (case t of
     None \<Rightarrow> p \<noteq> Install
   | Some t \<Rightarrow> p = Install \<and> length t = 64 \<and> list_all is_lower_hex t \<and> t \<noteq> d)"
  by (auto simp: validate_target_token_def validate_locator_token_def res_simps split: option.splits)

lemma manifest_validate_Inr:
  "manifest_validate same m = Inr () \<longleftrightarrow>
     tokens_ok m \<and> length (mf_artifacts m) \<le> HANDOFF_MANIFEST_MAX_ARTIFACTS \<and>
     (case mf_staging m of None \<Rightarrow> True | Some s \<Rightarrow>
        mf_purpose m = Install \<and> (\<exists>n. reclaim_length_bytes s = Inr n)) \<and>
     (\<exists>acc. try_fold (scan_artifact same) (0, [], None) (mf_artifacts m) = Inr acc) \<and>
     validate_role_matrix (mf_purpose m) (mf_staging m \<noteq> None) (mf_artifacts m) = Inr ()"
  by (auto simp: manifest_validate_def res_simps validate_session_id_def validate_locator_token_def
      tokens_ok_def validate_token_Inr split: option.splits)

lemma header_printable: "tokens_ok m \<Longrightarrow> list_all (list_all printable) (map line_of (header_fields m))"
proof -
  assume ok: "tokens_ok m"
  have names: "list_all printable ''Purpose''" "list_all printable ''SessionId''"
    "list_all printable ''DataLocatorToken''" "list_all printable ''InstallTargetToken''"
    "list_all printable ''AutoStagingPresent''" "list_all printable ''none''" "list_all printable ''true''"
    "list_all printable ''false''"
    by (simp_all add: printable_def)
  show ?thesis
    using ok names purpose_codec.print_clean [of "mf_purpose m"]
    by (cases "mf_target_token m")
      (simp_all add: header_fields_def line_printable tokens_ok_def lower_hex_printable_list)
qed

lemma manifest_printable:
  "tokens_ok m \<Longrightarrow> list_all (list_all printable) (HANDOFF_MANIFEST_MAGIC # map line_of (manifest_fields m))"
proof -
  assume ok: "tokens_ok m"
  have names: "list_all printable ''Source''" "list_all printable ''Temporary''"
    "list_all printable ''SourceLengthBeforeBytes''" "list_all printable ''ArtifactCount''"
    "list_all printable HANDOFF_MANIFEST_MAGIC"
    by (simp_all add: printable_def HANDOFF_MANIFEST_MAGIC_def)
  have "list_all (list_all printable) (map line_of (staging_fields s))" for s
    using extent_printable [OF names(1)] extent_printable [OF names(2)] names
    by (cases s) (auto simp: staging_fields_def line_printable show_u64_def)
  then show ?thesis
    using header_printable [OF ok] artifacts_printable names
    by (simp add: manifest_fields_def line_printable)
qed

lemma scan_paths:
  assumes "try_fold (scan_artifact same) acc arts = Inr acc'"
  shows "list_all (\<lambda>a. validate_artifact a = Inr ()) arts"
  using assms
  by (induction arts arbitrary: acc) (auto simp: res_simps scan_artifact_def split: prod.splits)

lemma validate_artifact_path:
  "validate_artifact a = Inr () \<Longrightarrow> validate_relative_path (art_path a) = Inr ()"
  by (auto simp: validate_artifact_def res_simps)

lemma validate_path_length:
  "validate_relative_path p = Inr () \<Longrightarrow> length p \<le> HANDOFF_ARTIFACT_MAX_PATH_BYTES"
  by (auto simp: validate_relative_path_def split: if_splits)

lemma manifest_roundtrip:
  assumes typed: "manifest_typed m" and out: "manifest_to_bytes same m = Inr bs"
  shows "manifest_parse same bs = Inr m"
proof -
  have val: "manifest_validate same m = Inr ()" and fs: "list_all field_ok (manifest_fields m)"
    and bs: "bs = manifest_text m" "length bs \<le> HANDOFF_MANIFEST_MAX_BYTES"
    using out by (auto simp: to_bytes_Inr)
  have tok: "tokens_ok m" and n: "length (mf_artifacts m) \<le> HANDOFF_MANIFEST_MAX_ARTIFACTS"
    using val by (auto simp: manifest_validate_Inr)
  let ?ls = "HANDOFF_MANIFEST_MAGIC # map line_of (manifest_fields m)"
  have plain: "list_all plain_line ?ls"
    using manifest_printable [OF tok] by (auto simp: list_all_iff intro!: printable_line)
  have lines: "split_crlf bs = ?ls @ [[]]"
    using split_crlf_text [OF plain] by (simp add: bs manifest_text_def)
  have "list_all (\<lambda>a. validate_artifact a = Inr ()) (mf_artifacts m)"
    using val scan_paths by (auto simp: manifest_validate_Inr)
  then have paths: "list_all (\<lambda>a. length (art_path a) \<le> HANDOFF_ARTIFACT_MAX_PATH_BYTES) (mf_artifacts m)"
    by (auto simp: list_all_iff dest!: validate_artifact_path intro: validate_path_length)
  have "mf_target_token m \<noteq> Some ''none''" using tok by (auto simp: tokens_ok_def)
  from parse_manifest_fields [OF typed paths this n, of "[[]]"]
  have parsed: "parse_manifest_lines (tl (split_crlf bs)) = Inr (m, [[]])" by (simp add: lines)
  have utf8: "utf8_valid bs"
    using utf8_valid_crlf_text [OF manifest_printable [OF tok]] by (simp add: bs manifest_text_def)
  have "\<not> contains_any [CR, LF] (remove_crlf bs)"
    using remove_crlf_text [OF plain] plain
    by (auto simp: bs manifest_text_def contains_any_iff list_all_iff plain_line_def)
  moreover have "\<not> starts_with BOM bs"
    by (simp add: bs manifest_text_def starts_with_def BOM_def HANDOFF_MANIFEST_MAGIC_def)
  moreover have "bs \<noteq> []" by (simp add: bs manifest_text_def)
  moreover have "hd (split_crlf bs) = HANDOFF_MANIFEST_MAGIC" by (simp add: lines)
  ultimately show ?thesis
    using utf8 parsed val out bs(2) by (simp add: manifest_parse_def Let_def)
qed

subsection \<open>What a parser accepts is typed\<close>

lemma decode_hex_array_length: "decode_hex_array n v field = Inr b \<Longrightarrow> length b = n"
  by (auto simp: decode_hex_array_def Let_def length_hex_pairs split: if_splits)

lemma hex_option_typed: "hex_option n v field = Inr b \<Longrightarrow> pred_option (\<lambda>b. length b = n) b"
  by (auto simp: hex_option_def res_simps decode_hex_array_length split: if_splits)

lemma parse_extent_typed: "parse_extent p ls = Inr (t, r) \<Longrightarrow> target_typed t"
  by (auto simp: parse_extent_def res_simps target_typed_def split: prod.splits
      dest!: decode_hex_array_length hex_option_typed)

lemma parse_staging_typed:
  "parse_staging v ls = Inr (s, r) \<Longrightarrow>
     pred_option (\<lambda>s. target_typed (stg_source s) \<and> target_typed (stg_temporary s)) s"
  by (auto simp: parse_staging_def res_simps split: if_splits prod.splits dest!: parse_extent_typed)

lemma parse_artifact_typed: "parse_artifact i ls = Inr (a, r) \<Longrightarrow> artifact_typed a"
  by (auto simp: parse_artifact_def Let_def res_simps artifact_typed_def decode_path_hex_def
      split: prod.splits dest!: decode_hex_array_length)

lemma parse_artifacts_typed: "parse_artifacts i n ls = Inr (arts, r) \<Longrightarrow> list_all artifact_typed arts"
proof (induction n arbitrary: i ls arts r)
  case (Suc n)
  then show ?case by (auto simp: res_simps split: prod.splits dest: parse_artifact_typed)
qed simp

lemma parse_manifest_typed:
  assumes "parse_manifest_lines ls = Inr (m, r)"
  shows "manifest_typed m"
  using assms
  by (auto simp: parse_manifest_lines_def Let_def res_simps manifest_typed_def split: prod.splits
      dest!: parse_staging_typed parse_artifacts_typed)

lemma manifest_parse_Inr:
  assumes "manifest_parse same bs = Inr m"
  shows "manifest_typed m" "manifest_validate same m = Inr ()" "manifest_to_bytes same m = Inr bs"
  using assms by (auto simp: manifest_parse_def Let_def res_simps split: prod.splits dest: parse_manifest_typed)

text \<open>C2. The manifest file and the manifest determine each other. The parser accepts exactly the
  bytes the writer produces: every validated manifest (with the array widths and UTF-8 paths the Rust
  types guarantee) is read back field for field from its own bytes, and a file is accepted only when it
  is, byte for byte, the canonical encoding of the manifest that parsing returns, so reordered or
  repeated fields, other line ends, capital hexadecimal digits, leading zeros and trailing text are all
  refused.\<close>

theorem manifest_bytes_are_canonical:
  "manifest_parse same_path bs = Inr m \<longleftrightarrow>
     manifest_typed m \<and> manifest_to_bytes same_path m = Inr bs"
  using manifest_parse_Inr manifest_roundtrip by blast

subsection \<open>What a validated manifest guarantees\<close>

text \<open>A path that stays below the payload directory: no part is empty, \<open>.\<close> or \<open>..\<close>, and no drive
  colon, stream colon, slash or control character occurs.\<close>

definition path_contained :: "string \<Rightarrow> bool" where
  "path_contained p \<longleftrightarrow> p \<noteq> [] \<and> length p \<le> 4096 \<and>
     (\<forall>part \<in> set (split_on BACKSLASH p). part \<noteq> [] \<and> part \<noteq> ''.'' \<and> part \<noteq> ''..'' \<and>
        last part \<noteq> CHR ''.'' \<and> last part \<noteq> CHR '' '' \<and>
        (\<forall>c \<in> set part. 32 \<le> byte c \<and> c \<notin> {CHR '':'', CHR ''/'', CHR ''*'', CHR ''?''}))"

lemma set_split_on: "part \<in> set (split_on d s) \<Longrightarrow> set part \<subseteq> set s"
proof (induction s arbitrary: part)
  case (Cons c s)
  obtain l r where split: "split_on d s = l # r" by (cases "split_on d s") auto
  show ?case using Cons.prems Cons.IH [of part] Cons.IH [of l] split
    by (auto split: if_splits)
qed simp

lemma ends_with_any_iff: "ends_with_any cs s \<longleftrightarrow> s \<noteq> [] \<and> last s \<in> set cs"
  by (simp add: ends_with_any_def)

lemma try_fold_unit: "try_fold (\<lambda>_. f) () xs = Inr () \<longleftrightarrow> (\<forall>x \<in> set xs. f x = Inr ())"
  by (induction xs) (auto simp: res_simps)

lemma if_Inl_Inr:
  assumes "(if b then Inl e else r) = Inr x"
  shows "\<not> b" "r = Inr x"
  using assms by (auto split: if_splits)

lemma validate_component_Inr:
  assumes "validate_component part = Inr ()"
  shows "part \<noteq> []" "part \<noteq> ''.''" "part \<noteq> ''..''" "last part \<noteq> CHR ''.''" "last part \<noteq> CHR '' ''"
    "\<And>c. c \<in> set part \<Longrightarrow> 32 \<le> byte c \<and> c \<notin> {CHR '':'', CHR ''*'', CHR ''?''}"
proof -
  note steps = if_Inl_Inr [OF assms [unfolded validate_component_def]]
  have safe: "\<not> (part = [] \<or> part \<in> {''.'', ''..''} \<or> ends_with_any [CHR ''.'', CHR '' ''] part)"
    by (rule steps(1))
  have chars: "\<not> list_ex (\<lambda>c. byte c \<le> 0x1f \<or>
      c \<in> {CHR ''<'', CHR ''>'', CHR '':'', CHR 0x22, CHR ''|'', CHR ''?'', CHR ''*''}) part"
    by (rule if_Inl_Inr(1) [OF steps(2)])
  show "part \<noteq> []" "part \<noteq> ''.''" "part \<noteq> ''..''"
    using safe by simp_all
  then show "last part \<noteq> CHR ''.''" "last part \<noteq> CHR '' ''"
    using safe by (simp_all add: ends_with_any_iff)
  show "\<And>c. c \<in> set part \<Longrightarrow> 32 \<le> byte c \<and> c \<notin> {CHR '':'', CHR ''*'', CHR ''?''}"
  proof -
    fix c assume "c \<in> set part"
    then have "\<not> byte c \<le> 31" "c \<noteq> CHR '':''" "c \<noteq> CHR ''*''" "c \<noteq> CHR ''?''"
      using chars unfolding list_ex_iff by blast+
    then show "32 \<le> byte c \<and> c \<notin> {CHR '':'', CHR ''*'', CHR ''?''}" by simp
  qed
qed

lemma validate_path_contained:
  assumes "validate_relative_path p = Inr ()"
  shows "path_contained p"
proof -
  have parts: "\<And>part. part \<in> set (split_on BACKSLASH p) \<Longrightarrow> validate_component part = Inr ()"
    and p: "p \<noteq> []" "length p \<le> 4096" "CHR ''/'' \<notin> set p"
    using assms by (auto simp: validate_relative_path_def try_fold_unit HANDOFF_ARTIFACT_MAX_PATH_BYTES_def
        split: if_splits)
  have "c \<noteq> CHR ''/''" if "part \<in> set (split_on BACKSLASH p)" "c \<in> set part" for part c
    using set_split_on [OF that(1)] that(2) p(3) by auto
  then show ?thesis
    unfolding path_contained_def using p validate_component_Inr [OF parts] by simp
qed

lemma scan_artifact_Inr:
  "scan_artifact same (t, ps, k) a = Inr acc \<longleftrightarrow> validate_artifact a = Inr () \<and>
     (\<exists>t'. checked_add t (art_length a) = Some t' \<and> \<not> HANDOFF_ARTIFACT_MAX_BYTES < t' \<and>
       acc = (t', ps @ [(art_location a, art_path a)], Some (artifact_key a))) \<and>
     (\<forall>x. k = Some x \<longrightarrow> x < artifact_key a) \<and>
     (\<forall>(l, p) \<in> set ps. l = art_location a \<longrightarrow> same p (art_path a) = Inr False)"
proof -
  have "((if l = art_location a then and_then (same p (art_path a)) (\<lambda>eq. ensure (\<not> eq) e) else Inr ()) = Inr ()) \<longleftrightarrow>
    (l = art_location a \<longrightarrow> same p (art_path a) = Inr False)" for l p e
    by (auto simp: res_simps)
  then have "try_fold (\<lambda>_ (loc, path). if loc = art_location a then and_then (same path (art_path a)) (\<lambda>eq. ensure (\<not> eq) e)
      else Inr ()) () ps = Inr () \<longleftrightarrow> (\<forall>(l, p) \<in> set ps. l = art_location a \<longrightarrow> same p (art_path a) = Inr False)" for e
    by (subst try_fold_unit) (simp add: case_prod_unfold)
  then show ?thesis
    by (cases k) (auto simp: scan_artifact_def res_simps)
qed

text \<open>The three invariants of the loop over the artifacts.\<close>

lemma scan_artifacts:
  assumes "try_fold (scan_artifact same) (t, ps, k) arts = Inr acc"
  shows "unat (fst acc) = unat t + (\<Sum>a\<leftarrow>arts. unat (art_length a))"
    "arts \<noteq> [] \<Longrightarrow> fst acc \<le> HANDOFF_ARTIFACT_MAX_BYTES"
    "sorted_wrt (<) (map artifact_key arts)"
    "\<And>a x. a \<in> set arts \<Longrightarrow> k = Some x \<Longrightarrow> x < artifact_key a"
    "\<And>a l p. a \<in> set arts \<Longrightarrow> (l, p) \<in> set ps \<Longrightarrow> l = art_location a \<Longrightarrow> same p (art_path a) = Inr False"
    "sorted_wrt (\<lambda>a b. art_location a = art_location b \<longrightarrow> same (art_path a) (art_path b) = Inr False) arts"
proof -
  let ?distinct = "\<lambda>a b. art_location a = art_location b \<longrightarrow> same (art_path a) (art_path b) = Inr False"
  have "unat (fst acc) = unat t + (\<Sum>a\<leftarrow>arts. unat (art_length a)) \<and>
    (arts \<noteq> [] \<longrightarrow> fst acc \<le> HANDOFF_ARTIFACT_MAX_BYTES) \<and>
    sorted_wrt (<) (map artifact_key arts) \<and>
    (\<forall>a \<in> set arts. \<forall>x. k = Some x \<longrightarrow> x < artifact_key a) \<and>
    (\<forall>a \<in> set arts. \<forall>(l, p) \<in> set ps. l = art_location a \<longrightarrow> same p (art_path a) = Inr False) \<and>
    sorted_wrt ?distinct arts"
    using assms
  proof (induction arts arbitrary: t ps k)
    case (Cons a arts)
    from Cons.prems obtain t' where step:
        "checked_add t (art_length a) = Some t'" "t' \<le> HANDOFF_ARTIFACT_MAX_BYTES"
        "\<forall>x. k = Some x \<longrightarrow> x < artifact_key a"
        "\<forall>(l, p) \<in> set ps. l = art_location a \<longrightarrow> same p (art_path a) = Inr False"
      and rest: "try_fold (scan_artifact same)
        (t', ps @ [(art_location a, art_path a)], Some (artifact_key a)) arts = Inr acc"
      by (auto simp: scan_artifact_Inr res_simps not_less)
    have sum: "unat t' = unat t + unat (art_length a)" using step(1) by (simp add: word_facts)
    show ?case
      using Cons.IH [OF rest] step sum rest by (cases "arts = []") auto
  qed auto
  then show "unat (fst acc) = unat t + (\<Sum>a\<leftarrow>arts. unat (art_length a))"
    "arts \<noteq> [] \<Longrightarrow> fst acc \<le> HANDOFF_ARTIFACT_MAX_BYTES"
    "sorted_wrt (<) (map artifact_key arts)"
    "\<And>a x. a \<in> set arts \<Longrightarrow> k = Some x \<Longrightarrow> x < artifact_key a"
    "\<And>a l p. a \<in> set arts \<Longrightarrow> (l, p) \<in> set ps \<Longrightarrow> l = art_location a \<Longrightarrow> same p (art_path a) = Inr False"
    "sorted_wrt ?distinct arts"
    by auto
qed

definition manifest_guarantees :: "(string \<Rightarrow> string \<Rightarrow> string + bool) \<Rightarrow> manifest \<Rightarrow> bool" where
  "manifest_guarantees same_path m \<longleftrightarrow>
     (let arts = mf_artifacts m; count = (\<lambda>r. length (records_of r arts)) in
      (\<forall>a \<in> set arts. path_contained (art_path a) \<and> role_allowed (mf_purpose m) (art_role a) \<and>
         (requires_protected_boot (art_role a) \<longrightarrow> art_location a = ProtectedBoot) \<and>
         (requires_nonempty_payload (art_role a) \<longrightarrow> art_length a \<noteq> 0)) \<and>
      (\<Sum>a\<leftarrow>arts. unat (art_length a)) \<le> 4398046511104 \<and>
      sorted_wrt (<) (map artifact_key arts) \<and>
      sorted_wrt (\<lambda>a b. art_location a = art_location b \<longrightarrow>
        same_path (art_path a) (art_path b) = Inr False) arts \<and>
      (\<forall>r. map art_ordinal (records_of r arts) = map of_nat [0..<count r]) \<and>
      (\<forall>r. singleton_role r \<longrightarrow> count r \<le> 1) \<and>
      (mf_purpose m = Install \<longrightarrow>
         length (filter (\<lambda>n. n \<noteq> 0) [count InstallImageSpan, count InstallImageChunk, count XpSourceFile]) = 1) \<and>
      (mf_staging m \<noteq> None \<longrightarrow> mf_purpose m = Install \<and> count AutoPartitionMarker = 1) \<and>
      (mf_target_token m \<noteq> None \<longleftrightarrow> mf_purpose m = Install) \<and> mf_target_token m \<noteq> Some (mf_data_token m))"

lemma all_roles_complete [simp]: "r \<in> set all_roles"
  by (cases r) (simp_all add: all_roles_def)

lemma validate_role_Inr:
  "validate_role p arts r = Inr () \<longleftrightarrow> (records_of r arts \<noteq> [] \<longrightarrow> role_allowed p r) \<and>
     map art_ordinal (records_of r arts) = map of_nat [0..<length (records_of r arts)] \<and>
     (singleton_role r \<longrightarrow> length (records_of r arts) \<le> 1)"
  by (cases "records_of r arts") (auto simp: validate_role_def res_simps)

lemma role_matrix_facts:
  assumes "validate_role_matrix p s arts = Inr ()"
  shows "\<And>r. validate_role p arts r = Inr ()"
    "s \<longleftrightarrow> length (records_of AutoPartitionMarker arts) = 1"
    "p = Install \<Longrightarrow> length (filter (\<lambda>n. n \<noteq> 0) [length (records_of InstallImageSpan arts),
       length (records_of InstallImageChunk arts), length (records_of XpSourceFile arts)]) = 1"
  using assms by (auto simp: validate_role_matrix_def try_fold_unit Let_def res_simps split: if_splits)

lemma validate_artifact_facts:
  assumes "validate_artifact a = Inr ()"
  shows "path_contained (art_path a)"
    "requires_protected_boot (art_role a) \<Longrightarrow> art_location a = ProtectedBoot"
    "requires_nonempty_payload (art_role a) \<Longrightarrow> art_length a \<noteq> 0"
  using assms by (auto simp: validate_artifact_def res_simps intro: validate_path_contained)

lemma records_of_member: "a \<in> set arts \<Longrightarrow> records_of (art_role a) arts \<noteq> []"
  by (auto simp: records_of_def filter_empty_conv)

lemma validate_guarantees:
  assumes "manifest_validate same m = Inr ()"
  shows "manifest_guarantees same m"
proof -
  let ?arts = "mf_artifacts m"
  obtain acc where scan: "try_fold (scan_artifact same) (0, [], None) ?arts = Inr acc"
    and matrix: "validate_role_matrix (mf_purpose m) (mf_staging m \<noteq> None) ?arts = Inr ()"
    and tokens: "tokens_ok m" and staging: "mf_staging m \<noteq> None \<Longrightarrow> mf_purpose m = Install"
    using assms by (auto simp: manifest_validate_Inr split: option.splits)
  note roles = role_matrix_facts [OF matrix]
  have each: "validate_artifact a = Inr ()" if "a \<in> set ?arts" for a
    using scan_paths [OF scan] that by (simp add: list_all_iff)
  have sum: "(\<Sum>a\<leftarrow>?arts. unat (art_length a)) \<le> 4398046511104"
  proof (cases "?arts = []")
    case False
    then have "unat (fst acc) \<le> unat HANDOFF_ARTIFACT_MAX_BYTES"
      using scan_artifacts(2) [OF scan] by (simp add: word_le_nat_alt)
    then show ?thesis using scan_artifacts(1) [OF scan] by (simp add: HANDOFF_ARTIFACT_MAX_BYTES_def)
  qed simp
  have tok: "(mf_target_token m \<noteq> None \<longleftrightarrow> mf_purpose m = Install) \<and> mf_target_token m \<noteq> Some (mf_data_token m)"
    using tokens by (auto simp: tokens_ok_def split: option.splits)
  show ?thesis
    unfolding manifest_guarantees_def Let_def
    using each sum tok staging roles scan_artifacts(3,6) [OF scan]
    by (simp add: validate_artifact_facts validate_role_Inr records_of_member)
qed

text \<open>C3. Every manifest the boot environment accepts is safe to act on. Each path stays below the
  payload directory; files that carry secrets or scripts lie on the protected boot volume; the files
  add up to at most 4 TiB with no wrap-around; they are strictly ordered and no two paths of one
  location are equal for Windows; the ordinals of each role count from zero; singleton roles occur at
  most once; an installation carries exactly one kind of payload and exactly then a target token,
  different from the data token; and only an installation with its one marker file may authorise the
  deletion of a partition.\<close>

theorem accepted_manifest_is_safe:
  assumes "manifest_parse same_path bs = Inr m"
  shows "manifest_guarantees same_path m"
  using assms by (blast intro: validate_guarantees manifest_parse_Inr)

definition sample_manifest :: manifest where
  "sample_manifest =
     \<lparr>mf_purpose = Backup, mf_session = replicate 32 (CHR ''a''), mf_data_token = replicate 64 (CHR ''b''),
      mf_target_token = None, mf_staging = None,
      mf_artifacts = [\<lparr>art_role = BackupBaseImage, art_location = PublicData, art_ordinal = 0,
        art_path = ''base.wim'', art_length = 7, art_sha256 = replicate 32 (CHR 0x01)\<rparr>]\<rparr>"

text \<open>A stand-in for \<open>CompareStringOrdinal\<close> on ASCII paths.\<close>

definition sample_same_path :: "string \<Rightarrow> string \<Rightarrow> string + bool" where
  "sample_same_path p q = Inr (map to_upper p = map to_upper q)"

lemma sample_manifest_validates: "manifest_validate sample_same_path sample_manifest = Inr ()"
proof -
  let ?a = "hd (mf_artifacts sample_manifest)"
  have path: "validate_relative_path ''base.wim'' = Inr ()"
    by code_simp
  have "validate_artifact ?a = Inr ()"
    using path by (simp add: sample_manifest_def validate_artifact_def HANDOFF_ARTIFACT_MAX_BYTES_def
        requires_protected_boot_def)
  then have "\<exists>acc. try_fold (scan_artifact sample_same_path) (0, [], None) (mf_artifacts sample_manifest) = Inr acc"
    by (simp add: sample_manifest_def scan_artifact_def checked_add_def HANDOFF_ARTIFACT_MAX_BYTES_def)
  moreover have "validate_role_matrix Backup False (mf_artifacts sample_manifest) = Inr ()"
  proof -
    have "try_fold (\<lambda>_. validate_role Backup [?a]) () all_roles = Inr ()"
      by (simp add: try_fold_unit validate_role_Inr records_of_def role_allowed_def sample_manifest_def)
    then show ?thesis by (simp add: validate_role_matrix_def records_of_def sample_manifest_def)
  qed
  ultimately show ?thesis
    by (auto simp: manifest_validate_Inr tokens_ok_def sample_manifest_def HANDOFF_MANIFEST_MAX_ARTIFACTS_def
        is_lower_hex_def is_digit_def list_all_iff)
qed

lemma sample_manifest_parses:
  "manifest_parse sample_same_path (manifest_text sample_manifest) = Inr sample_manifest"
proof -
  have texts: "artifact_prefix 0 = ''Artifact0000''" "encode_hex ''base.wim'' = ''626173652e77696d''"
    "encode_hex (replicate 32 (CHR 0x01)) = concat (replicate 32 ''01'')"
    "show_nat 0 = ''0''" "show_nat (Suc 0) = ''1''" "show_nat 7 = ''7''"
    by code_simp+
  have fields_eq: "manifest_fields sample_manifest =
    [(''Purpose'', ''backup''), (''SessionId'', replicate 32 (CHR ''a'')),
     (''DataLocatorToken'', replicate 64 (CHR ''b'')), (''InstallTargetToken'', ''none''),
     (''AutoStagingPresent'', ''false''), (''ArtifactCount'', ''1''),
     (''Artifact0000.Role'', ''backup_base_image''), (''Artifact0000.Location'', ''public_data''),
     (''Artifact0000.Ordinal'', ''0''), (''Artifact0000.PathUtf8Hex'', ''626173652e77696d''),
     (''Artifact0000.Length'', ''7''), (''Artifact0000.Sha256'', concat (replicate 32 ''01''))]"
    using texts by (simp add: sample_manifest_def manifest_fields_def header_fields_def staging_fields_def
        artifact_fields_def show_u64_def Let_def)
  have plain: "list_all field_ok (manifest_fields sample_manifest)"
    unfolding fields_eq by code_simp
  have "length (manifest_text sample_manifest) \<le> HANDOFF_MANIFEST_MAX_BYTES"
    unfolding manifest_text_def fields_eq
    by (simp add: crlf_text_def line_of_def HANDOFF_MANIFEST_MAGIC_def HANDOFF_MANIFEST_MAX_BYTES_def
        length_concat sum_list_replicate)
  then have "manifest_to_bytes sample_same_path sample_manifest = Inr (manifest_text sample_manifest)"
    using sample_manifest_validates plain by (simp add: to_bytes_Inr sample_manifest_def)
  moreover have "manifest_typed sample_manifest"
    by (simp add: manifest_typed_def sample_manifest_def artifact_typed_def utf8_valid_ascii ascii_def)
  ultimately show ?thesis by (simp add: manifest_roundtrip)
qed

theorem accepted_manifest_is_safe_witness: "manifest_guarantees sample_same_path sample_manifest"
  by (rule accepted_manifest_is_safe [OF sample_manifest_parses])

subsection \<open>The reclaimed staging space\<close>

lemma validate_extent_Inr:
  "validate_extent t label = Inr () \<longleftrightarrow> ct_layout_digest t \<noteq> replicate 32 NUL \<and> ct_length t \<noteq> 0 \<and>
     (ct_gpt_id t \<noteq> None \<longleftrightarrow> ct_style t = GptStyle)"
  by (cases "ct_style t") (auto simp: validate_extent_def)

text \<open>The authority to delete the temporary partition and grow the source is exact. The
  reclaimed length is accepted and equal to \<open>n\<close> precisely when both extents are well formed and
  belong to the same disk, the source was shrunk by \<open>n > 0\<close> bytes, and the temporary partition
  lies entirely in the space the source gave up; all the ends are computed without wrap-around.\<close>

theorem reclaim_length_exact:
  "reclaim_length_bytes s = Inr n \<longleftrightarrow>
     (let src = stg_source s; tmp = stg_temporary s; start = unat (ct_offset src) in
      validate_extent src ''source'' = Inr () \<and> validate_extent tmp ''temporary'' = Inr () \<and>
      ct_layout_digest src = ct_layout_digest tmp \<and> ct_device_id_hash src = ct_device_id_hash tmp \<and>
      unat (stg_length_before s) = unat (ct_length src) + unat n \<and> n \<noteq> 0 \<and>
      start + unat (ct_length src) \<le> unat (ct_offset tmp) \<and>
      unat (ct_offset tmp) + unat (ct_length tmp) \<le> start + unat (stg_length_before s) \<and>
      start + unat (stg_length_before s) < 2 ^ 64)"
  (is "?accepted \<longleftrightarrow> ?exact")
proof
  assume ?accepted
  then show ?exact
    unfolding reclaim_length_bytes_def Let_def res_simps checked_add_Some checked_sub_Some
    by (clarsimp simp: word_order_facts)
next
  assume exact: ?exact
  let ?src = "stg_source s" and ?tmp = "stg_temporary s"
  have "checked_add (ct_offset ?src) (ct_length ?src) = Some (ct_offset ?src + ct_length ?src)"
    "checked_add (ct_offset ?tmp) (ct_length ?tmp) = Some (ct_offset ?tmp + ct_length ?tmp)"
    "checked_add (ct_offset ?src) (stg_length_before s) = Some (ct_offset ?src + stg_length_before s)"
    "checked_sub (stg_length_before s) (ct_length ?src) = Some n"
    using exact by (auto simp: Let_def checked_add_Some checked_sub_Some unat_add_no_overflow)
  moreover from this exact have "\<not> ct_offset ?tmp < ct_offset ?src + ct_length ?src"
    "\<not> stg_length_before s \<le> ct_length ?src"
    "\<not> ct_offset ?src + stg_length_before s < ct_offset ?tmp + ct_length ?tmp"
    by (auto simp: Let_def checked_add_Some word_order_facts)
  ultimately show ?accepted
    using exact unfolding reclaim_length_bytes_def Let_def by simp
qed

subsection \<open>The binding\<close>

text \<open>A binding admits one manifest file only. If the binding was made from \<open>bs\<close> and verification
  accepts \<open>bs'\<close>, then \<open>bs'\<close> is \<open>bs\<close> and the manifest returned is the one it encodes, unless two
  different byte strings with the same SHA-256 exist.\<close>

theorem binding_admits_one_manifest:
  assumes "binding_new sha same_path bs = Inr b"
    and "binding_verify_for sha same_path b bs' p session = Inr m"
  shows "(bs' = bs \<and> manifest_parse same_path bs = Inr m \<and> mf_purpose m = p \<and> mf_session m = session) \<or>
    sha_collision sha"
proof -
  have "sha bs' = sha bs" "manifest_parse same_path bs' = Inr m" "mf_purpose m = p" "mf_session m = session"
    using assms by (auto simp: binding_new_def binding_verify_for_def binding_verify_def res_simps)
  then show ?thesis by (cases "bs' = bs") (auto simp: sha_collision_def)
qed

theorem binding_admits_one_manifest_witness:
  "(\<exists>b. binding_new sample_sha sample_same_path (manifest_text sample_manifest) = Inr b \<and>
     binding_verify_for sample_sha sample_same_path b (manifest_text sample_manifest) Backup
       (replicate 32 (CHR ''a'')) = Inr sample_manifest) \<and>
   ((manifest_text sample_manifest = manifest_text sample_manifest \<and>
     manifest_parse sample_same_path (manifest_text sample_manifest) = Inr sample_manifest \<and>
     mf_purpose sample_manifest = Backup \<and> mf_session sample_manifest = replicate 32 (CHR ''a'')) \<or>
     sha_collision sample_sha)"
proof -
  let ?t = "manifest_text sample_manifest"
  let ?b = "\<lparr>mb_length = of_nat (length ?t), mb_sha256 = sample_sha ?t\<rparr>"
  have new: "binding_new sample_sha sample_same_path ?t = Inr ?b"
    by (simp add: binding_new_def sample_manifest_parses)
  have ver: "binding_verify_for sample_sha sample_same_path ?b ?t Backup (replicate 32 (CHR ''a'')) =
      Inr sample_manifest"
    by (simp add: binding_verify_for_def binding_verify_def sample_manifest_parses validate_session_id_def
        list_all_iff is_lower_hex_def is_digit_def)
      (simp add: sample_manifest_def)
  show ?thesis using binding_admits_one_manifest [OF new ver] new ver by blast
qed

lemma fill_slot_other: "strip_prefix (name @ ''='') l = None \<Longrightarrow> fill_slot name l slot = Inr slot"
  by (simp add: fill_slot_def)

definition no_binding_field :: "string \<Rightarrow> bool" where
  "no_binding_field l \<longleftrightarrow> strip_prefix ''HandoffManifestVersion='' l = None \<and>
     strip_prefix ''HandoffManifestLength='' l = None \<and> strip_prefix ''HandoffManifestSha256='' l = None"

lemma scan_other_lines:
  "list_all plain_line ls \<Longrightarrow> list_all no_binding_field ls \<Longrightarrow>
     try_fold scan_config_line slots (map (\<lambda>l. l @ [CR]) ls) = Inr slots"
proof (induction ls)
  case (Cons l ls)
  have "drop_cr (l @ [CR]) = l" by (simp add: drop_cr_def)
  with Cons show ?case
    by (cases slots) (simp add: scan_config_line_def fill_slot_def no_binding_field_def)
qed simp

lemma split_on_crlf_text:
  "list_all plain_line ls \<Longrightarrow> split_on LF (crlf_text ls) = map (\<lambda>l. l @ [CR]) ls @ [[]]"
proof (induction ls)
  case (Cons l ls)
  have "split_on LF ((l @ [CR]) @ LF # crlf_text ls) = (l @ [CR]) # split_on LF (crlf_text ls)"
    using Cons.prems by (intro split_on_line) (auto simp: plain_line_def)
  with Cons show ?case by simp
qed simp

text \<open>The binding survives the configuration that carries it. Whatever other lines the UTF-8 text
  has before and after the three binding lines, as long as none of them begins with a binding field,
  the reader returns the binding that was written.\<close>

theorem binding_read_from_config:
  assumes cfg: "cfg = crlf_text before @ binding_to_config_lines b @ crlf_text after"
    and others: "list_all plain_line (before @ after)" "list_all no_binding_field (before @ after)"
    and enc: "utf8_valid cfg" "\<not> starts_with BOM cfg" "NUL \<notin> set cfg"
    and b: "mb_length b \<noteq> 0" "unat (mb_length b) \<le> HANDOFF_MANIFEST_MAX_BYTES" "length (mb_sha256 b) = 32"
  shows "binding_from_config_bytes cfg = Inr b"
proof -
  let ?own = "[''HandoffManifestVersion=1'', ''HandoffManifestLength='' @ show_u64 (mb_length b),
    ''HandoffManifestSha256='' @ encode_hex (mb_sha256 b)]"
  have own: "list_all plain_line ?own"
    by (auto simp: show_u64_def encode_hex_def printable_def intro!: printable_line)
  have cfg_lines: "cfg = crlf_text (before @ ?own @ after)"
    unfolding cfg binding_to_config_lines_def by (simp only: crlf_text_append)
  have lines: "split_on LF cfg = map (\<lambda>l. l @ [CR]) (before @ ?own @ after) @ [[]]"
    unfolding cfg_lines by (rule split_on_crlf_text) (use others own in auto)
  let ?slots = "(Some ''1'', Some (show_u64 (mb_length b)), Some (encode_hex (mb_sha256 b)))"
  have cr: "drop_cr (l @ [CR]) = l" for l by (simp add: drop_cr_def)
  have "scan_config_line (None, None, None) (?own ! 0 @ [CR]) = Inr (Some ''1'', None, None)"
    "scan_config_line (Some ''1'', None, None) (?own ! 1 @ [CR]) =
       Inr (Some ''1'', Some (show_u64 (mb_length b)), None)"
    "scan_config_line (Some ''1'', Some (show_u64 (mb_length b)), None) (?own ! 2 @ [CR]) = Inr ?slots"
    unfolding scan_config_line_def cr Let_def by (simp_all add: fill_slot_def)
  then have "try_fold scan_config_line (None, None, None) (map (\<lambda>l. l @ [CR]) ?own) = Inr ?slots"
    by simp
  moreover have "try_fold scan_config_line slots (map (\<lambda>l. l @ [CR]) before) = Inr slots"
    "try_fold scan_config_line slots (map (\<lambda>l. l @ [CR]) after @ [[]]) = Inr slots" for slots
    using scan_other_lines others
    by (auto simp: try_fold_append scan_config_line_def fill_slot_def drop_cr_def split: prod.splits)
  ultimately have scan: "try_fold scan_config_line (None, None, None) (split_on LF cfg) = Inr ?slots"
    unfolding lines by (simp only: map_append try_fold_append append_assoc and_then_simps)
  show ?thesis
    using enc b u64_codec.parse_print array_codec.parse_print [of "mb_sha256 b" 32]
    by (simp add: binding_from_config_bytes_def scan encode_hex_def hex_bytes_lower)
qed


definition sample_binding :: manifest_binding where
  "sample_binding = \<lparr>mb_length = 7, mb_sha256 = replicate 32 (CHR 0x01)\<rparr>"

theorem binding_read_from_config_witness:
  "binding_from_config_bytes
     (crlf_text [''[Install]''] @ binding_to_config_lines sample_binding @ crlf_text [''RunDism=1'']) =
   Inr sample_binding"
proof (rule binding_read_from_config [OF refl])
  let ?own = "[''HandoffManifestVersion=1'', ''HandoffManifestLength='' @ show_u64 7,
    ''HandoffManifestSha256='' @ encode_hex (replicate 32 (CHR 0x01))]"
  let ?ls = "[''[Install]''] @ ?own @ [''RunDism=1'']"
  let ?cfg = "crlf_text [''[Install]''] @ binding_to_config_lines sample_binding @ crlf_text [''RunDism=1'']"
  have cfg: "?cfg = crlf_text ?ls"
    unfolding binding_to_config_lines_def sample_binding_def crlf_text_append by simp
  have "list_all (list_all printable) ?ls"
    using show_nat_printable [of 7] by (simp add: show_u64_def encode_hex_def) (simp add: printable_def)
  then have utf8: "utf8_valid (crlf_text ?ls)" and printable: "\<And>l. l \<in> set ?ls \<Longrightarrow> list_all printable l"
    by (auto simp only: list_all_iff intro: utf8_valid_crlf_text)
  show "utf8_valid ?cfg" unfolding cfg by (rule utf8)
  show "\<not> starts_with BOM ?cfg" by (simp add: starts_with_def BOM_def)
  show "NUL \<notin> set ?cfg"
    unfolding cfg using printable by (fastforce simp: crlf_text_def list_all_iff printable_def)
  show "list_all plain_line ([''[Install]''] @ [''RunDism=1''])" by code_simp
  show "list_all no_binding_field ([''[Install]''] @ [''RunDism=1''])" by code_simp
qed (simp_all add: sample_binding_def HANDOFF_MANIFEST_MAX_BYTES_def)

end
