(* ===== verification/Selection.thy ===== *)
theory Selection
  imports Prelude "HOL-Library.Product_Lexorder"
begin

section \<open>Choosing by a key\<close>

text \<open>
  The standard library's \<open>max_by_key\<close>, \<open>min_by_key\<close> and \<open>std::cmp::Reverse\<close>, which the policies for
  volumes use. Of several elements with the greatest key \<open>max_by_key\<close> returns the last, of several with
  the least key \<open>min_by_key\<close> the first. Tuples are compared from left to right.
\<close>

datatype 'a reversed = Reverse (unreverse: 'a)

instantiation reversed :: (linorder) linorder
begin

definition less_eq_reversed :: "'a reversed \<Rightarrow> 'a reversed \<Rightarrow> bool" where
  "less_eq_reversed a b \<longleftrightarrow> unreverse b \<le> unreverse a"

definition less_reversed :: "'a reversed \<Rightarrow> 'a reversed \<Rightarrow> bool" where
  "less_reversed a b \<longleftrightarrow> unreverse b < unreverse a"

instance
  by standard (auto simp: less_eq_reversed_def less_reversed_def reversed.expand)

end

lemma Reverse_le [simp]: "Reverse a \<le> Reverse b \<longleftrightarrow> b \<le> a"
  by (simp add: less_eq_reversed_def)

lemma Reverse_less [simp]: "Reverse a < Reverse b \<longleftrightarrow> b < a"
  by (simp add: less_reversed_def)

fun max_from :: "('a \<Rightarrow> 'k::linorder) \<Rightarrow> 'a \<Rightarrow> 'a list \<Rightarrow> 'a" where
  "max_from f best [] = best"
| "max_from f best (x # xs) = max_from f (if f best \<le> f x then x else best) xs"

fun min_from :: "('a \<Rightarrow> 'k::linorder) \<Rightarrow> 'a \<Rightarrow> 'a list \<Rightarrow> 'a" where
  "min_from f best [] = best"
| "min_from f best (x # xs) = min_from f (if f x < f best then x else best) xs"

fun max_by_key :: "('a \<Rightarrow> 'k::linorder) \<Rightarrow> 'a list \<Rightarrow> 'a option" where
  "max_by_key f [] = None"
| "max_by_key f (x # xs) = Some (max_from f x xs)"

fun min_by_key :: "('a \<Rightarrow> 'k::linorder) \<Rightarrow> 'a list \<Rightarrow> 'a option" where
  "min_by_key f [] = None"
| "min_by_key f (x # xs) = Some (min_from f x xs)"

lemma max_from_greatest:
  "max_from f b xs \<in> insert b (set xs) \<and> f b \<le> f (max_from f b xs) \<and>
     (\<forall>x \<in> set xs. f x \<le> f (max_from f b xs))"
proof (induction xs arbitrary: b)
  case (Cons x xs)
  let ?b = "if f b \<le> f x then x else b"
  have "f b \<le> f ?b" "f x \<le> f ?b" by auto
  with Cons [of ?b] show ?case by (auto intro: order_trans split: if_splits)
qed simp

lemma min_from_least:
  "min_from f b xs \<in> insert b (set xs) \<and> f (min_from f b xs) \<le> f b \<and>
     (\<forall>x \<in> set xs. f (min_from f b xs) \<le> f x)"
proof (induction xs arbitrary: b)
  case (Cons x xs)
  let ?b = "if f x < f b then x else b"
  have "f ?b \<le> f b" "f ?b \<le> f x" by auto
  with Cons [of ?b] show ?case by (auto intro: order_trans split: if_splits)
qed simp

lemma max_by_key_None [simp]: "max_by_key f xs = None \<longleftrightarrow> xs = []"
  by (cases xs) auto

lemma min_by_key_None [simp]: "min_by_key f xs = None \<longleftrightarrow> xs = []"
  by (cases xs) auto

lemma max_by_key_Some:
  assumes "max_by_key f xs = Some m"
  shows "m \<in> set xs" "\<And>x. x \<in> set xs \<Longrightarrow> f x \<le> f m"
  using assms max_from_greatest [of f "hd xs" "tl xs"] by (cases xs; auto)+

lemma min_by_key_Some:
  assumes "min_by_key f xs = Some m"
  shows "m \<in> set xs" "\<And>x. x \<in> set xs \<Longrightarrow> f m \<le> f x"
  using assms min_from_least [of f "hd xs" "tl xs"] by (cases xs; auto)+

end
