(* ===== verification/Staging.thy ===== *)
theory Staging
  imports Selection
begin

section \<open>Choosing the temporary data volume\<close>

text \<open>
  \<open>lr-core/src/data_staging.rs\<close>, first part: the byte budget of an installation that runs through a
  boot environment, and the policy that keeps its data on an existing volume or shrinks the target
  volume to make room. Drive letters are Unicode scalar values, numbers here.
\<close>

type_synonym scalar = nat

definition scalar_upper :: "scalar \<Rightarrow> scalar" where
  "scalar_upper c = (if 97 \<le> c \<and> c \<le> 122 then c - 32 else c)"

definition DS_MIB :: u64 where "DS_MIB = 1048576"
definition STAGING_OPERATIONAL_HEADROOM_BYTES :: u64 where
  "STAGING_OPERATIONAL_HEADROOM_BYTES = 2147483648"

subsection \<open>The budget\<close>

record staging_budget =
  image_bytes :: u64
  exported_driver_bytes :: u64
  pca_bytes :: u64
  user_driver_bytes :: u64
  uefiseven_bytes :: u64
  preinstalled_software_bytes :: u64

definition required_staging_bytes :: "u64 \<Rightarrow> u64 option" where
  "required_staging_bytes payload = checked_add payload STAGING_OPERATIONAL_HEADROOM_BYTES"

definition payload_bytes :: "staging_budget \<Rightarrow> u64 option" where
  "payload_bytes b =
     Option.bind (checked_add (image_bytes b) (exported_driver_bytes b)) (\<lambda>s.
     Option.bind (checked_add s (pca_bytes b)) (\<lambda>s.
     Option.bind (checked_add s (user_driver_bytes b)) (\<lambda>s.
     Option.bind (checked_add s (uefiseven_bytes b)) (\<lambda>s.
     checked_add s (preinstalled_software_bytes b)))))"

definition required_bytes :: "staging_budget \<Rightarrow> u64 option" where
  "required_bytes b = Option.bind (payload_bytes b) required_staging_bytes"

definition remaining_required_bytes_after :: "staging_budget \<Rightarrow> u64 \<Rightarrow> u64 option" where
  "remaining_required_bytes_after b materialized =
     Option.bind (required_bytes b) (\<lambda>r. checked_sub r materialized)"

definition remaining_payload_bytes_after :: "staging_budget \<Rightarrow> u64 \<Rightarrow> u64 option" where
  "remaining_payload_bytes_after b materialized =
     Option.bind (payload_bytes b) (\<lambda>p. checked_sub p materialized)"

subsection \<open>Candidates and plans\<close>

datatype storage_media = SolidState | Rotational | UnknownMedia
datatype storage_attachment = Internal | External | UnknownAttachment

record staging_candidate =
  cand_letter :: scalar
  cand_disk :: "u32 option"
  cand_media :: storage_media
  cand_attachment :: storage_attachment
  cand_free :: u64

record shrink_candidate =
  shr_letter :: scalar
  shr_disk :: "u32 option"
  shr_media :: storage_media
  shr_attachment :: storage_attachment
  shr_free :: u64
  shr_is_safe :: bool

datatype staging_plan =
  Existing scalar u64
| ShrinkTarget scalar u64 u64
| Unavailable u64

definition candidate_has_room :: "staging_candidate \<Rightarrow> u64 \<Rightarrow> bool" where
  "candidate_has_room c required \<longleftrightarrow> required \<le> cand_free c"

definition shrink_has_room :: "shrink_candidate \<Rightarrow> u64 \<Rightarrow> bool" where
  "shrink_has_room t required \<longleftrightarrow> shr_is_safe t \<and> required \<le> shr_free t"

fun media_score :: "storage_attachment \<Rightarrow> storage_media \<Rightarrow> nat" where
  "media_score Internal SolidState = 600"
| "media_score Internal UnknownMedia = 450"
| "media_score Internal Rotational = 350"
| "media_score UnknownAttachment SolidState = 325"
| "media_score UnknownAttachment UnknownMedia = 275"
| "media_score UnknownAttachment Rotational = 250"
| "media_score External SolidState = 225"
| "media_score External UnknownMedia = 175"
| "media_score External Rotational = 150"

type_synonym rank = "nat \<times> nat \<times> u64 \<times> scalar reversed"

definition candidate_rank :: "staging_candidate \<Rightarrow> u32 option \<Rightarrow> u64 \<Rightarrow> rank" where
  "candidate_rank c target_disk required =
     (media_score (cand_attachment c) (cand_media c),
      if cand_disk c \<noteq> None \<and> target_disk \<noteq> None \<and> cand_disk c \<noteq> target_disk then 1 else 0,
      saturating_sub (cand_free c) required,
      Reverse (scalar_upper (cand_letter c)))"

definition should_prefer_fixed_shrink :: "staging_candidate \<Rightarrow> shrink_candidate \<Rightarrow> bool" where
  "should_prefer_fixed_shrink c t \<longleftrightarrow> shr_attachment t \<noteq> External \<and> cand_attachment c = External"

definition shrink_plan :: "shrink_candidate \<Rightarrow> u64 \<Rightarrow> staging_plan" where
  "shrink_plan t required = ShrinkTarget (shr_letter t) (div_ceil required DS_MIB) required"

definition select_staging_plan ::
  "u64 \<Rightarrow> u32 option \<Rightarrow> staging_candidate list \<Rightarrow> shrink_candidate option \<Rightarrow> staging_plan" where
  "select_staging_plan payload target_disk candidates shrink_target =
     (case required_staging_bytes payload of
        None \<Rightarrow> Unavailable (- 1)
      | Some required \<Rightarrow>
          (let best_existing = max_by_key (\<lambda>c. candidate_rank c target_disk required)
                 (filter (\<lambda>c. candidate_has_room c required) candidates);
               safe_shrink = (case shrink_target of
                   None \<Rightarrow> None
                 | Some t \<Rightarrow> if shrink_has_room t required then Some t else None);
               prefer_shrink = (case (best_existing, safe_shrink) of
                   (None, Some _) \<Rightarrow> True
                 | (Some c, Some t) \<Rightarrow> should_prefer_fixed_shrink c t
                 | _ \<Rightarrow> False)
           in if prefer_shrink then shrink_plan (the safe_shrink) required
              else (case best_existing of
                Some c \<Rightarrow> Existing (cand_letter c) required
              | None \<Rightarrow> (case safe_shrink of
                  Some t \<Rightarrow> shrink_plan t required
                | None \<Rightarrow> Unavailable required))))"

subsection \<open>Properties\<close>

definition budget_sum :: "staging_budget \<Rightarrow> nat" where
  "budget_sum b = unat (image_bytes b) + unat (exported_driver_bytes b) + unat (pca_bytes b) +
     unat (user_driver_bytes b) + unat (uefiseven_bytes b) + unat (preinstalled_software_bytes b)"

lemma payload_bytes_Some: "payload_bytes b = Some p \<longleftrightarrow> budget_sum b < 2 ^ 64 \<and> unat p = budget_sum b"
  unfolding payload_bytes_def budget_sum_def bind_eq_Some_conv checked_add_Some
  by (auto simp: ex_unat ex_unat_eq unat_of_nat_word cong: conj_cong)

lemma required_staging_bytes_Some:
  "required_staging_bytes p = Some r \<longleftrightarrow> unat p + 2 ^ 31 < 2 ^ 64 \<and> unat r = unat p + 2 ^ 31"
  by (simp add: required_staging_bytes_def checked_add_Some STAGING_OPERATIONAL_HEADROOM_BYTES_def)

lemma required_bytes_Some:
  "required_bytes b = Some r \<longleftrightarrow> budget_sum b + 2 ^ 31 < 2 ^ 64 \<and> unat r = budget_sum b + 2 ^ 31"
  unfolding required_bytes_def bind_eq_Some_conv payload_bytes_Some required_staging_bytes_Some
  by (auto simp: ex_unat ex_unat_eq unat_of_nat_word cong: conj_cong)

text \<open>The budget is the exact sum of its parts plus the fixed 2 GiB, with no wrap-around: what is
  still required after \<open>written\<close> bytes have been written is computed exactly when the full requirement fits
  64 bits and covers \<open>written\<close>.\<close>

theorem budget_exact:
  "remaining_required_bytes_after b written = Some r \<longleftrightarrow>
     budget_sum b + 2 ^ 31 < 2 ^ 64 \<and> budget_sum b + 2 ^ 31 = unat r + unat written"
  unfolding remaining_required_bytes_after_def bind_eq_Some_conv required_bytes_Some checked_sub_Some
  by (auto simp: ex_unat ex_unat_eq unat_of_nat_word cong: conj_cong)

text \<open>External volumes rank below all others.\<close>

lemma external_rank:
  assumes "candidate_rank d t n \<le> candidate_rank c t n" "cand_attachment c = External"
  shows "cand_attachment d = External"
proof -
  have "media_score (cand_attachment d) (cand_media d) \<le> media_score External (cand_media c)"
    using assms by (auto simp: candidate_rank_def)
  then show ?thesis
    by (cases "cand_attachment d"; cases "cand_media d"; cases "cand_media c") simp_all
qed

lemma shrink_size:
  "unat n \<le> unat (div_ceil n DS_MIB) * 2 ^ 20" "unat (div_ceil n DS_MIB) * 2 ^ 20 < unat n + 2 ^ 20"
proof -
  have "unat (div_ceil n DS_MIB) = (unat n + 1048576 - 1) div 1048576"
    by (subst unat_div_ceil) (simp_all add: DS_MIB_def)
  moreover have "unat n \<le> (unat n + 1048576 - 1) div 1048576 * 1048576"
    "(unat n + 1048576 - 1) div 1048576 * 1048576 < unat n + 1048576"
    by linarith+
  ultimately show "unat n \<le> unat (div_ceil n DS_MIB) * 2 ^ 20" "unat (div_ceil n DS_MIB) * 2 ^ 20 < unat n + 2 ^ 20"
    by simp_all
qed

definition staging_justified ::
  "u64 \<Rightarrow> u32 option \<Rightarrow> staging_candidate list \<Rightarrow> shrink_candidate option \<Rightarrow> staging_plan \<Rightarrow> bool" where
  "staging_justified payload target_disk cands shrink plan =
     (let required = unat payload + 2 ^ 31;
          fits = (\<lambda>c. required \<le> unat (cand_free c));
          shrinkable = (\<lambda>t. shr_is_safe t \<and> required \<le> unat (shr_free t)) in
      (case plan of
         Existing letter n \<Rightarrow> unat n = required \<and>
           (\<exists>c \<in> set cands. fits c \<and> cand_letter c = letter \<and>
             (\<forall>d \<in> set cands. fits d \<longrightarrow> candidate_rank d target_disk n \<le> candidate_rank c target_disk n) \<and>
             (\<forall>t. shrink = Some t \<and> shrinkable t \<and> shr_attachment t \<noteq> External \<longrightarrow> cand_attachment c \<noteq> External))
       | ShrinkTarget letter mb n \<Rightarrow> unat n = required \<and>
           required \<le> unat mb * 2 ^ 20 \<and> unat mb * 2 ^ 20 < required + 2 ^ 20 \<and>
           (\<exists>t. shrink = Some t \<and> shrinkable t \<and> shr_letter t = letter \<and>
             (\<forall>c \<in> set cands. fits c \<longrightarrow> shr_attachment t \<noteq> External \<and> cand_attachment c = External))
       | Unavailable n \<Rightarrow>
           (\<forall>c \<in> set cands. \<not> fits c) \<and> (\<forall>t. shrink = Some t \<longrightarrow> \<not> shrinkable t)))"

text \<open>The selected plan is justified by the inventory. An existing volume is chosen only if the
  payload and the headroom fit there, it ranks highest of all that fit, and it is not an external
  disk where a fixed one could be shrunk. The target is shrunk, by the requirement rounded up to the
  next MiB, only if that is safe, there is room, and every volume that fits is external. Nothing is
  offered only when neither an existing volume nor the shrink has room.\<close>

theorem staging_plan_justified:
  "staging_justified payload target_disk cands shrink
     (select_staging_plan payload target_disk cands shrink)"
proof (cases "required_staging_bytes payload")
  case None
  then have "2 ^ 64 \<le> unat payload + 2 ^ 31"
    by (simp add: required_staging_bytes_def checked_add_None STAGING_OPERATIONAL_HEADROOM_BYTES_def)
  then have "unat n < unat payload + 2 ^ 31" for n :: u64
    using unat_bound [of n] by simp
  then show ?thesis using None by (simp add: select_staging_plan_def staging_justified_def Let_def not_le)
next
  case (Some n)
  then have n: "unat n = unat payload + 2 ^ 31" by (simp add: required_staging_bytes_Some)
  let ?fits = "filter (\<lambda>c. candidate_has_room c n) cands"
  let ?best = "max_by_key (\<lambda>c. candidate_rank c target_disk n) ?fits"
  have room: "candidate_has_room c n \<longleftrightarrow> unat payload + 2 ^ 31 \<le> unat (cand_free c)" for c
    by (simp add: candidate_has_room_def word_le_nat_alt n)
  have shr: "shrink_has_room t n \<longleftrightarrow> shr_is_safe t \<and> unat payload + 2 ^ 31 \<le> unat (shr_free t)" for t
    by (simp add: shrink_has_room_def word_le_nat_alt n)
  show ?thesis
  proof (cases ?best)
    case None
    then show ?thesis
      using Some n room shr
      shrink_size [of n]
      by (cases shrink) (auto simp: select_staging_plan_def staging_justified_def filter_empty_conv shrink_plan_def Let_def)
  next
    case best: (Some c)
    show ?thesis
      using Some n room shr best max_by_key_Some [OF best] shrink_size [of n]
      by (cases shrink)
        (auto simp: select_staging_plan_def staging_justified_def shrink_plan_def Let_def should_prefer_fixed_shrink_def
          intro: external_rank)
  qed
qed

end
