(* ===== verification/Scatter.thy ===== *)
theory Scatter
  imports Staging Text
begin

section \<open>Scattering the data over existing volumes\<close>

text \<open>
  \<open>lr-core/src/data_staging.rs\<close>, second part: when no single volume has room, the image and the other
  components are spread over several; and the loop of \<open>write_image_chunks\<close> in
  \<open>native_install_backend.rs\<close> that cuts one image into chunks. What the file system reports as free is
  not the program's: the loop takes it as a function of the chunks written so far. The messages of the
  errors become constructors that carry the values the messages show.
\<close>

subsection \<open>Names\<close>

definition SCATTER_DIRECTORY_PREFIX :: string where "SCATTER_DIRECTORY_PREFIX = ''LetRecovery_Scatter_''"

definition scatter_root_name :: "string \<Rightarrow> string" where
  "scatter_root_name token = SCATTER_DIRECTORY_PREFIX @ token"

definition is_locator_token :: "string \<Rightarrow> bool" where
  "is_locator_token v \<longleftrightarrow> length v = 64 \<and> list_all is_hexdigit v"

definition is_separator :: "char \<Rightarrow> bool" where
  "is_separator c \<longleftrightarrow> c = CHR 0x5C \<or> c = CHR ''/''"

definition split_scatter_prefix :: "string \<Rightarrow> (string \<times> string) option" where
  "split_scatter_prefix path =
     (let n = length SCATTER_DIRECTORY_PREFIX in
      if length path < n \<or> \<not> eq_ignore_ascii_case (take n path) SCATTER_DIRECTORY_PREFIX then None
      else (let without_prefix = drop n path in
        (case position is_separator without_prefix of
           None \<Rightarrow> None
         | Some s \<Rightarrow>
             (let token = take s without_prefix; rest = drop (s + 1) without_prefix in
              if is_locator_token token \<and> rest \<noteq> [] then Some (token, rest) else None))))"

definition strip_scatter_prefix :: "string \<Rightarrow> string" where
  "strip_scatter_prefix path = (case split_scatter_prefix path of None \<Rightarrow> path | Some (_, rest) \<Rightarrow> rest)"

definition FAT_MAX_FILE_BYTES :: u64 where "FAT_MAX_FILE_BYTES = 4294967295"

definition max_file_bytes_for_file_system :: "string option \<Rightarrow> u64" where
  "max_file_bytes_for_file_system fs = (case fs of
     None \<Rightarrow> - 1
   | Some name \<Rightarrow>
       (if list_ex (eq_ignore_ascii_case (trim name)) [''FAT'', ''FAT12'', ''FAT16'', ''FAT32'']
        then FAT_MAX_FILE_BYTES else - 1))"

definition image_chunk_file_name :: "string \<Rightarrow> u32 \<Rightarrow> string" where
  "image_chunk_file_name image_name ordinal =
     image_name @ ''.lrpart'' @ pad_left 3 (show_nat (unat ordinal + 1))"

subsection \<open>Volumes, requests and plans\<close>

record scatter_volume =
  sv_letter :: scalar
  sv_free :: u64
  sv_max_file :: u64

datatype image_demand =
  SingleFile u64 bool
| IndependentFiles "u64 list"
| TogetherFiles "u64 list"
| PrimaryTree u64

record scatter_request =
  sr_volumes :: "scatter_volume list"
  sr_image :: image_demand
  sr_primary_fixed :: u64
  sr_flexible :: u64

datatype image_placement = Whole scalar | PerFile "scalar list" | Chunked

record scatter_plan =
  sp_primary :: scalar
  sp_image :: image_placement
  sp_reservations :: "(scalar \<times> u64) list"

datatype scatter_error =
  NoVolume
| PrimaryOverflow
| PrimaryTooLarge u64 scalar u64
| ImageTooLarge u64 u64
| NotChunkable u64
| ImageSetOverflow
| TogetherTooLarge u64
| PartTooLarge nat u64
| FlexibleTooLarge u64 u64

definition SCATTER_SECONDARY_RESERVE_BYTES :: u64 where "SCATTER_SECONDARY_RESERVE_BYTES = 536870912"
definition IMAGE_CHUNK_MIN_BYTES :: u64 where "IMAGE_CHUNK_MIN_BYTES = 67108864"

definition scatter_reserve_bytes :: "bool \<Rightarrow> u64" where
  "scatter_reserve_bytes is_primary =
     (if is_primary then STAGING_OPERATIONAL_HEADROOM_BYTES else SCATTER_SECONDARY_RESERVE_BYTES)"

text \<open>A volume as a candidate: letter, bytes available, largest storable file.\<close>

type_synonym candidate = "scalar \<times> u64 \<times> u64"

abbreviation c_letter :: "candidate \<Rightarrow> scalar" where "c_letter \<equiv> fst"
abbreviation c_usable :: "candidate \<Rightarrow> u64" where "c_usable \<equiv> fst \<circ> snd"
abbreviation c_max_file :: "candidate \<Rightarrow> u64" where "c_max_file \<equiv> snd \<circ> snd"

definition unit_fits :: "u64 \<Rightarrow> u64 \<Rightarrow> candidate \<Rightarrow> bool" where
  "unit_fits bytes largest_file c \<longleftrightarrow> bytes \<le> c_usable c \<and> largest_file \<le> c_max_file c"

definition select_single_existing_volume :: "scatter_volume list \<Rightarrow> u64 \<Rightarrow> u64 \<Rightarrow> scalar option" where
  "select_single_existing_volume volumes payload largest_file =
     Option.bind (required_staging_bytes payload) (\<lambda>required.
     map_option sv_letter (max_by_key (\<lambda>v. (sv_free v, Reverse (sv_letter v)))
       (filter (\<lambda>v. required \<le> sv_free v \<and> largest_file \<le> sv_max_file v) volumes)))"

definition choose_volume_for_unit :: "candidate list \<Rightarrow> u64 \<Rightarrow> u64 \<Rightarrow> scalar option \<Rightarrow> scalar option" where
  "choose_volume_for_unit cands unit_bytes largest_file preferred =
     (case preferred of
        Some p \<Rightarrow> if list_ex (\<lambda>c. c_letter c = p \<and> unit_fits unit_bytes largest_file c) cands then Some p
                  else map_option c_letter (max_by_key (\<lambda>c. (c_usable c, Reverse (c_letter c)))
                    (filter (unit_fits unit_bytes largest_file) cands))
      | None \<Rightarrow> map_option c_letter (max_by_key (\<lambda>c. (c_usable c, Reverse (c_letter c)))
          (filter (unit_fits unit_bytes largest_file) cands)))"

definition next_image_chunk_len :: "u64 \<Rightarrow> u64 \<Rightarrow> u64 \<Rightarrow> u64 option" where
  "next_image_chunk_len remaining available max_file =
     (if remaining = 0 then None
      else (let len = min (min remaining available) max_file in
        if len = 0 \<or> (len < IMAGE_CHUNK_MIN_BYTES \<and> len < remaining) then None else Some len))"

definition IN_PLACE_TARGET_RESERVE_BYTES :: u64 where "IN_PLACE_TARGET_RESERVE_BYTES = 3221225472"

definition target_can_host_in_place :: "u64 \<Rightarrow> u64 \<Rightarrow> u64 \<Rightarrow> u64 \<Rightarrow> bool" where
  "target_can_host_in_place target_free old_system payload expanded_image =
     (case required_staging_bytes payload of
        None \<Rightarrow> False
      | Some required \<Rightarrow>
          (if target_free < required then False
           else saturating_add expanded_image IN_PLACE_TARGET_RESERVE_BYTES
             \<le> saturating_add target_free old_system))"

subsection \<open>The planner\<close>

definition primary_needs :: "scatter_request \<Rightarrow> scatter_error + u64" where
  "primary_needs r = (case sr_image r of
     PrimaryTree bytes \<Rightarrow> ok_or (checked_add (sr_primary_fixed r) bytes) PrimaryOverflow
   | _ \<Rightarrow> Inr (sr_primary_fixed r))"

definition usable_on :: "scalar \<Rightarrow> u64 \<Rightarrow> scatter_volume \<Rightarrow> u64" where
  "usable_on primary needs v =
     (let is_primary = (sv_letter v = primary) in
      saturating_sub (saturating_sub (sv_free v) (scatter_reserve_bytes is_primary))
        (if is_primary then needs else 0))"

definition best_fit :: "candidate list \<Rightarrow> u64 \<Rightarrow> u64 \<Rightarrow> scalar option" where
  "best_fit capacity t largest_file =
     map_option c_letter (min_by_key (\<lambda>c. (c_usable c, c_letter c)) (filter (unit_fits t largest_file) capacity))"

fun take_bytes :: "candidate list \<Rightarrow> scalar \<Rightarrow> u64 \<Rightarrow> candidate list" where
  "take_bytes [] l n = []"
| "take_bytes ((k, u, m) # cs) l n =
     (if k = l then (k, saturating_sub u n, m) # cs else (k, u, m) # take_bytes cs l n)"

definition total_usable :: "candidate list \<Rightarrow> u64" where
  "total_usable capacity = foldl saturating_add 0 (map c_usable capacity)"

text \<open>Chunks use up the largest volumes first.\<close>

fun drain :: "nat list \<Rightarrow> u64 \<Rightarrow> candidate list \<Rightarrow> candidate list" where
  "drain [] remaining capacity = capacity"
| "drain (i # order) remaining capacity =
     (let (l, u, m) = capacity ! i;
          used = min remaining u;
          capacity' = capacity[i := (l, u - used, m)]
      in if remaining - used = 0 then capacity' else drain order (remaining - used) capacity')"

definition chunk_order :: "candidate list \<Rightarrow> nat list" where
  "chunk_order capacity = sort_key (\<lambda>i. Reverse (c_usable (capacity ! i))) [0..<length capacity]"

fun add_reservation :: "(scalar \<times> u64) list \<Rightarrow> scalar \<Rightarrow> u64 \<Rightarrow> (scalar \<times> u64) list" where
  "add_reservation [] l n = [(l, n)]"
| "add_reservation ((k, b) # rs) l n =
     (if k = l then (k, saturating_add b n) # rs else (k, b) # add_reservation rs l n)"

type_synonym file_state = "candidate list \<times> scalar list \<times> (scalar \<times> u64) list"

definition place_file :: "u64 list \<Rightarrow> file_state \<Rightarrow> nat \<Rightarrow> scatter_error + file_state" where
  "place_file files st i = (case st of (capacity, assigned, reservations) \<Rightarrow>
     (let n = files ! i in
      and_then (ok_or (max_by_key (\<lambda>c. (c_usable c, Reverse (c_letter c))) (filter (unit_fits n n) capacity))
        (PartTooLarge (i + 1) n)) (\<lambda>c.
      Inr (take_bytes capacity (c_letter c) n, assigned[i := c_letter c],
           add_reservation reservations (c_letter c) n))))"

definition file_order :: "u64 list \<Rightarrow> nat list" where
  "file_order files = sort_key (\<lambda>i. Reverse (files ! i)) [0..<length files]"

type_synonym image_result = "candidate list \<times> image_placement \<times> (scalar \<times> u64) list"

definition place_single :: "candidate list \<Rightarrow> u64 \<Rightarrow> bool \<Rightarrow> scatter_error + image_result" where
  "place_single capacity bytes chunkable = (case best_fit capacity bytes bytes of
     Some l \<Rightarrow> Inr (take_bytes capacity l bytes, Whole l, [(l, bytes)])
   | None \<Rightarrow>
       (if chunkable then
          (let t = total_usable capacity in
           and_then (ensure (\<not> t < bytes) (ImageTooLarge bytes t)) (\<lambda>_.
           Inr (drain (chunk_order capacity) bytes capacity, Chunked, [])))
        else Inl (NotChunkable bytes)))"

definition largest_of :: "u64 list \<Rightarrow> u64" where
  "largest_of files = (case max_by_key id files of None \<Rightarrow> 0 | Some n \<Rightarrow> n)"

definition place_set :: "scalar \<Rightarrow> candidate list \<Rightarrow> u64 list \<Rightarrow> bool \<Rightarrow> scatter_error + image_result" where
  "place_set primary capacity files together =
     and_then (try_fold (\<lambda>s f. ok_or (checked_add s f) ImageSetOverflow) 0 files) (\<lambda>t.
     (case best_fit capacity t (largest_of files) of
        Some l \<Rightarrow> Inr (take_bytes capacity l t, Whole l, [(l, t)])
      | None \<Rightarrow>
          (if together then Inl (TogetherTooLarge t)
           else and_then (try_fold (place_file files)
               (capacity, replicate (length files) primary, []) (file_order files))
             (\<lambda>(capacity, assigned, reservations). Inr (capacity, PerFile assigned, reservations)))))"

definition place_image :: "scatter_request \<Rightarrow> scalar \<Rightarrow> candidate list \<Rightarrow> scatter_error + image_result" where
  "place_image r primary capacity = (case sr_image r of
     PrimaryTree _ \<Rightarrow> Inr (capacity, Whole primary, [])
   | SingleFile bytes chunkable \<Rightarrow> place_single capacity bytes chunkable
   | TogetherFiles files \<Rightarrow> place_set primary capacity files True
   | IndependentFiles files \<Rightarrow> place_set primary capacity files False)"

definition sorted_volumes :: "scatter_request \<Rightarrow> scatter_volume list" where
  "sorted_volumes r = sort_key (\<lambda>v. (Reverse (sv_free v), sv_letter v)) (sr_volumes r)"

definition initial_capacity :: "scatter_volume list \<Rightarrow> scalar \<Rightarrow> u64 \<Rightarrow> candidate list" where
  "initial_capacity volumes primary needs =
     map (\<lambda>v. (sv_letter v, usable_on primary needs v, sv_max_file v)) volumes"

definition plan_scattered_staging :: "scatter_request \<Rightarrow> scatter_error + scatter_plan" where
  "plan_scattered_staging r =
     (let volumes = sorted_volumes r in
      and_then (ensure (volumes \<noteq> []) NoVolume) (\<lambda>_.
      let largest = hd volumes in
      and_then (primary_needs r) (\<lambda>needs.
      and_then (ok_or (find (\<lambda>v. needs \<le> saturating_sub (sv_free v) (scatter_reserve_bytes True)) volumes)
        (PrimaryTooLarge needs (sv_letter largest) (sv_free largest))) (\<lambda>pv.
      let primary = sv_letter pv in
      and_then (place_image r primary (initial_capacity volumes primary needs)) (\<lambda>(capacity, image, reservations).
      let remaining = total_usable capacity in
      and_then (ensure (\<not> remaining < sr_flexible r) (FlexibleTooLarge (sr_flexible r) remaining)) (\<lambda>_.
      Inr \<lparr>sp_primary = primary, sp_image = image, sp_reservations = reservations\<rparr>))))))"

subsection \<open>The loop that writes chunks\<close>

text \<open>\<open>volumes\<close> is what the volumes report after the given chunks have been written, \<open>cancelled\<close> whether
  the user cancels then, and \<open>write\<close> the code of the error that storing, locking or reading back the
  next chunk ends with, if any. The error \<open>scatter_no_space\<close> carries the bytes that are left. A length
  of 64 bits and chunks of at least 64 MiB keep the ordinal far below its 32 bits, so that
  overflow is not modelled.\<close>

type_synonym chunk = "scalar \<times> u64"

datatype chunk_error = Stopped string | NoSpace u64

lemma next_chunk_facts:
  assumes "next_image_chunk_len remaining available max_file = Some len"
  shows "0 < unat len" "len \<le> remaining" "len \<le> available" "len \<le> max_file"
    "67108864 \<le> unat len \<or> len = remaining"
proof -
  let ?m = "min (min remaining available) max_file"
  have len: "len = ?m" "?m \<noteq> 0" "\<not> (?m < IMAGE_CHUNK_MIN_BYTES \<and> ?m < remaining)"
    using assms by (auto simp: next_image_chunk_len_def Let_def split: if_splits)
  have le: "?m \<le> remaining" "?m \<le> available" "?m \<le> max_file"
    by (auto simp: min_le_iff_disj)
  with len show "0 < unat len" "len \<le> remaining" "len \<le> available" "len \<le> max_file"
    by (simp_all add: unat_gt_0)
  show "67108864 \<le> unat len \<or> len = remaining"
  proof (cases "?m = remaining")
    case False
    with le(1) have "?m < remaining" by (rule order.not_eq_order_implies_strict [rotated])
    with len(3) have "\<not> ?m < IMAGE_CHUNK_MIN_BYTES" by blast
    then show ?thesis unfolding len(1) IMAGE_CHUNK_MIN_BYTES_def by (simp only: word_less_nat_alt) simp
  qed (simp add: len(1))
qed

function write_image_chunks ::
  "(chunk list \<Rightarrow> bool) \<Rightarrow> (chunk list \<Rightarrow> candidate list) \<Rightarrow> (chunk list \<Rightarrow> chunk \<Rightarrow> string option) \<Rightarrow>
    u64 \<Rightarrow> chunk list \<Rightarrow> chunk_error + chunk list" where
  "write_image_chunks cancelled volumes store remaining written =
     (if remaining = 0 then Inr written
      else if cancelled written then Inl (Stopped ''cancelled'')
      else (case max_by_key (\<lambda>c. (min (c_usable c) (c_max_file c), Reverse (c_letter c))) (volumes written) of
        None \<Rightarrow> Inl (NoSpace remaining)
      | Some c \<Rightarrow> (case next_image_chunk_len remaining (c_usable c) (c_max_file c) of
          None \<Rightarrow> Inl (NoSpace remaining)
        | Some len \<Rightarrow> (case store written (c_letter c, len) of
            Some code \<Rightarrow> Inl (Stopped code)
          | None \<Rightarrow>
              write_image_chunks cancelled volumes store (remaining - len) (written @ [(c_letter c, len)])))))"
  by pat_completeness auto
termination
proof (relation "measure (\<lambda>(cancelled, volumes, store, remaining, written). unat remaining)", goal_cases)
  case (2 cancelled volumes store remaining written c len)
  then show ?case
    using next_chunk_facts [OF 2(4)] by (simp add: unat_sub word_le_nat_alt)
qed simp

declare write_image_chunks.simps [simp del]

subsection \<open>What the loop writes\<close>

definition chunk_bytes :: "chunk list \<Rightarrow> nat" where
  "chunk_bytes ws = (\<Sum>w\<leftarrow>ws. unat (snd w))"

lemma chunk_bytes_simps [simp]:
  "chunk_bytes [] = 0" "chunk_bytes (w # ws) = unat (snd w) + chunk_bytes ws"
  "chunk_bytes (ws @ vs) = chunk_bytes ws + chunk_bytes vs"
  by (simp_all add: chunk_bytes_def)

text \<open>Each chunk fits, when it is written, the volume it goes to; only the last may be small.\<close>

fun chunks_fit :: "(chunk list \<Rightarrow> candidate list) \<Rightarrow> chunk list \<Rightarrow> chunk list \<Rightarrow> bool" where
  "chunks_fit volumes earlier [] = True"
| "chunks_fit volumes earlier (w # ws) =
     (0 < unat (snd w) \<and> list_ex (\<lambda>c. c_letter c = fst w \<and> unit_fits (snd w) (snd w) c) (volumes earlier) \<and>
      (ws \<noteq> [] \<longrightarrow> 67108864 \<le> unat (snd w)) \<and> chunks_fit volumes (earlier @ [w]) ws)"

definition exhausted :: "u64 \<Rightarrow> candidate \<Rightarrow> bool" where
  "exhausted remaining c \<longleftrightarrow>
     (let n = min (unat (c_usable c)) (unat (c_max_file c)) in n = 0 \<or> n < 67108864 \<and> n < unat remaining)"

definition chunk_outcome ::
  "(chunk list \<Rightarrow> candidate list) \<Rightarrow> chunk list \<Rightarrow> u64 \<Rightarrow> chunk_error + chunk list \<Rightarrow> bool" where
  "chunk_outcome volumes earlier total_bytes result = (case result of
     Inr ws \<Rightarrow> \<exists>new. ws = earlier @ new \<and> chunks_fit volumes earlier new \<and> chunk_bytes new = unat total_bytes
   | Inl (NoSpace rest) \<Rightarrow> \<exists>new. chunks_fit volumes earlier new \<and> chunk_bytes new + unat rest = unat total_bytes \<and>
       0 < unat rest \<and> list_all (exhausted rest) (volumes (earlier @ new))
   | Inl (Stopped _) \<Rightarrow> \<exists>new. chunks_fit volumes earlier new \<and> chunk_bytes new < unat total_bytes)"

lemma exhausted_best:
  assumes best: "max_by_key (\<lambda>c. (min (c_usable c) (c_max_file c), Reverse (c_letter c))) cs = Some b"
    and none: "next_image_chunk_len remaining (c_usable b) (c_max_file b) = None" and rest: "remaining \<noteq> 0"
  shows "list_all (exhausted remaining) cs"
proof -
  let ?m = "\<lambda>c. min (c_usable c) (c_max_file c)"
  have unat_m: "unat (?m c) = min (unat (c_usable c)) (unat (c_max_file c))" for c
    by (auto simp: min_def word_le_nat_alt)
  have "min (min remaining (c_usable b)) (c_max_file b) = min remaining (?m b)"
    by (simp add: min.assoc)
  then have "min remaining (?m b) = 0 \<or> (min remaining (?m b) < IMAGE_CHUNK_MIN_BYTES \<and> min remaining (?m b) < remaining)"
    using none rest by (simp add: next_image_chunk_len_def Let_def split: if_splits)
  then have b: "unat (?m b) = 0 \<or> unat (?m b) < 67108864 \<and> unat (?m b) < unat remaining"
    using rest by (auto simp: min_def word_less_nat_alt word_le_nat_alt IMAGE_CHUNK_MIN_BYTES_def unat_eq_0 split: if_splits)
  have "unat (?m c) \<le> unat (?m b)" if "c \<in> set cs" for c
    using max_by_key_Some(2) [OF best that] by (auto simp: word_le_nat_alt word_less_nat_alt)
  then show ?thesis using b unat_m by (fastforce simp: list_all_iff exhausted_def Let_def)
qed

lemma chunk_outcome_step:
  assumes outcome: "chunk_outcome volumes (written @ [(c_letter c, len)]) (remaining - len) r"
    and len: "next_image_chunk_len remaining (c_usable c) (c_max_file c) = Some len"
    and c: "c \<in> set (volumes written)"
  shows "chunk_outcome volumes written remaining r"
proof -
  let ?w = "(c_letter c, len)"
  note facts = next_chunk_facts [OF len]
  have here: "list_ex (\<lambda>d. c_letter d = fst ?w \<and> unit_fits (snd ?w) (snd ?w) d) (volumes written)"
    using c facts by (auto simp: list_ex_iff unit_fits_def)
  have left: "unat (remaining - len) + unat len = unat remaining"
    using facts by (simp add: unat_sub word_le_nat_alt)
  have small: "67108864 \<le> unat len" if "unat (remaining - len) \<noteq> 0"
    using facts(5) that by auto
  have cons: "chunks_fit volumes written (?w # new)"
    if "chunks_fit volumes (written @ [?w]) new" "new = [] \<or> unat (remaining - len) \<noteq> 0" for new
    using that here facts(1) small by auto
  show ?thesis
  proof (cases r)
    case (Inr ws)
    with outcome obtain new where new: "ws = (written @ [?w]) @ new" "chunks_fit volumes (written @ [?w]) new"
      "chunk_bytes new = unat (remaining - len)" by (auto simp: chunk_outcome_def)
    have "new = [] \<or> unat (remaining - len) \<noteq> 0"
      using new(2,3) by (cases new) auto
    from cons [OF new(2) this] show ?thesis
      using Inr new left by (auto simp: chunk_outcome_def intro!: exI [of _ "?w # new"])
  next
    case (Inl e)
    show ?thesis
    proof (cases e)
      case (Stopped code)
      with outcome Inl obtain new where new: "chunks_fit volumes (written @ [?w]) new"
        "chunk_bytes new < unat (remaining - len)" by (auto simp: chunk_outcome_def)
      then have "chunks_fit volumes written (?w # new)" by (intro cons) auto
      then show ?thesis
        using Inl Stopped new left by (auto simp: chunk_outcome_def intro!: exI [of _ "?w # new"])
    next
      case (NoSpace rest)
      with outcome Inl obtain new where new: "chunks_fit volumes (written @ [?w]) new"
        "chunk_bytes new + unat rest = unat (remaining - len)" "0 < unat rest"
        "list_all (exhausted rest) (volumes ((written @ [?w]) @ new))" by (auto simp: chunk_outcome_def)
      then have "chunks_fit volumes written (?w # new)" by (intro cons) auto
      then show ?thesis
        using Inl NoSpace new left by (auto simp: chunk_outcome_def intro!: exI [of _ "?w # new"])
    qed
  qed
qed

lemma write_chunks_outcome:
  "chunk_outcome volumes written remaining (write_image_chunks cancelled volumes store remaining written)"
proof (induction cancelled volumes store remaining written rule: write_image_chunks.induct)
  case (1 cancelled volumes store remaining written)
  let ?best = "max_by_key (\<lambda>c. (min (c_usable c) (c_max_file c), Reverse (c_letter c))) (volumes written)"
  show ?case
  proof (cases "remaining = 0 \<or> cancelled written \<or> ?best = None")
    case True
    then show ?thesis
      by (subst write_image_chunks.simps) (auto simp: chunk_outcome_def unat_gt_0 intro!: exI [of _ "[]"])
  next
    case False
    then obtain c where best: "?best = Some c" and go: "remaining \<noteq> 0" "\<not> cancelled written" by blast
    show ?thesis
    proof (cases "next_image_chunk_len remaining (c_usable c) (c_max_file c)")
      case None
      have "write_image_chunks cancelled volumes store remaining written = Inl (NoSpace remaining)"
        using go best None by (subst write_image_chunks.simps) simp
      then show ?thesis
        using exhausted_best [OF best None go(1)] go(1)
        by (auto simp: chunk_outcome_def unat_gt_0 intro!: exI [of _ "[]"])
    next
      case len: (Some len)
      show ?thesis
      proof (cases "store written (c_letter c, len)")
        case None
        have "write_image_chunks cancelled volumes store remaining written =
            write_image_chunks cancelled volumes store (remaining - len) (written @ [(c_letter c, len)])"
          using go best len None by (subst write_image_chunks.simps) simp
        then show ?thesis
          using chunk_outcome_step [OF 1 [OF go best len None] len max_by_key_Some(1) [OF best]] by simp
      next
        case (Some code)
        have "write_image_chunks cancelled volumes store remaining written = Inl (Stopped code)"
          using go best len Some by (subst write_image_chunks.simps) simp
        then show ?thesis
          using go(1) by (auto simp: chunk_outcome_def unat_gt_0 intro!: exI [of _ "[]"])
      qed
    qed
  qed
qed

text \<open>C36. The chunk loop ends and its result is what the reassembly needs. Whatever the volumes report
  while it runs and whenever it is cancelled or a write fails, it writes only chunks that are no larger
  than the free space and the largest file of their volume at that moment, all but the last at least
  64 MiB. It succeeds with chunks that together are exactly the image; or it is stopped before that; or it
  runs out of space, with the bytes left, and then no volume could take a further chunk.\<close>

theorem chunk_loop_outcome:
  "chunk_outcome volumes [] total_bytes (write_image_chunks cancelled volumes store total_bytes [])"
  by (rule write_chunks_outcome)

text \<open>A file system without rounding: what is free shrinks by what is written.\<close>

definition written_on :: "scalar \<Rightarrow> chunk list \<Rightarrow> u64" where
  "written_on l ws = sum_list (map snd (filter (\<lambda>w. fst w = l) ws))"

definition ideal_volumes :: "candidate list \<Rightarrow> chunk list \<Rightarrow> candidate list" where
  "ideal_volumes capacity ws = map (\<lambda>(l, u, m). (l, u - written_on l ws, m)) capacity"

lemma written_on_simps [simp]:
  "written_on l [] = 0"
  "written_on l (ws @ [w]) = written_on l ws + (if fst w = l then snd w else 0)"
  by (simp_all add: written_on_def)

definition ideal_ok :: "candidate list \<Rightarrow> chunk list \<Rightarrow> bool" where
  "ideal_ok capacity ws \<longleftrightarrow>
     (\<forall>c \<in> set capacity. unat (written_on (c_letter c) ws) \<le> unat (c_usable c)) \<and>
     (\<Sum>c\<leftarrow>capacity. unat (written_on (c_letter c) ws)) = chunk_bytes ws"

lemma sum_list_single:
  "distinct ls \<Longrightarrow> l \<in> set ls \<Longrightarrow> (\<Sum>k\<leftarrow>ls. if k = l then n else (0 :: nat)) = n"
  by (induction ls) (auto simp: sum_list_eq_0_iff)

lemma ideal_step:
  assumes ok: "ideal_ok capacity ws" and d: "distinct (map c_letter capacity)"
    and fit: "list_ex (\<lambda>c. c_letter c = fst w \<and> unit_fits (snd w) (snd w) c) (ideal_volumes capacity ws)"
  shows "ideal_ok capacity (ws @ [w])"
proof -
  obtain c where c: "c \<in> set capacity" "c_letter c = fst w"
    "snd w \<le> c_usable c - written_on (fst w) ws"
    using fit by (auto simp: list_ex_iff ideal_volumes_def unit_fits_def)
  have le: "unat (written_on (c_letter e) ws) \<le> unat (c_usable e)" if "e \<in> set capacity" for e
    using ok that by (simp add: ideal_ok_def)
  have room: "unat (written_on (fst w) ws) + unat (snd w) \<le> unat (c_usable c)"
  proof -
    have "unat (c_usable c - written_on (fst w) ws) = unat (c_usable c) - unat (written_on (fst w) ws)"
      using le [OF c(1)] c(2) by (simp add: unat_sub word_le_nat_alt)
    then show ?thesis using c(2,3) le [OF c(1)] by (simp add: word_le_nat_alt)
  qed
  then have small: "unat (written_on (fst w) ws) + unat (snd w) < 2 ^ 64"
    using unat_bound [of "c_usable c"] by simp
  then have grow: "unat (written_on l (ws @ [w])) =
      unat (written_on l ws) + (if l = fst w then unat (snd w) else 0)" for l
    by (auto simp: unat_add_no_overflow)
  have same: "e = c" if "e \<in> set capacity" "c_letter e = fst w" for e
    using d that c(1,2) by (auto simp: distinct_map inj_on_def)
  have "(\<Sum>e\<leftarrow>capacity. if c_letter e = fst w then unat (snd w) else 0) = unat (snd w)"
  proof -
    have "fst w \<in> set (map c_letter capacity)" using c(1,2) by force
    then show ?thesis using sum_list_single [OF d, of "fst w" "unat (snd w)"] by (simp add: o_def)
  qed
  then show ?thesis
    using ok le room same unfolding ideal_ok_def grow by (auto simp: sum_list_addf)
qed

lemma chunks_fit_ideal:
  "chunks_fit (ideal_volumes capacity) ws new \<Longrightarrow> ideal_ok capacity ws \<Longrightarrow>
     distinct (map c_letter capacity) \<Longrightarrow> ideal_ok capacity (ws @ new)"
proof (induction new arbitrary: ws)
  case (Cons w new)
  then have "ideal_ok capacity (ws @ [w])" by (intro ideal_step) auto
  with Cons show ?case by fastforce
qed simp

lemma never_stopped:
  "write_image_chunks (\<lambda>_. False) volumes (\<lambda>_ _. None) remaining written \<noteq> Inl (Stopped code)"
proof (induction "\<lambda>_ :: chunk list. False" volumes "\<lambda>_ :: chunk list. \<lambda>_ :: chunk. None :: string option"
    remaining written rule: write_image_chunks.induct)
  case (1 volumes remaining written)
  then show ?case
    by (subst write_image_chunks.simps) (auto split: option.splits)
qed

text \<open>The chunk loop stores every image for which there is room. If the volumes have different
  letters, can all store a file of 64 MiB and together have room for the image even when the last
  64 MiB of each are not counted, then on a file system that charges exactly what is written, without
  cancellation and write errors, the loop succeeds.\<close>

theorem chunk_loop_succeeds:
  assumes "distinct (map c_letter capacity)" "list_all (\<lambda>c. 67108864 \<le> unat (c_max_file c)) capacity"
    and "unat total_bytes \<le> (\<Sum>c\<leftarrow>capacity. unat (c_usable c) - 67108864)"
  shows "is_ok (write_image_chunks (\<lambda>_. False) (ideal_volumes capacity) (\<lambda>_ _. None) total_bytes [])"
proof (cases "write_image_chunks (\<lambda>_. False) (ideal_volumes capacity) (\<lambda>_ _. None) total_bytes []")
  case (Inl e)
  then obtain rest where rest: "write_image_chunks (\<lambda>_. False) (ideal_volumes capacity) (\<lambda>_ _. None) total_bytes [] =
      Inl (NoSpace rest)"
    using never_stopped by (cases e) fastforce+
  then obtain ws where ws: "chunks_fit (ideal_volumes capacity) [] ws"
    "chunk_bytes ws + unat rest = unat total_bytes" "0 < unat rest"
    "list_all (exhausted rest) (ideal_volumes capacity ws)"
    using write_chunks_outcome [of "ideal_volumes capacity" "[]" total_bytes "\<lambda>_. False" "\<lambda>_ _. None"]
    by (auto simp: chunk_outcome_def)
  have ok: "ideal_ok capacity ws"
    using chunks_fit_ideal [OF ws(1)] assms(1) by (simp add: ideal_ok_def chunk_bytes_def)
  have "unat (c_usable c) - 67108864 \<le> unat (written_on (c_letter c) ws)" if "c \<in> set capacity" for c
  proof -
    obtain l u m where c: "c = (l, u, m)" by (cases c)
    have "exhausted rest (l, u - written_on l ws, m)"
      using ws(4) that c by (force simp: ideal_volumes_def list_all_iff)
    moreover have "unat (u - written_on l ws) = unat u - unat (written_on l ws)"
      using ok that c by (auto simp: ideal_ok_def unat_sub word_le_nat_alt)
    moreover have "67108864 \<le> unat m" using assms(2) that c by (auto simp: list_all_iff)
    ultimately show ?thesis using c by (auto simp: exhausted_def Let_def min_def split: if_splits)
  qed
  then have "(\<Sum>c\<leftarrow>capacity. unat (c_usable c) - 67108864) \<le> (\<Sum>c\<leftarrow>capacity. unat (written_on (c_letter c) ws))"
    by (intro sum_list_mono) auto
  also have "\<dots> = chunk_bytes ws" using ok by (simp add: ideal_ok_def)
  also have "\<dots> < unat total_bytes" using ws(2,3) by simp
  finally show ?thesis using assms(3) by simp
qed simp

theorem chunk_loop_succeeds_witness:
  "is_ok (write_image_chunks (\<lambda>_. False) (ideal_volumes [(68, 5000000000, 4294967295), (69, 300000000, - 1)])
     (\<lambda>_ _. None) 5100000000 [])"
  by (rule chunk_loop_succeeds) (simp_all add: unat_max_word)

text \<open>The planner and the loop disagree about volumes with less than 64 MiB to spare.\<close>

definition narrow_request :: scatter_request where
  "narrow_request =
     \<lparr>sr_volumes = [\<lparr>sv_letter = 68, sv_free = 2199912448, sv_max_file = - 1\<rparr>,
                    \<lparr>sv_letter = 69, sv_free = 589299712, sv_max_file = - 1\<rparr>],
      sr_image = SingleFile 83886080 True, sr_primary_fixed = 0, sr_flexible = 0\<rparr>"

definition planned_capacity :: "scatter_request \<Rightarrow> scalar \<Rightarrow> candidate list" where
  "planned_capacity r primary = initial_capacity (sr_volumes r) primary (sr_primary_fixed r)"

text \<open>C37. A plan the planner accepts may be impossible to carry out. For an image of 80 MiB and two
  volumes with 50 MiB to spare each, the planner promises chunked placement, because it adds up the free
  bytes; but on exactly these volumes the loop writes nothing and fails with \<open>scatter_no_space\<close>, because
  no chunk of at least 64 MiB fits anywhere.\<close>

theorem planned_chunks_cannot_be_written:
  "(\<exists>plan. plan_scattered_staging narrow_request = Inr plan \<and> sp_image plan = Chunked \<and>
     write_image_chunks (\<lambda>_. False) (ideal_volumes (planned_capacity narrow_request (sp_primary plan)))
       (\<lambda>_ _. None) 83886080 [] = Inl (NoSpace 83886080))"
proof -
  have cap: "initial_capacity (sr_volumes narrow_request) 68 0 = [(68, 52428800, - 1), (69, 52428800, - 1)]"
    by (simp add: initial_capacity_def narrow_request_def usable_on_def saturating_sub_def scatter_reserve_bytes_def
        STAGING_OPERATIONAL_HEADROOM_BYTES_def SCATTER_SECONDARY_RESERVE_BYTES_def)
  have vols: "sorted_volumes narrow_request = sr_volumes narrow_request"
    by (simp add: sorted_volumes_def narrow_request_def)
  have "place_image narrow_request 68 [(68, 52428800, - 1), (69, 52428800, - 1)] =
    Inr (drain (chunk_order [(68, 52428800, - 1), (69, 52428800, - 1)]) 83886080
      [(68, 52428800, - 1), (69, 52428800, - 1)], Chunked, [])"
    by (simp add: place_image_def narrow_request_def place_single_def best_fit_def unit_fits_def total_usable_def
        saturating_add_def)
  moreover have "find (\<lambda>v. 0 \<le> saturating_sub (sv_free v) (scatter_reserve_bytes True)) (sr_volumes narrow_request) =
    Some (hd (sr_volumes narrow_request))"
    by (simp add: narrow_request_def)
  ultimately have "plan_scattered_staging narrow_request =
      Inr \<lparr>sp_primary = 68, sp_image = Chunked, sp_reservations = []\<rparr>"
    using vols cap
    by (simp add: plan_scattered_staging_def primary_needs_def narrow_request_def Let_def)
  moreover have "write_image_chunks (\<lambda>_. False) (ideal_volumes [(68, 52428800, - 1), (69, 52428800, - 1)])
      (\<lambda>_ _. None) 83886080 [] = Inl (NoSpace 83886080)"
    by (subst write_image_chunks.simps)
      (simp add: ideal_volumes_def next_image_chunk_len_def IMAGE_CHUNK_MIN_BYTES_def)
  ultimately show ?thesis
    using cap by (simp add: planned_capacity_def narrow_request_def)
qed

subsection \<open>What an accepted plan promises\<close>

definition usable_sum :: "candidate list \<Rightarrow> nat" where
  "usable_sum cs = (\<Sum>c\<leftarrow>cs. unat (c_usable c))"

lemma usable_sum_simps [simp]:
  "usable_sum [] = 0" "usable_sum (c # cs) = unat (c_usable c) + usable_sum cs"
  by (simp_all add: usable_sum_def)

lemma foldl_saturating: "unat (foldl saturating_add a us) = min (unat a + (\<Sum>u\<leftarrow>us. unat u)) (2 ^ 64 - 1)"
  for a :: u64
proof (induction us arbitrary: a)
  case Nil
  then show ?case using unat_bound [of a] by simp
next
  case (Cons u us)
  then show ?case by (simp add: unat_saturating_add min_def)
qed

lemma unat_total_usable: "unat (total_usable cs) = min (usable_sum cs) (2 ^ 64 - 1)"
  by (simp add: total_usable_def foldl_saturating usable_sum_def o_def)

lemma le_total_usable: "\<not> total_usable cs < n \<Longrightarrow> unat n \<le> usable_sum cs"
  by (simp add: word_less_nat_alt unat_total_usable)

lemma map_fst_take_bytes [simp]: "map fst (take_bytes cs l n) = map fst cs"
  by (induction cs l n rule: take_bytes.induct) auto

lemma map_of_take_bytes:
  "map_of (take_bytes cs l n) k =
     (if k = l then map_option (\<lambda>(u, m). (saturating_sub u n, m)) (map_of cs l) else map_of cs k)"
  by (induction cs l n rule: take_bytes.induct) auto

lemma usable_sum_take_bytes:
  "map_of cs l = Some (u, m) \<Longrightarrow> n \<le> u \<Longrightarrow> usable_sum (take_bytes cs l n) + unat n = usable_sum cs"
  by (induction cs l n rule: take_bytes.induct)
    (auto simp: saturating_sub_def unat_sub word_le_nat_alt split: if_splits)

lemma best_fit_Some:
  assumes "best_fit cs n f = Some l" "distinct (map fst cs)"
  shows "\<exists>u m. map_of cs l = Some (u, m) \<and> n \<le> u \<and> f \<le> m"
  using assms min_by_key_Some(1) by (fastforce simp: best_fit_def unit_fits_def)

lemma sum_update:
  "i < length xs \<Longrightarrow> sum_list (xs[i := v]) + xs ! i = sum_list xs + (v :: nat)"
  by (induction xs arbitrary: i) (auto split: nat.splits)

lemma usable_sum_update:
  "i < length cs \<Longrightarrow> usable_sum (cs[i := c]) + unat (c_usable (cs ! i)) = usable_sum cs + unat (c_usable c)"
  using sum_update [of i "map (\<lambda>c. unat (c_usable c)) cs" "unat (c_usable c)"]
  by (simp add: usable_sum_def map_update)

lemma usable_sum_drain:
  "distinct order \<Longrightarrow> set order \<subseteq> {..<length cs} \<Longrightarrow> unat n \<le> (\<Sum>i\<leftarrow>order. unat (c_usable (cs ! i))) \<Longrightarrow>
     usable_sum (drain order n cs) + unat n = usable_sum cs"
proof (induction order n cs rule: drain.induct)
  case (2 i order n cs)
  obtain l u m where i: "cs ! i = (l, u, m)" by (cases "cs ! i")
  let ?used = "min n u" and ?cs = "cs[i := (l, u - min n u, m)]"
  have used: "?used \<le> n" "?used \<le> u" by auto
  have split: "unat (n - ?used) + unat ?used = unat n" "unat (u - ?used) + unat ?used = unat u"
    using used by (simp_all add: unat_sub word_le_nat_alt del: min_le_iff_disj)
  have upd: "usable_sum ?cs + unat ?used = usable_sum cs"
    using usable_sum_update [of i cs "(l, u - ?used, m)"] 2(3) i split by simp
  show ?case
  proof (cases "n - ?used = 0")
    case True
    then have "unat (n - ?used) = 0" by simp
    then show ?thesis using True upd split i by (simp add: Let_def)
  next
    case False
    then have "\<not> n \<le> u" by (auto simp: min_def)
    then have full: "?used = u" by (simp add: min_def)
    have "(\<Sum>j\<leftarrow>order. unat (c_usable (?cs ! j))) = (\<Sum>j\<leftarrow>order. unat (c_usable (cs ! j)))"
    proof (intro arg_cong [where f = sum_list] map_cong refl)
      fix j
      assume "j \<in> set order"
      then have "i \<noteq> j" using 2(2) by auto
      then show "unat (c_usable (?cs ! j)) = unat (c_usable (cs ! j))" by simp
    qed
    then have "unat (n - ?used) \<le> (\<Sum>j\<leftarrow>order. unat (c_usable (?cs ! j)))"
      using 2(4) split full i by simp
    then have "usable_sum (drain order (n - ?used) ?cs) + unat (n - ?used) = usable_sum ?cs"
      using 2(1) [OF refl i [symmetric] refl refl refl False] 2(2,3) by simp
    then show ?thesis using False upd split i by (simp add: Let_def)
  qed
qed simp

lemma usable_sum_chunk_order:
  "unat n \<le> usable_sum cs \<Longrightarrow> usable_sum (drain (chunk_order cs) n cs) + unat n = usable_sum cs"
proof (rule usable_sum_drain)
  assume "unat n \<le> usable_sum cs"
  moreover have "(\<Sum>i\<leftarrow>chunk_order cs. unat (c_usable (cs ! i))) = (\<Sum>i\<leftarrow>[0..<length cs]. unat (c_usable (cs ! i)))"
    by (simp add: sum_list_distinct_conv_sum_set chunk_order_def)
  moreover have "\<dots> = usable_sum cs"
    by (simp add: usable_sum_def sum_list_sum_nth interv_sum_list_conv_sum_set_nat atLeast0LessThan)
  ultimately show "unat n \<le> (\<Sum>i\<leftarrow>chunk_order cs. unat (c_usable (cs ! i)))" by simp
qed (auto simp: chunk_order_def)

text \<open>Placing the files of a set one by one: what each volume has lost is what it holds.\<close>

definition file_sum :: "u64 list \<Rightarrow> nat set \<Rightarrow> nat" where
  "file_sum files P = (\<Sum>i\<in>P. unat (files ! i))"

definition files_on :: "u64 list \<Rightarrow> scalar list \<Rightarrow> nat set \<Rightarrow> scalar \<Rightarrow> nat" where
  "files_on files assigned P l = (\<Sum>i\<in>P. if assigned ! i = l then unat (files ! i) else 0)"

definition placed :: "candidate list \<Rightarrow> u64 list \<Rightarrow> nat set \<Rightarrow> file_state \<Rightarrow> bool" where
  "placed cs0 files P st \<longleftrightarrow> (case st of (cs, assigned, reservations) \<Rightarrow>
     map fst cs = map fst cs0 \<and> length assigned = length files \<and>
     (\<forall>l u m. map_of cs0 l = Some (u, m) \<longrightarrow>
        (\<exists>u'. map_of cs l = Some (u', m) \<and> unat u' + files_on files assigned P l = unat u)) \<and>
     usable_sum cs + file_sum files P = usable_sum cs0 \<and>
     (\<forall>i\<in>P. \<exists>u m. map_of cs0 (assigned ! i) = Some (u, m) \<and> files ! i \<le> m) \<and>
     (\<forall>l. (case map_of reservations l of None \<Rightarrow> 0 | Some b \<Rightarrow> unat b) = files_on files assigned P l))"

lemma map_of_add_reservation:
  "map_of (add_reservation rs l n) k =
     (if k = l then Some (case map_of rs l of None \<Rightarrow> n | Some b \<Rightarrow> saturating_add b n) else map_of rs k)"
  by (induction rs l n rule: add_reservation.induct) auto

lemma files_on_insert:
  assumes "finite P" "i \<notin> P" "i < length assigned"
  shows "files_on files (assigned[i := l]) (insert i P) k =
    files_on files assigned P k + (if k = l then unat (files ! i) else 0)"
proof -
  have "(\<Sum>j\<in>P. if assigned[i := l] ! j = k then unat (files ! j) else 0) = files_on files assigned P k"
    unfolding files_on_def
  proof (rule sum.cong [OF refl])
    fix j
    assume "j \<in> P"
    then have "i \<noteq> j" using assms(2) by auto
    then show "(if assigned[i := l] ! j = k then unat (files ! j) else 0) =
        (if assigned ! j = k then unat (files ! j) else 0)" by simp
  qed
  then show ?thesis using assms by (auto simp: files_on_def)
qed

lemma place_file_step:
  assumes inv: "placed cs0 files P st" and step: "place_file files st i = Inr st'"
    and i: "i \<notin> P" "i < length files" "finite P" and d: "distinct (map fst cs0)"
  shows "placed cs0 files (insert i P) st'"
proof -
  obtain cs assigned rs where st: "st = (cs, assigned, rs)" by (cases st) auto
  let ?n = "files ! i"
  obtain c where best: "max_by_key (\<lambda>c. (c_usable c, Reverse (c_letter c))) (filter (unit_fits ?n ?n) cs) = Some c"
    and st': "st' = (take_bytes cs (c_letter c) ?n, assigned[i := c_letter c], add_reservation rs (c_letter c) ?n)"
    using step by (auto simp: place_file_def st Let_def res_simps)
  obtain l u m where c: "c = (l, u, m)" by (cases c)
  have dc: "distinct (map fst cs)" and len: "i < length assigned"
    using inv d i(2) by (auto simp: placed_def st)
  have in_cs: "(l, u, m) \<in> set cs" "?n \<le> u" "?n \<le> m"
    using max_by_key_Some(1) [OF best] by (auto simp: c unit_fits_def)
  then have cs_l: "map_of cs l = Some (u, m)" using dc by simp
  have l0: "l \<in> fst ` set cs0" using inv in_cs(1) by (metis (mono_tags, lifting) case_prod_conv fst_conv image_eqI list.set_map placed_def st)
  then obtain u0 m0 where first: "map_of cs0 l = Some (u0, m0)" by (metis map_of_eq_None_iff not_Some_eq prod.exhaust)
  moreover obtain u' where "map_of cs l = Some (u', m0)" "unat u' + files_on files assigned P l = unat u0"
  proof -
    have "\<forall>l u m. map_of cs0 l = Some (u, m) \<longrightarrow>
        (\<exists>u'. map_of cs l = Some (u', m) \<and> unat u' + files_on files assigned P l = unat u)"
      using inv by (simp add: placed_def st)
    then show ?thesis using that first by blast
  qed
  ultimately have cs0_l: "map_of cs0 l = Some (u0, m)" and u0: "unat u + files_on files assigned P l = unat u0"
    using cs_l by auto
  have sub: "unat (saturating_sub u ?n) + unat ?n = unat u"
    using in_cs(2) by (simp add: unat_saturating_sub word_le_nat_alt)
  note on = files_on_insert [OF i(3,1) len, of files l]
  have res: "(case map_of rs k of None \<Rightarrow> 0 | Some b \<Rightarrow> unat b) = files_on files assigned P k" for k
    using inv by (simp add: placed_def st)
  have below: "files_on files assigned P l + unat ?n < 2 ^ 64"
    using u0 in_cs(2) unat_bound [of u0] by (simp add: word_le_nat_alt)
  have reservation: "(case map_of (add_reservation rs l ?n) k of None \<Rightarrow> 0 | Some b \<Rightarrow> unat b) =
      files_on files (assigned[i := l]) (insert i P) k" for k
    using res [of k] res [of l] below
    by (auto simp: map_of_add_reservation on unat_saturating_add split: option.splits)
  have vols: "\<exists>u'. map_of (take_bytes cs l ?n) k = Some (u', m') \<and>
      unat u' + files_on files (assigned[i := l]) (insert i P) k = unat v" if "map_of cs0 k = Some (v, m')" for k v m'
    using inv that cs_l cs0_l u0 sub by (cases "k = l") (auto simp: placed_def st map_of_take_bytes on)
  have each: "\<exists>v m'. map_of cs0 (assigned[i := l] ! j) = Some (v, m') \<and> files ! j \<le> m'" if "j \<in> insert i P" for j
    using inv that cs0_l in_cs(3) len by (cases "j = i") (auto simp: placed_def st nth_list_update)
  have sums: "usable_sum (take_bytes cs l ?n) + file_sum files (insert i P) = usable_sum cs0"
    using inv usable_sum_take_bytes [OF cs_l in_cs(2)] i by (simp add: placed_def st file_sum_def)
  show ?thesis
    using inv vols each sums reservation unfolding placed_def st st' c by simp
qed

lemma place_files:
  assumes "placed cs0 files P st" "try_fold (place_file files) st order = Inr st'"
    and "distinct order" "set order \<inter> P = {}" "set order \<subseteq> {..<length files}" "finite P" "distinct (map fst cs0)"
  shows "placed cs0 files (P \<union> set order) st'"
  using assms
proof (induction order arbitrary: P st)
  case (Cons i order)
  then obtain st1 where "place_file files st i = Inr st1" "try_fold (place_file files) st1 order = Inr st'"
    by (auto simp: res_simps)
  with Cons show ?case
    using Cons.IH [of "insert i P" st1] place_file_step [of cs0 files P st i st1] by auto
qed simp

lemma placed_start: "placed cs files {} (cs, replicate (length files) primary, [])"
  by (auto simp: placed_def files_on_def file_sum_def)

lemma place_all_files:
  assumes "try_fold (place_file files) (cs, replicate (length files) primary, []) (file_order files) = Inr st"
    and "distinct (map fst cs)"
  shows "placed cs files {..<length files} st"
  using place_files [OF placed_start assms(1)] assms(2) by (auto simp: file_order_def atLeast0LessThan)

definition staged_total :: "image_demand \<Rightarrow> nat" where
  "staged_total d = (case d of
     SingleFile n _ \<Rightarrow> unat n
   | IndependentFiles fs \<Rightarrow> (\<Sum>f\<leftarrow>fs. unat f)
   | TogetherFiles fs \<Rightarrow> (\<Sum>f\<leftarrow>fs. unat f)
   | PrimaryTree _ \<Rightarrow> 0)"

definition holds :: "candidate list \<Rightarrow> scalar \<Rightarrow> nat \<Rightarrow> u64 list \<Rightarrow> bool" where
  "holds cs l n files \<longleftrightarrow>
     (\<exists>u m. map_of cs l = Some (u, m) \<and> n \<le> unat u \<and> list_all (\<lambda>f. f \<le> m) files)"

definition set_whole :: "candidate list \<Rightarrow> u64 list \<Rightarrow> scalar \<Rightarrow> (scalar \<times> u64) list \<Rightarrow> bool" where
  "set_whole cs files l reservations \<longleftrightarrow>
     (\<exists>t. unat t = (\<Sum>f\<leftarrow>files. unat f) \<and> holds cs l (unat t) files \<and> reservations = [(l, t)])"

definition set_spread :: "candidate list \<Rightarrow> u64 list \<Rightarrow> scalar list \<Rightarrow> (scalar \<times> u64) list \<Rightarrow> bool" where
  "set_spread cs files ls reservations \<longleftrightarrow> length ls = length files \<and>
     (\<forall>i < length files. holds cs (ls ! i) 0 [files ! i]) \<and>
     (\<forall>l. (case map_of reservations l of None \<Rightarrow> 0 | Some b \<Rightarrow> unat b) = files_on files ls {..<length files} l) \<and>
     (\<forall>(l, u, m) \<in> set cs. files_on files ls {..<length files} l \<le> unat u)"

definition image_placed ::
  "scalar \<Rightarrow> candidate list \<Rightarrow> image_demand \<Rightarrow> image_placement \<Rightarrow> (scalar \<times> u64) list \<Rightarrow> bool" where
  "image_placed primary cs demand img reservations = (case (demand, img) of
     (PrimaryTree _, Whole l) \<Rightarrow> l = primary \<and> reservations = []
   | (SingleFile n _, Whole l) \<Rightarrow> holds cs l (unat n) [n] \<and> reservations = [(l, n)]
   | (SingleFile n chunkable, Chunked) \<Rightarrow> chunkable \<and> reservations = []
   | (TogetherFiles files, Whole l) \<Rightarrow> set_whole cs files l reservations
   | (IndependentFiles files, Whole l) \<Rightarrow> set_whole cs files l reservations
   | (IndependentFiles files, PerFile ls) \<Rightarrow> set_spread cs files ls reservations
   | _ \<Rightarrow> False)"

lemma try_fold_checked:
  "try_fold (\<lambda>s f. ok_or (checked_add s f) e) a files = Inr t \<Longrightarrow> unat t = unat a + (\<Sum>f\<leftarrow>files. unat f)"
  by (induction files arbitrary: a) (auto simp: res_simps checked_add_Some)

lemma largest_of_bound: "largest_of files \<le> m \<Longrightarrow> list_all (\<lambda>f. f \<le> m) files"
proof (cases "max_by_key id files")
  case (Some n)
  assume "largest_of files \<le> m"
  with Some show ?thesis using max_by_key_Some(2) [OF Some] by (auto simp: largest_of_def list_all_iff intro: order_trans)
qed simp

lemma best_fit_taken:
  assumes "best_fit cs n f = Some l" "distinct (map fst cs)"
  shows "usable_sum (take_bytes cs l n) + unat n = usable_sum cs"
  using best_fit_Some [OF assms] usable_sum_take_bytes by blast

lemma place_single_sound:
  assumes "place_single cs n chunkable = Inr (cs', img, rs)" "distinct (map fst cs)"
  shows "image_placed primary cs (SingleFile n chunkable) img rs \<and> usable_sum cs' + unat n = usable_sum cs"
proof (cases "best_fit cs n n")
  case (Some l)
  then show ?thesis
    using assms best_fit_taken [OF Some] best_fit_Some [OF Some]
    by (auto simp: place_single_def image_placed_def holds_def word_le_nat_alt)
next
  case None
  then show ?thesis
    using assms usable_sum_chunk_order [OF le_total_usable]
    by (auto simp: place_single_def image_placed_def Let_def res_simps split: if_splits)
qed

lemma place_set_sound:
  assumes "place_set primary cs files together = Inr (cs', img, rs)" "distinct (map fst cs)"
  shows "image_placed primary cs (if together then TogetherFiles files else IndependentFiles files) img rs \<and>
    usable_sum cs' + (\<Sum>f\<leftarrow>files. unat f) = usable_sum cs"
proof -
  obtain t where t: "try_fold (\<lambda>s f. ok_or (checked_add s f) ImageSetOverflow) 0 files = Inr t"
    and sum: "unat t = (\<Sum>f\<leftarrow>files. unat f)"
    using assms(1) try_fold_checked by (fastforce simp: place_set_def res_simps)
  show ?thesis
  proof (cases "best_fit cs t (largest_of files)")
    case (Some l)
    then have "cs' = take_bytes cs l t" "img = Whole l" "rs = [(l, t)]"
      using assms(1) t by (auto simp: place_set_def)
    moreover have "holds cs l (unat t) files"
      using best_fit_Some [OF Some assms(2)] largest_of_bound by (auto simp: holds_def word_le_nat_alt)
    ultimately show ?thesis
      using sum best_fit_taken [OF Some assms(2)] by (auto simp: image_placed_def set_whole_def)
  next
    case None
    then obtain assigned where spread: "\<not> together" "img = PerFile assigned"
      "try_fold (place_file files) (cs, replicate (length files) primary, []) (file_order files) = Inr (cs', assigned, rs)"
      using assms(1) t by (auto simp: place_set_def res_simps split: if_splits)
    note inv = place_all_files [OF spread(3) assms(2)]
    have "file_sum files {..<length files} = (\<Sum>f\<leftarrow>files. unat f)"
      by (simp add: file_sum_def sum_list_sum_nth atLeast0LessThan)
    moreover have "files_on files assigned {..<length files} l \<le> unat u" if "(l, u, m) \<in> set cs" for l u m
    proof -
      have "map_of cs l = Some (u, m)" using that assms(2) by simp
      moreover have "\<forall>l u m. map_of cs l = Some (u, m) \<longrightarrow>
          (\<exists>u'. map_of cs' l = Some (u', m) \<and> unat u' + files_on files assigned {..<length files} l = unat u)"
        using inv by (simp add: placed_def)
      ultimately obtain u' :: u64 where "unat u' + files_on files assigned {..<length files} l = unat u" by blast
      then show ?thesis by simp
    qed
    ultimately show ?thesis
      using inv spread(1,2) by (auto simp: placed_def image_placed_def set_spread_def holds_def)
  qed
qed

lemma place_image_sound:
  assumes "place_image r primary cs = Inr (cs', img, rs)" "distinct (map fst cs)"
  shows "image_placed primary cs (sr_image r) img rs \<and> usable_sum cs' + staged_total (sr_image r) = usable_sum cs"
proof (cases "sr_image r")
  case (SingleFile n chunkable)
  then show ?thesis using assms place_single_sound by (fastforce simp: place_image_def staged_total_def)
next
  case (IndependentFiles files)
  then show ?thesis using assms place_set_sound [of primary cs files False] by (fastforce simp: place_image_def staged_total_def)
next
  case (TogetherFiles files)
  then show ?thesis using assms place_set_sound [of primary cs files True] by (fastforce simp: place_image_def staged_total_def)
next
  case (PrimaryTree n)
  then show ?thesis using assms by (auto simp: place_image_def staged_total_def image_placed_def)
qed

definition scatter_plan_sound :: "scatter_request \<Rightarrow> scatter_plan \<Rightarrow> bool" where
  "scatter_plan_sound r plan \<longleftrightarrow>
     (\<exists>needs pv. primary_needs r = Inr needs \<and> pv \<in> set (sr_volumes r) \<and> sv_letter pv = sp_primary plan \<and>
       unat needs \<le> unat (sv_free pv) - 2147483648 \<and>
       (let cs = initial_capacity (sorted_volumes r) (sp_primary plan) needs in
        image_placed (sp_primary plan) cs (sr_image r) (sp_image plan) (sp_reservations plan) \<and>
        staged_total (sr_image r) + unat (sr_flexible r) \<le> usable_sum cs))"

text \<open>C35. A plan the planner accepts respects the capacity of every volume. When the drive letters are
  different, the primary volume has room for what must lie there beside the 2 GiB headroom; an image
  kept whole fits its volume in bytes and in file size; the parts of a split image go to known volumes
  that can store them, no volume gets more than it has beyond its reserve, and the reservations are
  exactly the bytes assigned to each volume; only a chunkable image is chunked; and the image together
  with the drivers and installers fits the space of all volumes, with no wrap-around anywhere.\<close>

theorem accepted_plan_is_sound:
  assumes "plan_scattered_staging r = Inr plan" "distinct (map sv_letter (sr_volumes r))"
  shows "scatter_plan_sound r plan"
proof -
  obtain needs pv cs' where needs: "primary_needs r = Inr needs"
    and pv: "find (\<lambda>v. needs \<le> saturating_sub (sv_free v) (scatter_reserve_bytes True)) (sorted_volumes r) = Some pv"
    and placement: "place_image r (sv_letter pv) (initial_capacity (sorted_volumes r) (sv_letter pv) needs) =
      Inr (cs', sp_image plan, sp_reservations plan)"
    and rest: "\<not> total_usable cs' < sr_flexible r" and primary: "sp_primary plan = sv_letter pv"
    using assms(1) by (auto simp: plan_scattered_staging_def Let_def res_simps)
  let ?cs = "initial_capacity (sorted_volumes r) (sv_letter pv) needs"
  have "pv \<in> set (sorted_volumes r)" "needs \<le> saturating_sub (sv_free pv) (scatter_reserve_bytes True)"
    using pv by (auto simp: find_Some_iff)
  then have pv: "pv \<in> set (sr_volumes r)" "unat needs \<le> unat (sv_free pv) - 2147483648"
    by (simp_all add: sorted_volumes_def word_le_nat_alt unat_saturating_sub scatter_reserve_bytes_def
        STAGING_OPERATIONAL_HEADROOM_BYTES_def)
  have "map fst ?cs = map sv_letter (sorted_volumes r)" by (simp add: initial_capacity_def)
  then have "distinct (map fst ?cs)"
    using assms(2) by (simp add: sorted_volumes_def distinct_map)
  then have "image_placed (sv_letter pv) ?cs (sr_image r) (sp_image plan) (sp_reservations plan)"
    "usable_sum cs' + staged_total (sr_image r) = usable_sum ?cs"
    using place_image_sound [OF placement] by simp_all
  then show ?thesis
    unfolding scatter_plan_sound_def Let_def primary
    using needs pv le_total_usable [OF rest] by (intro exI conjI) auto
qed

definition spread_request :: scatter_request where
  "spread_request =
     \<lparr>sr_volumes = [\<lparr>sv_letter = 69, sv_free = 536871012, sv_max_file = - 1\<rparr>,
                    \<lparr>sv_letter = 68, sv_free = 2147483748, sv_max_file = - 1\<rparr>],
      sr_image = IndependentFiles [10, 90, 80], sr_primary_fixed = 0, sr_flexible = 20\<rparr>"

definition spread_plan :: scatter_plan where
  "spread_plan =
     \<lparr>sp_primary = 68, sp_image = PerFile [69, 68, 69], sp_reservations = [(68, 90), (69, 90)]\<rparr>"

lemma spread_volumes: "sorted_volumes spread_request = rev (sr_volumes spread_request)"
  by (simp add: sorted_volumes_def spread_request_def)

lemma spread_capacity:
  "initial_capacity (rev (sr_volumes spread_request)) 68 0 = [(68, 100, - 1), (69, 100, - 1)]"
  by (simp add: initial_capacity_def spread_request_def usable_on_def saturating_sub_def scatter_reserve_bytes_def
      STAGING_OPERATIONAL_HEADROOM_BYTES_def SCATTER_SECONDARY_RESERVE_BYTES_def)

lemma spread_order: "file_order [10, 90, 80] = [1, 2, 0]"
  by (simp add: file_order_def upt_rec)

lemma spread_files:
  "place_file [10, 90, 80] ([(68, 100, - 1), (69, 100, - 1)], [68, 68, 68], []) 1 =
     Inr ([(68, 10, - 1), (69, 100, - 1)], [68, 68, 68], [(68, 90)])"
  "place_file [10, 90, 80] ([(68, 10, - 1), (69, 100, - 1)], [68, 68, 68], [(68, 90)]) 2 =
     Inr ([(68, 10, - 1), (69, 20, - 1)], [68, 68, 69], [(68, 90), (69, 80)])"
  "place_file [10, 90, 80] ([(68, 10, - 1), (69, 20, - 1)], [68, 68, 69], [(68, 90), (69, 80)]) 0 =
     Inr ([(68, 10, - 1), (69, 10, - 1)], [69, 68, 69], [(68, 90), (69, 90)])"
  by (simp_all add: place_file_def unit_fits_def saturating_sub_def saturating_add_def)

lemma spread_place:
  "place_image spread_request 68 [(68, 100, - 1), (69, 100, - 1)] =
    Inr ([(68, 10, - 1), (69, 10, - 1)], PerFile [69, 68, 69], [(68, 90), (69, 90)])"
  using spread_files
  by (simp add: place_image_def spread_request_def place_set_def best_fit_def unit_fits_def checked_add_def
      largest_of_def spread_order numeral_3_eq_3)

lemma spread_request_plan: "plan_scattered_staging spread_request = Inr spread_plan"
  using spread_volumes spread_capacity spread_place
  by (simp add: plan_scattered_staging_def primary_needs_def spread_request_def spread_plan_def Let_def
      total_usable_def saturating_add_def)

theorem accepted_plan_is_sound_witness: "scatter_plan_sound spread_request spread_plan"
  by (rule accepted_plan_is_sound [OF spread_request_plan]) (simp add: spread_request_def)

end
