(* ===== verification/RawMove.thy ===== *)
theory RawMove
  imports Text
begin

section \<open>Moving partition data on the raw disk\<close>

text \<open>
  \<open>core/expand_move.rs\<close> of the boot environment: the bytes of a partition are copied to another
  place of the same disk, in chunks, although source and destination may overlap. A move to the
  right copies from the last chunk to the first, a move to the left from the first to the last.

  The disk is a function from byte offsets to bytes. What the system calls answer is a parameter:
  the sector geometry, whether the disk opens and still has the expected layout, whether the
  buffer can be allocated, whether flushing succeeds, and for each chunk whether reading fails or
  writing fails after some bytes. Offsets and lengths are 64-bit words. The loops are partial
  functions, because a chunk of no bytes would repeat them for ever; that they return is proved.
\<close>

type_synonym disk_bytes = "nat \<Rightarrow> char"

abbreviation i64_max :: nat where "i64_max \<equiv> 9223372036854775807"

definition COPY_CHUNK :: u64 where "COPY_CHUNK = 4194304"

datatype move_direction = MoveLeft | MoveRight

record sector_geometry =
  logical_sector_bytes :: u32
  physical_sector_bytes :: u32
  sector_alignment_offset_bytes :: u32

record raw_io_plan =
  io_physical_sector :: u64
  io_chunk :: u64

definition check_aligned :: "u64 \<Rightarrow> string \<times> u64 \<Rightarrow> string + unit" where
  "check_aligned logical nv = (case nv of (name, v) \<Rightarrow>
     ensure (v mod logical = 0)
       (''raw move '' @ name @ '' '' @ show_nat (unat v) @
        '' is not aligned to the current logical sector size '' @ show_nat (unat logical)))"

definition destination_start :: "move_direction \<Rightarrow> u64 \<Rightarrow> u64 \<Rightarrow> string + u64" where
  "destination_start dir src delta = (case dir of
     MoveLeft \<Rightarrow> ok_or (checked_sub src delta) ''raw move destination starts before disk zero''
   | MoveRight \<Rightarrow> ok_or (checked_add src delta) ''raw move destination offset overflows'')"

definition plan_raw_move_io ::
  "sector_geometry \<Rightarrow> u64 \<Rightarrow> u64 \<Rightarrow> u64 \<Rightarrow> u64 \<Rightarrow> move_direction \<Rightarrow> string + raw_io_plan" where
  "plan_raw_move_io g disk_size src len delta dir =
     (let logical = (ucast (logical_sector_bytes g) :: u64);
          physical = (ucast (physical_sector_bytes g) :: u64);
          alignment = (ucast (sector_alignment_offset_bytes g) :: u64) in
      if logical = 0 \<or> physical < logical \<or> physical mod logical \<noteq> 0 \<or> physical \<le> alignment \<or>
         alignment mod logical \<noteq> 0
      then Inl ''physical disk reported invalid sector geometry''
      else if len = 0 \<or> delta = 0 then Inl ''raw move length and delta must be non-zero''
      else
        and_then (try_fold (\<lambda>_. check_aligned logical) ()
          [(''source offset'', src), (''length'', len), (''delta'', delta)]) (\<lambda>_.
        and_then (ok_or (checked_add src len) ''raw move source range overflows'') (\<lambda>source_end.
        and_then (destination_start dir src delta) (\<lambda>start.
        and_then (ok_or (checked_add start len) ''raw move destination range overflows'') (\<lambda>destination_end.
        if disk_size < source_end \<or> disk_size < destination_end
        then Inl ''raw move source or destination is outside the current disk capacity''
        else if i64_max < unat source_end \<or> i64_max < unat destination_end
        then Inl ''raw move range exceeds SetFilePointerEx signed range''
        else
          (let preferred = max COPY_CHUNK logical;
               chunk = preferred - preferred mod logical in
           and_then (ok_or (checked_add chunk (saturating_sub physical 1))
             ''aligned raw-I/O buffer size overflows'') (\<lambda>allocation.
           if i64_max < unat allocation \<or> 2 ^ 32 - 1 < unat chunk
           then Inl ''raw-I/O buffer size exceeds Win32 or Rust slice limits''
           else Inr \<lparr>io_physical_sector = physical, io_chunk = chunk\<rparr>)))))))"

subsection \<open>The copy loops\<close>

definition read_at :: "disk_bytes \<Rightarrow> nat \<Rightarrow> nat \<Rightarrow> bytes" where
  "read_at d offset n = map d [offset..<offset + n]"

definition write_at :: "disk_bytes \<Rightarrow> nat \<Rightarrow> bytes \<Rightarrow> disk_bytes" where
  "write_at d offset data =
     (\<lambda>a. if offset \<le> a \<and> a < offset + length data then data ! (a - offset) else d a)"

datatype chunk_fault = ReadFault string | WriteFault nat string

text \<open>\<open>seek\<close>, \<open>read_exact\<close>, \<open>seek\<close>, \<open>write_exact\<close> for one chunk.\<close>

definition copy_chunk ::
  "chunk_fault option \<Rightarrow> u64 \<Rightarrow> u64 \<Rightarrow> u64 \<Rightarrow> disk_bytes \<Rightarrow> (string + unit) \<times> disk_bytes" where
  "copy_chunk fault from_offset to_offset this d =
     (if i64_max < unat from_offset then (Inl ''raw read offset exceeds SetFilePointerEx range'', d)
      else if i64_max < unat to_offset then (Inl ''raw write offset exceeds SetFilePointerEx range'', d)
      else
        (let data = read_at d (unat from_offset) (unat this) in
         case fault of
           None \<Rightarrow> (Inr (), write_at d (unat to_offset) data)
         | Some (ReadFault e) \<Rightarrow> (Inl e, d)
         | Some (WriteFault n e) \<Rightarrow> (Inl e, write_at d (unat to_offset) (take n data))))"

partial_function (option) move_right_loop ::
  "(u64 \<Rightarrow> chunk_fault option) \<Rightarrow> u64 \<Rightarrow> u64 \<Rightarrow> u64 \<Rightarrow> u64 \<Rightarrow> disk_bytes \<Rightarrow>
    ((string + unit) \<times> disk_bytes) option" where
  "move_right_loop fault src delta chunk pos d =
     (if pos = 0 then Some (Inr (), d)
      else
        (let this = min chunk pos;
             rel = pos - this in
         case copy_chunk (fault pos) (src + rel) (src + delta + rel) this d of
           (Inl e, d') \<Rightarrow> Some (Inl e, d')
         | (Inr _, d') \<Rightarrow> move_right_loop fault src delta chunk (pos - this) d'))"

partial_function (option) move_left_loop ::
  "(u64 \<Rightarrow> chunk_fault option) \<Rightarrow> u64 \<Rightarrow> u64 \<Rightarrow> u64 \<Rightarrow> u64 \<Rightarrow> u64 \<Rightarrow> disk_bytes \<Rightarrow>
    ((string + unit) \<times> disk_bytes) option" where
  "move_left_loop fault src len delta chunk pos d =
     (if len \<le> pos then Some (Inr (), d)
      else
        (let this = min chunk (len - pos) in
         case copy_chunk (fault pos) (src + pos) (src - delta + pos) this d of
           (Inl e, d') \<Rightarrow> Some (Inl e, d')
         | (Inr _, d') \<Rightarrow> move_left_loop fault src len delta chunk (pos + this) d'))"

record move_io =
  io_geometry :: "string + sector_geometry"
  io_open :: "string + unit"
  io_verify :: "string + unit"
  io_buffer :: "string + unit"
  io_fault :: "u64 \<Rightarrow> chunk_fault option"
  io_flush :: "string + unit"

text \<open>\<open>AlignedIoBuffer::new\<close>, apart from the address of the allocation.\<close>

definition aligned_buffer :: "move_io \<Rightarrow> raw_io_plan \<Rightarrow> string + unit" where
  "aligned_buffer w p =
     and_then (ensure (\<not> (io_chunk p = 0 \<or> io_physical_sector p = 0))
       ''aligned raw-I/O buffer requires non-zero size and alignment'') (\<lambda>_.
     and_then (ok_or (checked_add (io_chunk p) (io_physical_sector p - 1))
       ''aligned raw-I/O allocation size overflows'') (\<lambda>_. io_buffer w))"

definition raw_move ::
  "move_direction \<Rightarrow> move_io \<Rightarrow> u64 \<Rightarrow> u64 \<Rightarrow> u64 \<Rightarrow> u64 \<Rightarrow>
    (raw_io_plan \<Rightarrow> disk_bytes \<Rightarrow> ((string + unit) \<times> disk_bytes) option) \<Rightarrow> disk_bytes \<Rightarrow>
    ((string + unit) \<times> disk_bytes) option" where
  "raw_move dir w disk_size src len delta copy d =
     (case and_then (io_geometry w) (\<lambda>g.
           and_then (plan_raw_move_io g disk_size src len delta dir) (\<lambda>p.
           and_then (io_open w) (\<lambda>_.
           and_then (io_verify w) (\<lambda>_.
           and_then (aligned_buffer w p) (\<lambda>_. Inr p))))) of
        Inl e \<Rightarrow> Some (Inl e, d)
      | Inr p \<Rightarrow> (case copy p d of
          None \<Rightarrow> None
        | Some (Inl e, d') \<Rightarrow> Some (Inl e, d')
        | Some (Inr _, d') \<Rightarrow> Some (io_flush w, d')))"

definition raw_move_right ::
  "move_io \<Rightarrow> u64 \<Rightarrow> u64 \<Rightarrow> u64 \<Rightarrow> u64 \<Rightarrow> disk_bytes \<Rightarrow> ((string + unit) \<times> disk_bytes) option" where
  "raw_move_right w disk_size src len delta =
     raw_move MoveRight w disk_size src len delta
       (\<lambda>p. move_right_loop (io_fault w) src delta (io_chunk p) len)"

definition raw_move_left ::
  "move_io \<Rightarrow> u64 \<Rightarrow> u64 \<Rightarrow> u64 \<Rightarrow> u64 \<Rightarrow> disk_bytes \<Rightarrow> ((string + unit) \<times> disk_bytes) option" where
  "raw_move_left w disk_size src len delta d =
     (if delta = 0 \<or> src < delta then Some (Inl ''invalid parameters of a move to the left'', d)
      else raw_move MoveLeft w disk_size src len delta
        (\<lambda>p. move_left_loop (io_fault w) src len delta (io_chunk p) 0) d)"

subsection \<open>What a move does to the disk\<close>

text \<open>
  The specification: the bytes of a range read at another place, everything else as it was.
\<close>

definition relocated :: "nat \<Rightarrow> nat \<Rightarrow> nat \<Rightarrow> disk_bytes \<Rightarrow> disk_bytes" where
  "relocated src dst n d = (\<lambda>a. if dst \<le> a \<and> a < dst + n then d (src + (a - dst)) else d a)"

lemma relocated_none [simp]: "relocated src dst 0 d = d"
  by (auto simp: relocated_def fun_eq_iff)

lemma length_read_at [simp]: "length (read_at d offset n) = n"
  by (simp add: read_at_def)

lemma nth_read_at [simp]: "i < n \<Longrightarrow> read_at d offset n ! i = d (offset + i)"
  by (simp add: read_at_def)

lemma write_prefix:
  "write_at d dst (take k (read_at d src n)) = relocated src dst (min k n) d"
  by (auto simp: write_at_def relocated_def fun_eq_iff min_def)

lemma write_all: "write_at d dst (read_at d src n) = relocated src dst n d"
  using write_prefix [of d dst n src n] by simp

text \<open>
  The chunk in front of a moved tail, when the destination lies to the right, and the chunk behind
  a moved head, when it lies to the left.
\<close>

lemma relocated_in_front:
  "relocated src (src + delta) k (relocated (src + t) (src + t + delta) n d) =
   (\<lambda>a. if src + delta \<le> a \<and> a < src + delta + k then d (a - delta)
        else relocated (src + t) (src + t + delta) n d a)" if "0 < delta" "k \<le> t"
  using that by (auto simp: relocated_def fun_eq_iff)

lemma relocated_extend_front:
  "0 < delta \<Longrightarrow>
   relocated src (src + delta) t (relocated (src + t) (src + t + delta) n d) =
   relocated src (src + delta) (t + n) d"
  by (auto simp: relocated_def fun_eq_iff)

lemma relocated_extend_back:
  "0 < delta \<Longrightarrow> delta \<le> src \<Longrightarrow>
   relocated (src + n) (src + n - delta) t (relocated src (src - delta) n d) =
   relocated src (src - delta) (n + t) d"
  by (auto simp: relocated_def fun_eq_iff intro!: arg_cong [where f = d])

text \<open>
  A state in the middle of a move: the tail (or head) beyond \<open>p\<close> is at its new place, and \<open>k\<close> bytes of
  the chunk of \<open>t\<close> bytes beside it have been written.
\<close>

definition cut_right :: "nat \<Rightarrow> nat \<Rightarrow> nat \<Rightarrow> nat \<Rightarrow> nat \<Rightarrow> nat \<Rightarrow> disk_bytes \<Rightarrow> disk_bytes" where
  "cut_right src delta len p t k d =
     relocated (src + (p - t)) (src + (p - t) + delta) k
       (relocated (src + p) (src + p + delta) (len - p) d)"

definition cut_left :: "nat \<Rightarrow> nat \<Rightarrow> nat \<Rightarrow> nat \<Rightarrow> disk_bytes \<Rightarrow> disk_bytes" where
  "cut_left src delta p k d =
     relocated (src + p) (src + p - delta) k (relocated src (src - delta) p d)"

lemma copy_chunk_cases:
  assumes "copy_chunk fault from_offset to_offset this d = (r, d')"
    and "unat from_offset \<le> i64_max" and "unat to_offset \<le> i64_max"
  obtains "r = Inr ()" and "d' = relocated (unat from_offset) (unat to_offset) (unat this) d"
  | e k where "r = Inl e" and "k \<le> unat this" and "d' = relocated (unat from_offset) (unat to_offset) k d"
proof (cases fault)
  case None
  with assms show thesis
    by (intro that(1)) (auto simp: copy_chunk_def write_all)
next
  case (Some f)
  show thesis
  proof (cases f)
    case (ReadFault e)
    with Some assms show thesis
      by (intro that(2) [of e 0]) (auto simp: copy_chunk_def)
  next
    case (WriteFault n e)
    with Some assms show thesis
      by (intro that(2) [of e "min n (unat this)"]) (auto simp: copy_chunk_def write_prefix)
  qed
qed

lemma unat_minus_min:
  fixes a b :: "'a::len word"
  shows "unat (b - min a b) = unat b - min (unat a) (unat b)"
  by (simp add: min_def word_le_nat_alt unat_sub)

lemma unat_add_le:
  fixes a b :: u64
  shows "unat a + unat b \<le> i64_max \<Longrightarrow> unat (a + b) = unat a + unat b"
  by (rule unat_add_no_overflow) simp

definition right_outcome ::
  "nat \<Rightarrow> nat \<Rightarrow> nat \<Rightarrow> nat \<Rightarrow> disk_bytes \<Rightarrow> (string + unit) \<times> disk_bytes \<Rightarrow> bool" where
  "right_outcome src delta len chunk d out \<longleftrightarrow> (case out of
     (Inr _, d') \<Rightarrow> d' = relocated src (src + delta) len d
   | (Inl _, d') \<Rightarrow> \<exists>p t k. p \<le> len \<and> t \<le> p \<and> t \<le> chunk \<and> k \<le> t \<and> d' = cut_right src delta len p t k d)"

lemma right_outcome_failed:
  "p \<le> len \<Longrightarrow> t \<le> p \<Longrightarrow> t \<le> chunk \<Longrightarrow> k \<le> t \<Longrightarrow>
   right_outcome src delta len chunk d (Inl e, cut_right src delta len p t k d)"
  by (auto simp: right_outcome_def)

lemma move_right_loop_outcome:
  assumes "0 < unat chunk" and "0 < unat delta" and "unat src + unat delta + unat len \<le> i64_max"
    and "unat pos \<le> unat len"
    and "d = relocated (unat src + unat pos) (unat src + unat pos + unat delta) (unat len - unat pos) d0"
  shows "\<exists>out. move_right_loop fault src delta chunk pos d = Some out \<and>
    right_outcome (unat src) (unat delta) (unat len) (unat chunk) d0 out"
  using assms(4,5)
proof (induction "unat pos" arbitrary: pos d rule: less_induct)
  case less
  show ?case
  proof (cases "pos = 0")
    case True
    with less.prems show ?thesis
      by (subst move_right_loop.simps) (simp add: right_outcome_def)
  next
    case False
    define m where "m = min chunk pos"
    define rel where "rel = pos - m"
    have size: "unat m = min (unat chunk) (unat pos)" by (simp add: m_def unat_min)
    have rel: "unat rel = unat pos - unat m"
      unfolding rel_def m_def by (simp add: unat_minus_min unat_min)
    have pos: "0 < unat pos" using False by (simp add: unat_gt_0)
    have less: "unat rel < unat pos" using pos assms(1) size rel by auto
    have from_offset: "unat (src + rel) = unat src + unat rel"
      using less assms(3) less.prems(1) by (intro unat_add_le) linarith
    have "unat (src + delta) = unat src + unat delta"
      using assms(3) by (intro unat_add_le) linarith
    then have to_offset: "unat (src + delta + rel) = unat src + unat rel + unat delta"
      using less assms(3) less.prems(1) by (subst unat_add_le) linarith+
    have split: "unat rel + unat m = unat pos" using size rel by auto
    have at_end: "unat src + unat rel + unat m = unat src + unat pos" using split by simp
    have rest: "unat m + (unat len - unat pos) = unat len - unat rel" using split less.prems(1) by simp
    obtain r d' where step: "copy_chunk (fault pos) (src + rel) (src + delta + rel) m d = (r, d')"
      by fastforce
    have bounds: "unat (src + rel) \<le> i64_max" "unat (src + delta + rel) \<le> i64_max"
      using from_offset to_offset less assms(3) less.prems(1) by linarith+
    from step bounds show ?thesis
    proof (cases rule: copy_chunk_cases)
      case 1
      have "d' = relocated (unat src + unat rel) (unat src + unat rel + unat delta)
          (unat len - unat rel) d0"
        using 1(2) relocated_extend_front [of "unat delta" "unat src + unat rel" "unat m"
            "unat len - unat pos" d0] assms(2) less.prems(2)
        by (simp only: from_offset to_offset at_end rest)
      then obtain out where "move_right_loop fault src delta chunk rel d' = Some out"
        and "right_outcome (unat src) (unat delta) (unat len) (unat chunk) d0 out"
        using less.hyps [OF less] less less.prems(1) by (metis le_trans less_imp_le)
      with False step 1(1) show ?thesis
        by (subst move_right_loop.simps) (simp add: Let_def m_def rel_def)
    next
      case (2 e k)
      have "d' = cut_right (unat src) (unat delta) (unat len) (unat pos) (unat m) k d0"
        using 2(3) less.prems(2) rel by (simp add: cut_right_def from_offset to_offset)
      moreover have "unat m \<le> unat pos" "unat m \<le> unat chunk" using size by simp_all
      ultimately have "right_outcome (unat src) (unat delta) (unat len) (unat chunk) d0 (r, d')"
        unfolding 2(1) using 2(2) less.prems(1) right_outcome_failed by blast
      with False step 2(1) show ?thesis
        by (subst move_right_loop.simps) (simp add: Let_def m_def rel_def)
    qed
  qed
qed

definition left_outcome ::
  "nat \<Rightarrow> nat \<Rightarrow> nat \<Rightarrow> nat \<Rightarrow> disk_bytes \<Rightarrow> (string + unit) \<times> disk_bytes \<Rightarrow> bool" where
  "left_outcome src delta len chunk d out \<longleftrightarrow> (case out of
     (Inr _, d') \<Rightarrow> d' = relocated src (src - delta) len d
   | (Inl _, d') \<Rightarrow> \<exists>p k. k \<le> chunk \<and> p + k \<le> len \<and> d' = cut_left src delta p k d)"

lemma left_outcome_failed:
  "k \<le> chunk \<Longrightarrow> p + k \<le> len \<Longrightarrow> left_outcome src delta len chunk d (Inl e, cut_left src delta p k d)"
  by (auto simp: left_outcome_def)

lemma move_left_loop_outcome:
  assumes "0 < unat chunk" and "0 < unat delta" and "unat delta \<le> unat src"
    and "unat src + unat len \<le> i64_max" and "unat pos \<le> unat len"
    and "d = relocated (unat src) (unat src - unat delta) (unat pos) d0"
  shows "\<exists>out. move_left_loop fault src len delta chunk pos d = Some out \<and>
    left_outcome (unat src) (unat delta) (unat len) (unat chunk) d0 out"
  using assms(5,6)
proof (induction "unat len - unat pos" arbitrary: pos d rule: less_induct)
  case less
  show ?case
  proof (cases "len \<le> pos")
    case True
    then have "unat pos = unat len" using less.prems(1) by (simp add: word_le_nat_alt)
    with True less.prems show ?thesis
      by (subst move_left_loop.simps) (simp add: left_outcome_def)
  next
    case False
    define m where "m = min chunk (len - pos)"
    have pos: "unat pos < unat len" using False by (simp add: word_le_nat_alt)
    have size: "unat m = min (unat chunk) (unat len - unat pos)"
      using pos by (simp add: m_def unat_min unat_sub word_le_nat_alt)
    have next_pos: "unat (pos + m) = unat pos + unat m"
      using size pos assms(4) by (intro unat_add_le) auto
    have less: "unat len - unat (pos + m) < unat len - unat pos"
      using pos assms(1) size next_pos by auto
    have le: "unat (pos + m) \<le> unat len" using size next_pos pos by auto
    have from_offset: "unat (src + pos) = unat src + unat pos"
      using pos assms(4) by (intro unat_add_le) linarith
    have "unat (src - delta) = unat src - unat delta"
      using assms(3) by (simp add: unat_sub word_le_nat_alt)
    then have to_offset: "unat (src - delta + pos) = unat src + unat pos - unat delta"
      using pos assms(3,4) by (subst unat_add_le) linarith+
    obtain r d' where step: "copy_chunk (fault pos) (src + pos) (src - delta + pos) m d = (r, d')"
      by fastforce
    have bounds: "unat (src + pos) \<le> i64_max" "unat (src - delta + pos) \<le> i64_max"
      using from_offset to_offset assms(4) pos by linarith+
    from step bounds show ?thesis
    proof (cases rule: copy_chunk_cases)
      case 1
      have "d' = relocated (unat src) (unat src - unat delta) (unat (pos + m)) d0"
        using 1(2) relocated_extend_back [of "unat delta" "unat src" "unat pos" "unat m" d0]
          assms(2,3) less.prems(2)
        by (simp only: from_offset to_offset next_pos)
      then obtain out where "move_left_loop fault src len delta chunk (pos + m) d' = Some out"
        and "left_outcome (unat src) (unat delta) (unat len) (unat chunk) d0 out"
        using less.hyps [OF less le] by metis
      with False step 1(1) show ?thesis
        by (subst move_left_loop.simps) (simp add: Let_def m_def)
    next
      case (2 e k)
      have "d' = cut_left (unat src) (unat delta) (unat pos) k d0"
        using 2(3) less.prems(2) by (simp add: cut_left_def from_offset to_offset)
      moreover have "k \<le> unat chunk" "unat pos + k \<le> unat len" using 2(2) size pos by auto
      ultimately have "left_outcome (unat src) (unat delta) (unat len) (unat chunk) d0 (r, d')"
        unfolding 2(1) using left_outcome_failed by blast
      with False step 2(1) show ?thesis
        by (subst move_left_loop.simps) (simp add: Let_def m_def)
    qed
  qed
qed

subsection \<open>The plan and the whole move\<close>

lemma unat_chunk_size:
  assumes "0 < unat logical" and "unat logical < 2 ^ 32"
  shows "0 < unat (max COPY_CHUNK logical - max COPY_CHUNK logical mod logical)"
    and "unat (max COPY_CHUNK logical - max COPY_CHUNK logical mod logical) \<le> max 4194304 (unat logical)"
proof -
  let ?m = "max COPY_CHUNK logical"
  have m: "unat ?m = max 4194304 (unat logical)"
    by (simp add: max_def word_le_nat_alt COPY_CHUNK_def)
  have "unat ?m mod unat logical < unat logical" using assms(1) by simp
  moreover have "?m mod logical \<le> ?m"
    by (simp add: word_le_nat_alt unat_mod_distrib)
  ultimately have "unat (?m - ?m mod logical) = unat ?m - unat ?m mod unat logical"
    by (simp add: unat_sub unat_mod_distrib)
  moreover have "unat logical \<le> unat ?m" using m by simp
  ultimately show "0 < unat (?m - ?m mod logical)"
    using \<open>unat ?m mod unat logical < unat logical\<close> by linarith
  show "unat (?m - ?m mod logical) \<le> max 4194304 (unat logical)"
    using \<open>unat (?m - ?m mod logical) = unat ?m - unat ?m mod unat logical\<close> m by simp
qed

definition move_room :: "move_direction \<Rightarrow> nat \<Rightarrow> nat \<Rightarrow> nat \<Rightarrow> nat \<Rightarrow> bool" where
  "move_room dir src len delta limit \<longleftrightarrow>
     0 < len \<and> 0 < delta \<and> src + len \<le> limit \<and>
     (case dir of MoveLeft \<Rightarrow> delta \<le> src | MoveRight \<Rightarrow> src + delta + len \<le> limit)"

lemma destination_start_Inr:
  "destination_start dir src delta = Inr v \<longleftrightarrow>
     (case dir of MoveLeft \<Rightarrow> unat delta \<le> unat src \<and> unat v = unat src - unat delta
      | MoveRight \<Rightarrow> unat src + unat delta < 2 ^ 64 \<and> unat v = unat src + unat delta)"
  by (cases dir) (auto simp: destination_start_def res_simps word_facts)

lemma plan_raw_move_io_Inr:
  assumes "plan_raw_move_io g disk_size src len delta dir = Inr p"
  shows "move_room dir (unat src) (unat len) (unat delta) (min (unat disk_size) i64_max)"
    and "0 < unat (io_chunk p)"
    and "unat (io_chunk p) \<le> max 4194304 (unat (logical_sector_bytes g))"
proof -
  let ?l = "ucast (logical_sector_bytes g) :: u64"
  from assms obtain source_end start destination_end where
    l: "?l \<noteq> 0" and nz: "len \<noteq> 0" "delta \<noteq> 0"
    and ends: "checked_add src len = Some source_end" "destination_start dir src delta = Inr start"
      "checked_add start len = Some destination_end"
    and inside: "\<not> disk_size < source_end" "\<not> disk_size < destination_end"
      "\<not> i64_max < unat source_end" "\<not> i64_max < unat destination_end"
    and chunk: "io_chunk p = max COPY_CHUNK ?l - max COPY_CHUNK ?l mod ?l"
    unfolding plan_raw_move_io_def Let_def
    by (auto simp: res_simps guard_Inr_iff simp del: try_fold.simps split del: if_split)
  have "unat len \<noteq> 0" "unat delta \<noteq> 0" using nz by (simp_all add: unat_eq_0)
  then show "move_room dir (unat src) (unat len) (unat delta) (min (unat disk_size) i64_max)"
    using ends inside
    by (cases dir) (auto simp: move_room_def destination_start_Inr word_facts word_less_nat_alt)
  have ul: "unat ?l = unat (logical_sector_bytes g)" by (rule unat_u32_to_u64)
  have "0 < unat ?l" using l by (simp add: unat_gt_0)
  moreover have "unat ?l < 2 ^ 32" using unsigned_less [of "logical_sector_bytes g"] ul by simp
  ultimately show "0 < unat (io_chunk p)"
    and "unat (io_chunk p) \<le> max 4194304 (unat (logical_sector_bytes g))"
    using unat_chunk_size [of ?l] chunk ul by simp_all
qed

definition move_outcome ::
  "move_direction \<Rightarrow> nat \<Rightarrow> nat \<Rightarrow> nat \<Rightarrow> nat \<Rightarrow> disk_bytes \<Rightarrow> (string + unit) \<times> disk_bytes \<Rightarrow> bool" where
  "move_outcome dir src delta len chunk d out \<longleftrightarrow>
     snd out = d \<and> fst out \<noteq> Inr () \<or>
     (\<exists>r. (case dir of MoveRight \<Rightarrow> right_outcome | MoveLeft \<Rightarrow> left_outcome) src delta len chunk d (r, snd out) \<and>
       (fst out = Inr () \<longrightarrow> r = Inr ()))"

lemma raw_move_cases:
  assumes copy: "\<And>g p. io_geometry w = Inr g \<Longrightarrow> plan_raw_move_io g disk_size src len delta dir = Inr p \<Longrightarrow>
      \<exists>out. copy p d = Some out \<and>
        (case dir of MoveRight \<Rightarrow> right_outcome | MoveLeft \<Rightarrow> left_outcome)
          (unat src) (unat delta) (unat len) (unat (io_chunk p)) d out"
  shows "\<exists>out. raw_move dir w disk_size src len delta copy d = Some out \<and>
    (snd out = d \<and> fst out \<noteq> Inr () \<or>
     (\<exists>g p. io_geometry w = Inr g \<and> plan_raw_move_io g disk_size src len delta dir = Inr p \<and>
        move_outcome dir (unat src) (unat delta) (unat len) (unat (io_chunk p)) d out))"
proof (cases "and_then (io_geometry w) (\<lambda>g. and_then (plan_raw_move_io g disk_size src len delta dir) (\<lambda>p.
    and_then (io_open w) (\<lambda>_. and_then (io_verify w) (\<lambda>_. and_then (aligned_buffer w p) (\<lambda>_. Inr p)))))")
  case (Inl e)
  then show ?thesis by (simp add: raw_move_def)
next
  case (Inr p)
  then obtain g where g: "io_geometry w = Inr g" and p: "plan_raw_move_io g disk_size src len delta dir = Inr p"
    by (auto simp: res_simps)
  from copy [OF g p] obtain r d' where c: "copy p d = Some (r, d')"
    and out: "(case dir of MoveRight \<Rightarrow> right_outcome | MoveLeft \<Rightarrow> left_outcome)
      (unat src) (unat delta) (unat len) (unat (io_chunk p)) d (r, d')"
    by auto
  have "raw_move dir w disk_size src len delta copy d =
      Some (case r of Inl e \<Rightarrow> Inl e | Inr _ \<Rightarrow> io_flush w, d')"
    using Inr c by (cases r) (simp_all add: raw_move_def)
  moreover have "move_outcome dir (unat src) (unat delta) (unat len) (unat (io_chunk p)) d
      (case r of Inl e \<Rightarrow> Inl e | Inr _ \<Rightarrow> io_flush w, d')"
    unfolding move_outcome_def using out by (auto split: sum.splits intro!: exI [of _ r])
  ultimately show ?thesis using g p by blast
qed

lemma raw_move_right_cases:
  "\<exists>out. raw_move_right w disk_size src len delta d = Some out \<and>
    (snd out = d \<and> fst out \<noteq> Inr () \<or>
     (\<exists>g p. io_geometry w = Inr g \<and> plan_raw_move_io g disk_size src len delta MoveRight = Inr p \<and>
        move_outcome MoveRight (unat src) (unat delta) (unat len) (unat (io_chunk p)) d out))"
  unfolding raw_move_right_def
proof (rule raw_move_cases)
  fix g p
  assume "plan_raw_move_io g disk_size src len delta MoveRight = Inr p"
  note facts = plan_raw_move_io_Inr [OF this]
  show "\<exists>out. move_right_loop (io_fault w) src delta (io_chunk p) len d = Some out \<and>
    (case MoveRight of MoveRight \<Rightarrow> right_outcome | MoveLeft \<Rightarrow> left_outcome)
      (unat src) (unat delta) (unat len) (unat (io_chunk p)) d out"
    unfolding move_direction.case
    by (rule move_right_loop_outcome) (use facts in \<open>simp_all add: move_room_def\<close>)
qed

lemma raw_move_left_cases:
  "\<exists>out. raw_move_left w disk_size src len delta d = Some out \<and>
    (snd out = d \<and> fst out \<noteq> Inr () \<or>
     (\<exists>g p. io_geometry w = Inr g \<and> plan_raw_move_io g disk_size src len delta MoveLeft = Inr p \<and>
        move_outcome MoveLeft (unat src) (unat delta) (unat len) (unat (io_chunk p)) d out))"
proof (cases "delta = 0 \<or> src < delta")
  case True
  then show ?thesis by (simp add: raw_move_left_def)
next
  case False
  have "\<exists>out. raw_move MoveLeft w disk_size src len delta
      (\<lambda>p. move_left_loop (io_fault w) src len delta (io_chunk p) 0) d = Some out \<and>
    (snd out = d \<and> fst out \<noteq> Inr () \<or>
     (\<exists>g p. io_geometry w = Inr g \<and> plan_raw_move_io g disk_size src len delta MoveLeft = Inr p \<and>
        move_outcome MoveLeft (unat src) (unat delta) (unat len) (unat (io_chunk p)) d out))"
  proof (rule raw_move_cases)
    fix g p
    assume "plan_raw_move_io g disk_size src len delta MoveLeft = Inr p"
    note facts = plan_raw_move_io_Inr [OF this]
    show "\<exists>out. move_left_loop (io_fault w) src len delta (io_chunk p) 0 d = Some out \<and>
      (case MoveLeft of MoveRight \<Rightarrow> right_outcome | MoveLeft \<Rightarrow> left_outcome)
        (unat src) (unat delta) (unat len) (unat (io_chunk p)) d out"
      unfolding move_direction.case
      by (rule move_left_loop_outcome) (use facts in \<open>simp_all add: move_room_def\<close>)
  qed
  with False show ?thesis by (simp add: raw_move_left_def)
qed

subsection \<open>What the moves guarantee\<close>

lemma right_untouched:
  assumes "right_outcome src delta len chunk d (r, d')" and "a < src \<or> src + delta + len \<le> a"
  shows "d' a = d a"
  using assms by (cases r) (auto simp: right_outcome_def cut_right_def relocated_def)

lemma left_untouched:
  assumes "left_outcome src delta len chunk d (r, d')" and "delta \<le> src"
    and "a < src - delta \<or> src + len \<le> a"
  shows "d' a = d a"
  using assms by (cases r) (auto simp: left_outcome_def cut_left_def relocated_def)

lemma right_recoverable:
  assumes "right_outcome src delta len chunk d (r, d')" and "0 < delta" and "chunk \<le> delta" and "i < len"
  shows "d' (src + i) = d (src + i) \<or> d' (src + delta + i) = d (src + i)"
proof (cases r)
  case (Inr u)
  with assms show ?thesis by (auto simp: right_outcome_def relocated_def add.assoc)
next
  case (Inl e)
  with assms(1) obtain p t k where cut: "p \<le> len" "t \<le> p" "t \<le> chunk" "k \<le> t"
    and d': "d' = cut_right src delta len p t k d"
    by (auto simp: right_outcome_def)
  show ?thesis
  proof (cases "i < p")
    case True
    then have "src + i < src + (p - t) + delta" "src + i < src + p + delta"
      using cut assms(3) by linarith+
    then have "d' (src + i) = d (src + i)"
      by (simp only: d' cut_right_def relocated_def not_le [symmetric]) simp
    then show ?thesis by simp
  next
    case False
    then have "src + (p - t) + delta + k \<le> src + delta + i" "src + p + delta \<le> src + delta + i"
      "src + delta + i < src + p + delta + (len - p)" "src + p + (src + delta + i - (src + p + delta)) = src + i"
      using cut assms(4) by linarith+
    then have "d' (src + delta + i) = d (src + i)"
      unfolding d' cut_right_def relocated_def by (simp only: not_less [symmetric]) simp
    then show ?thesis by simp
  qed
qed

lemma left_recoverable:
  assumes "left_outcome src delta len chunk d (r, d')" and "0 < delta" and "delta \<le> src"
    and "chunk \<le> delta" and "i < len"
  shows "d' (src + i) = d (src + i) \<or> d' (src - delta + i) = d (src + i)"
proof (cases r)
  case (Inr u)
  with assms show ?thesis by (auto simp: left_outcome_def relocated_def)
next
  case (Inl e)
  with assms(1) obtain p k where cut: "k \<le> chunk" "p + k \<le> len" and d': "d' = cut_left src delta p k d"
    by (auto simp: left_outcome_def)
  show ?thesis
  proof (cases "i < p")
    case True
    then have "src - delta + i < src + p - delta" "src - delta \<le> src - delta + i"
      "src - delta + i < src - delta + p" "src + (src - delta + i - (src - delta)) = src + i"
      using assms(3) by linarith+
    then have "d' (src - delta + i) = d (src + i)"
      unfolding d' cut_left_def relocated_def by (simp only: not_le [symmetric]) simp
    then show ?thesis by simp
  next
    case False
    then have "src + p - delta + k \<le> src + i" "src - delta + p \<le> src + i"
      using cut assms(3,4) by linarith+
    then have "d' (src + i) = d (src + i)"
      unfolding d' cut_left_def relocated_def by (simp only: not_less [symmetric]) simp
    then show ?thesis by simp
  qed
qed

text \<open>
  C5. A raw move always returns. When it reports success, the range is at its new place
  byte for byte and nothing else has changed, although source and destination may overlap; and
  whatever it reports, no byte outside the two ranges has changed.
\<close>

theorem raw_move_is_memmove:
  "(\<exists>r d'. raw_move_right w disk_size src len delta d = Some (r, d') \<and>
      (r = Inr () \<longrightarrow> d' = relocated (unat src) (unat src + unat delta) (unat len) d) \<and>
      (\<forall>a. a < unat src \<or> unat src + unat delta + unat len \<le> a \<longrightarrow> d' a = d a)) \<and>
   (\<exists>r d'. raw_move_left w disk_size src len delta d = Some (r, d') \<and>
      (r = Inr () \<longrightarrow> d' = relocated (unat src) (unat src - unat delta) (unat len) d) \<and>
      (\<forall>a. a < unat src - unat delta \<or> unat src + unat len \<le> a \<longrightarrow> d' a = d a))"
proof
  obtain r d' where right: "raw_move_right w disk_size src len delta d = Some (r, d')"
    and cases: "d' = d \<and> r \<noteq> Inr () \<or>
     (\<exists>g p. plan_raw_move_io g disk_size src len delta MoveRight = Inr p \<and>
        move_outcome MoveRight (unat src) (unat delta) (unat len) (unat (io_chunk p)) d (r, d'))"
    using raw_move_right_cases [of w disk_size src len delta d] by auto
  from cases show "\<exists>r d'. raw_move_right w disk_size src len delta d = Some (r, d') \<and>
     (r = Inr () \<longrightarrow> d' = relocated (unat src) (unat src + unat delta) (unat len) d) \<and>
     (\<forall>a. a < unat src \<or> unat src + unat delta + unat len \<le> a \<longrightarrow> d' a = d a)"
    unfolding right
    by (auto simp: move_outcome_def dest: right_untouched) (auto simp: right_outcome_def)
next
  obtain r d' where left: "raw_move_left w disk_size src len delta d = Some (r, d')"
    and cases: "d' = d \<and> r \<noteq> Inr () \<or>
     (\<exists>g p. plan_raw_move_io g disk_size src len delta MoveLeft = Inr p \<and>
        move_outcome MoveLeft (unat src) (unat delta) (unat len) (unat (io_chunk p)) d (r, d'))"
    using raw_move_left_cases [of w disk_size src len delta d] by auto
  from cases show "\<exists>r d'. raw_move_left w disk_size src len delta d = Some (r, d') \<and>
     (r = Inr () \<longrightarrow> d' = relocated (unat src) (unat src - unat delta) (unat len) d) \<and>
     (\<forall>a. a < unat src - unat delta \<or> unat src + unat len \<le> a \<longrightarrow> d' a = d a)"
    unfolding left
    by (auto simp: move_outcome_def move_room_def
        dest!: plan_raw_move_io_Inr(1) dest: left_untouched) (auto simp: left_outcome_def)
qed

lemma raw_move_right_success:
  assumes "raw_move_right w disk_size src len delta d = Some (Inr (), d')"
  shows "d' = relocated (unat src) (unat src + unat delta) (unat len) d"
proof -
  have "\<exists>g p. plan_raw_move_io g disk_size src len delta MoveRight = Inr p \<and>
      move_outcome MoveRight (unat src) (unat delta) (unat len) (unat (io_chunk p)) d (Inr (), d')"
    using raw_move_right_cases [of w disk_size src len delta d] assms by auto
  then show ?thesis by (auto simp: move_outcome_def right_outcome_def)
qed

lemma raw_move_left_success:
  assumes "raw_move_left w disk_size src len delta d = Some (Inr (), d')"
  shows "d' = relocated (unat src) (unat src - unat delta) (unat len) d"
proof -
  have "\<exists>g p. plan_raw_move_io g disk_size src len delta MoveLeft = Inr p \<and>
      move_outcome MoveLeft (unat src) (unat delta) (unat len) (unat (io_chunk p)) d (Inr (), d')"
    using raw_move_left_cases [of w disk_size src len delta d] assms by auto
  then show ?thesis by (auto simp: move_outcome_def left_outcome_def)
qed

definition sample_move_io :: "chunk_fault option \<Rightarrow> move_io" where
  "sample_move_io fault =
     \<lparr>io_geometry = Inr \<lparr>logical_sector_bytes = 512, physical_sector_bytes = 4096, sector_alignment_offset_bytes = 0\<rparr>,
      io_open = Inr (), io_verify = Inr (), io_buffer = Inr (), io_fault = (\<lambda>_. fault), io_flush = Inr ()\<rparr>"

lemma sample_move_right:
  "\<exists>d'. raw_move_right (sample_move_io None) 1048576 4096 1024 512 d = Some (Inr (), d')"
  by (simp add: raw_move_right_def raw_move_def sample_move_io_def plan_raw_move_io_def check_aligned_def
      destination_start_def checked_add_def aligned_buffer_def COPY_CHUNK_def saturating_sub_def
      max_def min_def copy_chunk_def move_right_loop.simps)

theorem raw_move_is_memmove_witness:
  "\<exists>d'. raw_move_right (sample_move_io None) 1048576 4096 1024 512 (\<lambda>a. char_of a) = Some (Inr (), d') \<and>
     d' 4608 = char_of (4096 :: nat) \<and> d' 4095 = char_of (4095 :: nat)"
proof -
  obtain d' where d': "raw_move_right (sample_move_io None) 1048576 4096 1024 512 (\<lambda>a. char_of a) = Some (Inr (), d')"
    using sample_move_right by blast
  with raw_move_is_memmove [of "sample_move_io None" 1048576 4096 1024 512 "\<lambda>a. char_of a"]
  show ?thesis by (simp add: relocated_def)
qed



end
