(* ===== verification/VolumeResize.thy ===== *)
theory VolumeResize
  imports DiskIdentity
begin

section \<open>Volume identities and checked resizing\<close>

text \<open>
  \<open>lr-core/src/windows_storage.rs\<close>: how a volume is recognised again, and the arithmetic with which
  the results of a shrink or an extension are checked against what was authorised. The storage
  calls themselves are Windows I/O; what they report is an argument of these functions. An error
  is a pair of the operation and the message, as \<open>StorageError::new\<close> takes it.
\<close>

record volume_identity =
  vi_disk :: u32
  vi_offset :: u64
  vi_length :: u64

datatype stable_partition = GptPartition bytes | MbrPartition u32

record stable_volume =
  sv_extent :: volume_identity
  sv_disk :: disk_identity
  sv_partition :: stable_partition
  sv_device_id :: "bytes option"

type_synonym storage_error = "string \<times> string"

definition same_physical_partition :: "volume_identity \<Rightarrow> volume_identity \<Rightarrow> bool" where
  "same_physical_partition l r \<longleftrightarrow> vi_disk l = vi_disk r \<and> vi_offset l = vi_offset r"

definition same_volume_identity :: "volume_identity \<Rightarrow> volume_identity \<Rightarrow> bool" where
  "same_volume_identity l r \<longleftrightarrow> same_physical_partition l r \<and> vi_length l = vi_length r"

definition same_stable_disk_token :: "disk_identity \<Rightarrow> disk_identity \<Rightarrow> bool" where
  "same_stable_disk_token l r \<longleftrightarrow> l = r \<or> l = RawDisk \<or> r = RawDisk"

definition same_optional_device_id :: "bytes option \<Rightarrow> bytes option \<Rightarrow> bool" where
  "same_optional_device_id l r = (case (l, r) of (Some a, Some b) \<Rightarrow> a = b | _ \<Rightarrow> True)"

fun same_stable_partition_token :: "stable_partition \<Rightarrow> stable_partition \<Rightarrow> bool" where
  "same_stable_partition_token (GptPartition l) (GptPartition r) = (l = r)"
| "same_stable_partition_token (MbrPartition _) (MbrPartition _) = True"
| "same_stable_partition_token (MbrPartition n) (GptPartition _) = (n = 0)"
| "same_stable_partition_token (GptPartition _) (MbrPartition n) = (n = 0)"

definition same_stable_partition_identity :: "stable_volume \<Rightarrow> stable_volume \<Rightarrow> bool" where
  "same_stable_partition_identity l r \<longleftrightarrow>
     same_physical_partition (sv_extent l) (sv_extent r) \<and>
     same_stable_disk_token (sv_disk l) (sv_disk r) \<and>
     same_optional_device_id (sv_device_id l) (sv_device_id r) \<and>
     same_stable_partition_token (sv_partition l) (sv_partition r)"

definition same_stable_volume_identity :: "stable_volume \<Rightarrow> stable_volume \<Rightarrow> bool" where
  "same_stable_volume_identity l r \<longleftrightarrow>
     same_volume_identity (sv_extent l) (sv_extent r) \<and>
     same_stable_disk_token (sv_disk l) (sv_disk r) \<and>
     same_optional_device_id (sv_device_id l) (sv_device_id r) \<and>
     same_stable_partition_token (sv_partition l) (sv_partition r)"

subsection \<open>Shrinking\<close>

definition verified_shrink_reclaimed_bytes ::
  "volume_identity \<Rightarrow> volume_identity \<Rightarrow> u64 \<Rightarrow> storage_error + u64" where
  "verified_shrink_reclaimed_bytes expected actual minimum =
     (if vi_disk actual \<noteq> vi_disk expected \<or> vi_offset actual \<noteq> vi_offset expected
      then Inl (''verify shrunk volume'', ''post-operation volume no longer starts at the authorized current extent'')
      else
        and_then (ok_or (checked_sub (vi_length expected) (vi_length actual))
          (''verify shrunk volume'', ''post-operation volume grew instead of shrinking'')) (\<lambda>reclaimed.
        if reclaimed = 0 \<or> reclaimed < minimum
        then Inl (''verify shrunk volume'', ''actual reclaimed range is '' @ show_nat (unat reclaimed) @
          '' bytes, below required minimum '' @ show_nat (unat minimum) @ '' bytes'')
        else Inr reclaimed))"

definition storage_management_shrink_target ::
  "u64 \<Rightarrow> u64 \<Rightarrow> u64 \<Rightarrow> u64 \<Rightarrow> u64 \<Rightarrow> storage_error + u64" where
  "storage_management_shrink_target current desired minimum size_min size_max =
     (if desired = 0 \<or> minimum = 0 \<or> desired < minimum \<or> current \<le> desired \<or> size_min = 0 \<or>
         size_max < size_min \<or> current < size_min \<or> size_max < current
      then Inl (''select Storage Management shrink size'',
        ''invalid caller or MSFT_Partition supported-size range'')
      else
        (let desired_size = current - desired;
             largest_allowed = current - minimum;
             target = max desired_size size_min in
         if largest_allowed < target \<or> current \<le> target
         then Inl (''select Storage Management shrink size'',
           ''MSFT_Partition can shrink only to '' @ show_nat (unat size_min) @
           '' bytes, which cannot reclaim the required minimum '' @ show_nat (unat minimum) @
           '' bytes from '' @ show_nat (unat current) @ '' bytes'')
         else Inr target))"

text \<open>
  \<open>observed_stable_shrink_bytes\<close> of \<open>expand_move.rs\<close>: what a shrink whose result was lost has
  really taken away, so that it can be given back.
\<close>

definition observed_stable_shrink_bytes :: "stable_volume \<Rightarrow> stable_volume \<Rightarrow> string + u64 option" where
  "observed_stable_shrink_bytes before current =
     (if same_stable_volume_identity before current then Inr None
      else if \<not> same_stable_partition_identity before current
      then Inl ''current drive letter no longer names the authenticated pre-shrink partition''
      else if vi_disk (sv_extent current) \<noteq> vi_disk (sv_extent before) \<or>
        vi_offset (sv_extent current) \<noteq> vi_offset (sv_extent before)
      then Inl ''current partition no longer starts at the authenticated pre-shrink extent''
      else
        and_then (ok_or (checked_sub (vi_length (sv_extent before)) (vi_length (sv_extent current)))
          ''current partition grew instead of forming a recoverable shrink'') (\<lambda>reclaimed.
        if reclaimed = 0 then Inr None else Inr (Some reclaimed)))"

subsection \<open>Extending\<close>

definition verified_extend_added_bytes ::
  "volume_identity \<Rightarrow> volume_identity \<Rightarrow> u64 \<Rightarrow> u64 \<Rightarrow> u64 \<Rightarrow> storage_error + u64" where
  "verified_extend_added_bytes expected actual minimum provider_start provider_end =
     (if vi_disk actual \<noteq> vi_disk expected \<or> vi_offset actual \<noteq> vi_offset expected
      then Inl (''verify extended volume'', ''post-operation volume no longer starts at the authorized current extent'')
      else
        and_then (ok_or (checked_add (vi_offset expected) (vi_length expected))
          (''verify extended volume'', ''volume end overflow'')) (\<lambda>expected_end.
        and_then (ok_or (checked_add (vi_offset actual) (vi_length actual))
          (''verify extended volume'', ''actual volume end overflow'')) (\<lambda>actual_end.
        and_then (ok_or (checked_sub (vi_length actual) (vi_length expected))
          (''verify extended volume'', ''volume shrank during extend'')) (\<lambda>added.
        if added < minimum \<or> expected_end < provider_start \<or> provider_end \<le> expected_end \<or>
           provider_end < actual_end
        then Inl (''verify extended volume'',
          ''actual extension is below the requested minimum or outside the authorized adjacent provider extent'')
        else Inr added))))"

definition is_source :: "volume_identity \<Rightarrow> partition_snapshot \<Rightarrow> bool" where
  "is_source v p \<longleftrightarrow> ps_offset p = vi_offset v \<and> ps_size p = vi_length v"

definition narrow_authorized_end ::
  "volume_identity \<Rightarrow> u64 \<Rightarrow> u64 \<Rightarrow> partition_snapshot \<Rightarrow> storage_error + u64" where
  "narrow_authorized_end v expected_end authorized p =
     (if is_source v p then Inr authorized
      else
        and_then (ok_or (checked_add (ps_offset p) (ps_size p))
          (''authorize volume extension'', ''partition end overflow'')) (\<lambda>partition_end.
        if vi_offset v < partition_end \<and> ps_offset p < expected_end
        then Inl (''authorize volume extension'',
          ''another canonical partition overlaps the current source volume'')
        else Inr (if expected_end \<le> ps_offset p then min authorized (ps_offset p) else authorized)))"

definition canonical_adjacent_authorized_end :: "disk_snapshot \<Rightarrow> volume_identity \<Rightarrow> storage_error + u64" where
  "canonical_adjacent_authorized_end s v =
     and_then (ok_or (checked_add (vi_offset v) (vi_length v))
       (''authorize volume extension'', ''volume end overflow'')) (\<lambda>expected_end.
     and_then (ensure (\<not> ds_size s < expected_end)
       (''authorize volume extension'', ''current volume extends beyond the current disk capacity'')) (\<lambda>_.
     let exact = length (filter (is_source v) (ds_partitions s)) in
     and_then (ensure (exact = 1)
       (''authorize volume extension'',
        ''expected exactly one canonical source partition, found '' @ show_nat exact)) (\<lambda>_.
     and_then (try_fold (narrow_authorized_end v expected_end) (ds_size s) (ds_partitions s)) (\<lambda>authorized.
     and_then (ensure (\<not> authorized \<le> expected_end)
       (''authorize volume extension'', ''no canonical adjacent range remains after the current volume'')) (\<lambda>_.
     Inr authorized)))))"

subsection \<open>What the checks guarantee\<close>

lemma shrink_target_Inr:
  "storage_management_shrink_target current desired minimum size_min size_max = Inr t \<longleftrightarrow>
     0 < unat minimum \<and> unat minimum \<le> unat desired \<and> unat desired < unat current \<and>
     0 < unat size_min \<and> unat size_min \<le> unat current \<and> unat current \<le> unat size_max \<and>
     unat t = max (unat current - unat desired) (unat size_min) \<and> unat t \<le> unat current - unat minimum"
  unfolding storage_management_shrink_target_def Let_def guard_Inr_iff word_unat_eq_iff
    word_le_nat_alt word_less_nat_alt
  by (auto simp: unat_sub word_le_nat_alt unat_max word_unat_eq_iff)

lemma narrow_fold:
  assumes "try_fold (narrow_authorized_end v expected_end) start ps = Inr authorized"
  shows "authorized \<le> start \<and> (authorized = start \<or> (\<exists>p \<in> set ps. \<not> is_source v p \<and> authorized = ps_offset p)) \<and>
    (\<forall>p \<in> set ps. is_source v p \<or>
       unat (ps_offset p) + unat (ps_size p) \<le> unat (vi_offset v) \<or>
       (expected_end \<le> ps_offset p \<and> authorized \<le> ps_offset p))"
  using assms
proof (induction ps arbitrary: start)
  case Nil
  then show ?case by simp
next
  case (Cons p ps)
  from Cons.prems obtain mid where step: "narrow_authorized_end v expected_end start p = Inr mid"
    and rest: "try_fold (narrow_authorized_end v expected_end) mid ps = Inr authorized"
    by (auto simp: res_simps)
  note IH = Cons.IH [OF rest]
  show ?case
  proof (cases "is_source v p")
    case True
    with step have "mid = start" by (simp add: narrow_authorized_end_def)
    with IH True show ?thesis by auto
  next
    case False
    from step False obtain e where e: "checked_add (ps_offset p) (ps_size p) = Some e"
      and apart: "\<not> (vi_offset v < e \<and> ps_offset p < expected_end)"
      and mid: "mid = (if expected_end \<le> ps_offset p then min start (ps_offset p) else start)"
      unfolding narrow_authorized_end_def by (auto simp: res_simps guard_Inr_iff split del: if_split)
    have "mid \<le> start" "mid = start \<or> mid = ps_offset p" using mid by (auto simp: min_def)
    moreover have "expected_end \<le> ps_offset p \<Longrightarrow> authorized \<le> ps_offset p"
      using mid IH by (auto simp: min_def split: if_splits)
    moreover have "unat (ps_offset p) + unat (ps_size p) \<le> unat (vi_offset v) \<or> expected_end \<le> ps_offset p"
      using apart e by (auto simp: word_facts word_le_nat_alt word_less_nat_alt not_less)
    ultimately show ?thesis using IH False by (auto intro: order_trans)
  qed
qed

text \<open>
  C40. An extension that was authorised and then verified added at least the requested
  bytes, and the extended volume ends inside the disk and reaches into no other partition of the
  layout.
\<close>

theorem verified_extension_is_contained:
  assumes "canonical_adjacent_authorized_end s v = Inr authorized"
    and "verified_extend_added_bytes v actual minimum provider_start provider_end = Inr added"
    and "provider_end \<le> authorized"
  shows "vi_offset actual = vi_offset v \<and>
    unat (vi_length actual) = unat (vi_length v) + unat added \<and> minimum \<le> added \<and>
    unat (vi_offset actual) + unat (vi_length actual) \<le> unat (ds_size s) \<and>
    (\<forall>p \<in> set (ds_partitions s). is_source v p \<or>
       unat (ps_offset p) + unat (ps_size p) \<le> unat (vi_offset actual) \<or>
       unat (vi_offset actual) + unat (vi_length actual) \<le> unat (ps_offset p))"
proof -
  from assms(1) obtain e where
    fold: "try_fold (narrow_authorized_end v e) (ds_size s) (ds_partitions s) = Inr authorized"
    unfolding canonical_adjacent_authorized_end_def Let_def by (auto simp: res_simps)
  note narrow = narrow_fold [OF fold]
  from assms(2) have same: "vi_offset actual = vi_offset v" and added: "minimum \<le> added"
    "unat (vi_length v) \<le> unat (vi_length actual)" "unat added = unat (vi_length actual) - unat (vi_length v)"
    and inside: "unat (vi_offset actual) + unat (vi_length actual) \<le> unat provider_end"
    unfolding verified_extend_added_bytes_def
    by (auto simp: res_simps guard_Inr_iff word_facts word_less_nat_alt word_le_nat_alt not_less
        split del: if_split)
  have reach: "unat provider_end \<le> unat authorized" using assms(3) by (simp add: word_le_nat_alt)
  have "is_source v p \<or> unat (ps_offset p) + unat (ps_size p) \<le> unat (vi_offset actual) \<or>
      unat (vi_offset actual) + unat (vi_length actual) \<le> unat (ps_offset p)"
    if "p \<in> set (ds_partitions s)" for p
  proof -
    have "authorized \<le> ps_offset p \<Longrightarrow> unat authorized \<le> unat (ps_offset p)"
      by (simp add: word_le_nat_alt)
    then show ?thesis using narrow that inside reach same by (metis order_trans)
  qed
  then show ?thesis using narrow same added inside reach by (auto simp: word_le_nat_alt)
qed

definition sample_volume :: volume_identity where
  "sample_volume = \<lparr>vi_disk = 0, vi_offset = 1048576, vi_length = 1048576\<rparr>"

definition sample_disk :: disk_snapshot where
  "sample_disk = \<lparr>ds_size = 8388608, ds_estimated = False, ds_disk = RawDisk, ds_device_id = None,
     ds_partitions = [PartitionSnapshot 1048576 1048576 (MbrToken CHR 0x07 False),
       PartitionSnapshot 4194304 1048576 (MbrToken CHR 0x07 False)]\<rparr>"

theorem verified_extension_is_contained_witness:
  "unat (vi_length (sample_volume\<lparr>vi_length := 2097152\<rparr>)) = unat (vi_length sample_volume) + 1048576"
  using verified_extension_is_contained [of sample_disk sample_volume 4194304
      "sample_volume\<lparr>vi_length := 2097152\<rparr>" 1048576 2097152 4194304 1048576]
  by (simp add: canonical_adjacent_authorized_end_def sample_volume_def sample_disk_def is_source_def
      narrow_authorized_end_def checked_add_def checked_sub_def verified_extend_added_bytes_def)

text \<open>
  The size to which a volume is shrunk through storage management is accepted exactly
  for consistent sizes; it gives back at least the minimum and at most the desired bytes, never
  falls below the smallest supported size, and gives back the desired bytes whenever that size
  allows it. After the shrink, exactly a report of the same volume with that many bytes less passes
  the check of the result.
\<close>

theorem shrink_target_exact:
  "(storage_management_shrink_target current desired minimum size_min size_max = Inr t \<longleftrightarrow>
      0 < unat minimum \<and> unat minimum \<le> unat desired \<and> unat desired < unat current \<and>
      0 < unat size_min \<and> unat size_min \<le> unat current \<and> unat current \<le> unat size_max \<and>
      unat t = max (unat current - unat desired) (unat size_min) \<and>
      unat t + unat minimum \<le> unat current) \<and>
   (verified_shrink_reclaimed_bytes expected actual minimum = Inr reclaimed \<longleftrightarrow>
      same_physical_partition expected actual \<and> 0 < unat reclaimed \<and> minimum \<le> reclaimed \<and>
      unat (vi_length expected) = unat (vi_length actual) + unat reclaimed)"
proof
  show "storage_management_shrink_target current desired minimum size_min size_max = Inr t \<longleftrightarrow>
      0 < unat minimum \<and> unat minimum \<le> unat desired \<and> unat desired < unat current \<and>
      0 < unat size_min \<and> unat size_min \<le> unat current \<and> unat current \<le> unat size_max \<and>
      unat t = max (unat current - unat desired) (unat size_min) \<and>
      unat t + unat minimum \<le> unat current"
    by (auto simp: shrink_target_Inr)
  show "verified_shrink_reclaimed_bytes expected actual minimum = Inr reclaimed \<longleftrightarrow>
      same_physical_partition expected actual \<and> 0 < unat reclaimed \<and> minimum \<le> reclaimed \<and>
      unat (vi_length expected) = unat (vi_length actual) + unat reclaimed"
    unfolding verified_shrink_reclaimed_bytes_def same_physical_partition_def
    by (auto simp: res_simps guard_Inr_iff word_facts unat_gt_0 split del: if_split)
qed

end
