(* ===== verification/Expand.thy ===== *)
theory Expand
  imports RawMove VolumeResize Selection
begin

section \<open>Growing a volume by moving its neighbours\<close>

text \<open>
  \<open>core/expand_move.rs\<close> of the boot environment, the planning: a volume grows into the space behind
  it after the partitions in between (the last of them, the donor, possibly shrunk first) have been
  moved to the right by the same distance, or, from a donor on its left, after it has been moved
  to the left itself. Everything Windows reports (the partition table, drive letters, file systems,
  the sector geometry, the result of a shrink, of deleting and creating a table entry) is a
  parameter. The translated messages of the code are the constructors of \<open>expand_error\<close>.
\<close>

datatype table_style = TableGpt | TableMbr | TableUnknown

record gpt_metadata =
  gm_id :: bytes
  gm_attributes :: u64
  gm_name :: "u16 list"

record part_entry =
  pe_number :: u32
  pe_offset :: u64
  pe_length :: u64
  pe_special :: bool
  pe_mbr_type :: "u8 option"
  pe_mbr_active :: bool
  pe_metadata :: "gpt_metadata option"
  pe_gpt_type :: "bytes option"

record expand_config =
  ec_session :: string
  ec_target :: string
  ec_target_mb :: u64
  ec_wim_engine :: u8
  ec_borrow_from_left :: bool
  ec_donor_target_mb :: u64
  ec_disk :: u32
  ec_disk_size :: u64
  ec_number :: u32
  ec_offset :: u64
  ec_size :: u64
  ec_donor_number :: u32
  ec_donor_offset :: u64
  ec_donor_size :: u64
  ec_moved :: "(u32 \<times> u64 \<times> u64) list"
  ec_language :: string

datatype expand_error =
    UnknownTable
  | TargetMissing
  | NothingToMove
  | IdentityIncomplete
  | IdentityChanged
  | NotAdjacent
  | SpecialDonor
  | UnsupportedDonorType
  | LayoutNotContiguous
  | SystemPartitionBetween
  | CarriedWithoutLetter
  | CarriedUnreadable char string
  | CarriedNotNtfs char
  | DonorWithoutLetter
  | DonorUnreadable char string
  | DonorNotNtfs char string
  | DonorTargetOverflow
  | TransferInconsistent
  | ShrinkTooSmall
  | GeometryUnavailable string
  | RawMoveRejected string

definition MEBI :: u64 where "MEBI = 1048576"

subsection \<open>The partition table\<close>

definition BASIC_DATA_GUID :: bytes where
  "BASIC_DATA_GUID = map char_of [0xa2 :: nat, 0xa0, 0xd0, 0xeb, 0xe5, 0xb9, 0x33, 0x44,
     0x87, 0xc0, 0x68, 0xb6, 0xb7, 0x26, 0x99, 0xc7]"

definition RECOVERY_GUID :: bytes where
  "RECOVERY_GUID = map char_of [0xa4 :: nat, 0xbb, 0x94, 0xde, 0xd1, 0x06, 0x40, 0x4d,
     0xa1, 0x6a, 0xbf, 0xd5, 0x01, 0x79, 0xd6, 0xac]"

fun le_value :: "bytes \<Rightarrow> nat" where
  "le_value [] = 0"
| "le_value (b # bs) = byte b + 256 * le_value bs"

definition slice :: "nat \<Rightarrow> nat \<Rightarrow> bytes \<Rightarrow> bytes" where
  "slice i n bs = take n (drop i bs)"

definition is_plain_mbr_type :: "nat \<Rightarrow> bool" where
  "is_plain_mbr_type t \<longleftrightarrow> t = 0x07 \<or> t = 0x0b \<or> t = 0x0c"

definition decode_entry :: "table_style \<Rightarrow> bytes \<Rightarrow> part_entry option" where
  "decode_entry style d =
     (let len = le_value (slice 16 8 d) in
      if len = 0 \<or> 2 ^ 63 \<le> len then None
      else Some
        \<lparr>pe_number = of_nat (le_value (slice 24 4 d)),
         pe_offset = of_nat (le_value (slice 8 8 d)),
         pe_length = of_nat len,
         pe_special = (if style = TableGpt then slice 32 16 d \<noteq> BASIC_DATA_GUID
                       else \<not> is_plain_mbr_type (byte (d ! 32))),
         pe_mbr_type = (if style = TableMbr then Some (of_nat (byte (d ! 32))) else None),
         pe_mbr_active = (style = TableMbr \<and> d ! 33 \<noteq> NUL),
         pe_metadata = (if style = TableGpt then Some
            \<lparr>gm_id = slice 48 16 d, gm_attributes = of_nat (le_value (slice 64 8 d)),
             gm_name = map (\<lambda>i. of_nat (le_value (slice (72 + i * 2) 2 d))) [0..<36]\<rparr> else None),
         pe_gpt_type = (if style = TableGpt then Some (slice 32 16 d) else None)\<rparr>)"

fun decode_entries :: "table_style \<Rightarrow> bytes \<Rightarrow> nat \<Rightarrow> nat \<Rightarrow> part_entry list" where
  "decode_entries style buffer i 0 = []"
| "decode_entries style buffer i (Suc n) =
     (let off = 48 + i * 144 in
      if length buffer < off + 144 then []
      else (case decode_entry style (slice off 144 buffer) of
          None \<Rightarrow> decode_entries style buffer (i + 1) n
        | Some p \<Rightarrow> p # decode_entries style buffer (i + 1) n))"

text \<open>
  \<open>read_disk_layout\<close> on the answer of \<open>IOCTL_DISK_GET_DRIVE_LAYOUT_EX\<close>: the style (0 is MBR, 1 is
  GPT), the number of entries, and entries of 144 bytes from offset 48; the result is sorted.
\<close>

definition read_disk_layout :: "bytes \<Rightarrow> (table_style \<times> part_entry list) option" where
  "read_disk_layout buffer =
     (if length buffer < 8 then None
      else
        (let tag = le_value (slice 0 4 buffer);
             style = (if tag = 0 then TableMbr else if tag = 1 then TableGpt else TableUnknown) in
         Some (style, sort_key pe_offset
           (decode_entries style buffer 0 (le_value (slice 4 4 buffer))))))"

definition is_gpt_recovery :: "bool \<Rightarrow> part_entry \<Rightarrow> bool" where
  "is_gpt_recovery gpt p \<longleftrightarrow> gpt \<and> pe_gpt_type p = Some RECOVERY_GUID"

subsection \<open>From the left\<close>

record left_plan =
  lp_delta :: u64
  lp_gap :: u64
  lp_shrink :: u64
  lp_donor_length :: u64
  lp_new_offset :: u64

definition plan_left_transfer :: "u64 \<Rightarrow> u64 \<Rightarrow> u64 \<Rightarrow> u64 \<Rightarrow> u64 \<Rightarrow> string + left_plan" where
  "plan_left_transfer donor_offset donor_length target_offset target_length requested =
     and_then (ok_or (checked_add donor_offset donor_length) ''donor geometry overflow'') (\<lambda>donor_end.
     and_then (ensure (\<not> target_offset < donor_end) ''donor and target partitions overlap'') (\<lambda>_.
     and_then (ensure (\<not> requested \<le> target_length) ''target length must grow'') (\<lambda>_.
     let delta = requested - target_length;
         gap = target_offset - donor_end;
         shrink = saturating_sub delta gap in
     and_then (ensure (\<not> (donor_length \<le> shrink \<or> target_offset < delta))
       ''insufficient geometry for left-side transfer'') (\<lambda>_.
     let after_shrink = donor_length - shrink;
         new_offset = target_offset - delta in
     and_then (ok_or (checked_add donor_offset after_shrink) ''shrunken donor geometry overflow'') (\<lambda>new_end.
     and_then (ensure (\<not> new_offset < new_end) ''shrunken donor still overlaps the relocated target'') (\<lambda>_.
     Inr \<lparr>lp_delta = delta, lp_gap = gap, lp_shrink = shrink, lp_donor_length = after_shrink,
          lp_new_offset = new_offset\<rparr>))))))"

definition validate_left_transfer_identity ::
  "expand_config \<Rightarrow> u32 \<Rightarrow> u64 \<Rightarrow> part_entry \<Rightarrow> part_entry \<Rightarrow> expand_error + unit" where
  "validate_left_transfer_identity cfg disk disk_size target donor =
     (if ec_disk_size cfg = 0 \<or> ec_number cfg = 0 \<or> ec_offset cfg = 0 \<or> ec_size cfg = 0 \<or>
         ec_donor_number cfg = 0 \<or> ec_donor_offset cfg = 0 \<or> ec_donor_size cfg = 0
      then Inl IdentityIncomplete
      else if disk \<noteq> ec_disk cfg \<or> disk_size \<noteq> ec_disk_size cfg \<or> pe_number target \<noteq> ec_number cfg \<or>
         pe_offset target \<noteq> ec_offset cfg \<or> pe_length target \<noteq> ec_size cfg \<or>
         pe_number donor \<noteq> ec_donor_number cfg \<or> pe_offset donor \<noteq> ec_donor_offset cfg \<or>
         pe_length donor \<noteq> ec_donor_size cfg
      then Inl IdentityChanged
      else if checked_add (pe_offset donor) (pe_length donor) \<noteq> Some (pe_offset target)
      then Inl NotAdjacent
      else Inr ())"

subsection \<open>From the right\<close>

definition plan_right_donor_shrink ::
  "u64 \<Rightarrow> u64 \<Rightarrow> u64 \<Rightarrow> u64 \<Rightarrow> u64 \<Rightarrow> u64 \<Rightarrow> u64 \<Rightarrow> expand_error + u64" where
  "plan_right_donor_shrink target_current target_final gap donor_current shift free_after donor_target =
     (let minimum_shrink = saturating_sub shift free_after in
      if donor_target = 0 then Inr minimum_shrink
      else if gap \<noteq> 0 \<or> donor_current \<le> donor_target \<or>
         checked_add target_final donor_target \<noteq> checked_add target_current donor_current
      then Inl TransferInconsistent
      else
        (let exact_shrink = donor_current - donor_target in
         if exact_shrink < minimum_shrink then Inl ShrinkTooSmall else Inr exact_shrink))"

text \<open>What the layout, the drive letters and the file systems are reported to be.\<close>

record layout_view =
  lv_disk :: u32
  lv_style :: table_style
  lv_disk_size :: u64
  lv_parts :: "part_entry list"
  lv_letter :: "u64 \<Rightarrow> char option"
  lv_file_system :: "char \<Rightarrow> string + string"
  lv_geometry :: "string + sector_geometry"

record move_plan =
  mp_donor :: part_entry
  mp_donor_letter :: char
  mp_carried :: "(part_entry \<times> char option) list"
  mp_shift :: u64
  mp_shrink :: u64
  mp_after :: u64

datatype expand_plan = AlreadyLargeEnough | ExtendOnly | MovePartitions move_plan

definition entry_key :: "part_entry \<Rightarrow> u32 \<times> u64 \<times> u64" where
  "entry_key p = (pe_number p, pe_offset p, pe_length p)"

definition right_donor :: "expand_config \<Rightarrow> part_entry list \<Rightarrow> part_entry \<Rightarrow> expand_error + part_entry" where
  "right_donor cfg parts first_behind =
     (if ec_moved cfg = [] then Inr first_behind
      else ok_or (find (\<lambda>p. pe_number p = ec_donor_number cfg \<and> pe_offset p = ec_donor_offset cfg \<and>
          pe_length p = ec_donor_size cfg) parts) IdentityChanged)"

definition carried_between :: "part_entry list \<Rightarrow> u64 \<Rightarrow> part_entry \<Rightarrow> part_entry list" where
  "carried_between parts c_end n =
     sort_key pe_offset (filter (\<lambda>p. c_end \<le> pe_offset p \<and> pe_offset p < pe_offset n) parts)"

definition right_identity_confirmed ::
  "expand_config \<Rightarrow> u32 \<Rightarrow> u64 \<Rightarrow> part_entry \<Rightarrow> u64 \<Rightarrow> u64 \<Rightarrow> part_entry \<Rightarrow> bool" where
  "right_identity_confirmed cfg disk disk_size target c_off c_len n \<longleftrightarrow>
     \<not> (ec_number cfg = 0 \<or> ec_offset cfg = 0 \<or> ec_size cfg = 0 \<or>
        ec_donor_number cfg = 0 \<or> ec_donor_offset cfg = 0 \<or> ec_donor_size cfg = 0 \<or>
        pe_number target \<noteq> ec_number cfg \<or> c_off \<noteq> ec_offset cfg \<or> c_len \<noteq> ec_size cfg \<or>
        pe_number n \<noteq> ec_donor_number cfg \<or> pe_offset n \<noteq> ec_donor_offset cfg \<or>
        pe_length n \<noteq> ec_donor_size cfg) \<and>
     \<not> (0 < ec_donor_target_mb cfg \<and>
        (ec_disk cfg = 0 \<or> ec_disk_size cfg = 0 \<or> disk \<noteq> ec_disk cfg \<or> disk_size \<noteq> ec_disk_size cfg))"

definition check_carried :: "layout_view \<Rightarrow> part_entry \<Rightarrow> expand_error + char option" where
  "check_carried v p =
     (let recovery = is_gpt_recovery (lv_style v = TableGpt) p;
          letter = lv_letter v (pe_offset p) in
      and_then (ensure (\<not> (pe_special p \<and> \<not> recovery)) SystemPartitionBetween) (\<lambda>_.
      if recovery then Inr letter
      else
        and_then (ok_or letter CarriedWithoutLetter) (\<lambda>c.
        and_then (map_err (CarriedUnreadable c) (lv_file_system v c)) (\<lambda>fs.
        and_then (ensure (\<not> (\<not> eq_ignore_ascii_case fs ''NTFS'' \<or>
            (lv_style v = TableMbr \<and> pe_mbr_type p \<noteq> Some 0x07))) (CarriedNotNtfs c)) (\<lambda>_.
        Inr letter)))))"

definition check_all_carried ::
  "layout_view \<Rightarrow> part_entry list \<Rightarrow> expand_error + (part_entry \<times> char option) list" where
  "check_all_carried v ps =
     try_fold (\<lambda>acc p. and_then (check_carried v p) (\<lambda>letter. Inr (acc @ [(p, letter)]))) [] ps"

definition check_donor :: "layout_view \<Rightarrow> part_entry \<Rightarrow> expand_error + char" where
  "check_donor v n =
     and_then (ok_or (lv_letter v (pe_offset n)) DonorWithoutLetter) (\<lambda>c.
     and_then (map_err (DonorUnreadable c) (lv_file_system v c)) (\<lambda>fs.
     and_then (ensure (eq_ignore_ascii_case fs ''NTFS'') (DonorNotNtfs c fs)) (\<lambda>_. Inr c)))"

definition check_raw_moves ::
  "sector_geometry \<Rightarrow> u64 \<Rightarrow> u64 \<Rightarrow> part_entry list \<Rightarrow> expand_error + unit" where
  "check_raw_moves g disk_size shift ps =
     try_fold (\<lambda>_ p. map_err RawMoveRejected
       (and_then (plan_raw_move_io g disk_size (pe_offset p) (pe_length p) shift MoveRight) (\<lambda>_. Inr ()))) () ps"

definition plan_move ::
  "expand_config \<Rightarrow> layout_view \<Rightarrow> u64 \<Rightarrow> u64 \<Rightarrow> u64 \<Rightarrow> u64 \<Rightarrow> part_entry \<Rightarrow> part_entry \<Rightarrow> expand_error + move_plan" where
  "plan_move cfg v c_off c_len target_bytes adjacent target first_behind =
     (let c_end = c_off + c_len;
          delta = target_bytes - c_len;
          parts = lv_parts v in
      and_then (right_donor cfg parts first_behind) (\<lambda>n.
      let carried = carried_between parts c_end n in
      and_then (ensure (map entry_key carried = ec_moved cfg) IdentityChanged) (\<lambda>_.
      and_then (ensure (right_identity_confirmed cfg (lv_disk v) (lv_disk_size v) target c_off c_len n)
        IdentityChanged) (\<lambda>_.
      and_then (ensure (\<not> pe_special n) SpecialDonor) (\<lambda>_.
      and_then (ensure (\<not> (lv_style v = TableMbr \<and> pe_mbr_type n \<noteq> Some 0x07)) UnsupportedDonorType) (\<lambda>_.
      and_then (ensure (pe_offset (hd (carried @ [n])) = c_end + adjacent) LayoutNotContiguous) (\<lambda>_.
      and_then (check_all_carried v carried) (\<lambda>with_letters.
      and_then (check_donor v n) (\<lambda>n_letter.
      let after_n = (case min_by_key id (map pe_offset (filter (\<lambda>p. pe_offset n < pe_offset p) parts)) of
             None \<Rightarrow> lv_disk_size v | Some a \<Rightarrow> a);
          free_after = saturating_sub after_n (pe_offset n + pe_length n);
          shift = delta - adjacent in
      and_then (ok_or (if unat (ec_donor_target_mb cfg) * unat MEBI < 2 ^ 64
          then Some (ec_donor_target_mb cfg * MEBI) else None) DonorTargetOverflow) (\<lambda>donor_target.
      and_then (plan_right_donor_shrink c_len target_bytes adjacent (pe_length n) shift free_after donor_target) (\<lambda>shrink.
      and_then (map_err GeometryUnavailable (lv_geometry v)) (\<lambda>g.
      and_then (check_raw_moves g (lv_disk_size v) shift (n # carried)) (\<lambda>_.
      Inr \<lparr>mp_donor = n, mp_donor_letter = n_letter, mp_carried = with_letters, mp_shift = shift,
           mp_shrink = shrink, mp_after = after_n\<rparr>)))))))))))))"

definition plan_expand :: "expand_config \<Rightarrow> layout_view \<Rightarrow> u64 \<Rightarrow> u64 \<Rightarrow> expand_error + expand_plan" where
  "plan_expand cfg v c_off c_len =
     (let target_bytes = ec_target_mb cfg * MEBI;
          delta = target_bytes - c_len;
          c_end = c_off + c_len in
      if ec_target_mb cfg = 0 then Inr ExtendOnly
      else if target_bytes \<le> c_len then Inr AlreadyLargeEnough
      else if lv_style v = TableUnknown then Inl UnknownTable
      else
        and_then (ok_or (find (\<lambda>p. pe_offset p = c_off \<and> pe_length p = c_len) (lv_parts v)) TargetMissing) (\<lambda>target.
        let behind = min_by_key pe_offset (filter (\<lambda>p. c_end \<le> pe_offset p) (lv_parts v));
            adjacent = (case behind of
                Some n \<Rightarrow> saturating_sub (pe_offset n) c_end
              | None \<Rightarrow> saturating_sub (lv_disk_size v) c_end) in
        if ec_donor_target_mb cfg = 0 \<and> delta \<le> adjacent then Inr ExtendOnly
        else
          and_then (ok_or behind NothingToMove) (\<lambda>first_behind.
          and_then (plan_move cfg v c_off c_len target_bytes adjacent target first_behind) (\<lambda>m.
          Inr (MovePartitions m)))))"

text \<open>
  A paired transfer on the disk with number 0 is always refused: the number is taken for a missing
  one.
\<close>

lemma paired_transfer_refuses_disk_zero:
  assumes "0 < ec_donor_target_mb cfg" and "ec_disk cfg = 0"
  shows "plan_move cfg v c_off c_len target_bytes adjacent target first_behind \<noteq> Inr m"
  using assms by (auto simp: plan_move_def right_identity_confirmed_def Let_def res_simps)

subsection \<open>Carrying out a plan\<close>

text \<open>
  One partition: its volume is locked, its bytes are moved, the old table entry is deleted and a
  new one created, which must have exactly the moved range. The donor goes first, then the
  partitions in front of it from the last to the first.
\<close>

record relocation_io =
  ri_lock :: "string + unit"
  ri_move :: move_io
  ri_delete :: "string + unit"
  ri_create :: "string + (u64 \<times> u64)"

definition recreated_partition_matches_raw_range :: "u64 \<times> u64 \<Rightarrow> u64 \<Rightarrow> u64 \<Rightarrow> bool" where
  "recreated_partition_matches_raw_range created raw_offset raw_length \<longleftrightarrow> created = (raw_offset, raw_length)"

definition relocate_partition ::
  "relocation_io \<Rightarrow> u64 \<Rightarrow> u64 \<Rightarrow> u64 \<Rightarrow> u64 \<Rightarrow> disk_bytes \<Rightarrow> ((string + unit) \<times> disk_bytes) option" where
  "relocate_partition w disk_size offset len shift d =
     (case ri_lock w of
        Inl e \<Rightarrow> Some (Inl e, d)
      | Inr _ \<Rightarrow> (case raw_move_right (ri_move w) disk_size offset len shift d of
          None \<Rightarrow> None
        | Some (Inl e, d') \<Rightarrow> Some (Inl e, d')
        | Some (Inr _, d') \<Rightarrow> Some (and_then (ri_delete w) (\<lambda>_.
            and_then (ri_create w) (\<lambda>created.
            ensure (recreated_partition_matches_raw_range created (offset + shift) len)
              ''provider created mismatched partition entry'')), d')))"

fun relocate_all ::
  "(u64 \<Rightarrow> relocation_io) \<Rightarrow> u64 \<Rightarrow> u64 \<Rightarrow> (u64 \<times> u64) list \<Rightarrow> disk_bytes \<Rightarrow>
    ((string + unit) \<times> disk_bytes) option" where
  "relocate_all w disk_size shift [] d = Some (Inr (), d)"
| "relocate_all w disk_size shift ((offset, len) # ps) d =
     (case relocate_partition (w offset) disk_size offset len shift d of
        None \<Rightarrow> None
      | Some (Inl e, d') \<Rightarrow> Some (Inl e, d')
      | Some (Inr _, d') \<Rightarrow> relocate_all w disk_size shift ps d')"

text \<open>
  The donor's length after the shrink as it was read back; a shrunk donor that would not fit in
  front of the next partition stops the operation before anything is moved.
\<close>

definition donor_length_now :: "move_plan \<Rightarrow> string + u64 \<Rightarrow> string + u64" where
  "donor_length_now m shrunk =
     (if mp_shrink m = 0 then Inr (pe_length (mp_donor m))
      else
        and_then shrunk (\<lambda>n_len.
        (case Option.bind (checked_add (pe_offset (mp_donor m)) (mp_shift m)) (\<lambda>v. checked_add v n_len) of
           None \<Rightarrow> Inl ''not enough space after the shrink''
         | Some e \<Rightarrow> if mp_after m < e then Inl ''not enough space after the shrink'' else Inr n_len)))"

definition execute_moves ::
  "(u64 \<Rightarrow> relocation_io) \<Rightarrow> u64 \<Rightarrow> move_plan \<Rightarrow> string + u64 \<Rightarrow> disk_bytes \<Rightarrow>
    ((string + unit) \<times> disk_bytes) option" where
  "execute_moves w disk_size m shrunk d =
     (case donor_length_now m shrunk of
        Inl e \<Rightarrow> Some (Inl e, d)
      | Inr n_len \<Rightarrow> relocate_all w disk_size (mp_shift m)
          ((pe_offset (mp_donor m), n_len) # rev (map (\<lambda>(p, _). (pe_offset p, pe_length p)) (mp_carried m))) d)"

subsection \<open>Moving several partitions\<close>

lemma relocate_partition_success:
  assumes "relocate_partition w disk_size offset len shift d = Some (Inr (), d')"
  shows "d' = relocated (unat offset) (unat offset + unat shift) (unat len) d"
  using assms
  by (auto simp: relocate_partition_def res_simps split: sum.splits option.splits
      intro: raw_move_right_success)

text \<open>Every partition of the list ends where the one before it in the list begins, at the latest.\<close>

fun descending :: "nat \<Rightarrow> (u64 \<times> u64) list \<Rightarrow> bool" where
  "descending limit [] \<longleftrightarrow> True"
| "descending limit ((offset, len) # ps) \<longleftrightarrow> unat offset + unat len \<le> limit \<and> descending (unat offset) ps"

lemma descending_below: "descending limit ps \<Longrightarrow> (o', l') \<in> set ps \<Longrightarrow> unat o' + unat l' \<le> limit"
proof (induction ps arbitrary: limit)
  case (Cons p ps)
  then show ?case by (cases p) force
qed simp

lemma relocate_all_success:
  assumes "relocate_all w disk_size shift ps d = Some (Inr (), d')"
    and "descending limit ps" and "0 < unat shift"
  shows "(\<forall>(offset, len) \<in> set ps. \<forall>i < unat len. d' (unat offset + unat shift + i) = d (unat offset + i)) \<and>
    (\<forall>a. (\<forall>(offset, len) \<in> set ps. a < unat offset + unat shift \<or> unat offset + unat shift + unat len \<le> a) \<longrightarrow>
       d' a = d a)"
  using assms(1,2)
proof (induction ps arbitrary: d limit)
  case Nil
  then show ?case by simp
next
  case (Cons p ps)
  obtain offset len where p: "p = (offset, len)" by fastforce
  from Cons.prems(1) p obtain d1 where
    first: "relocate_partition (w offset) disk_size offset len shift d = Some (Inr (), d1)"
    and rest: "relocate_all w disk_size shift ps d1 = Some (Inr (), d')"
    by (auto split: option.splits prod.splits sum.splits)
  have d1: "d1 = relocated (unat offset) (unat offset + unat shift) (unat len) d"
    by (rule relocate_partition_success [OF first])
  from Cons.prems(2) p have down: "descending (unat offset) ps" by simp
  have moved: "d' (unat o' + unat shift + i) = d1 (unat o' + i)" if "(o', l') \<in> set ps" "i < unat l'" for o' l' i
    using conjunct1 [OF Cons.IH [OF rest down]] that by blast
  have kept: "d' a = d1 a"
    if "\<And>o' l'. (o', l') \<in> set ps \<Longrightarrow> a < unat o' + unat shift \<or> unat o' + unat shift + unat l' \<le> a" for a
    using conjunct2 [OF Cons.IH [OF rest down]] that by blast
  have below: "unat o' + unat l' \<le> unat offset" if "(o', l') \<in> set ps" for o' l'
    using descending_below [OF down that] .
  have head: "d' (unat offset + unat shift + i) = d (unat offset + i)" if "i < unat len" for i
  proof -
    have "d' (unat offset + unat shift + i) = d1 (unat offset + unat shift + i)"
    proof (rule kept)
      fix o' l'
      assume "(o', l') \<in> set ps"
      then show "unat offset + unat shift + i < unat o' + unat shift \<or>
        unat o' + unat shift + unat l' \<le> unat offset + unat shift + i"
        using below by force
    qed
    with that show ?thesis by (simp add: d1 relocated_def)
  qed
  have tail: "d' (unat o' + unat shift + i) = d (unat o' + i)" if "(o', l') \<in> set ps" "i < unat l'" for o' l' i
  proof -
    have "unat o' + i < unat offset + unat shift" using below [OF that(1)] that(2) by linarith
    then show ?thesis using moved [OF that] by (simp add: d1 relocated_def)
  qed
  have outside: "d' a = d a"
    if "\<forall>(o', l') \<in> set (p # ps). a < unat o' + unat shift \<or> unat o' + unat shift + unat l' \<le> a" for a
  proof -
    have "d' a = d1 a" by (rule kept) (use that in auto)
    moreover have "a < unat offset + unat shift \<or> unat offset + unat shift + unat len \<le> a"
      using that p by simp
    ultimately show ?thesis by (auto simp: d1 relocated_def)
  qed
  show ?case
  proof (intro conjI allI impI)
    show "\<forall>(offset, len) \<in> set (p # ps). \<forall>i < unat len. d' (unat offset + unat shift + i) = d (unat offset + i)"
      using head tail p by auto
    show "d' a = d a"
      if "\<forall>(offset, len) \<in> set (p # ps). a < unat offset + unat shift \<or> unat offset + unat shift + unat len \<le> a" for a
      using that by (rule outside)
  qed
qed

subsection \<open>What an accepted plan says\<close>

text \<open>Entries of a table that lie on the disk and do not overlap.\<close>

abbreviation pe_end :: "part_entry \<Rightarrow> nat" where
  "pe_end p \<equiv> unat (pe_offset p) + unat (pe_length p)"

definition table_ok :: "u64 \<Rightarrow> part_entry list \<Rightarrow> bool" where
  "table_ok disk_size parts \<longleftrightarrow> distinct parts \<and>
     list_all (\<lambda>p. pe_length p \<noteq> 0 \<and> pe_end p \<le> unat disk_size) parts \<and>
     list_all (\<lambda>p. list_all (\<lambda>q. p = q \<or> pe_end p \<le> unat (pe_offset q) \<or> pe_end q \<le> unat (pe_offset p)) parts) parts"

lemma table_ok_apart:
  assumes "table_ok disk_size parts" and "p \<in> set parts" and "q \<in> set parts" and "p \<noteq> q"
    and "pe_offset p \<le> pe_offset q"
  shows "pe_end p \<le> unat (pe_offset q)"
proof -
  have "pe_length q \<noteq> 0" and "pe_end p \<le> unat (pe_offset q) \<or> pe_end q \<le> unat (pe_offset p)"
    using assms(1-4) by (auto simp: table_ok_def list_all_iff)
  moreover have "unat (pe_offset p) \<le> unat (pe_offset q)" using assms(5) by (simp add: word_le_nat_alt)
  moreover have "0 < unat (pe_length q)" using calculation(1) by (simp add: unat_gt_0)
  ultimately show ?thesis by linarith
qed

lemma sorted_distinct_wrt:
  "distinct ps \<Longrightarrow> sorted (map f ps) \<Longrightarrow> sorted_wrt (\<lambda>p q. f p \<le> f q \<and> p \<noteq> q) ps"
  by (induction ps) auto

lemma carried_in_order:
  assumes "table_ok disk_size parts"
  shows "sorted_wrt (\<lambda>p q. pe_end p \<le> unat (pe_offset q)) (carried_between parts c_end n)"
proof -
  let ?ps = "carried_between parts c_end n"
  have "distinct ?ps" and sub: "set ?ps \<subseteq> set parts"
    using assms by (auto simp: carried_between_def table_ok_def)
  moreover have "sorted (map pe_offset ?ps)" by (simp add: carried_between_def)
  ultimately have order: "sorted_wrt (\<lambda>p q. pe_offset p \<le> pe_offset q \<and> p \<noteq> q) ?ps"
    by (intro sorted_distinct_wrt)
  show ?thesis
  proof (rule sorted_wrt_mono_rel [OF _ order])
    fix p q
    assume "p \<in> set ?ps" "q \<in> set ?ps" "pe_offset p \<le> pe_offset q \<and> p \<noteq> q"
    then show "pe_end p \<le> unat (pe_offset q)"
      using sub table_ok_apart [OF assms] by blast
  qed
qed

lemma descending_rev:
  assumes "sorted_wrt (\<lambda>p q. pe_end p \<le> unat (pe_offset q)) ps" and "\<forall>p \<in> set ps. pe_end p \<le> limit"
  shows "descending limit (rev (map (\<lambda>p. (pe_offset p, pe_length p)) ps))"
  using assms
proof (induction ps arbitrary: limit rule: rev_induct)
  case Nil
  then show ?case by simp
next
  case (snoc p ps)
  then show ?case by (auto simp: sorted_wrt_append)
qed

lemma check_all_carried_fst:
  "check_all_carried v ps = Inr xs \<Longrightarrow> map fst xs = ps"
proof -
  have "try_fold (\<lambda>acc p. and_then (check_carried v p) (\<lambda>letter. Inr (acc @ [(p, letter)]))) acc ps = Inr xs \<Longrightarrow>
      map fst xs = map fst acc @ ps" for acc
    by (induction ps arbitrary: acc) (auto simp: res_simps)
  then show "check_all_carried v ps = Inr xs \<Longrightarrow> map fst xs = ps"
    by (force simp: check_all_carried_def)
qed

lemma check_raw_moves_room:
  assumes "check_raw_moves g disk_size shift ps = Inr u" and "p \<in> set ps"
  shows "0 < unat shift" and "unat (pe_offset p) + unat shift + unat (pe_length p) \<le> i64_max"
proof -
  from assms have "\<exists>io. plan_raw_move_io g disk_size (pe_offset p) (pe_length p) shift MoveRight = Inr io"
    unfolding check_raw_moves_def by (induction ps) (auto simp: res_simps)
  then obtain io where "plan_raw_move_io g disk_size (pe_offset p) (pe_length p) shift MoveRight = Inr io" ..
  from plan_raw_move_io_Inr(1) [OF this]
  show "0 < unat shift" and "unat (pe_offset p) + unat shift + unat (pe_length p) \<le> i64_max"
    by (simp_all add: move_room_def)
qed

lemma plan_move_Inr:
  assumes "plan_move cfg v c_off c_len target_bytes adjacent target first_behind = Inr m"
    and "first_behind \<in> set (lv_parts v)"
  obtains carried n shrink where "mp_donor m = n" and "n \<in> set (lv_parts v)"
    and "carried = carried_between (lv_parts v) (c_off + c_len) n" and "map fst (mp_carried m) = carried"
    and "pe_offset (hd (carried @ [n])) = c_off + c_len + adjacent"
    and "mp_shift m = target_bytes - c_len - adjacent"
    and "0 < unat (mp_shift m)"
    and "\<And>p. p \<in> insert n (set carried) \<Longrightarrow> unat (pe_offset p) + unat (mp_shift m) + unat (pe_length p) \<le> i64_max"
    and "mp_after m = (case min_by_key id (map pe_offset (filter (\<lambda>p. pe_offset n < pe_offset p) (lv_parts v))) of
             None \<Rightarrow> lv_disk_size v | Some a \<Rightarrow> a)"
    and "plan_right_donor_shrink c_len target_bytes adjacent (pe_length n) (mp_shift m)
      (saturating_sub (mp_after m) (pe_offset n + pe_length n)) (ec_donor_target_mb cfg * MEBI) = Inr (mp_shrink m)"
    and "unat (ec_donor_target_mb cfg) * unat MEBI < 2 ^ 64"
proof -
  from assms(1) obtain n letters u g where
    donor: "right_donor cfg (lv_parts v) first_behind = Inr n"
    and start: "pe_offset (hd (carried_between (lv_parts v) (c_off + c_len) n @ [n])) = c_off + c_len + adjacent"
    and letters: "check_all_carried v (carried_between (lv_parts v) (c_off + c_len) n) = Inr letters"
    and overflow: "unat (ec_donor_target_mb cfg) * unat MEBI < 2 ^ 64"
    and m: "mp_donor m = n" "mp_carried m = letters" "mp_shift m = target_bytes - c_len - adjacent"
      "mp_after m = (case min_by_key id (map pe_offset (filter (\<lambda>p. pe_offset n < pe_offset p) (lv_parts v))) of
             None \<Rightarrow> lv_disk_size v | Some a \<Rightarrow> a)"
    and shrink: "plan_right_donor_shrink c_len target_bytes adjacent (pe_length n) (mp_shift m)
      (saturating_sub (mp_after m) (pe_offset n + pe_length n)) (ec_donor_target_mb cfg * MEBI) = Inr (mp_shrink m)"
    and raw: "check_raw_moves g (lv_disk_size v) (mp_shift m)
      (n # carried_between (lv_parts v) (c_off + c_len) n) = Inr u"
    unfolding plan_move_def Let_def
    by (auto simp: res_simps split: if_splits)
  have "n \<in> set (lv_parts v)"
    using donor assms(2) by (auto simp: right_donor_def res_simps find_Some_iff split: if_splits)
  with donor start overflow m shrink check_raw_moves_room [OF raw] check_all_carried_fst [OF letters]
  show thesis by (intro that) auto
qed

lemma plan_expand_move:
  assumes "plan_expand cfg v c_off c_len = Inr (MovePartitions m)"
  obtains target first_behind adjacent where "target \<in> set (lv_parts v)"
    and "pe_offset target = c_off" and "pe_length target = c_len"
    and "first_behind \<in> set (lv_parts v)" and "c_off + c_len \<le> pe_offset first_behind"
    and "\<And>p. p \<in> set (lv_parts v) \<Longrightarrow> c_off + c_len \<le> pe_offset p \<Longrightarrow> pe_offset first_behind \<le> pe_offset p"
    and "adjacent = saturating_sub (pe_offset first_behind) (c_off + c_len)"
    and "c_len < ec_target_mb cfg * MEBI"
    and "ec_donor_target_mb cfg = 0 \<Longrightarrow> adjacent < ec_target_mb cfg * MEBI - c_len"
    and "plan_move cfg v c_off c_len (ec_target_mb cfg * MEBI) adjacent target first_behind = Inr m"
proof -
  let ?behind = "min_by_key pe_offset (filter (\<lambda>p. c_off + c_len \<le> pe_offset p) (lv_parts v))"
  from assms obtain target first_behind where
    t: "find (\<lambda>p. pe_offset p = c_off \<and> pe_length p = c_len) (lv_parts v) = Some target"
    and f: "?behind = Some first_behind"
    and grow: "\<not> ec_target_mb cfg * MEBI \<le> c_len"
    and far: "\<not> (ec_donor_target_mb cfg = 0 \<and>
      ec_target_mb cfg * MEBI - c_len \<le> saturating_sub (pe_offset first_behind) (c_off + c_len))"
    and move: "plan_move cfg v c_off c_len (ec_target_mb cfg * MEBI)
      (saturating_sub (pe_offset first_behind) (c_off + c_len)) target first_behind = Inr m"
    unfolding plan_expand_def Let_def
    by (auto simp: res_simps split: if_splits)
  have "target \<in> set (lv_parts v)" "pe_offset target = c_off" "pe_length target = c_len"
    using t by (auto simp: find_Some_iff)
  with min_by_key_Some [OF f] grow far move show thesis
    by (intro that [of target first_behind]) (auto simp: not_le)
qed

text \<open>
  The distance is exact: moved by it, the first of the moved partitions begins where the target is
  to end.
\<close>

lemma plan_distance:
  assumes plan: "plan_expand cfg v c_off c_len = Inr (MovePartitions m)"
    and table: "table_ok (lv_disk_size v) (lv_parts v)"
  obtains n carried where "mp_donor m = n" and "n \<in> set (lv_parts v)"
    and "map fst (mp_carried m) = carried"
    and "carried = carried_between (lv_parts v) (c_off + c_len) n"
    and "unat (pe_offset (hd (carried @ [n]))) + unat (mp_shift m) = unat c_off + unat (ec_target_mb cfg * MEBI)"
    and "0 < unat (mp_shift m)"
    and "mp_shrink m = 0 \<Longrightarrow> unat (pe_offset n) + unat (mp_shift m) + unat (pe_length n) \<le> unat (mp_after m)"
proof -
  from plan_expand_move [OF plan] obtain target first_behind adjacent where
    target: "target \<in> set (lv_parts v)" "pe_offset target = c_off" "pe_length target = c_len"
    and first: "first_behind \<in> set (lv_parts v)" "c_off + c_len \<le> pe_offset first_behind"
    and adjacent: "adjacent = saturating_sub (pe_offset first_behind) (c_off + c_len)"
    and grow: "c_len < ec_target_mb cfg * MEBI"
    and far: "ec_donor_target_mb cfg = 0 \<Longrightarrow> adjacent < ec_target_mb cfg * MEBI - c_len"
    and move: "plan_move cfg v c_off c_len (ec_target_mb cfg * MEBI) adjacent target first_behind = Inr m"
    by metis
  from plan_move_Inr [OF move first(1)] obtain carried n where
    n: "mp_donor m = n" "n \<in> set (lv_parts v)" "carried = carried_between (lv_parts v) (c_off + c_len) n"
      "map fst (mp_carried m) = carried"
    and start: "pe_offset (hd (carried @ [n])) = c_off + c_len + adjacent"
    and shift: "mp_shift m = ec_target_mb cfg * MEBI - c_len - adjacent" "0 < unat (mp_shift m)"
    and room: "\<And>p. p \<in> insert n (set carried) \<Longrightarrow>
      unat (pe_offset p) + unat (mp_shift m) + unat (pe_length p) \<le> i64_max"
    and shrink: "plan_right_donor_shrink c_len (ec_target_mb cfg * MEBI) adjacent (pe_length n) (mp_shift m)
      (saturating_sub (mp_after m) (pe_offset n + pe_length n)) (ec_donor_target_mb cfg * MEBI) = Inr (mp_shrink m)"
    and overflow: "unat (ec_donor_target_mb cfg) * unat MEBI < 2 ^ 64"
    by metis
  have donor_zero: "ec_donor_target_mb cfg = 0 \<longleftrightarrow> ec_donor_target_mb cfg * MEBI = 0"
  proof
    assume "ec_donor_target_mb cfg * MEBI = 0"
    moreover have "unat (ec_donor_target_mb cfg * MEBI) = unat (ec_donor_target_mb cfg) * unat MEBI"
      using overflow by (simp add: unat_word_ariths)
    ultimately show "ec_donor_target_mb cfg = 0" by (simp add: MEBI_def unat_eq_0)
  qed simp
  have end_c: "unat (c_off + c_len) = unat c_off + unat c_len"
  proof (rule unat_add_no_overflow)
    have "unat c_off + unat c_len \<le> unat (lv_disk_size v)"
      using table target by (auto simp: table_ok_def list_all_iff)
    then show "unat c_off + unat c_len < 2 ^ LENGTH(64)"
      using unat_bound [of "lv_disk_size v"] by simp
  qed
  have adj: "unat adjacent = unat (pe_offset first_behind) - unat (c_off + c_len)"
    and le: "unat (c_off + c_len) \<le> unat (pe_offset first_behind)"
    using first(2) by (simp_all add: adjacent unat_saturating_sub word_le_nat_alt)
  have delta: "unat (ec_target_mb cfg * MEBI - c_len) = unat (ec_target_mb cfg * MEBI) - unat c_len"
    and grow': "unat c_len < unat (ec_target_mb cfg * MEBI)"
    using grow by (simp_all add: unat_sub word_less_nat_alt word_le_nat_alt)
  have "adjacent \<le> ec_target_mb cfg * MEBI - c_len"
  proof (cases "ec_donor_target_mb cfg = 0")
    case True
    then show ?thesis using far by simp
  next
    case False
    then have "adjacent = 0"
      using shrink donor_zero by (auto simp: plan_right_donor_shrink_def Let_def split: if_splits)
    then show ?thesis by simp
  qed
  then have sum: "unat (mp_shift m) = unat (ec_target_mb cfg * MEBI) - unat c_len - unat adjacent"
    and small: "unat adjacent \<le> unat (ec_target_mb cfg * MEBI) - unat c_len"
    using delta by (simp_all add: shift(1) unat_sub word_le_nat_alt)
  have "unat (c_off + c_len + adjacent) = unat (c_off + c_len) + unat adjacent"
    using adj le unat_bound [of "pe_offset first_behind"] by (intro unat_add_no_overflow) simp
  then have distance: "unat (pe_offset (hd (carried @ [n]))) + unat (mp_shift m) =
      unat c_off + unat (ec_target_mb cfg * MEBI)"
    using start sum small grow' end_c by simp
  have fits: "unat (pe_offset n) + unat (mp_shift m) + unat (pe_length n) \<le> unat (mp_after m)" if "mp_shrink m = 0"
  proof -
    have donor: "ec_donor_target_mb cfg = 0"
    proof (rule ccontr)
      assume "ec_donor_target_mb cfg \<noteq> 0"
      with shrink donor_zero that have "ec_donor_target_mb cfg * MEBI < pe_length n"
        and "pe_length n - ec_donor_target_mb cfg * MEBI = 0"
        by (auto simp: plan_right_donor_shrink_def Let_def split: if_splits)
      then show False by simp
    qed
    have "unat (pe_offset n + pe_length n) = pe_end n"
    proof (rule unat_add_no_overflow)
      have "pe_end n \<le> unat (lv_disk_size v)"
        using table n(2) by (auto simp: table_ok_def list_all_iff)
      then show "pe_end n < 2 ^ LENGTH(64)" using unat_bound [of "lv_disk_size v"] by simp
    qed
    moreover have "saturating_sub (mp_shift m) (saturating_sub (mp_after m) (pe_offset n + pe_length n)) = 0"
      using shrink donor that by (simp add: plan_right_donor_shrink_def)
    then have "unat (mp_shift m) \<le> unat (mp_after m) - unat (pe_offset n + pe_length n)"
      by (simp add: word_unat_eq_iff unat_saturating_sub)
    ultimately show ?thesis using shift(2) by linarith
  qed
  show thesis by (rule that [OF n(1,2,4,3) distance shift(2) fits])
qed

lemma donor_fits:
  assumes "donor_length_now m shrunk = Inr n_len"
    and "mp_shrink m = 0 \<Longrightarrow>
      unat (pe_offset (mp_donor m)) + unat (mp_shift m) + unat (pe_length (mp_donor m)) \<le> unat (mp_after m)"
  shows "unat (pe_offset (mp_donor m)) + unat (mp_shift m) + unat n_len \<le> unat (mp_after m)"
proof (cases "mp_shrink m = 0")
  case True
  then show ?thesis using assms by (simp add: donor_length_now_def)
next
  case False
  with assms(1) obtain a e where "checked_add (pe_offset (mp_donor m)) (mp_shift m) = Some a"
    and "checked_add a n_len = Some e" and "\<not> mp_after m < e"
    by (auto simp: donor_length_now_def res_simps bind_eq_Some_conv split: option.splits if_splits)
  then show ?thesis by (simp add: checked_add_Some word_less_nat_alt)
qed

text \<open>Partitions in order, moved to the right by one distance from the last to the first.\<close>

lemma ordered_moves:
  assumes all: "relocate_all w disk_size s ((pe_offset n, n_len) # rev (map (\<lambda>p. (pe_offset p, pe_length p)) carried)) d = Some (Inr (), d')"
    and order: "sorted_wrt (\<lambda>p q. pe_end p \<le> unat (pe_offset q)) (carried @ [n])" and shift: "0 < unat s"
    and start: "unat (pe_offset (hd (carried @ [n]))) + unat s = start"
    and last: "unat (pe_offset n) + unat s + unat n_len \<le> stop"
  shows "(\<forall>p \<in> set carried. \<forall>i < unat (pe_length p). d' (unat (pe_offset p) + unat s + i) = d (unat (pe_offset p) + i)) \<and>
    (\<forall>i < unat n_len. d' (unat (pe_offset n) + unat s + i) = d (unat (pe_offset n) + i)) \<and>
    (\<forall>a. a < start \<or> stop \<le> a \<longrightarrow> d' a = d a) \<and>
    (\<forall>p \<in> insert n (set carried). start \<le> unat (pe_offset p) + unat s)"
proof -
  let ?all = "(pe_offset n, n_len) # rev (map (\<lambda>p. (pe_offset p, pe_length p)) carried)"
  have "descending (unat (pe_offset n) + unat n_len) ?all"
    using order by (auto simp: sorted_wrt_append intro: descending_rev)
  note moved = relocate_all_success [OF all this shift]
  have keep: "d' (unat o' + unat s + i) = d (unat o' + i)" if "(o', l') \<in> set ?all" "i < unat l'" for o' l' i
    using conjunct1 [OF moved] that by blast
  have first: "start \<le> unat (pe_offset p) + unat s" if "p \<in> insert n (set carried)" for p
  proof (cases carried)
    case Nil
    then show ?thesis using that start by simp
  next
    case (Cons q qs)
    then have "p = q \<or> pe_end q \<le> unat (pe_offset p)" using order that by auto
    then show ?thesis using Cons start by auto
  qed
  have below: "unat (pe_offset p) + unat s + unat (pe_length p) \<le> stop" if "p \<in> set carried" for p
  proof -
    have "pe_end p \<le> unat (pe_offset n)" using that order by (simp add: sorted_wrt_append)
    with last show ?thesis by linarith
  qed
  have outside: "d' a = d a" if a: "a < start \<or> stop \<le> a" for a
  proof -
    have "a < unat (pe_offset p) + unat s \<or> unat (pe_offset p) + unat s + unat (pe_length p) \<le> a" if "p \<in> set carried" for p
      using first [OF insertI2 [OF that]] below [OF that] a by linarith
    moreover have "a < unat (pe_offset n) + unat s \<or> unat (pe_offset n) + unat s + unat n_len \<le> a"
      using first [OF insertI1] last a by linarith
    ultimately have "\<forall>(o', l') \<in> set ?all. a < unat o' + unat s \<or> unat o' + unat s + unat l' \<le> a" by simp
    then show ?thesis using conjunct2 [OF moved] by blast
  qed
  have "d' (unat (pe_offset p) + unat s + i) = d (unat (pe_offset p) + i)" if "p \<in> set carried" "i < unat (pe_length p)" for p i
    by (rule keep [of _ "pe_length p"]) (use that in simp_all)
  then show ?thesis using keep [of "pe_offset n" n_len] outside first by simp
qed


definition sample_entry :: "u32 \<Rightarrow> u64 \<Rightarrow> u64 \<Rightarrow> part_entry" where
  "sample_entry n off len = \<lparr>pe_number = n, pe_offset = off, pe_length = len, pe_special = False,
     pe_mbr_type = Some 0x07, pe_mbr_active = False, pe_metadata = None, pe_gpt_type = None\<rparr>"

definition sample_view :: layout_view where
  "sample_view = \<lparr>lv_disk = 0, lv_style = TableMbr, lv_disk_size = 8388608,
     lv_parts = [sample_entry 1 1048576 1048576, sample_entry 2 2097152 1048576],
     lv_letter = (\<lambda>_. Some CHR ''D''), lv_file_system = (\<lambda>_. Inr ''NTFS''),
     lv_geometry = io_geometry (sample_move_io None)\<rparr>"

definition sample_config :: expand_config where
  "sample_config = \<lparr>ec_session = [], ec_target = ''C:'', ec_target_mb = 2, ec_wim_engine = 0,
     ec_borrow_from_left = False, ec_donor_target_mb = 0, ec_disk = 0, ec_disk_size = 8388608,
     ec_number = 1, ec_offset = 1048576, ec_size = 1048576, ec_donor_number = 2,
     ec_donor_offset = 2097152, ec_donor_size = 1048576, ec_moved = [], ec_language = []\<rparr>"

definition sample_move :: move_plan where
  "sample_move = \<lparr>mp_donor = sample_entry 2 2097152 1048576, mp_donor_letter = CHR ''D'', mp_carried = [],
     mp_shift = 1048576, mp_shrink = 0, mp_after = 8388608\<rparr>"

definition sample_relocation :: relocation_io where
  "sample_relocation = \<lparr>ri_lock = Inr (), ri_move = sample_move_io None, ri_delete = Inr (),
     ri_create = Inr (3145728, 1048576)\<rparr>"

lemma sample_plan: "plan_expand sample_config sample_view 1048576 1048576 = Inr (MovePartitions sample_move)"
  by (simp add: plan_expand_def plan_move_def sample_config_def sample_view_def sample_entry_def sample_move_def
      MEBI_def saturating_sub_def right_donor_def carried_between_def right_identity_confirmed_def
      check_all_carried_def check_donor_def eq_ignore_ascii_case_def plan_right_donor_shrink_def
      check_raw_moves_def sample_move_io_def plan_raw_move_io_def check_aligned_def destination_start_def
      checked_add_def COPY_CHUNK_def)

lemma sample_run:
  "\<exists>d'. execute_moves (\<lambda>_. sample_relocation) 8388608 sample_move (Inl []) d = Some (Inr (), d')"
  by (simp add: execute_moves_def donor_length_now_def sample_move_def sample_entry_def relocate_partition_def
      sample_relocation_def raw_move_right_def raw_move_def sample_move_io_def plan_raw_move_io_def
      check_aligned_def destination_start_def checked_add_def aligned_buffer_def COPY_CHUNK_def
      saturating_sub_def copy_chunk_def move_right_loop.simps recreated_partition_matches_raw_range_def)


subsection \<open>The transfer from the left\<close>

definition left_room :: "u64 \<Rightarrow> u64 \<Rightarrow> u64 \<Rightarrow> u64 \<Rightarrow> u64 \<Rightarrow> bool" where
  "left_room donor_offset donor_length target_offset target_length requested \<longleftrightarrow>
     0 < unat donor_length \<and> unat donor_offset + unat donor_length \<le> unat target_offset \<and>
     unat target_length < unat requested \<and>
     unat requested - unat target_length < unat target_offset - unat donor_offset"

lemma plan_left_transfer_steps:
  assumes "unat donor_offset + unat donor_length \<le> unat target_offset"
    and "unat target_length < unat requested"
  defines "delta \<equiv> requested - target_length"
  defines "gap \<equiv> target_offset - (donor_offset + donor_length)"
  defines "shrink \<equiv> saturating_sub delta gap"
  shows "plan_left_transfer donor_offset donor_length target_offset target_length requested =
      (if left_room donor_offset donor_length target_offset target_length requested
       then Inr \<lparr>lp_delta = delta, lp_gap = gap, lp_shrink = shrink,
         lp_donor_length = donor_length - shrink, lp_new_offset = target_offset - delta\<rparr>
       else Inl ''insufficient geometry for left-side transfer'')"
    and "unat delta = unat requested - unat target_length"
    and "unat gap = unat target_offset - (unat donor_offset + unat donor_length)"
    and "unat shrink = unat delta - unat gap"
proof -
  have no_overflow: "unat donor_offset + unat donor_length < 2 ^ LENGTH(64)"
    using assms(1) unat_bound [of target_offset] by linarith
  then have donor_end: "unat (donor_offset + donor_length) = unat donor_offset + unat donor_length"
    by (rule unat_add_no_overflow)
  show delta: "unat delta = unat requested - unat target_length"
    using assms(2) by (simp add: delta_def unat_sub word_le_nat_alt)
  show gap: "unat gap = unat target_offset - (unat donor_offset + unat donor_length)"
    using assms(1) by (simp add: gap_def unat_sub word_le_nat_alt donor_end)
  show shrink: "unat shrink = unat delta - unat gap" by (simp add: shrink_def unat_saturating_sub)
  have guard: "donor_length \<le> shrink \<or> target_offset < delta \<longleftrightarrow>
      \<not> left_room donor_offset donor_length target_offset target_length requested"
    using assms(1,2) delta gap shrink
    by (auto simp: left_room_def word_le_nat_alt word_less_nat_alt)
  have rest: "\<exists>new_end. checked_add donor_offset (donor_length - shrink) = Some new_end \<and>
      \<not> target_offset - delta < new_end"
    if room: "left_room donor_offset donor_length target_offset target_length requested"
  proof -
    from room have small: "unat shrink < unat donor_length" "unat delta \<le> unat target_offset"
      using delta gap shrink assms(1) by (auto simp: left_room_def)
    then have "unat (donor_length - shrink) = unat donor_length - unat shrink"
      and "unat (target_offset - delta) = unat target_offset - unat delta"
      by (simp_all add: unat_sub word_le_nat_alt)
    with small show ?thesis
      using no_overflow gap shrink assms(1)
      by (auto simp: checked_add_def word_less_nat_alt unat_add_no_overflow)
  qed
  show "plan_left_transfer donor_offset donor_length target_offset target_length requested =
      (if left_room donor_offset donor_length target_offset target_length requested
       then Inr \<lparr>lp_delta = delta, lp_gap = gap, lp_shrink = shrink,
         lp_donor_length = donor_length - shrink, lp_new_offset = target_offset - delta\<rparr>
       else Inl ''insufficient geometry for left-side transfer'')"
  proof (cases "left_room donor_offset donor_length target_offset target_length requested")
    case True
    with rest obtain new_end where "checked_add donor_offset (donor_length - shrink) = Some new_end"
      "\<not> target_offset - delta < new_end" by blast
    with True guard show ?thesis
      using assms(1,2) no_overflow
      by (simp add: plan_left_transfer_def Let_def checked_add_def [of donor_offset donor_length]
          delta_def [symmetric] gap_def [symmetric] shrink_def [symmetric] word_less_nat_alt word_le_nat_alt donor_end)
  next
    case False
    with guard show ?thesis
      using assms(1,2) no_overflow
      by (auto simp: plan_left_transfer_def Let_def checked_add_def [of donor_offset donor_length]
          delta_def [symmetric] gap_def [symmetric] shrink_def [symmetric] word_less_nat_alt word_le_nat_alt donor_end)
  qed
qed



end
