(* ===== verification/DiskLayout.thy ===== *)
theory DiskLayout
  imports Text
begin

section \<open>Full-disk partition layouts\<close>

text \<open>
  \<open>lr-core/src/custom_install.rs\<close>, the planning part: which partitions a full-disk install
  creates, on an empty disk or around an existing staging volume that has to survive. All
  quantities are byte counts of type \<open>u64\<close>; the code guards its additions with
  \<open>checked_add\<close> or saturates, and the theorems below are stated over \<open>unat\<close>, so they also say
  that nothing wraps.
\<close>

subsection \<open>Constants and data\<close>

definition MIB :: u64 where "MIB = 1024 * 1024"
definition GIB :: u64 where "GIB = 1024 * MIB"
definition IMAGE_ALLOWANCE_BYTES :: u64 where "IMAGE_ALLOWANCE_BYTES = 2 * GIB"
definition OPAQUE_IMAGE_FALLBACK_BYTES :: u64 where "OPAQUE_IMAGE_FALLBACK_BYTES = 80 * GIB"
definition MIN_USEFUL_DATA_BYTES :: u64 where "MIN_USEFUL_DATA_BYTES = 4 * GIB"
definition ESP_4KN_MINIMUM_BYTES :: u64 where "ESP_4KN_MINIMUM_BYTES = 300 * MIB"
definition MSR_WINDOWS_7_MINIMUM_BYTES :: u64 where "MSR_WINDOWS_7_MINIMUM_BYTES = 128 * MIB"
definition MBR_SYSTEM_RESERVED_BYTES :: u64 where "MBR_SYSTEM_RESERVED_BYTES = 550 * MIB"
definition FULL_DISK_WHOLE_WINDOWS_MAX_CAPACITY_BYTES :: u64 where
  "FULL_DISK_WHOLE_WINDOWS_MAX_CAPACITY_BYTES = 256 * GIB"
definition FULL_DISK_LARGE_CAPACITY_BYTES :: u64 where "FULL_DISK_LARGE_CAPACITY_BYTES = 1536 * GIB"
definition FULL_DISK_WINDOWS_DEFAULT_BYTES :: u64 where "FULL_DISK_WINDOWS_DEFAULT_BYTES = 200 * GIB"
definition FULL_DISK_WINDOWS_LARGE_DEFAULT_BYTES :: u64 where
  "FULL_DISK_WINDOWS_LARGE_DEFAULT_BYTES = 300 * GIB"
definition WINDOWS_PREFERRED_FLOOR_BYTES :: u64 where "WINDOWS_PREFERRED_FLOOR_BYTES = 64 * GIB"
definition STAGING_RECIPIENT_DATA_BYTES :: u64 where
  "STAGING_RECIPIENT_DATA_BYTES = MIN_USEFUL_DATA_BYTES + 256 * MIB"

datatype partition_style = Gpt | Mbr

datatype full_disk_role = WindowsDisk | DataDisk

datatype partition_role = EfiSystem | MicrosoftReserved | SystemReserved | WindowsVolume | DataVolume

record planned_partition =
  part_offset :: u64
  part_length :: u64
  part_role :: partition_role

datatype plan_error =
  EmptyDiskSet | DuplicateDiskLocator | DuplicateDiagnosticDisk | MissingWindowsDisk
| MultipleWindowsDisks | InvalidWindowsPartitionSize | InvalidPreservedStaging
| InvalidDualBootSource | InvalidDualBootTarget | DualBootExtentsOverlap | InvalidDiskCapacity
| MalformedPlan

fun plan_error_text :: "plan_error \<Rightarrow> string" where
  "plan_error_text EmptyDiskSet = ''full-disk plan contains no explicitly confirmed disks''"
| "plan_error_text DuplicateDiskLocator = ''full-disk plan contains a duplicate random disk locator''"
| "plan_error_text DuplicateDiagnosticDisk = ''full-disk plan contains the same displayed disk twice''"
| "plan_error_text MissingWindowsDisk = ''full-disk plan has no Windows target disk''"
| "plan_error_text MultipleWindowsDisks = ''full-disk plan has more than one Windows target disk''"
| "plan_error_text InvalidWindowsPartitionSize = ''Windows partition size is invalid''"
| "plan_error_text InvalidPreservedStaging = ''preserved staging extent is empty or overflows''"
| "plan_error_text InvalidDualBootSource = ''dual-boot source extent is invalid''"
| "plan_error_text InvalidDualBootTarget = ''dual-boot target extent is invalid''"
| "plan_error_text DualBootExtentsOverlap = ''dual-boot source, target or data extents overlap''"
| "plan_error_text InvalidDiskCapacity = ''selected disk cannot contain the requested layout''"
| "plan_error_text MalformedPlan = ''custom installation plan is malformed''"

datatype image_space_source = WimMetadata | OpaqueOrMissingMetadata

record image_space_requirement =
  isr_windows_bytes :: u64
  isr_expanded_bytes :: "u64 option"
  isr_source :: image_space_source

subsection \<open>Sizes\<close>

definition image_space_fallback :: image_space_requirement where
  "image_space_fallback = \<lparr>isr_windows_bytes = OPAQUE_IMAGE_FALLBACK_BYTES,
     isr_expanded_bytes = None, isr_source = OpaqueOrMissingMetadata\<rparr>"

definition image_space_requirement :: "u64 \<Rightarrow> u64 \<Rightarrow> image_space_requirement" where
  "image_space_requirement total_bytes hardlink_bytes = (case checked_sub total_bytes hardlink_bytes of
     None \<Rightarrow> image_space_fallback
   | Some expanded \<Rightarrow>
      (if expanded = 0 then image_space_fallback
       else \<lparr>isr_windows_bytes = saturating_add expanded IMAGE_ALLOWANCE_BYTES,
             isr_expanded_bytes = Some expanded, isr_source = WimMetadata\<rparr>))"

definition automatic_full_disk_windows_bytes :: "u64 \<Rightarrow> u64 \<Rightarrow> u64" where
  "automatic_full_disk_windows_bytes capacity minimum =
     (let recommended =
        if capacity \<le> FULL_DISK_WHOLE_WINDOWS_MAX_CAPACITY_BYTES then u64_max
        else if capacity < FULL_DISK_LARGE_CAPACITY_BYTES then FULL_DISK_WINDOWS_DEFAULT_BYTES
        else FULL_DISK_WINDOWS_LARGE_DEFAULT_BYTES
      in max recommended minimum)"

definition align_up_to_mib :: "u64 \<Rightarrow> u64" where
  "align_up_to_mib v = saturating_mul (div_ceil v MIB) MIB"

fun infrastructure_bytes :: "partition_style \<Rightarrow> u64" where
  "infrastructure_bytes Gpt = ESP_4KN_MINIMUM_BYTES + MSR_WINDOWS_7_MINIMUM_BYTES"
| "infrastructure_bytes Mbr = MBR_SYSTEM_RESERVED_BYTES"

subsection \<open>The layout of one free range\<close>

fun infrastructure :: "partition_style \<Rightarrow> (u64 \<times> partition_role) list" where
  "infrastructure Gpt =
     [(ESP_4KN_MINIMUM_BYTES, EfiSystem), (MSR_WINDOWS_7_MINIMUM_BYTES, MicrosoftReserved)]"
| "infrastructure Mbr = [(MBR_SYSTEM_RESERVED_BYTES, SystemReserved)]"

definition place ::
  "u64 \<Rightarrow> u64 \<times> planned_partition list \<Rightarrow> u64 \<times> partition_role \<Rightarrow> plan_error + (u64 \<times> planned_partition list)" where
  "place limit acc v = (case (acc, v) of ((cursor, out), (bytes, role)) \<Rightarrow>
     and_then (ok_or (checked_add cursor bytes) InvalidDiskCapacity) (\<lambda>stop.
     and_then (ensure (\<not> limit < stop) InvalidDiskCapacity) (\<lambda>_.
     Inr (stop, out @ [\<lparr>part_offset = cursor, part_length = bytes, part_role = role\<rparr>]))))"

definition plan_data_layout ::
  "partition_style \<Rightarrow> u64 \<Rightarrow> u64 \<Rightarrow> plan_error + planned_partition list" where
  "plan_data_layout style start limit =
     and_then (if style = Gpt then place limit (start, []) (MSR_WINDOWS_7_MINIMUM_BYTES, MicrosoftReserved)
               else Inr (start, [])) (\<lambda>(cursor, out).
     and_then (ok_or (checked_sub limit cursor) InvalidDiskCapacity) (\<lambda>len.
     and_then (ensure (\<not> len < MIN_USEFUL_DATA_BYTES) InvalidDiskCapacity) (\<lambda>_.
     Inr (out @ [\<lparr>part_offset = cursor, part_length = len, part_role = DataVolume\<rparr>]))))"

definition windows_request :: "u64 \<Rightarrow> u64 \<Rightarrow> u64 \<Rightarrow> u64 \<Rightarrow> u64" where
  "windows_request available minimum desired_windows reclaimable =
     (let desired = max desired_windows minimum in
      if desired = u64_max then available
      else if MIN_USEFUL_DATA_BYTES \<le> saturating_sub available desired then desired
      else if MIN_USEFUL_DATA_BYTES \<le> reclaimable \<and>
          max minimum WINDOWS_PREFERRED_FLOOR_BYTES \<le> saturating_sub available STAGING_RECIPIENT_DATA_BYTES
        then available - STAGING_RECIPIENT_DATA_BYTES
      else available)"

definition plan_windows_layout ::
  "partition_style \<Rightarrow> u64 \<Rightarrow> u64 \<Rightarrow> u64 \<Rightarrow> u64 \<Rightarrow> u64 \<Rightarrow> plan_error + planned_partition list" where
  "plan_windows_layout style start limit minimum desired_windows reclaimable =
     and_then (ensure (minimum \<noteq> 0) InvalidWindowsPartitionSize) (\<lambda>_.
     and_then (try_fold (place limit) (start, []) (infrastructure style)) (\<lambda>(cursor, out).
     and_then (ok_or (checked_sub limit cursor) InvalidDiskCapacity) (\<lambda>available.
     and_then (ensure (\<not> available < minimum) InvalidDiskCapacity) (\<lambda>_.
     let requested = windows_request available minimum desired_windows reclaimable in
     and_then (ensure (\<not> (requested = 0 \<or> available < requested)) InvalidDiskCapacity) (\<lambda>_.
     and_then (ok_or (checked_add cursor requested) InvalidDiskCapacity) (\<lambda>stop.
     let tail = saturating_sub limit stop;
         windows = out @ [\<lparr>part_offset = cursor, part_length = requested, part_role = WindowsVolume\<rparr>]
     in Inr (if MIN_USEFUL_DATA_BYTES \<le> tail
             then windows @ [\<lparr>part_offset = stop, part_length = tail, part_role = DataVolume\<rparr>]
             else windows)))))))"

definition plan_layout_from ::
  "partition_style \<Rightarrow> full_disk_role \<Rightarrow> u64 \<Rightarrow> u64 \<Rightarrow> u64 \<Rightarrow> u64 \<Rightarrow> u64 \<Rightarrow> plan_error + planned_partition list" where
  "plan_layout_from style role start usable_end minimum desired_windows reclaimable =
     (if role = DataDisk then plan_data_layout style start usable_end
      else plan_windows_layout style start usable_end minimum desired_windows reclaimable)"

definition plan_layout ::
  "partition_style \<Rightarrow> full_disk_role \<Rightarrow> u64 \<Rightarrow> u64 \<Rightarrow> u64 \<Rightarrow> u64 \<Rightarrow> plan_error + planned_partition list" where
  "plan_layout style role usable_end minimum desired_windows reclaimable =
     plan_layout_from style role MIB usable_end minimum desired_windows reclaimable"

definition plan_full_disk_layout ::
  "partition_style \<Rightarrow> full_disk_role \<Rightarrow> u64 \<Rightarrow> u64 \<Rightarrow> plan_error + planned_partition list" where
  "plan_full_disk_layout style role usable_end windows_bytes =
     plan_layout style role usable_end windows_bytes windows_bytes 0"

definition plan_full_disk_layout_for_disk ::
  "partition_style \<Rightarrow> full_disk_role \<Rightarrow> u64 \<Rightarrow> u64 \<Rightarrow> u64 \<Rightarrow> plan_error + planned_partition list" where
  "plan_full_disk_layout_for_disk style role usable_end capacity minimum =
     (let capacity' = max capacity usable_end in
      plan_layout style role usable_end minimum
        (automatic_full_disk_windows_bytes capacity' minimum) (capacity' - usable_end))"

subsection \<open>The layout around a staging volume\<close>

definition plan_data_disk_around_staging ::
  "partition_style \<Rightarrow> u64 \<Rightarrow> u64 \<Rightarrow> u64 \<Rightarrow> plan_error + planned_partition list" where
  "plan_data_disk_around_staging style staging_offset back_start disk_end =
     (let msr = (case style of Gpt \<Rightarrow> MSR_WINDOWS_7_MINIMUM_BYTES | Mbr \<Rightarrow> 0);
          front_holds_data =
            (case Option.bind (checked_sub staging_offset MIB) (\<lambda>v. checked_sub v msr) of
               None \<Rightarrow> False | Some v \<Rightarrow> MIN_USEFUL_DATA_BYTES \<le> v)
      in
      if front_holds_data then plan_layout style DataDisk staging_offset 0 u64_max 0
      else
        and_then
          (if msr \<noteq> 0 then
             (if (case checked_add MIB msr of None \<Rightarrow> False | Some stop \<Rightarrow> stop \<le> staging_offset) then
                Inr (back_start, [\<lparr>part_offset = MIB, part_length = msr, part_role = MicrosoftReserved\<rparr>])
              else
                and_then (ok_or (checked_add back_start msr) InvalidDiskCapacity) (\<lambda>cursor.
                Inr (cursor, [\<lparr>part_offset = back_start, part_length = msr, part_role = MicrosoftReserved\<rparr>])))
           else Inr (back_start, [])) (\<lambda>(cursor, out).
        and_then (ok_or (checked_sub disk_end cursor) InvalidDiskCapacity) (\<lambda>len.
        and_then (ensure (\<not> len < MIN_USEFUL_DATA_BYTES) InvalidDiskCapacity) (\<lambda>_.
        Inr (out @ [\<lparr>part_offset = cursor, part_length = len, part_role = DataVolume\<rparr>])))))"

text \<open>\<open>merge_front\<close> is the decision between the merged and the recipient layout.\<close>

definition merge_front :: "u64 \<Rightarrow> u64 \<Rightarrow> u64 \<Rightarrow> u64 \<Rightarrow> u64 \<Rightarrow> u64 \<Rightarrow> u64 \<Rightarrow> bool" where
  "merge_front before staging_length staging_end back_length disk_end minimum desired =
     (let tail_joins_windows = back_length < MIN_USEFUL_DATA_BYTES;
          merged_windows = saturating_add (saturating_add before staging_length)
            (if tail_joins_windows then saturating_sub disk_end staging_end else 0);
          recipient_windows = Option.bind (checked_sub before STAGING_RECIPIENT_DATA_BYTES)
            (\<lambda>w. if max minimum WINDOWS_PREFERRED_FLOOR_BYTES \<le> w then Some w else None)
      in case recipient_windows of
           None \<Rightarrow> True
         | Some w \<Rightarrow> abs_diff desired merged_windows \<le> abs_diff desired w)"

definition plan_windows_disk_around_staging ::
  "partition_style \<Rightarrow> u64 \<Rightarrow> u64 \<Rightarrow> u64 \<Rightarrow> u64 \<Rightarrow> u64 \<Rightarrow> u64 \<Rightarrow> plan_error + planned_partition list" where
  "plan_windows_disk_around_staging style staging_offset staging_length back_start back_length disk_end minimum =
     (if minimum = 0 then Inl InvalidWindowsPartitionSize
      else
       let desired = automatic_full_disk_windows_bytes disk_end minimum;
           staging_end = saturating_add staging_offset staging_length;
           front_windows =
             Option.bind (Option.bind (checked_sub staging_offset MIB)
               (\<lambda>v. checked_sub v (infrastructure_bytes style)))
               (\<lambda>before. if minimum \<le> before then Some before else None)
       in case front_windows of
         Some before \<Rightarrow>
           (if desired \<noteq> u64_max \<and> saturating_sub before desired < MIN_USEFUL_DATA_BYTES \<and>
               merge_front before staging_length staging_end back_length disk_end minimum desired then
              and_then (plan_layout style WindowsDisk staging_offset minimum u64_max 0) (\<lambda>layout.
              Inr (if back_length < MIN_USEFUL_DATA_BYTES then layout
                   else layout @ [\<lparr>part_offset = back_start, part_length = back_length, part_role = DataVolume\<rparr>]))
            else plan_layout style WindowsDisk staging_offset minimum desired (disk_end - staging_offset))
       | None \<Rightarrow>
           (let front_data = saturating_sub staging_offset MIB;
                front = (if MIN_USEFUL_DATA_BYTES \<le> front_data
                  then [\<lparr>part_offset = MIB, part_length = front_data, part_role = DataVolume\<rparr>] else [])
            in and_then (plan_layout_from style WindowsDisk back_start disk_end minimum desired 0) (\<lambda>behind.
               Inr (front @ behind))))"

definition plan_full_disk_layout_around_staging ::
  "partition_style \<Rightarrow> full_disk_role \<Rightarrow> u64 \<Rightarrow> u64 \<Rightarrow> u64 \<Rightarrow> u64 \<Rightarrow> plan_error + planned_partition list" where
  "plan_full_disk_layout_around_staging style role capacity staging_offset staging_length minimum =
     (if staging_offset = 0 \<or> staging_length = 0 then Inl InvalidPreservedStaging
      else
        and_then (ok_or (checked_add staging_offset staging_length) InvalidPreservedStaging) (\<lambda>staging_end.
        let disk_end = max capacity staging_end;
            back_start = min (align_up_to_mib staging_end) disk_end;
            back_length = disk_end - back_start
        in case role of
             DataDisk \<Rightarrow> plan_data_disk_around_staging style staging_offset back_start disk_end
           | WindowsDisk \<Rightarrow> plan_windows_disk_around_staging style staging_offset staging_length
               back_start back_length disk_end minimum))"

subsection \<open>Facts about the constants\<close>

lemma unat_constants [simp]:
  "unat MIB = 1048576" "unat MIN_USEFUL_DATA_BYTES = 4294967296"
  "unat ESP_4KN_MINIMUM_BYTES = 314572800" "unat MSR_WINDOWS_7_MINIMUM_BYTES = 134217728"
  "unat MBR_SYSTEM_RESERVED_BYTES = 576716800" "unat WINDOWS_PREFERRED_FLOOR_BYTES = 68719476736"
  "unat STAGING_RECIPIENT_DATA_BYTES = 4563402752"
  by (simp_all add: MIB_def GIB_def MIN_USEFUL_DATA_BYTES_def ESP_4KN_MINIMUM_BYTES_def
      MSR_WINDOWS_7_MINIMUM_BYTES_def MBR_SYSTEM_RESERVED_BYTES_def WINDOWS_PREFERRED_FLOOR_BYTES_def
      STAGING_RECIPIENT_DATA_BYTES_def)

lemma unat_infrastructure_bytes [simp]:
  "unat (infrastructure_bytes Gpt) = 448790528" "unat (infrastructure_bytes Mbr) = 576716800"
  by (simp_all add: unat_add_no_overflow)

lemma infrastructure_nonzero: "0 < unat (infrastructure_bytes style)"
  by (cases style) (simp_all del: infrastructure_bytes.simps)

lemma u64_bound: "unat (a :: u64) < 18446744073709551616"
  using unat_bound [of a] by simp

lemma u64_sub: "b \<le> a \<Longrightarrow> unat (a - b :: u64) = unat a - unat b"
  by (simp add: unat_sub)

lemma u64_add: "unat a + unat b < 18446744073709551616 \<Longrightarrow> unat (a + b :: u64) = unat a + unat b"
  by (simp add: unat_add_no_overflow)

lemmas u64_facts = word_facts word_le_nat_alt word_less_nat_alt word_unat_eq_iff

subsection \<open>Well-formed layouts\<close>

text \<open>
  \<open>fits lo hi ps\<close>: the partitions are non-empty, in ascending order, disjoint, and lie between
  \<open>lo\<close> and \<open>hi\<close>. \<open>clear_of a b ps\<close>: none of them touches the bytes from \<open>a\<close> to \<open>b\<close>.
\<close>

abbreviation part_start :: "planned_partition \<Rightarrow> nat" where
  "part_start p \<equiv> unat (part_offset p)"

definition part_end :: "planned_partition \<Rightarrow> nat" where
  "part_end p = unat (part_offset p) + unat (part_length p)"

fun fits :: "nat \<Rightarrow> nat \<Rightarrow> planned_partition list \<Rightarrow> bool" where
  "fits lo hi [] = (lo \<le> hi)"
| "fits lo hi (p # ps) = (lo \<le> part_start p \<and> 0 < unat (part_length p) \<and> fits (part_end p) hi ps)"

definition clear_of :: "nat \<Rightarrow> nat \<Rightarrow> planned_partition list \<Rightarrow> bool" where
  "clear_of a b ps \<longleftrightarrow> list_all (\<lambda>p. part_end p \<le> a \<or> b \<le> part_start p) ps"

definition volumes_of :: "partition_role \<Rightarrow> planned_partition list \<Rightarrow> planned_partition list" where
  "volumes_of role ps = filter (\<lambda>p. part_role p = role) ps"

lemma fits_le: "fits lo hi ps \<Longrightarrow> lo \<le> hi"
  by (induction ps arbitrary: lo) (force simp: part_end_def)+

lemma fits_append: "fits lo mid ps \<Longrightarrow> fits mid hi qs \<Longrightarrow> fits lo hi (ps @ qs)"
proof (induction ps arbitrary: lo)
  case Nil
  then show ?case by (cases qs) auto
qed auto

lemma fits_members: "fits lo hi ps \<Longrightarrow> p \<in> set ps \<Longrightarrow> lo \<le> part_start p \<and> part_start p < part_end p \<and> part_end p \<le> hi"
proof (induction ps arbitrary: lo)
  case (Cons q qs)
  then show ?case
    using fits_le [of "part_end q" hi qs] by (auto simp: part_end_def dest: Cons.IH)
qed simp

lemma fits_mono: "fits lo hi ps \<Longrightarrow> lo' \<le> lo \<Longrightarrow> hi \<le> hi' \<Longrightarrow> fits lo' hi' ps"
  by (induction ps arbitrary: lo lo') auto

lemma fits_clear_before: "fits lo hi ps \<Longrightarrow> hi \<le> a \<Longrightarrow> clear_of a b ps"
  by (auto simp: clear_of_def list_all_iff dest: fits_members)

lemma fits_clear_after: "fits lo hi ps \<Longrightarrow> b \<le> lo \<Longrightarrow> clear_of a b ps"
  by (auto simp: clear_of_def list_all_iff dest: fits_members)

lemma clear_of_append [simp]: "clear_of a b (ps @ qs) \<longleftrightarrow> clear_of a b ps \<and> clear_of a b qs"
  by (simp add: clear_of_def)

lemma fits_disjoint:
  assumes "fits lo hi ps" "i < j" "j < length ps"
  shows "part_end (ps ! i) \<le> part_start (ps ! j)"
  using assms
proof (induction ps arbitrary: lo i j)
  case (Cons q qs)
  obtain j' where j: "j = Suc j'" using Cons.prems(2) by (cases j) auto
  show ?case
  proof (cases i)
    case 0
    have "qs ! j' \<in> set qs" using Cons.prems(3) j by simp
    moreover have "fits (part_end q) hi qs" using Cons.prems(1) by simp
    ultimately have "part_end q \<le> part_start (qs ! j')" using fits_members by blast
    with 0 j show ?thesis by simp
  next
    case (Suc i')
    have "fits (part_end q) hi qs" using Cons.prems(1) by simp
    from Cons.IH [OF this, of i' j'] Cons.prems(2,3) j Suc show ?thesis by simp
  qed
qed simp

subsection \<open>The layout of one range, solved\<close>

definition data_parts :: "partition_style \<Rightarrow> u64 \<Rightarrow> u64 \<Rightarrow> planned_partition list" where
  "data_parts style start limit =
     (if style = Gpt then
        [\<lparr>part_offset = start, part_length = MSR_WINDOWS_7_MINIMUM_BYTES, part_role = MicrosoftReserved\<rparr>,
         \<lparr>part_offset = start + MSR_WINDOWS_7_MINIMUM_BYTES,
          part_length = limit - (start + MSR_WINDOWS_7_MINIMUM_BYTES), part_role = DataVolume\<rparr>]
      else [\<lparr>part_offset = start, part_length = limit - start, part_role = DataVolume\<rparr>])"

definition msr_bytes :: "partition_style \<Rightarrow> nat" where
  "msr_bytes style = (if style = Gpt then 134217728 else 0)"

lemma checked_add_eq:
  "checked_add a b = (if unat a + unat b < 18446744073709551616 then Some (a + b) else None)" for a b :: u64
  by (simp add: checked_add_def)

lemma checked_sub_eq: "checked_sub a b = (if unat b \<le> unat a then Some (a - b) else None)" for a b :: u64
  by (simp add: checked_sub_def word_le_nat_alt)

lemma plan_data_layout_iff:
  "plan_data_layout style start limit = Inr ps \<longleftrightarrow>
     unat start + msr_bytes style + 4294967296 \<le> unat limit \<and> ps = data_parts style start limit"
  using u64_bound [of limit]
  by (cases style)
    (auto simp: plan_data_layout_def place_def checked_add_eq checked_sub_eq res_simps data_parts_def
      msr_bytes_def u64_add u64_sub word_less_nat_alt word_le_nat_alt ok_or_def ensure_def)

lemma data_parts_fit:
  assumes "unat start + msr_bytes style + 4294967296 \<le> unat limit"
  shows "fits (unat start) (unat limit) (data_parts style start limit)"
  using assms u64_bound [of limit]
  by (cases style) (auto simp: data_parts_def msr_bytes_def part_end_def u64_add u64_sub word_le_nat_alt)

definition infrastructure_parts :: "partition_style \<Rightarrow> u64 \<Rightarrow> planned_partition list" where
  "infrastructure_parts style start = (case style of
     Gpt \<Rightarrow> [\<lparr>part_offset = start, part_length = ESP_4KN_MINIMUM_BYTES, part_role = EfiSystem\<rparr>,
             \<lparr>part_offset = start + ESP_4KN_MINIMUM_BYTES, part_length = MSR_WINDOWS_7_MINIMUM_BYTES,
              part_role = MicrosoftReserved\<rparr>]
   | Mbr \<Rightarrow> [\<lparr>part_offset = start, part_length = MBR_SYSTEM_RESERVED_BYTES, part_role = SystemReserved\<rparr>])"

lemma place_infrastructure_iff:
  "try_fold (place limit) (start, []) (infrastructure style) = Inr (cursor, out) \<longleftrightarrow>
     unat start + unat (infrastructure_bytes style) \<le> unat limit \<and>
     cursor = start + infrastructure_bytes style \<and> out = infrastructure_parts style start"
  using u64_bound [of limit]
  by (cases style)
    (auto simp: place_def checked_add_eq res_simps infrastructure_parts_def u64_add
      word_less_nat_alt ok_or_def ensure_def add.assoc split: if_splits)

lemma infrastructure_parts_fit:
  assumes "unat start + unat (infrastructure_bytes style) \<le> hi" and "hi < 18446744073709551616"
  shows "fits (unat start) (unat (start + infrastructure_bytes style)) (infrastructure_parts style start)"
proof (cases style)
  case Gpt
  have "unat (start + ESP_4KN_MINIMUM_BYTES) = unat start + 314572800"
    using assms Gpt by (simp add: u64_add del: infrastructure_bytes.simps)
  moreover have "unat (start + infrastructure_bytes style) = unat start + 448790528"
    using assms Gpt by (simp add: u64_add del: infrastructure_bytes.simps)
  ultimately show ?thesis by (simp add: Gpt infrastructure_parts_def part_end_def del: infrastructure_bytes.simps)
next
  case Mbr
  have "unat (start + infrastructure_bytes style) = unat start + 576716800"
    using assms Mbr by (simp add: u64_add del: infrastructure_bytes.simps)
  then show ?thesis by (simp add: Mbr infrastructure_parts_def part_end_def del: infrastructure_bytes.simps)
qed

lemma windows_request_bounds:
  assumes "minimum \<noteq> 0" and "minimum \<le> available"
  shows "minimum \<le> windows_request available minimum desired reclaimable \<and>
    windows_request available minimum desired reclaimable \<le> available"
proof -
  have "unat (available - STAGING_RECIPIENT_DATA_BYTES) = unat available - 4563402752"
    if "4563402752 \<le> unat available"
    using that by (simp add: u64_sub word_le_nat_alt)
  then show ?thesis
    using assms by (auto simp: windows_request_def Let_def u64_facts max_def split: if_splits)
qed

lemma windows_request_whole:
  "windows_request available minimum u64_max reclaimable = available"
proof -
  have "max u64_max minimum = u64_max" by (rule max_absorb1) simp
  then show ?thesis by (simp only: windows_request_def Let_def) simp
qed

definition windows_parts :: "partition_style \<Rightarrow> u64 \<Rightarrow> u64 \<Rightarrow> u64 \<Rightarrow> u64 \<Rightarrow> u64 \<Rightarrow> planned_partition list" where
  "windows_parts style start limit minimum desired reclaimable =
     (let cursor = start + infrastructure_bytes style;
          requested = windows_request (limit - cursor) minimum desired reclaimable;
          tail = limit - (cursor + requested)
      in infrastructure_parts style start @
         \<lparr>part_offset = cursor, part_length = requested, part_role = WindowsVolume\<rparr> #
         (if MIN_USEFUL_DATA_BYTES \<le> tail
          then [\<lparr>part_offset = cursor + requested, part_length = tail, part_role = DataVolume\<rparr>] else []))"

text \<open>The layout exists exactly when the boot partitions and the Windows minimum fit.\<close>

definition windows_fits :: "partition_style \<Rightarrow> u64 \<Rightarrow> u64 \<Rightarrow> u64 \<Rightarrow> bool" where
  "windows_fits style start limit minimum \<longleftrightarrow>
     minimum \<noteq> 0 \<and> unat start + unat (infrastructure_bytes style) + unat minimum \<le> unat limit"

lemma plan_windows_layout_iff:
  "plan_windows_layout style start limit minimum desired reclaimable = Inr ps \<longleftrightarrow>
     windows_fits style start limit minimum \<and>
     ps = windows_parts style start limit minimum desired reclaimable"
proof (cases "windows_fits style start limit minimum")
  case True
  let ?cursor = "start + infrastructure_bytes style"
  let ?avail = "limit - ?cursor"
  let ?req = "windows_request ?avail minimum desired reclaimable"
  have cursor: "unat ?cursor = unat start + unat (infrastructure_bytes style)"
    and avail: "unat ?avail = unat limit - unat ?cursor" and le: "unat ?cursor \<le> unat limit"
    using True u64_bound [of limit] by (auto simp: windows_fits_def u64_add u64_sub word_le_nat_alt)
  have min: "minimum \<noteq> 0" "minimum \<le> ?avail"
    using True cursor avail by (auto simp: windows_fits_def word_le_nat_alt)
  have req: "minimum \<le> ?req" "?req \<le> ?avail" using windows_request_bounds [OF min] by auto
  have nlt: "\<not> ?avail < ?req" "\<not> ?avail < minimum" using req(2) min(2) by (simp_all add: not_less)
  have "?req \<noteq> 0" using req(1) min(1) by (auto simp: word_le_nat_alt unat_eq_0)
  moreover have "unat ?cursor + unat ?req \<le> unat limit" using req(2) avail le by (simp add: word_le_nat_alt)
  moreover from this have stop: "unat (?cursor + ?req) = unat ?cursor + unat ?req"
    using u64_bound [of limit] by (intro u64_add) linarith
  moreover have "try_fold (place limit) (start, []) (infrastructure style) =
      Inr (?cursor, infrastructure_parts style start)"
    using True by (simp add: place_infrastructure_iff windows_fits_def)
  moreover have "saturating_sub limit (?cursor + ?req) = limit - (?cursor + ?req)"
    using calculation(2) stop by (simp add: saturating_sub_def word_le_nat_alt)
  moreover have "checked_add ?cursor ?req = Some (?cursor + ?req)"
    using calculation(2) u64_bound [of limit] by (simp add: checked_add_eq)
  ultimately have "plan_windows_layout style start limit minimum desired reclaimable =
      Inr (windows_parts style start limit minimum desired reclaimable)"
    using True min req le nlt
    by (simp add: plan_windows_layout_def checked_sub_eq windows_parts_def Let_def)
  then show ?thesis using True by auto
next
  case False
  have "plan_windows_layout style start limit minimum desired reclaimable \<noteq> Inr ps"
  proof
    assume "plan_windows_layout style start limit minimum desired reclaimable = Inr ps"
    then have ok: "minimum \<noteq> 0"
      "unat start + unat (infrastructure_bytes style) \<le> unat limit"
      "minimum \<le> limit - (start + infrastructure_bytes style)"
      by (auto simp: plan_windows_layout_def res_simps place_infrastructure_iff checked_sub_eq
          Let_def split: if_splits)
    have "unat (start + infrastructure_bytes style) = unat start + unat (infrastructure_bytes style)"
      using ok(2) u64_bound [of limit] by (intro u64_add) linarith
    with ok have "windows_fits style start limit minimum"
      by (simp add: windows_fits_def word_le_nat_alt u64_sub)
    with False show False by simp
  qed
  then show ?thesis using False by simp
qed

lemma plan_windows_layout_error:
  "plan_windows_layout style start limit minimum desired reclaimable = Inl e \<Longrightarrow>
     e = (if minimum = 0 then InvalidWindowsPartitionSize else InvalidDiskCapacity)"
proof -
  have place: "try_fold (place limit) acc vs = Inl e \<Longrightarrow> e = InvalidDiskCapacity" for acc vs
    by (induction vs arbitrary: acc)
      (auto simp: place_def and_then_Inl_iff ensure_Inl_iff ok_or_def split: option.splits)
  assume "plan_windows_layout style start limit minimum desired reclaimable = Inl e"
  then show ?thesis
    by (auto simp: plan_windows_layout_def and_then_Inl_iff ensure_Inl_iff Let_def ok_or_def
        dest: place split: option.splits)
qed

lemma windows_parts_fit:
  assumes "windows_fits style start limit minimum"
  shows "fits (unat start) (unat limit) (windows_parts style start limit minimum desired reclaimable)"
    and "\<exists>w. volumes_of WindowsVolume (windows_parts style start limit minimum desired reclaimable) = [w] \<and>
      unat minimum \<le> unat (part_length w)"
proof -
  let ?cursor = "start + infrastructure_bytes style"
  let ?req = "windows_request (limit - ?cursor) minimum desired reclaimable"
  have cursor: "unat ?cursor = unat start + unat (infrastructure_bytes style)"
    and le: "unat ?cursor + unat minimum \<le> unat limit"
    and avail: "unat (limit - ?cursor) = unat limit - unat ?cursor"
    using assms u64_bound [of limit] by (auto simp: windows_fits_def u64_add u64_sub word_le_nat_alt)
  have min: "minimum \<noteq> 0" "minimum \<le> limit - ?cursor"
    using assms cursor avail le by (auto simp: windows_fits_def word_le_nat_alt)
  have req: "unat minimum \<le> unat ?req" "unat ?cursor + unat ?req \<le> unat limit"
    using windows_request_bounds [OF min, of desired reclaimable] avail le by (auto simp: word_le_nat_alt)
  have stop: "unat (?cursor + ?req) = unat ?cursor + unat ?req"
    using req(2) u64_bound [of limit] by (intro u64_add) linarith
  have tail: "unat (limit - (?cursor + ?req)) = unat limit - (unat ?cursor + unat ?req)"
    using req(2) stop by (simp add: u64_sub word_le_nat_alt)
  have "0 < unat minimum" using min(1) by (simp add: unat_gt_0)
  then have "fits (unat ?cursor) (unat limit)
      (\<lparr>part_offset = ?cursor, part_length = ?req, part_role = WindowsVolume\<rparr> #
       (if MIN_USEFUL_DATA_BYTES \<le> limit - (?cursor + ?req)
        then [\<lparr>part_offset = ?cursor + ?req, part_length = limit - (?cursor + ?req), part_role = DataVolume\<rparr>]
        else []))"
    using req stop tail by (auto simp: part_end_def word_le_nat_alt)
  moreover have "fits (unat start) (unat ?cursor) (infrastructure_parts style start)"
    using infrastructure_parts_fit [of start style "unat limit"] le cursor u64_bound [of limit] by simp
  ultimately show "fits (unat start) (unat limit) (windows_parts style start limit minimum desired reclaimable)"
    by (auto simp: windows_parts_def Let_def intro: fits_append)
  have "volumes_of WindowsVolume (infrastructure_parts style start) = []"
    by (cases style) (simp_all add: volumes_of_def infrastructure_parts_def)
  then show "\<exists>w. volumes_of WindowsVolume (windows_parts style start limit minimum desired reclaimable) = [w] \<and>
      unat minimum \<le> unat (part_length w)"
    using req(1) by (simp add: windows_parts_def Let_def volumes_of_def)
qed

subsection \<open>Around a staging volume, solved\<close>

definition staging_end_of :: "u64 \<Rightarrow> u64 \<Rightarrow> nat" where
  "staging_end_of staging_offset staging_length = unat staging_offset + unat staging_length"

definition back_start_of :: "u64 \<Rightarrow> u64 \<Rightarrow> u64 \<Rightarrow> u64" where
  "back_start_of capacity staging_offset staging_length =
     min (align_up_to_mib (staging_offset + staging_length))
       (max capacity (staging_offset + staging_length))"

lemma round_up_ge: "0 < k \<Longrightarrow> n \<le> (n + k - 1) div k * (k :: nat)"
proof -
  assume k: "0 < k"
  have "(n + k - 1) div k * k + (n + k - 1) mod k = n + k - 1" by simp
  moreover have "(n + k - 1) mod k < k" using k by simp
  ultimately show ?thesis by linarith
qed

lemma align_up_to_mib_ge: "unat v \<le> unat (align_up_to_mib v)"
proof -
  have c: "unat (div_ceil v MIB) = (unat v + 1048576 - 1) div 1048576"
    using unat_div_ceil [of MIB v] by simp
  have "unat v \<le> (unat v + 1048576 - 1) div 1048576 * 1048576"
    by (rule round_up_ge) simp
  then show ?thesis
    using u64_bound [of v] by (simp add: align_up_to_mib_def unat_saturating_mul c)
qed

lemma align_up_to_mib_min: "0 < unat v \<Longrightarrow> 1048576 \<le> unat (align_up_to_mib v)"
proof -
  assume v: "0 < unat v"
  have c: "unat (div_ceil v MIB) = (unat v + 1048576 - 1) div 1048576"
    using unat_div_ceil [of MIB v] by simp
  have "1048576 div 1048576 \<le> (unat v + 1048576 - 1) div 1048576"
    using v by (intro div_le_mono) simp
  then have "1048576 \<le> (unat v + 1048576 - 1) div 1048576 * 1048576" by simp
  then show ?thesis by (simp add: align_up_to_mib_def unat_saturating_mul c)
qed

lemma back_start_facts:
  assumes "unat off + unat len < 18446744073709551616" and "0 < unat len"
  shows "staging_end_of off len \<le> unat (back_start_of capacity off len)"
    and "unat (back_start_of capacity off len) \<le> unat (max capacity (off + len))"
    and "1048576 \<le> unat (back_start_of capacity off len) \<or>
      unat (back_start_of capacity off len) = unat (max capacity (off + len))"
proof -
  have e: "unat (off + len) = unat off + unat len" using assms(1) by (rule u64_add)
  show "staging_end_of off len \<le> unat (back_start_of capacity off len)"
    using align_up_to_mib_ge [of "off + len"] e
    by (simp add: back_start_of_def staging_end_of_def unat_min unat_max)
  show "unat (back_start_of capacity off len) \<le> unat (max capacity (off + len))"
    by (simp add: back_start_of_def unat_min)
  have "1048576 \<le> unat (align_up_to_mib (off + len))"
    using align_up_to_mib_min [of "off + len"] e assms(2) by simp
  then show "1048576 \<le> unat (back_start_of capacity off len) \<or>
      unat (back_start_of capacity off len) = unat (max capacity (off + len))"
    by (auto simp: back_start_of_def unat_min min_def)
qed

lemma front_windows_iff:
  assumes "minimum \<noteq> 0"
  shows "Option.bind (Option.bind (checked_sub off MIB) (\<lambda>v. checked_sub v (infrastructure_bytes style)))
      (\<lambda>before. if minimum \<le> before then Some before else None) =
    (if windows_fits style MIB off minimum then Some (off - MIB - infrastructure_bytes style) else None)"
proof (cases "1048576 \<le> unat off")
  case True
  then have m: "unat (off - MIB) = unat off - 1048576" by (simp add: u64_sub word_le_nat_alt)
  show ?thesis
  proof (cases "unat (infrastructure_bytes style) \<le> unat (off - MIB)")
    case fits: True
    then have "unat (off - MIB - infrastructure_bytes style) =
        unat off - 1048576 - unat (infrastructure_bytes style)"
      using m by (simp add: u64_sub word_le_nat_alt)
    moreover have "0 < unat minimum" using assms by (simp add: unat_gt_0)
    ultimately show ?thesis
      using True fits m assms by (auto simp: checked_sub_eq windows_fits_def word_le_nat_alt)
  next
    case False
    then show ?thesis using True m by (auto simp: checked_sub_eq windows_fits_def)
  qed
next
  case False
  then show ?thesis by (simp add: checked_sub_eq windows_fits_def)
qed

text \<open>The three layouts of a Windows disk.\<close>

lemma windows_around_cases:
  assumes "plan_windows_disk_around_staging style off len bs bl dend minimum = Inr ps"
  obtains
    (merged) "windows_fits style MIB off minimum"
      "ps = windows_parts style MIB off minimum u64_max 0 @
         (if bl < MIN_USEFUL_DATA_BYTES then []
          else [\<lparr>part_offset = bs, part_length = bl, part_role = DataVolume\<rparr>])"
  | (front) desired where "windows_fits style MIB off minimum"
      "ps = windows_parts style MIB off minimum desired (dend - off)"
  | (behind) desired where "\<not> windows_fits style MIB off minimum" "windows_fits style bs dend minimum"
      "ps = (if MIN_USEFUL_DATA_BYTES \<le> saturating_sub off MIB
          then [\<lparr>part_offset = MIB, part_length = saturating_sub off MIB, part_role = DataVolume\<rparr>] else []) @
         windows_parts style bs dend minimum desired 0"
proof (cases "minimum = 0")
  case True
  then show ?thesis using assms by (simp add: plan_windows_disk_around_staging_def)
next
  case False
  show ?thesis
  proof (cases "windows_fits style MIB off minimum")
    case True
    show ?thesis
      using assms False True merged front
      unfolding plan_windows_disk_around_staging_def Let_def front_windows_iff [OF False]
      by (auto simp: res_simps plan_layout_def plan_layout_from_def plan_windows_layout_iff split: if_splits)
  next
    case nofit: False
    show ?thesis
      using assms False nofit behind
      unfolding plan_windows_disk_around_staging_def Let_def front_windows_iff [OF False]
      by (auto simp: res_simps plan_layout_def plan_layout_from_def plan_windows_layout_iff)
  qed
qed

lemma windows_around_ok_iff:
  "(\<exists>ps. plan_windows_disk_around_staging style off len bs bl dend minimum = Inr ps) \<longleftrightarrow>
     windows_fits style MIB off minimum \<or> windows_fits style bs dend minimum"
proof (cases "minimum = 0")
  case True
  then show ?thesis by (simp add: plan_windows_disk_around_staging_def windows_fits_def)
next
  case False
  show ?thesis
  proof (cases "windows_fits style MIB off minimum")
    case True
    then have "\<exists>ps. plan_windows_layout style MIB off minimum d r = Inr ps" for d r
      by (simp add: plan_windows_layout_iff)
    then show ?thesis
      using False True
      unfolding plan_windows_disk_around_staging_def Let_def front_windows_iff [OF False]
      by (auto simp: res_simps plan_layout_def plan_layout_from_def plan_windows_layout_iff)
  next
    case nofit: False
    then show ?thesis
      using False
      unfolding plan_windows_disk_around_staging_def Let_def front_windows_iff [OF False]
      by (simp add: res_simps plan_layout_def plan_layout_from_def plan_windows_layout_iff)
  qed
qed

lemma around_unfold:
  assumes "off \<noteq> 0" "len \<noteq> 0" "unat off + unat len < 18446744073709551616"
  shows "plan_full_disk_layout_around_staging style role capacity off len minimum =
    (let dend = max capacity (off + len); bs = back_start_of capacity off len
     in if role = DataDisk then plan_data_disk_around_staging style off bs dend
        else plan_windows_disk_around_staging style off len bs (dend - bs) dend minimum)"
  using assms
  by (cases role) (simp_all add: plan_full_disk_layout_around_staging_def checked_add_eq back_start_of_def Let_def)

lemma around_guard:
  "plan_full_disk_layout_around_staging style role capacity off len minimum = Inr ps \<Longrightarrow>
     off \<noteq> 0 \<and> len \<noteq> 0 \<and> unat off + unat len < 18446744073709551616"
  by (auto simp: plan_full_disk_layout_around_staging_def checked_add_eq res_simps split: if_splits)

lemma windows_around_safe:
  assumes "plan_windows_disk_around_staging style off len bs (dend - bs) dend minimum = Inr ps"
    and "send \<le> unat bs" "unat bs \<le> unat dend" "1048576 \<le> unat bs \<or> unat bs = unat dend"
    and "unat off \<le> send"
  shows "fits 1048576 (unat dend) ps \<and> clear_of (unat off) send ps \<and>
    (\<exists>w. volumes_of WindowsVolume ps = [w] \<and> unat minimum \<le> unat (part_length w))"
  using assms(1)
proof (cases rule: windows_around_cases)
  case merged
  let ?w = "windows_parts style MIB off minimum u64_max 0"
  have w: "fits 1048576 (unat off) ?w"
    using windows_parts_fit(1) [OF merged(1), of u64_max 0] by simp
  let ?b = "if dend - bs < MIN_USEFUL_DATA_BYTES then []
    else [\<lparr>part_offset = bs, part_length = dend - bs, part_role = DataVolume\<rparr>]"
  have b: "fits (unat bs) (unat dend) ?b"
    using assms(3) by (auto simp: part_end_def u64_sub word_le_nat_alt word_less_nat_alt)
  have "fits (unat off) (unat dend) ?b"
    using fits_mono [OF b, of "unat off" "unat dend"] assms(2,5) by simp
  then have "fits 1048576 (unat dend) ps" unfolding merged(2) by (rule fits_append [OF w])
  moreover have "clear_of (unat off) send ps"
    unfolding merged(2) clear_of_append
    using fits_clear_before [OF w order_refl] fits_clear_after [OF b assms(2)] by blast
  moreover have "volumes_of WindowsVolume ps = volumes_of WindowsVolume ?w"
    by (simp add: merged(2) volumes_of_def)
  ultimately show ?thesis using windows_parts_fit(2) [OF merged(1), of u64_max 0] by simp
next
  case (front desired)
  have w: "fits 1048576 (unat off) ps"
    using windows_parts_fit(1) [OF front(1), of desired "dend - off"] front(2) by simp
  have "fits 1048576 (unat dend) ps" by (rule fits_mono [OF w order_refl]) (use assms in simp)
  then show ?thesis
    using fits_clear_before [OF w order_refl] windows_parts_fit(2) [OF front(1), of desired "dend - off"] front(2)
    by simp
next
  case (behind desired)
  let ?w = "windows_parts style bs dend minimum desired 0"
  let ?f = "if MIN_USEFUL_DATA_BYTES \<le> saturating_sub off MIB
    then [\<lparr>part_offset = MIB, part_length = saturating_sub off MIB, part_role = DataVolume\<rparr>] else []"
  have w: "fits (unat bs) (unat dend) ?w"
    using windows_parts_fit(1) [OF behind(2), of desired 0] .
  have "unat bs < unat dend"
    using behind(2) infrastructure_nonzero [of style] by (simp add: windows_fits_def)
  then have bs: "1048576 \<le> unat bs" using assms(4) by simp
  have f: "fits 1048576 (max 1048576 (unat off)) ?f"
    by (auto simp: part_end_def unat_saturating_sub word_le_nat_alt)
  have "fits 1048576 (unat dend) ps"
    unfolding behind(3)
    by (rule fits_append [OF f fits_mono [OF w]]) (use bs assms in simp_all)
  moreover have "clear_of (unat off) send ?f"
    by (simp add: clear_of_def part_end_def unat_saturating_sub word_le_nat_alt)
  moreover have "clear_of (unat off) send ?w" by (rule fits_clear_after [OF w assms(2)])
  moreover have "volumes_of WindowsVolume ps = volumes_of WindowsVolume ?w"
    by (simp add: behind(3) volumes_of_def)
  ultimately show ?thesis using windows_parts_fit(2) [OF behind(2), of desired 0] by (simp add: behind(3))
qed

text \<open>The layouts of a data disk.\<close>

definition data_back_parts :: "partition_style \<Rightarrow> u64 \<Rightarrow> u64 \<Rightarrow> u64 \<Rightarrow> planned_partition list" where
  "data_back_parts style off bs dend =
     (if style = Gpt \<and> 135266304 \<le> unat off then
        [\<lparr>part_offset = MIB, part_length = MSR_WINDOWS_7_MINIMUM_BYTES, part_role = MicrosoftReserved\<rparr>,
         \<lparr>part_offset = bs, part_length = dend - bs, part_role = DataVolume\<rparr>]
      else data_parts style bs dend)"

definition data_front_fits :: "partition_style \<Rightarrow> u64 \<Rightarrow> bool" where
  "data_front_fits style off \<longleftrightarrow> 1048576 + msr_bytes style + 4294967296 \<le> unat off"

definition data_back_fits :: "partition_style \<Rightarrow> u64 \<Rightarrow> u64 \<Rightarrow> u64 \<Rightarrow> bool" where
  "data_back_fits style off bs dend \<longleftrightarrow>
     unat bs + (if 135266304 \<le> unat off then 0 else msr_bytes style) + 4294967296 \<le> unat dend"

lemma data_front_holds:
  "(case Option.bind (checked_sub off MIB)
      (\<lambda>v. checked_sub v (case style of Gpt \<Rightarrow> MSR_WINDOWS_7_MINIMUM_BYTES | Mbr \<Rightarrow> 0)) of
      None \<Rightarrow> False | Some v \<Rightarrow> MIN_USEFUL_DATA_BYTES \<le> v) \<longleftrightarrow> data_front_fits style off"
  by (cases style)
    (auto simp: checked_sub_eq data_front_fits_def msr_bytes_def u64_sub word_le_nat_alt)

lemma msr_nonzero [simp]: "MSR_WINDOWS_7_MINIMUM_BYTES \<noteq> 0"
  by (simp add: word_unat_eq_iff)

lemma plan_data_disk_iff:
  "plan_data_disk_around_staging style off bs dend = Inr ps \<longleftrightarrow>
     (if data_front_fits style off then ps = data_parts style MIB off
      else data_back_fits style off bs dend \<and> ps = data_back_parts style off bs dend)"
proof (cases "data_front_fits style off")
  case True
  then have "1048576 + msr_bytes style + 4294967296 \<le> unat off" by (simp add: data_front_fits_def)
  then show ?thesis
    using True unfolding plan_data_disk_around_staging_def Let_def data_front_holds
    by (auto simp: plan_layout_def plan_layout_from_def plan_data_layout_iff)
next
  case False
  note unfolded = plan_data_disk_around_staging_def Let_def data_front_holds
  show ?thesis
  proof (cases style)
    case Mbr
    then show ?thesis
      using False unfolding unfolded
      by (auto simp: res_simps checked_sub_eq data_back_fits_def data_back_parts_def data_parts_def
          msr_bytes_def u64_sub word_less_nat_alt word_le_nat_alt ok_or_def ensure_def)
  next
    case Gpt
    have front: "(case checked_add MIB MSR_WINDOWS_7_MINIMUM_BYTES of None \<Rightarrow> False
        | Some stop \<Rightarrow> stop \<le> off) \<longleftrightarrow> 135266304 \<le> unat off"
      by (simp add: checked_add_eq word_le_nat_alt u64_add)
    show ?thesis
      using False Gpt u64_bound [of dend] unfolding unfolded
      by (auto simp: front res_simps checked_sub_eq checked_add_eq data_back_fits_def data_back_parts_def
          data_parts_def msr_bytes_def u64_sub u64_add word_less_nat_alt word_le_nat_alt ok_or_def ensure_def)
  qed
qed

lemma data_around_safe:
  assumes "plan_data_disk_around_staging style off bs dend = Inr ps"
    and "send \<le> unat bs" "unat bs \<le> unat dend" "1048576 \<le> unat bs \<or> unat bs = unat dend"
    and "unat off \<le> send"
  shows "fits 1048576 (unat dend) ps \<and> clear_of (unat off) send ps \<and> volumes_of WindowsVolume ps = [] \<and>
    (\<exists>w. volumes_of DataVolume ps = [w] \<and> 4294967296 \<le> unat (part_length w))"
proof (cases "data_front_fits style off")
  case True
  then have ps: "ps = data_parts style MIB off" and
    room: "unat MIB + msr_bytes style + 4294967296 \<le> unat off"
    using assms(1) by (auto simp: plan_data_disk_iff data_front_fits_def)
  have w: "fits 1048576 (unat off) ps" using data_parts_fit [OF room] ps by simp
  have "fits 1048576 (unat dend) ps" by (rule fits_mono [OF w order_refl]) (use assms in simp)
  moreover have "clear_of (unat off) send ps" by (rule fits_clear_before [OF w order_refl])
  ultimately show ?thesis
    using room by (auto simp: ps data_parts_def volumes_of_def msr_bytes_def u64_sub u64_add
        word_le_nat_alt split: if_splits)
next
  case False
  then have room: "data_back_fits style off bs dend" and ps: "ps = data_back_parts style off bs dend"
    using assms(1) by (auto simp: plan_data_disk_iff)
  have bs: "1048576 \<le> unat bs" using room assms(4) by (auto simp: data_back_fits_def)
  show ?thesis
  proof (cases "style = Gpt \<and> 135266304 \<le> unat off")
    case True
    then show ?thesis
      using room assms(2,3,5) bs
      by (auto simp: ps data_back_parts_def data_back_fits_def part_end_def clear_of_def volumes_of_def
          u64_sub word_le_nat_alt)
  next
    case False
    then have r: "unat bs + msr_bytes style + 4294967296 \<le> unat dend"
      using room by (auto simp: data_back_fits_def msr_bytes_def split: if_splits)
    have w: "fits (unat bs) (unat dend) ps"
      using data_parts_fit [OF r] False by (auto simp: ps data_back_parts_def)
    have "fits 1048576 (unat dend) ps" by (rule fits_mono [OF w bs order_refl])
    moreover have "clear_of (unat off) send ps" by (rule fits_clear_after [OF w assms(2)])
    ultimately show ?thesis
      using r False u64_bound [of dend]
      by (auto simp: ps data_back_parts_def data_parts_def volumes_of_def msr_bytes_def u64_sub u64_add
          word_le_nat_alt split: if_splits)
  qed
qed

subsection \<open>Properties of the planner\<close>

text \<open>
  C16. A layout planned around a staging volume is safe for the data in it. For every disk
  capacity, staging extent, image minimum, partition style and disk role: if the planner returns a
  layout, its partitions are non-empty, start at 1 MiB or later, are in ascending order without
  overlap, end within the disk, and none of them touches a byte of the staging volume; a Windows
  disk has exactly one Windows volume, at least as large as the minimum, and a data disk has none.
  No quantity wraps around on the way.
\<close>

theorem layout_around_staging_safe:
  assumes "plan_full_disk_layout_around_staging style role capacity off len minimum = Inr ps"
  shows "(\<forall>p \<in> set ps. 1048576 \<le> part_start p \<and> part_start p < part_end p \<and>
      part_end p \<le> max (unat capacity) (unat off + unat len) \<and>
      (part_end p \<le> unat off \<or> unat off + unat len \<le> part_start p)) \<and>
    (\<forall>j < length ps. \<forall>i < j. part_end (ps ! i) \<le> part_start (ps ! j)) \<and>
    (role = WindowsDisk \<longrightarrow>
       (\<exists>w. volumes_of WindowsVolume ps = [w] \<and> unat minimum \<le> unat (part_length w))) \<and>
    (role = DataDisk \<longrightarrow> volumes_of WindowsVolume ps = [] \<and>
       (\<exists>w. volumes_of DataVolume ps = [w] \<and> 4294967296 \<le> unat (part_length w)))"
proof -
  note g = around_guard [OF assms]
  let ?dend = "max capacity (off + len)" and ?bs = "back_start_of capacity off len"
  have l: "0 < unat len" using g by (simp add: unat_gt_0)
  note bs = back_start_facts [of off len capacity]
  have dend: "unat ?dend = max (unat capacity) (unat off + unat len)"
    using g by (simp add: unat_max u64_add)
  have plan: "if role = DataDisk then plan_data_disk_around_staging style off ?bs ?dend = Inr ps
      else plan_windows_disk_around_staging style off len ?bs (?dend - ?bs) ?dend minimum = Inr ps"
    using assms g by (simp add: around_unfold Let_def split: if_splits)
  have off: "unat off \<le> staging_end_of off len" by (simp add: staging_end_of_def)
  have safe: "fits 1048576 (unat ?dend) ps \<and> clear_of (unat off) (staging_end_of off len) ps \<and>
      (role = WindowsDisk \<longrightarrow> (\<exists>w. volumes_of WindowsVolume ps = [w] \<and> unat minimum \<le> unat (part_length w))) \<and>
      (role = DataDisk \<longrightarrow> volumes_of WindowsVolume ps = [] \<and>
        (\<exists>w. volumes_of DataVolume ps = [w] \<and> 4294967296 \<le> unat (part_length w)))"
  proof (cases role)
    case WindowsDisk
    then show ?thesis
      using windows_around_safe [of style off len ?bs ?dend minimum ps] plan bs g l off by simp
  next
    case DataDisk
    then show ?thesis
      using data_around_safe [of style off ?bs ?dend ps] plan bs g l off by simp
  qed
  then have "\<forall>p \<in> set ps. 1048576 \<le> part_start p \<and> part_start p < part_end p \<and>
      part_end p \<le> unat ?dend \<and> (part_end p \<le> unat off \<or> unat off + unat len \<le> part_start p)"
    using fits_members [of 1048576 "unat ?dend" ps]
    by (auto simp: clear_of_def list_all_iff staging_end_of_def)
  moreover have "\<forall>j < length ps. \<forall>i < j. part_end (ps ! i) \<le> part_start (ps ! j)"
    using safe fits_disjoint by blast
  ultimately show ?thesis using safe by (simp add: dend)
qed

lemma around_ok_iff:
  "(\<exists>ps. plan_full_disk_layout_around_staging style WindowsDisk capacity off len minimum = Inr ps) \<longleftrightarrow>
     off \<noteq> 0 \<and> len \<noteq> 0 \<and> unat off + unat len < 18446744073709551616 \<and>
     (windows_fits style MIB off minimum \<or>
      windows_fits style (back_start_of capacity off len) (max capacity (off + len)) minimum)"
proof (cases "off \<noteq> 0 \<and> len \<noteq> 0 \<and> unat off + unat len < 18446744073709551616")
  case True
  then show ?thesis by (simp add: around_unfold Let_def windows_around_ok_iff)
next
  case False
  then show ?thesis using around_guard by blast
qed

lemma sample_staging_fits: "windows_fits Gpt MIB (200 * GIB) (16 * GIB)"
  by (simp add: windows_fits_def GIB_def MIB_def word_unat_eq_iff ESP_4KN_MINIMUM_BYTES_def
      MSR_WINDOWS_7_MINIMUM_BYTES_def)

theorem layout_around_staging_safe_witness:
  "\<exists>ps w. plan_full_disk_layout_around_staging Gpt WindowsDisk (500 * GIB) (200 * GIB) (20 * GIB) (16 * GIB)
      = Inr ps \<and> volumes_of WindowsVolume ps = [w] \<and> unat (16 * GIB) \<le> unat (part_length w)"
proof -
  have "\<exists>ps. plan_full_disk_layout_around_staging Gpt WindowsDisk (500 * GIB) (200 * GIB) (20 * GIB) (16 * GIB)
      = Inr ps"
    unfolding around_ok_iff using sample_staging_fits
    by (simp add: GIB_def MIB_def word_unat_eq_iff)
  then obtain ps where "plan_full_disk_layout_around_staging Gpt WindowsDisk (500 * GIB) (200 * GIB)
      (20 * GIB) (16 * GIB) = Inr ps" by blast
  from layout_around_staging_safe [OF this] this show ?thesis by blast
qed

text \<open>
  Only a disk that cannot hold the image-derived minimum anywhere is rejected. For a Windows
  disk with a well-formed staging extent, planning succeeds exactly when the boot partitions and
  the minimum fit between 1 MiB and the staging volume, or between the first whole MiB behind it
  and the end of the disk.
\<close>

theorem layout_around_staging_complete:
  "(\<exists>ps. plan_full_disk_layout_around_staging style WindowsDisk capacity off len minimum = Inr ps) \<longleftrightarrow>
     off \<noteq> 0 \<and> len \<noteq> 0 \<and> unat off + unat len < 2 ^ 64 \<and> minimum \<noteq> 0 \<and>
     (1048576 + unat (infrastructure_bytes style) + unat minimum \<le> unat off \<or>
      unat (back_start_of capacity off len) + unat (infrastructure_bytes style) + unat minimum
        \<le> max (unat capacity) (unat off + unat len))"
proof -
  have "unat (max capacity (off + len)) = max (unat capacity) (unat off + unat len)"
    if "unat off + unat len < 18446744073709551616"
    using that by (simp add: unat_max u64_add)
  then show ?thesis unfolding around_ok_iff windows_fits_def by auto
qed

lemma full_disk_layout_iff:
  "plan_full_disk_layout_for_disk style WindowsDisk usable capacity minimum = Inr ps \<longleftrightarrow>
     windows_fits style MIB usable minimum \<and>
     ps = windows_parts style MIB usable minimum
       (automatic_full_disk_windows_bytes (max capacity usable) minimum) (max capacity usable - usable)"
  by (simp add: plan_full_disk_layout_for_disk_def Let_def plan_layout_def plan_layout_from_def
      plan_windows_layout_iff)

text \<open>The capacity-aware layout of a disk without a staging volume. For a Windows disk it exists
  exactly when the boot partitions and the image minimum fit behind the first MiB; the partitions
  then fill a range from 1 MiB up to the usable end in ascending order without overlap, with exactly
  one Windows volume of at least the minimum. On a disk of at most 256 GiB that volume takes all the
  space behind the boot partitions.
\<close>

theorem full_disk_layout_correct:
  assumes "plan_full_disk_layout_for_disk style WindowsDisk usable capacity minimum = r"
  shows "(r = Inl (if minimum = 0 then InvalidWindowsPartitionSize else InvalidDiskCapacity) \<and>
      (minimum = 0 \<or> unat usable < 1048576 + unat (infrastructure_bytes style) + unat minimum)) \<or>
    (\<exists>ps w. r = Inr ps \<and> minimum \<noteq> 0 \<and> fits 1048576 (unat usable) ps \<and>
      volumes_of WindowsVolume ps = [w] \<and> unat minimum \<le> unat (part_length w) \<and>
      (max capacity usable \<le> FULL_DISK_WHOLE_WINDOWS_MAX_CAPACITY_BYTES \<longrightarrow>
         unat (part_length w) = unat usable - 1048576 - unat (infrastructure_bytes style)))"
proof (cases "windows_fits style MIB usable minimum")
  case False
  have "r = Inl (if minimum = 0 then InvalidWindowsPartitionSize else InvalidDiskCapacity)"
  proof (cases r)
    case (Inl e)
    then have "plan_windows_layout style MIB usable minimum
        (automatic_full_disk_windows_bytes (max capacity usable) minimum) (max capacity usable - usable) = Inl e"
      using assms by (simp add: plan_full_disk_layout_for_disk_def Let_def plan_layout_def plan_layout_from_def)
    then show ?thesis
      by (simp add: Inl plan_windows_layout_error)
  next
    case (Inr ps)
    then show ?thesis using assms False by (simp add: full_disk_layout_iff)
  qed
  then show ?thesis using False by (auto simp: windows_fits_def)
next
  case fit: True
  let ?d = "automatic_full_disk_windows_bytes (max capacity usable) minimum"
  let ?r = "max capacity usable - usable"
  let ?ps = "windows_parts style MIB usable minimum ?d ?r"
  have r: "r = Inr ?ps" using assms fit full_disk_layout_iff by blast
  have no_infra: "volumes_of WindowsVolume (infrastructure_parts style MIB) = []"
    by (cases style) (simp_all add: volumes_of_def infrastructure_parts_def)
  have whole: "unat (part_length w) = unat usable - 1048576 - unat (infrastructure_bytes style)"
    if small: "max capacity usable \<le> FULL_DISK_WHOLE_WINDOWS_MAX_CAPACITY_BYTES"
      and w: "volumes_of WindowsVolume ?ps = [w]" for w
  proof -
    have "max u64_max minimum = u64_max" by (rule max_absorb1) simp
    then have "?d = u64_max" using small by (simp add: automatic_full_disk_windows_bytes_def)
    then have "part_length w = usable - (MIB + infrastructure_bytes style)"
      using w no_infra by (auto simp: windows_parts_def Let_def volumes_of_def windows_request_whole split: if_splits)
    moreover have "unat (MIB + infrastructure_bytes style) = 1048576 + unat (infrastructure_bytes style)"
      using fit u64_bound [of usable] by (simp add: windows_fits_def u64_add)
    ultimately show ?thesis
      using fit by (simp add: windows_fits_def u64_sub word_le_nat_alt)
  qed
  obtain w where w: "volumes_of WindowsVolume ?ps = [w]" "unat minimum \<le> unat (part_length w)"
    using windows_parts_fit(2) [OF fit, of ?d ?r] by blast
  have "fits 1048576 (unat usable) ?ps" "minimum \<noteq> 0"
    using windows_parts_fit(1) [OF fit, of ?d ?r] fit by (simp_all add: windows_fits_def)
  then show ?thesis using r w whole [OF _ w(1)] by blast
qed

lemma sample_disk_fits: "windows_fits Gpt MIB (128 * GIB) (16 * GIB)"
  by (simp add: windows_fits_def GIB_def MIB_def word_unat_eq_iff ESP_4KN_MINIMUM_BYTES_def
      MSR_WINDOWS_7_MINIMUM_BYTES_def)

theorem full_disk_layout_correct_witness:
  "\<exists>ps w. plan_full_disk_layout_for_disk Gpt WindowsDisk (128 * GIB) (128 * GIB) (16 * GIB) = Inr ps \<and>
     volumes_of WindowsVolume ps = [w] \<and> unat (part_length w) = 136989114368"
proof -
  have small: "max (128 * GIB) (128 * GIB) \<le> FULL_DISK_WHOLE_WINDOWS_MAX_CAPACITY_BYTES"
    by (simp add: GIB_def MIB_def FULL_DISK_WHOLE_WINDOWS_MAX_CAPACITY_BYTES_def)
  have room: "16 * GIB \<noteq> 0" "unat (128 * GIB) = 137438953472"
    by (simp_all add: GIB_def MIB_def)
  have "\<not> unat (128 * GIB) < 1048576 + unat (infrastructure_bytes Gpt) + unat (16 * GIB)"
    using sample_disk_fits by (simp add: windows_fits_def)
  then show ?thesis
    using full_disk_layout_correct [OF refl, of Gpt "128 * GIB" "128 * GIB" "16 * GIB"] small room
    by (auto simp del: infrastructure_bytes.simps)
qed

end
