(* ===== verification/CustomPlan.thy ===== *)
theory CustomPlan
  imports DiskLayout HandoffAuth Selection
begin

section \<open>The plan of an installation\<close>

text \<open>
  \<open>lr-core/src/custom_install.rs\<close>, the contract between the confirmation dialogue and the boot
  environment: reinstall one partition, repartition the selected disks, or install beside the running
  system. \<open>serde_json\<close> is a library: the two functions it derives for the plan are the parameters
  \<open>to_string\<close> and \<open>from_str\<close>. A drive letter is a Unicode scalar value.
\<close>

datatype install_mode = ReinstallPartitionMode | RepartitionAllDisksMode | DualBootMode

fun as_config_value :: "install_mode \<Rightarrow> string" where
  "as_config_value ReinstallPartitionMode = ''reinstall_partition''"
| "as_config_value RepartitionAllDisksMode = ''repartition_all_disks''"
| "as_config_value DualBootMode = ''dual_boot''"

definition from_config_value :: "string \<Rightarrow> install_mode option" where
  "from_config_value v =
     (if trim v = ''reinstall_partition'' then Some ReinstallPartitionMode
      else if trim v = ''repartition_all_disks'' then Some RepartitionAllDisksMode
      else if trim v = ''dual_boot'' then Some DualBootMode
      else None)"

lemma config_value_roundtrip: "from_config_value (as_config_value m) = Some m"
proof -
  have "list_all printable (as_config_value m)"
    by (cases m) (simp_all add: printable_def)
  then have "trim (as_config_value m) = as_config_value m" by (rule trim_printable)
  then show ?thesis by (cases m) (simp_all add: from_config_value_def)
qed

subsection \<open>Plans\<close>

record full_disk_selection =
  fds_disk_number :: u32
  fds_token :: string
  fds_style :: partition_style
  fds_role :: full_disk_role

record preserved_staging =
  pst_token :: string
  pst_offset :: u64
  pst_length :: u64

record repartition_plan =
  rp_disks :: "full_disk_selection list"
  rp_windows_bytes :: u64
  rp_staging :: "preserved_staging option"

record dual_boot_plan =
  db_source_letter :: nat
  db_source_offset :: u64
  db_source_before :: u64
  db_source_after :: u64
  db_target_offset :: u64
  db_target_length :: u64
  db_data_offset :: "u64 option"
  db_data_length :: u64

datatype install_plan =
  ReinstallPartition
| RepartitionAllDisks repartition_plan
| DualBoot dual_boot_plan

fun plan_mode :: "install_plan \<Rightarrow> install_mode" where
  "plan_mode ReinstallPartition = ReinstallPartitionMode"
| "plan_mode (RepartitionAllDisks _) = RepartitionAllDisksMode"
| "plan_mode (DualBoot _) = DualBootMode"

subsection \<open>Validation\<close>

definition ranges_overlap :: "u64 \<Rightarrow> u64 \<Rightarrow> u64 \<Rightarrow> u64 \<Rightarrow> plan_error + bool" where
  "ranges_overlap left_offset left_length right_offset right_length =
     (if left_length = 0 \<or> right_length = 0 then Inl InvalidPreservedStaging
      else
        and_then (ok_or (checked_add left_offset left_length) InvalidPreservedStaging) (\<lambda>left_end.
        and_then (ok_or (checked_add right_offset right_length) InvalidPreservedStaging) (\<lambda>right_end.
        Inr (left_offset < right_end \<and> right_offset < left_end))))"

text \<open>The loop over the disks: the tokens and the displayed disks seen, the Windows disks counted.\<close>

type_synonym disk_scan = "string set \<times> u32 set \<times> nat"

definition scan_disk :: "disk_scan \<Rightarrow> full_disk_selection \<Rightarrow> plan_error + disk_scan" where
  "scan_disk st d = (case st of (tokens, diagnostics, windows) \<Rightarrow>
     and_then (map_err (\<lambda>_. DuplicateDiskLocator) (validate_locator_token (fds_token d))) (\<lambda>_.
     and_then (ensure (fds_token d \<notin> tokens) DuplicateDiskLocator) (\<lambda>_.
     and_then (ensure (fds_disk_number d \<notin> diagnostics) DuplicateDiagnosticDisk) (\<lambda>_.
     Inr (insert (fds_token d) tokens, insert (fds_disk_number d) diagnostics,
          if fds_role d = WindowsDisk then windows + 1 else windows)))))"

definition validate_full_disk_plan :: "repartition_plan \<Rightarrow> plan_error + unit" where
  "validate_full_disk_plan plan =
     and_then (ensure (rp_disks plan \<noteq> []) EmptyDiskSet) (\<lambda>_.
     and_then (try_fold scan_disk ({}, {}, 0) (rp_disks plan)) (\<lambda>(tokens, diagnostics, windows).
     and_then (if windows = 0 then Inl MissingWindowsDisk
               else if windows = 1 then Inr () else Inl MultipleWindowsDisks) (\<lambda>_.
     and_then (ensure (rp_windows_bytes plan \<noteq> 0) InvalidWindowsPartitionSize) (\<lambda>_.
     (case rp_staging plan of
        None \<Rightarrow> Inr ()
      | Some s \<Rightarrow>
          and_then (ensure (pst_token s \<in> tokens) InvalidPreservedStaging) (\<lambda>_.
          ensure (\<not> (pst_offset s = 0 \<or> pst_length s = 0 \<or> checked_add (pst_offset s) (pst_length s) = None))
            InvalidPreservedStaging))))))"

definition is_ascii_alphabetic :: "nat \<Rightarrow> bool" where
  "is_ascii_alphabetic c \<longleftrightarrow> (65 \<le> c \<and> c \<le> 90) \<or> (97 \<le> c \<and> c \<le> 122)"

definition validate_dual_boot_plan :: "dual_boot_plan \<Rightarrow> plan_error + unit" where
  "validate_dual_boot_plan p =
     (if \<not> is_ascii_alphabetic (db_source_letter p) \<or> db_source_offset p = 0 \<or> db_source_before p = 0 \<or>
         db_source_after p = 0 \<or> db_source_before p \<le> db_source_after p \<or>
         checked_add (db_source_offset p) (db_source_before p) = None
      then Inl InvalidDualBootSource
      else if db_target_offset p = 0 \<or> db_target_length p = 0 then Inl InvalidDualBootTarget
      else
        and_then (ok_or (checked_add (db_source_offset p) (db_source_after p)) InvalidDualBootSource) (\<lambda>source_end.
        and_then (ensure (\<not> db_target_offset p < source_end) DualBootExtentsOverlap) (\<lambda>_.
        and_then (ranges_overlap (db_source_offset p) (db_source_after p) (db_target_offset p) (db_target_length p))
          (\<lambda>overlap.
        and_then (ensure (\<not> overlap) DualBootExtentsOverlap) (\<lambda>_.
        (case db_data_offset p of
           Some data_offset \<Rightarrow>
             (if db_data_length p = 0 then Inl DualBootExtentsOverlap
              else
                and_then (ranges_overlap (db_target_offset p) (db_target_length p) data_offset (db_data_length p))
                  (\<lambda>overlap. ensure (\<not> overlap) DualBootExtentsOverlap))
         | None \<Rightarrow> ensure (\<not> db_data_length p \<noteq> 0) InvalidDualBootTarget))))))"

fun validate_plan :: "install_plan \<Rightarrow> plan_error + unit" where
  "validate_plan ReinstallPartition = Inr ()"
| "validate_plan (RepartitionAllDisks p) = validate_full_disk_plan p"
| "validate_plan (DualBoot p) = validate_dual_boot_plan p"

definition plan_to_json :: "(install_plan \<Rightarrow> string option) \<Rightarrow> install_plan \<Rightarrow> plan_error + string" where
  "plan_to_json to_string p =
     and_then (validate_plan p) (\<lambda>_. ok_or (to_string p) MalformedPlan)"

definition plan_from_json :: "(string \<Rightarrow> install_plan option) \<Rightarrow> string \<Rightarrow> plan_error + install_plan" where
  "plan_from_json from_str v =
     and_then (ok_or (from_str v) MalformedPlan) (\<lambda>p. and_then (validate_plan p) (\<lambda>_. Inr p))"

subsection \<open>Extents\<close>

record free_extent =
  fe_offset :: u64
  fe_length :: u64

definition select_dual_boot_free_extent :: "u64 \<Rightarrow> u64 \<Rightarrow> free_extent list \<Rightarrow> free_extent option" where
  "select_dual_boot_free_extent source_end required extents =
     (if required = 0 then None
      else min_by_key fe_offset (filter (\<lambda>e. required \<le> fe_length e \<and> source_end \<le> fe_offset e \<and>
        checked_add (fe_offset e) (fe_length e) \<noteq> None) extents))"

definition validate_existing_staging_extent :: "preserved_staging \<Rightarrow> u64 \<Rightarrow> u64 \<Rightarrow> u64 \<Rightarrow> plan_error + unit" where
  "validate_existing_staging_extent s disk_size target_offset target_length =
     and_then (ok_or (checked_add (pst_offset s) (pst_length s)) InvalidPreservedStaging) (\<lambda>staging_end.
     if pst_offset s = 0 \<or> pst_length s = 0 \<or> disk_size < staging_end then Inl InvalidPreservedStaging
     else
       and_then (ranges_overlap (pst_offset s) (pst_length s) target_offset target_length) (\<lambda>overlap.
       ensure (\<not> overlap) InvalidPreservedStaging))"

text \<open>The nested loops over the markers and the configurations.\<close>

definition exact_session_pair_indices :: "string list \<Rightarrow> string list \<Rightarrow> (nat \<times> nat) list" where
  "exact_session_pair_indices markers configs =
     concat (map (\<lambda>(i, marker). if marker = [] then []
       else concat (map (\<lambda>(j, config). if config \<noteq> [] \<and> marker = config then [(i, j)] else [])
         (List.enumerate 0 configs))) (List.enumerate 0 markers))"

subsection \<open>Properties\<close>

definition byte_range :: "u64 \<Rightarrow> u64 \<Rightarrow> nat set" where
  "byte_range off len = {unat off ..< unat off + unat len}"

lemma byte_ranges_meet:
  "byte_range a m \<inter> byte_range b n \<noteq> {} \<longleftrightarrow>
     unat a < unat b + unat n \<and> unat b < unat a + unat m \<and> m \<noteq> 0 \<and> n \<noteq> 0"
proof -
  have "{i ..< i + k} \<inter> {j ..< j + l} \<noteq> {} \<longleftrightarrow> i < j + l \<and> j < i + k \<and> 0 < k \<and> 0 < l" for i j k l :: nat
  proof
    assume "i < j + l \<and> j < i + k \<and> 0 < k \<and> 0 < l"
    then have "max i j \<in> {i ..< i + k} \<inter> {j ..< j + l}" by auto
    then show "{i ..< i + k} \<inter> {j ..< j + l} \<noteq> {}" by blast
  qed auto
  then show ?thesis by (simp add: byte_range_def unat_gt_0)
qed

lemma byte_ranges_apart:
  "byte_range a m \<inter> byte_range b n = {} \<longleftrightarrow>
     \<not> (unat a < unat b + unat n \<and> unat b < unat a + unat m \<and> m \<noteq> 0 \<and> n \<noteq> 0)"
  using byte_ranges_meet [of a m b n] by blast

lemma ranges_overlap_Inr:
  "ranges_overlap a m b n = Inr r \<longleftrightarrow> m \<noteq> 0 \<and> n \<noteq> 0 \<and> unat a + unat m < 2 ^ 64 \<and> unat b + unat n < 2 ^ 64 \<and>
     (r \<longleftrightarrow> byte_range a m \<inter> byte_range b n \<noteq> {})"
proof (cases "m = 0 \<or> n = 0 \<or> 2 ^ 64 \<le> unat a + unat m \<or> 2 ^ 64 \<le> unat b + unat n")
  case True
  then show ?thesis by (auto simp: ranges_overlap_def checked_add_def)
next
  case False
  then have "unat (a + m) = unat a + unat m" "unat (b + n) = unat b + unat n"
    by (simp_all add: unat_add_no_overflow)
  then show ?thesis
    using False by (auto simp: ranges_overlap_def checked_add_def byte_ranges_meet word_less_nat_alt)
qed

lemma scan_disks_Inr:
  "try_fold scan_disk (tokens, diagnostics, windows) ds = Inr st \<longleftrightarrow>
     list_all (\<lambda>d. length (fds_token d) = 64 \<and> list_all is_lower_hex (fds_token d)) ds \<and>
     distinct (map fds_token ds) \<and> fds_token ` set ds \<inter> tokens = {} \<and>
     distinct (map fds_disk_number ds) \<and> fds_disk_number ` set ds \<inter> diagnostics = {} \<and>
     st = (tokens \<union> fds_token ` set ds, diagnostics \<union> fds_disk_number ` set ds,
           windows + length (filter (\<lambda>d. fds_role d = WindowsDisk) ds))"
proof (induction ds arbitrary: tokens diagnostics windows)
  case (Cons d ds)
  have step: "scan_disk (tokens, diagnostics, windows) d = Inr st1 \<longleftrightarrow>
      length (fds_token d) = 64 \<and> list_all is_lower_hex (fds_token d) \<and> fds_token d \<notin> tokens \<and>
      fds_disk_number d \<notin> diagnostics \<and>
      st1 = (insert (fds_token d) tokens, insert (fds_disk_number d) diagnostics,
             if fds_role d = WindowsDisk then windows + 1 else windows)" for st1
    by (auto simp: scan_disk_def validate_locator_token_def res_simps)
  show ?case
    by (simp only: try_fold.simps and_then_Inr_iff step) (auto simp: Cons.IH)
qed auto

definition staging_in_plan :: "repartition_plan \<Rightarrow> bool" where
  "staging_in_plan p = (case rp_staging p of
     None \<Rightarrow> True
   | Some s \<Rightarrow> pst_token s \<in> fds_token ` set (rp_disks p) \<and> pst_offset s \<noteq> 0 \<and> pst_length s \<noteq> 0 \<and>
       unat (pst_offset s) + unat (pst_length s) < 2 ^ 64)"

text \<open>The destructive plan is accepted exactly when it is unambiguous: every selected disk has a
  canonical random token, no token and no displayed disk occurs twice, exactly one disk receives Windows,
  its size is not zero, and a preserved staging extent lies on one of the selected disks and is not
  empty and does not wrap around.\<close>

theorem full_disk_plan_exact:
  "validate_full_disk_plan p = Inr () \<longleftrightarrow>
     list_all (\<lambda>d. length (fds_token d) = 64 \<and> list_all is_lower_hex (fds_token d)) (rp_disks p) \<and>
     distinct (map fds_token (rp_disks p)) \<and> distinct (map fds_disk_number (rp_disks p)) \<and>
     length (filter (\<lambda>d. fds_role d = WindowsDisk) (rp_disks p)) = 1 \<and>
     rp_windows_bytes p \<noteq> 0 \<and> staging_in_plan p"
  by (cases "rp_staging p")
    (auto simp: validate_full_disk_plan_def res_simps scan_disks_Inr staging_in_plan_def checked_add_None not_le
      split: if_splits)

lemma end_not_before:
  "(\<exists>e. checked_add a m = Some e \<and> \<not> t < e) \<longleftrightarrow>
     unat (a :: u64) + unat m < 2 ^ 64 \<and> unat a + unat m \<le> unat t"
  by (auto simp: checked_add_def unat_add_no_overflow word_less_nat_alt)

lemma dual_boot_steps:
  "validate_dual_boot_plan p = Inr () \<longleftrightarrow>
     is_ascii_alphabetic (db_source_letter p) \<and> db_source_offset p \<noteq> 0 \<and> db_source_before p \<noteq> 0 \<and>
     db_source_after p \<noteq> 0 \<and> \<not> db_source_before p \<le> db_source_after p \<and>
     checked_add (db_source_offset p) (db_source_before p) \<noteq> None \<and>
     db_target_offset p \<noteq> 0 \<and> db_target_length p \<noteq> 0 \<and>
     (\<exists>e. checked_add (db_source_offset p) (db_source_after p) = Some e \<and> \<not> db_target_offset p < e) \<and>
     ranges_overlap (db_source_offset p) (db_source_after p) (db_target_offset p) (db_target_length p) = Inr False \<and>
     (case db_data_offset p of
        None \<Rightarrow> db_data_length p = 0
      | Some data \<Rightarrow> db_data_length p \<noteq> 0 \<and>
          ranges_overlap (db_target_offset p) (db_target_length p) data (db_data_length p) = Inr False)"
  by (auto simp: validate_dual_boot_plan_def res_simps split: option.splits if_splits)

text \<open>A dual-boot plan is accepted exactly when the source volume really shrinks within its old
  extent, the target is not empty and lies behind the shrunken source without wrap-around, and the
  data volume, if there is one, is not empty and shares no byte with the target; without one the data
  length is zero.\<close>

theorem dual_boot_plan_exact:
  "validate_dual_boot_plan p = Inr () \<longleftrightarrow>
     is_ascii_alphabetic (db_source_letter p) \<and> db_source_offset p \<noteq> 0 \<and> db_source_after p \<noteq> 0 \<and>
     unat (db_source_after p) < unat (db_source_before p) \<and>
     unat (db_source_offset p) + unat (db_source_before p) < 2 ^ 64 \<and>
     db_target_length p \<noteq> 0 \<and>
     unat (db_source_offset p) + unat (db_source_after p) \<le> unat (db_target_offset p) \<and>
     unat (db_target_offset p) + unat (db_target_length p) < 2 ^ 64 \<and>
     (case db_data_offset p of
        None \<Rightarrow> db_data_length p = 0
      | Some data \<Rightarrow> db_data_length p \<noteq> 0 \<and> unat data + unat (db_data_length p) < 2 ^ 64 \<and>
          byte_range (db_target_offset p) (db_target_length p) \<inter> byte_range data (db_data_length p) = {})"
proof (cases "is_ascii_alphabetic (db_source_letter p) \<and> db_source_offset p \<noteq> 0 \<and> db_source_after p \<noteq> 0 \<and>
    unat (db_source_after p) < unat (db_source_before p) \<and>
    unat (db_source_offset p) + unat (db_source_before p) < 2 ^ 64 \<and>
    unat (db_source_offset p) + unat (db_source_after p) \<le> unat (db_target_offset p)")
  case True
  then have "db_source_before p \<noteq> 0" "\<not> db_source_before p \<le> db_source_after p"
    "checked_add (db_source_offset p) (db_source_before p) \<noteq> None" "db_target_offset p \<noteq> 0"
    by (auto simp: word_le_nat_alt checked_add_def unat_gt_0 [symmetric])
  then show ?thesis
    using True unfolding dual_boot_steps end_not_before ranges_overlap_Inr byte_ranges_apart
    by (auto split: option.splits)
next
  case False
  then show ?thesis
    unfolding dual_boot_steps end_not_before by (auto simp: word_le_nat_alt checked_add_def split: if_splits)
qed

definition overlapping_plan :: dual_boot_plan where
  "overlapping_plan =
     \<lparr>db_source_letter = 67, db_source_offset = 1048576, db_source_before = 107374182400,
      db_source_after = 53687091200, db_target_offset = 53688139776, db_target_length = 42949672960,
      db_data_offset = Some 10737418240, db_data_length = 5368709120\<rparr>"

text \<open>The validation does not look at the data volume and the source together: a plan whose data
  volume lies inside the running system's own volume is accepted, although the error
  \<open>DualBootExtentsOverlap\<close> claims that source, target and data are kept apart.\<close>

theorem data_volume_may_overlap_source:
  "validate_dual_boot_plan overlapping_plan = Inr () \<and>
     byte_range 10737418240 5368709120 \<subseteq>
       byte_range (db_source_offset overlapping_plan) (db_source_after overlapping_plan)"
proof
  show "validate_dual_boot_plan overlapping_plan = Inr ()"
    unfolding dual_boot_steps end_not_before ranges_overlap_Inr byte_ranges_meet overlapping_plan_def
    by (simp add: is_ascii_alphabetic_def checked_add_def)
  show "byte_range 10737418240 5368709120 \<subseteq>
      byte_range (db_source_offset overlapping_plan) (db_source_after overlapping_plan)"
    by (simp add: byte_range_def overlapping_plan_def)
qed

text \<open>A plan survives the trip through JSON. If the serializer's output is read back as what was
  written, whatever \<open>to_json\<close> produces \<open>from_json\<close> accepts and turns into the same plan, so nothing
  that one side may send is refused by the other.\<close>

theorem plan_json_roundtrip:
  assumes "\<And>q v. to_string q = Some v \<Longrightarrow> from_str v = Some q"
    and "plan_to_json to_string p = Inr v"
  shows "plan_from_json from_str v = Inr p"
  using assms by (simp add: plan_to_json_def plan_from_json_def res_simps)

theorem plan_json_roundtrip_witness:
  "plan_from_json (\<lambda>v. if v = ''{}'' then Some (DualBoot overlapping_plan) else None) ''{}'' =
     Inr (DualBoot overlapping_plan)"
proof (rule plan_json_roundtrip)
  show "(if v = ''{}'' then Some (DualBoot overlapping_plan) else None) = Some q"
    if "(if q = DualBoot overlapping_plan then Some ''{}'' else None) = Some v" for q v
    using that by (auto split: if_splits)
  have "validate_dual_boot_plan overlapping_plan = Inr ()"
    unfolding dual_boot_steps end_not_before ranges_overlap_Inr byte_ranges_meet overlapping_plan_def
    by (simp add: is_ascii_alphabetic_def checked_add_def)
  then show "plan_to_json (\<lambda>q. if q = DualBoot overlapping_plan then Some ''{}'' else None)
      (DualBoot overlapping_plan) = Inr ''{}''"
    by (simp add: plan_to_json_def)
qed

definition extent_usable :: "u64 \<Rightarrow> u64 \<Rightarrow> free_extent \<Rightarrow> bool" where
  "extent_usable source_end required e \<longleftrightarrow> required \<noteq> 0 \<and> required \<le> fe_length e \<and>
     source_end \<le> fe_offset e \<and> unat (fe_offset e) + unat (fe_length e) < 2 ^ 64"

text \<open>The free extent chosen for the target is the first usable one: it is one of the reported
  extents, at or after the end of the source, large enough and without wrap-around, and no other such
  extent begins earlier; and there is a choice exactly when such an extent exists and something is
  required.\<close>

theorem free_extent_choice:
  "(case select_dual_boot_free_extent source_end required extents of
      None \<Rightarrow> \<not> list_ex (extent_usable source_end required) extents
    | Some e \<Rightarrow> e \<in> set extents \<and> extent_usable source_end required e \<and>
        list_all (\<lambda>f. \<not> (extent_usable source_end required f \<and> fe_offset f < fe_offset e)) extents)"
proof -
  let ?usable = "filter (extent_usable source_end required) extents"
  have sel: "select_dual_boot_free_extent source_end required extents = min_by_key fe_offset ?usable"
  proof (cases "required = 0")
    case True
    then show ?thesis by (simp add: select_dual_boot_free_extent_def extent_usable_def)
  next
    case False
    have "(required \<le> fe_length e \<and> source_end \<le> fe_offset e \<and> checked_add (fe_offset e) (fe_length e) \<noteq> None)
        = extent_usable source_end required e" for e
      using False by (simp add: extent_usable_def checked_add_def)
    then show ?thesis using False by (simp add: select_dual_boot_free_extent_def)
  qed
  show ?thesis
  proof (cases "min_by_key fe_offset ?usable")
    case None
    then have "?usable = []" by simp
    then show ?thesis by (simp add: sel None filter_empty_conv list_ex_iff)
  next
    case (Some e)
    note choice = min_by_key_Some [OF Some]
    have "list_all (\<lambda>f. \<not> (extent_usable source_end required f \<and> fe_offset f < fe_offset e)) extents"
      using choice(2) unfolding list_all_iff by (simp add: not_less)
    then show ?thesis using choice(1) by (simp add: sel Some)
  qed
qed

lemma existing_staging_extent_iff:
  "validate_existing_staging_extent s disk_size off len = Inr () \<longleftrightarrow>
     pst_offset s \<noteq> 0 \<and> pst_length s \<noteq> 0 \<and> len \<noteq> 0 \<and>
     unat (pst_offset s) + unat (pst_length s) \<le> unat disk_size \<and> unat off + unat len < 2 ^ 64 \<and>
     byte_range (pst_offset s) (pst_length s) \<inter> byte_range off len = {}"
proof -
  have "validate_existing_staging_extent s disk_size off len = Inr () \<longleftrightarrow>
      (\<exists>e. checked_add (pst_offset s) (pst_length s) = Some e \<and> \<not> disk_size < e) \<and>
      pst_offset s \<noteq> 0 \<and> pst_length s \<noteq> 0 \<and>
      ranges_overlap (pst_offset s) (pst_length s) off len = Inr False"
    by (auto simp: validate_existing_staging_extent_def res_simps split: if_splits)
  then show ?thesis
    using unat_bound [of disk_size] unfolding end_not_before ranges_overlap_Inr by auto
qed

lemma enumerate_pairs: "(i, x) \<in> set (List.enumerate 0 xs) \<longleftrightarrow> i < length xs \<and> x = xs ! i"
  by (auto simp: in_set_enumerate_eq)

lemma session_pairs_iff:
  "(i, j) \<in> set (exact_session_pair_indices markers configs) \<longleftrightarrow>
     i < length markers \<and> j < length configs \<and> markers ! i = configs ! j \<and> markers ! i \<noteq> []"
proof -
  let ?row = "\<lambda>k marker. concat (map (\<lambda>(l, config). if config \<noteq> [] \<and> marker = config then [(k, l)] else [])
    (List.enumerate 0 configs))"
  have row: "(i, j) \<in> set (?row k m) \<longleftrightarrow> i = k \<and> j < length configs \<and> m = configs ! j \<and> m \<noteq> []" for k and m :: string
  proof -
    have "(i, j) \<in> set (?row k m) \<longleftrightarrow> (\<exists>c. (j, c) \<in> set (List.enumerate 0 configs) \<and> c \<noteq> [] \<and> m = c \<and> i = k)"
      by (auto split: if_splits)
    then show ?thesis by (auto simp: enumerate_pairs)
  qed
  have "(i, j) \<in> set (exact_session_pair_indices markers configs) \<longleftrightarrow>
      (\<exists>k m. (k, m) \<in> set (List.enumerate 0 markers) \<and> m \<noteq> [] \<and> (i, j) \<in> set (?row k m))"
    unfolding exact_session_pair_indices_def by (auto split: if_splits)
  also have "\<dots> \<longleftrightarrow> i < length markers \<and> j < length configs \<and> markers ! i = configs ! j \<and> markers ! i \<noteq> []"
    unfolding row enumerate_pairs by auto
  finally show ?thesis .
qed

end
