(* ===== verification/Accounts.thy ===== *)
theory Accounts
  imports Text
begin

section \<open>Account names and the Administrator secret\<close>

text \<open>
  \<open>lr-core/src/unattend_account.rs\<close>: which names an unattended installation may give to a local
  account and to the built-in Administrator, which passwords it may set, and the short text that
  carries the password to the boot environment. \<open>Zeroizing\<close> only clears memory and is not modelled.
\<close>

definition MAX_LOCAL_ACCOUNT_NAME_UTF16 :: nat where "MAX_LOCAL_ACCOUNT_NAME_UTF16 = 20"
definition MAX_PASSWORD_UTF16 :: nat where "MAX_PASSWORD_UTF16 = 127"
definition SECRET_MAX_BYTES :: nat where "SECRET_MAX_BYTES = 1024"
definition SECRET_MAGIC :: string where "SECRET_MAGIC = ''LRAS1''"

datatype account_name_error = MissingAccountName | AccountNameTooLong | InvalidAccountName | ReservedAccountName

datatype administrator_error =
    AdminNameMissing
  | AdminNameTooLong
  | AdminNameInvalid
  | AdminNameReserved
  | MissingPassword
  | PasswordTooLong
  | InvalidPassword
  | InvalidSpecializeCommand
  | InvalidTemporaryAccount

record administrator_options =
  ba_enabled :: bool
  ba_account_name :: string
  ba_password :: string
  ba_auto_logon :: bool

text \<open>
  \<open>is_xml_1_0_character\<close> fails for some character: a control character other than tab, line feed and
  carriage return, or U+FFFE and U+FFFF (the encoded surrogates are no UTF-8).
\<close>

fun has_non_xml :: "string \<Rightarrow> bool" where
  "has_non_xml [] = False"
| "has_non_xml (c # r) =
     ((byte c < 32 \<and> byte c \<notin> {9, 10, 13}) \<or>
      (case r of d # e # _ \<Rightarrow> byte c = 0xEF \<and> byte d = 0xBF \<and> 0xBE \<le> byte e | _ \<Rightarrow> False) \<or> has_non_xml r)"

definition FORBIDDEN_NAME_CHARS :: string where
  "FORBIDDEN_NAME_CHARS = [CHR 0x5C, CHR 0x2F, CHR 0x22] @ ''[]:|<>+=;,?*%@''"

definition RESERVED_NAMES :: "string list" where
  "RESERVED_NAMES = [''NONE'', ''Administrator'', ''Guest'', ''DefaultAccount'', ''defaultuser0'',
     ''WDAGUtilityAccount'', ''WSIAccount'', ''DSMA'', ''HelpAssistant'', ''HomeGroupUser$'', ''krbtgt'',
     ''SYSTEM'', ''LocalSystem'', ''Local System'', ''LocalService'', ''Local Service'', ''NetworkService'',
     ''Network Service'', ''TrustedInstaller'']"

definition WINDOWS_OWNED_HIGH_RID :: "string list" where
  "WINDOWS_OWNED_HIGH_RID = [''DefaultAccount'', ''defaultuser0'', ''WDAGUtilityAccount'', ''WSIAccount'',
     ''DSMA'', ''HelpAssistant'', ''HomeGroupUser$'']"

definition is_numbered_windows_virtual_account :: "string \<Rightarrow> bool" where
  "is_numbered_windows_virtual_account name \<longleftrightarrow>
     list_ex (\<lambda>prefix. case strip_prefix prefix (map to_lower name) of
         None \<Rightarrow> False
       | Some suffix \<Rightarrow> suffix \<noteq> [] \<and> list_all is_digit suffix) [''dwm-'', ''umfd-'']"

definition is_reserved_unattended_account_name :: "string \<Rightarrow> bool" where
  "is_reserved_unattended_account_name name \<longleftrightarrow>
     list_ex (eq_ignore_ascii_case name) RESERVED_NAMES \<or> is_numbered_windows_virtual_account name"

definition is_windows_owned_local_account_name :: "string \<Rightarrow> bool" where
  "is_windows_owned_local_account_name name \<longleftrightarrow>
     list_ex (eq_ignore_ascii_case name) WINDOWS_OWNED_HIGH_RID \<or> is_numbered_windows_virtual_account name"

definition validate_unattended_local_account_name :: "string \<Rightarrow> account_name_error + unit" where
  "validate_unattended_local_account_name account_name =
     (let name = trim account_name in
      if name = [] then Inl MissingAccountName
      else if MAX_LOCAL_ACCOUNT_NAME_UTF16 < utf16_len name then Inl AccountNameTooLong
      else if name \<noteq> account_name \<or> ends_with_any ''.'' name \<or> has_control name \<or> has_non_xml name \<or>
        contains_any FORBIDDEN_NAME_CHARS name then Inl InvalidAccountName
      else if is_reserved_unattended_account_name name then Inl ReservedAccountName
      else Inr ())"

definition validate_builtin_administrator_password :: "string \<Rightarrow> administrator_error + unit" where
  "validate_builtin_administrator_password password =
     (if password = [] then Inl MissingPassword
      else if MAX_PASSWORD_UTF16 < utf16_len password then Inl PasswordTooLong
      else if contains_any [CR, LF, NUL] password \<or> has_non_xml password then Inl InvalidPassword
      else Inr ())"

definition validate_administrator :: "administrator_options \<Rightarrow> administrator_error + unit" where
  "validate_administrator b =
     (if \<not> ba_enabled b then Inr ()
      else
        (let name = trim (ba_account_name b) in
         if name = [] then Inl AdminNameMissing
         else if MAX_LOCAL_ACCOUNT_NAME_UTF16 < utf16_len name then Inl AdminNameTooLong
         else if name \<noteq> ba_account_name b \<or> name = ''.'' \<or> name = ''..'' \<or> has_control name \<or>
           has_non_xml name \<or> contains_any FORBIDDEN_NAME_CHARS name then Inl AdminNameInvalid
         else if list_ex (eq_ignore_ascii_case name)
           [''Guest'', ''DefaultAccount'', ''WDAGUtilityAccount'', ''defaultuser0''] then Inl AdminNameReserved
         else validate_builtin_administrator_password (ba_password b)))"

subsection \<open>The secret\<close>

definition administrator_error_text :: "administrator_error \<Rightarrow> string" where
  "administrator_error_text e = (case e of
     AdminNameMissing \<Rightarrow> ''built-in Administrator account name is required''
   | AdminNameTooLong \<Rightarrow> ''built-in Administrator account name exceeds 20 UTF-16 code units''
   | AdminNameInvalid \<Rightarrow> ''built-in Administrator account name contains invalid text''
   | AdminNameReserved \<Rightarrow> ''built-in Administrator account name is reserved''
   | MissingPassword \<Rightarrow> ''built-in Administrator password is required''
   | PasswordTooLong \<Rightarrow> ''built-in Administrator password exceeds 127 UTF-16 code units''
   | InvalidPassword \<Rightarrow> ''built-in Administrator password contains invalid text''
   | InvalidSpecializeCommand \<Rightarrow> ''built-in Administrator rename command violates the Windows unattend contract''
   | InvalidTemporaryAccount \<Rightarrow> ''temporary OOBE account identity is invalid or conflicts with Administrator'')"

definition serialize_protected_secret :: "string \<Rightarrow> administrator_error + bytes" where
  "serialize_protected_secret password =
     and_then (validate_builtin_administrator_password password) (\<lambda>_.
     Inr (SECRET_MAGIC @ CRLF @ ''Utf8Length='' @ show_nat (length password) @ CRLF @ CRLF @ password))"

text \<open>\<open>windows(n).position\<close>: where a separator occurs first.\<close>

fun find_sub :: "string \<Rightarrow> string \<Rightarrow> nat option" where
  "find_sub sep [] = (if sep = [] then Some 0 else None)"
| "find_sub sep (c # cs) = (if starts_with sep (c # cs) then Some 0 else map_option Suc (find_sub sep cs))"

definition parse_protected_secret :: "bytes \<Rightarrow> string + string" where
  "parse_protected_secret content =
     and_then (ensure (\<not> (content = [] \<or> SECRET_MAX_BYTES < length content))
       ''protected Administrator secret length is outside its limit'') (\<lambda>_.
     and_then (ok_or (find_sub (CRLF @ CRLF) content)
       ''protected Administrator secret header is incomplete'') (\<lambda>split.
     let header = take split content in
     and_then (ensure (utf8_valid header) ''protected Administrator secret header is not UTF-8'') (\<lambda>_.
     let ls = split_crlf header in
     and_then (ensure (hd ls = SECRET_MAGIC) ''unsupported protected Administrator secret'') (\<lambda>_.
     and_then (ok_or (case tl ls of [] \<Rightarrow> None | l # _ \<Rightarrow> strip_prefix ''Utf8Length='' l)
       ''protected Administrator secret has no byte length'') (\<lambda>len_text.
     and_then (ok_or (parse_uint (2 ^ 64) len_text)
       ''protected Administrator secret byte length is invalid'') (\<lambda>declared.
     and_then (ensure (tl (tl ls) = []) ''protected Administrator secret header has trailing fields'') (\<lambda>_.
     let password = drop (split + 4) content in
     and_then (ensure (length password = declared)
       ''protected Administrator secret byte length does not match'') (\<lambda>_.
     and_then (ensure (utf8_valid password) ''protected Administrator password is not UTF-8'') (\<lambda>_.
     and_then (map_err administrator_error_text (validate_builtin_administrator_password password)) (\<lambda>_.
     and_then (map_err administrator_error_text (serialize_protected_secret password)) (\<lambda>canonical.
     and_then (ensure (canonical = content) ''protected Administrator secret is not canonical'') (\<lambda>_.
     Inr password))))))))))))"

subsection \<open>The size of the secret\<close>

lemma utf16_len_Cons:
  "utf16_len (c # s) = (if is_continuation c then 0 else 1) + (if 240 \<le> byte c then 1 else 0) + utf16_len s"
  by (simp add: utf16_len_def)

lemma utf16_len_append: "utf16_len (a @ b) = utf16_len a + utf16_len b"
  by (simp add: utf16_len_def)

lemma utf8_char_units:
  assumes "utf8_char s"
  shows "utf8_width (byte (s ! 0)) \<le> 3 * utf16_len (take (utf8_width (byte (s ! 0))) s)"
proof -
  let ?w = "utf8_width (byte (s ! 0))"
  from assms have w: "0 < ?w" and ne: "s \<noteq> []" by (auto simp: utf8_char_def Let_def)
  then obtain c r where s: "take ?w s = c # r" "c = s ! 0" by (cases s) (auto simp: take_Cons')
  have "?w \<le> 4" and "?w = 4 \<longrightarrow> 240 \<le> byte c" and "\<not> is_continuation c"
    using w s(2) by (auto simp: utf8_width_def is_continuation_def split: if_splits)
  then show ?thesis unfolding s(1) by (auto simp: utf16_len_Cons)
qed

lemma utf8_length_bound: "utf8_valid s \<Longrightarrow> length s \<le> 3 * utf16_len s"
proof (induction s rule: utf8_valid.induct)
  case (1 s)
  show ?case
  proof (cases "s = []")
    case False
    let ?w = "utf8_width (byte (s ! 0))"
    have char: "utf8_char s" and rest: "utf8_valid (drop ?w s)"
      using 1(2) False by (subst (asm) utf8_valid.simps, simp split: if_splits)+
    have "length s = length (take ?w s) + length (drop ?w s)" by simp
    also have "\<dots> \<le> ?w + 3 * utf16_len (drop ?w s)"
      using 1(1) [OF False char rest] by simp
    also have "\<dots> \<le> 3 * utf16_len (take ?w s) + 3 * utf16_len (drop ?w s)"
      using utf8_char_units [OF char] by simp
    also have "\<dots> = 3 * utf16_len s"
      using utf16_len_append [of "take ?w s" "drop ?w s"] by simp
    finally show ?thesis .
  qed simp
qed

subsection \<open>Reading the secret back\<close>

lemma starts_with_Cons: "starts_with (p # ps) (c # cs) \<longleftrightarrow> p = c \<and> starts_with ps cs"
  by (simp add: starts_with_def)

lemma starts_with_Nil [simp]: "starts_with [] s"
  by (simp add: starts_with_def)

lemma find_sub_skip: "\<not> starts_with sep (c # s) \<Longrightarrow> find_sub sep (c # s) = map_option Suc (find_sub sep s)"
  by simp

lemma find_sub_no_cr:
  "CR \<notin> set a \<Longrightarrow> find_sub (CR # sep) (a @ CR # s) = map_option ((+) (length a)) (find_sub (CR # sep) (CR # s))"
proof (induction a)
  case Nil
  show ?case by (simp add: option.map_ident)
next
  case (Cons c a)
  then have "\<not> starts_with (CR # sep) (c # a @ CR # s)" by (simp add: starts_with_Cons)
  with Cons show ?case by (simp add: option.map_comp comp_def)
qed

lemma digits_no_cr: "list_all is_digit s \<Longrightarrow> CR \<notin> set s"
  by (auto simp: list_all_iff is_digit_def)

lemma split_crlf_plain: "CR \<notin> set s \<Longrightarrow> split_crlf s = [s]"
proof (induction s)
  case (Cons c s)
  then show ?case by (cases s) auto
qed simp

definition secret_header :: "nat \<Rightarrow> string" where
  "secret_header n = SECRET_MAGIC @ CRLF @ ''Utf8Length='' @ show_nat n"

lemma secret_header_end:
  "find_sub (CRLF @ CRLF) (secret_header n @ CRLF @ CRLF @ s) = Some (length (secret_header n))"
proof -
  have magic: "CR \<notin> set SECRET_MAGIC" by (simp add: SECRET_MAGIC_def)
  have len: "CR \<notin> set (''Utf8Length='' @ show_nat n)"
    using digits_no_cr [OF show_nat_digits [of n]] by simp
  have whole: "secret_header n @ CRLF @ CRLF @ s =
      SECRET_MAGIC @ CR # (LF # (''Utf8Length='' @ show_nat n) @ CRLF @ CRLF @ s)"
    and sep: "CRLF @ CRLF = CR # [LF, CR, LF]"
    and five: "length SECRET_MAGIC = 5"
    by (simp_all add: secret_header_def SECRET_MAGIC_def)
  have "find_sub (CRLF @ CRLF) (secret_header n @ CRLF @ CRLF @ s) =
      find_sub (CR # [LF, CR, LF]) (SECRET_MAGIC @ CR # (LF # (''Utf8Length='' @ show_nat n) @ CRLF @ CRLF @ s))"
    unfolding whole sep ..
  also have "\<dots> = map_option ((+) 5) (find_sub (CR # [LF, CR, LF])
      (CR # (LF # (''Utf8Length='' @ show_nat n) @ CRLF @ CRLF @ s)))"
    by (simp only: find_sub_no_cr [OF magic] five)
  also have "find_sub (CR # [LF, CR, LF]) (CR # (LF # (''Utf8Length='' @ show_nat n) @ CRLF @ CRLF @ s)) =
      map_option Suc (map_option Suc
        (find_sub (CR # [LF, CR, LF]) ((''Utf8Length='' @ show_nat n) @ CRLF @ CRLF @ s)))"
    by (subst find_sub_skip, simp add: starts_with_Cons)+ (rule refl)
  also have "(''Utf8Length='' @ show_nat n) @ CRLF @ CRLF @ s = (''Utf8Length='' @ show_nat n) @ CR # (LF # CRLF @ s)"
    by simp
  also have "find_sub (CR # [LF, CR, LF]) ((''Utf8Length='' @ show_nat n) @ CR # (LF # CRLF @ s)) =
      Some (length (''Utf8Length='' @ show_nat n))"
    by (subst find_sub_no_cr [OF len]) (simp add: starts_with_Cons)
  finally show ?thesis by (simp add: secret_header_def SECRET_MAGIC_def)
qed

text \<open>The text that carries the Administrator password is read back as the password it was
  written for, and nothing else is accepted: exactly the written texts of valid UTF-8 passwords pass
  the parser, whose limit of 1024 bytes they never reach.
\<close>

theorem protected_secret_roundtrip:
  "parse_protected_secret content = Inr password \<longleftrightarrow>
     utf8_valid password \<and> serialize_protected_secret password = Inr content"
proof
  assume "parse_protected_secret content = Inr password"
  then show "utf8_valid password \<and> serialize_protected_secret password = Inr content"
    unfolding parse_protected_secret_def Let_def by (auto simp: res_simps)
next
  assume a: "utf8_valid password \<and> serialize_protected_secret password = Inr content"
  then have valid: "validate_builtin_administrator_password password = Inr ()"
    and content: "content = secret_header (length password) @ CRLF @ CRLF @ password"
    by (auto simp: serialize_protected_secret_def secret_header_def res_simps)
  have "utf16_len password \<le> 127"
    using valid by (auto simp: validate_builtin_administrator_password_def MAX_PASSWORD_UTF16_def split: if_splits)
  then have small: "length password \<le> 381" using utf8_length_bound [of password] a by simp
  then have "length (show_nat (length password)) \<le> 3" by (intro length_show_nat) auto
  then have size: "length content \<le> 1024"
    using small by (simp add: content secret_header_def SECRET_MAGIC_def)
  let ?h = "secret_header (length password)"
  have found: "find_sub (CRLF @ CRLF) content = Some (length ?h)"
    unfolding content by (rule secret_header_end)
  have prints: "list_all printable SECRET_MAGIC" "list_all printable (''Utf8Length='' @ show_nat (length password))"
    by (simp_all add: SECRET_MAGIC_def printable_def)
  then have plain: "plain_line SECRET_MAGIC" "plain_line (''Utf8Length='' @ show_nat (length password))"
    by (auto intro: printable_line)
  have ascii: "list_all ascii ?h"
    using prints by (auto simp: secret_header_def list_all_iff ascii_def printable_def)
  have "split_crlf (SECRET_MAGIC @ CR # LF # ''Utf8Length='' @ show_nat (length password)) =
      SECRET_MAGIC # split_crlf (''Utf8Length='' @ show_nat (length password))"
    using plain(1) by (intro split_crlf_line) (simp add: plain_line_def)
  also have "split_crlf (''Utf8Length='' @ show_nat (length password)) = [''Utf8Length='' @ show_nat (length password)]"
    using plain(2) by (intro split_crlf_plain) (simp add: plain_line_def)
  finally have lines: "split_crlf ?h = [SECRET_MAGIC, ''Utf8Length='' @ show_nat (length password)]"
    by (simp add: secret_header_def)
  have take: "take (length ?h) content = ?h" "drop (length ?h + 4) content = password"
    "content \<noteq> []" "length content - (length ?h + 4) = length password"
    by (simp_all add: content)
  show "parse_protected_secret content = Inr password"
    unfolding parse_protected_secret_def Let_def found
    using a valid size small utf8_valid_ascii [OF ascii] found
    by (simp add: take lines SECRET_MAX_BYTES_def content [symmetric] del: append.simps)
qed

end
