(* ===== verification/InstallControl.thy ===== *)
theory InstallControl
  imports CustomPlan VolumeResize Accounts
begin

section \<open>Deciding whether an installation may start\<close>

text \<open>
  \<open>core/native_install_controller.rs\<close> of the normal system with the option data of
  \<open>core/ui_state.rs\<close>: the page's state is validated and turned into an intent, without touching the
  machine. The directory of the running program is the parameter \<open>exe_dir\<close>; logging is left out.
\<close>

subsection \<open>Options\<close>

datatype boot_mode = BootAuto | BootUefi | BootLegacy
datatype driver_action = DriverNone | DriverSaveOnly | DriverAutoImport
datatype pca_mode = PcaAuto | Pca2011 | Pca2023
datatype install_route = Direct | ViaPe
datatype target_table = TargetGpt | TargetMbr | TargetUnknown
datatype bus_type = BusNvme | BusOther

record software_package =
  sp_id :: string
  sp_name :: string
  sp_url :: string
  sp_filename :: string
  sp_silent_command :: string
  sp_requires_admin :: bool

record advanced_options =
  preserve_personal_files :: bool
  remove_shortcut_arrow :: bool
  restore_classic_context_menu :: bool
  bypass_nro :: bool
  disable_windows_update :: bool
  disable_windows_defender :: bool
  disable_reserved_storage :: bool
  disable_uac :: bool
  disable_device_encryption :: bool
  remove_uwp_apps :: bool
  preinstalled_software :: "software_package list"
  install_vmware_tools :: bool
  migrate_wifi :: bool
  wifi_profile_xml :: string
  wifi_ssid :: string
  wifi_detected :: "bool option"
  run_script_during_deploy :: bool
  deploy_script_path :: string
  run_script_first_login :: bool
  first_login_script_path :: string
  import_custom_drivers :: bool
  custom_drivers_path :: string
  import_storage_controller_drivers :: bool
  import_registry_file :: bool
  registry_file_path :: string
  import_custom_files :: bool
  custom_files_path :: string
  custom_username :: bool
  username :: string
  builtin_administrator :: administrator_options
  custom_volume_label :: bool
  volume_label :: string
  win7_inject_usb3_driver :: bool
  win7_usb3_driver_path :: string
  win7_inject_nvme_driver :: bool
  win7_nvme_driver_path :: string
  win7_fix_acpi_bsod :: bool
  win7_fix_storage_bsod :: bool
  win7_uefi_patch :: bool
  xp_inject_usb3_driver :: bool
  xp_inject_nvme_driver :: bool
  xp_defaults_applied :: bool

subsection \<open>What a target version supports\<close>

record capabilities =
  cap_system :: "bool list"
  cap_storage_drivers :: bool
  cap_windows_7 :: bool
  cap_xp :: bool

definition capabilities_unknown :: capabilities where
  "capabilities_unknown =
     \<lparr>cap_system = replicate 10 False, cap_storage_drivers = False, cap_windows_7 = False, cap_xp = False\<rparr>"

text \<open>\<open>profile_for_build(build).is_ok()\<close> of \<open>offline_windows_update_removal.rs\<close>.\<close>

definition supports_build_number :: "u32 \<Rightarrow> bool" where
  "supports_build_number b \<longleftrightarrow>
     (7600 \<le> b \<and> b \<le> 9600) \<or> (10240 \<le> b \<and> b \<le> 19045) \<or> (22000 \<le> b \<and> b \<le> 28999)"

definition is_supported_target_version :: "u32 \<Rightarrow> u32 \<Rightarrow> u32 \<Rightarrow> bool" where
  "is_supported_target_version major minor build \<longleftrightarrow> major = 10 \<and> minor = 0 \<and> 19041 \<le> build"

definition some_and :: "'a option \<Rightarrow> ('a \<Rightarrow> bool) \<Rightarrow> bool" where
  "some_and x P = (case x of None \<Rightarrow> False | Some v \<Rightarrow> P v)"

definition version_at_least :: "u16 option \<Rightarrow> u16 option \<Rightarrow> u16 \<Rightarrow> bool" where
  "version_at_least major minor n \<longleftrightarrow>
     some_and major (\<lambda>m. 6 < m) \<or> (major = Some 6 \<and> some_and minor (\<lambda>v. n \<le> v))"

definition capabilities_for_target ::
  "u16 option \<Rightarrow> u16 option \<Rightarrow> u32 option \<Rightarrow> bool \<Rightarrow> capabilities" where
  "capabilities_for_target major minor build is_xp_i386 =
     (if is_xp_i386 \<or> major = Some 5 then capabilities_unknown\<lparr>cap_xp := True\<rparr>
      else
        (let windows_7 = (major = Some 6 \<and> minor = Some 1);
             vista_or_later = some_and major (\<lambda>m. 6 \<le> m);
             windows_7_or_later = version_at_least major minor 1;
             windows_8_or_later = version_at_least major minor 2;
             windows_81_or_later = version_at_least major minor 3;
             windows_10_family = some_and major (\<lambda>m. 10 \<le> m);
             windows_11 = (windows_10_family \<and> some_and build (\<lambda>b. 22000 \<le> b));
             update_removal = some_and build supports_build_number;
             reserved_storage = (case (major, minor, build) of
                 (Some ma, Some mi, Some b) \<Rightarrow> is_supported_target_version (ucast ma) (ucast mi) b
               | _ \<Rightarrow> False) in
         \<lparr>cap_system = [vista_or_later, windows_11, windows_11, update_removal,
            windows_10_family \<or> windows_8_or_later, reserved_storage, vista_or_later,
            windows_10_family \<or> windows_81_or_later, windows_10_family \<or> windows_8_or_later, windows_7_or_later],
          cap_storage_drivers = windows_10_family, cap_windows_7 = windows_7, cap_xp = False\<rparr>))"

definition supports_system_option :: "capabilities \<Rightarrow> nat \<Rightarrow> bool" where
  "supports_system_option c i = (if i < length (cap_system c) then cap_system c ! i else False)"

text \<open>\<open>if !supported { ... }\<close>: an update made only where an option is not supported.\<close>

definition unless :: "bool \<Rightarrow> ('a \<Rightarrow> 'a) \<Rightarrow> 'a \<Rightarrow> 'a" where
  "unless b f a = (if b then a else f a)"

definition retain_supported_for_target :: "capabilities \<Rightarrow> advanced_options \<Rightarrow> advanced_options" where
  "retain_supported_for_target c a =
     (let s = (\<lambda>i. cap_system c ! i);
          a = a\<lparr>win7_fix_storage_bsod := False, win7_uefi_patch := False\<rparr>;
          a = unless (s 0) (\<lambda>a. a\<lparr>remove_shortcut_arrow := False\<rparr>) a;
          a = unless (s 1) (\<lambda>a. a\<lparr>restore_classic_context_menu := False\<rparr>) a;
          a = unless (s 2) (\<lambda>a. a\<lparr>bypass_nro := False\<rparr>) a;
          a = unless (s 3) (\<lambda>a. a\<lparr>disable_windows_update := False\<rparr>) a;
          a = unless (s 4) (\<lambda>a. a\<lparr>disable_windows_defender := False\<rparr>) a;
          a = unless (s 5) (\<lambda>a. a\<lparr>disable_reserved_storage := False\<rparr>) a;
          a = unless (s 6) (\<lambda>a. a\<lparr>disable_uac := False\<rparr>) a;
          a = unless (s 7) (\<lambda>a. a\<lparr>disable_device_encryption := False\<rparr>) a;
          a = unless (s 8) (\<lambda>a. a\<lparr>remove_uwp_apps := False\<rparr>) a;
          a = unless (s 9) (\<lambda>a. a\<lparr>migrate_wifi := False, wifi_profile_xml := [], wifi_ssid := []\<rparr>) a;
          a = unless (cap_storage_drivers c) (\<lambda>a. a\<lparr>import_storage_controller_drivers := False\<rparr>) a;
          a = unless (cap_windows_7 c) (\<lambda>a. a\<lparr>win7_inject_usb3_driver := False, win7_inject_nvme_driver := False,
                 win7_fix_acpi_bsod := False, win7_fix_storage_bsod := False, win7_uefi_patch := False\<rparr>) a;
          a = unless (cap_xp c) (\<lambda>a. a\<lparr>xp_inject_usb3_driver := False, xp_inject_nvme_driver := False\<rparr>) a
      in a)"

definition update_supported_system_options :: "capabilities \<Rightarrow> bool list \<Rightarrow> advanced_options \<Rightarrow> advanced_options" where
  "update_supported_system_options c checked a =
     (let s = supports_system_option c;
          a = (if s 0 then a\<lparr>remove_shortcut_arrow := checked ! 0\<rparr> else a);
          a = (if s 1 then a\<lparr>restore_classic_context_menu := checked ! 1\<rparr> else a);
          a = (if s 2 then a\<lparr>bypass_nro := checked ! 2\<rparr> else a);
          a = (if s 3 then a\<lparr>disable_windows_update := checked ! 3\<rparr> else a);
          a = (if s 4 then a\<lparr>disable_windows_defender := checked ! 4\<rparr> else a);
          a = (if s 5 then a\<lparr>disable_reserved_storage := checked ! 5\<rparr> else a);
          a = (if s 6 then a\<lparr>disable_uac := checked ! 6\<rparr> else a);
          a = (if s 7 then a\<lparr>disable_device_encryption := checked ! 7\<rparr> else a);
          a = (if s 8 then a\<lparr>remove_uwp_apps := checked ! 8\<rparr> else a);
          a = (if s 9 then a\<lparr>migrate_wifi := checked ! 9\<rparr> else a)
      in a)"

text \<open>The ten options in the order of the page's check boxes.\<close>

definition system_options :: "advanced_options \<Rightarrow> bool list" where
  "system_options a = [remove_shortcut_arrow a, restore_classic_context_menu a, bypass_nro a,
     disable_windows_update a, disable_windows_defender a, disable_reserved_storage a, disable_uac a,
     disable_device_encryption a, remove_uwp_apps a, migrate_wifi a]"

subsection \<open>Paths\<close>

abbreviation BSLASH :: char where "BSLASH \<equiv> CHR 0x5C"

definition is_path_separator :: "char \<Rightarrow> bool" where
  "is_path_separator c \<longleftrightarrow> c = BSLASH \<or> c = CHR ''/''"

fun split_by :: "(char \<Rightarrow> bool) \<Rightarrow> string \<Rightarrow> string list" where
  "split_by P [] = [[]]"
| "split_by P (c # cs) =
     (if P c then [] # split_by P cs
      else (case split_by P cs of [] \<Rightarrow> [[c]] | w # ws \<Rightarrow> (c # w) # ws))"

text \<open>\<open>windows_storage::path_drive_letter\<close>: the upper-case drive letter a path begins with.\<close>

definition path_drive_letter :: "string \<Rightarrow> char option" where
  "path_drive_letter path =
     (let rest = (case strip_prefix [BSLASH, BSLASH, CHR ''?'', BSLASH] path of
            Some r \<Rightarrow> r
          | None \<Rightarrow> (case strip_prefix [BSLASH, BSLASH, CHR ''.'', BSLASH] path of Some r \<Rightarrow> r | None \<Rightarrow> path)) in
      case rest of
        c # d # _ \<Rightarrow> if is_alpha c \<and> d = CHR '':'' then Some (to_upper c) else None
      | _ \<Rightarrow> None)"

text \<open>
  \<open>Path::extension\<close> on Windows: the components behind the prefix (a verbatim, UNC or device prefix, or
  a drive letter), the last of them if it is a name, and what follows its last dot unless nothing
  precedes that dot.
\<close>

definition path_components :: "string \<Rightarrow> string list" where
  "path_components path =
     (case strip_prefix [BSLASH, BSLASH, CHR ''?'', BSLASH] path of
        Some r \<Rightarrow> (case strip_prefix (''UNC'' @ [BSLASH]) r of
            Some u \<Rightarrow> filter (\<lambda>w. w \<noteq> []) (drop 2 (split_on BSLASH u))
          | None \<Rightarrow> filter (\<lambda>w. w \<noteq> []) (drop 1 (split_on BSLASH r)))
      | None \<Rightarrow> filter (\<lambda>w. w \<noteq> [] \<and> w \<noteq> ''.'')
          (case path of
             c # d # r \<Rightarrow>
               if is_path_separator c \<and> is_path_separator d then drop 2 (split_by is_path_separator r)
               else if is_alpha c \<and> d = CHR '':'' then split_by is_path_separator r
               else split_by is_path_separator path
           | _ \<Rightarrow> split_by is_path_separator path))"

definition path_extension :: "string \<Rightarrow> string option" where
  "path_extension path =
     (let ws = path_components path in
      if ws = [] \<or> last ws \<in> {''.'', ''..''} then None
      else (case split_once CHR ''.'' (rev (last ws)) of
          None \<Rightarrow> None
        | Some (after, before) \<Rightarrow> if before = [] then None else Some (rev after)))"

definition has_extension :: "string \<Rightarrow> string list \<Rightarrow> bool" where
  "has_extension path extensions \<longleftrightarrow> some_and (path_extension path)
     (\<lambda>e. list_ex (\<lambda>expected. eq_ignore_ascii_case e expected) extensions)"

subsection \<open>The page and the intent\<close>

record install_target =
  tg_partition :: string
  tg_disk_number :: "u32 option"
  tg_partition_number :: "u32 option"
  tg_disk_size :: "u64 option"
  tg_partition_offset :: "u64 option"
  tg_partition_size :: "u64 option"
  tg_stable_identity :: "stable_volume option"
  tg_bus_type :: "bus_type option"
  tg_style :: target_table
  tg_is_current_system :: bool
  tg_has_windows :: bool

record image_metadata =
  im_volume_index :: u32
  im_major :: "u16 option"
  im_minor :: "u16 option"
  im_build :: "u32 option"
  im_architecture :: "u16 option"

definition is_windows_7 :: "image_metadata \<Rightarrow> bool" where
  "is_windows_7 m \<longleftrightarrow> im_major m = Some 6 \<and> im_minor m = Some 1"

definition windows7_driver_defaults :: "image_metadata option \<Rightarrow> bus_type option \<Rightarrow> bool \<times> bool" where
  "windows7_driver_defaults selected target_bus =
     (let w7 = some_and selected is_windows_7 in
      (w7, w7 \<and> Option.bind selected im_architecture = Some 9 \<and> target_bus = Some BusNvme))"

record install_prefs =
  pr_plan :: install_plan
  pr_format_partition :: bool
  pr_repair_boot :: bool
  pr_unattended :: bool
  pr_export_drivers :: bool
  pr_auto_reboot :: bool
  pr_run_diskpart_scripts :: bool
  pr_boot_mode :: boot_mode
  pr_pca_mode :: pca_mode
  pr_driver_action :: driver_action
  pr_advanced :: advanced_options

record install_state =
  is_image_path :: string
  is_image_backing_path :: string
  is_image_ready :: bool
  is_selected_image :: "image_metadata option"
  is_xp_i386_source :: "string option"
  is_target :: "install_target option"
  is_pe_environment :: bool
  is_pe_available :: bool
  is_custom_unattend_path :: string
  is_custom_unattend_error :: "string option"
  is_partition_refresh_pending :: bool
  is_partition_refresh_error :: "string option"
  is_pca_detection_pending :: bool
  is_pca_selection_error :: "string option"
  is_advanced_options_enabled :: bool
  is_prefs :: install_prefs

datatype install_error =
    MissingImage
  | ImageNotReady
  | MissingImageVolume
  | ImageOnTargetVolumeInPe
  | ImageOnTargetVolume
  | ProgramOnTargetVolume
  | UnsupportedImageArchitecture
  | MissingTargetPartition
  | UnstableTargetIdentity
  | PeUnavailable
  | InvalidCustomUnattend
  | BuiltInAdministratorRequiresUnattended
  | BuiltInAdministratorUnsupportedSource
  | BuiltInAdministratorConflictsWithCustomUnattend
  | ConflictingAdministratorOptions
  | InvalidCustomUsername
  | InvalidBuiltInAdministratorName
  | InvalidBuiltInAdministratorPassword
  | RequiredCleanupRequiresUnattended
  | RequiredCleanupConflictsWithCustomUnattend
  | RequiredCleanupUnsupportedSource
  | PreinstalledSoftwareRequiresUnattended
  | PreinstalledSoftwareConflictsWithCustomUnattend
  | PreinstalledSoftwareUnsupportedSource
  | PartitionRefreshPending
  | PartitionRefreshFailed
  | PcaDetectionPending
  | InvalidPcaSelection
  | XpI386RequiresLegacyMbr
  | ViaPeUnsupportedAdvancedInputs
  | InvalidCustomInstallPlan
  | CustomInstallRequiresPe
  | PersonalFilesRequireExistingWindows
  | PersonalFilesUnsupportedSource
  | PersonalFilesRequirePartitionReinstall
  | PersonalFilesRequireNormalWindows

record install_options =
  opt_plan :: install_plan
  opt_format_partition :: bool
  opt_repair_boot :: bool
  opt_unattended :: bool
  opt_export_drivers :: bool
  opt_auto_reboot :: bool
  opt_shutdown_on_terminal :: bool
  opt_boot_mode :: boot_mode
  opt_pca_mode :: pca_mode
  opt_advanced :: advanced_options
  opt_driver_action :: driver_action
  opt_custom_unattend_path :: string
  opt_is_xp :: bool
  opt_is_xp_i386 :: bool
  opt_run_diskpart_scripts :: bool

record install_intent =
  in_route :: install_route
  in_running_in_pe :: bool
  in_target_partition :: string
  in_disk_number :: u32
  in_partition_number :: u32
  in_disk_size :: u64
  in_partition_offset :: u64
  in_partition_size :: u64
  in_stable_identity :: stable_volume
  in_image_path :: string
  in_image_backing_path :: string
  in_volume_index :: u32
  in_is_system_partition :: bool
  in_pe_index :: "nat option"
  in_is_gho :: bool
  in_options :: install_options

definition unwrap_or :: "'a option \<Rightarrow> 'a \<Rightarrow> 'a" where
  "unwrap_or x d = (case x of None \<Rightarrow> d | Some v \<Rightarrow> v)"

definition effective_image_path :: "install_state \<Rightarrow> string" where
  "effective_image_path s = (case is_xp_i386_source s of
     Some p \<Rightarrow> if trim p \<noteq> [] then p else is_image_path s
   | None \<Rightarrow> is_image_path s)"

definition supports_pca_selection :: "u16 option \<Rightarrow> u16 option \<Rightarrow> bool" where
  "supports_pca_selection major architecture \<longleftrightarrow>
     major = Some 10 \<and> (architecture = Some 0 \<or> architecture = Some 9)"

definition image_supports_pca :: "install_state \<Rightarrow> bool \<Rightarrow> bool \<Rightarrow> bool" where
  "image_supports_pca s is_gho is_xp_i386 \<longleftrightarrow>
     (if is_gho \<or> is_xp_i386 then False
      else some_and (is_selected_image s) (\<lambda>m. supports_pca_selection (im_major m) (im_architecture m)))"

definition target_may_use_uefi :: "install_state \<Rightarrow> install_target \<Rightarrow> bool" where
  "target_may_use_uefi s t = (case pr_boot_mode (is_prefs s) of
     BootUefi \<Rightarrow> True | BootLegacy \<Rightarrow> False | BootAuto \<Rightarrow> tg_style t \<noteq> TargetMbr)"

subsection \<open>The checks\<close>

definition on_volume_of :: "string \<Rightarrow> string \<Rightarrow> bool" where
  "on_volume_of path target \<longleftrightarrow>
     (case (path_drive_letter path, path_drive_letter target) of (Some a, Some b) \<Rightarrow> a = b | _ \<Rightarrow> False)"

definition check_volumes :: "string \<Rightarrow> install_state \<Rightarrow> install_target \<Rightarrow> install_error + unit" where
  "check_volumes exe_dir s t =
     (if is_pe_environment s \<and> on_volume_of (effective_image_path s) (tg_partition t) then Inl ImageOnTargetVolumeInPe
      else if \<not> is_pe_environment s \<and> \<not> tg_is_current_system t then
        (if on_volume_of (effective_image_path s) (tg_partition t) \<or> on_volume_of (is_image_path s) (tg_partition t)
         then Inl ImageOnTargetVolume
         else if on_volume_of exe_dir (tg_partition t) then Inl ProgramOnTargetVolume
         else Inr ())
      else Inr ())"

datatype required_unattend_error = UnattendedDisabled | CustomUnattend | UnsupportedSource

definition validate_required_builtin_unattend ::
  "bool \<Rightarrow> bool \<Rightarrow> bool \<Rightarrow> bool \<Rightarrow> required_unattend_error + unit" where
  "validate_required_builtin_unattend required unattended has_custom unsupported =
     (if \<not> required then Inr ()
      else if \<not> unattended then Inl UnattendedDisabled
      else if has_custom then Inl CustomUnattend
      else if unsupported then Inl UnsupportedSource
      else Inr ())"

fun cleanup_error :: "required_unattend_error \<Rightarrow> install_error" where
  "cleanup_error UnattendedDisabled = RequiredCleanupRequiresUnattended"
| "cleanup_error CustomUnattend = RequiredCleanupConflictsWithCustomUnattend"
| "cleanup_error UnsupportedSource = RequiredCleanupUnsupportedSource"

fun admin_install_error :: "administrator_error \<Rightarrow> install_error" where
  "admin_install_error MissingPassword = InvalidBuiltInAdministratorPassword"
| "admin_install_error PasswordTooLong = InvalidBuiltInAdministratorPassword"
| "admin_install_error InvalidPassword = InvalidBuiltInAdministratorPassword"
| "admin_install_error _ = InvalidBuiltInAdministratorName"

definition image_major_is :: "install_state \<Rightarrow> u16 \<Rightarrow> bool" where
  "image_major_is s n \<longleftrightarrow> some_and (is_selected_image s) (\<lambda>m. im_major m = Some n)"

definition check_unattended :: "install_state \<Rightarrow> bool \<Rightarrow> bool \<Rightarrow> install_error + unit" where
  "check_unattended s is_gho is_xp_i386 =
     (let p = is_prefs s;
          a = pr_advanced p;
          custom = trim (is_custom_unattend_path s) \<noteq> [];
          b = builtin_administrator a in
      and_then (map_err cleanup_error (validate_required_builtin_unattend
        (remove_uwp_apps a \<or> disable_windows_defender a) (pr_unattended p) custom (is_xp_i386 \<or> is_gho))) (\<lambda>_.
      and_then (if preinstalled_software a = [] then Inr ()
        else if \<not> pr_unattended p then Inl PreinstalledSoftwareRequiresUnattended
        else if custom then Inl PreinstalledSoftwareConflictsWithCustomUnattend
        else if is_xp_i386 \<or> is_gho then Inl PreinstalledSoftwareUnsupportedSource
        else Inr ()) (\<lambda>_.
      if custom_username a \<and> \<not> is_ok (validate_unattended_local_account_name (username a))
      then Inl InvalidCustomUsername
      else if \<not> ba_enabled b then Inr ()
      else if \<not> pr_unattended p then Inl BuiltInAdministratorRequiresUnattended
      else if is_xp_i386 \<or> is_gho \<or> image_major_is s 5 then Inl BuiltInAdministratorUnsupportedSource
      else if custom then Inl BuiltInAdministratorConflictsWithCustomUnattend
      else if custom_username a then Inl ConflictingAdministratorOptions
      else map_err admin_install_error (validate_administrator b))))"

definition check_readiness :: "install_state \<Rightarrow> install_target \<Rightarrow> bool \<Rightarrow> bool \<Rightarrow> install_error + unit" where
  "check_readiness s t is_gho is_xp_i386 =
     (let p = is_prefs s;
          pca_relevant = pr_repair_boot p \<and> target_may_use_uefi s t \<and> image_supports_pca s is_gho is_xp_i386 in
      if \<not> is_xp_i386 \<and> \<not> is_gho \<and> is_selected_image s = None then Inl MissingImageVolume
      else if some_and (Option.bind (is_selected_image s) im_architecture) (\<lambda>a. \<not> (a = 0 \<or> a = 9))
      then Inl UnsupportedImageArchitecture
      else if is_custom_unattend_error s \<noteq> None then Inl InvalidCustomUnattend
      else if is_partition_refresh_error s \<noteq> None then Inl PartitionRefreshFailed
      else if is_partition_refresh_pending s then Inl PartitionRefreshPending
      else if pca_relevant \<and> is_pca_detection_pending s then Inl PcaDetectionPending
      else if pca_relevant \<and> is_pca_selection_error s \<noteq> None then Inl InvalidPcaSelection
      else if is_xp_i386 \<and> (tg_style t = TargetGpt \<or> pr_boot_mode p = BootUefi) \<and> \<not> is_advanced_options_enabled s
      then Inl XpI386RequiresLegacyMbr
      else Inr ())"

definition check_plan :: "install_state \<Rightarrow> install_target \<Rightarrow> bool \<Rightarrow> bool \<Rightarrow> install_error + unit" where
  "check_plan s t is_gho is_xp_i386 =
     (let p = is_prefs s;
          reinstall = (plan_mode (pr_plan p) = ReinstallPartitionMode) in
      if \<not> is_ok (validate_plan (pr_plan p)) then Inl InvalidCustomInstallPlan
      else if is_pe_environment s \<and> \<not> reinstall then Inl CustomInstallRequiresPe
      else if \<not> preserve_personal_files (pr_advanced p) then Inr ()
      else if \<not> tg_has_windows t then Inl PersonalFilesRequireExistingWindows
      else if is_xp_i386 \<or> is_gho \<or> some_and (is_selected_image s) (\<lambda>m. some_and (im_major m) (\<lambda>v. v < 6))
      then Inl PersonalFilesUnsupportedSource
      else if \<not> reinstall then Inl PersonalFilesRequirePartitionReinstall
      else if is_pe_environment s then Inl PersonalFilesRequireNormalWindows
      else Inr ())"

definition install_route_of :: "install_state \<Rightarrow> install_target \<Rightarrow> install_route" where
  "install_route_of s t =
     (let p = is_prefs s in
      if preserve_personal_files (pr_advanced p) \<or> plan_mode (pr_plan p) \<noteq> ReinstallPartitionMode then ViaPe
      else if is_pe_environment s \<or> \<not> tg_is_current_system t then Direct
      else ViaPe)"

subsection \<open>The intent\<close>

definition drop_wifi :: "advanced_options \<Rightarrow> advanced_options" where
  "drop_wifi a = a\<lparr>migrate_wifi := False, wifi_profile_xml := [], wifi_ssid := []\<rparr>"

definition intent_advanced :: "install_state \<Rightarrow> install_target \<Rightarrow> bool \<Rightarrow> advanced_options" where
  "intent_advanced s t is_xp_i386 =
     (let p = is_prefs s;
          img = is_selected_image s;
          is_xp = (is_xp_i386 \<or> image_major_is s 5);
          a = pr_advanced p;
          a = (if is_xp \<and> \<not> xp_defaults_applied a
               then a\<lparr>xp_inject_usb3_driver := True, xp_inject_nvme_driver := True, xp_defaults_applied := True\<rparr> else a);
          a = retain_supported_for_target (capabilities_for_target (Option.bind img im_major) (Option.bind img im_minor)
                (Option.bind img im_build) is_xp_i386) a;
          a = (if migrate_wifi a \<and> trim (wifi_profile_xml a) = [] then drop_wifi a else a);
          builtin_unattend = (pr_unattended p \<and> trim (is_custom_unattend_path s) = []);
          a = (if migrate_wifi a \<and> \<not> builtin_unattend then drop_wifi a else a);
          w7 = windows7_driver_defaults img (tg_bus_type t)
      in a\<lparr>win7_inject_usb3_driver := fst w7, win7_usb3_driver_path := [],
           win7_inject_nvme_driver := snd w7, win7_nvme_driver_path := [], win7_fix_storage_bsod := False,
           win7_uefi_patch := pr_repair_boot p \<and> target_may_use_uefi s t \<and>
             some_and img (\<lambda>m. im_major m = Some 6 \<and> im_minor m = Some 1 \<and> im_architecture m = Some 9)\<rparr>)"

definition intent_options :: "install_state \<Rightarrow> install_target \<Rightarrow> bool \<Rightarrow> bool \<Rightarrow> install_options" where
  "intent_options s t is_gho is_xp_i386 =
     (let p = is_prefs s in
      \<lparr>opt_plan = pr_plan p,
       opt_format_partition = (if preserve_personal_files (pr_advanced p) then False else pr_format_partition p),
       opt_repair_boot = pr_repair_boot p,
       opt_unattended = pr_unattended p,
       opt_export_drivers = (tg_has_windows t \<and>
         (pr_driver_action p = DriverSaveOnly \<or> pr_driver_action p = DriverAutoImport)),
       opt_auto_reboot = pr_auto_reboot p,
       opt_shutdown_on_terminal = False,
       opt_boot_mode = pr_boot_mode p,
       opt_pca_mode = (if image_supports_pca s is_gho is_xp_i386 then pr_pca_mode p else PcaAuto),
       opt_advanced = intent_advanced s t is_xp_i386,
       opt_driver_action = pr_driver_action p,
       opt_custom_unattend_path = (if pr_unattended p then is_custom_unattend_path s else []),
       opt_is_xp = (is_xp_i386 \<or> image_major_is s 5),
       opt_is_xp_i386 = is_xp_i386,
       opt_run_diskpart_scripts = False\<rparr>)"

definition start_intent :: "string \<Rightarrow> install_state \<Rightarrow> install_error + install_intent" where
  "start_intent exe_dir s =
     (let path = effective_image_path s;
          is_xp_i386 = (is_xp_i386_source s \<noteq> None);
          is_gho = has_extension (is_image_path s) [''gho'', ''ghs''] in
      and_then (ensure (trim path \<noteq> []) MissingImage) (\<lambda>_.
      and_then (ensure (is_image_ready s) ImageNotReady) (\<lambda>_.
      and_then (ok_or (is_target s) MissingTargetPartition) (\<lambda>t.
      and_then (check_volumes exe_dir s t) (\<lambda>_.
      and_then (ok_or (tg_stable_identity t) UnstableTargetIdentity) (\<lambda>identity.
      and_then (check_unattended s is_gho is_xp_i386) (\<lambda>_.
      and_then (check_readiness s t is_gho is_xp_i386) (\<lambda>_.
      and_then (check_plan s t is_gho is_xp_i386) (\<lambda>_.
      let route = install_route_of s t in
      and_then (ensure (\<not> (route = ViaPe \<and> \<not> is_pe_available s)) PeUnavailable) (\<lambda>_.
      Inr \<lparr>in_route = route,
           in_running_in_pe = is_pe_environment s,
           in_target_partition = tg_partition t,
           in_disk_number = unwrap_or (tg_disk_number t) (vi_disk (sv_extent identity)),
           in_partition_number = unwrap_or (tg_partition_number t) 0,
           in_disk_size = unwrap_or (tg_disk_size t) 0,
           in_partition_offset = unwrap_or (tg_partition_offset t) (vi_offset (sv_extent identity)),
           in_partition_size = unwrap_or (tg_partition_size t) (vi_length (sv_extent identity)),
           in_stable_identity = identity,
           in_image_path = path,
           in_image_backing_path = is_image_backing_path s,
           in_volume_index = (case is_selected_image s of Some m \<Rightarrow> im_volume_index m | None \<Rightarrow> 1),
           in_is_system_partition = tg_is_current_system t,
           in_pe_index = (if route = ViaPe then Some 0 else None),
           in_is_gho = is_gho,
           in_options = intent_options s t is_gho is_xp_i386\<rparr>))))))))))"

subsection \<open>What the filter of options does\<close>

lemma unless_same: "(\<And>x. sel (f x) = sel x) \<Longrightarrow> sel (unless b f a) = sel a"
  by (simp add: unless_def)

lemma unless_clear: "(\<And>x. sel (f x) = False) \<Longrightarrow> sel (unless b f a) \<longleftrightarrow> b \<and> sel a"
  by (simp add: unless_def)

lemma unless_empty: "(\<And>x. sel (f x) = []) \<Longrightarrow> sel (unless b f a) = (if b then sel a else [])"
  by (simp add: unless_def)

text \<open>An option is kept by the updates of the others and cleared by its own.\<close>

lemmas option_kept =
  unless_same [of remove_shortcut_arrow] unless_same [of restore_classic_context_menu] unless_same [of bypass_nro]
  unless_same [of disable_windows_update] unless_same [of disable_windows_defender]
  unless_same [of disable_reserved_storage] unless_same [of disable_uac] unless_same [of disable_device_encryption]
  unless_same [of remove_uwp_apps] unless_same [of migrate_wifi] unless_same [of wifi_profile_xml]
  unless_same [of wifi_ssid] unless_same [of preserve_personal_files]

lemmas option_cleared =
  unless_clear [of remove_shortcut_arrow] unless_clear [of restore_classic_context_menu] unless_clear [of bypass_nro]
  unless_clear [of disable_windows_update] unless_clear [of disable_windows_defender]
  unless_clear [of disable_reserved_storage] unless_clear [of disable_uac] unless_clear [of disable_device_encryption]
  unless_clear [of remove_uwp_apps] unless_clear [of migrate_wifi]
  unless_empty [of wifi_profile_xml] unless_empty [of wifi_ssid]

lemma retain_selectors:
  "system_options (retain_supported_for_target c a) =
     map (\<lambda>i. cap_system c ! i \<and> system_options a ! i) [0..<10]"
  "wifi_profile_xml (retain_supported_for_target c a) = (if cap_system c ! 9 then wifi_profile_xml a else [])"
  "wifi_ssid (retain_supported_for_target c a) = (if cap_system c ! 9 then wifi_ssid a else [])"
  by (simp_all add: system_options_def retain_supported_for_target_def Let_def option_kept option_cleared
      upt_rec numeral_nat)

lemma migrate_wifi_option: "migrate_wifi a = system_options a ! 9"
  by (simp add: system_options_def)

subsection \<open>What an intent may carry\<close>

definition target_capabilities :: "install_state \<Rightarrow> bool \<Rightarrow> capabilities" where
  "target_capabilities s is_xp_i386 =
     capabilities_for_target (Option.bind (is_selected_image s) im_major) (Option.bind (is_selected_image s) im_minor)
       (Option.bind (is_selected_image s) im_build) is_xp_i386"

lemma target_capabilities_length: "length (cap_system (target_capabilities s x)) = 10"
  by (simp add: target_capabilities_def capabilities_for_target_def capabilities_unknown_def Let_def)

lemma system_options_xp [simp]:
  "system_options (a\<lparr>xp_inject_usb3_driver := x, xp_inject_nvme_driver := y, xp_defaults_applied := z\<rparr>) = system_options a"
  "system_options (a\<lparr>win7_inject_usb3_driver := b1, win7_usb3_driver_path := p1, win7_inject_nvme_driver := b2,
     win7_nvme_driver_path := p2, win7_fix_storage_bsod := b3, win7_uefi_patch := b4\<rparr>) = system_options a"
  by (simp_all add: system_options_def)

lemma drop_wifi_options:
  "system_options (drop_wifi a) = (system_options a)[9 := False]"
  "migrate_wifi (drop_wifi a) = False" "wifi_profile_xml (drop_wifi a) = []" "wifi_ssid (drop_wifi a) = []"
  by (simp_all add: system_options_def drop_wifi_def)

lemma retain_wifi:
  "migrate_wifi (retain_supported_for_target c a) \<longleftrightarrow> cap_system c ! 9 \<and> migrate_wifi a"
  by (simp add: migrate_wifi_option retain_selectors)

lemma intent_advanced_cases:
  obtains a where
    "system_options a = map (\<lambda>j. cap_system (target_capabilities s is_xp_i386) ! j \<and>
       system_options (pr_advanced (is_prefs s)) ! j) [0..<10]"
    and "\<not> cap_system (target_capabilities s is_xp_i386) ! 9 \<Longrightarrow> wifi_profile_xml a = [] \<and> wifi_ssid a = []"
    and "system_options (intent_advanced s t is_xp_i386) = system_options a \<and>
      wifi_profile_xml (intent_advanced s t is_xp_i386) = wifi_profile_xml a \<and>
      wifi_ssid (intent_advanced s t is_xp_i386) = wifi_ssid a \<and>
      (migrate_wifi a \<longrightarrow> trim (wifi_profile_xml a) \<noteq> [] \<and> pr_unattended (is_prefs s) \<and>
         trim (is_custom_unattend_path s) = []) \<or>
      system_options (intent_advanced s t is_xp_i386) = system_options (drop_wifi a) \<and>
      wifi_profile_xml (intent_advanced s t is_xp_i386) = [] \<and> wifi_ssid (intent_advanced s t is_xp_i386) = []"
proof -
  let ?x = "is_xp_i386 \<or> image_major_is s 5"
  let ?base = "if ?x \<and> \<not> xp_defaults_applied (pr_advanced (is_prefs s))
    then pr_advanced (is_prefs s)\<lparr>xp_inject_usb3_driver := True, xp_inject_nvme_driver := True, xp_defaults_applied := True\<rparr>
    else pr_advanced (is_prefs s)"
  define a where "a = retain_supported_for_target (target_capabilities s is_xp_i386) ?base"
  define b where "b = (if migrate_wifi a \<and> trim (wifi_profile_xml a) = [] then drop_wifi a else a)"
  define c where "c = (if migrate_wifi b \<and> \<not> (pr_unattended (is_prefs s) \<and> trim (is_custom_unattend_path s) = [])
    then drop_wifi b else b)"
  have "system_options (intent_advanced s t is_xp_i386) = system_options c"
    and "wifi_profile_xml (intent_advanced s t is_xp_i386) = wifi_profile_xml c"
    and "wifi_ssid (intent_advanced s t is_xp_i386) = wifi_ssid c"
    unfolding intent_advanced_def Let_def target_capabilities_def [symmetric] a_def [symmetric]
      b_def [symmetric] c_def [symmetric]
    by simp_all
  moreover have "c = a \<and> (migrate_wifi a \<longrightarrow> trim (wifi_profile_xml a) \<noteq> [] \<and> pr_unattended (is_prefs s) \<and>
      trim (is_custom_unattend_path s) = []) \<or> c = drop_wifi a"
    by (auto simp: c_def b_def drop_wifi_options)
  moreover have "system_options a = map (\<lambda>j. cap_system (target_capabilities s is_xp_i386) ! j \<and>
       system_options (pr_advanced (is_prefs s)) ! j) [0..<10]"
    by (simp only: a_def retain_selectors) simp
  moreover have "\<not> cap_system (target_capabilities s is_xp_i386) ! 9 \<Longrightarrow> wifi_profile_xml a = [] \<and> wifi_ssid a = []"
    by (simp add: a_def retain_selectors)
  ultimately show thesis
    by (intro that [of a]) (auto simp: drop_wifi_options)
qed

lemma start_intent_Inr:
  assumes "start_intent exe_dir s = Inr i"
  obtains t where "is_target s = Some t"
    and "trim (effective_image_path s) \<noteq> []" and "is_image_ready s"
    and "check_volumes exe_dir s t = Inr ()"
    and "tg_stable_identity t = Some (in_stable_identity i)"
    and "check_unattended s (in_is_gho i) (is_xp_i386_source s \<noteq> None) = Inr ()"
    and "check_readiness s t (in_is_gho i) (is_xp_i386_source s \<noteq> None) = Inr ()"
    and "check_plan s t (in_is_gho i) (is_xp_i386_source s \<noteq> None) = Inr ()"
    and "in_route i = install_route_of s t" and "in_route i = ViaPe \<longrightarrow> is_pe_available s"
    and "in_options i = intent_options s t (in_is_gho i) (is_xp_i386_source s \<noteq> None)"
    and "in_running_in_pe i = is_pe_environment s" and "in_target_partition i = tg_partition t"
    and "in_image_path i = effective_image_path s" and "in_is_system_partition i = tg_is_current_system t"
    and "in_pe_index i = (if in_route i = ViaPe then Some 0 else None)"
  using assms unfolding start_intent_def Let_def
  by (auto simp: res_simps)

lemma check_plan_Inr:
  "check_plan s t gho xp = Inr u \<longleftrightarrow>
     validate_plan (pr_plan (is_prefs s)) = Inr () \<and>
     (is_pe_environment s \<longrightarrow> plan_mode (pr_plan (is_prefs s)) = ReinstallPartitionMode) \<and>
     (preserve_personal_files (pr_advanced (is_prefs s)) \<longrightarrow>
        tg_has_windows t \<and> \<not> xp \<and> \<not> gho \<and>
        \<not> some_and (is_selected_image s) (\<lambda>m. some_and (im_major m) (\<lambda>v. v < 6)) \<and>
        plan_mode (pr_plan (is_prefs s)) = ReinstallPartitionMode \<and> \<not> is_pe_environment s)"
  by (cases "validate_plan (pr_plan (is_prefs s))") (auto simp: check_plan_def Let_def)

lemma started_route:
  assumes "start_intent exe_dir s = Inr i"
  shows "in_route i = Direct \<longleftrightarrow> plan_mode (pr_plan (is_prefs s)) = ReinstallPartitionMode \<and>
      \<not> preserve_personal_files (pr_advanced (is_prefs s)) \<and> (in_running_in_pe i \<or> \<not> in_is_system_partition i)"
    and "opt_plan (in_options i) = pr_plan (is_prefs s)"
    and "\<not> opt_run_diskpart_scripts (in_options i)"
    and "preserve_personal_files (pr_advanced (is_prefs s)) \<Longrightarrow> \<not> opt_format_partition (in_options i)"
proof -
  from start_intent_Inr [OF assms] obtain t where
    route: "in_route i = install_route_of s t"
    and options: "in_options i = intent_options s t (in_is_gho i) (is_xp_i386_source s \<noteq> None)"
    and facts: "in_running_in_pe i = is_pe_environment s" "in_is_system_partition i = tg_is_current_system t"
    by metis
  show "in_route i = Direct \<longleftrightarrow> plan_mode (pr_plan (is_prefs s)) = ReinstallPartitionMode \<and>
      \<not> preserve_personal_files (pr_advanced (is_prefs s)) \<and> (in_running_in_pe i \<or> \<not> in_is_system_partition i)"
    by (simp add: route facts install_route_of_def Let_def)
  show "opt_plan (in_options i) = pr_plan (is_prefs s)" "\<not> opt_run_diskpart_scripts (in_options i)"
    "preserve_personal_files (pr_advanced (is_prefs s)) \<Longrightarrow> \<not> opt_format_partition (in_options i)"
    by (simp_all add: options intent_options_def Let_def)
qed

text \<open>
  C8. What an accepted start means. The target volume has a captured identity and the plan is
  valid; the installation runs directly exactly when only the chosen partition is reinstalled, no
  personal files are kept and that partition is not the running system (or this is already the boot
  environment), and otherwise a boot environment is there to run it; a direct installation from the
  full system has neither its image nor the running program on the partition it formats, one from
  the boot environment never has its image there; keeping personal files switches formatting off and
  is accepted only for a partition with Windows.
\<close>

theorem started_install_is_safe:
  assumes "start_intent exe_dir s = Inr i"
  shows "(\<exists>t. is_target s = Some t \<and> tg_stable_identity t = Some (in_stable_identity i) \<and>
      (preserve_personal_files (pr_advanced (is_prefs s)) \<longrightarrow>
         tg_has_windows t \<and> in_route i = ViaPe \<and> \<not> opt_format_partition (in_options i))) \<and>
    validate_plan (opt_plan (in_options i)) = Inr () \<and>
    (in_route i = Direct \<longleftrightarrow> plan_mode (opt_plan (in_options i)) = ReinstallPartitionMode \<and>
       \<not> preserve_personal_files (pr_advanced (is_prefs s)) \<and> (in_running_in_pe i \<or> \<not> in_is_system_partition i)) \<and>
    (in_route i = ViaPe \<longrightarrow> is_pe_available s \<and> \<not> in_running_in_pe i \<and> in_pe_index i = Some 0) \<and>
    (in_route i = Direct \<longrightarrow> \<not> on_volume_of (in_image_path i) (in_target_partition i) \<and>
       (\<not> in_running_in_pe i \<longrightarrow> \<not> on_volume_of exe_dir (in_target_partition i))) \<and>
    \<not> opt_run_diskpart_scripts (in_options i)"
proof -
  from start_intent_Inr [OF assms] obtain t where t: "is_target s = Some t"
    and volumes: "check_volumes exe_dir s t = Inr ()"
    and identity: "tg_stable_identity t = Some (in_stable_identity i)"
    and plan: "check_plan s t (in_is_gho i) (is_xp_i386_source s \<noteq> None) = Inr ()"
    and pe: "in_route i = ViaPe \<longrightarrow> is_pe_available s"
    and facts: "in_running_in_pe i = is_pe_environment s" "in_target_partition i = tg_partition t"
      "in_image_path i = effective_image_path s" "in_is_system_partition i = tg_is_current_system t"
      "in_pe_index i = (if in_route i = ViaPe then Some 0 else None)"
    by metis
  note opts = started_route(2-4) [OF assms] and direct = started_route(1) [OF assms]
  have via_pe: "in_route i = ViaPe \<longleftrightarrow> in_route i \<noteq> Direct" by (cases "in_route i") auto
  have apart: "\<not> on_volume_of (effective_image_path s) (tg_partition t)"
    "\<not> is_pe_environment s \<Longrightarrow> \<not> on_volume_of exe_dir (tg_partition t)" if "in_route i = Direct"
    using that volumes unfolding direct check_volumes_def facts by (auto split: if_splits)
  show ?thesis
    using t identity plan direct via_pe apart pe facts opts
    unfolding check_plan_Inr by auto
qed

definition sample_advanced :: advanced_options where
  "sample_advanced = \<lparr>preserve_personal_files = False, remove_shortcut_arrow = True, restore_classic_context_menu = True,
     bypass_nro = True, disable_windows_update = False, disable_windows_defender = False,
     disable_reserved_storage = True, disable_uac = False, disable_device_encryption = True, remove_uwp_apps = False,
     preinstalled_software = [], install_vmware_tools = False, migrate_wifi = True, wifi_profile_xml = ''<WLANProfile/>'',
     wifi_ssid = ''home'', wifi_detected = Some True, run_script_during_deploy = False, deploy_script_path = [],
     run_script_first_login = False, first_login_script_path = [], import_custom_drivers = False,
     custom_drivers_path = [], import_storage_controller_drivers = True, import_registry_file = False,
     registry_file_path = [], import_custom_files = False, custom_files_path = [], custom_username = False,
     username = [], builtin_administrator = \<lparr>ba_enabled = False, ba_account_name = ''Administrator'',
       ba_password = [], ba_auto_logon = True\<rparr>,
     custom_volume_label = False, volume_label = ''OS'', win7_inject_usb3_driver = False, win7_usb3_driver_path = [],
     win7_inject_nvme_driver = False, win7_nvme_driver_path = [], win7_fix_acpi_bsod = False,
     win7_fix_storage_bsod = False, win7_uefi_patch = False, xp_inject_usb3_driver = False,
     xp_inject_nvme_driver = False, xp_defaults_applied = False\<rparr>"

definition sample_target :: install_target where
  "sample_target = \<lparr>tg_partition = ''D:'', tg_disk_number = Some 1, tg_partition_number = Some 1,
     tg_disk_size = None, tg_partition_offset = None, tg_partition_size = None,
     tg_stable_identity = Some \<lparr>sv_extent = \<lparr>vi_disk = 1, vi_offset = 1048576, vi_length = 68719476736\<rparr>,
       sv_disk = MbrDisk 7, sv_partition = MbrPartition 1, sv_device_id = None\<rparr>,
     tg_bus_type = None, tg_style = TargetMbr, tg_is_current_system = False, tg_has_windows = False\<rparr>"

definition sample_state :: install_state where
  "sample_state = \<lparr>is_image_path = ''E:install.wim'', is_image_backing_path = [], is_image_ready = True,
     is_selected_image = Some \<lparr>im_volume_index = 2, im_major = Some 6, im_minor = Some 1, im_build = Some 7601,
       im_architecture = Some 9\<rparr>,
     is_xp_i386_source = None, is_target = Some sample_target, is_pe_environment = False, is_pe_available = False,
     is_custom_unattend_path = [], is_custom_unattend_error = None, is_partition_refresh_pending = False,
     is_partition_refresh_error = None, is_pca_detection_pending = False, is_pca_selection_error = None,
     is_advanced_options_enabled = True,
     is_prefs = \<lparr>pr_plan = ReinstallPartition, pr_format_partition = True, pr_repair_boot = True,
       pr_unattended = True, pr_export_drivers = True, pr_auto_reboot = True, pr_run_diskpart_scripts = False,
       pr_boot_mode = BootAuto, pr_pca_mode = PcaAuto, pr_driver_action = DriverAutoImport,
       pr_advanced = sample_advanced\<rparr>\<rparr>"

lemma trim_sample: "trim [] = []" "trim ''E:install.wim'' = ''E:install.wim''" "trim ''<WLANProfile/>'' = ''<WLANProfile/>''"
  by (rule trim_printable; simp add: printable_def)+

lemma sample_start: "\<exists>i. start_intent ''C:'' sample_state = Inr i \<and> in_route i = Direct"
  by (simp add: start_intent_def sample_state_def sample_target_def sample_advanced_def effective_image_path_def
      trim_sample check_volumes_def on_volume_of_def path_drive_letter_def is_alpha_def is_upper_def is_lower_def
      to_upper_def check_unattended_def validate_required_builtin_unattend_def check_readiness_def
      target_may_use_uefi_def some_and_def check_plan_def install_route_of_def Let_def)

theorem started_install_is_safe_witness:
  "\<exists>i. start_intent ''C:'' sample_state = Inr i \<and> in_route i = Direct \<and>
     \<not> on_volume_of (in_image_path i) (in_target_partition i) \<and> \<not> opt_run_diskpart_scripts (in_options i)"
proof -
  obtain i where i: "start_intent ''C:'' sample_state = Inr i" "in_route i = Direct"
    using sample_start by blast
  then show ?thesis using started_install_is_safe [OF i(1)] by blast
qed

text \<open>What options an accepted start carries. Of the ten system options an intent has only
  those that were asked for and that the version of the target supports; the Wi-Fi profile with its
  key is migrated only if there is one and the built-in answer file, which imports it, is used; and
  when a wanted migration is dropped, the profile and the name of the network are removed.
\<close>

theorem intent_options_filtered:
  assumes "start_intent exe_dir s = Inr i"
  shows "list_all (\<lambda>j. system_options (opt_advanced (in_options i)) ! j \<longrightarrow>
      system_options (pr_advanced (is_prefs s)) ! j \<and>
      supports_system_option (target_capabilities s (is_xp_i386_source s \<noteq> None)) j) [0..<10] \<and>
    (migrate_wifi (opt_advanced (in_options i)) \<longrightarrow>
      trim (wifi_profile_xml (opt_advanced (in_options i))) \<noteq> [] \<and> opt_unattended (in_options i) \<and>
      trim (opt_custom_unattend_path (in_options i)) = []) \<and>
    (migrate_wifi (pr_advanced (is_prefs s)) \<and> \<not> migrate_wifi (opt_advanced (in_options i)) \<longrightarrow>
      wifi_profile_xml (opt_advanced (in_options i)) = [] \<and> wifi_ssid (opt_advanced (in_options i)) = [])"
proof -
  let ?xp = "is_xp_i386_source s \<noteq> None"
  let ?r = "opt_advanced (in_options i)" and ?c = "target_capabilities s ?xp" and ?p = "pr_advanced (is_prefs s)"
  from start_intent_Inr [OF assms] obtain t where
    o: "in_options i = intent_options s t (in_is_gho i) ?xp" by metis
  have r: "?r = intent_advanced s t ?xp" "opt_unattended (in_options i) = pr_unattended (is_prefs s)"
    "opt_custom_unattend_path (in_options i) = (if pr_unattended (is_prefs s) then is_custom_unattend_path s else [])"
    by (simp_all add: o intent_options_def Let_def)
  obtain a where a: "system_options a = map (\<lambda>j. cap_system ?c ! j \<and> system_options ?p ! j) [0..<10]"
      "\<not> cap_system ?c ! 9 \<Longrightarrow> wifi_profile_xml a = [] \<and> wifi_ssid a = []"
    and w: "system_options ?r = system_options a \<and> wifi_profile_xml ?r = wifi_profile_xml a \<and>
      wifi_ssid ?r = wifi_ssid a \<and>
      (migrate_wifi a \<longrightarrow> trim (wifi_profile_xml a) \<noteq> [] \<and> pr_unattended (is_prefs s) \<and>
         trim (is_custom_unattend_path s) = []) \<or>
      system_options ?r = system_options (drop_wifi a) \<and> wifi_profile_xml ?r = [] \<and> wifi_ssid ?r = []"
    unfolding r(1) by (rule intent_advanced_cases [of s ?xp t]) blast
  have mw: "migrate_wifi a \<longleftrightarrow> cap_system ?c ! 9 \<and> migrate_wifi ?p"
    by (simp add: migrate_wifi_option a(1))
  have kept: "list_all (\<lambda>j. system_options ?r ! j \<longrightarrow> cap_system ?c ! j \<and> system_options ?p ! j) [0..<10]"
    using w by (auto simp: list_all_iff a(1) drop_wifi_options nth_list_update split: if_splits)
  have cleared: "migrate_wifi ?r \<longrightarrow> migrate_wifi a \<and> system_options ?r = system_options a \<and>
      wifi_profile_xml ?r = wifi_profile_xml a"
    using w drop_wifi_options(2) [of a] by (auto simp: migrate_wifi_option)
  show ?thesis
    using kept w cleared a(2) mw r(2,3) drop_wifi_options(2) [of a] trim_sample(1)
    by (auto simp: list_all_iff supports_system_option_def target_capabilities_length migrate_wifi_option)
qed

theorem intent_options_filtered_witness:
  "\<exists>i. start_intent ''C:'' sample_state = Inr i \<and> migrate_wifi (pr_advanced (is_prefs sample_state)) \<and>
     (migrate_wifi (opt_advanced (in_options i)) \<longrightarrow> opt_unattended (in_options i)) \<and>
     list_all (\<lambda>j. system_options (opt_advanced (in_options i)) ! j \<longrightarrow>
       supports_system_option (target_capabilities sample_state False) j) [0..<10]"
proof -
  obtain i where i: "start_intent ''C:'' sample_state = Inr i"
    using sample_start by blast
  have "migrate_wifi (pr_advanced (is_prefs sample_state))" "is_xp_i386_source sample_state = None"
    by (simp_all add: sample_state_def sample_advanced_def)
  with intent_options_filtered [OF i] i show ?thesis by (auto simp: list_all_iff)
qed

end
