(* ===== verification/Executor.thy ===== *)
theory Executor
  imports InstallControl
begin

section \<open>The installation executor\<close>

text \<open>
  The execution of an installation (\<open>native_install_executor.rs\<close>). An accepted start is turned
  into a list of phases, each phase is given a range of the overall progress in proportion to its
  weight, and the phases are run one after another by a backend, which does the reading and writing
  and reports its progress through the executor. The backend and the cancellation flag are
  parameters: \<open>backend p s\<close> is the list of events phase \<open>p\<close> reports from the state \<open>s\<close> of the
  machine, the state after it and its result, and \<open>cancelled k s\<close> is the flag as it is read before
  the phase with offset \<open>k\<close>.
\<close>

subsection \<open>The identity of the target\<close>

record stable_target =
  st_disk_number :: u32
  st_partition_number :: u32
  st_disk_size :: u64
  st_partition_offset :: u64
  st_partition_size :: u64
  st_stable_volume :: stable_volume

definition physical_partition_ranges_match ::
  "u32 option \<Rightarrow> u64 option \<Rightarrow> u64 option \<Rightarrow> u32 option \<Rightarrow> u64 option \<Rightarrow> u64 option \<Rightarrow> bool" where
  "physical_partition_ranges_match ed eo ee cd co ce =
     (case (ed, eo, ee, cd, co, ce) of
        (Some disk, Some offset, Some extent, Some disk', Some offset', Some extent') \<Rightarrow>
          disk = disk' \<and> offset = offset' \<and> extent = extent'
      | _ \<Rightarrow> False)"

definition matches_stable_volume :: "stable_target \<Rightarrow> stable_volume \<Rightarrow> bool" where
  "matches_stable_volume t actual = same_stable_volume_identity (st_stable_volume t) actual"

definition matches_components ::
  "stable_target \<Rightarrow> u32 option \<Rightarrow> u32 option \<Rightarrow> u64 option \<Rightarrow> u64 option \<Rightarrow> u64 option \<Rightarrow> bool" where
  "matches_components t disk partition_number disk_size offset extent =
     physical_partition_ranges_match (Some (st_disk_number t)) (Some (st_partition_offset t))
       (Some (st_partition_size t)) disk offset extent"

lemma matches_components_iff:
  "matches_components t d n z p e \<longleftrightarrow>
     d = Some (st_disk_number t) \<and> p = Some (st_partition_offset t) \<and> e = Some (st_partition_size t)"
  by (auto simp: matches_components_def physical_partition_ranges_match_def split: option.splits)

datatype bitlocker_requirement = BitLockerReady | UnlockRequired | AwaitDecryption

record exec_context =
  ec_stable_target :: "stable_target option"
  ec_bitlocker :: bitlocker_requirement

subsection \<open>Phases\<close>

datatype phase =
    InspectBitLocker | AwaitBitLockerDecryption | VerifyPcaBeforeDiskWrite
  | ResolveStableTarget | RunDiskpartScripts | ResolveTargetAfterDiskpart
  | PreparePreinstalledSoftware | FormatTarget | ExportHostDrivers | ApplyXpTextModeSource
  | ApplyGhostImage | ApplyWimImage | ProcessDrivers | RepairBoot | StageDirectPreinstalledSoftware
  | ApplyAdvancedOptions | FinishDirectInstall
  | VerifyPeEnvironment | InstallPeBootEntry | SelectDataPartition | PersistPcaCompatibilityPackage
  | ExportDriversToPeData | VerifySourceImage | CopySourceImage | StagePreinstalledSoftware
  | StageUefiSeven | StageUserDrivers | WritePeInstallConfig | ReadyToRebootIntoPe

definition is_via_pe_commit_phase :: "phase \<Rightarrow> bool" where
  "is_via_pe_commit_phase p \<longleftrightarrow> p \<in> {WritePeInstallConfig, InstallPeBootEntry, ReadyToRebootIntoPe}"

definition mutates_machine :: "phase \<Rightarrow> bool" where
  "mutates_machine p \<longleftrightarrow> p \<notin> {InspectBitLocker, AwaitBitLockerDecryption, VerifyPcaBeforeDiskWrite,
     ResolveStableTarget, VerifyPeEnvironment, VerifySourceImage, PreparePreinstalledSoftware}"

fun estimated_weight :: "install_intent \<Rightarrow> phase \<Rightarrow> u16" where
  "estimated_weight i InspectBitLocker = 1"
| "estimated_weight i AwaitBitLockerDecryption = 2"
| "estimated_weight i VerifyPcaBeforeDiskWrite = 2"
| "estimated_weight i ResolveStableTarget = 1"
| "estimated_weight i ResolveTargetAfterDiskpart = 1"
| "estimated_weight i RunDiskpartScripts = 2"
| "estimated_weight i PreparePreinstalledSoftware = 10"
| "estimated_weight i FormatTarget = 3"
| "estimated_weight i ExportHostDrivers = 6"
| "estimated_weight i ExportDriversToPeData = 6"
| "estimated_weight i ApplyXpTextModeSource = 42"
| "estimated_weight i ApplyGhostImage = 42"
| "estimated_weight i ApplyWimImage = 42"
| "estimated_weight i CopySourceImage = 42"
| "estimated_weight i ProcessDrivers = 6"
| "estimated_weight i RepairBoot = 6"
| "estimated_weight i StageDirectPreinstalledSoftware = (if in_running_in_pe i then 12 else 2)"
| "estimated_weight i ApplyAdvancedOptions = 3"
| "estimated_weight i FinishDirectInstall = 1"
| "estimated_weight i SelectDataPartition = 1"
| "estimated_weight i StageUefiSeven = 1"
| "estimated_weight i ReadyToRebootIntoPe = 1"
| "estimated_weight i VerifyPeEnvironment = 2"
| "estimated_weight i StagePreinstalledSoftware = 2"
| "estimated_weight i StageUserDrivers = 2"
| "estimated_weight i InstallPeBootEntry = 3"
| "estimated_weight i PersistPcaCompatibilityPackage = 3"
| "estimated_weight i VerifySourceImage = 10"
| "estimated_weight i WritePeInstallConfig = 4"

subsection \<open>Events and errors\<close>

record progress_range =
  r_start :: u8
  r_end :: u8

definition range_map :: "progress_range \<Rightarrow> u8 \<Rightarrow> u8" where
  "range_map r phase_progress =
     (let progress = min phase_progress 100;
          span = (ucast (saturating_sub (r_end r) (r_start r)) :: u16) in
      ucast (min (ucast (r_start r) + span * ucast progress div 100) 100))"

datatype exec_outcome = DirectInstallCompleted | ReadyForPe

datatype exec_event =
    Started nat
  | PhaseStarted nat nat phase bool progress_range
  | Progressed phase u8 string
  | PhaseCompleted nat nat phase u8
  | Completed exec_outcome

record backend_error =
  be_code :: string
  be_detail :: string

datatype exec_error =
    DevelopmentBuildDenied
  | MissingStableTarget
  | BitLockerUnlockRequired
  | XpTextModeRequiresBootRepair
  | ExecCancelled
  | Backend phase backend_error

definition boot_change_blocked :: "exec_error \<Rightarrow> bool" where
  "boot_change_blocked e = (case e of Backend _ source \<Rightarrow> be_code source = ''pe_boot_change_blocked'' | _ \<Rightarrow> False)"

text \<open>\<open>PhaseProgressReporter\<close>: the events of one phase, with the largest percentage so far.\<close>

fun phase_report :: "phase \<Rightarrow> u8 \<Rightarrow> exec_event list \<Rightarrow> exec_event list" where
  "phase_report p reached [] = []"
| "phase_report p reached (Progressed _ percentage detail # es) =
     (let percentage = max (min percentage 100) reached in
      Progressed p percentage detail # phase_report p percentage es)"
| "phase_report p reached (e # es) = e # phase_report p reached es"

subsection \<open>The commit state\<close>

definition should_honor_cancellation :: "bool \<Rightarrow> bool \<Rightarrow> bool" where
  "should_honor_cancellation commit_started cancellation_requested \<longleftrightarrow> cancellation_requested \<and> \<not> commit_started"

definition enter_phase :: "bool \<Rightarrow> install_route \<Rightarrow> phase \<Rightarrow> bool" where
  "enter_phase commit_started mode p =
     (if mode = ViaPe \<and> p = WritePeInstallConfig then True else commit_started)"

definition cancellable :: "bool \<Rightarrow> bool" where
  "cancellable commit_started \<longleftrightarrow> \<not> commit_started"

subsection \<open>The plan\<close>

definition append_direct_phases :: "install_intent \<Rightarrow> phase list \<Rightarrow> phase list" where
  "append_direct_phases i phases =
     (let o' = in_options i;
          phases = phases @ [ResolveStableTarget];
          phases = (if opt_export_drivers o' \<and> \<not> opt_is_xp_i386 o' then phases @ [ExportHostDrivers] else phases);
          phases = (if opt_run_diskpart_scripts o'
            then phases @ [RunDiskpartScripts] @ [ResolveTargetAfterDiskpart] else phases);
          phases = phases @ [VerifySourceImage];
          has_preinstalled_software = (preinstalled_software (opt_advanced o') \<noteq> []);
          phases = (if has_preinstalled_software \<and> \<not> in_running_in_pe i
            then phases @ [PreparePreinstalledSoftware] else phases);
          phases = phases @ [FormatTarget] in
      if opt_is_xp_i386 o' then phases @ [ApplyXpTextModeSource] @ [FinishDirectInstall]
      else
        let phases = phases @ [if in_is_gho i then ApplyGhostImage else ApplyWimImage];
            phases = (if opt_repair_boot o' then phases @ [RepairBoot] else phases);
            phases = phases @ [ProcessDrivers];
            phases = (if has_preinstalled_software then phases @ [StageDirectPreinstalledSoftware] else phases) in
        phases @ [ApplyAdvancedOptions] @ [FinishDirectInstall])"

definition append_via_pe_phases :: "install_intent \<Rightarrow> phase list \<Rightarrow> phase list" where
  "append_via_pe_phases i phases =
     (let o' = in_options i;
          phases = phases @ [VerifyPeEnvironment];
          phases = (if preinstalled_software (opt_advanced o') \<noteq> []
            then phases @ [PreparePreinstalledSoftware] else phases);
          phases = phases @ [SelectDataPartition];
          phases = (if opt_repair_boot o' then phases @ [PersistPcaCompatibilityPackage] else phases);
          phases = (if opt_export_drivers o' then phases @ [ExportDriversToPeData] else phases);
          phases = phases @ [VerifySourceImage, CopySourceImage];
          phases = (if preinstalled_software (opt_advanced o') \<noteq> []
            then phases @ [StagePreinstalledSoftware] else phases);
          phases = (if opt_repair_boot o' \<and> win7_uefi_patch (opt_advanced o')
            then phases @ [StageUefiSeven] else phases) in
      phases @ [StageUserDrivers, WritePeInstallConfig, InstallPeBootEntry, ReadyToRebootIntoPe])"

definition build_plan :: "install_intent \<Rightarrow> exec_context \<Rightarrow> exec_error + phase list" where
  "build_plan i c =
     (if ec_bitlocker c = UnlockRequired then Inl BitLockerUnlockRequired
      else if in_route i = Direct \<and> ec_stable_target c = None then Inl MissingStableTarget
      else if opt_is_xp_i386 (in_options i) \<and> \<not> opt_repair_boot (in_options i)
        then Inl XpTextModeRequiresBootRepair
      else
        (let phases = [InspectBitLocker];
             phases = (if ec_bitlocker c = AwaitDecryption then phases @ [AwaitBitLockerDecryption] else phases);
             phases = (if opt_repair_boot (in_options i) then phases @ [VerifyPcaBeforeDiskWrite] else phases) in
         Inr (case in_route i of
             Direct \<Rightarrow> append_direct_phases i phases
           | ViaPe \<Rightarrow> append_via_pe_phases i phases)))"

text \<open>The share of the overall progress that a completed weight is, in percent.\<close>

definition percent_of :: "u32 \<Rightarrow> u32 \<Rightarrow> u8" where
  "percent_of completed_weight total_weight = ucast (min (saturating_mul completed_weight 100 div total_weight) 100)"

fun ranges_from :: "install_intent \<Rightarrow> u32 \<Rightarrow> u32 \<Rightarrow> phase list \<Rightarrow> progress_range list" where
  "ranges_from i total_weight completed_weight [] = []"
| "ranges_from i total_weight completed_weight (p # ps) =
     (let completed_weight' = saturating_add completed_weight (ucast (estimated_weight i p)) in
      \<lparr>r_start = percent_of completed_weight total_weight,
       r_end = (if ps = [] then 100 else percent_of completed_weight' total_weight)\<rparr>
      # ranges_from i total_weight completed_weight' ps)"

definition progress_ranges :: "install_intent \<Rightarrow> phase list \<Rightarrow> progress_range list" where
  "progress_ranges i plan =
     ranges_from i (max (sum_list (map (\<lambda>p. ucast (estimated_weight i p)) plan)) 1) 0 plan"

subsection \<open>Execution\<close>

type_synonym 's backend = "phase \<Rightarrow> 's \<Rightarrow> exec_event list \<times> 's \<times> (backend_error + unit)"

fun run_phases ::
  "install_intent \<Rightarrow> 's backend \<Rightarrow> (nat \<Rightarrow> 's \<Rightarrow> bool) \<Rightarrow> nat \<Rightarrow> bool \<Rightarrow> nat \<Rightarrow> (phase \<times> progress_range) list \<Rightarrow> 's \<Rightarrow>
    exec_event list \<times> 's \<times> (exec_error + exec_outcome)" where
  "run_phases i backend cancelled n commit k [] s =
     (let outcome = (case in_route i of Direct \<Rightarrow> DirectInstallCompleted | ViaPe \<Rightarrow> ReadyForPe) in
      ([Completed outcome], s, Inr outcome))"
| "run_phases i backend cancelled n commit k ((p, overall) # rest) s =
     (if should_honor_cancellation commit (cancelled k s) then ([], s, Inl ExecCancelled)
      else
        let commit' = enter_phase commit (in_route i) p;
            (reported, s', result) = backend p s;
            events = PhaseStarted (k + 1) n p (cancellable commit') overall # phase_report p 0 reported in
        case result of
          Inl source \<Rightarrow>
            (events, s', Inl (if be_code source = ''cancelled'' then ExecCancelled else Backend p source))
        | Inr _ \<Rightarrow>
            let (events', s'', out) = run_phases i backend cancelled n commit' (k + 1) rest s' in
            (events @ [PhaseCompleted (k + 1) n p (r_end overall)] @ events', s'', out))"

definition execute_plan ::
  "install_intent \<Rightarrow> exec_context \<Rightarrow> 's backend \<Rightarrow> (nat \<Rightarrow> 's \<Rightarrow> bool) \<Rightarrow> 's \<Rightarrow>
    exec_event list \<times> 's \<times> (exec_error + exec_outcome)" where
  "execute_plan i c backend cancelled s =
     (case build_plan i c of
        Inl e \<Rightarrow> ([], s, Inl e)
      | Inr plan \<Rightarrow>
          let (events, s', out) = run_phases i backend cancelled (length plan) False 0
                (zip plan (progress_ranges i plan)) s in
          (Started (length plan) # events, s', out))"

text \<open>\<open>execute\<close>: a development build with the feature \<open>non-elevated-tests\<close> refuses to run.\<close>

definition execute ::
  "bool \<Rightarrow> install_intent \<Rightarrow> exec_context \<Rightarrow> 's backend \<Rightarrow> (nat \<Rightarrow> 's \<Rightarrow> bool) \<Rightarrow> 's \<Rightarrow>
    exec_event list \<times> 's \<times> (exec_error + exec_outcome)" where
  "execute non_elevated_tests i c backend cancelled s =
     (if non_elevated_tests then ([], s, Inl DevelopmentBuildDenied)
      else execute_plan i c backend cancelled s)"

subsection \<open>The plan as a table\<close>

text \<open>
  The reference for the plan: the phases of each route in their fixed order, and for each phase the
  condition under which it is needed.
\<close>

definition phase_order :: "install_route \<Rightarrow> phase list" where
  "phase_order r = [InspectBitLocker, AwaitBitLockerDecryption, VerifyPcaBeforeDiskWrite] @
     (case r of
        Direct \<Rightarrow> [ResolveStableTarget, ExportHostDrivers, RunDiskpartScripts, ResolveTargetAfterDiskpart,
          VerifySourceImage, PreparePreinstalledSoftware, FormatTarget, ApplyXpTextModeSource, ApplyGhostImage,
          ApplyWimImage, RepairBoot, ProcessDrivers, StageDirectPreinstalledSoftware, ApplyAdvancedOptions,
          FinishDirectInstall]
      | ViaPe \<Rightarrow> [VerifyPeEnvironment, PreparePreinstalledSoftware, SelectDataPartition,
          PersistPcaCompatibilityPackage, ExportDriversToPeData, VerifySourceImage, CopySourceImage,
          StagePreinstalledSoftware, StageUefiSeven, StageUserDrivers, WritePeInstallConfig, InstallPeBootEntry,
          ReadyToRebootIntoPe])"

fun phase_needed :: "install_intent \<Rightarrow> exec_context \<Rightarrow> phase \<Rightarrow> bool" where
  "phase_needed i c AwaitBitLockerDecryption = (ec_bitlocker c = AwaitDecryption)"
| "phase_needed i c VerifyPcaBeforeDiskWrite = opt_repair_boot (in_options i)"
| "phase_needed i c ExportHostDrivers = (opt_export_drivers (in_options i) \<and> \<not> opt_is_xp_i386 (in_options i))"
| "phase_needed i c RunDiskpartScripts = opt_run_diskpart_scripts (in_options i)"
| "phase_needed i c ResolveTargetAfterDiskpart = opt_run_diskpart_scripts (in_options i)"
| "phase_needed i c PreparePreinstalledSoftware =
     (preinstalled_software (opt_advanced (in_options i)) \<noteq> [] \<and> (in_route i = ViaPe \<or> \<not> in_running_in_pe i))"
| "phase_needed i c ApplyXpTextModeSource = opt_is_xp_i386 (in_options i)"
| "phase_needed i c ApplyGhostImage = (\<not> opt_is_xp_i386 (in_options i) \<and> in_is_gho i)"
| "phase_needed i c ApplyWimImage = (\<not> opt_is_xp_i386 (in_options i) \<and> \<not> in_is_gho i)"
| "phase_needed i c RepairBoot = (\<not> opt_is_xp_i386 (in_options i) \<and> opt_repair_boot (in_options i))"
| "phase_needed i c ProcessDrivers = (\<not> opt_is_xp_i386 (in_options i))"
| "phase_needed i c StageDirectPreinstalledSoftware =
     (\<not> opt_is_xp_i386 (in_options i) \<and> preinstalled_software (opt_advanced (in_options i)) \<noteq> [])"
| "phase_needed i c ApplyAdvancedOptions = (\<not> opt_is_xp_i386 (in_options i))"
| "phase_needed i c PersistPcaCompatibilityPackage = opt_repair_boot (in_options i)"
| "phase_needed i c ExportDriversToPeData = opt_export_drivers (in_options i)"
| "phase_needed i c StagePreinstalledSoftware = (preinstalled_software (opt_advanced (in_options i)) \<noteq> [])"
| "phase_needed i c StageUefiSeven = (opt_repair_boot (in_options i) \<and> win7_uefi_patch (opt_advanced (in_options i)))"
| "phase_needed i c _ = True"

lemma direct_phases_table:
  "in_route i = Direct \<Longrightarrow> append_direct_phases i ps = ps @ filter (phase_needed i c) (drop 3 (phase_order Direct))"
  by (simp add: append_direct_phases_def phase_order_def Let_def)

lemma via_pe_phases_table:
  "in_route i = ViaPe \<Longrightarrow> append_via_pe_phases i ps = ps @ filter (phase_needed i c) (drop 3 (phase_order ViaPe))"
  by (simp add: append_via_pe_phases_def phase_order_def Let_def)

lemma first_phases_table:
  "filter (phase_needed i c) (phase_order r) =
     [InspectBitLocker] @ (if ec_bitlocker c = AwaitDecryption then [AwaitBitLockerDecryption] else []) @
     (if opt_repair_boot (in_options i) then [VerifyPcaBeforeDiskWrite] else []) @
     filter (phase_needed i c) (drop 3 (phase_order r))"
  by (simp add: phase_order_def)

lemma build_plan_Inr:
  "build_plan i c = Inr plan \<longleftrightarrow>
     ec_bitlocker c \<noteq> UnlockRequired \<and> (in_route i = Direct \<longrightarrow> ec_stable_target c \<noteq> None) \<and>
     (opt_is_xp_i386 (in_options i) \<longrightarrow> opt_repair_boot (in_options i)) \<and>
     plan = filter (phase_needed i c) (phase_order (in_route i))"
  unfolding first_phases_table
  by (cases "in_route i")
    (auto simp: build_plan_def via_pe_phases_table [of _ _ c] direct_phases_table [of _ _ c] Let_def)

text \<open>The phases of an installation are those of the table, in its order: a plan is built exactly
  when no volume is locked, a direct installation has a captured target and the text-mode setup of
  the old system also prepares the boot, and then it is the list of the needed phases of its route.
\<close>

theorem plan_is_phase_table:
  "build_plan i c = Inr plan \<longleftrightarrow>
     ec_bitlocker c \<noteq> UnlockRequired \<and> \<not> (in_route i = Direct \<and> ec_stable_target c = None) \<and>
     \<not> (opt_is_xp_i386 (in_options i) \<and> \<not> opt_repair_boot (in_options i)) \<and>
     plan = filter (phase_needed i c) (phase_order (in_route i))"
  by (auto simp: build_plan_Inr)

text \<open>A phase comes before another one of the plan.\<close>

definition precedes :: "'a \<Rightarrow> 'a \<Rightarrow> 'a list \<Rightarrow> bool" where
  "precedes x y xs \<longleftrightarrow> (y \<in> set xs \<longrightarrow> x \<in> set (takeWhile (\<lambda>z. z \<noteq> y) xs))"

lemma precedes_filter:
  "precedes x y xs \<Longrightarrow> P x \<Longrightarrow> x \<noteq> y \<Longrightarrow> precedes x y (filter P xs)"
  unfolding precedes_def
  by (induction xs) (auto split: if_splits)

lemma via_pe_plan:
  assumes "in_route i = ViaPe"
  shows "set (filter (phase_needed i c) (phase_order (in_route i))) \<inter>
      {FormatTarget, ApplyXpTextModeSource, ApplyGhostImage, ApplyWimImage, RepairBoot} = {}"
    and "\<exists>staging. filter (phase_needed i c) (phase_order (in_route i)) = staging @ [InstallPeBootEntry, ReadyToRebootIntoPe] \<and>
      WritePeInstallConfig \<in> set staging \<and> VerifySourceImage \<in> set staging"
proof -
  show "set (filter (phase_needed i c) (phase_order (in_route i))) \<inter>
      {FormatTarget, ApplyXpTextModeSource, ApplyGhostImage, ApplyWimImage, RepairBoot} = {}"
    using assms by (auto simp: phase_order_def)
  have "filter (phase_needed i c) (phase_order (in_route i)) =
      filter (phase_needed i c) (take 14 (phase_order ViaPe)) @ [InstallPeBootEntry, ReadyToRebootIntoPe]"
    using assms by (simp add: phase_order_def)
  moreover have "WritePeInstallConfig \<in> set (filter (phase_needed i c) (take 14 (phase_order ViaPe)))"
    "VerifySourceImage \<in> set (filter (phase_needed i c) (take 14 (phase_order ViaPe)))"
    by (simp_all add: phase_order_def)
  ultimately show "\<exists>staging. filter (phase_needed i c) (phase_order (in_route i)) =
      staging @ [InstallPeBootEntry, ReadyToRebootIntoPe] \<and>
      WritePeInstallConfig \<in> set staging \<and> VerifySourceImage \<in> set staging"
    by blast
qed

text \<open>
  C6. What an accepted start runs. A plan runs no script for the partitioning tool. When the chosen
  partition holds the running Windows, or when personal files are kept, nothing is formatted and no
  image is applied before the restart: the plan only stages files and its last change of the machine
  is the entry that boots the installer. When the target is formatted, its identity has been resolved
  and the image has been verified before, and wanted drivers have been saved from it.
\<close>

theorem accepted_plan_is_safe:
  assumes "start_intent exe_dir s = Inr i" and "build_plan i c = Inr plan"
  shows "RunDiskpartScripts \<notin> set plan \<and>
    (in_is_system_partition i \<and> \<not> in_running_in_pe i \<or> preserve_personal_files (pr_advanced (is_prefs s)) \<longrightarrow>
       set plan \<inter> {FormatTarget, ApplyXpTextModeSource, ApplyGhostImage, ApplyWimImage, RepairBoot} = {} \<and>
       (\<exists>staging. plan = staging @ [InstallPeBootEntry, ReadyToRebootIntoPe] \<and>
          WritePeInstallConfig \<in> set staging \<and> VerifySourceImage \<in> set staging)) \<and>
    precedes VerifySourceImage FormatTarget plan \<and> precedes ResolveStableTarget FormatTarget plan \<and>
    (opt_export_drivers (in_options i) \<and> \<not> opt_is_xp_i386 (in_options i) \<longrightarrow>
       precedes ExportHostDrivers FormatTarget plan)"
proof -
  have plan: "plan = filter (phase_needed i c) (phase_order (in_route i))"
    using assms(2) by (simp add: build_plan_Inr)
  have via: "in_route i = ViaPe" if "in_is_system_partition i \<and> \<not> in_running_in_pe i \<or>
      preserve_personal_files (pr_advanced (is_prefs s))"
    using that started_route(1) [OF assms(1)] by (cases "in_route i") auto
  have scripts: "RunDiskpartScripts \<notin> set plan"
    using started_route(3) [OF assms(1)] by (simp add: plan)
  have drivers: "precedes ExportHostDrivers FormatTarget plan"
    if "opt_export_drivers (in_options i)" "\<not> opt_is_xp_i386 (in_options i)"
    using that unfolding plan by (cases "in_route i")
      (auto intro!: precedes_filter simp: precedes_def phase_order_def)
  have resolved: "precedes VerifySourceImage FormatTarget plan" "precedes ResolveStableTarget FormatTarget plan"
    unfolding plan by (cases "in_route i"; intro precedes_filter; simp add: precedes_def phase_order_def)+
  show ?thesis using scripts drivers resolved via_pe_plan [of i c] plan via by auto
qed

definition sample_context :: exec_context where
  "sample_context = \<lparr>ec_stable_target = Some \<lparr>st_disk_number = 1, st_partition_number = 1,
     st_disk_size = 137438953472, st_partition_offset = 1048576, st_partition_size = 68719476736,
     st_stable_volume = \<lparr>sv_extent = \<lparr>vi_disk = 1, vi_offset = 1048576, vi_length = 68719476736\<rparr>,
       sv_disk = MbrDisk 7, sv_partition = MbrPartition 1, sv_device_id = None\<rparr>\<rparr>,
     ec_bitlocker = BitLockerReady\<rparr>"

lemma sample_plan_built:
  obtains i where "start_intent ''C:'' sample_state = Inr i"
    and "build_plan i sample_context = Inr (filter (phase_needed i sample_context) (phase_order Direct))"
    and "in_route i = Direct"
proof -
  obtain i where i: "start_intent ''C:'' sample_state = Inr i" "in_route i = Direct"
    using sample_start by blast
  from start_intent_Inr [OF i(1)] obtain t where
    "in_options i = intent_options sample_state t (in_is_gho i) (is_xp_i386_source sample_state \<noteq> None)"
    by metis
  then have "opt_repair_boot (in_options i)"
    by (simp add: intent_options_def sample_state_def Let_def)
  then have "build_plan i sample_context = Inr (filter (phase_needed i sample_context) (phase_order Direct))"
    by (simp add: build_plan_Inr i(2) sample_context_def)
  with i that show thesis by blast
qed

theorem accepted_plan_is_safe_witness:
  "\<exists>i plan. start_intent ''C:'' sample_state = Inr i \<and> build_plan i sample_context = Inr plan \<and>
     FormatTarget \<in> set plan \<and> precedes VerifySourceImage FormatTarget plan \<and> RunDiskpartScripts \<notin> set plan"
proof -
  obtain i where i: "start_intent ''C:'' sample_state = Inr i"
    and plan: "build_plan i sample_context = Inr (filter (phase_needed i sample_context) (phase_order Direct))"
    using sample_plan_built by blast
  have "FormatTarget \<in> set (filter (phase_needed i sample_context) (phase_order Direct))"
    by (simp add: phase_order_def)
  then show ?thesis using accepted_plan_is_safe [OF i plan] i plan by blast
qed

subsection \<open>Progress\<close>

lemma unat_percent_of: "unat (percent_of a t) = min (min (unat a * 100) (2 ^ 32 - 1) div unat t) 100"
proof -
  have "unat (min (saturating_mul a 100 div t) (100 :: u32)) = min (unat (saturating_mul a 100) div unat t) 100"
    by (auto simp: min_def word_le_nat_alt unat_div_distrib)
  then show ?thesis
    by (simp add: percent_of_def unsigned_ucast_eq unat_saturating_mul take_bit_nat_def)
qed

lemma percent_of_mono: "unat a \<le> unat b \<Longrightarrow> percent_of a t \<le> percent_of b t"
  unfolding word_le_nat_alt unat_percent_of
  by (intro min.mono div_le_mono mult_le_mono1) simp_all

lemma percent_of_bounds: "percent_of a t \<le> 100" "percent_of 0 t = 0"
proof -
  show "percent_of a t \<le> 100" by (simp add: word_le_nat_alt unat_percent_of)
  have "unat (percent_of 0 t) = 0" by (simp add: unat_percent_of)
  then show "percent_of 0 t = 0" by (simp add: unat_eq_0)
qed

text \<open>Ranges that start at \<open>a\<close>, follow one another and end at 100.\<close>

fun tiles :: "u8 \<Rightarrow> progress_range list \<Rightarrow> bool" where
  "tiles a [] \<longleftrightarrow> a = 100"
| "tiles a (r # rs) \<longleftrightarrow> r_start r = a \<and> a \<le> r_end r \<and> r_end r \<le> 100 \<and> tiles (r_end r) rs"

lemma tiles_ranges_from:
  "ps \<noteq> [] \<Longrightarrow> tiles (percent_of w t) (ranges_from i t w ps)"
proof (induction ps arbitrary: w)
  case (Cons p ps)
  let ?w = "saturating_add w (ucast (estimated_weight i p))"
  have "percent_of w t \<le> percent_of ?w t"
    using unsigned_less [of w, where 'a = nat] by (intro percent_of_mono) (simp add: unat_saturating_add)
  with Cons.IH [of ?w] show ?case
    by (cases "ps = []") (simp_all add: percent_of_bounds Let_def)
qed simp

lemma length_ranges_from [simp]: "length (ranges_from i t w ps) = length ps"
  by (induction ps arbitrary: w) (simp_all add: Let_def)

lemma progress_ranges_tiles:
  "length (progress_ranges i plan) = length plan \<and> (plan \<noteq> [] \<longrightarrow> tiles 0 (progress_ranges i plan))"
  using tiles_ranges_from [of plan 0] by (simp add: progress_ranges_def percent_of_bounds)

lemma unat_range_map:
  assumes "r_start r \<le> r_end r" "r_end r \<le> 100"
  shows "unat (range_map r p) =
    unat (r_start r) + (unat (r_end r) - unat (r_start r)) * min (unat p) 100 div 100"
proof -
  let ?s = "unat (r_start r)" and ?e = "unat (r_end r)" and ?p = "min (unat p) 100"
  have b: "?s \<le> ?e" "?e \<le> 100" using assms by (simp_all add: word_le_nat_alt)
  have prod: "(?e - ?s) * ?p \<le> (?e - ?s) * 100" "(?e - ?s) * 100 \<le> 100 * 100"
    by (rule mult_le_mono; use b in simp)+
  have up: "unat (ucast (r_start r) :: u16) = ?s" "unat (ucast (min p 100) :: u16) = ?p"
    "unat (ucast (saturating_sub (r_end r) (r_start r)) :: u16) = ?e - ?s"
    using b by (simp_all add: unsigned_ucast_eq take_bit_nat_def unat_saturating_sub min_def word_le_nat_alt)
  have small: "(?e - ?s) * ?p < 65536" using prod b by linarith
  define x where "x = (ucast (saturating_sub (r_end r) (r_start r)) :: u16) * ucast (min p 100)"
  have x: "unat x = (?e - ?s) * ?p"
    using mod_less [OF small] by (simp add: x_def unat_word_ariths up)
  have le: "?s + (?e - ?s) * ?p div 100 \<le> ?e"
    using prod(1) b(1) div_le_mono [OF prod(1), of 100] by simp
  have "unat ((ucast (r_start r) :: u16) + x div 100) = ?s + (?e - ?s) * ?p div 100"
    using le b by (simp add: unat_word_ariths unat_div_distrib up x)
  then have "unat (min ((ucast (r_start r) :: u16) + x div 100) 100) = ?s + (?e - ?s) * ?p div 100"
    using le b by (simp add: min_def word_le_nat_alt)
  then show ?thesis
    using le b by (simp add: range_map_def Let_def x_def unsigned_ucast_eq take_bit_nat_def)
qed

lemma range_map_bounds:
  assumes "r_start r \<le> r_end r" "r_end r \<le> 100"
  shows "r_start r \<le> range_map r p" and "range_map r p \<le> r_end r"
    and "p \<le> q \<Longrightarrow> range_map r p \<le> range_map r q" and "range_map r 100 = r_end r"
proof -
  let ?d = "unat (r_end r) - unat (r_start r)"
  have d: "unat (r_start r) + ?d = unat (r_end r)" using assms by (simp add: word_le_nat_alt)
  have "?d * min (unat p) 100 div 100 \<le> ?d"
    using div_le_mono [of "?d * min (unat p) 100" "?d * 100" 100] by simp
  with d show "r_start r \<le> range_map r p" "range_map r p \<le> r_end r"
    by (simp_all add: word_le_nat_alt unat_range_map [OF assms])
  show "range_map r p \<le> range_map r q" if "p \<le> q"
    using that unfolding word_le_nat_alt unat_range_map [OF assms]
    by (intro add_left_mono div_le_mono mult_le_mono2) (simp add: min_def)
  show "range_map r 100 = r_end r"
    using d by (simp add: word_unat_eq_iff unat_range_map [OF assms])
qed

text \<open>What the progress page is told, in the order of the events, while \<open>r\<close> is the range in force.\<close>

fun shown :: "progress_range \<Rightarrow> exec_event list \<Rightarrow> u8 list" where
  "shown r [] = []"
| "shown r (Started _ # es) = 0 # shown r es"
| "shown r (PhaseStarted _ _ _ _ r' # es) = r_start r' # shown r' es"
| "shown r (Progressed _ percentage _ # es) = range_map r percentage # shown r es"
| "shown r (PhaseCompleted _ _ _ overall_end # es) = overall_end # shown r es"
| "shown r (Completed _ # es) = 100 # shown r es"

fun is_progress :: "exec_event \<Rightarrow> bool" where
  "is_progress (Progressed _ _ _) = True"
| "is_progress _ = False"

definition reports_progress_only :: "'s backend \<Rightarrow> bool" where
  "reports_progress_only backend \<longleftrightarrow> (\<forall>p s. list_all is_progress (fst (backend p s)))"

text \<open>Values that start at \<open>a\<close> or later, never fall and end at \<open>b\<close> or earlier.\<close>

fun climbs :: "u8 \<Rightarrow> u8 list \<Rightarrow> u8 \<Rightarrow> bool" where
  "climbs a [] b \<longleftrightarrow> a \<le> b"
| "climbs a (x # xs) b \<longleftrightarrow> a \<le> x \<and> climbs x xs b"

lemma climbs_append: "climbs a xs b \<Longrightarrow> climbs b ys c \<Longrightarrow> climbs a (xs @ ys) c"
proof (induction xs arbitrary: a)
  case Nil
  then show ?case by (cases ys) auto
qed auto

lemma climbs_sorted: "climbs a xs b \<Longrightarrow> sorted (a # xs @ [b])"
  by (induction xs arbitrary: a) (auto simp del: sorted_wrt.simps(2) simp: sorted2 sorted_wrt1)

lemma shown_phase_report:
  assumes "r_start r \<le> r_end r" "r_end r \<le> 100" "list_all is_progress es"
  shows "climbs (range_map r m) (shown r (phase_report p m es)) (r_end r)"
  using assms(3)
proof (induction es arbitrary: m)
  case Nil
  then show ?case by (simp add: range_map_bounds(2) [OF assms(1,2)])
next
  case (Cons e es)
  then show ?case by (cases e) (simp_all add: Let_def range_map_bounds(3) [OF assms(1,2)])
qed

lemma shown_append:
  "list_all is_progress es \<Longrightarrow> shown r (phase_report p m es @ es') = shown r (phase_report p m es) @ shown r es'"
proof (induction es arbitrary: m)
  case (Cons e es)
  then show ?case by (cases e) (simp_all add: Let_def)
qed simp

lemma tiles_le: "tiles a rs \<Longrightarrow> a \<le> 100"
  by (cases rs) auto

lemma run_phases_climbs:
  assumes "reports_progress_only backend" and "tiles a rs" and "length ps = length rs"
  shows "climbs a (shown r (fst (run_phases i backend cancelled n commit k (zip ps rs) s))) 100"
  using assms(2,3)
proof (induction rs arbitrary: ps a r commit k s)
  case Nil
  then show ?case by (simp add: Let_def split: install_route.splits)
next
  case (Cons overall rs)
  then obtain p ps' where ps: "ps = p # ps'" "length ps' = length rs" by (cases ps) auto
  have r: "r_start overall = a" "r_start overall \<le> r_end overall" "r_end overall \<le> 100" "tiles (r_end overall) rs"
    using Cons.prems by auto
  obtain raw s' result where call: "backend p s = (raw, s', result)" by (metis prod_cases3)
  have raw: "list_all is_progress raw"
    using assms(1) call by (metis reports_progress_only_def fst_conv)
  have zero: "range_map overall 0 = a"
    using r by (simp add: word_unat_eq_iff unat_range_map)
  have phase: "climbs a (shown overall (phase_report p 0 raw)) (r_end overall)"
    using shown_phase_report [OF r(2,3) raw, of 0 p] zero by simp
  show ?case
  proof (cases result)
    case (Inl source)
    have "climbs a (shown overall (phase_report p 0 raw)) 100"
      using climbs_append [OF phase, of "[]" 100] r(3) by simp
    with Inl call ps r tiles_le [OF Cons.prems(1)] show ?thesis by (simp add: Let_def)
  next
    case (Inr u)
    obtain ev s'' out where rest:
      "run_phases i backend cancelled n (enter_phase commit (in_route i) p) (k + 1) (zip ps' rs) s' = (ev, s'', out)"
      by (metis prod_cases3)
    have "climbs (r_end overall) (shown overall ev) 100"
      using Cons.IH [OF r(4) ps(2), of overall "enter_phase commit (in_route i) p" "k + 1" s'] rest by simp
    then have "climbs (r_end overall) (r_end overall # shown overall ev) 100" by simp
    from climbs_append [OF phase this] show ?thesis
      using Inr call ps r rest raw tiles_le [OF Cons.prems(1)] by (simp add: Let_def shown_append)
  qed
qed

lemma shown_last: "es \<noteq> [] \<Longrightarrow> last es = Completed x \<Longrightarrow> shown r es \<noteq> [] \<and> last (shown r es) = 100"
proof (induction es arbitrary: r)
  case (Cons e es)
  then show ?case by (cases "es = []"; cases e) simp_all
qed simp

lemma run_phases_last:
  "run_phases i backend cancelled n commit k ps s = (ev, s', Inr outcome) \<Longrightarrow> ev \<noteq> [] \<and> last ev = Completed outcome"
proof (induction ps arbitrary: commit k s ev)
  case (Cons a ps)
  then show ?case
    by (cases a) (auto simp: Let_def split: if_splits prod.splits sum.splits)
qed (auto simp: Let_def)

subsection \<open>The order of the phases\<close>

fun phases_started :: "exec_event list \<Rightarrow> phase list" where
  "phases_started [] = []"
| "phases_started (PhaseStarted _ _ p _ _ # es) = p # phases_started es"
| "phases_started (_ # es) = phases_started es"

fun phases_completed :: "exec_event list \<Rightarrow> phase list" where
  "phases_completed [] = []"
| "phases_completed (PhaseCompleted _ _ p _ # es) = p # phases_completed es"
| "phases_completed (_ # es) = phases_completed es"

lemma phases_of_report [simp]:
  "list_all is_progress es \<Longrightarrow> phases_started (phase_report p m es @ es') = phases_started es'"
  "list_all is_progress es \<Longrightarrow> phases_completed (phase_report p m es @ es') = phases_completed es'"
proof (induction es arbitrary: m)
  case (Cons e es)
  {
    case 1
    with Cons show ?case by (cases e) (simp_all add: Let_def)
  next
    case 2
    with Cons show ?case by (cases e) (simp_all add: Let_def)
  }
qed simp_all

lemmas phases_of_report_only [simp] =
  phases_of_report [where es' = "[]", simplified]

text \<open>
  How an execution may stop: after the whole plan with the outcome of its route; before a phase, with
  all started phases completed, by a cancellation while the commit has not begun; or in a phase that
  is the first one not completed, by its failure or by a cancellation the backend reports.
\<close>

definition stops_in_order ::
  "install_route \<Rightarrow> bool \<Rightarrow> phase list \<Rightarrow> phase list \<Rightarrow> phase list \<Rightarrow> exec_error + exec_outcome \<Rightarrow> bool" where
  "stops_in_order mode commit plan begun completed out =
     (case out of
        Inr outcome \<Rightarrow> begun = plan \<and> completed = plan \<and>
          outcome = (if mode = Direct then DirectInstallCompleted else ReadyForPe)
      | Inl e \<Rightarrow>
          (e = ExecCancelled \<and> completed = begun \<and> (\<exists>p rest. plan = begun @ p # rest) \<and>
             \<not> commit \<and> \<not> (mode = ViaPe \<and> WritePeInstallConfig \<in> set begun)) \<or>
          (\<exists>p rest. plan = completed @ p # rest \<and> begun = completed @ [p] \<and>
             (e = ExecCancelled \<or> (\<exists>source. e = Backend p source \<and> be_code source \<noteq> ''cancelled''))))"

lemma stops_in_order_step:
  "stops_in_order mode (enter_phase commit mode p) plan begun completed out \<Longrightarrow>
   stops_in_order mode commit (p # plan) (p # begun) (p # completed) out"
  unfolding stops_in_order_def enter_phase_def
  by (auto split: sum.splits if_splits)

lemma run_phases_in_order:
  assumes "reports_progress_only backend" and "length ps = length rs"
  shows "case run_phases i backend cancelled n commit k (zip ps rs) s of (ev, s', out) \<Rightarrow>
    stops_in_order (in_route i) commit ps (phases_started ev) (phases_completed ev) out"
  using assms(2)
proof (induction ps arbitrary: rs commit k s)
  case Nil
  then show ?case by (simp add: stops_in_order_def Let_def split: install_route.splits)
next
  case (Cons p ps)
  then obtain r rs' where rs: "rs = r # rs'" "length ps = length rs'" by (cases rs) auto
  obtain raw s' result where call: "backend p s = (raw, s', result)" by (metis prod_cases3)
  have raw: "list_all is_progress raw"
    using assms(1) call by (metis reports_progress_only_def fst_conv)
  obtain ev s'' out where rest:
    "run_phases i backend cancelled n (enter_phase commit (in_route i) p) (k + 1) (zip ps rs') s' = (ev, s'', out)"
    by (metis prod_cases3)
  have ih: "stops_in_order (in_route i) (enter_phase commit (in_route i) p) ps (phases_started ev) (phases_completed ev) out"
    using Cons.IH [OF rs(2), of "enter_phase commit (in_route i) p" "k + 1" s'] rest by simp
  show ?case
  proof (cases "should_honor_cancellation commit (cancelled k s)")
    case True
    then show ?thesis by (simp add: rs stops_in_order_def should_honor_cancellation_def)
  next
    case False
    show ?thesis
    proof (cases result)
      case (Inl source)
      with False call raw rs(1) show ?thesis by (simp add: Let_def stops_in_order_def)
    next
      case (Inr u)
      with False call raw rs(1) rest stops_in_order_step [OF ih] show ?thesis by (simp add: Let_def)
    qed
  qed
qed

lemma execute_plan_Inr:
  assumes "build_plan i c = Inr plan"
  shows "execute_plan i c backend cancelled s =
    (let (events, s', out) = run_phases i backend cancelled (length plan) False 0 (zip plan (progress_ranges i plan)) s in
     (Started (length plan) # events, s', out))"
  by (simp add: execute_plan_def assms)

text \<open>
  C7. How an execution proceeds, whatever the backend does and whenever the cancellation flag is
  raised. The phases that are started are a prefix of the plan, in its order; the run succeeds
  exactly when all of them completed; a failure names the phase that was running; and on the way
  through the boot environment no cancellation stops the run between two phases once the writing of
  its configuration has begun.
\<close>

theorem execution_in_order:
  assumes "reports_progress_only backend" and "build_plan i c = Inr plan"
    and "execute_plan i c backend cancelled s = (events, s', out)"
  shows "stops_in_order (in_route i) False plan (phases_started events) (phases_completed events) out \<and>
    (\<exists>rest. plan = phases_started events @ rest) \<and>
    ((\<exists>outcome. out = Inr outcome) \<longleftrightarrow> phases_completed events = plan)"
proof -
  have "stops_in_order (in_route i) False plan (phases_started events) (phases_completed events) out"
    using run_phases_in_order [OF assms(1), where ps = plan and rs = "progress_ranges i plan" and i = i
      and cancelled = cancelled and n = "length plan" and commit = False and k = 0 and s = s]
      assms(3) progress_ranges_tiles [of i plan]
    by (auto simp: execute_plan_Inr [OF assms(2)] split: prod.splits)
  then show ?thesis
    unfolding stops_in_order_def by (auto split: sum.splits)
qed

text \<open>A backend that reports half of each phase and counts the phases; the fifth one fails.\<close>

definition sample_backend :: "nat backend" where
  "sample_backend p s = ([Progressed p 50 ''half''], s + 1,
     if s = 4 then Inl \<lparr>be_code = ''io'', be_detail = []\<rparr> else Inr ())"

lemma sample_backend_reports: "reports_progress_only sample_backend"
  by (simp add: reports_progress_only_def sample_backend_def)

theorem execution_in_order_witness:
  "\<exists>i plan events s' out. build_plan i sample_context = Inr plan \<and>
     execute_plan i sample_context sample_backend (\<lambda>k s. k = 3) 0 = (events, s', out) \<and>
     (\<exists>rest. plan = phases_started events @ rest) \<and>
     ((\<exists>outcome. out = Inr outcome) \<longleftrightarrow> phases_completed events = plan)"
proof -
  obtain i plan where plan: "build_plan i sample_context = Inr plan" using sample_plan_built by metis
  obtain events s' out where
    run: "execute_plan i sample_context sample_backend (\<lambda>k s. k = 3) 0 = (events, s', out)"
    by (metis prod_cases3)
  from execution_in_order [OF sample_backend_reports plan run] plan run show ?thesis by blast
qed

text \<open>The progress that is shown while an installation runs never falls and ends at 100 percent:
  the values of all events together, each mapped into the range of its phase, form a sorted list
  of numbers up to 100.
\<close>

theorem shown_progress_never_falls:
  assumes "reports_progress_only backend" and "execute_plan i c backend cancelled s = (events, s', out)"
  shows "sorted (shown r events) \<and> list_all (\<lambda>v. v \<le> 100) (shown r events) \<and>
    (\<forall>outcome. out = Inr outcome \<longrightarrow> last (shown r events) = 100)"
proof (cases "build_plan i c")
  case (Inl e)
  with assms(2) show ?thesis by (auto simp: execute_plan_def)
next
  case (Inr plan)
  obtain ev where events: "events = Started (length plan) # ev"
    and ev: "run_phases i backend cancelled (length plan) False 0 (zip plan (progress_ranges i plan)) s = (ev, s', out)"
    using assms(2) by (auto simp: execute_plan_Inr [OF Inr] split: prod.splits)
  have "plan \<noteq> []" using Inr by (cases "in_route i") (auto simp: build_plan_Inr phase_order_def)
  with progress_ranges_tiles [of i plan] have "tiles 0 (progress_ranges i plan)" "length plan = length (progress_ranges i plan)"
    by auto
  from run_phases_climbs [OF assms(1) this, of r i cancelled "length plan" False 0 s]
  have climbs: "climbs 0 (shown r ev) 100" by (simp add: ev)
  from climbs_sorted [OF this] have sorted: "sorted (0 # shown r ev @ [100])" .
  moreover have "last (shown r events) = 100" if "out = Inr outcome" for outcome
    using run_phases_last ev that shown_last [of events outcome r] events by fastforce
  ultimately show ?thesis
    by (auto simp: events list_all_iff sorted_append)
qed

theorem shown_progress_never_falls_witness:
  "\<exists>i events s' out. execute_plan i sample_context sample_backend (\<lambda>k s. False) 0 = (events, s', out) \<and>
     sorted (shown \<lparr>r_start = 0, r_end = 0\<rparr> events)"
proof -
  obtain i where "start_intent ''C:'' sample_state = Inr i" using sample_plan_built by metis
  obtain events s' out where
    run: "execute_plan i sample_context sample_backend (\<lambda>k s. False) 0 = (events, s', out)"
    by (metis prod_cases3)
  from shown_progress_never_falls [OF sample_backend_reports run] run show ?thesis by blast
qed

end
