(* ===== verification/ConfigText.thy ===== *)
theory ConfigText
  imports Manifest InstallHandoff
begin

section \<open>Lines and fields of a configuration\<close>

text \<open>
  The configurations that cross the restart are lines of the form \<open>Key=Value\<close>, ended by a line feed or by a
  carriage return and a line feed, and are read through \<open>str::lines\<close>, \<open>trim\<close> and \<open>split_once\<close>. This theory has
  what the writers and readers of \<open>Backup\<close>, \<open>InstallConfig\<close> and \<open>ExpandConfig\<close> share: the lines of a written
  text, what trimming does to a line and to its value, and how Booleans and numbers are written and read.
\<close>

subsection \<open>Lines\<close>

definition lf_text :: "string list \<Rightarrow> string" where
  "lf_text ls = concat (map (\<lambda>l. l @ [LF]) ls)"

lemma str_lines_lf: "plain_line l \<Longrightarrow> str_lines (l @ LF # s) = l # str_lines s"
  by (simp add: str_lines_def split_on_line drop_cr_plain plain_line_def Let_def)

lemma str_lines_crlf: "plain_line l \<Longrightarrow> str_lines (l @ CR # LF # s) = l # str_lines s"
  using split_on_line [of LF "l @ [CR]" s]
  by (simp add: str_lines_def plain_line_def drop_cr_def Let_def)

lemma str_lines_crlf_text: "list_all plain_line ls \<Longrightarrow> str_lines (crlf_text ls @ s) = ls @ str_lines s"
  by (induction ls) (simp_all add: str_lines_crlf crlf_text_def)

lemma str_lines_lf_text:
  "list_all plain_line ls \<Longrightarrow> str_lines (concat (map (\<lambda>l. l @ [LF]) ls) @ s) = ls @ str_lines s"
  by (induction ls) (simp_all add: str_lines_lf)

lemma str_lines_Nil [simp]: "str_lines [] = []"
  by (simp add: str_lines_def)

lemma plain_line_append [simp]: "plain_line (a @ b) \<longleftrightarrow> plain_line a \<and> plain_line b"
  by (auto simp: plain_line_def)

lemma plain_line_Cons [simp]: "plain_line (c # l) \<longleftrightarrow> c \<noteq> CR \<and> c \<noteq> LF \<and> plain_line l"
  by (auto simp: plain_line_def)

lemma plain_line_Nil [simp]: "plain_line []"
  by (simp add: plain_line_def)

subsection \<open>Trimming a line\<close>

text \<open>Trimming leaves a line alone whose key begins with a letter and whose value is trimmed.\<close>

lemma trim_fixed:
  assumes "trim v = v"
  shows "ws_len True (rev v) = 0"
proof -
  have len: "length (trim_ws True (rev (trim_ws False v))) = length v"
    using arg_cong [OF assms, of length] by (simp add: trim_def)
  have "ws_len False v = 0"
    using trim_ws_shorter [of False v] length_trim_ws [of True "rev (trim_ws False v)"] len by fastforce
  then show ?thesis
    using trim_ws_shorter [of True "rev v"] len by (auto simp: trim_ws_stop)
qed

lemma ws_len_behind_sign:
  assumes "ws_len True r = 0" shows "ws_len True (r @ CHR ''='' # t) = 0"
  using assms
  by (cases r; cases "tl r"; cases "tl (tl r)"; cases t; cases "tl t")
    (auto simp: ws_len_def ws1_def ws2_def ws3_def split: if_splits)

definition pair_key :: "string \<Rightarrow> bool" where
  "pair_key k \<longleftrightarrow> k \<noteq> [] \<and> printable (hd k) \<and> printable (last k) \<and> hd k \<notin> set ''[#;'' \<and> CHR ''='' \<notin> set k"

lemma trim_line:
  assumes "pair_key k" and "trim v = v"
  shows "trim (line_of (k, v)) = line_of (k, v)"
proof -
  have "printable (hd (line_of (k, v)))"
    using assms(1) by (auto simp: pair_key_def line_of_def hd_append)
  then have "trim_ws False (line_of (k, v)) = line_of (k, v)"
    by (intro trim_ws_stop ws_len_printable) simp
  moreover have "trim_ws True (rev (line_of (k, v))) = rev (line_of (k, v))"
    using ws_len_behind_sign [OF trim_fixed [OF assms(2)], of "rev k"]
    by (intro trim_ws_stop) (simp add: line_of_def)
  ultimately show ?thesis by (simp add: trim_def)
qed

definition trim_end :: "string \<Rightarrow> string" where
  "trim_end v = rev (trim_ws True (rev v))"

lemma trim_by_ends: "trim v = trim_end (trim_ws False v)"
  by (simp add: trim_def trim_end_def)

lemma ws_len_before_sign: "ws_len True (r @ CHR ''='' # t) = ws_len True r"
  by (cases r; cases "tl r"; cases "tl (tl r)"; cases t; cases "tl t")
    (auto simp: ws_len_def ws1_def ws2_def ws3_def)

lemma ws_len_le: "ws_len b s \<le> length s"
  by (cases s) (auto simp: ws_len_def)

lemma trim_ws_before_sign: "trim_ws True (r @ CHR ''='' # t) = trim_ws True r @ CHR ''='' # t"
proof (induction "length r" arbitrary: r rule: less_induct)
  case less
  show ?case
  proof (cases "ws_len True r = 0")
    case True
    then show ?thesis by (simp add: trim_ws_stop ws_len_before_sign)
  next
    case False
    then have "length (drop (ws_len True r) r) < length r"
      using ws_len_le [of True r] by simp
    from less [OF this] False show ?thesis
      using ws_len_le [of True r] by (subst (1 2) trim_ws.simps) (simp add: ws_len_before_sign)
  qed
qed

lemma trim_pair:
  assumes "pair_key k"
  shows "trim (line_of (k, v)) = line_of (k, trim_end v)"
proof -
  have "printable (hd (line_of (k, v)))"
    using assms by (auto simp: pair_key_def line_of_def hd_append)
  then have "trim_ws False (line_of (k, v)) = line_of (k, v)"
    by (intro trim_ws_stop ws_len_printable) simp
  then show ?thesis
    by (simp add: trim_by_ends) (simp add: line_of_def trim_end_def trim_ws_before_sign)
qed

text \<open>The two ends of a string are trimmed independently of each other.\<close>

lemma ws_bounds:
  "ws1 a \<Longrightarrow> a < 128"
  "ws2 a b \<Longrightarrow> a = 194 \<and> 128 \<le> b \<and> b < 192"
  "ws3 a b c \<Longrightarrow> 225 \<le> a \<and> a \<le> 227 \<and> 128 \<le> b \<and> b < 192 \<and> 128 \<le> c \<and> c < 192"
  by (auto simp: ws1_def ws2_def ws3_def)

lemma ws_exclusive:
  "ws2 a b \<Longrightarrow> \<not> ws1 a \<and> \<not> ws1 b"
  "ws3 a b c \<Longrightarrow> \<not> ws1 a \<and> \<not> ws1 b \<and> \<not> ws1 c \<and> \<not> ws2 a b \<and> \<not> ws2 b c"
  by (auto dest!: ws_bounds)

text \<open>A white-space character: as many bytes as the first one announces.\<close>

definition white :: "string \<Rightarrow> bool" where
  "white w \<longleftrightarrow> w \<noteq> [] \<and> ws_len False w = length w"

lemma white_cases:
  assumes "white w"
  obtains a where "w = [a]" "ws1 (byte a)"
  | a b where "w = [a, b]" "ws2 (byte a) (byte b)"
  | a b c where "w = [a, b, c]" "ws3 (byte a) (byte b) (byte c)"
proof -
  have "length w \<le> 3" using assms by (auto simp: white_def ws_len_def split: if_splits)
  then consider a where "w = [a]" | a b where "w = [a, b]" | a b c where "w = [a, b, c]"
    using assms by (cases w; cases "tl w"; cases "tl (tl w)"; cases "tl (tl (tl w))") (auto simp: white_def)
  then show thesis
    using assms that by cases (auto simp: white_def ws_len_def split: if_splits)
qed

lemma white_front: "white w \<Longrightarrow> ws_len False (w @ x) = length w"
  by (erule white_cases) (auto simp: ws_len_def dest: ws_exclusive)

lemma white_back: "white w \<Longrightarrow> ws_len True (rev w @ x) = length w"
  by (erule white_cases) (auto simp: ws_len_def dest: ws_exclusive)

lemma front_white:
  assumes "ws_len False s \<noteq> 0"
  obtains w x where "white w" "s = w @ x"
proof -
  consider a x where "s = a # x" "ws1 (byte a)"
    | a b x where "s = a # b # x" "ws2 (byte a) (byte b)"
    | a b c x where "s = a # b # c # x" "ws3 (byte a) (byte b) (byte c)"
    using assms by (cases s; cases "tl s"; cases "tl (tl s)") (auto simp: ws_len_def split: if_splits)
  then show thesis
  proof cases
    case 1
    then show thesis by (intro that [of "[a]" x]) (auto simp: white_def ws_len_def)
  next
    case 2
    then show thesis by (intro that [of "[a, b]" x]) (auto simp: white_def ws_len_def dest: ws_exclusive)
  next
    case 3
    then show thesis by (intro that [of "[a, b, c]" x]) (auto simp: white_def ws_len_def dest: ws_exclusive)
  qed
qed

lemma back_white:
  assumes "ws_len True s \<noteq> 0"
  obtains w x where "white w" "s = rev w @ x"
proof -
  consider a x where "s = a # x" "ws1 (byte a)"
    | a b x where "s = b # a # x" "ws2 (byte a) (byte b)"
    | a b c x where "s = c # b # a # x" "ws3 (byte a) (byte b) (byte c)"
    using assms by (cases s; cases "tl s"; cases "tl (tl s)") (auto simp: ws_len_def split: if_splits)
  then show thesis
  proof cases
    case 1
    then show thesis by (intro that [of "[a]" x]) (auto simp: white_def ws_len_def)
  next
    case 2
    then show thesis by (intro that [of "[a, b]" x]) (auto simp: white_def ws_len_def dest: ws_exclusive)
  next
    case 3
    then show thesis by (intro that [of "[a, b, c]" x]) (auto simp: white_def ws_len_def dest: ws_exclusive)
  qed
qed

lemma trim_ws_white: "white w \<Longrightarrow> trim_ws True (rev w @ x) = trim_ws True x" "white w \<Longrightarrow> trim_ws False (w @ x) = trim_ws False x"
  using white_back [of w x] white_front [of w x]
  by (subst trim_ws.simps, simp add: white_def)+

text \<open>A white-space character does not begin inside another one.\<close>

lemma white_not_split:
  assumes "white w" and "white u" and "rev u @ x = r @ rev w" and "r \<noteq> []"
  shows "\<exists>z. r = rev u @ z"
  using assms
  by (elim white_cases; cases r; cases "tl r"; cases "tl (tl r)")
    (force dest: ws_exclusive ws_bounds)+

lemma trim_ws_end_white:
  assumes "white w"
  shows "trim_ws True (r @ rev w) = (if trim_ws True r = [] then [] else trim_ws True r @ rev w)"
proof (induction "length r" arbitrary: r rule: less_induct)
  case less
  have end_white: "trim_ws True (rev w) = []"
    using trim_ws_white(1) [OF assms, of "[]"] by (simp add: trim_ws_stop ws_len_def)
  show ?case
  proof (cases "ws_len True r = 0")
    case True
    have "ws_len True (r @ rev w) = 0" if nonempty: "r \<noteq> []"
    proof (rule ccontr)
      assume "ws_len True (r @ rev w) \<noteq> 0"
      then obtain u x where u: "white u" "r @ rev w = rev u @ x" by (rule back_white)
      then obtain z where "r = rev u @ z" using white_not_split [OF assms u(1) u(2) [symmetric] nonempty] by blast
      then show False using True white_back [OF u(1)] u(1) by (simp add: white_def)
    qed
    then show ?thesis using True end_white by (cases "r = []") (simp_all add: trim_ws_stop)
  next
    case False
    then obtain u x where u: "white u" "r = rev u @ x" by (rule back_white)
    then have "length x < length r" by (simp add: white_def)
    from less [OF this] show ?thesis using u by (simp add: trim_ws_white)
  qed
qed

lemma trim_end_white: "white w \<Longrightarrow> trim_end (w @ v) = (if trim_end v = [] then [] else w @ trim_end v)"
  using trim_ws_end_white [of w "rev v"] by (simp add: trim_end_def)

lemma trim_ends_commute: "trim_ws False (trim_end v) = trim_end (trim_ws False v)"
proof (induction "length v" arbitrary: v rule: less_induct)
  case less
  show ?case
  proof (cases "ws_len False v = 0")
    case True
    obtain q where "v = trim_end v @ q"
      using trim_ws_suffix [of "rev v" True] by (metis rev_append rev_rev_ident trim_end_def)
    then have "ws_len False (trim_end v) = 0" using True ws_len_prefix by metis
    then show ?thesis using True by (simp add: trim_ws_stop)
  next
    case False
    then obtain w u where w: "white w" "v = w @ u" by (rule front_white)
    then have "length u < length v" by (simp add: white_def)
    have "trim_ws False [] = []" by (simp add: trim_ws_stop ws_len_def)
    with less [OF \<open>length u < length v\<close>] show ?thesis
      using w by (cases "trim_end u = []") (simp_all add: trim_ws_white trim_end_white)
  qed
qed

lemma trim_trim_end [simp]: "trim (trim_end v) = trim v"
proof -
  have "trim_end (trim_end x) = trim_end x" for x
    by (simp add: trim_end_def trim_ws_stop trim_ws_done)
  then show ?thesis by (simp add: trim_by_ends trim_ends_commute)
qed

subsection \<open>Booleans and numbers\<close>

text \<open>\<open>{}\<close> of a \<open>bool\<close>, and \<open>str::parse\<close> for \<open>bool\<close> and the unsigned integers with \<open>unwrap_or\<close>.\<close>

definition show_bool :: "bool \<Rightarrow> string" where
  "show_bool b = (if b then ''true'' else ''false'')"

definition bool_of :: "string \<Rightarrow> bool option" where
  "bool_of v = (if v = ''true'' then Some True else if v = ''false'' then Some False else None)"

definition bool_or_false :: "string \<Rightarrow> bool" where
  "bool_or_false v = (case bool_of v of Some b \<Rightarrow> b | None \<Rightarrow> False)"

definition show_word :: "'a::len word \<Rightarrow> string" where
  "show_word n = show_nat (unat n)"

definition word_of :: "string \<Rightarrow> 'a::len word option" where
  "word_of v = map_option of_nat (parse_uint (2 ^ LENGTH('a)) v)"

definition word_or :: "'a::len word \<Rightarrow> string \<Rightarrow> 'a word" where
  "word_or d v = (case word_of v of Some n \<Rightarrow> n | None \<Rightarrow> d)"

lemma bool_of_show [simp]: "bool_of (show_bool b) = Some b" "bool_or_false (show_bool b) = b"
  by (simp_all add: bool_of_def show_bool_def bool_or_false_def)

lemma word_of_show [simp]: "word_of (show_word n) = Some n" "word_or d (show_word n) = n"
  using unat_bound [of n] by (simp_all add: word_of_def show_word_def word_or_def)

lemma show_word_printable [simp]: "list_all printable (show_word n)" "list_all printable (show_bool b)"
  by (simp_all add: show_word_def show_bool_def printable_def)

lemma trim_shown [simp]: "trim (show_word n) = show_word n" "trim (show_bool b) = show_bool b"
  by (simp_all add: trim_printable)

lemma plain_shown [simp]: "plain_line (show_word n)" "plain_line (show_bool b)"
  by (simp_all add: printable_line)

subsection \<open>Shared checks and facts\<close>

text \<open>\<open>validate_ini_value\<close>: a text that would break the line it is written on.\<close>

definition validate_ini_value :: "string \<times> string \<Rightarrow> string + unit" where
  "validate_ini_value fv = ensure (\<not> contains_any [CR, LF, NUL] (snd fv))
     (fst fv @ '' contains a line break or NUL character'')"

lemma distinct_by: "distinct (map f xs) \<Longrightarrow> distinct xs"
  by (simp add: distinct_map)

lemma and_then_Inr: "and_then r Inr = r"
  by (cases r) simp_all

lemma to_lower_idem [simp]: "to_lower (to_lower a) = to_lower a" "to_lower \<circ> to_lower = to_lower"
  by (auto simp: to_lower_def is_upper_def)

end
