(* ===== verification/Backup.thy ===== *)
theory Backup
  imports ConfigText InstallControl
begin

section \<open>The authorization of a backup\<close>

text \<open>
  \<open>backup_handoff.rs\<close>: what a backup that continues in the boot environment is allowed to do. It
  names its source and its destination volume by their canonical identity, the file relative to the
  destination, and whether the file is created, replaced or appended to. The configuration that
  carries it is written by \<open>serialize_backup_config\<close> of \<open>install_config.rs\<close> and read by
  \<open>parse_backup_payload\<close>. The texts of the standard library's number errors are one constant.
\<close>

definition BACKUP_HANDOFF_VERSION :: nat where "BACKUP_HANDOFF_VERSION = 2"

datatype backup_policy = CreateFile | ReplaceFile | AppendFile

record backup_base =
  bb_length :: u64
  bb_sha256 :: bytes

record backup_payload =
  bp_save_path :: string
  bp_name :: string
  bp_description :: string
  bp_source_partition :: string
  bp_incremental :: bool
  bp_format :: u8
  bp_swm_split_size :: u32
  bp_wim_engine :: u8
  bp_language :: string

record backup_handoff =
  bh_session :: string
  bh_source :: canonical_target
  bh_destination :: canonical_target
  bh_relative_path :: string
  bh_policy :: backup_policy
  bh_base :: "backup_base option"

fun policy_as_str :: "backup_policy \<Rightarrow> string" where
  "policy_as_str CreateFile = ''create''"
| "policy_as_str ReplaceFile = ''replace''"
| "policy_as_str AppendFile = ''append''"

definition policy_parse :: "string \<Rightarrow> string + backup_policy" where
  "policy_parse v =
     (if trim v = ''create'' then Inr CreateFile
      else if trim v = ''replace'' then Inr ReplaceFile
      else if trim v = ''append'' then Inr AppendFile
      else Inl (''invalid backup output policy: '' @ v))"

subsection \<open>Validation\<close>

definition validate_backup_session :: "string \<Rightarrow> string + unit" where
  "validate_backup_session v =
     (if v = [] \<or> 64 < length v \<or> \<not> list_all (\<lambda>c. is_hexdigit c \<or> c = CHR ''-'') v
      then Inl ''invalid backup SessionId'' else Inr ())"

definition is_reserved_device :: "string \<Rightarrow> bool" where
  "is_reserved_device stem \<longleftrightarrow>
     stem \<in> {''CON'', ''PRN'', ''AUX'', ''NUL'', ''CLOCK$'', ''CONIN$'', ''CONOUT$''} \<or>
     is_reserved_numbered_device stem"

definition validate_windows_file_component :: "string \<Rightarrow> string + unit" where
  "validate_windows_file_component v =
     (if v = [] \<or> ends_with_any [CHR '' '', CHR ''.''] v \<or> 255 < utf16_len v \<or>
         list_ex (\<lambda>c. byte c \<le> 0x1f \<or>
           c \<in> {CHR ''<'', CHR ''>'', CHR '':'', CHR 0x22, CHR ''/'', BACKSLASH, CHR ''|'', CHR ''?'', CHR ''*'', CHR ''=''}) v
      then Inl ''backup destination contains an invalid Windows path component''
      else if is_reserved_device (map to_upper (hd (split_on CHR ''.'' v)))
      then Inl ''backup destination uses a reserved DOS device name''
      else Inr ())"

text \<open>
  \<open>Path::components\<close> of a path on Windows, as far as the check looks: \<open>None\<close> stands for a prefix, a
  root, a leading dot or a parent, and a name for an ordinary component.
\<close>

definition relative_components :: "string \<Rightarrow> string option list" where
  "relative_components path =
     (case path of
        [] \<Rightarrow> []
      | c # r \<Rightarrow>
          if is_path_separator c \<or> (is_alpha c \<and> r \<noteq> [] \<and> hd r = CHR '':'') then [None]
          else
            (let ws = split_by is_path_separator path in
             (if hd ws = ''.'' then [None] else []) @
             map (\<lambda>w. if w = ''..'' then None else Some w) (filter (\<lambda>w. w \<noteq> [] \<and> w \<noteq> ''.'') ws)))"

definition validate_relative_output_path :: "string \<Rightarrow> string + unit" where
  "validate_relative_output_path path =
     (let cs = relative_components path in
      and_then (try_fold (\<lambda>_ c. case c of
          None \<Rightarrow> Inl ''backup destination must be a strict relative path''
        | Some v \<Rightarrow> validate_windows_file_component v) () cs) (\<lambda>_.
      ensure (cs \<noteq> []) ''backup destination relative path has no file name''))"

definition backup_validate :: "backup_handoff \<Rightarrow> string + unit" where
  "backup_validate h =
     and_then (validate_backup_session (bh_session h)) (\<lambda>_.
     and_then (validate_relative_output_path (bh_relative_path h)) (\<lambda>_.
     and_then (ensure (bh_source h \<noteq> bh_destination h)
       ''backup source and destination resolve to the same stable volume'') (\<lambda>_.
     (case (bh_policy h, bh_base h) of
        (CreateFile, None) \<Rightarrow> Inr ()
      | (CreateFile, Some _) \<Rightarrow> Inl ''create backup authorization must not contain a base file''
      | (_, Some b) \<Rightarrow> if 0 < bb_length b then Inr () else Inl ''replace/append backup base length must be non-zero''
      | (_, None) \<Rightarrow> Inl ''replace/append backup authorization requires a base file identity''))))"

subsection \<open>Writing\<close>

text \<open>The \<open>key=value\<close> pairs, in the order they are written.\<close>

definition volume_pairs :: "string \<Rightarrow> canonical_target \<Rightarrow> (string \<times> string) list" where
  "volume_pairs prefix t =
     [(prefix @ ''CanonicalVersion'', show_nat CANONICAL_TARGET_VERSION),
      (prefix @ ''LayoutSha256'', encode_hex (ct_layout_digest t))] @
     (case ct_device_id_hash t of None \<Rightarrow> [] | Some h \<Rightarrow> [(prefix @ ''StorageIdSha256'', encode_hex h)]) @
     [(prefix @ ''OffsetBytes'', show_u64 (ct_offset t)),
      (prefix @ ''LengthBytes'', show_u64 (ct_length t)),
      (prefix @ ''DiskStyle'', style_as_str (ct_style t)),
      (prefix @ ''GptPartitionId'', case ct_gpt_id t of None \<Rightarrow> ''none'' | Some i \<Rightarrow> encode_hex i)]"

definition serialize_volume :: "string \<Rightarrow> canonical_target \<Rightarrow> string" where
  "serialize_volume prefix t = crlf_text (map line_of (volume_pairs prefix t))"

definition base_pairs :: "backup_base option \<Rightarrow> (string \<times> string) list" where
  "base_pairs b = (case b of
     None \<Rightarrow> []
   | Some i \<Rightarrow> [(''BaseLengthBytes'', show_u64 (bb_length i)), (''BaseSha256'', encode_hex (bb_sha256 i))])"

definition handoff_pairs :: "backup_handoff \<Rightarrow> (string \<times> string) list" where
  "handoff_pairs h =
     [(''HandoffVersion'', show_nat BACKUP_HANDOFF_VERSION),
      (''SessionId'', bh_session h),
      (''OutputPolicy'', policy_as_str (bh_policy h)),
      (''DestinationRelativePath'', bh_relative_path h)] @ base_pairs (bh_base h)"

definition serialize_fields :: "backup_handoff \<Rightarrow> string + string" where
  "serialize_fields h =
     and_then (backup_validate h) (\<lambda>_.
     Inr (crlf_text (map line_of (handoff_pairs h)) @
       serialize_volume ''Source'' (bh_source h) @ serialize_volume ''Destination'' (bh_destination h)))"

definition payload_pairs :: "backup_payload \<Rightarrow> (string \<times> string) list" where
  "payload_pairs p =
     [(''SavePath'', bp_save_path p), (''Name'', bp_name p), (''Description'', bp_description p),
      (''SourcePartition'', bp_source_partition p),
      (''Incremental'', if bp_incremental p then ''true'' else ''false''),
      (''Format'', show_nat (unat (bp_format p))),
      (''SwmSplitSize'', show_nat (unat (bp_swm_split_size p))),
      (''WimEngine'', show_nat (unat (bp_wim_engine p))),
      (''Language'', bp_language p)]"

definition serialize_backup_config :: "backup_payload \<Rightarrow> backup_handoff \<Rightarrow> string + string" where
  "serialize_backup_config p h =
     and_then (serialize_fields h) (\<lambda>fs.
     Inr (''[Backup]'' @ [LF] @ concat (map (\<lambda>f. line_of f @ [LF]) (payload_pairs p)) @ fs @ [LF]))"

subsection \<open>Reading\<close>

definition REQUIRED_FIELDS :: "string list" where
  "REQUIRED_FIELDS = [''SavePath'', ''Name'', ''Description'', ''SourcePartition'', ''Incremental'', ''Format'',
     ''SwmSplitSize'', ''WimEngine'', ''Language'', ''HandoffVersion'', ''SessionId'', ''OutputPolicy'',
     ''DestinationRelativePath'', ''SourceCanonicalVersion'', ''SourceLayoutSha256'', ''SourceOffsetBytes'',
     ''SourceLengthBytes'', ''SourceDiskStyle'', ''SourceGptPartitionId'', ''DestinationCanonicalVersion'',
     ''DestinationLayoutSha256'', ''DestinationOffsetBytes'', ''DestinationLengthBytes'', ''DestinationDiskStyle'',
     ''DestinationGptPartitionId'']"

definition OPTIONAL_FIELDS :: "string list" where
  "OPTIONAL_FIELDS = [''SourceStorageIdSha256'', ''DestinationStorageIdSha256'', ''BaseLengthBytes'', ''BaseSha256'',
     ''HandoffManifestVersion'', ''HandoffManifestLength'', ''HandoffManifestSha256'']"

definition backup_line ::
  "(string \<times> string) list \<times> bool \<Rightarrow> string \<Rightarrow> string + ((string \<times> string) list \<times> bool)" where
  "backup_line st raw = (case st of (fs, saw_section) \<Rightarrow>
     (let line = trim raw in
      if line = [] then Inr (fs, saw_section)
      else if hd line = CHR ''['' then
        (if line \<noteq> ''[Backup]'' \<or> saw_section then Inl (''unknown or duplicate backup handoff section: '' @ line)
         else Inr (fs, True))
      else
        and_then (ok_or (split_once CHR ''='' line) (''invalid backup handoff line: '' @ line)) (\<lambda>(k, v).
        let key = trim k; value = trim v in
        and_then (ensure (key \<in> set (REQUIRED_FIELDS @ OPTIONAL_FIELDS)) (''unknown backup handoff field '' @ key)) (\<lambda>_.
        and_then (ensure (map_of fs key = None) (''duplicate backup handoff field '' @ key)) (\<lambda>_.
        Inr (fs @ [(key, value)], saw_section))))))"

definition require :: "(string \<times> string) list \<Rightarrow> string \<Rightarrow> string + string" where
  "require fs name = ok_or (map_of fs name) (''missing backup handoff field '' @ name)"

definition parse_strict_backup_fields :: "string \<Rightarrow> string + (string \<times> string) list" where
  "parse_strict_backup_fields content =
     and_then (try_fold backup_line ([], False) (str_lines content)) (\<lambda>(fs, saw_section).
     and_then (ensure saw_section ''missing [Backup] section'') (\<lambda>_.
     and_then (try_fold (\<lambda>_ k. and_then (require fs k) (\<lambda>_. Inr ())) () REQUIRED_FIELDS) (\<lambda>_.
     Inr fs)))"

definition number :: "nat \<Rightarrow> string \<Rightarrow> string + nat" where
  "number bound v = ok_or (parse_uint bound v) ''invalid number''"

definition parse_volume :: "string \<Rightarrow> (string \<times> string) list \<Rightarrow> string + canonical_target" where
  "parse_volume prefix fs =
     and_then (and_then (require fs (prefix @ ''CanonicalVersion'')) (number (2 ^ 8))) (\<lambda>version.
     and_then (and_then (require fs (prefix @ ''OffsetBytes'')) (number (2 ^ 64))) (\<lambda>off.
     and_then (and_then (require fs (prefix @ ''LengthBytes'')) (number (2 ^ 64))) (\<lambda>len.
     and_then (require fs (prefix @ ''LayoutSha256'')) (\<lambda>digest.
     and_then (require fs (prefix @ ''DiskStyle'')) (\<lambda>style.
     and_then (require fs (prefix @ ''GptPartitionId'')) (\<lambda>gpt.
     and_then (canonical_target_from_fields (Some version) (Some digest) (Some (of_nat off)) (Some (of_nat len))
       (Some style) (Some gpt) (map_of fs (prefix @ ''StorageIdSha256''))) (\<lambda>t.
     ok_or t ''backup handoff canonical volume is absent'')))))))"

definition parse_base :: "(string \<times> string) list \<Rightarrow> string + backup_base option" where
  "parse_base fs =
     (case (map_of fs ''BaseLengthBytes'', map_of fs ''BaseSha256'') of
        (None, None) \<Rightarrow> Inr None
      | (Some len, Some hash) \<Rightarrow>
          and_then (ok_or (parse_uint (2 ^ 64) len) ''invalid backup base length'') (\<lambda>n.
          and_then (map_err (\<lambda>_. ''invalid backup base SHA-256'') (decode_hex_array 32 hash ''BaseSha256'')) (\<lambda>h.
          Inr (Some \<lparr>bb_length = of_nat n, bb_sha256 = h\<rparr>)))
      | _ \<Rightarrow> Inl ''backup base identity fields must appear together'')"

definition parse_handoff_from_fields :: "(string \<times> string) list \<Rightarrow> string + backup_handoff" where
  "parse_handoff_from_fields fs =
     and_then (require fs ''HandoffVersion'') (\<lambda>v.
     and_then (ok_or (parse_uint (2 ^ 8) v) ''invalid backup handoff version'') (\<lambda>version.
     and_then (ensure (version = BACKUP_HANDOFF_VERSION)
       (''unsupported backup handoff version '' @ show_nat version)) (\<lambda>_.
     and_then (parse_volume ''Source'' fs) (\<lambda>source.
     and_then (parse_volume ''Destination'' fs) (\<lambda>destination.
     and_then (parse_base fs) (\<lambda>base.
     and_then (require fs ''SessionId'') (\<lambda>session.
     and_then (require fs ''DestinationRelativePath'') (\<lambda>path.
     and_then (and_then (require fs ''OutputPolicy'') policy_parse) (\<lambda>policy.
     let h = \<lparr>bh_session = session, bh_source = source, bh_destination = destination, bh_relative_path = path,
              bh_policy = policy, bh_base = base\<rparr> in
     and_then (backup_validate h) (\<lambda>_. Inr h))))))))))"

definition parse_fields :: "string \<Rightarrow> string + backup_handoff" where
  "parse_fields content = and_then (parse_strict_backup_fields content) parse_handoff_from_fields"

definition validate_text :: "string \<Rightarrow> nat \<Rightarrow> bool \<Rightarrow> string \<Rightarrow> string + unit" where
  "validate_text v maximum allow_empty field =
     ensure (\<not> ((\<not> allow_empty \<and> v = []) \<or> maximum < utf16_len v \<or> has_control v))
       (''invalid or oversized backup field '' @ field)"

definition parse_bool :: "string \<Rightarrow> string \<Rightarrow> string + bool" where
  "parse_bool name v = (if v = ''true'' then Inr True else if v = ''false'' then Inr False
     else Inl (''invalid '' @ name @ '' boolean: '' @ v))"

definition payload_consistent :: "bool \<Rightarrow> backup_policy \<Rightarrow> bool" where
  "payload_consistent incremental policy \<longleftrightarrow> incremental = (policy = AppendFile)"

definition parse_backup_payload :: "string \<Rightarrow> string + (backup_payload \<times> backup_handoff)" where
  "parse_backup_payload content =
     and_then (ensure (\<not> 128 * 1024 < length content) ''backup handoff exceeds its byte limit'') (\<lambda>_.
     and_then (parse_strict_backup_fields content) (\<lambda>fs.
     and_then (require fs ''SavePath'') (\<lambda>save_path.
     and_then (require fs ''Name'') (\<lambda>name.
     and_then (require fs ''Description'') (\<lambda>description.
     and_then (require fs ''SourcePartition'') (\<lambda>source_partition.
     and_then (require fs ''Language'') (\<lambda>language.
     and_then (validate_text save_path 32767 False ''SavePath'') (\<lambda>_.
     and_then (validate_text name 256 False ''Name'') (\<lambda>_.
     and_then (validate_text description 2048 True ''Description'') (\<lambda>_.
     and_then (validate_text language 32 False ''Language'') (\<lambda>_.
     and_then (ensure (length source_partition = 2 \<and> is_alpha (source_partition ! 0) \<and> source_partition ! 1 = CHR '':'')
       ''SourcePartition must be one local drive letter'') (\<lambda>_.
     and_then (and_then (require fs ''Incremental'') (parse_bool ''Incremental'')) (\<lambda>incremental.
     and_then (require fs ''Format'') (\<lambda>v.
     and_then (ok_or (parse_uint (2 ^ 8) v) ''invalid backup Format'') (\<lambda>format.
     and_then (ensure (format \<le> 1) ''LRBK2 currently supports only WIM/ESD format values 0 and 1'') (\<lambda>_.
     and_then (require fs ''SwmSplitSize'') (\<lambda>v.
     and_then (ok_or (parse_uint (2 ^ 32) v) ''invalid SwmSplitSize'') (\<lambda>split_size.
     and_then (ensure (512 \<le> split_size \<and> split_size \<le> 8192) ''SwmSplitSize is outside the canonical range'') (\<lambda>_.
     and_then (require fs ''WimEngine'') (\<lambda>v.
     and_then (ok_or (parse_uint (2 ^ 8) v) ''invalid WimEngine'') (\<lambda>engine.
     and_then (ensure (\<not> 1 < engine) ''unsupported WimEngine'') (\<lambda>_.
     and_then (parse_handoff_from_fields fs) (\<lambda>h.
     and_then (ensure (payload_consistent incremental (bh_policy h))
       ''Incremental and OutputPolicy are inconsistent'') (\<lambda>_.
     Inr (\<lparr>bp_save_path = save_path, bp_name = name, bp_description = description,
           bp_source_partition = source_partition, bp_incremental = incremental, bp_format = of_nat format,
           bp_swm_split_size = of_nat split_size, bp_wim_engine = of_nat engine, bp_language = language\<rparr>, h)
     ))))))))))))))))))))))))"

subsection \<open>The marker and the volumes\<close>

definition bind_unique_backup_volumes ::
  "(bytes \<Rightarrow> bytes) \<Rightarrow> backup_handoff \<Rightarrow> (u32 \<times> disk_snapshot) list \<Rightarrow> string + (u32 \<times> u32)" where
  "bind_unique_backup_volumes sha h candidates =
     and_then (backup_validate h) (\<lambda>_.
     and_then (map_err (\<lambda>_. ''rebind backup source'') (unique_canonical_target_match sha (bh_source h) candidates)) (\<lambda>source.
     and_then (map_err (\<lambda>_. ''rebind backup destination'')
       (unique_canonical_target_match sha (bh_destination h) candidates)) (\<lambda>destination.
     if source = destination \<and> ct_offset (bh_source h) = ct_offset (bh_destination h)
     then Inl ''backup source and destination rebound to the same physical volume''
     else Inr (source, destination))))"

definition backup_marker_text :: "(bytes \<Rightarrow> bytes) \<Rightarrow> string \<Rightarrow> bytes \<Rightarrow> string + string" where
  "backup_marker_text sha session config =
     and_then (validate_backup_session session) (\<lambda>_.
     Inr (crlf_text [''LRBK2'', ''SessionId='' @ session, ''ConfigSha256='' @ encode_hex (sha config)]))"

text \<open>\<open>replace('\n', "\r\n").replace("\r\r\n", "\r\n")\<close>.\<close>

fun lf_to_crlf :: "string \<Rightarrow> string" where
  "lf_to_crlf [] = []"
| "lf_to_crlf (c # cs) = (if c = LF then CR # LF # lf_to_crlf cs else c # lf_to_crlf cs)"

fun collapse_cr :: "string \<Rightarrow> string" where
  "collapse_cr (a # b # c # r) =
     (if a = CR \<and> b = CR \<and> c = LF then CR # LF # collapse_cr r else a # collapse_cr (b # c # r))"
| "collapse_cr s = s"

definition backup_validate_marker :: "(bytes \<Rightarrow> bytes) \<Rightarrow> string \<Rightarrow> backup_handoff \<Rightarrow> bytes \<Rightarrow> string + unit" where
  "backup_validate_marker sha marker h config =
     and_then (ensure (map_option trim (case str_lines marker of [] \<Rightarrow> None | l # _ \<Rightarrow> Some l) = Some ''LRBK2'')
       ''invalid backup marker version'') (\<lambda>_.
     and_then (backup_marker_text sha (bh_session h) config) (\<lambda>expected.
     ensure (collapse_cr (lf_to_crlf marker) = expected)
       ''backup marker does not match the exact session/configuration''))"

definition backup_marker_session :: "string \<Rightarrow> string + string" where
  "backup_marker_session marker =
     (let ls = map trim (str_lines marker) in
      and_then (ensure (ls \<noteq> [] \<and> hd ls = ''LRBK2'') ''invalid backup marker version'') (\<lambda>_.
      and_then (ok_or (case tl ls of [] \<Rightarrow> None | l # _ \<Rightarrow> strip_prefix ''SessionId='' l)
        ''backup marker is missing SessionId'') (\<lambda>session.
      and_then (validate_backup_session session) (\<lambda>_.
      and_then (ok_or (case drop 2 ls of [] \<Rightarrow> None | l # _ \<Rightarrow> strip_prefix ''ConfigSha256='' l)
        ''backup marker is missing ConfigSha256'') (\<lambda>hash.
      and_then (decode_hex_array 32 hash ''ConfigSha256'') (\<lambda>_.
      and_then (ensure (drop 3 ls = []) ''backup marker has trailing fields'') (\<lambda>_.
      Inr session)))))))"

subsection \<open>The pairs of a configuration\<close>

lemma known_keys: "list_all pair_key (REQUIRED_FIELDS @ OPTIONAL_FIELDS)"
  by (simp add: REQUIRED_FIELDS_def OPTIONAL_FIELDS_def pair_key_def printable_def)

lemma backup_line_pair:
  assumes "k \<in> set (REQUIRED_FIELDS @ OPTIONAL_FIELDS)" and "trim v = v" and "k \<notin> fst ` set fs"
  shows "backup_line (fs, saw) (line_of (k, v)) = Inr (fs @ [(k, v)], saw)"
proof -
  have k: "pair_key k" using assms(1) known_keys by (simp only: list_all_iff)
  then have sign: "CHR ''='' \<notin> set k" and head: "hd (k @ CHR ''='' # v) \<noteq> CHR ''[''"
    by (auto simp: pair_key_def)
  have key: "trim k = k"
    using k by (intro trim_id) (simp add: pair_key_def)
  have "map_of fs k = None" using assms(3) by (simp add: map_of_eq_None_iff)
  then show ?thesis
    using split_once_append [OF sign, of v] head trim_line [OF k assms(2)] assms(1,2) key
    by (simp add: backup_line_def line_of_def Let_def)
qed

lemma backup_lines_pairs:
  assumes "list_all (\<lambda>(k, v). k \<in> set (REQUIRED_FIELDS @ OPTIONAL_FIELDS) \<and> trim v = v) ps"
    and "distinct (map fst (fs @ ps))"
  shows "try_fold backup_line (fs, saw) (map line_of ps) = Inr (fs @ ps, saw)"
  using assms
proof (induction ps arbitrary: fs)
  case (Cons f ps)
  obtain k v where f: "f = (k, v)" by fastforce
  have "backup_line (fs, saw) (line_of (k, v)) = Inr (fs @ [(k, v)], saw)"
    using Cons.prems by (intro backup_line_pair) (auto simp: f)
  with Cons show ?case by (simp add: f)
qed simp

subsection \<open>Reading back what was written\<close>

definition volume_ok :: "canonical_target \<Rightarrow> bool" where
  "volume_ok t \<longleftrightarrow> length (ct_layout_digest t) = 32 \<and> 0 < ct_length t \<and>
     (case ct_device_id_hash t of None \<Rightarrow> True | Some h \<Rightarrow> length h = 32) \<and>
     (case ct_gpt_id t of None \<Rightarrow> ct_style t = MbrStyle | Some i \<Rightarrow> ct_style t = GptStyle \<and> length i = 16)"

definition base_ok :: "backup_base option \<Rightarrow> bool" where
  "base_ok b \<longleftrightarrow> (case b of None \<Rightarrow> True | Some i \<Rightarrow> length (bb_sha256 i) = 32)"

definition text_ok :: "nat \<Rightarrow> string \<Rightarrow> bool" where
  "text_ok maximum v \<longleftrightarrow> trim v = v \<and> plain_line v \<and> utf16_len v \<le> maximum \<and> \<not> has_control v"

definition payload_ok :: "backup_payload \<Rightarrow> bool" where
  "payload_ok p \<longleftrightarrow>
     text_ok 32767 (bp_save_path p) \<and> bp_save_path p \<noteq> [] \<and> text_ok 256 (bp_name p) \<and> bp_name p \<noteq> [] \<and>
     text_ok 2048 (bp_description p) \<and> text_ok 32 (bp_language p) \<and> bp_language p \<noteq> [] \<and>
     (\<exists>c. is_alpha c \<and> bp_source_partition p = [c, CHR '':'']) \<and>
     bp_format p \<le> 1 \<and> 512 \<le> bp_swm_split_size p \<and> bp_swm_split_size p \<le> 8192 \<and> bp_wim_engine p \<le> 1"

lemma decode_encode [simp]: "length b = n \<Longrightarrow> decode_hex_array n (encode_hex b) f = Inr b"
  by (rule array_codec.parse_print)

lemma parse_uint_u64 [simp]: "parse_uint 18446744073709551616 (show_u64 n) = Some (unat n)"
  using unat_bound [of n] by (simp add: show_u64_def)

lemma parse_volume_pairs:
  assumes "volume_ok t"
    and "\<And>k v. (k, v) \<in> set (volume_pairs prefix t) \<Longrightarrow> map_of fs k = Some v"
    and "ct_device_id_hash t = None \<Longrightarrow> map_of fs (prefix @ ''StorageIdSha256'') = None"
  shows "parse_volume prefix fs = Inr t"
proof -
  have look: "map_of fs (prefix @ ''CanonicalVersion'') = Some (show_nat 2)"
    "map_of fs (prefix @ ''OffsetBytes'') = Some (show_u64 (ct_offset t))"
    "map_of fs (prefix @ ''LengthBytes'') = Some (show_u64 (ct_length t))"
    "map_of fs (prefix @ ''LayoutSha256'') = Some (encode_hex (ct_layout_digest t))"
    "map_of fs (prefix @ ''DiskStyle'') = Some (style_as_str (ct_style t))"
    "map_of fs (prefix @ ''GptPartitionId'') = Some (case ct_gpt_id t of None \<Rightarrow> ''none'' | Some i \<Rightarrow> encode_hex i)"
    by (rule assms(2), simp add: volume_pairs_def CANONICAL_TARGET_VERSION_def)+
  have device: "map_of fs (prefix @ ''StorageIdSha256'') = map_option encode_hex (ct_device_id_hash t)"
    using assms(3) by (cases "ct_device_id_hash t") (auto intro!: assms(2) simp: volume_pairs_def)
  have style: "style_parse (style_as_str (ct_style t)) = Inr (ct_style t)"
    by (rule style_codec.parse_print) simp
  have "ct_length t \<noteq> 0" using assms(1) by (auto simp: volume_ok_def)
  with assms(1) look device style show ?thesis
    by (cases "ct_gpt_id t"; cases "ct_device_id_hash t"; cases "ct_style t")
      (simp_all add: parse_volume_def require_def number_def canonical_target_from_fields_def
        CANONICAL_TARGET_VERSION_def volume_ok_def)
qed

lemma parse_base_pairs:
  assumes "base_ok b" and "\<And>k v. (k, v) \<in> set (base_pairs b) \<Longrightarrow> map_of fs k = Some v"
    and "b = None \<Longrightarrow> map_of fs ''BaseLengthBytes'' = None \<and> map_of fs ''BaseSha256'' = None"
  shows "parse_base fs = Inr b"
proof (cases b)
  case None
  then show ?thesis using assms(3) by (simp add: parse_base_def)
next
  case (Some i)
  have "map_of fs ''BaseLengthBytes'' = Some (show_u64 (bb_length i))" "map_of fs ''BaseSha256'' = Some (encode_hex (bb_sha256 i))"
    by (rule assms(2), simp add: base_pairs_def Some)+
  then show ?thesis using assms(1) by (simp add: parse_base_def base_ok_def Some)
qed

lemma policy_parse_str: "policy_parse (policy_as_str p) = Inr p"
proof -
  have "trim (policy_as_str p) = policy_as_str p"
    by (cases p) (simp_all add: trim_id printable_def)
  then show ?thesis by (cases p) (simp_all add: policy_parse_def)
qed

interpretation policy_codec: text_codec policy_as_str policy_parse "\<lambda>_. True"
proof
  fix p
  show "policy_parse (policy_as_str p) = Inr p" by (rule policy_parse_str)
  show "list_all printable (policy_as_str p)" by (cases p) (simp_all add: printable_def)
qed

text \<open>All pairs of a configuration; their keys are known and no key occurs twice.\<close>

definition all_pairs :: "backup_payload \<Rightarrow> backup_handoff \<Rightarrow> (string \<times> string) list" where
  "all_pairs p h = payload_pairs p @ handoff_pairs h @
     volume_pairs ''Source'' (bh_source h) @ volume_pairs ''Destination'' (bh_destination h)"

text \<open>With both storage identities and a base file every key occurs; without them fewer do.\<close>

definition written_keys :: "bool \<Rightarrow> bool \<Rightarrow> bool \<Rightarrow> string list" where
  "written_keys base src dst = filter (\<lambda>k.
     (k \<in> {''BaseLengthBytes'', ''BaseSha256''} \<longrightarrow> base) \<and> (k = ''SourceStorageIdSha256'' \<longrightarrow> src) \<and>
     (k = ''DestinationStorageIdSha256'' \<longrightarrow> dst))
     (take 13 REQUIRED_FIELDS @ [''BaseLengthBytes'', ''BaseSha256''] @
      take 2 (drop 13 REQUIRED_FIELDS) @ [''SourceStorageIdSha256''] @ take 4 (drop 15 REQUIRED_FIELDS) @
      take 2 (drop 19 REQUIRED_FIELDS) @ [''DestinationStorageIdSha256''] @ drop 21 REQUIRED_FIELDS)"

lemma all_pairs_written:
  "map fst (all_pairs p h) = written_keys (bh_base h \<noteq> None) (ct_device_id_hash (bh_source h) \<noteq> None)
     (ct_device_id_hash (bh_destination h) \<noteq> None)"
  by (cases "bh_base h"; cases "ct_device_id_hash (bh_source h)"; cases "ct_device_id_hash (bh_destination h)";
      simp add: all_pairs_def payload_pairs_def handoff_pairs_def base_pairs_def volume_pairs_def
        REQUIRED_FIELDS_def written_keys_def)

lemma written_keys_distinct: "distinct (written_keys base src dst)"
  unfolding written_keys_def by (rule distinct_filter) (simp add: REQUIRED_FIELDS_def)

lemma written_keys_known:
  "set (written_keys base src dst) \<subseteq> set (REQUIRED_FIELDS @ OPTIONAL_FIELDS)"
proof -
  have parts: "set (take n (drop m REQUIRED_FIELDS)) \<subseteq> set REQUIRED_FIELDS" for n m
    by (meson set_drop_subset set_take_subset order_trans)
  show ?thesis
    unfolding written_keys_def
    using parts [of 13 0] parts [of 2 13] parts [of 4 15] parts [of 2 19] set_drop_subset [of 21 REQUIRED_FIELDS]
    by (auto simp: OPTIONAL_FIELDS_def)
qed

lemma required_written: "list_all (\<lambda>k. k \<in> set (written_keys base src dst)) REQUIRED_FIELDS"
proof -
  have split: "REQUIRED_FIELDS = take 13 REQUIRED_FIELDS @ take 2 (drop 13 REQUIRED_FIELDS) @
      take 4 (drop 15 REQUIRED_FIELDS) @ take 2 (drop 19 REQUIRED_FIELDS) @ drop 21 REQUIRED_FIELDS"
    by (simp add: REQUIRED_FIELDS_def)
  have "list_all (\<lambda>k. k \<notin> {''BaseLengthBytes'', ''BaseSha256'', ''SourceStorageIdSha256'',
      ''DestinationStorageIdSha256''}) REQUIRED_FIELDS"
    by (simp add: REQUIRED_FIELDS_def)
  then show ?thesis
    unfolding list_all_iff written_keys_def
  proof (intro ballI)
    fix k
    assume *: "\<forall>k \<in> set REQUIRED_FIELDS. k \<notin> {''BaseLengthBytes'', ''BaseSha256'', ''SourceStorageIdSha256'',
        ''DestinationStorageIdSha256''}" and k: "k \<in> set REQUIRED_FIELDS"
    from k have "k \<in> set (take 13 REQUIRED_FIELDS @ take 2 (drop 13 REQUIRED_FIELDS) @
      take 4 (drop 15 REQUIRED_FIELDS) @ take 2 (drop 19 REQUIRED_FIELDS) @ drop 21 REQUIRED_FIELDS)"
      using split by metis
    with * k show "k \<in> set (filter (\<lambda>k.
     (k \<in> {''BaseLengthBytes'', ''BaseSha256''} \<longrightarrow> base) \<and> (k = ''SourceStorageIdSha256'' \<longrightarrow> src) \<and>
     (k = ''DestinationStorageIdSha256'' \<longrightarrow> dst))
     (take 13 REQUIRED_FIELDS @ [''BaseLengthBytes'', ''BaseSha256''] @
      take 2 (drop 13 REQUIRED_FIELDS) @ [''SourceStorageIdSha256''] @ take 4 (drop 15 REQUIRED_FIELDS) @
      take 2 (drop 19 REQUIRED_FIELDS) @ [''DestinationStorageIdSha256''] @ drop 21 REQUIRED_FIELDS))"
      unfolding set_filter set_append by blast
  qed
qed

lemma all_pairs_keys:
  "distinct (map fst (all_pairs p h))"
  "set (map fst (all_pairs p h)) \<subseteq> set (REQUIRED_FIELDS @ OPTIONAL_FIELDS)"
  "list_all (\<lambda>k. k \<in> set (map fst (all_pairs p h))) REQUIRED_FIELDS"
  unfolding all_pairs_written
  by (rule written_keys_distinct written_keys_known required_written)+

lemma all_pairs_lookup:
  "(k, v) \<in> set (all_pairs p h) \<Longrightarrow> map_of (all_pairs p h) k = Some v"
  by (rule map_of_is_SomeI) (rule all_pairs_keys)

lemma all_pairs_absent:
  "ct_device_id_hash (bh_source h) = None \<Longrightarrow> map_of (all_pairs p h) ''SourceStorageIdSha256'' = None"
  "ct_device_id_hash (bh_destination h) = None \<Longrightarrow> map_of (all_pairs p h) ''DestinationStorageIdSha256'' = None"
  "bh_base h = None \<Longrightarrow> map_of (all_pairs p h) ''BaseLengthBytes'' = None \<and> map_of (all_pairs p h) ''BaseSha256'' = None"
  unfolding map_of_eq_None_iff set_map [symmetric] all_pairs_written written_keys_def by auto

lemma backup_validate_trimmed:
  assumes "backup_validate h = Inr ()" and "trim (bh_relative_path h) = bh_relative_path h"
  shows "trim (bh_session h) = bh_session h" and "plain_line (bh_session h)"
proof -
  have "list_all printable (bh_session h)"
    using assms(1) by (auto simp: backup_validate_def validate_backup_session_def res_simps list_all_iff
        ascii_defs printable_def split: if_splits)
  then show "trim (bh_session h) = bh_session h" "plain_line (bh_session h)"
    by (rule trim_printable printable_line)+
qed

lemma all_pairs_trimmed:
  assumes "payload_ok p" and "backup_validate h = Inr ()" and "trim (bh_relative_path h) = bh_relative_path h"
  shows "list_all (\<lambda>(k, v). trim v = v) (all_pairs p h)"
proof -
  have clean: "trim (encode_hex b) = encode_hex b" "trim (show_u64 n) = show_u64 n" for b n
    by (simp_all add: encode_hex_def show_u64_def)
  have styles: "trim (style_as_str st) = style_as_str st" "trim (policy_as_str po) = policy_as_str po" for st po
    by (rule style_codec.print_trim policy_codec.print_trim, simp)+
  have words: "trim ''none'' = ''none''" "trim ''true'' = ''true''" "trim ''false'' = ''false''"
    by (simp_all add: trim_id printable_def)
  obtain c where c: "is_alpha c" "bp_source_partition p = [c, CHR '':'']"
    using assms(1) by (auto simp: payload_ok_def)
  then have drive: "trim (bp_source_partition p) = bp_source_partition p"
    by (intro trim_id) (auto simp: ascii_defs printable_def)
  show ?thesis
    using assms(1,3) clean styles words drive backup_validate_trimmed [OF assms(2,3)]
    by (auto simp: all_pairs_def payload_pairs_def handoff_pairs_def base_pairs_def volume_pairs_def payload_ok_def
        text_ok_def split: option.splits)
qed

lemma split_by_covers: "c \<in> set s \<Longrightarrow> P c \<or> (\<exists>w \<in> set (split_by P s). c \<in> set w)"
  by (induction s) (auto split: list.splits)

lemma validate_component_chars:
  "validate_windows_file_component v = Inr u \<Longrightarrow> c \<in> set v \<Longrightarrow> \<not> byte c \<le> 0x1f"
  by (auto simp: validate_windows_file_component_def list_ex_iff split: if_splits)

lemma relative_path_components:
  "validate_relative_output_path path = Inr u \<longleftrightarrow>
     relative_components path \<noteq> [] \<and>
     (\<forall>c \<in> set (relative_components path). \<exists>v. c = Some v \<and> validate_windows_file_component v = Inr ())"
  by (force simp: validate_relative_output_path_def Let_def res_simps try_fold_unit ensure_Inr_iff
      split: option.splits)

lemma relative_path_plain:
  assumes "validate_relative_output_path path = Inr ()"
  shows "plain_line path"
proof (rule ccontr)
  assume "\<not> plain_line path"
  then obtain c where c: "c \<in> set path" "c = CR \<or> c = LF" by (auto simp: plain_line_def)
  then have "\<not> is_path_separator c" by (auto simp: is_path_separator_def)
  with c(1) obtain w where w: "w \<in> set (split_by is_path_separator path)" "c \<in> set w"
    using split_by_covers [of c path is_path_separator] by blast
  from c(1) obtain d r where path: "path = d # r" by (cases path) auto
  have none: "None \<notin> set (relative_components path)"
    using assms by (auto simp: relative_path_components)
  then have "\<not> (is_path_separator d \<or> (is_alpha d \<and> r \<noteq> [] \<and> hd r = CHR '':''))"
    by (auto simp: relative_components_def path)
  then have "relative_components path =
      (let ws = split_by is_path_separator path in (if hd ws = ''.'' then [None] else []) @
        map (\<lambda>w. if w = ''..'' then None else Some w) (filter (\<lambda>w. w \<noteq> [] \<and> w \<noteq> ''.'') ws))"
    by (auto simp: relative_components_def path simp del: split_by.simps)
  moreover have "w \<noteq> []" "w \<noteq> ''.''" "w \<noteq> ''..''" using w(2) c(2) by auto
  ultimately have "Some w \<in> set (relative_components path)"
    using w(1) by (auto simp: Let_def image_iff)
  then have "validate_windows_file_component w = Inr ()"
    using assms unfolding relative_path_components by blast
  from validate_component_chars [OF this w(2)] c(2) show False by auto
qed

lemma all_pairs_plain:
  assumes "payload_ok p" and "backup_validate h = Inr ()" and "trim (bh_relative_path h) = bh_relative_path h"
  shows "list_all (\<lambda>f. plain_line (line_of f)) (all_pairs p h)"
proof -
  have line: "plain_line (line_of (k, v)) \<longleftrightarrow> plain_line k \<and> plain_line v" for k v
    by (auto simp: line_of_def plain_line_def)
  have "\<forall>k \<in> set (map fst (all_pairs p h)). plain_line k"
  proof
    fix k assume "k \<in> set (map fst (all_pairs p h))"
    then have "k \<in> set (REQUIRED_FIELDS @ OPTIONAL_FIELDS)" using all_pairs_keys(2) by blast
    moreover have "list_all plain_line (REQUIRED_FIELDS @ OPTIONAL_FIELDS)"
      by (simp add: REQUIRED_FIELDS_def OPTIONAL_FIELDS_def plain_line_def)
    ultimately show "plain_line k" unfolding list_all_iff by blast
  qed
  moreover have "list_all (\<lambda>(k, v). plain_line v) (all_pairs p h)"
  proof -
    have vals: "plain_line (encode_hex b)" "plain_line (show_nat n)" "plain_line (show_u64 m)" for b n m
      using array_codec.print_line [of b "length b"] u64_codec.print_line [of m]
      by (simp_all add: printable_line)
    have texts: "plain_line (style_as_str st)" "plain_line (policy_as_str po)" "plain_line ''none''"
      "plain_line ''true''" "plain_line ''false''" for st po
      using style_codec.print_line [of st] policy_codec.print_line [of po] by (simp_all add: plain_line_def)
    obtain c where c: "is_alpha c" "bp_source_partition p = [c, CHR '':'']"
      using assms(1) by (auto simp: payload_ok_def)
    then have drive: "plain_line (bp_source_partition p)" by (auto simp: ascii_defs plain_line_def)
    have path: "plain_line (bh_relative_path h)"
      using assms(2) by (intro relative_path_plain) (auto simp: backup_validate_def res_simps)
    show ?thesis
      using assms(1) vals texts drive path backup_validate_trimmed [OF assms(2,3)]
      by (auto simp: all_pairs_def payload_pairs_def handoff_pairs_def base_pairs_def volume_pairs_def payload_ok_def
          text_ok_def split: option.splits)
  qed
  ultimately show ?thesis
    by (force simp: list_all_iff line)
qed

lemma config_lines:
  assumes "serialize_backup_config p h = Inr content"
    and "list_all (\<lambda>f. plain_line (line_of f)) (all_pairs p h)"
  shows "str_lines content = ''[Backup]'' # map line_of (all_pairs p h) @ [[]]"
proof -
  have content: "content = ''[Backup]'' @ LF # concat (map (\<lambda>l. l @ [LF]) (map line_of (payload_pairs p))) @
      crlf_text (map line_of (handoff_pairs h @ volume_pairs ''Source'' (bh_source h) @
        volume_pairs ''Destination'' (bh_destination h))) @ [LF]"
    using assms(1) by (auto simp: serialize_backup_config_def serialize_fields_def serialize_volume_def res_simps
        crlf_text_def comp_def)
  have "str_lines [LF] = [[]]" by (simp add: str_lines_def drop_cr_def)
  moreover have "plain_line ''[Backup]''" by (simp add: plain_line_def)
  moreover have "list_all plain_line (map line_of (payload_pairs p))"
    "list_all plain_line (map line_of (handoff_pairs h @ volume_pairs ''Source'' (bh_source h) @
        volume_pairs ''Destination'' (bh_destination h)))"
    using assms(2) by (auto simp: all_pairs_def list_all_iff)
  ultimately show ?thesis
    unfolding content
    by (simp only: str_lines_lf str_lines_lf_text str_lines_crlf_text) (simp add: all_pairs_def)
qed

lemma strict_fields_of_config:
  assumes "serialize_backup_config p h = Inr content" and "payload_ok p"
    and "trim (bh_relative_path h) = bh_relative_path h"
  shows "parse_strict_backup_fields content = Inr (all_pairs p h)"
proof -
  have ok: "backup_validate h = Inr ()"
    using assms(1) by (auto simp: serialize_backup_config_def serialize_fields_def res_simps)
  have opened: "backup_line ([], False) ''[Backup]'' = Inr ([], True)"
    by (simp add: backup_line_def trim_id printable_def)
  have pairs: "list_all (\<lambda>(k, v). k \<in> set (REQUIRED_FIELDS @ OPTIONAL_FIELDS) \<and> trim v = v) (all_pairs p h)"
    using all_pairs_trimmed [OF assms(2) ok assms(3)] all_pairs_keys(2) [of p h]
    by (force simp: list_all_iff)
  have empty: "backup_line (all_pairs p h, True) [] = Inr (all_pairs p h, True)"
    by (simp add: backup_line_def trim_id)
  have "try_fold backup_line ([], False) (str_lines content) = Inr (all_pairs p h, True)"
    using backup_lines_pairs [OF pairs, of "[]" True] all_pairs_keys(1) [of p h]
    unfolding config_lines [OF assms(1) all_pairs_plain [OF assms(2) ok assms(3)]]
    by (simp add: opened try_fold_append empty)
  moreover have "try_fold (\<lambda>_ k. and_then (require (all_pairs p h) k) (\<lambda>_. Inr ())) () REQUIRED_FIELDS = Inr ()"
    unfolding try_fold_unit
  proof
    fix k assume "k \<in> set REQUIRED_FIELDS"
    then have "k \<in> fst ` set (all_pairs p h)"
      using all_pairs_keys(3) [of p h] by (auto simp: list_all_iff)
    then have "map_of (all_pairs p h) k \<noteq> None" by (simp add: map_of_eq_None_iff)
    then show "and_then (require (all_pairs p h) k) (\<lambda>_. Inr ()) = Inr ()" by (auto simp: require_def)
  qed
  ultimately show ?thesis by (simp add: parse_strict_backup_fields_def)
qed

lemma handoff_of_pairs:
  assumes "backup_validate h = Inr ()" and "volume_ok (bh_source h)" and "volume_ok (bh_destination h)"
    and "base_ok (bh_base h)"
  shows "parse_handoff_from_fields (all_pairs p h) = Inr h"
proof -
  have volumes: "parse_volume ''Source'' (all_pairs p h) = Inr (bh_source h)"
    "parse_volume ''Destination'' (all_pairs p h) = Inr (bh_destination h)"
    using all_pairs_absent [of h p]
    by (intro parse_volume_pairs assms all_pairs_lookup; simp add: all_pairs_def)+
  have base: "parse_base (all_pairs p h) = Inr (bh_base h)"
    using all_pairs_absent(3) [of h p]
    by (intro parse_base_pairs assms all_pairs_lookup; simp add: all_pairs_def handoff_pairs_def)
  have look: "map_of (all_pairs p h) ''HandoffVersion'' = Some (show_nat 2)"
    "map_of (all_pairs p h) ''SessionId'' = Some (bh_session h)"
    "map_of (all_pairs p h) ''DestinationRelativePath'' = Some (bh_relative_path h)"
    "map_of (all_pairs p h) ''OutputPolicy'' = Some (policy_as_str (bh_policy h))"
    by (rule all_pairs_lookup, simp add: all_pairs_def handoff_pairs_def BACKUP_HANDOFF_VERSION_def)+
  have eta: "\<lparr>bh_session = bh_session h, bh_source = bh_source h, bh_destination = bh_destination h,
      bh_relative_path = bh_relative_path h, bh_policy = bh_policy h, bh_base = bh_base h\<rparr> = h"
    by simp
  show ?thesis
    using assms(1) by (simp add: parse_handoff_from_fields_def require_def volumes base look policy_parse_str
        BACKUP_HANDOFF_VERSION_def Let_def eta)
qed

lemma require_payload: "(k, v) \<in> set (payload_pairs p) \<Longrightarrow> require (all_pairs p h) k = Inr v"
  using all_pairs_lookup [of k v p h] by (simp add: require_def all_pairs_def)

lemma payload_lookups:
  "require (all_pairs p h) ''SavePath'' = Inr (bp_save_path p)"
  "require (all_pairs p h) ''Name'' = Inr (bp_name p)"
  "require (all_pairs p h) ''Description'' = Inr (bp_description p)"
  "require (all_pairs p h) ''SourcePartition'' = Inr (bp_source_partition p)"
  "require (all_pairs p h) ''Incremental'' = Inr (if bp_incremental p then ''true'' else ''false'')"
  "require (all_pairs p h) ''Format'' = Inr (show_nat (unat (bp_format p)))"
  "require (all_pairs p h) ''SwmSplitSize'' = Inr (show_nat (unat (bp_swm_split_size p)))"
  "require (all_pairs p h) ''WimEngine'' = Inr (show_nat (unat (bp_wim_engine p)))"
  "require (all_pairs p h) ''Language'' = Inr (bp_language p)"
  by (rule require_payload, simp add: payload_pairs_def)+

lemma parse_uint_width [simp]:
  "parse_uint 256 (show_nat (unat (w :: u8))) = Some (unat w)"
  "parse_uint 4294967296 (show_nat (unat (v :: u32))) = Some (unat v)"
  using unat_bound [of w] unat_bound [of v] by simp_all

lemma config_reads_back:
  assumes "serialize_backup_config p h = Inr content" and "length content \<le> 128 * 1024"
    and "payload_ok p" and "volume_ok (bh_source h)" and "volume_ok (bh_destination h)" and "base_ok (bh_base h)"
    and "trim (bh_relative_path h) = bh_relative_path h"
    and "bp_incremental p = (bh_policy h = AppendFile)"
  shows "parse_backup_payload content = Inr (p, h)"
proof -
  have ok: "backup_validate h = Inr ()"
    using assms(1) by (auto simp: serialize_backup_config_def serialize_fields_def res_simps)
  note handoff = handoff_of_pairs [OF ok assms(4-6)]
  note strict = strict_fields_of_config [OF assms(1,3,7)]
  have texts: "validate_text (bp_save_path p) 32767 False f = Inr ()" "validate_text (bp_name p) 256 False f = Inr ()"
    "validate_text (bp_description p) 2048 True f = Inr ()" "validate_text (bp_language p) 32 False f = Inr ()" for f
    using assms(3) by (auto simp: payload_ok_def text_ok_def validate_text_def ensure_def)
  have drive: "length (bp_source_partition p) = 2 \<and> is_alpha (bp_source_partition p ! 0) \<and>
      bp_source_partition p ! 1 = CHR '':''"
    using assms(3) by (auto simp: payload_ok_def)
  have numbers: "unat (bp_format p) \<le> 1" "512 \<le> unat (bp_swm_split_size p)" "unat (bp_swm_split_size p) \<le> 8192"
    "unat (bp_wim_engine p) \<le> 1"
    using assms(3) by (simp_all add: payload_ok_def word_le_nat_alt)
  have incremental: "parse_bool f ''true'' = Inr True" "parse_bool f ''false'' = Inr False" for f
    by (simp_all add: parse_bool_def)
  have eta: "\<lparr>bp_save_path = bp_save_path p, bp_name = bp_name p, bp_description = bp_description p,
      bp_source_partition = bp_source_partition p, bp_incremental = bp_incremental p, bp_format = bp_format p,
      bp_swm_split_size = bp_swm_split_size p, bp_wim_engine = bp_wim_engine p, bp_language = bp_language p\<rparr> = p"
    by simp
  show ?thesis
    using assms(2,8) drive numbers
    by (simp add: parse_backup_payload_def strict payload_lookups texts incremental handoff payload_consistent_def
        ensure_def ok_or_def eta)
qed

text \<open>What the normal system writes is what the boot environment reads: a backup configuration that
  is within the limits reads back as the payload and the authorization that were written, for every
  volume identity with or without a storage identity, on either partition style and under every policy.\<close>

theorem backup_config_roundtrip:
  assumes "serialize_backup_config p h = Inr content" and "length content \<le> 128 * 1024"
    and "payload_ok p" and "volume_ok (bh_source h)" and "volume_ok (bh_destination h)" and "base_ok (bh_base h)"
    and "trim (bh_relative_path h) = bh_relative_path h"
    and "bp_incremental p = (bh_policy h = AppendFile)"
  shows "parse_backup_payload content = Inr (p, h)"
  by (rule config_reads_back [OF assms])

definition sample_payload :: backup_payload where
  "sample_payload = \<lparr>bp_save_path = ''D:'' @ BACKSLASH # ''a.wim'', bp_name = ''System'', bp_description = '''',
     bp_source_partition = ''C:'', bp_incremental = False, bp_format = 0, bp_swm_split_size = 4096,
     bp_wim_engine = 1, bp_language = ''zh-CN''\<rparr>"

definition sample_backup_volume :: "u64 \<Rightarrow> canonical_target" where
  "sample_backup_volume start = \<lparr>ct_layout_digest = replicate 32 CHR ''d'', ct_device_id_hash = None, ct_offset = start,
     ct_length = 4096, ct_style = MbrStyle, ct_gpt_id = None\<rparr>"

definition sample_backup :: backup_handoff where
  "sample_backup = \<lparr>bh_session = ''a-1'', bh_source = sample_backup_volume 0, bh_destination = sample_backup_volume 8192,
     bh_relative_path = ''a.wim'', bh_policy = CreateFile, bh_base = None\<rparr>"

lemma sample_validates: "backup_validate sample_backup = Inr ()"
proof -
  have "validate_backup_session ''a-1'' = Inr ()" "validate_relative_output_path ''a.wim'' = Inr ()"
    by code_simp+
  then show ?thesis by (simp add: backup_validate_def sample_backup_def sample_backup_volume_def ensure_def)
qed

lemma sample_written:
  "\<exists>content. serialize_backup_config sample_payload sample_backup = Inr content \<and> length content \<le> 128 * 1024"
proof -
  have "length (show_nat n) \<le> 4" if "n \<le> 9999" for n
    using that by (subst show_nat.simps, subst show_nat.simps, subst show_nat.simps, subst show_nat.simps) auto
  then have "length (show_u64 0) \<le> 4" "length (show_u64 4096) \<le> 4" "length (show_u64 8192) \<le> 4"
    "length (show_nat 2) \<le> 4" "length (show_nat 0) \<le> 4" "length (show_nat 4096) \<le> 4" "length (show_nat 1) \<le> 4"
    by (simp_all add: show_u64_def)
  then show ?thesis
    by (simp add: serialize_backup_config_def serialize_fields_def sample_validates serialize_volume_def
        payload_pairs_def handoff_pairs_def base_pairs_def volume_pairs_def crlf_text_def line_of_def)
      (simp add: sample_backup_def sample_payload_def sample_backup_volume_def encode_hex_def BACKUP_HANDOFF_VERSION_def
        CANONICAL_TARGET_VERSION_def)
qed

lemma sample_fields:
  "volume_ok (bh_source sample_backup)" "volume_ok (bh_destination sample_backup)" "base_ok (bh_base sample_backup)"
  "trim (bh_relative_path sample_backup) = bh_relative_path sample_backup"
  "bp_incremental sample_payload = (bh_policy sample_backup = AppendFile)"
  by (simp_all add: volume_ok_def base_ok_def sample_payload_def sample_backup_def sample_backup_volume_def trim_id
        printable_def)

lemma sample_payload_ok: "payload_ok sample_payload"
proof -
  have "text_ok 32767 (''D:'' @ BACKSLASH # ''a.wim'')" "text_ok 256 ''System''" "text_ok 2048 ''''" "text_ok 32 ''zh-CN''"
    unfolding text_ok_def plain_line_def by code_simp+
  moreover have "\<exists>c. is_alpha c \<and> ''C:'' = [c, CHR '':'']"
    by (rule exI [of _ "CHR ''C''"]) code_simp
  ultimately show ?thesis by (simp add: payload_ok_def sample_payload_def)
qed

lemma backup_config_roundtrip_witness:
  "\<exists>content. serialize_backup_config sample_payload sample_backup = Inr content \<and>
     parse_backup_payload content = Inr (sample_payload, sample_backup)"
proof -
  obtain content where *: "serialize_backup_config sample_payload sample_backup = Inr content"
      "length content \<le> 128 * 1024"
    using sample_written by blast
  from backup_config_roundtrip [OF * sample_payload_ok sample_fields] *(1) show ?thesis by blast
qed

subsection \<open>What an accepted configuration is\<close>

lemma canonical_target_ok:
  assumes "canonical_target_from_fields version digest off len style gpt device = Inr (Some t)"
  shows "volume_ok t"
  using assms
  by (auto simp: canonical_target_from_fields_def volume_ok_def Let_def res_simps word_gt_0 decode_hex_array_def
      length_hex_pairs split: if_splits option.splits target_style.splits)

lemma parse_volume_ok: "parse_volume prefix fs = Inr t \<Longrightarrow> volume_ok t"
  by (auto simp: parse_volume_def res_simps intro: canonical_target_ok)

lemma parse_base_ok: "parse_base fs = Inr b \<Longrightarrow> base_ok b"
  by (auto simp: parse_base_def base_ok_def res_simps decode_hex_array_def Let_def length_hex_pairs
      split: option.splits if_splits)

lemma backup_line_trimmed:
  assumes "backup_line st raw = Inr st'" and "list_all (\<lambda>(k, v). trim v = v) (fst st)"
  shows "list_all (\<lambda>(k, v). trim v = v) (fst st')"
  using assms by (auto simp: backup_line_def Let_def res_simps split: prod.splits if_splits)

lemma strict_fields_trimmed:
  assumes "parse_strict_backup_fields content = Inr fs" and "require fs k = Inr v"
  shows "trim v = v"
proof -
  obtain saw where "try_fold backup_line ([], False) (str_lines content) = Inr (fs, saw)"
    using assms(1) by (auto simp: parse_strict_backup_fields_def res_simps)
  then have "list_all (\<lambda>(k, v). trim v = v) (fst (fs, saw))"
    by (rule try_fold_invariant [where P = "\<lambda>st. list_all (\<lambda>(k, v). trim v = v) (fst st)"])
      (simp_all add: backup_line_trimmed)
  moreover have "(k, v) \<in> set fs"
    using assms(2) by (auto simp: require_def res_simps intro: map_of_SomeD)
  ultimately show ?thesis by (auto simp: list_all_iff)
qed

lemma no_control_plain: "\<not> has_control v \<Longrightarrow> plain_line v"
  by (induction v rule: has_control.induct) (auto simp: plain_line_def)

lemma validate_text_ok:
  "validate_text v maximum allow_empty f = Inr () \<Longrightarrow> trim v = v \<Longrightarrow>
     text_ok maximum v \<and> (\<not> allow_empty \<longrightarrow> v \<noteq> [])"
  by (auto simp: validate_text_def text_ok_def res_simps no_control_plain)

lemma accepted_fields:
  assumes "parse_backup_payload content = Inr (p, h)"
  shows "payload_ok p" and "volume_ok (bh_source h)" and "volume_ok (bh_destination h)" and "base_ok (bh_base h)"
    and "trim (bh_relative_path h) = bh_relative_path h" and "bp_incremental p = (bh_policy h = AppendFile)"
    and "backup_validate h = Inr ()"
proof -
  obtain fs where fs: "parse_strict_backup_fields content = Inr fs"
    and handoff: "parse_handoff_from_fields fs = Inr h"
    using assms by (auto simp: parse_backup_payload_def res_simps)
  note trimmed = strict_fields_trimmed [OF fs]
  from assms fs obtain format split_size engine where numbers:
      "bp_format p = of_nat format" "format \<le> 1" "bp_swm_split_size p = of_nat split_size" "512 \<le> split_size"
      "split_size \<le> 8192" "bp_wim_engine p = of_nat engine" "\<not> 1 < engine"
    by (auto simp: parse_backup_payload_def res_simps)
  then have "bp_format p \<le> 1" "512 \<le> bp_swm_split_size p" "bp_swm_split_size p \<le> 8192" "bp_wim_engine p \<le> 1"
    by (auto simp: word_le_nat_alt unat_of_nat)
  moreover have "text_ok 32767 (bp_save_path p) \<and> bp_save_path p \<noteq> []" "text_ok 256 (bp_name p) \<and> bp_name p \<noteq> []"
    "text_ok 2048 (bp_description p)" "text_ok 32 (bp_language p) \<and> bp_language p \<noteq> []"
    using assms fs
    by (auto simp: parse_backup_payload_def res_simps dest!: trimmed dest: validate_text_ok)
  moreover have "\<exists>c. is_alpha c \<and> bp_source_partition p = [c, CHR '':'']"
    using assms fs
    by (auto simp: parse_backup_payload_def res_simps numeral_2_eq_2 length_Suc_conv)
  ultimately show "payload_ok p" by (simp add: payload_ok_def)
  show "bp_incremental p = (bh_policy h = AppendFile)"
    using assms fs handoff by (auto simp: parse_backup_payload_def res_simps payload_consistent_def)
  show "volume_ok (bh_source h)" "volume_ok (bh_destination h)" "base_ok (bh_base h)" "backup_validate h = Inr ()"
    "trim (bh_relative_path h) = bh_relative_path h"
    using handoff
    by (auto simp: parse_handoff_from_fields_def res_simps Let_def dest: parse_volume_ok parse_base_ok trimmed)
qed

definition safe_component :: "string \<Rightarrow> bool" where
  "safe_component v \<longleftrightarrow> v \<noteq> [] \<and> v \<noteq> ''.'' \<and> v \<noteq> ''..'' \<and> utf16_len v \<le> 255 \<and> CHR '':'' \<notin> set v \<and>
     CHR ''/'' \<notin> set v \<and> BACKSLASH \<notin> set v \<and> last v \<noteq> CHR '' '' \<and> last v \<noteq> CHR ''.''"

lemma first_check: "(if b then Inl e else r) = Inr u \<Longrightarrow> \<not> b"
  by (cases b) simp_all

lemma no_char: "\<not> list_ex P v \<Longrightarrow> P c \<Longrightarrow> c \<notin> set v"
  by (auto simp: list_ex_iff)

lemma validated_component_safe:
  assumes "validate_windows_file_component v = Inr u"
  shows "safe_component v"
proof -
  note checks = first_check [OF assms [unfolded validate_windows_file_component_def], unfolded de_Morgan_disj]
  then have "v \<noteq> []" "\<not> ends_with_any [CHR '' '', CHR ''.''] v" by blast+
  then have ends: "last v \<noteq> CHR '' ''" "last v \<noteq> CHR ''.''" by (simp_all add: ends_with_any_def)
  note chars = no_char [OF checks [THEN conjunct2, THEN conjunct2, THEN conjunct2]]
  have "CHR '':'' \<notin> set v" "CHR ''/'' \<notin> set v" "BACKSLASH \<notin> set v"
    by (rule chars, simp)+
  moreover have "v \<noteq> ''.''" "v \<noteq> ''..''" using ends by auto
  moreover have "v \<noteq> []" "\<not> 255 < utf16_len v" using checks by blast+
  ultimately show ?thesis using ends by (simp add: safe_component_def)
qed

lemma validated_path_safe:
  "validate_relative_output_path path = Inr u \<Longrightarrow>
     relative_components path \<noteq> [] \<and> (\<forall>c \<in> set (relative_components path). \<exists>v. c = Some v \<and> safe_component v)"
  unfolding relative_path_components using validated_component_safe by blast

text \<open>C32. Whatever configuration the boot environment accepts, however it was written: its file lies below the
  destination's root under ordinary names (no drive, no root, no parent, no stream), its two volumes are
  distinct and well formed, a base file is named exactly when one is replaced or extended and is not empty, the
  payload's flag agrees with the policy, and writing the accepted values again gives, unless it grows past the
  size limit, a configuration that reads as the same values.\<close>

theorem accepted_backup_is_safe:
  assumes "parse_backup_payload content = Inr (p, h)"
  shows "relative_components (bh_relative_path h) \<noteq> [] \<and>
    list_all (\<lambda>c. \<exists>v. c = Some v \<and> safe_component v) (relative_components (bh_relative_path h)) \<and>
    bh_source h \<noteq> bh_destination h \<and> volume_ok (bh_source h) \<and> volume_ok (bh_destination h) \<and>
    (bh_base h = None) = (bh_policy h = CreateFile) \<and> pred_option (\<lambda>b. 0 < bb_length b) (bh_base h) \<and>
    bp_incremental p = (bh_policy h = AppendFile) \<and>
    (\<exists>again. serialize_backup_config p h = Inr again \<and>
       (128 * 1024 < length again \<or> parse_backup_payload again = Inr (p, h)))"
proof -
  note fields = accepted_fields [OF assms]
  obtain again where again: "serialize_backup_config p h = Inr again"
    using fields(7) by (simp add: serialize_backup_config_def serialize_fields_def)
  have "128 * 1024 < length again \<or> parse_backup_payload again = Inr (p, h)"
    using config_reads_back [OF again] fields by linarith
  with again have "\<exists>again. serialize_backup_config p h = Inr again \<and>
      (128 * 1024 < length again \<or> parse_backup_payload again = Inr (p, h))" by blast
  moreover have "bh_source h \<noteq> bh_destination h" "(bh_base h = None) = (bh_policy h = CreateFile)"
    "pred_option (\<lambda>b. 0 < bb_length b) (bh_base h)"
    using fields(7)
    by (auto simp: backup_validate_def res_simps split: backup_policy.splits option.splits if_splits)
  moreover have "validate_relative_output_path (bh_relative_path h) = Inr ()"
    using fields(7) by (auto simp: backup_validate_def res_simps)
  ultimately show ?thesis
    using validated_path_safe [of "bh_relative_path h"] fields(2,3,6) unfolding list_all_iff by blast
qed

lemma accepted_backup_is_safe_witness:
  "\<exists>content. parse_backup_payload content = Inr (sample_payload, sample_backup) \<and>
     sample_backup_volume 0 \<noteq> sample_backup_volume 8192 \<and> relative_components ''a.wim'' \<noteq> []"
proof -
  obtain content where *: "serialize_backup_config sample_payload sample_backup = Inr content"
      "length content \<le> 128 * 1024"
    using sample_written by blast
  have "parse_backup_payload content = Inr (sample_payload, sample_backup)"
    using config_reads_back [OF * sample_payload_ok] sample_fields by simp
  with accepted_backup_is_safe [OF this] show ?thesis by (auto simp: sample_backup_def)
qed

text \<open>
  The parser trims every value, the validation of the destination does not: a relative path that begins with a
  space is authorized and written, and read back as a different file name.
\<close>

lemma leading_space_is_lost:
  "validate_relative_output_path '' a.wim'' = Inr ()"
  "backup_line ([], True) (line_of (''DestinationRelativePath'', '' a.wim'')) =
     Inr ([(''DestinationRelativePath'', ''a.wim'')], True)"
  by code_simp+

end
