(* ===== verification/PartitionDisk.thy ===== *)
theory PartitionDisk
  imports VolumeResize Staging
begin

section \<open>Disks, their partitions and the storage\<close>

text \<open>
  The data that the partition tools of the normal system share: the inventory of \<open>quick_partition.rs\<close>,
  the fingerprint of \<open>native_quick_partition.rs\<close> with which a reviewed disk is recognised, and the
  storage behind them. The disks, their volumes and the calls that change them are the state \<open>'w\<close>, a
  parameter; an enumeration of the disks may itself find the storage in a new state.
\<close>

subsection \<open>Disks and what was reviewed of them\<close>

datatype edit_style = StyleGpt | StyleMbr | StyleUnknown

record disk_partition =
  dp_number :: u32
  dp_size :: u64
  dp_offset :: u64
  dp_letter :: "scalar option"
  dp_label :: string
  dp_file_system :: string
  dp_esp :: bool
  dp_msr :: bool
  dp_recovery :: bool
  dp_type :: string
  dp_used :: u64
  dp_free :: u64
  dp_active :: bool

record physical_disk =
  pd_number :: u32
  pd_size :: u64
  pd_model :: string
  pd_style :: edit_style
  pd_initialized :: bool
  pd_partitions :: "disk_partition list"
  pd_unallocated :: u64

record partition_print =
  pp_number :: u32
  pp_offset :: u64
  pp_size :: u64
  pp_letter :: "scalar option"
  pp_type :: string
  pp_esp :: bool
  pp_msr :: bool
  pp_recovery :: bool

record disk_print =
  dk_number :: u32
  dk_model :: string
  dk_size :: u64
  dk_style :: edit_style
  dk_partitions :: "partition_print list"
  dk_snapshot :: "disk_snapshot option"

definition scalar_alpha :: "scalar \<Rightarrow> bool" where
  "scalar_alpha c \<longleftrightarrow> (65 \<le> c \<and> c \<le> 90) \<or> (97 \<le> c \<and> c \<le> 122)"

definition scalar_eq :: "scalar \<Rightarrow> scalar \<Rightarrow> bool" where
  "scalar_eq a b \<longleftrightarrow> scalar_upper a = scalar_upper b"

definition partition_print_of :: "disk_partition \<Rightarrow> partition_print" where
  "partition_print_of p =
     \<lparr>pp_number = dp_number p, pp_offset = dp_offset p, pp_size = dp_size p,
      pp_letter = map_option scalar_upper (dp_letter p), pp_type = map to_upper (trim (dp_type p)),
      pp_esp = dp_esp p, pp_msr = dp_msr p, pp_recovery = dp_recovery p\<rparr>"

text \<open>\<open>split_whitespace\<close>: the runs of characters between white space.\<close>

fun leading_word :: "string \<Rightarrow> string" where
  "leading_word [] = []"
| "leading_word (c # cs) = (if ws_len False (c # cs) \<noteq> 0 then [] else c # leading_word cs)"

lemma length_leading_word: "length (leading_word s) \<le> length s"
  by (induction s) auto

function split_whitespace :: "string \<Rightarrow> string list" where
  "split_whitespace s =
     (let t = trim_ws False s; w = leading_word t in
      if t = [] then [] else w # split_whitespace (drop (length w) t))"
  by pat_completeness auto
termination
proof (relation "measure length")
  fix s t w assume *: "t = trim_ws False s" "w = leading_word t" "t \<noteq> []"
  then obtain c cs where t: "t = c # cs" by (meson neq_Nil_conv)
  have "ws_len False (c # cs) = 0" using trim_ws_done [of False s] * t by simp
  then have "0 < length w" unfolding *(2) t by simp
  then have "length (drop (length w) t) < length t" using t by simp
  then show "(drop (length w) t, s) \<in> measure length"
    using length_trim_ws [of False s] * by simp
qed simp

fun join_words :: "string \<Rightarrow> string list \<Rightarrow> string" where
  "join_words d [] = []"
| "join_words d [w] = w"
| "join_words d (w # v # ws) = w @ d @ join_words d (v # ws)"

definition normalize_model :: "string \<Rightarrow> string" where
  "normalize_model model = map to_lower (join_words '' '' (split_whitespace model))"

definition disk_print_of :: "(u32 \<Rightarrow> string + disk_snapshot) \<Rightarrow> physical_disk \<Rightarrow> disk_print" where
  "disk_print_of snapshot d =
     \<lparr>dk_number = pd_number d, dk_model = normalize_model (pd_model d), dk_size = pd_size d, dk_style = pd_style d,
      dk_partitions = sort_key (\<lambda>p. (unat (pp_offset p), unat (pp_number p))) (map partition_print_of (pd_partitions d)),
      dk_snapshot = (case snapshot (pd_number d) of Inl _ \<Rightarrow> None | Inr s \<Rightarrow> Some s)\<rparr>"

definition find_disk :: "u32 \<Rightarrow> physical_disk list \<Rightarrow> physical_disk option" where
  "find_disk n ds = find (\<lambda>d. pd_number d = n) ds"

definition find_partition :: "u32 \<Rightarrow> physical_disk \<Rightarrow> disk_partition option" where
  "find_partition n d = find (\<lambda>p. dp_number p = n) (pd_partitions d)"

definition bytes_to_mib :: "u64 \<Rightarrow> u64" where
  "bytes_to_mib v = v div 1024 div 1024"

definition PART_MIB :: u64 where "PART_MIB = 1048576"

text \<open>The free bytes that follow a partition, and how the first partition behind it is found.\<close>

definition nearer_start :: "u64 \<Rightarrow> u32 \<Rightarrow> u64 option \<Rightarrow> disk_partition \<Rightarrow> u64 option" where
  "nearer_start partition_end n next p =
     (if partition_end \<le> dp_offset p \<and> dp_number p \<noteq> n then
        (case next of
           None \<Rightarrow> Some (dp_offset p)
         | Some current \<Rightarrow> if dp_offset p < current then Some (dp_offset p) else next)
      else next)"

definition unallocated_after_bytes :: "physical_disk \<Rightarrow> u32 \<Rightarrow> u64" where
  "unallocated_after_bytes d n =
     (case find_partition n d of
        None \<Rightarrow> 0
      | Some target \<Rightarrow>
          (let partition_end = dp_offset target + dp_size target in
           case foldl (nearer_start partition_end n) None (pd_partitions d) of
             Some next_start \<Rightarrow> saturating_sub next_start partition_end
           | None \<Rightarrow> saturating_sub (pd_size d) partition_end))"

definition unallocated_after :: "physical_disk \<Rightarrow> u32 \<Rightarrow> u64" where
  "unallocated_after d n = unallocated_after_bytes d n div 1024 div 1024"

subsection \<open>The storage\<close>

datatype file_system = FsNtfs | FsFat | FsFat32 | FsExFat

fun file_system_name :: "file_system \<Rightarrow> string" where
  "file_system_name FsNtfs = ''NTFS''"
| "file_system_name FsFat = ''FAT''"
| "file_system_name FsFat32 = ''FAT32''"
| "file_system_name FsExFat = ''EXFAT''"

record format_options =
  fo_file_system :: file_system
  fo_label :: string
  fo_unit :: u32
  fo_quick :: bool
  fo_force :: bool

datatype partition_kind = BasicDataKind | EfiSystemKind | MicrosoftReservedKind | RecoveryKind

record create_request =
  cr_disk :: u32
  cr_offset :: u64
  cr_size :: u64
  cr_kind :: partition_kind
  cr_file_system :: "file_system option"
  cr_label :: string
  cr_letter :: "scalar option"
  cr_active :: bool
  cr_metadata :: "(bytes \<times> u64 \<times> u16 list) option"

definition validate_create_request :: "create_request \<Rightarrow> storage_error + unit" where
  "validate_create_request q =
     (let invalid = (\<lambda>m. Inl (''validate partition'', m)) in
      if cr_size q = 0 then invalid ''partition minimum capacity must be non-zero''
      else if cr_offset q \<noteq> 0 \<and> checked_add (cr_offset q) (cr_size q) = None then
        invalid ''partition minimum range overflows''
      else if 32 < utf16_len (cr_label q) \<or> list_ex (\<lambda>c. c \<in> {NUL, CR, LF}) (cr_label q) then
        invalid ''volume label is empty-invalid, too long, or contains a control character''
      else if (case cr_letter q of None \<Rightarrow> False
               | Some l \<Rightarrow> \<not> (67 \<le> scalar_upper l \<and> scalar_upper l \<le> 90)) then
        invalid ''drive letter must be in the C-Z range''
      else
        (case cr_kind q of
           EfiSystemKind \<Rightarrow>
             if cr_file_system q \<noteq> Some FsFat32 \<or> cr_letter q \<noteq> None \<or> cr_active q then
               invalid ''EFI system partitions require FAT32, no drive letter, and no MBR active flag''
             else Inr ()
         | MicrosoftReservedKind \<Rightarrow>
             if cr_file_system q \<noteq> None \<or> cr_letter q \<noteq> None \<or> cr_active q then
               invalid ''Microsoft reserved partitions cannot be formatted, mounted, or active''
             else Inr ()
         | RecoveryKind \<Rightarrow>
             if cr_active q then invalid ''recovery partitions cannot be marked active'' else Inr ()
         | BasicDataKind \<Rightarrow> Inr ()))"

text \<open>
  The calls into Windows. Reading functions look at the storage, an enumeration returns the storage
  in which it found the disks, and a writing call returns its result and the storage it left.
\<close>

record 'w storage =
  so_disks :: "'w \<Rightarrow> physical_disk list \<times> 'w"
  so_snapshot :: "'w \<Rightarrow> u32 \<Rightarrow> string + disk_snapshot"
  so_windows_letter :: "'w \<Rightarrow> string + scalar"
  so_volume :: "'w \<Rightarrow> scalar \<Rightarrow> string + volume_identity"
  so_stable :: "'w \<Rightarrow> scalar \<Rightarrow> string + stable_volume"
  so_shrink :: "scalar \<Rightarrow> stable_volume \<Rightarrow> u64 \<Rightarrow> u64 \<Rightarrow> 'w \<Rightarrow> (string + u64) \<times> 'w"
  so_extend :: "scalar \<Rightarrow> stable_volume \<Rightarrow> u64 \<Rightarrow> 'w \<Rightarrow> (string + unit) \<times> 'w"
  so_delete :: "u32 \<Rightarrow> u64 \<Rightarrow> bool \<Rightarrow> disk_snapshot \<Rightarrow> 'w \<Rightarrow> (string + unit) \<times> 'w"
  so_format :: "scalar \<Rightarrow> stable_volume \<Rightarrow> format_options \<Rightarrow> 'w \<Rightarrow> (string + unit) \<times> 'w"
  so_assign :: "u32 \<Rightarrow> u64 \<Rightarrow> scalar \<Rightarrow> disk_snapshot \<Rightarrow> 'w \<Rightarrow> (string + unit) \<times> 'w"
  so_remove :: "u32 \<Rightarrow> u64 \<Rightarrow> scalar \<Rightarrow> disk_snapshot \<Rightarrow> 'w \<Rightarrow> (string + unit) \<times> 'w"
  so_active :: "u32 \<Rightarrow> u64 \<Rightarrow> bool \<Rightarrow> disk_snapshot \<Rightarrow> 'w \<Rightarrow> (string + unit) \<times> 'w"
  so_clean :: "u32 \<Rightarrow> disk_snapshot \<Rightarrow> edit_style \<Rightarrow> 'w \<Rightarrow> (string + unit) \<times> 'w"
  so_create :: "create_request \<Rightarrow> disk_snapshot \<Rightarrow> 'w \<Rightarrow> (string + unit) \<times> 'w"
  so_new_label :: string

definition storage_error_text :: "storage_error \<Rightarrow> string" where
  "storage_error_text e = fst e @ '': '' @ snd e"

text \<open>\<open>create_partition_checked\<close> refuses a malformed request before it looks at the disk.\<close>

definition create_partition_checked ::
  "'w storage \<Rightarrow> create_request \<Rightarrow> disk_snapshot \<Rightarrow> 'w \<Rightarrow> (string + unit) \<times> 'w" where
  "create_partition_checked so q expected w =
     st_bind (map_err storage_error_text (validate_create_request q), w) (\<lambda>_. so_create so q expected)"

definition volume_offset :: "'w storage \<Rightarrow> 'w \<Rightarrow> scalar \<Rightarrow> (u32 \<times> u64) option" where
  "volume_offset so w letter =
     (case so_volume so w letter of Inl _ \<Rightarrow> None | Inr i \<Rightarrow> Some (vi_disk i, vi_offset i))"

end
