(* ===== verification/PartitionEdit.thy ===== *)
theory PartitionEdit
  imports PartitionDisk
begin

section \<open>Editing the partitions of a disk\<close>

text \<open>
  \<open>native_quick_partition_dialog.rs\<close> and the resizing part of \<open>quick_partition.rs\<close> of the normal system:
  the user reviews a disk and asks for changes of its partitions; each change is carried out only
  after a new inventory of the disk equals the reviewed one. Messages that the user reads are
  constructors.
\<close>

subsection \<open>Messages and errors\<close>

text \<open>A localized message is its meaning and its arguments.\<close>

datatype edit_text =
    PlainText string
  | Tr string "nat list" string
  | ShrinkFailed string edit_text
  | NotATailShrink edit_text
  | RecoveredDiffers volume_identity
  | RecoveryExtendFailed u64 string

abbreviation EspNotResizable :: "edit_text" where "EspNotResizable \<equiv> Tr ''ESP partitions cannot be resized'' [] ''''"
abbreviation MsrNotResizable :: "edit_text" where "MsrNotResizable \<equiv> Tr ''MSR partitions cannot be resized'' [] ''''"
abbreviation RecoveryNotResizable :: "edit_text" where "RecoveryNotResizable \<equiv> Tr ''recovery partitions cannot be resized'' [] ''''"
abbreviation LetterNeededToResize :: "edit_text" where "LetterNeededToResize \<equiv> Tr ''a partition without a letter cannot be resized'' [] ''''"
abbreviation SystemNotResizable :: "edit_text" where "SystemNotResizable \<equiv> Tr ''the running system partition cannot be resized'' [] ''''"
abbreviation OnlyNtfsResizable :: "edit_text" where "OnlyNtfsResizable \<equiv> Tr ''only NTFS partitions can be resized'' [] ''''"
abbreviation TargetTooSmall :: "u64 \<Rightarrow> u64 \<Rightarrow> u64 \<Rightarrow> edit_text" where "TargetTooSmall a b c \<equiv> Tr ''target below the used space'' [unat a, unat b, unat c] ''''"
abbreviation TargetZero :: "edit_text" where "TargetZero \<equiv> Tr ''target size is zero'' [] ''''"
abbreviation SizeUnchanged :: "edit_text" where "SizeUnchanged \<equiv> Tr ''size unchanged'' [] ''''"
abbreviation LetterNeeded :: "edit_text" where "LetterNeeded \<equiv> Tr ''partition has no letter'' [] ''''"
abbreviation TargetChanged :: "edit_text" where "TargetChanged \<equiv> Tr ''target changed before execution'' [] ''''"
abbreviation DiskAbsent :: "u32 \<Rightarrow> edit_text" where "DiskAbsent a \<equiv> Tr ''disk does not exist'' [unat a] ''''"
abbreviation PartitionAbsent :: "u32 \<Rightarrow> edit_text" where "PartitionAbsent a \<equiv> Tr ''partition does not exist'' [unat a] ''''"
abbreviation SystemUnknown :: "string \<Rightarrow> edit_text" where "SystemUnknown a \<equiv> Tr ''running system volume unknown'' [] a"
abbreviation SystemDiskUnknown :: "edit_text" where "SystemDiskUnknown \<equiv> Tr ''disk of the running system volume unknown'' [] ''''"
abbreviation SystemPartitionProtected :: "scalar \<Rightarrow> edit_text" where "SystemPartitionProtected a \<equiv> Tr ''running system partition'' [a] ''''"
abbreviation LetterNeededToShrink :: "edit_text" where "LetterNeededToShrink \<equiv> Tr ''no letter to shrink by'' [] ''''"
abbreviation ShrinkTooLarge :: "edit_text" where "ShrinkTooLarge \<equiv> Tr ''shrink size out of range'' [] ''''"
abbreviation IdentityChangedBeforeShrink :: "edit_text" where "IdentityChangedBeforeShrink \<equiv> Tr ''identity changed before shrinking'' [] ''''"
abbreviation ShrunkBy :: "u64 \<Rightarrow> edit_text" where "ShrunkBy a \<equiv> Tr ''partition shrunk'' [unat a] ''''"
abbreviation LetterNeededToExtend :: "edit_text" where "LetterNeededToExtend \<equiv> Tr ''no letter to extend by'' [] ''''"
abbreviation ExtendBeyondGap :: "u64 \<Rightarrow> u64 \<Rightarrow> edit_text" where "ExtendBeyondGap a b \<equiv> Tr ''extension beyond the free space behind'' [unat a, unat b] ''''"
abbreviation ExtendTooLarge :: "edit_text" where "ExtendTooLarge \<equiv> Tr ''extension size out of range'' [] ''''"
abbreviation IdentityChangedBeforeExtend :: "edit_text" where "IdentityChangedBeforeExtend \<equiv> Tr ''identity changed before extending'' [] ''''"
abbreviation ExtendedBy :: "u64 \<Rightarrow> edit_text" where "ExtendedBy a \<equiv> Tr ''partition extended'' [unat a] ''''"
abbreviation NoRereadNoExtend :: "string \<Rightarrow> edit_text" where "NoRereadNoExtend a \<equiv> Tr ''cannot reread, not extended'' [] a"
abbreviation NothingToRecover :: "edit_text" where "NothingToRecover \<equiv> Tr ''nothing to recover'' [] ''''"
abbreviation NotSamePartition :: "edit_text" where "NotSamePartition \<equiv> Tr ''letter names another partition'' [] ''''"
abbreviation NotShrunk :: "edit_text" where "NotShrunk \<equiv> Tr ''no shrunk tail'' [] ''''"
abbreviation RecoveredBytes :: "u64 \<Rightarrow> edit_text" where "RecoveredBytes a \<equiv> Tr ''recovered'' [unat a] ''''"
abbreviation RecoveredUnread :: "string \<Rightarrow> edit_text" where "RecoveredUnread a \<equiv> Tr ''recovered, final reading failed'' [] a"
abbreviation CompoundShape :: "edit_text" where "CompoundShape \<equiv> Tr ''a compound transfer is an extension and a transfer'' [] ''''"
abbreviation CompoundInconsistent :: "edit_text" where "CompoundInconsistent \<equiv> Tr ''compound layout inconsistent'' [] ''''"
abbreviation CompoundTotalChanged :: "edit_text" where "CompoundTotalChanged \<equiv> Tr ''compound total changed'' [] ''''"
abbreviation CompoundUsageGrew :: "edit_text" where "CompoundUsageGrew \<equiv> Tr ''compound usage grew'' [] ''''"
abbreviation SelectDiskFirst :: "edit_text" where "SelectDiskFirst \<equiv> Tr ''select a disk first'' [] ''''"
abbreviation PartitionUnavailable :: "edit_text" where "PartitionUnavailable \<equiv> Tr ''partition information unavailable'' [] ''''"
abbreviation NotNeighbours :: "edit_text" where "NotNeighbours \<equiv> Tr ''neighbour information unavailable'' [] ''''"
abbreviation NotAdjacent :: "edit_text" where "NotAdjacent \<equiv> Tr ''only between adjacent partitions'' [] ''''"
abbreviation TransferUnchanged :: "edit_text" where "TransferUnchanged \<equiv> Tr ''size has not changed'' [] ''''"
abbreviation TransferTooSmall :: "edit_text" where "TransferTooSmall \<equiv> Tr ''not enough space for the data'' [] ''''"
abbreviation PartitionDeleted :: "edit_text" where "PartitionDeleted \<equiv> Tr ''partition deleted'' [] ''''"
abbreviation FormattedAs :: "string \<Rightarrow> edit_text" where "FormattedAs a \<equiv> Tr ''partition formatted'' [] a"
abbreviation LetterAssigned :: "scalar \<Rightarrow> edit_text" where "LetterAssigned a \<equiv> Tr ''letter assigned'' [a] ''''"
abbreviation LetterRemoved :: "scalar \<Rightarrow> edit_text" where "LetterRemoved a \<equiv> Tr ''letter removed'' [a] ''''"
abbreviation SetActive :: "edit_text" where "SetActive \<equiv> Tr ''set active'' [] ''''"
abbreviation ClearedActive :: "edit_text" where "ClearedActive \<equiv> Tr ''active cleared'' [] ''''"
abbreviation PartitionCreated :: "scalar \<Rightarrow> edit_text" where "PartitionCreated a \<equiv> Tr ''partition created'' [a] ''''"

datatype edit_error =
    EditDenied | InvalidRequest edit_text | InventoryFailed string | DiskMissing u32 | DiskChanged
  | PartitionMissing u32 | PartitionChanged | ExecutionFailed edit_text

definition invalid_resize :: "string \<Rightarrow> edit_error" where
  "invalid_resize detail = InvalidRequest (PlainText detail)"

subsection \<open>A request to resize\<close>

record resize_request =
  rz_disk :: disk_print
  rz_number :: u32
  rz_letter :: scalar
  rz_current :: u64
  rz_new :: u64
  rz_used :: u64
  rz_no_move_max :: u64
  rz_move_max :: u64

definition validate_existing_resize_target :: "disk_partition \<Rightarrow> scalar \<Rightarrow> edit_text + unit" where
  "validate_existing_resize_target p system_drive =
     (if dp_esp p then Inl EspNotResizable
      else if dp_msr p then Inl MsrNotResizable
      else if dp_recovery p then Inl RecoveryNotResizable
      else
        and_then (ok_or (dp_letter p) LetterNeededToResize) (\<lambda>letter.
        if scalar_eq letter system_drive then Inl SystemNotResizable
        else if \<not> eq_ignore_ascii_case (trim (dp_file_system p)) ''NTFS'' then Inl OnlyNtfsResizable
        else Inr ()))"

definition following_reclaimable_mib :: "physical_disk \<Rightarrow> disk_partition \<Rightarrow> scalar \<Rightarrow> u64" where
  "following_reclaimable_mib d target system_drive =
     (let target_end = saturating_add (dp_offset target) (dp_size target) in
      case min_by_key dp_offset (filter (\<lambda>p. target_end \<le> dp_offset p) (pd_partitions d)) of
        None \<Rightarrow> 0
      | Some next \<Rightarrow>
          if \<not> is_ok (validate_existing_resize_target next system_drive) then 0
          else bytes_to_mib (saturating_sub (dp_size next) (saturating_add (dp_used next) (100 * 1024 * 1024))))"

definition validate_resize_request_shape :: "resize_request \<Rightarrow> edit_error + unit" where
  "validate_resize_request_shape q =
     (if dk_size (rz_disk q) = 0 then Inl (invalid_resize ''selected disk reports zero capacity'')
      else if rz_number q = 0 then Inl (invalid_resize ''partition number must be non-zero'')
      else if \<not> scalar_alpha (rz_letter q) then Inl (invalid_resize ''drive letter must be an ASCII letter'')
      else if rz_current q = 0 \<or> rz_new q = 0 then Inl (invalid_resize ''partition sizes must be non-zero'')
      else if rz_current q < rz_used q then
        Inl (invalid_resize ''used space cannot exceed the current partition size'')
      else
        (let minimum = saturating_add (rz_used q) 100 in
         if rz_new q < minimum then
           Inl (invalid_resize (''target size must be at least '' @ show_nat (unat minimum) @ '' MiB''))
         else if rz_no_move_max q < rz_current q \<or> rz_move_max q < rz_no_move_max q \<or> rz_move_max q < rz_new q then
           Inl (invalid_resize ''partition move limits are inconsistent'')
         else Inr ()))"

definition no_move_maximum :: "physical_disk \<Rightarrow> disk_partition \<Rightarrow> u32 \<Rightarrow> u64" where
  "no_move_maximum d p n = bytes_to_mib (saturating_add (dp_size p) (unallocated_after_bytes d n))"

definition validate_resize_request_against_disk ::
  "resize_request \<Rightarrow> physical_disk \<Rightarrow> scalar \<Rightarrow> edit_error + unit" where
  "validate_resize_request_against_disk q d system_drive =
     and_then (ok_or (find_partition (rz_number q) d) (PartitionMissing (rz_number q))) (\<lambda>p.
     if map_option scalar_upper (dp_letter p) \<noteq> Some (scalar_upper (rz_letter q)) \<or>
        bytes_to_mib (dp_size p) \<noteq> rz_current q \<or> bytes_to_mib (dp_used p) \<noteq> rz_used q
     then Inl PartitionChanged
     else
       and_then (map_err InvalidRequest (validate_existing_resize_target p system_drive)) (\<lambda>_.
       let no_move = no_move_maximum d p (rz_number q);
           maximum = saturating_add no_move (following_reclaimable_mib d p system_drive) in
       if rz_no_move_max q \<noteq> no_move \<or> rz_move_max q \<noteq> maximum then Inl DiskChanged
       else if maximum < rz_new q then
         Inl (invalid_resize (''target size exceeds the current adjacent limit of '' @ show_nat (unat maximum) @ '' MiB''))
       else Inr ()))"

record resize_result =
  rr_success :: bool
  rr_message :: edit_text
  rr_new_size :: u64

record resize_outcome =
  ro_message :: edit_text
  ro_new_size :: u64

text \<open>The inventory and the runner are the trait objects of the code.\<close>

definition resize_with_backends ::
  "resize_request \<Rightarrow> scalar \<Rightarrow> ('w \<Rightarrow> (string + physical_disk list) \<times> 'w) \<Rightarrow> ('w \<Rightarrow> u32 \<Rightarrow> string + disk_snapshot) \<Rightarrow>
   (resize_request \<Rightarrow> 'w \<Rightarrow> resize_result \<times> 'w) \<Rightarrow> 'w \<Rightarrow> (edit_error + resize_outcome) \<times> 'w" where
  "resize_with_backends q system_drive list_disks snapshot run w =
     st_bind (validate_resize_request_shape q, w) (\<lambda>_ w.
     st_bind (apfst (map_err InventoryFailed) (list_disks w)) (\<lambda>disks w.
     st_bind (ok_or (find_disk (dk_number (rz_disk q)) disks) (DiskMissing (dk_number (rz_disk q))), w) (\<lambda>d w.
     if disk_print_of (snapshot w) d \<noteq> rz_disk q then (Inl DiskChanged, w)
     else
       st_bind (validate_resize_request_against_disk q d system_drive, w) (\<lambda>_ w.
       if dk_snapshot (rz_disk q) = None then
         (Inl (InventoryFailed ''canonical physical-disk identity is unavailable; refresh and retry''), w)
       else if rz_no_move_max q < rz_new q then
         (Inl (InvalidRequest (PlainText ''this expansion requires the typed WinPE partition-move handoff'')), w)
       else
         (case run q w of (result, w) \<Rightarrow>
            if \<not> rr_success result then (Inl (ExecutionFailed (rr_message result)), w)
            else if rr_new_size result \<noteq> rz_new q then
              (Inl (ExecutionFailed (PlainText ''resize runner reported an unexpected final size'')), w)
            else (Inr \<lparr>ro_message = rr_message result, ro_new_size = rr_new_size result\<rparr>, w))))))"

subsection \<open>Shrinking and extending\<close>

definition current_partition :: "'w storage \<Rightarrow> u32 \<Rightarrow> u32 \<Rightarrow> 'w \<Rightarrow> (edit_text + disk_partition) \<times> 'w" where
  "current_partition so disk_number number w =
     (case so_disks so w of (disks, w) \<Rightarrow>
        (and_then (ok_or (find_disk disk_number disks) (DiskAbsent disk_number)) (\<lambda>d.
         ok_or (find_partition number d) (PartitionAbsent number)), w))"

definition reject_running_system_partition :: "'w storage \<Rightarrow> u32 \<Rightarrow> disk_partition \<Rightarrow> 'w \<Rightarrow> edit_text + unit" where
  "reject_running_system_partition so disk_number p w =
     and_then (map_err SystemUnknown (so_windows_letter so w)) (\<lambda>system_letter.
     and_then (ok_or (volume_offset so w system_letter) SystemDiskUnknown) (\<lambda>(system_disk, system_offset).
     if system_disk = disk_number \<and> system_offset = dp_offset p then Inl (SystemPartitionProtected system_letter)
     else Inr ()))"

definition quick_observed_shrink :: "stable_volume \<Rightarrow> stable_volume \<Rightarrow> edit_text + u64 option" where
  "quick_observed_shrink before current =
     (if same_stable_volume_identity before current then Inr None
      else if \<not> same_stable_partition_identity before current then Inl NotSamePartition
      else if vi_length (sv_extent before) \<le> vi_length (sv_extent current) then Inl NotShrunk
      else Inr (Some (vi_length (sv_extent before) - vi_length (sv_extent current))))"

definition recover_observed_shrink :: "'w storage \<Rightarrow> scalar \<Rightarrow> stable_volume \<Rightarrow> 'w \<Rightarrow> edit_text \<times> 'w" where
  "recover_observed_shrink so letter before w =
     (case so_stable so w letter of
        Inl e \<Rightarrow> (NoRereadNoExtend e, w)
      | Inr current \<Rightarrow>
          (case quick_observed_shrink before current of
             Inr None \<Rightarrow> (NothingToRecover, w)
           | Inl e \<Rightarrow> (NotATailShrink e, w)
           | Inr (Some reclaimed) \<Rightarrow>
               (case so_extend so letter current reclaimed w of
                  (Inl e, w) \<Rightarrow> (RecoveryExtendFailed reclaimed e, w)
                | (Inr _, w) \<Rightarrow>
                    (case so_stable so w letter of
                       Inl e \<Rightarrow> (RecoveredUnread e, w)
                     | Inr restored \<Rightarrow>
                         (if same_stable_volume_identity restored before then RecoveredBytes reclaimed
                          else RecoveredDiffers (sv_extent restored), w)))))"

definition partition_extent :: "u32 \<Rightarrow> disk_partition \<Rightarrow> volume_identity" where
  "partition_extent disk_number p = \<lparr>vi_disk = disk_number, vi_offset = dp_offset p, vi_length = dp_size p\<rparr>"

definition shrink_partition :: "'w storage \<Rightarrow> u32 \<Rightarrow> u32 \<Rightarrow> u64 \<Rightarrow> 'w \<Rightarrow> (edit_text + edit_text) \<times> 'w" where
  "shrink_partition so disk_number number shrink_mb w =
     st_bind (current_partition so disk_number number w) (\<lambda>p w.
     st_bind (reject_running_system_partition so disk_number p w, w) (\<lambda>_ w.
     st_bind (ok_or (dp_letter p) LetterNeededToShrink, w) (\<lambda>letter w.
     st_bind (ok_or (checked_mul shrink_mb PART_MIB) ShrinkTooLarge, w) (\<lambda>requested w.
     st_bind (map_err PlainText (so_stable so w letter), w) (\<lambda>expected w.
     if \<not> same_volume_identity (sv_extent expected) (partition_extent disk_number p)
     then (Inl IdentityChangedBeforeShrink, w)
     else
       (case so_shrink so letter expected requested requested w of
          (Inr reclaimed, w) \<Rightarrow> (Inr (ShrunkBy (reclaimed div PART_MIB)), w)
        | (Inl e, w) \<Rightarrow>
            (case recover_observed_shrink so letter expected w of (recovery, w) \<Rightarrow> (Inl (ShrinkFailed e recovery), w))))))))"

text \<open>The last part of \<open>extend_partition\<close>, once the size is settled.\<close>

definition extend_by :: "'w storage \<Rightarrow> u32 \<Rightarrow> disk_partition \<Rightarrow> scalar \<Rightarrow> u64 \<Rightarrow> 'w \<Rightarrow> (edit_text + edit_text) \<times> 'w" where
  "extend_by so disk_number p letter requested_mb w =
     st_bind (ok_or (checked_mul requested_mb PART_MIB) ExtendTooLarge, w) (\<lambda>requested w.
     st_bind (map_err PlainText (so_stable so w letter), w) (\<lambda>expected w.
     if \<not> same_volume_identity (sv_extent expected) (partition_extent disk_number p)
     then (Inl IdentityChangedBeforeExtend, w)
     else
       st_bind (apfst (map_err PlainText) (so_extend so letter expected requested w)) (\<lambda>_ w.
       (Inr (ExtendedBy requested_mb), w))))"

definition extend_partition :: "'w storage \<Rightarrow> u32 \<Rightarrow> u32 \<Rightarrow> u64 option \<Rightarrow> 'w \<Rightarrow> (edit_text + edit_text) \<times> 'w" where
  "extend_partition so disk_number number extend_mb w =
     (case so_disks so w of (disks, w) \<Rightarrow>
     st_bind (ok_or (find_disk disk_number disks) (DiskAbsent disk_number), w) (\<lambda>d w.
     st_bind (ok_or (find_partition number d) (PartitionAbsent number), w) (\<lambda>p w.
     st_bind (reject_running_system_partition so disk_number p w, w) (\<lambda>_ w.
     st_bind (ok_or (dp_letter p) LetterNeededToExtend, w) (\<lambda>letter w.
     let available_mb = unallocated_after d number;
         requested_mb = (case extend_mb of None \<Rightarrow> available_mb | Some m \<Rightarrow> m) in
     if requested_mb = 0 \<or> available_mb < requested_mb then (Inl (ExtendBeyondGap requested_mb available_mb), w)
     else extend_by so disk_number p letter requested_mb w)))))"

definition resize_existing_partition ::
  "'w storage \<Rightarrow> u32 \<Rightarrow> u32 \<Rightarrow> scalar option \<Rightarrow> u64 \<Rightarrow> u64 \<Rightarrow> u64 \<Rightarrow> 'w \<Rightarrow> resize_result \<times> 'w" where
  "resize_existing_partition so disk_number number drive_letter current_mb new_mb used_mb w =
     (let failed = (\<lambda>m. \<lparr>rr_success = False, rr_message = m, rr_new_size = current_mb\<rparr>);
          min_size_mb = used_mb + 100 in
      if new_mb < min_size_mb then (failed (TargetTooSmall new_mb used_mb min_size_mb), w)
      else if new_mb = 0 then (failed TargetZero, w)
      else if new_mb = current_mb then
        (\<lparr>rr_success = True, rr_message = SizeUnchanged, rr_new_size = current_mb\<rparr>, w)
      else
        (case drive_letter of
           None \<Rightarrow> (failed LetterNeeded, w)
         | Some letter \<Rightarrow>
             (case current_partition so disk_number number w of
                (Inl e, w) \<Rightarrow> (failed e, w)
              | (Inr fresh, w) \<Rightarrow>
                  if map_option scalar_upper (dp_letter fresh) \<noteq> Some (scalar_upper letter) \<or>
                     dp_size fresh div PART_MIB \<noteq> current_mb
                  then (failed TargetChanged, w)
                  else
                    (case (if new_mb < current_mb
                           then shrink_partition so disk_number number (current_mb - new_mb) w
                           else extend_partition so disk_number number (Some (new_mb - current_mb)) w) of
                       (Inr message, w) \<Rightarrow> (\<lparr>rr_success = True, rr_message = message, rr_new_size = new_mb\<rparr>, w)
                     | (Inl e, w) \<Rightarrow> (failed e, w)))))"

definition execute_existing_partition_resize ::
  "'w storage \<Rightarrow> resize_request \<Rightarrow> 'w \<Rightarrow> (edit_error + resize_outcome) \<times> 'w" where
  "execute_existing_partition_resize so q w =
     st_bind (map_err (\<lambda>e. InventoryFailed (''cannot identify the running Windows volume: '' @ e)) (so_windows_letter so w), w)
       (\<lambda>system_drive w.
     resize_with_backends q system_drive (apfst Inr \<circ> so_disks so) (so_snapshot so)
       (\<lambda>q. resize_existing_partition so (dk_number (rz_disk q)) (rz_number q) (Some (rz_letter q))
          (rz_current q) (rz_new q) (rz_used q)) w)"

subsection \<open>Space from a neighbour\<close>

record transfer_request =
  tr_disk :: disk_print
  tr_left :: partition_print
  tr_left_letter :: scalar
  tr_left_current :: u64
  tr_left_new :: u64
  tr_left_used :: u64
  tr_right :: partition_print
  tr_right_letter :: scalar
  tr_right_current :: u64
  tr_right_new :: u64
  tr_right_used :: u64

definition nth_opt :: "'a list \<Rightarrow> nat \<Rightarrow> 'a option" where
  "nth_opt xs i = (if i < length xs then Some (xs ! i) else None)"

text \<open>
  The request for a transfer between two neighbours, from the selected disk of the dialog; \<open>expect\<close>
  on a letter that was just checked is the unreachable branch \<open>0\<close>.
\<close>

definition transfer_from_sizes ::
  "(u32 \<Rightarrow> string + disk_snapshot) \<Rightarrow> physical_disk option \<Rightarrow> scalar \<Rightarrow> nat \<Rightarrow> nat \<Rightarrow> u64 \<Rightarrow> u64 \<Rightarrow> u64 \<Rightarrow>
   edit_text + transfer_request" where
  "transfer_from_sizes snapshot selected system_drive left_index right_index left_current right_current left_new =
     and_then (ok_or selected SelectDiskFirst) (\<lambda>d.
     if right_index \<noteq> min (left_index + 1) (2 ^ 64 - 1) then Inl NotNeighbours
     else
       and_then (ok_or (nth_opt (pd_partitions d) left_index) PartitionUnavailable) (\<lambda>left.
       and_then (ok_or (nth_opt (pd_partitions d) right_index) PartitionUnavailable) (\<lambda>right.
       and_then (validate_existing_resize_target left system_drive) (\<lambda>_.
       and_then (validate_existing_resize_target right system_drive) (\<lambda>_.
       if dp_offset right \<noteq> saturating_add (dp_offset left) (dp_size left) then Inl NotAdjacent
       else
         (let total = saturating_add left_current right_current in
          if left_new = left_current \<or> total \<le> left_new then Inl TransferUnchanged
          else
            (let right_new = total - left_new;
                 left_minimum = saturating_add (bytes_to_mib (dp_used left)) 100;
                 right_minimum = saturating_add (bytes_to_mib (dp_used right)) 100 in
             if left_new < left_minimum \<or> right_new < right_minimum then Inl TransferTooSmall
             else Inr \<lparr>tr_disk = disk_print_of snapshot d, tr_left = partition_print_of left,
               tr_left_letter = (case dp_letter left of Some l \<Rightarrow> l | None \<Rightarrow> 0),
               tr_left_current = left_current, tr_left_new = left_new, tr_left_used = bytes_to_mib (dp_used left),
               tr_right = partition_print_of right,
               tr_right_letter = (case dp_letter right of Some l \<Rightarrow> l | None \<Rightarrow> 0),
               tr_right_current = right_current, tr_right_new = right_new,
               tr_right_used = bytes_to_mib (dp_used right)\<rparr>)))))))"

definition adjacent_transfer ::
  "(u32 \<Rightarrow> string + disk_snapshot) \<Rightarrow> physical_disk option \<Rightarrow> scalar \<Rightarrow> nat \<Rightarrow> nat \<Rightarrow> u64 \<Rightarrow>
   edit_text + transfer_request" where
  "adjacent_transfer snapshot selected system_drive left_index right_index left_new =
     and_then (ok_or selected SelectDiskFirst) (\<lambda>d.
     and_then (ok_or (nth_opt (pd_partitions d) left_index) PartitionUnavailable) (\<lambda>left.
     and_then (ok_or (nth_opt (pd_partitions d) right_index) PartitionUnavailable) (\<lambda>right.
     transfer_from_sizes snapshot selected system_drive left_index right_index
       (bytes_to_mib (dp_size left)) (bytes_to_mib (dp_size right)) left_new)))"

subsection \<open>Managing a partition\<close>

datatype manage_action =
    DeletePartition partition_print
  | FormatPartition partition_print format_options
  | AssignLetter partition_print scalar
  | RemoveLetter partition_print
  | SetMbrActive partition_print bool
  | CreateNtfs u64 u64 scalar "edit_style option"

record manage_request =
  mq_disk :: disk_print
  mq_action :: manage_action

definition reject_protected_target :: "u32 \<Rightarrow> disk_partition \<Rightarrow> volume_identity \<Rightarrow> bool \<Rightarrow> edit_error + unit" where
  "reject_protected_target disk_number p running protect_running_disk =
     (if disk_number = vi_disk running \<and> (protect_running_disk \<or> dp_offset p = vi_offset running)
      then Inl (invalid_resize ''the running Windows volume or its disk is protected'') else Inr ())"

definition find_at :: "u64 \<Rightarrow> physical_disk \<Rightarrow> disk_partition option" where
  "find_at off d = find (\<lambda>p. dp_offset p = off) (pd_partitions d)"

definition action_done :: "manage_action \<Rightarrow> physical_disk \<Rightarrow> bool" where
  "action_done action d = (case action of
     DeletePartition p \<Rightarrow> \<not> list_ex (\<lambda>c. dp_offset c = pp_offset p) (pd_partitions d)
   | FormatPartition p options \<Rightarrow> (case find_at (pp_offset p) d of None \<Rightarrow> False | Some c \<Rightarrow>
       eq_ignore_ascii_case (dp_file_system c) (file_system_name (fo_file_system options)) \<and> dp_label c = fo_label options)
   | AssignLetter p letter \<Rightarrow> (case find_at (pp_offset p) d of None \<Rightarrow> False | Some c \<Rightarrow>
       (case dp_letter c of None \<Rightarrow> False | Some l \<Rightarrow> scalar_eq l letter))
   | RemoveLetter p \<Rightarrow> (case find_at (pp_offset p) d of None \<Rightarrow> False | Some c \<Rightarrow> dp_letter c = None)
   | SetMbrActive p active \<Rightarrow> (case find_at (pp_offset p) d of None \<Rightarrow> False | Some c \<Rightarrow> dp_active c = active)
   | CreateNtfs off len letter _ \<Rightarrow> (case find_at off d of None \<Rightarrow> False | Some c \<Rightarrow>
       dp_size c = len \<and> eq_ignore_ascii_case (dp_file_system c) ''NTFS'' \<and>
       (case dp_letter c of None \<Rightarrow> False | Some l \<Rightarrow> scalar_eq l letter)))"

definition style_done :: "manage_action \<Rightarrow> physical_disk \<Rightarrow> bool" where
  "style_done action d = (case action of CreateNtfs _ _ _ (Some expected) \<Rightarrow> pd_style d = expected | _ \<Rightarrow> True)"

definition verify_partition_management :: "'w storage \<Rightarrow> manage_request \<Rightarrow> 'w \<Rightarrow> (edit_error + unit) \<times> 'w" where
  "verify_partition_management so q w =
     (case so_disks so w of (disks, w) \<Rightarrow>
        (and_then (ok_or (find_disk (dk_number (mq_disk q)) disks) (DiskMissing (dk_number (mq_disk q)))) (\<lambda>d.
         if action_done (mq_action q) d \<and> style_done (mq_action q) d then Inr ()
         else Inl (ExecutionFailed (PlainText
           ''post-operation partition inventory does not match the requested state''))), w))"

definition overlaps_extent :: "u64 \<Rightarrow> u64 \<Rightarrow> disk_partition \<Rightarrow> bool" where
  "overlaps_extent off extent_end p \<longleftrightarrow>
     off < saturating_add (dp_offset p) (dp_size p) \<and> dp_offset p < extent_end"

abbreviation failing :: "(string + 'a) \<times> 'w \<Rightarrow> (edit_error + 'a) \<times> 'w" where
  "failing \<equiv> apfst (map_err (\<lambda>e. ExecutionFailed (PlainText e)))"

text \<open>
  Creating a volume in an extent that is still free, on a disk that may have to be initialized first:
  the preparation returns the layout against which the volume is created.
\<close>

definition prepare_create ::
  "'w storage \<Rightarrow> physical_disk \<Rightarrow> disk_snapshot \<Rightarrow> edit_style option \<Rightarrow> 'w \<Rightarrow> (edit_error + disk_snapshot) \<times> 'w" where
  "prepare_create so d expected initialize w =
     (case initialize of
        Some style \<Rightarrow>
          if pd_initialized d \<or> pd_partitions d \<noteq> [] then
            (Inl (invalid_resize ''only an empty, uninitialized disk can be initialized''), w)
          else if style = StyleUnknown then
            (Inl (invalid_resize ''initialization style must be GPT or MBR''), w)
          else
            st_bind (failing (so_clean so (pd_number d) expected style w)) (\<lambda>_ w.
            failing (so_snapshot so w (pd_number d), w))
      | None \<Rightarrow>
          if \<not> pd_initialized d then
            (Inl (invalid_resize ''an uninitialized disk requires an explicit GPT or MBR choice''), w)
          else (Inr expected, w))"

definition create_ntfs ::
  "'w storage \<Rightarrow> physical_disk \<Rightarrow> disk_snapshot \<Rightarrow> u64 \<Rightarrow> u64 \<Rightarrow> scalar \<Rightarrow> edit_style option \<Rightarrow> 'w \<Rightarrow>
   (edit_error + edit_text) \<times> 'w" where
  "create_ntfs so d expected off len letter initialize w =
     (if len = 0 then (Inl (invalid_resize ''unallocated extent is empty''), w)
      else
        st_bind (ok_or (checked_add off len) (invalid_resize ''unallocated extent overflows''), w) (\<lambda>extent_end w.
        if pd_size d < extent_end \<or> list_ex (overlaps_extent off extent_end) (pd_partitions d)
        then (Inl (invalid_resize ''requested extent is no longer unallocated''), w)
        else
          st_bind (prepare_create so d expected initialize w) (\<lambda>create_layout w.
          st_bind (failing (create_partition_checked so
              \<lparr>cr_disk = pd_number d, cr_offset = off, cr_size = len, cr_kind = BasicDataKind,
               cr_file_system = Some FsNtfs, cr_label = so_new_label so, cr_letter = Some letter,
               cr_active = False, cr_metadata = None\<rparr> create_layout w)) (\<lambda>_ w.
          (Inr (PartitionCreated letter), w)))))"

definition perform_action ::
  "'w storage \<Rightarrow> physical_disk \<Rightarrow> disk_snapshot \<Rightarrow> volume_identity \<Rightarrow> manage_action \<Rightarrow> 'w \<Rightarrow>
   (edit_error + edit_text) \<times> 'w" where
  "perform_action so d expected running action w =
     (let on_partition = (\<lambda>print. ok_or (find (\<lambda>p. partition_print_of p = print) (pd_partitions d)) PartitionChanged);
          n = pd_number d in
      case action of
        DeletePartition print \<Rightarrow>
          st_bind (on_partition print, w) (\<lambda>p w.
          st_bind (reject_protected_target n p running True, w) (\<lambda>_ w.
          st_bind (failing (so_delete so n (dp_offset p) True expected w)) (\<lambda>_ w. (Inr PartitionDeleted, w))))
      | FormatPartition print options \<Rightarrow>
          st_bind (on_partition print, w) (\<lambda>p w.
          st_bind (reject_protected_target n p running True, w) (\<lambda>_ w.
          if dp_esp p \<or> dp_msr p \<or> dp_recovery p then
            (Inl (invalid_resize ''special partitions cannot be formatted from this tool''), w)
          else
            st_bind (ok_or (dp_letter p) (invalid_resize ''partition needs a drive letter before formatting''), w) (\<lambda>letter w.
            st_bind (map_err (\<lambda>e. ExecutionFailed (PlainText e)) (so_stable so w letter), w) (\<lambda>stable w.
            if \<not> same_volume_identity (sv_extent stable) (partition_extent n p) then (Inl PartitionChanged, w)
            else
              st_bind (failing (so_format so letter stable options w)) (\<lambda>_ w.
              (Inr (FormattedAs (file_system_name (fo_file_system options))), w))))))
      | AssignLetter print letter \<Rightarrow>
          st_bind (on_partition print, w) (\<lambda>p w.
          st_bind (reject_protected_target n p running False, w) (\<lambda>_ w.
          if dp_letter p \<noteq> None then (Inl (invalid_resize ''partition already has a drive letter''), w)
          else
            st_bind (failing (so_assign so n (dp_offset p) letter expected w)) (\<lambda>_ w. (Inr (LetterAssigned letter), w))))
      | RemoveLetter print \<Rightarrow>
          st_bind (on_partition print, w) (\<lambda>p w.
          st_bind (reject_protected_target n p running True, w) (\<lambda>_ w.
          st_bind (ok_or (dp_letter p) (invalid_resize ''partition has no drive letter''), w) (\<lambda>letter w.
          st_bind (failing (so_remove so n (dp_offset p) letter expected w)) (\<lambda>_ w. (Inr (LetterRemoved letter), w)))))
      | SetMbrActive print active \<Rightarrow>
          st_bind (on_partition print, w) (\<lambda>p w.
          st_bind (reject_protected_target n p running False, w) (\<lambda>_ w.
          if pd_style d \<noteq> StyleMbr then (Inl (invalid_resize ''active flags are available only on MBR disks''), w)
          else
            st_bind (failing (so_active so n (dp_offset p) active expected w)) (\<lambda>_ w.
            (Inr (if active then SetActive else ClearedActive), w))))
      | CreateNtfs off len letter initialize \<Rightarrow> create_ntfs so d expected off len letter initialize w)"

definition execute_partition_management :: "'w storage \<Rightarrow> manage_request \<Rightarrow> 'w \<Rightarrow> (edit_error + edit_text) \<times> 'w" where
  "execute_partition_management so q w =
     (case so_disks so w of (disks, w) \<Rightarrow>
     st_bind (ok_or (find_disk (dk_number (mq_disk q)) disks) (DiskMissing (dk_number (mq_disk q))), w) (\<lambda>d w.
     if disk_print_of (so_snapshot so w) d \<noteq> mq_disk q then (Inl DiskChanged, w)
     else
       st_bind (ok_or (dk_snapshot (mq_disk q)) (InventoryFailed
         ''canonical physical-disk identity is unavailable; refresh and retry''), w) (\<lambda>expected w.
       st_bind (map_err (\<lambda>e. InventoryFailed (''cannot identify the running Windows volume: '' @ e))
         (so_windows_letter so w), w) (\<lambda>windows w.
       st_bind (map_err InventoryFailed (so_volume so w windows), w) (\<lambda>running w.
       st_bind (perform_action so d expected running (mq_action q) w) (\<lambda>message w.
       st_bind (verify_partition_management so q w) (\<lambda>_ w.
       (Inr message, w))))))))"

subsection \<open>Several operations\<close>

datatype pending =
    PendingResize resize_request
  | PendingTransfer transfer_request
  | PendingManage manage_request

definition compound_offline_transfer_preview :: "pending list \<Rightarrow> edit_text + transfer_request" where
  "compound_offline_transfer_preview ops =
     (case ops of
        [PendingResize r, PendingTransfer t] \<Rightarrow>
          if rz_disk r \<noteq> tr_disk t \<or> rz_number r \<noteq> pp_number (tr_right t) \<or> rz_new r \<le> rz_current r \<or>
             rz_no_move_max r < rz_new r \<or> rz_move_max r < rz_new r \<or> rz_new r \<noteq> tr_right_current t \<or>
             tr_left_current t \<noteq> bytes_to_mib (pp_size (tr_left t)) \<or>
             saturating_add (tr_left_new t) (tr_right_new t) \<noteq> saturating_add (tr_left_current t) (tr_right_current t)
          then Inl CompoundInconsistent else Inr t
      | _ \<Rightarrow> Inl CompoundShape)"

fun first_resize :: "pending list \<Rightarrow> resize_request option" where
  "first_resize [] = None"
| "first_resize (PendingResize r # ops) = Some r"
| "first_resize (_ # ops) = first_resize ops"

definition prepare_compound_offline_transfer ::
  "'w storage \<Rightarrow> pending list \<Rightarrow> 'w \<Rightarrow> (edit_error + transfer_request) \<times> 'w" where
  "prepare_compound_offline_transfer so ops w =
     st_bind (map_err InvalidRequest (compound_offline_transfer_preview ops), w) (\<lambda>t w.
     st_bind (case first_resize ops of None \<Rightarrow> (Inl (InvalidRequest CompoundShape), w)
        | Some r \<Rightarrow> execute_existing_partition_resize so r w) (\<lambda>_ w.
     (case so_disks so w of (disks, w) \<Rightarrow>
     st_bind (ok_or (find_disk (dk_number (tr_disk t)) disks) (DiskMissing (dk_number (tr_disk t))), w) (\<lambda>d w.
     st_bind (ok_or (find_partition (pp_number (tr_left t)) d) (PartitionMissing (pp_number (tr_left t))), w) (\<lambda>left w.
     st_bind (ok_or (find_partition (pp_number (tr_right t)) d) (PartitionMissing (pp_number (tr_right t))), w) (\<lambda>right w.
     st_bind (ok_or (dp_letter left) PartitionChanged, w) (\<lambda>left_letter w.
     st_bind (ok_or (dp_letter right) PartitionChanged, w) (\<lambda>right_letter w.
     if \<not> scalar_eq left_letter (tr_left_letter t) \<or> \<not> scalar_eq right_letter (tr_right_letter t) \<or>
        saturating_add (dp_offset left) (dp_size left) \<noteq> dp_offset right
     then (Inl PartitionChanged, w)
     else
       (let left_current = bytes_to_mib (dp_size left); right_current = bytes_to_mib (dp_size right) in
        if saturating_add left_current right_current \<noteq> saturating_add (tr_left_new t) (tr_right_new t)
        then (Inl (ExecutionFailed CompoundTotalChanged), w)
        else if tr_left_new t < saturating_add (bytes_to_mib (dp_used left)) 100 \<or>
          tr_right_new t < saturating_add (bytes_to_mib (dp_used right)) 100
        then (Inl (ExecutionFailed CompoundUsageGrew), w)
        else (Inr \<lparr>tr_disk = disk_print_of (so_snapshot so w) d, tr_left = partition_print_of left,
          tr_left_letter = left_letter, tr_left_current = left_current, tr_left_new = tr_left_new t,
          tr_left_used = bytes_to_mib (dp_used left), tr_right = partition_print_of right,
          tr_right_letter = right_letter, tr_right_current = right_current, tr_right_new = tr_right_new t,
          tr_right_used = bytes_to_mib (dp_used right)\<rparr>, w))))))))))"

definition rebase_management_action :: "manage_action \<Rightarrow> physical_disk \<Rightarrow> edit_error + manage_action" where
  "rebase_management_action action d =
     (let current = (\<lambda>print. map_option partition_print_of (find_at (pp_offset print) d)) in
      case action of
        DeletePartition p \<Rightarrow> and_then (ok_or (current p) PartitionChanged) (\<lambda>p. Inr (DeletePartition p))
      | FormatPartition p options \<Rightarrow>
          and_then (ok_or (current p) PartitionChanged) (\<lambda>p. Inr (FormatPartition p options))
      | AssignLetter p letter \<Rightarrow> and_then (ok_or (current p) PartitionChanged) (\<lambda>p. Inr (AssignLetter p letter))
      | RemoveLetter p \<Rightarrow> and_then (ok_or (current p) PartitionChanged) (\<lambda>p. Inr (RemoveLetter p))
      | SetMbrActive p active \<Rightarrow> and_then (ok_or (current p) PartitionChanged) (\<lambda>p. Inr (SetMbrActive p active))
      | CreateNtfs off len letter initialize \<Rightarrow> Inr (CreateNtfs off len letter initialize))"

fun pending_disk :: "pending \<Rightarrow> disk_print" where
  "pending_disk (PendingResize r) = rz_disk r"
| "pending_disk (PendingTransfer t) = tr_disk t"
| "pending_disk (PendingManage q) = mq_disk q"

definition run_pending_operation :: "'w storage \<Rightarrow> u32 \<Rightarrow> pending \<Rightarrow> 'w \<Rightarrow> (edit_error + edit_text) \<times> 'w" where
  "run_pending_operation so n op w =
     (case so_disks so w of (disks, w) \<Rightarrow>
     st_bind (ok_or (find_disk n disks) (DiskMissing n), w) (\<lambda>d w.
     (case op of
        PendingResize original \<Rightarrow>
          st_bind (ok_or (find_partition (rz_number original) d) (PartitionMissing (rz_number original)), w) (\<lambda>p w.
          st_bind (ok_or (dp_letter p) PartitionChanged, w) (\<lambda>letter w.
          st_bind (execute_existing_partition_resize so
              \<lparr>rz_disk = disk_print_of (so_snapshot so w) d, rz_number = dp_number p, rz_letter = letter,
               rz_current = bytes_to_mib (dp_size p), rz_new = rz_new original, rz_used = bytes_to_mib (dp_used p),
               rz_no_move_max = rz_no_move_max original, rz_move_max = rz_move_max original\<rparr> w) (\<lambda>outcome w.
          (Inr (ro_message outcome), w))))
      | PendingTransfer _ \<Rightarrow>
          (Inl (invalid_resize ''adjacent partition transfer requires the typed WinPE handoff''), w)
      | PendingManage original \<Rightarrow>
          st_bind (rebase_management_action (mq_action original) d, w) (\<lambda>action w.
          execute_partition_management so \<lparr>mq_disk = disk_print_of (so_snapshot so w) d, mq_action = action\<rparr> w))))"

text \<open>The messages of the operations, which the code joins into one text, are returned as a list.\<close>

fun run_pending :: "'w storage \<Rightarrow> u32 \<Rightarrow> pending list \<Rightarrow> 'w \<Rightarrow> (edit_error + edit_text list) \<times> 'w" where
  "run_pending so n [] w = (Inr [], w)"
| "run_pending so n (op # ops) w =
     st_bind (run_pending_operation so n op w) (\<lambda>message w.
     st_bind (run_pending so n ops w) (\<lambda>messages w. (Inr (message # messages), w)))"

definition execute_pending_partition_operations ::
  "'w storage \<Rightarrow> pending list \<Rightarrow> 'w \<Rightarrow> (edit_error + edit_text list) \<times> 'w" where
  "execute_pending_partition_operations so ops w =
     (case ops of
        [] \<Rightarrow> (Inl (invalid_resize ''no pending partition operations''), w)
      | first # _ \<Rightarrow>
          (let expected = pending_disk first in
           if list_ex (\<lambda>op. pending_disk op \<noteq> expected) ops then
             (Inl (invalid_resize ''all pending operations must target the same unchanged disk''), w)
           else
             (case so_disks so w of (disks, w) \<Rightarrow>
              st_bind (ok_or (find_disk (dk_number expected) disks) (DiskMissing (dk_number expected)), w) (\<lambda>d w.
              if disk_print_of (so_snapshot so w) d \<noteq> expected then (Inl DiskChanged, w)
              else run_pending so (dk_number expected) ops w))))"

subsection \<open>What a change may do\<close>

text \<open>
  The specification of the tools: the steps that may change the storage on behalf of disk \<open>n\<close>, each
  with the facts that justify it at the moment it happens. \<open>inspected\<close> says that the storage is as the
  last enumeration found it.
\<close>

definition inspected :: "'w storage \<Rightarrow> u32 \<Rightarrow> physical_disk \<Rightarrow> 'w \<Rightarrow> bool" where
  "inspected so n d w \<longleftrightarrow> (\<exists>w0 ds. so_disks so w0 = (ds, w) \<and> d \<in> set ds \<and> pd_number d = n)"

abbreviation dp_end :: "disk_partition \<Rightarrow> nat" where
  "dp_end p \<equiv> unat (dp_offset p) + unat (dp_size p)"

definition sane_disk :: "physical_disk \<Rightarrow> bool" where
  "sane_disk d \<longleftrightarrow> distinct (map dp_number (pd_partitions d)) \<and>
     (\<forall>p \<in> set (pd_partitions d). 0 < unat (dp_size p) \<and> dp_end p < 2 ^ 64 \<and> dp_end p \<le> unat (pd_size d)) \<and>
     (\<forall>p \<in> set (pd_partitions d). \<forall>q \<in> set (pd_partitions d). p = q \<or> dp_end p \<le> unat (dp_offset q) \<or>
        dp_end q \<le> unat (dp_offset p))"

definition free_range :: "physical_disk \<Rightarrow> nat \<Rightarrow> nat \<Rightarrow> bool" where
  "free_range d lo hi \<longleftrightarrow> hi \<le> unat (pd_size d) \<and>
     list_all (\<lambda>p. dp_end p \<le> lo \<or> hi \<le> unat (dp_offset p)) (pd_partitions d)"

definition running_volume :: "'w storage \<Rightarrow> 'w \<Rightarrow> volume_identity \<Rightarrow> bool" where
  "running_volume so w running \<longleftrightarrow> (\<exists>l. so_windows_letter so w = Inr l \<and> so_volume so w l = Inr running)"

definition names_partition :: "'w storage \<Rightarrow> 'w \<Rightarrow> u32 \<Rightarrow> disk_partition \<Rightarrow> scalar \<Rightarrow> stable_volume \<Rightarrow> bool" where
  "names_partition so w n p letter v \<longleftrightarrow> dp_letter p = Some letter \<and> so_stable so w letter = Inr v \<and>
     same_volume_identity (sv_extent v) (partition_extent n p)"

inductive edit_step :: "'w storage \<Rightarrow> u32 \<Rightarrow> 'w \<Rightarrow> 'w \<Rightarrow> bool" for so n where
  enumerated: "so_disks so w = (ds, w') \<Longrightarrow> edit_step so n w w'"
| deleted: "inspected so n d w \<Longrightarrow> p \<in> set (pd_partitions d) \<Longrightarrow> running_volume so w running \<Longrightarrow> vi_disk running \<noteq> n \<Longrightarrow>
    so_snapshot so w n = Inr snap \<Longrightarrow> so_delete so n (dp_offset p) True snap w = (r, w') \<Longrightarrow> edit_step so n w w'"
| formatted: "inspected so n d w \<Longrightarrow> p \<in> set (pd_partitions d) \<Longrightarrow> running_volume so w running \<Longrightarrow> vi_disk running \<noteq> n \<Longrightarrow>
    \<not> (dp_esp p \<or> dp_msr p \<or> dp_recovery p) \<Longrightarrow> names_partition so w n p letter v \<Longrightarrow>
    so_format so letter v options w = (r, w') \<Longrightarrow> edit_step so n w w'"
| lettered: "inspected so n d w \<Longrightarrow> p \<in> set (pd_partitions d) \<Longrightarrow> running_volume so w running \<Longrightarrow>
    (vi_disk running, vi_offset running) \<noteq> (n, dp_offset p) \<Longrightarrow> dp_letter p = None \<Longrightarrow> so_snapshot so w n = Inr snap \<Longrightarrow>
    so_assign so n (dp_offset p) letter snap w = (r, w') \<Longrightarrow> edit_step so n w w'"
| unlettered: "inspected so n d w \<Longrightarrow> p \<in> set (pd_partitions d) \<Longrightarrow> running_volume so w running \<Longrightarrow> vi_disk running \<noteq> n \<Longrightarrow>
    dp_letter p = Some letter \<Longrightarrow> so_snapshot so w n = Inr snap \<Longrightarrow>
    so_remove so n (dp_offset p) letter snap w = (r, w') \<Longrightarrow> edit_step so n w w'"
| activated: "inspected so n d w \<Longrightarrow> p \<in> set (pd_partitions d) \<Longrightarrow> running_volume so w running \<Longrightarrow>
    (vi_disk running, vi_offset running) \<noteq> (n, dp_offset p) \<Longrightarrow> pd_style d = StyleMbr \<Longrightarrow> so_snapshot so w n = Inr snap \<Longrightarrow>
    so_active so n (dp_offset p) active snap w = (r, w') \<Longrightarrow> edit_step so n w w'"
| initialized: "inspected so n d w \<Longrightarrow> \<not> pd_initialized d \<Longrightarrow> pd_partitions d = [] \<Longrightarrow> style \<noteq> StyleUnknown \<Longrightarrow>
    so_snapshot so w n = Inr snap \<Longrightarrow> so_clean so n snap style w = (r, w') \<Longrightarrow> edit_step so n w w'"
| created: "inspected so n d v \<Longrightarrow> 0 < unat (cr_size q) \<Longrightarrow> cr_disk q = n \<Longrightarrow>
    free_range d (unat (cr_offset q)) (unat (cr_offset q) + unat (cr_size q)) \<Longrightarrow>
    v = w \<or> pd_partitions d = [] \<and> (\<exists>snap style. so_clean so n snap style v = (Inr (), w)) \<Longrightarrow>
    so_snapshot so w n = Inr snap \<Longrightarrow> so_create so q snap w = (r, w') \<Longrightarrow> edit_step so n w w'"
| shrunk: "inspected so n d w \<Longrightarrow> p \<in> set (pd_partitions d) \<Longrightarrow> names_partition so w n p letter v \<Longrightarrow>
    running_volume so w running \<Longrightarrow> (vi_disk running, vi_offset running) \<noteq> (n, dp_offset p) \<Longrightarrow>
    so_shrink so letter v bytes bytes w = (r, w') \<Longrightarrow> edit_step so n w w'"
| restored: "inspected so n d u \<Longrightarrow> p \<in> set (pd_partitions d) \<Longrightarrow> names_partition so u n p letter v \<Longrightarrow>
    so_shrink so letter v bytes bytes u = (Inl e, w) \<Longrightarrow> so_stable so w letter = Inr current \<Longrightarrow>
    same_stable_partition_identity v current \<Longrightarrow>
    unat (vi_length (sv_extent current)) + unat lost = unat (vi_length (sv_extent v)) \<Longrightarrow>
    so_extend so letter current lost w = (r, w') \<Longrightarrow> edit_step so n w w'"
| extended: "inspected so n d w \<Longrightarrow> p \<in> set (pd_partitions d) \<Longrightarrow> names_partition so w n p letter v \<Longrightarrow>
    running_volume so w running \<Longrightarrow> (vi_disk running, vi_offset running) \<noteq> (n, dp_offset p) \<Longrightarrow>
    (sane_disk d \<longrightarrow> free_range d (dp_end p) (dp_end p + unat bytes)) \<Longrightarrow>
    so_extend so letter v bytes w = (r, w') \<Longrightarrow> edit_step so n w w'"

abbreviation edits :: "'w storage \<Rightarrow> u32 \<Rightarrow> 'w \<Rightarrow> 'w \<Rightarrow> bool" where
  "edits so n \<equiv> (edit_step so n)\<^sup>*\<^sup>*"

subsection \<open>The operations meet the specification\<close>

lemma find_disk_SomeD: "find_disk n ds = Some d \<Longrightarrow> d \<in> set ds \<and> pd_number d = n"
  by (auto simp: find_disk_def find_Some_iff)

lemma find_partition_SomeD: "find_partition n d = Some p \<Longrightarrow> p \<in> set (pd_partitions d) \<and> dp_number p = n"
  by (auto simp: find_partition_def find_Some_iff)

lemma find_at_SomeD: "find_at off d = Some p \<Longrightarrow> p \<in> set (pd_partitions d) \<and> dp_offset p = off"
  by (auto simp: find_at_def find_Some_iff)

lemma inspectedI: "so_disks so w0 = (ds, w) \<Longrightarrow> find_disk n ds = Some d \<Longrightarrow> inspected so n d w"
  by (auto simp: inspected_def dest: find_disk_SomeD)

lemma edits_observe: "so_disks so w = (ds, w') \<Longrightarrow> edits so n w w'"
  by (blast intro: enumerated)

text \<open>The free bytes behind a partition.\<close>

definition starts_behind :: "u64 \<Rightarrow> u32 \<Rightarrow> disk_partition list \<Rightarrow> u64 set" where
  "starts_behind e n ps = dp_offset ` {p \<in> set ps. e \<le> dp_offset p \<and> dp_number p \<noteq> n}"

lemma starts_behind_simps:
  "starts_behind e n [] = {}"
  "starts_behind e n (p # ps) =
     (if e \<le> dp_offset p \<and> dp_number p \<noteq> n then insert (dp_offset p) (starts_behind e n ps) else starts_behind e n ps)"
  "finite (starts_behind e n ps)"
  by (auto simp: starts_behind_def)

lemma nearest_start:
  "foldl (nearer_start e n) next ps =
     (let S = set_option next \<union> starts_behind e n ps in if S = {} then None else Some (Min S))"
proof (induction ps arbitrary: "next")
  case Nil
  then show ?case by (cases "next") (simp_all add: starts_behind_simps)
next
  case (Cons p ps)
  let ?R = "starts_behind e n ps"
  have both: "Min (insert (min a b) ?R) = Min (insert a (insert b ?R))"
    "min a (Min (insert b ?R)) = min b (Min (insert a ?R))" for a b
    using starts_behind_simps(3) [of e n ps]
    by (cases "?R = {}"; simp add: min.commute min.left_commute min.assoc)+
  show ?case
  proof (cases "e \<le> dp_offset p \<and> dp_number p \<noteq> n")
    case False
    then have "nearer_start e n next p = next" by (auto simp: nearer_start_def)
    moreover have "starts_behind e n (p # ps) = starts_behind e n ps"
      unfolding starts_behind_simps using False by (rule if_not_P)
    ultimately show ?thesis by (simp add: Cons.IH)
  next
    case True
    then have "nearer_start e n next p = Some (case next of None \<Rightarrow> dp_offset p | Some c \<Rightarrow> min c (dp_offset p))"
      by (auto simp: nearer_start_def min_def split: option.splits)
    with True show ?thesis
      by (cases "next") (simp_all add: Cons.IH starts_behind_simps both Let_def)
  qed
qed

lemma gap_is_free:
  assumes sane: "sane_disk d" and p: "find_partition n d = Some p" and bytes: "unat b \<le> unat (unallocated_after_bytes d n)"
  shows "free_range d (dp_end p) (dp_end p + unat b)"
proof -
  from p have mem: "p \<in> set (pd_partitions d)" and num: "dp_number p = n" by (auto dest: find_partition_SomeD)
  define e where "e = dp_offset p + dp_size p"
  have limits: "0 < unat (dp_size p)" "dp_end p < 2 ^ 64" "dp_end p \<le> unat (pd_size d)"
    using sane mem by (auto simp: sane_disk_def)
  then have e: "unat e = dp_end p" unfolding e_def by (intro unat_add_no_overflow) simp
  let ?S = "starts_behind e n (pd_partitions d)"
  have gap: "unallocated_after_bytes d n = (if ?S = {} then saturating_sub (pd_size d) e else saturating_sub (Min ?S) e)"
    by (simp add: unallocated_after_bytes_def p e_def [symmetric] nearest_start Let_def)
  have behind: "dp_end p + unat b \<le> unat (dp_offset q)"
    if q: "q \<in> set (pd_partitions d)" "\<not> dp_end q \<le> dp_end p" for q
  proof -
    have "q \<noteq> p" using q(2) by auto
    then have "dp_end p \<le> unat (dp_offset q)" using sane mem q by (force simp: sane_disk_def)
    moreover have "dp_number q \<noteq> n"
      using sane mem q(1) num \<open>q \<noteq> p\<close> by (auto simp: sane_disk_def distinct_map dest: inj_onD)
    ultimately have "dp_offset q \<in> ?S"
      using q(1) by (auto simp: starts_behind_def word_le_nat_alt e)
    then have "Min ?S \<le> dp_offset q" "?S \<noteq> {}" by (auto simp: starts_behind_simps)
    moreover have "e \<le> Min ?S"
      using \<open>?S \<noteq> {}\<close> by (auto simp: starts_behind_simps(3)) (auto simp: starts_behind_def)
    ultimately show ?thesis
      using bytes e by (simp add: gap unat_saturating_sub word_le_nat_alt)
  qed
  have inside: "dp_end p + unat b \<le> unat (pd_size d)"
  proof (cases "?S = {}")
    case True
    then show ?thesis using bytes limits e by (simp add: gap unat_saturating_sub)
  next
    case False
    then have "Min ?S \<in> ?S" by (simp add: starts_behind_simps(3))
    then obtain q where q: "q \<in> set (pd_partitions d)" "dp_offset q = Min ?S" "e \<le> dp_offset q"
      by (auto simp: starts_behind_def)
    have "0 < unat (dp_size q)" "dp_end q \<le> unat (pd_size d)" using sane q(1) by (auto simp: sane_disk_def)
    then have "\<not> dp_end q \<le> dp_end p" using q(3) e by (simp add: word_le_nat_alt)
    from behind [OF q(1) this] \<open>dp_end q \<le> unat (pd_size d)\<close> show ?thesis by simp
  qed
  with behind show ?thesis by (auto simp: free_range_def list_all_iff)
qed

lemma edits_bind:
  assumes "edits so n w (snd r)"
    and "\<And>x v. r = (Inr x, v) \<Longrightarrow> edits so n w v \<Longrightarrow> edits so n v (snd (f x v))"
  shows "edits so n w (snd (st_bind r f))"
proof -
  obtain x v where r: "r = (x, v)" by fastforce
  show ?thesis
  proof (cases x)
    case (Inl e)
    then show ?thesis using assms(1) by (simp add: r)
  next
    case (Inr a)
    then have "edits so n v (snd (f a v))" using assms by (simp add: r)
    then show ?thesis using assms(1) by (simp add: r Inr)
  qed
qed

lemma edits_pure: "(\<And>x. r = Inr x \<Longrightarrow> edits so n w (snd (f x w))) \<Longrightarrow> edits so n w (snd (st_bind (r, w) f))"
  by (rule edits_bind) auto

lemma edits_step: "edit_step so n w v \<Longrightarrow> edits so n v u \<Longrightarrow> edits so n w u"
  by (rule converse_rtranclp_into_rtranclp)

lemma not_running:
  assumes "reject_running_system_partition so n p w = Inr u"
  obtains running where "running_volume so w running" "(vi_disk running, vi_offset running) \<noteq> (n, dp_offset p)"
proof -
  obtain l disk off where l: "so_windows_letter so w = Inr l" "volume_offset so w l = Some (disk, off)"
    and other: "\<not> (disk = n \<and> off = dp_offset p)"
    using assms by (auto simp: reject_running_system_partition_def res_simps split: if_splits)
  then obtain running where "so_volume so w l = Inr running" "disk = vi_disk running" "off = vi_offset running"
    by (auto simp: volume_offset_def split: sum.splits)
  with l other that [of running] show thesis by (auto simp: running_volume_def)
qed

lemma current_partition_edits:
  "edits so n w (snd (current_partition so n k w))"
  "current_partition so n k w = (Inr p, v) \<Longrightarrow>
     \<exists>d. inspected so n d v \<and> find_partition k d = Some p \<and> p \<in> set (pd_partitions d)"
  by (auto simp: current_partition_def res_simps split: prod.splits intro: edits_observe inspectedI
      dest: find_partition_SomeD)

lemma recovery_edits:
  assumes ins: "inspected so n d u" "p \<in> set (pd_partitions d)" "names_partition so u n p letter v"
    and shrink: "so_shrink so letter v bytes bytes u = (Inl e, w)"
  shows "edits so n w (snd (recover_observed_shrink so letter v w))"
proof (cases "\<exists>current lost. so_stable so w letter = Inr current \<and> quick_observed_shrink v current = Inr (Some lost)")
  case False
  then have "snd (recover_observed_shrink so letter v w) = w"
    by (auto simp: recover_observed_shrink_def split: sum.splits option.splits)
  then show ?thesis by simp
next
  case True
  then obtain current lost where *: "so_stable so w letter = Inr current" "quick_observed_shrink v current = Inr (Some lost)"
    by blast
  then have same: "same_stable_partition_identity v current"
    and less: "vi_length (sv_extent current) < vi_length (sv_extent v)"
    and lost: "lost = vi_length (sv_extent v) - vi_length (sv_extent current)"
    by (auto simp: quick_observed_shrink_def not_le split: if_splits)
  have "unat (vi_length (sv_extent current)) + unat lost = unat (vi_length (sv_extent v))"
    using less unfolding lost by (simp add: unat_sub order_less_imp_le word_less_nat_alt)
  then have "edit_step so n w (snd (so_extend so letter current lost w))"
    using restored [OF ins shrink *(1) same] by (metis prod.collapse)
  moreover have "snd (recover_observed_shrink so letter v w) = snd (so_extend so letter current lost w)"
    using * by (auto simp: recover_observed_shrink_def split: sum.splits prod.splits)
  ultimately show ?thesis by simp
qed

lemma shrink_partition_edits: "edits so n w (snd (shrink_partition so n k mb w))"
  unfolding shrink_partition_def
proof (rule edits_bind [OF current_partition_edits(1)], intro edits_pure)
  fix p u ok letter requested v
  assume cur: "current_partition so n k w = (Inr p, u)"
    and run: "reject_running_system_partition so n p u = Inr ok" and letter: "ok_or (dp_letter p) LetterNeededToShrink = Inr letter"
    and stable: "map_err PlainText (so_stable so u letter) = Inr v"
  obtain d where d: "inspected so n d u" "p \<in> set (pd_partitions d)"
    using current_partition_edits(2) [OF cur] by blast
  obtain running where running: "running_volume so u running" "(vi_disk running, vi_offset running) \<noteq> (n, dp_offset p)"
    using run by (rule not_running)
  let ?rest = "if \<not> same_volume_identity (sv_extent v) (partition_extent n p) then (Inl IdentityChangedBeforeShrink, u)
    else case so_shrink so letter v requested requested u of
           (Inl e, w) \<Rightarrow> case recover_observed_shrink so letter v w of (recovery, w) \<Rightarrow> (Inl (ShrinkFailed e recovery), w)
         | (Inr reclaimed, w) \<Rightarrow> (Inr (ShrunkBy (reclaimed div PART_MIB)), w)"
  show "edits so n u (snd ?rest)"
  proof (cases "same_volume_identity (sv_extent v) (partition_extent n p)")
    case False
    then show ?thesis by simp
  next
    case True
    then have names: "names_partition so u n p letter v"
      using letter stable by (auto simp: names_partition_def res_simps)
    obtain r t where shrink: "so_shrink so letter v requested requested u = (r, t)" by fastforce
    have step: "edit_step so n u t"
      using shrunk [OF d names running shrink] .
    show ?thesis
    proof (cases r)
      case (Inl e)
      then have "edits so n t (snd (recover_observed_shrink so letter v t))"
        using recovery_edits [OF d names] shrink by blast
      with step True show ?thesis by (auto simp: shrink Inl split: prod.splits intro: edits_step)
    next
      case (Inr x)
      with step True show ?thesis by (simp add: shrink)
    qed
  qed
qed

lemma extend_by_edits:
  assumes ins: "inspected so n d w" "find_partition k d = Some p" and le: "m \<le> unallocated_after d k"
    and running: "running_volume so w running" "(vi_disk running, vi_offset running) \<noteq> (n, dp_offset p)"
    and letter: "dp_letter p = Some letter"
  shows "edits so n w (snd (extend_by so n p letter m w))"
  unfolding extend_by_def
proof (intro edits_pure)
  fix requested v
  assume r: "ok_or (checked_mul m PART_MIB) ExtendTooLarge = Inr requested"
    and stable: "map_err PlainText (so_stable so w letter) = Inr v"
  have "unat m \<le> unat (unallocated_after_bytes d k) div 1024 div 1024"
    using le by (simp add: unallocated_after_def word_le_nat_alt unat_div_distrib)
  then have "unat m * 1048576 \<le> unat (unallocated_after_bytes d k)"
    by (simp add: div_mult2_eq [symmetric] less_eq_div_iff_mult_less_eq)
  then have gap: "unat requested \<le> unat (unallocated_after_bytes d k)"
    using r by (simp add: res_simps word_facts PART_MIB_def)
  show "edits so n w (snd (if \<not> same_volume_identity (sv_extent v) (partition_extent n p)
      then (Inl IdentityChangedBeforeExtend, w)
      else st_bind (apfst (map_err PlainText) (so_extend so letter v requested w)) (\<lambda>_ w. (Inr (ExtendedBy m), w))))"
  proof (cases "same_volume_identity (sv_extent v) (partition_extent n p)")
    case True
    then have "names_partition so w n p letter v"
      using letter stable by (auto simp: names_partition_def res_simps)
    moreover have "p \<in> set (pd_partitions d)" using ins(2) by (auto dest: find_partition_SomeD)
    ultimately have "edit_step so n w (snd (so_extend so letter v requested w))"
      using extended [OF ins(1) _ _ running impI [OF gap_is_free [OF _ ins(2) gap]]] by (metis prod.collapse)
    then have "edits so n w (snd (apfst (map_err PlainText) (so_extend so letter v requested w)))" by auto
    then show ?thesis using True by (auto intro!: edits_bind)
  qed simp
qed

lemma extend_partition_edits: "edits so n w (snd (extend_partition so n k mb w))"
proof -
  obtain ds u where disks: "so_disks so w = (ds, u)" by fastforce
  have "edits so n u (snd (extend_partition so n k mb w))"
    unfolding extend_partition_def disks prod.case
  proof (intro edits_pure)
    fix d p ok letter
    assume d: "ok_or (find_disk n ds) (DiskAbsent n) = Inr d" and p: "ok_or (find_partition k d) (PartitionAbsent k) = Inr p"
      and run: "reject_running_system_partition so n p u = Inr ok"
      and letter: "ok_or (dp_letter p) LetterNeededToExtend = Inr letter"
    obtain running where running: "running_volume so u running" "(vi_disk running, vi_offset running) \<noteq> (n, dp_offset p)"
      using run by (rule not_running)
    have "edits so n u (snd (extend_by so n p letter m u))" if "m \<le> unallocated_after d k" for m
      using d p letter
      by (intro extend_by_edits [OF _ _ that running]) (auto simp: res_simps intro: inspectedI [OF disks])
    then show "edits so n u (snd (let available_mb = unallocated_after d k;
          requested_mb = (case mb of None \<Rightarrow> available_mb | Some m \<Rightarrow> m) in
        if requested_mb = 0 \<or> available_mb < requested_mb then (Inl (ExtendBeyondGap requested_mb available_mb), u)
        else extend_by so n p letter requested_mb u))"
      by (auto simp: Let_def not_less split: option.splits)
  qed
  with edits_observe [OF disks] show ?thesis by (rule rtranclp_trans)
qed

lemma edits_if:
  "(b \<Longrightarrow> edits so n w (snd x)) \<Longrightarrow> (\<not> b \<Longrightarrow> edits so n w (snd y)) \<Longrightarrow> edits so n w (snd (if b then x else y))"
  by simp

lemma edits_case:
  assumes "edits so n w (snd r)"
  shows "edits so n w (snd (case r of (Inr m, v) \<Rightarrow> (f m, v) | (Inl e, v) \<Rightarrow> (g e, v)))"
    and "edits so n w (snd (case r of (x, v) \<Rightarrow> (h x, v)))"
  using assms by (auto split: prod.splits sum.splits)

lemma resize_existing_edits: "edits so n w (snd (resize_existing_partition so n k letter cur new used w))"
proof -
  obtain r v where cur: "current_partition so n k w = (r, v)" by fastforce
  with current_partition_edits(1) [of so n w k] have first: "edits so n w v" by simp
  note change = rtranclp_trans [OF first edits_case(1) [OF shrink_partition_edits]]
    rtranclp_trans [OF first edits_case(1) [OF extend_partition_edits]]
  show ?thesis
    unfolding resize_existing_partition_def Let_def cur
    using first by (auto split: option.splits sum.splits intro: change)
qed

lemma execute_resize_edits: "edits so (dk_number (rz_disk q)) w (snd (execute_existing_partition_resize so q w))"
proof -
  let ?n = "dk_number (rz_disk q)"
  have list: "edits so ?n w (snd (apfst (map_err InventoryFailed) ((apfst Inr \<circ> so_disks so) w)))" for w
    by (cases "so_disks so w") (simp add: edits_observe)
  have run: "edits so ?n w (snd (case resize_existing_partition so ?n k l c m u w of (result, w) \<Rightarrow>
      if \<not> rr_success result then (Inl (e1 result), w) else if rr_new_size result \<noteq> z then (Inl e2, w)
      else (Inr (v result), w)))" for k l c m u e1 e2 v z w
    using resize_existing_edits [of so ?n w k l c m u] by (auto split: prod.splits)
  show ?thesis
    unfolding execute_existing_partition_resize_def resize_with_backends_def
    by (intro edits_pure edits_bind [OF list] edits_if run) simp_all
qed

lemma failing_snd [simp]: "snd (apfst f r) = snd r"
  by (cases r) simp

lemma reject_protected_Inr:
  "reject_protected_target n p running all = Inr u \<Longrightarrow> n \<noteq> vi_disk running \<or> \<not> all \<and> dp_offset p \<noteq> vi_offset running"
  by (auto simp: reject_protected_target_def split: if_splits)

lemma no_overlap_free:
  assumes "checked_add off len = Some e" and "len \<noteq> 0" and "\<not> pd_size d < e" and "\<not> list_ex (overlaps_extent off e) (pd_partitions d)"
  shows "free_range d (unat off) (unat off + unat len)"
proof -
  have e: "unat e = unat off + unat len" using assms(1) by (simp add: word_facts)
  have "dp_end p \<le> unat off \<or> unat e \<le> unat (dp_offset p)" if "p \<in> set (pd_partitions d)" for p
  proof -
    have "\<not> overlaps_extent off e p" using assms(4) that by (auto simp: list_ex_iff)
    then have "\<not> unat off < min (dp_end p) (2 ^ 64 - 1) \<or> unat e \<le> unat (dp_offset p)"
      by (auto simp: overlaps_extent_def word_less_nat_alt unat_saturating_add)
    moreover have "unat e < 2 ^ 64" "0 < unat len" using unat_bound [of e] assms(2) by (simp_all add: unat_gt_0)
    ultimately show ?thesis using e by (auto simp: min_def split: if_splits)
  qed
  then show ?thesis
    using assms(3) e by (auto simp: free_range_def list_all_iff word_less_nat_alt)
qed

lemma create_checked_edits:
  assumes "edits so n w v" and "\<And>r u. so_create so q snap v = (r, u) \<Longrightarrow> edit_step so n v u"
  shows "edits so n w (snd (create_partition_checked so q snap v))"
proof -
  have "edits so n v (snd (so_create so q snap v))"
    using assms(2) by (metis prod.collapse r_into_rtranclp)
  then show ?thesis
    using assms(1) unfolding create_partition_checked_def
    by (cases "map_err storage_error_text (validate_create_request q)") auto
qed

lemma prepare_create_edits:
  assumes ins: "inspected so (pd_number d) d w" and snap: "so_snapshot so w (pd_number d) = Inr expected"
  shows "edits so (pd_number d) w (snd (prepare_create so d expected initialize w))"
    and "prepare_create so d expected initialize w = (Inr layout, v) \<Longrightarrow>
      so_snapshot so v (pd_number d) = Inr layout \<and>
      (w = v \<or> pd_partitions d = [] \<and> (\<exists>snap style. so_clean so (pd_number d) snap style w = (Inr (), v)))"
proof -
  have clean: "edits so (pd_number d) w (snd (so_clean so (pd_number d) expected style w))"
    if "\<not> pd_initialized d" "pd_partitions d = []" "style \<noteq> StyleUnknown" for style
    using initialized [OF ins that snap] by (metis prod.collapse r_into_rtranclp)
  show "edits so (pd_number d) w (snd (prepare_create so d expected initialize w))"
    unfolding prepare_create_def
    by (cases initialize) (auto intro!: edits_bind clean)
  show "prepare_create so d expected initialize w = (Inr layout, v) \<Longrightarrow>
      so_snapshot so v (pd_number d) = Inr layout \<and>
      (w = v \<or> pd_partitions d = [] \<and> (\<exists>snap style. so_clean so (pd_number d) snap style w = (Inr (), v)))"
  proof (cases initialize)
    case (Some style)
    assume "prepare_create so d expected initialize w = (Inr layout, v)"
    then show ?thesis
      unfolding prepare_create_def Some
      by (cases "so_clean so (pd_number d) expected style w"; cases "fst (so_clean so (pd_number d) expected style w)")
        (auto simp: res_simps split: if_splits)
  qed (use snap in \<open>auto simp: prepare_create_def split: if_splits\<close>)
qed

lemma create_ntfs_edits:
  assumes ins: "inspected so (pd_number d) d w" and snap: "so_snapshot so w (pd_number d) = Inr expected"
  shows "edits so (pd_number d) w (snd (create_ntfs so d expected off len letter initialize w))"
  unfolding create_ntfs_def
proof (intro edits_if edits_pure edits_bind [OF prepare_create_edits(1) [OF ins snap]])
  fix e layout v
  let ?n = "pd_number d"
  let ?q = "\<lparr>cr_disk = ?n, cr_offset = off, cr_size = len, cr_kind = BasicDataKind, cr_file_system = Some FsNtfs,
    cr_label = so_new_label so, cr_letter = Some letter, cr_active = False, cr_metadata = None\<rparr>"
  assume len: "len \<noteq> 0" and e: "ok_or (checked_add off len) (invalid_resize ''unallocated extent overflows'') = Inr e"
    and free: "\<not> (pd_size d < e \<or> list_ex (overlaps_extent off e) (pd_partitions d))"
    and prep: "prepare_create so d expected initialize w = (Inr layout, v)"
  have range: "free_range d (unat off) (unat off + unat len)"
    using e free len by (intro no_overlap_free) (auto simp: res_simps)
  show "edits so ?n v (snd (st_bind (failing (create_partition_checked so ?q layout v)) (\<lambda>_ w.
      (Inr (PartitionCreated letter), w))))"
  proof (rule edits_bind)
    show "edits so ?n v (snd (failing (create_partition_checked so ?q layout v)))"
      using created [OF ins, of ?q v layout] prepare_create_edits(2) [OF ins snap prep] len range
      by (auto intro!: create_checked_edits simp: unat_gt_0)
  qed simp
qed simp_all

lemma perform_action_edits:
  assumes ins: "inspected so (pd_number d) d w" and snap: "so_snapshot so w (pd_number d) = Inr expected"
    and running: "running_volume so w running"
  shows "edits so (pd_number d) w (snd (perform_action so d expected running action w))"
proof -
  let ?n = "pd_number d"
  have found: "find (\<lambda>p. partition_print_of p = print) (pd_partitions d) = Some p \<Longrightarrow> p \<in> set (pd_partitions d)"
    for print p
    by (auto simp: find_Some_iff)
  have one: "edits so ?n w (snd (st_bind (failing r) (\<lambda>_ v. (x, v))))" if "edit_step so ?n w (snd r)"
    for r :: "(string + unit) \<times> 'a" and x
    using that by (intro edits_bind) auto
  note guards = found reject_protected_Inr
  show ?thesis
  proof (cases action)
    case (DeletePartition print)
    have "edit_step so ?n w (snd (so_delete so ?n (dp_offset p) True expected w))"
      if "p \<in> set (pd_partitions d)" "?n \<noteq> vi_disk running" for p
      using deleted [OF ins that(1) running _ snap] that(2) by (metis prod.collapse)
    then show ?thesis
      unfolding perform_action_def Let_def DeletePartition manage_action.case
      by (intro edits_pure one) (auto dest!: guards simp: res_simps)
  next
    case (FormatPartition print options)
    have "edit_step so ?n w (snd (so_format so letter v options w))"
      if "p \<in> set (pd_partitions d)" "?n \<noteq> vi_disk running" "\<not> (dp_esp p \<or> dp_msr p \<or> dp_recovery p)"
        "dp_letter p = Some letter" "so_stable so w letter = Inr v"
        "same_volume_identity (sv_extent v) (partition_extent ?n p)" for p letter v
      using formatted [OF ins that(1) running _ that(3)] that by (metis names_partition_def prod.collapse)
    then show ?thesis
      unfolding perform_action_def Let_def FormatPartition manage_action.case
      by (intro edits_pure edits_if one) (auto dest!: guards simp: res_simps)
  next
    case (AssignLetter print letter)
    have "edit_step so ?n w (snd (so_assign so ?n (dp_offset p) letter expected w))"
      if "p \<in> set (pd_partitions d)" "?n \<noteq> vi_disk running \<or> dp_offset p \<noteq> vi_offset running" "dp_letter p = None" for p
      using lettered [OF ins that(1) running _ that(3) snap] that(2) by (metis prod.collapse prod.inject)
    then show ?thesis
      unfolding perform_action_def Let_def AssignLetter manage_action.case
      by (intro edits_pure edits_if one) (auto dest!: guards simp: res_simps)
  next
    case (RemoveLetter print)
    have "edit_step so ?n w (snd (so_remove so ?n (dp_offset p) letter expected w))"
      if "p \<in> set (pd_partitions d)" "?n \<noteq> vi_disk running" "dp_letter p = Some letter" for p letter
      using unlettered [OF ins that(1) running _ that(3) snap] that(2) by (metis prod.collapse)
    then show ?thesis
      unfolding perform_action_def Let_def RemoveLetter manage_action.case
      by (intro edits_pure one) (auto dest!: guards simp: res_simps)
  next
    case (SetMbrActive print active)
    have "edit_step so ?n w (snd (so_active so ?n (dp_offset p) active expected w))"
      if "p \<in> set (pd_partitions d)" "?n \<noteq> vi_disk running \<or> dp_offset p \<noteq> vi_offset running" "pd_style d = StyleMbr" for p
      using activated [OF ins that(1) running _ that(3) snap] that(2) by (metis prod.collapse prod.inject)
    then show ?thesis
      unfolding perform_action_def Let_def SetMbrActive manage_action.case
      by (intro edits_pure edits_if one) (auto dest!: guards simp: res_simps)
  next
    case (CreateNtfs off len letter initialize)
    then show ?thesis by (simp add: perform_action_def Let_def create_ntfs_edits [OF ins snap])
  qed
qed

lemma verify_management_edits: "edits so n w (snd (verify_partition_management so q w))"
  by (auto simp: verify_partition_management_def split: prod.splits intro: edits_observe)

lemma execute_management_edits:
  "edits so (dk_number (mq_disk q)) w (snd (execute_partition_management so q w))"
proof -
  let ?n = "dk_number (mq_disk q)"
  obtain ds u where disks: "so_disks so w = (ds, u)" by fastforce
  have "edits so ?n u (snd (execute_partition_management so q w))"
    unfolding execute_partition_management_def disks prod.case
  proof (intro edits_pure edits_if )
    fix d expected windows running
    assume d: "ok_or (find_disk ?n ds) (DiskMissing ?n) = Inr d"
      and same: "\<not> disk_print_of (so_snapshot so u) d \<noteq> mq_disk q"
      and expected: "ok_or (dk_snapshot (mq_disk q))
        (InventoryFailed ''canonical physical-disk identity is unavailable; refresh and retry'') = Inr expected"
      and windows: "map_err (\<lambda>e. InventoryFailed (''cannot identify the running Windows volume: '' @ e))
        (so_windows_letter so u) = Inr windows"
      and running: "map_err InventoryFailed (so_volume so u windows) = Inr running"
    have ins: "inspected so ?n d u" "pd_number d = ?n"
      using d by (auto simp: res_simps intro: inspectedI [OF disks] dest: find_disk_SomeD)
    have "dk_snapshot (disk_print_of (so_snapshot so u) d) = Some expected"
      using same expected by (simp add: res_simps)
    then have "so_snapshot so u (pd_number d) = Inr expected"
      by (auto simp: disk_print_of_def split: sum.splits)
    moreover have "running_volume so u running"
      using windows running by (auto simp: running_volume_def res_simps)
    ultimately have act: "edits so ?n u (snd (perform_action so d expected running (mq_action q) u))"
      using perform_action_edits [of so d u expected running] ins by simp
    show "edits so ?n u (snd (st_bind (perform_action so d expected running (mq_action q) u) (\<lambda>message w.
        st_bind (verify_partition_management so q w) (\<lambda>_ w. (Inr message, w)))))"
      by (rule edits_bind [OF act]) (rule edits_bind [OF verify_management_edits], simp)
  qed simp_all
  with edits_observe [OF disks] show ?thesis by (rule rtranclp_trans)
qed

lemma run_operation_edits: "edits so n w (snd (run_pending_operation so n op w))"
proof -
  obtain ds u where disks: "so_disks so w = (ds, u)" by fastforce
  have number: "dk_number (disk_print_of s d) = n" if "find_disk n ds = Some d" for s d
    using find_disk_SomeD [OF that] by (simp add: disk_print_of_def)
  have "edits so n u (snd (run_pending_operation so n op w))"
    unfolding run_pending_operation_def disks prod.case
  proof (intro edits_pure)
    fix d assume "ok_or (find_disk n ds) (DiskMissing n) = Inr d"
    then have n: "dk_number (disk_print_of s d) = n" for s by (intro number) (simp add: res_simps)
    have resize: "edits so n v (snd (execute_existing_partition_resize so q v))"
      if "rz_disk q = disk_print_of s d" for q s v
      using execute_resize_edits [of so q v] by (simp add: that n)
    have manage: "edits so n v (snd (execute_partition_management so q v))"
      if "mq_disk q = disk_print_of s d" for q s v
      using execute_management_edits [of so q v] by (simp add: that n)
    show "edits so n u (snd (case op of
        PendingResize original \<Rightarrow>
          st_bind (ok_or (find_partition (rz_number original) d) (PartitionMissing (rz_number original)), u) (\<lambda>p w.
          st_bind (ok_or (dp_letter p) PartitionChanged, w) (\<lambda>letter w.
          st_bind (execute_existing_partition_resize so
              \<lparr>rz_disk = disk_print_of (so_snapshot so w) d, rz_number = dp_number p, rz_letter = letter,
               rz_current = bytes_to_mib (dp_size p), rz_new = rz_new original, rz_used = bytes_to_mib (dp_used p),
               rz_no_move_max = rz_no_move_max original, rz_move_max = rz_move_max original\<rparr> w) (\<lambda>outcome w.
          (Inr (ro_message outcome), w))))
      | PendingTransfer _ \<Rightarrow>
          (Inl (invalid_resize ''adjacent partition transfer requires the typed WinPE handoff''), u)
      | PendingManage original \<Rightarrow>
          st_bind (rebase_management_action (mq_action original) d, u) (\<lambda>action w.
          execute_partition_management so \<lparr>mq_disk = disk_print_of (so_snapshot so w) d, mq_action = action\<rparr> w)))"
      by (cases op) (auto intro!: edits_pure edits_bind [OF resize] manage)
  qed
  with edits_observe [OF disks] show ?thesis by (rule rtranclp_trans)
qed

lemma run_pending_edits: "edits so n w (snd (run_pending so n ops w))"
  by (induction ops arbitrary: w) (auto intro!: edits_bind run_operation_edits)


lemma managed_action_is_done:
  assumes "execute_partition_management so q w = (Inr m, w')"
  shows "\<exists>v ds d. so_disks so v = (ds, w') \<and> find_disk (dk_number (mq_disk q)) ds = Some d \<and>
    action_done (mq_action q) d \<and> style_done (mq_action q) d"
proof -
  have run: "\<exists>x v. r = (Inr x, v) \<and> f x v = (Inr m, w')"
    if "st_bind r f = (Inr m, w')" for r :: "(edit_error + 'x) \<times> 'a" and f :: "'x \<Rightarrow> 'a \<Rightarrow> (edit_error + edit_text) \<times> 'a"
    using that by (cases r; cases "fst r") auto
  obtain u v where "verify_partition_management so q v = (Inr u, w')"
    using assms unfolding execute_partition_management_def
    by (auto dest!: run split: prod.splits if_splits)
  then show ?thesis
    by (auto simp: verify_partition_management_def res_simps split: prod.splits if_splits)
qed

subsection \<open>Sizes in MiB\<close>

lemma unat_bytes_to_mib [word_facts]: "unat (bytes_to_mib v) = unat v div 1048576"
  by (simp add: bytes_to_mib_def unat_div_distrib div_mult2_eq [symmetric])

lemma mib_div [simp]: "v div PART_MIB = bytes_to_mib v"
  by (simp add: word_unat_eq_iff unat_bytes_to_mib PART_MIB_def unat_div_distrib)

lemma bytes_to_mib_less: "unat (bytes_to_mib v) < 2 ^ 44"
proof -
  have "unat v < 2 ^ 44 * 1048576" using unat_bound [of v] by simp
  then show ?thesis by (simp add: unat_bytes_to_mib less_mult_imp_div_less)
qed

lemma mib_sum [word_facts]:
  "unat (saturating_add (bytes_to_mib a) (bytes_to_mib b)) = unat (bytes_to_mib a) + unat (bytes_to_mib b)"
  "unat (saturating_add (bytes_to_mib a) 100) = unat (bytes_to_mib a) + 100"
  using bytes_to_mib_less [of a] bytes_to_mib_less [of b] by (simp_all add: unat_saturating_add)

lemma resize_with_failing_runner:
  assumes "validate_resize_request_shape q = Inr ()" and "list_disks w = (Inr ds, v)"
    and "find_disk (dk_number (rz_disk q)) ds = Some d" and "disk_print_of (snapshot v) d = rz_disk q"
    and "validate_resize_request_against_disk q d sys = Inr ()" and "dk_snapshot (rz_disk q) \<noteq> None"
    and "\<not> rz_no_move_max q < rz_new q" and "run q v = (result, u)" and "\<not> rr_success result"
  shows "resize_with_backends q sys list_disks snapshot run w = (Inl (ExecutionFailed (rr_message result)), u)"
  using assms by (simp add: resize_with_backends_def)

lemma unallocated_after_mib: "unallocated_after d n = bytes_to_mib (unallocated_after_bytes d n)"
  by (simp add: unallocated_after_def bytes_to_mib_def)

text \<open>
  The largest size the dialog offers is computed from the exact bytes of the partition and of the gap, the
  extension compares whole MiB of each.
\<close>

lemma rounded_extension_fails:
  assumes disks: "so_disks so w = (ds, w)" and d: "find_disk n ds = Some d" and p: "find_partition k d = Some p"
    and cur: "cur = bytes_to_mib (dp_size p)" and new: "new = no_move_maximum d p k"
    and carry: "1048576 \<le> unat (dp_size p) mod 1048576 + unat (unallocated_after_bytes d k) mod 1048576"
    and fits: "unat (dp_size p) + unat (unallocated_after_bytes d k) < 2 ^ 64"
  shows "\<exists>m. resize_existing_partition so n k (Some letter) cur new used w =
    (\<lparr>rr_success = False, rr_message = m, rr_new_size = cur\<rparr>, w)"
proof -
  let ?s = "unat (dp_size p)" and ?g = "unat (unallocated_after_bytes d k)"
  have "unat new = (?s + ?g) div 1048576"
    using fits by (simp add: new no_move_maximum_def unat_bytes_to_mib unat_saturating_add)
  also have "\<dots> = ?s div 1048576 + ?g div 1048576 + 1"
  proof -
    have "?s mod 1048576 < 1048576" "?g mod 1048576 < 1048576" by simp_all
    with carry have "(?s mod 1048576 + ?g mod 1048576) div 1048576 = 1"
      by (intro div_nat_eqI) simp_all
    then show ?thesis using div_add1_eq [of ?s ?g 1048576] by linarith
  qed
  finally have size: "unat new = unat cur + unat (unallocated_after d k) + 1"
    by (simp add: cur unat_bytes_to_mib unallocated_after_mib)
  then have less: "cur < new" "unallocated_after d k < new - cur"
    by (simp_all add: word_less_nat_alt unat_sub word_le_nat_alt)
  have current: "current_partition so n k w = (Inr p, w)"
    by (simp add: current_partition_def disks d p)
  have extend: "\<exists>m. extend_partition so n k (Some (new - cur)) w = (Inl m, w)"
    using less(2)
    by (cases "reject_running_system_partition so n p w"; cases "dp_letter p")
      (simp_all add: extend_partition_def disks d p Let_def)
  have grows: "\<not> new < cur" "new \<noteq> cur" "new \<noteq> 0" using less(1) by auto
  obtain m where m: "extend_partition so n k (Some (new - cur)) w = (Inl m, w)" using extend by blast
  show ?thesis
    unfolding resize_existing_partition_def Let_def current
    by (simp only: grows m if_False option.case prod.case sum.case split: if_split) simp
qed

text \<open>C33. The largest size that the dialog offers without moving a partition may be impossible to reach: when the
  partition and the free space behind it have fractions of a MiB that add up to one more, a request for that
  size passes every check of the request and of the disk and is then refused by the extension, for every
  storage whose inventory stays as it was reviewed.\<close>

theorem largest_resize_is_refused:
  assumes "so_disks so w = (ds, w)" and "so_windows_letter so w = Inr sys"
    and "find_disk (dk_number (rz_disk q)) ds = Some d" and "disk_print_of (so_snapshot so w) d = rz_disk q"
    and "dk_snapshot (rz_disk q) \<noteq> None"
    and "validate_resize_request_shape q = Inr ()" and "validate_resize_request_against_disk q d sys = Inr ()"
    and "find_partition (rz_number q) d = Some p" and "rz_new q = rz_no_move_max q"
    and "1048576 \<le> unat (dp_size p) mod 1048576 + unat (unallocated_after_bytes d (rz_number q)) mod 1048576"
    and "unat (dp_size p) + unat (unallocated_after_bytes d (rz_number q)) < 2 ^ 64"
  shows "\<exists>m. execute_existing_partition_resize so q w = (Inl (ExecutionFailed m), w)"
proof -
  have cur: "rz_current q = bytes_to_mib (dp_size p)" and new: "rz_new q = no_move_maximum d p (rz_number q)"
    using assms(7,8,9) by (auto simp: validate_resize_request_against_disk_def Let_def res_simps split: if_splits)
  obtain m where "resize_existing_partition so (dk_number (rz_disk q)) (rz_number q) (Some (rz_letter q)) (rz_current q)
      (rz_new q) (rz_used q) w = (\<lparr>rr_success = False, rr_message = m, rr_new_size = rz_current q\<rparr>, w)"
    using rounded_extension_fails [OF assms(1,3,8) cur new assms(10,11)] by blast
  moreover have "(apfst Inr \<circ> so_disks so) w = (Inr ds, w)" using assms(1) by simp
  moreover have "\<not> rz_no_move_max q < rz_new q" using assms(9) by simp
  ultimately have "resize_with_backends q sys (apfst Inr \<circ> so_disks so) (so_snapshot so)
      (\<lambda>q. resize_existing_partition so (dk_number (rz_disk q)) (rz_number q) (Some (rz_letter q))
        (rz_current q) (rz_new q) (rz_used q)) w = (Inl (ExecutionFailed m), w)"
    by (subst resize_with_failing_runner [where snapshot = "so_snapshot so" and v = w and u = w and
          result = "\<lparr>rr_success = False, rr_message = m, rr_new_size = rz_current q\<rparr>",
          OF assms(6) _ assms(3) _ assms(7,5)]) (simp_all add: assms(4))
  then show ?thesis
    by (simp add: execute_existing_partition_resize_def assms(2))
qed

definition sample_edit_partition :: disk_partition where
  "sample_edit_partition = \<lparr>dp_number = 1, dp_size = 105381888, dp_offset = 1048576, dp_letter = Some 68, dp_label = '''',
     dp_file_system = ''NTFS'', dp_esp = False, dp_msr = False, dp_recovery = False, dp_type = '''', dp_used = 0,
     dp_free = 105381888, dp_active = False\<rparr>"

definition sample_edit_disk :: physical_disk where
  "sample_edit_disk = \<lparr>pd_number = 1, pd_size = 210763776, pd_model = '''', pd_style = StyleGpt, pd_initialized = True,
     pd_partitions = [sample_edit_partition], pd_unallocated = 104333312\<rparr>"

definition sample_edit_snapshot :: disk_snapshot where
  "sample_edit_snapshot = \<lparr>ds_size = 210763776, ds_estimated = False, ds_disk = RawDisk, ds_device_id = None, ds_partitions = []\<rparr>"

definition sample_storage :: "unit storage" where
  "sample_storage =
     \<lparr>so_disks = (\<lambda>w. ([sample_edit_disk], w)), so_snapshot = (\<lambda>_ _. Inr sample_edit_snapshot), so_windows_letter = (\<lambda>_. Inr 67),
      so_volume = (\<lambda>_ _. Inl ''''), so_stable = (\<lambda>_ _. Inl ''''), so_shrink = (\<lambda>_ _ _ _ w. (Inl '''', w)),
      so_extend = (\<lambda>_ _ _ w. (Inl '''', w)), so_delete = (\<lambda>_ _ _ _ w. (Inl '''', w)),
      so_format = (\<lambda>_ _ _ w. (Inl '''', w)), so_assign = (\<lambda>_ _ _ _ w. (Inl '''', w)),
      so_remove = (\<lambda>_ _ _ _ w. (Inl '''', w)), so_active = (\<lambda>_ _ _ _ w. (Inl '''', w)),
      so_clean = (\<lambda>_ _ _ w. (Inl '''', w)), so_create = (\<lambda>_ _ w. (Inl '''', w)), so_new_label = ''''\<rparr>"

definition sample_resize :: resize_request where
  "sample_resize = \<lparr>rz_disk = disk_print_of (\<lambda>_. Inr sample_edit_snapshot) sample_edit_disk, rz_number = 1, rz_letter = 68,
     rz_current = 100, rz_new = 200, rz_used = 0, rz_no_move_max = 200, rz_move_max = 200\<rparr>"

lemma sample_gap: "unallocated_after_bytes sample_edit_disk 1 = 104333312"
  by (simp add: unallocated_after_bytes_def find_partition_def sample_edit_disk_def sample_edit_partition_def nearer_start_def
      saturating_sub_def)

lemma sample_no_move: "no_move_maximum sample_edit_disk sample_edit_partition 1 = 200"
  by (simp add: no_move_maximum_def sample_gap word_unat_eq_iff unat_bytes_to_mib unat_saturating_add sample_edit_partition_def)

lemma sample_resize_accepted:
  "validate_resize_request_shape sample_resize = Inr ()"
  "validate_resize_request_against_disk sample_resize sample_edit_disk 67 = Inr ()"
proof -
  have sizes: "bytes_to_mib (dp_size sample_edit_partition) = 100" "bytes_to_mib (dp_used sample_edit_partition) = 0"
    by (simp_all add: word_unat_eq_iff unat_bytes_to_mib sample_edit_partition_def)
  have "following_reclaimable_mib sample_edit_disk sample_edit_partition 67 = 0"
    by (simp add: following_reclaimable_mib_def sample_edit_disk_def sample_edit_partition_def saturating_add_def)
  moreover have "validate_existing_resize_target sample_edit_partition 67 = Inr ()"
    by (simp add: validate_existing_resize_target_def sample_edit_partition_def scalar_eq_def scalar_upper_def trim_id
        printable_def eq_ignore_ascii_case_def)
  moreover have "find_partition 1 sample_edit_disk = Some sample_edit_partition"
    by (simp add: find_partition_def sample_edit_disk_def sample_edit_partition_def)
  ultimately show "validate_resize_request_against_disk sample_resize sample_edit_disk 67 = Inr ()"
    using sizes sample_no_move
    by (simp add: validate_resize_request_against_disk_def sample_resize_def Let_def saturating_add_def)
      (simp add: sample_edit_partition_def)
  show "validate_resize_request_shape sample_resize = Inr ()"
    by (simp add: validate_resize_request_shape_def sample_resize_def scalar_alpha_def saturating_add_def
        disk_print_of_def sample_edit_disk_def)
qed

lemma largest_resize_is_refused_witness:
  "\<exists>m. execute_existing_partition_resize sample_storage sample_resize () = (Inl (ExecutionFailed m), ())"
proof (rule largest_resize_is_refused [where ds = "[sample_edit_disk]" and d = sample_edit_disk and p = sample_edit_partition and sys = 67])
  show "validate_resize_request_shape sample_resize = Inr ()"
    "validate_resize_request_against_disk sample_resize sample_edit_disk 67 = Inr ()"
    by (rule sample_resize_accepted)+
qed (simp_all add: sample_storage_def sample_resize_def disk_print_of_def find_disk_def find_partition_def
    sample_gap [unfolded sample_edit_disk_def] sample_gap, simp_all add: sample_edit_disk_def sample_edit_partition_def)

subsection \<open>Space taken from a neighbour\<close>

definition transfer_sound :: "transfer_request \<Rightarrow> disk_partition \<Rightarrow> disk_partition \<Rightarrow> bool" where
  "transfer_sound t left right \<longleftrightarrow>
     tr_left t = partition_print_of left \<and> tr_right t = partition_print_of right \<and>
     dp_letter left = Some (tr_left_letter t) \<and> dp_letter right = Some (tr_right_letter t) \<and>
     dp_offset right = saturating_add (dp_offset left) (dp_size left) \<and>
     unat (tr_left_new t) + unat (tr_right_new t) = unat (dp_size left) div 1048576 + unat (dp_size right) div 1048576 \<and>
     unat (dp_used left) div 1048576 + 100 \<le> unat (tr_left_new t) \<and>
     unat (dp_used right) div 1048576 + 100 \<le> unat (tr_right_new t)"

text \<open>A transfer that the dialog allows takes nothing away: it is between two neighbours of the selected disk
  that touch, are ordinary NTFS volumes with a letter and not the running system; their new sizes in MiB add
  up to what they have now, and each keeps its used space and 100 MiB.\<close>

theorem allowed_transfer_is_sound:
  assumes "adjacent_transfer snapshot selected sys l r new = Inr t"
  shows "\<exists>d. selected = Some d \<and> l < length (pd_partitions d) \<and> r < length (pd_partitions d) \<and>
    tr_disk t = disk_print_of snapshot d \<and> tr_left_new t = new \<and>
    transfer_sound t (pd_partitions d ! l) (pd_partitions d ! r) \<and>
    is_ok (validate_existing_resize_target (pd_partitions d ! l) sys) \<and>
    is_ok (validate_existing_resize_target (pd_partitions d ! r) sys)"
proof -
  obtain d where d: "selected = Some d" "l < length (pd_partitions d)" "r < length (pd_partitions d)"
    using assms by (auto simp: adjacent_transfer_def res_simps nth_opt_def split: if_splits)
  define a b where "a = pd_partitions d ! l" and "b = pd_partitions d ! r"
  let ?total = "saturating_add (bytes_to_mib (dp_size a)) (bytes_to_mib (dp_size b))"
  from assms d have t: "validate_existing_resize_target a sys = Inr ()" "validate_existing_resize_target b sys = Inr ()"
      "dp_offset b = saturating_add (dp_offset a) (dp_size a)" "\<not> ?total \<le> new"
      "\<not> new < saturating_add (bytes_to_mib (dp_used a)) 100"
      "\<not> ?total - new < saturating_add (bytes_to_mib (dp_used b)) 100"
    and fields: "tr_disk t = disk_print_of snapshot d" "tr_left t = partition_print_of a" "tr_right t = partition_print_of b"
      "tr_left_letter t = (case dp_letter a of Some l \<Rightarrow> l | None \<Rightarrow> 0)" "tr_left_new t = new"
      "tr_right_letter t = (case dp_letter b of Some l \<Rightarrow> l | None \<Rightarrow> 0)" "tr_right_new t = ?total - new"
    by (simp_all add: adjacent_transfer_def transfer_from_sizes_def res_simps nth_opt_def Let_def a_def b_def
        split: if_splits) (auto simp: res_simps)
  have letters: "dp_letter a \<noteq> None" "dp_letter b \<noteq> None"
    using t(1,2) by (auto simp: validate_existing_resize_target_def res_simps split: if_splits)
  have total: "unat ?total = unat (dp_size a) div 1048576 + unat (dp_size b) div 1048576"
    by (simp add: mib_sum unat_bytes_to_mib)
  with t(4) have rest: "unat (?total - new) = unat (dp_size a) div 1048576 + unat (dp_size b) div 1048576 - unat new"
    "unat new \<le> unat (dp_size a) div 1048576 + unat (dp_size b) div 1048576"
    by (simp_all add: unat_sub word_le_nat_alt)
  have "transfer_sound t a b"
    using t(3,5,6) letters rest
    by (auto simp: transfer_sound_def fields word_less_nat_alt mib_sum unat_bytes_to_mib)
  with d t fields show ?thesis by (simp add: a_def b_def)
qed

definition sample_pair_disk :: physical_disk where
  "sample_pair_disk = sample_edit_disk\<lparr>pd_size := 4294967296, pd_partitions :=
     [sample_edit_partition\<lparr>dp_size := 1048576000\<rparr>,
      sample_edit_partition\<lparr>dp_number := 2, dp_offset := 1049624576, dp_size := 1048576000, dp_letter := Some 69\<rparr>]\<rparr>"

lemma allowed_transfer_is_sound_witness:
  "\<exists>t. adjacent_transfer (\<lambda>_. Inl []) (Some sample_pair_disk) 67 0 1 1500 = Inr t \<and>
     unat (tr_left_new t) + unat (tr_right_new t) = 2000"
proof -
  have mib: "bytes_to_mib 1048576000 = 1000" "bytes_to_mib 0 = 0"
    by (simp_all add: word_unat_eq_iff unat_bytes_to_mib)
  have target: "validate_existing_resize_target (sample_edit_partition\<lparr>dp_number := k, dp_offset := off, dp_size := sz, dp_letter := Some l\<rparr>) 67 = Inr ()"
    "validate_existing_resize_target (sample_edit_partition\<lparr>dp_size := sz\<rparr>) 67 = Inr ()" if "l = 69" for k off sz l
    using that by (simp_all add: validate_existing_resize_target_def sample_edit_partition_def scalar_eq_def scalar_upper_def
        trim_id printable_def eq_ignore_ascii_case_def)
  obtain t where t: "adjacent_transfer (\<lambda>_. Inl []) (Some sample_pair_disk) 67 0 1 1500 = Inr t"
    using target
    by (simp add: adjacent_transfer_def transfer_from_sizes_def sample_pair_disk_def sample_edit_disk_def nth_opt_def)
      (simp add: sample_edit_partition_def saturating_add_def mib Let_def)
  from allowed_transfer_is_sound [OF t] have "transfer_sound t (pd_partitions sample_pair_disk ! 0) (pd_partitions sample_pair_disk ! 1)"
    by auto
  with t show ?thesis
    by (auto simp: transfer_sound_def sample_pair_disk_def)
qed

lemma st_bind_Inr:
  "st_bind r f = (Inr y, u) \<longleftrightarrow> (\<exists>x v. r = (Inr x, v) \<and> f x v = (Inr y, u))"
  by (cases r; cases "fst r") auto

lemma st_guard: "(if b then (Inl e, v) else r) = (Inr y, u) \<longleftrightarrow> \<not> b \<and> r = (Inr y, u)"
  by simp

lemma disks_case: "(case so_disks so w of (ds, v) \<Rightarrow> f ds v) = r \<longleftrightarrow> (\<exists>ds v. so_disks so w = (ds, v) \<and> f ds v = r)"
  by (cases "so_disks so w") simp

text \<open>The compound plan (extend the right volume, then give of it to the left) re-reads the disk after the
  extension: what it hands over to the boot environment is a sound transfer between the two partitions as they
  are then, with the sizes that were planned.\<close>

lemma compound_transfer_is_sound:
  assumes "prepare_compound_offline_transfer so ops w = (Inr t', w')"
  shows "\<exists>t d left right. compound_offline_transfer_preview ops = Inr t \<and> inspected so (dk_number (tr_disk t)) d w' \<and>
    find_partition (pp_number (tr_left t)) d = Some left \<and> find_partition (pp_number (tr_right t)) d = Some right \<and>
    tr_disk t' = disk_print_of (so_snapshot so w') d \<and> transfer_sound t' left right \<and>
    tr_left_new t' = tr_left_new t \<and> tr_right_new t' = tr_right_new t"
proof -
  obtain t d left right v ds where
      t: "compound_offline_transfer_preview ops = Inr t" and disks: "so_disks so v = (ds, w')"
    and d: "find_disk (dk_number (tr_disk t)) ds = Some d"
    and left: "find_partition (pp_number (tr_left t)) d = Some left"
    and right: "find_partition (pp_number (tr_right t)) d = Some right"
    and touch: "dp_offset right = saturating_add (dp_offset left) (dp_size left)"
    and sum: "saturating_add (bytes_to_mib (dp_size left)) (bytes_to_mib (dp_size right)) =
      saturating_add (tr_left_new t) (tr_right_new t)"
    and room: "saturating_add (bytes_to_mib (dp_used left)) 100 \<le> tr_left_new t"
      "saturating_add (bytes_to_mib (dp_used right)) 100 \<le> tr_right_new t"
    and fields: "tr_disk t' = disk_print_of (so_snapshot so w') d" "tr_left t' = partition_print_of left"
      "tr_right t' = partition_print_of right" "dp_letter left = Some (tr_left_letter t')"
      "dp_letter right = Some (tr_right_letter t')" "tr_left_new t' = tr_left_new t" "tr_right_new t' = tr_right_new t"
    using assms unfolding prepare_compound_offline_transfer_def
    by (fastforce simp: st_bind_Inr st_guard disks_case res_simps Let_def not_less)
  have "unat (dp_size left) div 1048576 + unat (dp_size right) div 1048576 < 2 ^ 45"
    using bytes_to_mib_less [of "dp_size left"] bytes_to_mib_less [of "dp_size right"] by (simp add: unat_bytes_to_mib)
  then have "unat (tr_left_new t) + unat (tr_right_new t) =
      unat (dp_size left) div 1048576 + unat (dp_size right) div 1048576"
    using arg_cong [OF sum, of unat]
    by (simp add: unat_saturating_add unat_bytes_to_mib min_def split: if_splits)
  then have "transfer_sound t' left right"
    using touch room by (simp add: transfer_sound_def fields word_le_nat_alt mib_sum unat_bytes_to_mib)
  then show ?thesis
    using t left right fields inspectedI [OF disks d] by blast
qed

end
