(* ===== verification/QuickPartition.thy ===== *)
theory QuickPartition
  imports PartitionDisk Complex_Main
begin

section \<open>Partitioning a whole disk\<close>

text \<open>
  \<open>native_quick_partition.rs\<close> and the executing part of \<open>quick_partition.rs\<close> of the normal system: a disk is
  erased and divided anew, after the request was checked and the disk was found to be the one that was
  reviewed and not one that runs Windows. Sizes are 64-bit floating point numbers of GiB; the only
  arithmetic on them is the multiplication by \<open>2^30\<close>, which is exact, the comparison and the rounding to a
  whole number, so that a finite number is the rational it stands for.
\<close>

subsection \<open>Floating point sizes\<close>

datatype f64 = NotANumber | Infinite bool | Finite rat

fun f64_finite :: "f64 \<Rightarrow> bool" where
  "f64_finite (Finite _) = True"
| "f64_finite _ = False"

fun f64_negative :: "f64 \<Rightarrow> bool" where
  "f64_negative (Finite r) = (r < 0)"
| "f64_negative (Infinite negative) = negative"
| "f64_negative NotANumber = False"

fun f64_positive :: "f64 \<Rightarrow> bool" where
  "f64_positive (Finite r) = (0 < r)"
| "f64_positive (Infinite negative) = (\<not> negative)"
| "f64_positive NotANumber = False"

fun f64_zero :: "f64 \<Rightarrow> bool" where
  "f64_zero (Finite r) = (r = 0)"
| "f64_zero _ = False"

text \<open>The bytes of a number of GiB: \<open>None\<close> when they are more than \<open>u64::MAX as f64\<close>, which is \<open>2^64\<close>.\<close>

fun gib_bytes :: "f64 \<Rightarrow> u64 option" where
  "gib_bytes (Finite r) =
     (let b = r * 2 ^ 30 in if 2 ^ 64 < b then None else Some (of_nat (min (nat \<lfloor>b + 1 / 2\<rfloor>) (2 ^ 64 - 1))))"
| "gib_bytes (Infinite negative) = (if negative then Some 0 else None)"
| "gib_bytes NotANumber = Some 0"

subsection \<open>The request\<close>

record partition_layout =
  pl_size :: f64
  pl_letter :: "scalar option"
  pl_label :: string
  pl_esp :: bool
  pl_file_system :: string

record quick_request =
  qr_disk :: disk_print
  qr_style :: edit_style
  qr_layouts :: "partition_layout list"

datatype unsafe_reason =
    SystemVolumeUnknown string
  | DiskHoldsSystem u32 scalar
  | DiskHoldsSystemLetter u32 scalar
  | DiskHoldsWindows u32 scalar

datatype quick_error =
    QuickDenied | InvalidPlan string | QuickInventory string | QuickDiskMissing u32 | QuickDiskChanged
  | UnsafeDisk unsafe_reason | QuickExecution string

definition ascii_file_system :: "string \<Rightarrow> string list \<Rightarrow> bool" where
  "ascii_file_system v names = list_ex (eq_ignore_ascii_case v) names"

text \<open>One turn of the loop over the layouts; the state is the letters and the bytes planned so far.\<close>

definition check_layout ::
  "quick_request \<Rightarrow> scalar list \<times> u64 \<Rightarrow> nat \<times> partition_layout \<Rightarrow> quick_error + (scalar list \<times> u64)" where
  "check_layout q st il = (case (st, il) of ((letters, planned), (index, l)) \<Rightarrow>
     (let last = (index + 1 = length (qr_layouts q)) in
      if \<not> f64_finite (pl_size l) \<or> f64_negative (pl_size l) \<or> (\<not> last \<and> f64_zero (pl_size l)) then
        Inl (InvalidPlan ''partition sizes must be finite and positive; only the final partition may use remaining space'')
      else
        and_then (if f64_positive (pl_size l) then
            and_then (ok_or (gib_bytes (pl_size l)) (InvalidPlan ''partition size is too large'')) (\<lambda>b.
            Inr (saturating_add planned b))
          else Inr planned) (\<lambda>planned.
        if saturating_add (dk_size (qr_disk q)) (1024 * 1024) < planned then
          Inl (InvalidPlan ''planned partitions exceed the selected disk capacity'')
        else if list_ex (\<lambda>c. c \<in> {CHR 0x22, CR, LF}) (pl_label l) then
          Inl (InvalidPlan ''volume labels may not contain quotes or line breaks'')
        else if \<not> ascii_file_system (trim (pl_file_system l)) [''NTFS'', ''FAT32'', ''EXFAT''] then
          Inl (InvalidPlan ''file system must be NTFS, FAT32, or exFAT'')
        else
          and_then (case pl_letter l of
              None \<Rightarrow> Inr letters
            | Some c \<Rightarrow>
                if \<not> scalar_alpha (scalar_upper c) \<or> scalar_upper c \<in> set letters then
                  Inl (InvalidPlan ''drive letters must be unique ASCII letters'')
                else Inr (scalar_upper c # letters)) (\<lambda>letters.
          if pl_esp l \<and> qr_style q \<noteq> StyleGpt then Inl (InvalidPlan ''ESP partitions require GPT'')
          else if pl_esp l \<and> (\<not> eq_ignore_ascii_case (trim (pl_file_system l)) ''FAT32'' \<or> pl_letter l \<noteq> None) then
            Inl (InvalidPlan ''ESP must use FAT32 and must not assign a drive letter'')
          else Inr (letters, planned)))))"

definition validate_quick_request :: "quick_request \<Rightarrow> quick_error + unit" where
  "validate_quick_request q =
     (if dk_size (qr_disk q) = 0 then Inl (InvalidPlan ''selected disk reports zero capacity'')
      else if qr_style q = StyleUnknown then Inl (InvalidPlan ''partition table must be GPT or MBR'')
      else if qr_layouts q = [] \<or> 128 < length (qr_layouts q) then
        Inl (InvalidPlan ''at least one and at most 128 partitions are required'')
      else
        and_then (try_fold (check_layout q) ([], 0) (List.enumerate 0 (qr_layouts q))) (\<lambda>_.
        if 1 < length (filter pl_esp (qr_layouts q)) then Inl (InvalidPlan ''only one ESP partition may be planned'')
        else Inr ()))"

definition verify_current_disk ::
  "(u32 \<Rightarrow> string + disk_snapshot) \<Rightarrow> quick_request \<Rightarrow> physical_disk list \<Rightarrow> quick_error + physical_disk" where
  "verify_current_disk snapshot q current =
     and_then (validate_quick_request q) (\<lambda>_.
     and_then (ok_or (find_disk (dk_number (qr_disk q)) current) (QuickDiskMissing (dk_number (qr_disk q)))) (\<lambda>d.
     if disk_print_of snapshot d \<noteq> qr_disk q then Inl QuickDiskChanged else Inr d))"

subsection \<open>Is the disk in use, and which letters are free\<close>

record 'w quick_io =
  qi_storage :: "'w storage"
  qi_has_system32 :: "'w \<Rightarrow> scalar \<Rightarrow> bool"
  qi_root_exists :: "'w \<Rightarrow> scalar \<Rightarrow> bool"
  qi_letter_mask :: "'w \<Rightarrow> string + u32"

definition can_safely_partition :: "'w quick_io \<Rightarrow> physical_disk \<Rightarrow> 'w \<Rightarrow> unsafe_reason option" where
  "can_safely_partition io d w =
     (case so_windows_letter (qi_storage io) w of
        Inl e \<Rightarrow> Some (SystemVolumeUnknown e)
      | Inr system_drive \<Rightarrow>
          if (case volume_offset (qi_storage io) w system_drive of None \<Rightarrow> False | Some (n, _) \<Rightarrow> n = pd_number d) then
            Some (DiskHoldsSystem (pd_number d) system_drive)
          else
            (case find (\<lambda>p. case dp_letter p of None \<Rightarrow> False | Some l \<Rightarrow> scalar_eq l system_drive) (pd_partitions d) of
               Some _ \<Rightarrow> Some (DiskHoldsSystemLetter (pd_number d) system_drive)
             | None \<Rightarrow>
                 map_option (\<lambda>p. DiskHoldsWindows (pd_number d) (case dp_letter p of Some l \<Rightarrow> l | None \<Rightarrow> 0))
                   (find (\<lambda>p. case dp_letter p of None \<Rightarrow> False | Some l \<Rightarrow> qi_has_system32 io w l) (pd_partitions d))))"

definition next_available_letter :: "'w quick_io \<Rightarrow> scalar list \<Rightarrow> 'w \<Rightarrow> scalar option" where
  "next_available_letter io used w =
     find (\<lambda>l. l \<notin> set used \<and> l + 32 \<notin> set used \<and> \<not> qi_root_exists io w l) [67..<91]"

definition used_drive_letters :: "'w quick_io \<Rightarrow> 'w \<Rightarrow> scalar list" where
  "used_drive_letters io w =
     (case qi_letter_mask io w of
        Inl _ \<Rightarrow> [65..<91]
      | Inr letter_bits \<Rightarrow> map (\<lambda>i. 65 + i) (filter (bit letter_bits) [0..<26]))"

subsection \<open>Carrying it out\<close>

datatype quick_text =
    QuickDone | StyleInvalid | LayoutsEmpty | CleanFailed string | ReconfirmFailed string | UnsupportedFileSystem string
  | SizeNotPositive | SizeOutOfRange | ReconfirmAfter nat string | CreateFailed nat string

datatype created_name = CreatedLetter scalar | CreatedEsp | CreatedNumber nat

record quick_result =
  qk_success :: bool
  qk_message :: quick_text
  qk_created :: "created_name list"

definition quick_failure :: "quick_text \<Rightarrow> quick_result" where
  "quick_failure m = \<lparr>qk_success = False, qk_message = m, qk_created = []\<rparr>"

definition storage_file_system :: "string \<Rightarrow> quick_text + file_system" where
  "storage_file_system v =
     (let v = trim v in
      if v = [] \<or> eq_ignore_ascii_case v ''NTFS'' then Inr FsNtfs
      else if eq_ignore_ascii_case v ''FAT32'' then Inr FsFat32
      else if eq_ignore_ascii_case v ''EXFAT'' then Inr FsExFat
      else Inl (UnsupportedFileSystem v))"

definition gib_to_bytes :: "f64 \<Rightarrow> quick_text + u64" where
  "gib_to_bytes gib =
     (if \<not> f64_finite gib \<or> \<not> f64_positive gib then Inl SizeNotPositive
      else ok_or (gib_bytes gib) SizeOutOfRange)"

definition layout_request ::
  "'w quick_io \<Rightarrow> u32 \<Rightarrow> partition_layout \<Rightarrow> file_system \<Rightarrow> u64 \<Rightarrow> scalar option \<Rightarrow> create_request" where
  "layout_request io disk_number l fs len letter =
     \<lparr>cr_disk = disk_number, cr_offset = 0, cr_size = len,
      cr_kind = (if pl_esp l then EfiSystemKind else BasicDataKind), cr_file_system = Some fs,
      cr_label = (if pl_esp l then ''EFI'' else if pl_label l = [] then so_new_label (qi_storage io) else pl_label l),
      cr_letter = letter, cr_active = False, cr_metadata = None\<rparr>"

text \<open>The loop over the layouts, from layout \<open>i\<close> on.\<close>

fun create_layouts ::
  "'w quick_io \<Rightarrow> u32 \<Rightarrow> nat \<Rightarrow> partition_layout list \<Rightarrow> disk_snapshot \<Rightarrow> scalar list \<Rightarrow> 'w \<Rightarrow>
   (quick_text + created_name list) \<times> 'w" where
  "create_layouts io disk_number i [] current assigned w = (Inr [], w)"
| "create_layouts io disk_number i (l # ls) current assigned w =
     st_bind (storage_file_system (pl_file_system l), w) (\<lambda>fs w.
     st_bind (if ls = [] then Inr 0 else gib_to_bytes (pl_size l), w) (\<lambda>len w.
     let letter = (if pl_esp l then None
                   else case pl_letter l of
                     Some c \<Rightarrow> Some (scalar_upper c)
                   | None \<Rightarrow> next_available_letter io assigned w);
         assigned = (case letter of None \<Rightarrow> assigned | Some c \<Rightarrow> assigned @ [c]) in
     st_bind (apfst (map_err (CreateFailed (i + 1)))
       (create_partition_checked (qi_storage io) (layout_request io disk_number l fs len letter) current w)) (\<lambda>_ w.
     let name = (case letter of Some c \<Rightarrow> CreatedLetter c | None \<Rightarrow> if pl_esp l then CreatedEsp else CreatedNumber (i + 1)) in
     st_bind (if ls = [] then Inr current
              else map_err (ReconfirmAfter (i + 1)) (so_snapshot (qi_storage io) w disk_number), w) (\<lambda>current w.
     st_bind (create_layouts io disk_number (i + 1) ls current assigned w) (\<lambda>names w. (Inr (name # names), w))))))"

definition execute_quick_partition_validated ::
  "'w quick_io \<Rightarrow> u32 \<Rightarrow> edit_style \<Rightarrow> partition_layout list \<Rightarrow> disk_snapshot \<Rightarrow> 'w \<Rightarrow> quick_result \<times> 'w" where
  "execute_quick_partition_validated io disk_number style layouts expected w =
     (if style = StyleUnknown then (quick_failure StyleInvalid, w)
      else if layouts = [] then (quick_failure LayoutsEmpty, w)
      else
        (case st_bind (apfst (map_err CleanFailed) (so_clean (qi_storage io) disk_number expected style w)) (\<lambda>_ w.
           st_bind (map_err ReconfirmFailed (so_snapshot (qi_storage io) w disk_number), w) (\<lambda>current w.
           create_layouts io disk_number 0 layouts current (used_drive_letters io w) w)) of
           (Inl m, w) \<Rightarrow> (quick_failure m, w)
         | (Inr names, w) \<Rightarrow> (\<lparr>qk_success = True, qk_message = QuickDone, qk_created = names\<rparr>, w)))"

text \<open>\<open>execute_with_backends\<close> with the inventory and the runner of the production wrapper.\<close>

definition execute_quick :: "'w quick_io \<Rightarrow> quick_request \<Rightarrow> 'w \<Rightarrow> (quick_error + quick_result) \<times> 'w" where
  "execute_quick io q w =
     st_bind (validate_quick_request q, w) (\<lambda>_ w.
     (case so_disks (qi_storage io) w of (disks, w) \<Rightarrow>
     st_bind (verify_current_disk (so_snapshot (qi_storage io) w) q disks, w) (\<lambda>d w.
     (case dk_snapshot (qr_disk q) of
        None \<Rightarrow> (Inl (QuickInventory ''canonical physical-disk identity is unavailable; refresh and retry''), w)
      | Some expected \<Rightarrow>
          (case can_safely_partition io d w of
             Some reason \<Rightarrow> (Inl (UnsafeDisk reason), w)
           | None \<Rightarrow>
               apfst Inr (execute_quick_partition_validated io (dk_number (qr_disk q)) (qr_style q) (qr_layouts q) expected w))))))"

subsection \<open>The last partition\<close>

text \<open>A size of zero is refused before the storage is asked.\<close>

lemma create_refuses_zero:
  "cr_size q = 0 \<Longrightarrow> \<exists>e. create_partition_checked so q snap w = (Inl e, w)"
  by (simp add: create_partition_checked_def validate_create_request_def Let_def)

lemma st_bind_not_ok: "(\<And>x v. r = (Inr x, v) \<Longrightarrow> \<exists>e u. f x v = (Inl e, u)) \<Longrightarrow> \<exists>e u. st_bind r f = (Inl e, u)"
  by (cases r; cases "fst r") auto

lemma layouts_never_created:
  "ls \<noteq> [] \<Longrightarrow> \<exists>e v. create_layouts io n i ls current assigned w = (Inl e, v)"
proof (induction ls arbitrary: i current assigned w)
  case (Cons l ls)
  show ?case
  proof (cases "ls = []")
    case True
    have no: "apfst (map_err f) (create_partition_checked (qi_storage io) (layout_request io n l fs 0 letter) current w) \<noteq> (Inr x, v)"
      for f :: "string \<Rightarrow> quick_text" and fs letter x v w
      using create_refuses_zero [of "layout_request io n l fs 0 letter" "qi_storage io" current w]
      by (auto simp: layout_request_def)
    show ?thesis
      unfolding True create_layouts.simps(2) Let_def
      by (intro st_bind_not_ok) (auto dest: no [THEN notE])
  next
    case False
    have no: "create_layouts io n j ls c a u \<noteq> (Inr x, v)" for j c a u x v
      using Cons.IH [OF False, of j c a u] by force
    show ?thesis
      unfolding create_layouts.simps(2) Let_def
      by (intro st_bind_not_ok) (auto simp: no)
  qed
qed simp


subsection \<open>What is accepted\<close>

definition letter_names :: "partition_layout list \<Rightarrow> scalar list" where
  "letter_names ls = map scalar_upper (List.map_filter pl_letter ls)"

definition planned_bytes :: "partition_layout \<Rightarrow> nat" where
  "planned_bytes l = (if f64_positive (pl_size l) then case gib_bytes (pl_size l) of None \<Rightarrow> 0 | Some b \<Rightarrow> unat b else 0)"

definition layout_ok :: "quick_request \<Rightarrow> nat \<Rightarrow> partition_layout \<Rightarrow> bool" where
  "layout_ok q i l \<longleftrightarrow>
     f64_finite (pl_size l) \<and> \<not> f64_negative (pl_size l) \<and> (i + 1 = length (qr_layouts q) \<or> \<not> f64_zero (pl_size l)) \<and>
     (\<not> f64_positive (pl_size l) \<or> gib_bytes (pl_size l) \<noteq> None) \<and>
     \<not> list_ex (\<lambda>c. c \<in> {CHR 0x22, CR, LF}) (pl_label l) \<and>
     ascii_file_system (trim (pl_file_system l)) [''NTFS'', ''FAT32'', ''EXFAT''] \<and>
     (case pl_letter l of None \<Rightarrow> True | Some c \<Rightarrow> scalar_alpha (scalar_upper c)) \<and>
     (pl_esp l \<longrightarrow> qr_style q = StyleGpt \<and> eq_ignore_ascii_case (trim (pl_file_system l)) ''FAT32'' \<and> pl_letter l = None)"

definition byte_limit :: "quick_request \<Rightarrow> nat" where
  "byte_limit q = unat (saturating_add (dk_size (qr_disk q)) (1024 * 1024))"

lemma check_layout_Inr:
  "check_layout q (letters, b) (i, l) = Inr (letters', b') \<longleftrightarrow>
     layout_ok q i l \<and> set (letter_names [l]) \<inter> set letters = {} \<and>
     min (unat b + planned_bytes l) (2 ^ 64 - 1) \<le> byte_limit q \<and>
     letters' = letter_names [l] @ letters \<and> unat b' = min (unat b + planned_bytes l) (2 ^ 64 - 1)"
proof (cases "f64_positive (pl_size l)")
  case True
  show ?thesis
  proof (cases "gib_bytes (pl_size l)")
    case None
    then show ?thesis using True by (auto simp: check_layout_def layout_ok_def Let_def)
  next
    case (Some n)
    have limit: "\<not> saturating_add (dk_size (qr_disk q)) (1024 * 1024) < saturating_add b n \<longleftrightarrow>
        min (unat b + planned_bytes l) (2 ^ 64 - 1) \<le> byte_limit q"
      using True Some by (auto simp: word_less_nat_alt byte_limit_def planned_bytes_def unat_saturating_add not_less min_def)
    have val: "unat b' = min (unat b + planned_bytes l) (2 ^ 64 - 1) \<longleftrightarrow> b' = saturating_add b n"
      using True Some by (simp add: planned_bytes_def word_unat_eq_iff unat_saturating_add)
    show ?thesis
      using True Some unfolding limit [symmetric] val
      by (cases "pl_letter l") (auto simp: check_layout_def layout_ok_def Let_def letter_names_def map_filter_simps split: if_splits)
  qed
next
  case False
  have limit: "\<not> saturating_add (dk_size (qr_disk q)) (1024 * 1024) < b \<longleftrightarrow>
      min (unat b + planned_bytes l) (2 ^ 64 - 1) \<le> byte_limit q"
    using False unat_bound [of b] by (simp add: word_less_nat_alt byte_limit_def planned_bytes_def not_less min_def)
  have val: "unat b' = min (unat b + planned_bytes l) (2 ^ 64 - 1) \<longleftrightarrow> b' = b"
    using False unat_bound [of b] by (simp add: planned_bytes_def word_unat_eq_iff min_def)
  show ?thesis
    using False unfolding limit [symmetric] val
    by (cases "pl_letter l") (auto simp: check_layout_def layout_ok_def Let_def letter_names_def map_filter_simps split: if_splits)
qed

definition total_bytes :: "partition_layout list \<Rightarrow> nat" where
  "total_bytes ls = sum_list (map planned_bytes ls)"

lemma letter_names_Cons: "letter_names (l # ls) = letter_names [l] @ letter_names ls"
  by (cases "pl_letter l") (simp_all add: letter_names_def map_filter_simps)

lemma letter_names_single: "distinct (letter_names [l])"
  by (cases "pl_letter l") (simp_all add: letter_names_def map_filter_simps)

lemma check_layouts_ok:
  "is_ok (try_fold (check_layout q) (letters, b) (List.enumerate k ls)) \<longleftrightarrow>
     list_all (\<lambda>(i, l). layout_ok q i l) (List.enumerate k ls) \<and> distinct (letter_names ls) \<and>
     set (letter_names ls) \<inter> set letters = {} \<and>
     (ls = [] \<or> min (unat b + total_bytes ls) (2 ^ 64 - 1) \<le> byte_limit q)"
proof (induction ls arbitrary: letters b k)
  case Nil
  then show ?case by (simp add: letter_names_def map_filter_simps)
next
  case (Cons l ls)
  let ?M = "2 ^ 64 - 1 :: nat"
  show ?case
  proof (cases "check_layout q (letters, b) (k, l)")
    case (Inl e)
    then have "\<not> (layout_ok q k l \<and> set (letter_names [l]) \<inter> set letters = {} \<and> min (unat b + planned_bytes l) ?M \<le> byte_limit q)"
      using check_layout_Inr [of q letters b k l "letter_names [l] @ letters" "of_nat (min (unat b + planned_bytes l) ?M)"]
      by (auto simp: unat_of_nat_word)
    moreover have "min (unat b + planned_bytes l) ?M \<le> min (unat b + total_bytes (l # ls)) ?M"
      by (simp add: total_bytes_def)
    ultimately show ?thesis
      by (subst letter_names_Cons) (auto simp: Inl)
  next
    case (Inr st)
    obtain letters' b' where st: "st = (letters', b')" by fastforce
    from Inr check_layout_Inr [of q letters b k l letters' b']
    have *: "layout_ok q k l" "set (letter_names [l]) \<inter> set letters = {}" "min (unat b + planned_bytes l) ?M \<le> byte_limit q"
      "letters' = letter_names [l] @ letters" "unat b' = min (unat b + planned_bytes l) ?M"
      by (simp_all add: st)
    have "min (unat b' + total_bytes ls) ?M = min (unat b + total_bytes (l # ls)) ?M"
      by (simp add: *(5) total_bytes_def min_def)
    then have "(ls = [] \<or> min (unat b' + total_bytes ls) ?M \<le> byte_limit q) \<longleftrightarrow>
        min (unat b + total_bytes (l # ls)) ?M \<le> byte_limit q"
      using *(3) by (cases "ls = []") (auto simp: total_bytes_def)
    then show ?thesis
      using * letter_names_single [of l] by (subst (1 2) letter_names_Cons) (auto simp: Inr st Cons.IH)
  qed
qed

text \<open>A request for a whole disk is accepted exactly when the disk has a size, the table is GPT or MBR, there
  are 1 to 128 partitions of finite and, but for the last, positive sizes, with clean labels and known file
  systems, letters of the alphabet that differ, at most one EFI partition (GPT, FAT32, no letter), and the rounded
  sizes add up to at most the disk and 1 MiB, all in saturating arithmetic.\<close>

theorem quick_request_accepted_exactly:
  "is_ok (validate_quick_request q) \<longleftrightarrow>
     dk_size (qr_disk q) \<noteq> 0 \<and> qr_style q \<noteq> StyleUnknown \<and> 1 \<le> length (qr_layouts q) \<and> length (qr_layouts q) \<le> 128 \<and>
     list_all (\<lambda>(i, l). layout_ok q i l) (List.enumerate 0 (qr_layouts q)) \<and>
     distinct (letter_names (qr_layouts q)) \<and> length (filter pl_esp (qr_layouts q)) \<le> 1 \<and>
     min (total_bytes (qr_layouts q)) (2 ^ 64 - 1) \<le> min (unat (dk_size (qr_disk q)) + 1048576) (2 ^ 64 - 1)"
proof -
  have limit: "byte_limit q = min (unat (dk_size (qr_disk q)) + 1048576) (2 ^ 64 - 1)"
    by (simp add: byte_limit_def unat_saturating_add)
  have bind: "is_ok (and_then r f) \<longleftrightarrow> is_ok r \<and> (\<forall>x. r = Inr x \<longrightarrow> is_ok (f x))"
    for r :: "quick_error + (scalar list \<times> u64)" and f :: "_ \<Rightarrow> quick_error + unit"
    by (cases r) auto
  show ?thesis
  proof (cases "qr_layouts q")
    case Nil
    then show ?thesis by (simp add: validate_quick_request_def)
  next
    case (Cons l ls)
    show ?thesis
      unfolding validate_quick_request_def
      using check_layouts_ok [of q "[]" 0 0 "qr_layouts q"]
      by (cases "try_fold (check_layout q) ([], 0) (List.enumerate 0 (qr_layouts q))")
        (auto simp: Cons limit not_less not_le Suc_le_eq)
  qed
qed

subsection \<open>What is erased\<close>

definition not_in_use :: "'w quick_io \<Rightarrow> physical_disk \<Rightarrow> 'w \<Rightarrow> bool" where
  "not_in_use io d w \<longleftrightarrow> (\<exists>sys. so_windows_letter (qi_storage io) w = Inr sys \<and>
     (\<forall>v. so_volume (qi_storage io) w sys = Inr v \<longrightarrow> vi_disk v \<noteq> pd_number d) \<and>
     (\<forall>p \<in> set (pd_partitions d). \<forall>l. dp_letter p = Some l \<longrightarrow> \<not> scalar_eq l sys \<and> \<not> qi_has_system32 io w l))"

lemma find_member: "find P xs = Some x \<Longrightarrow> x \<in> set xs \<and> P x"
  by (auto simp: find_Some_iff)

lemma safely_partition_iff: "can_safely_partition io d w = None \<longleftrightarrow> not_in_use io d w"
proof (cases "so_windows_letter (qi_storage io) w")
  case (Inl e)
  then show ?thesis by (simp add: can_safely_partition_def not_in_use_def)
next
  case (Inr sys)
  then show ?thesis
    by (auto simp: can_safely_partition_def not_in_use_def volume_offset_def find_None_iff
        split: sum.splits option.splits if_splits dest!: find_member)
qed

text \<open>C27. What the tool erases: a call is refused without any writing, or the request is acceptable, the disk of that
  number in a new inventory has exactly the reviewed fingerprint, canonical layout included, the running
  Windows and no other installation is on it, and the tool runs against that layout.\<close>

theorem erased_disk_is_the_reviewed_one:
  "(case execute_quick io q w of
      (Inl e, w') \<Rightarrow> w' \<in> {w, snd (so_disks (qi_storage io) w)}
    | (Inr result, w') \<Rightarrow> is_ok (validate_quick_request q) \<and>
        (\<exists>ds v d expected. so_disks (qi_storage io) w = (ds, v) \<and> find_disk (dk_number (qr_disk q)) ds = Some d \<and>
           disk_print_of (so_snapshot (qi_storage io) v) d = qr_disk q \<and>
           so_snapshot (qi_storage io) v (pd_number d) = Inr expected \<and> not_in_use io d v \<and>
           (result, w') = execute_quick_partition_validated io (pd_number d) (qr_style q) (qr_layouts q) expected v))"
proof -
  obtain ds v where disks: "so_disks (qi_storage io) w = (ds, v)" by fastforce
  show ?thesis
  proof (cases "validate_quick_request q")
    case (Inl e)
    then show ?thesis by (simp add: execute_quick_def)
  next
    case (Inr u)
    show ?thesis
    proof (cases "verify_current_disk (so_snapshot (qi_storage io) v) q ds")
      case (Inl e)
      then show ?thesis by (simp add: execute_quick_def Inr disks)
    next
      case d: (Inr d)
      then have found: "find_disk (dk_number (qr_disk q)) ds = Some d"
        and same: "disk_print_of (so_snapshot (qi_storage io) v) d = qr_disk q"
        by (auto simp: verify_current_disk_def Inr res_simps split: if_splits)
      have number: "dk_number (qr_disk q) = pd_number d" by (simp add: disk_print_of_def flip: same)
      have snap: "so_snapshot (qi_storage io) v (pd_number d) = Inr expected" if "dk_snapshot (qr_disk q) = Some expected" for expected
        using that by (auto simp: disk_print_of_def simp flip: same split: sum.splits)
      show ?thesis
      proof (cases "dk_snapshot (qr_disk q) = None \<or> can_safely_partition io d v \<noteq> None")
        case True
        then show ?thesis by (auto simp: execute_quick_def Inr disks d split: option.splits)
      next
        case False
        then obtain expected where e: "dk_snapshot (qr_disk q) = Some expected" "not_in_use io d v"
          by (auto simp: safely_partition_iff)
        then have "execute_quick io q w =
            apfst Inr (execute_quick_partition_validated io (pd_number d) (qr_style q) (qr_layouts q) expected v)"
          by (simp add: execute_quick_def Inr disks d number safely_partition_iff [THEN iffD2])
        then show ?thesis
          using found same snap [OF e(1)] e(2)
          by (cases "execute_quick_partition_validated io (pd_number d) (qr_style q) (qr_layouts q) expected v")
            (auto simp: Inr disks number)
      qed
    qed
  qed
qed

end
