(* ===== verification/DriveLayout.thy ===== *)
theory DriveLayout
  imports PartitionDisk
begin

section \<open>Reading the partitions of a disk\<close>

text \<open>
  The inventory of \<open>quick_partition.rs\<close> of the normal system: from which of three sources the capacity of a
  disk is taken, how its bus is classified, and how the buffer that Windows returns for the layout of a drive
  is read. Letters and volume facts are asked of Windows and are parameters.
\<close>

subsection \<open>Capacity and attachment\<close>

datatype capacity_source = LengthInfo | GeometryEx | VdsCapacity

definition positive_capacity :: "capacity_source \<Rightarrow> u64 option \<Rightarrow> (u64 \<times> capacity_source) option" where
  "positive_capacity source v = (case v of None \<Rightarrow> None | Some n \<Rightarrow> if 0 < n then Some (n, source) else None)"

definition select_capacity_source :: "u64 option \<Rightarrow> u64 option \<Rightarrow> u64 option \<Rightarrow> (u64 \<times> capacity_source) option" where
  "select_capacity_source length_info geometry_ex vds =
     (case positive_capacity LengthInfo length_info of
        Some r \<Rightarrow> Some r
      | None \<Rightarrow>
          (case positive_capacity GeometryEx geometry_ex of
             Some r \<Rightarrow> Some r
           | None \<Rightarrow> positive_capacity VdsCapacity vds))"

definition checked_disk_length :: "u64 \<Rightarrow> u32 \<Rightarrow> nat \<Rightarrow> u64 option" where
  "checked_disk_length len bytes_returned required =
     (if 0 < sint len \<and> required \<le> unat bytes_returned then Some len else None)"

definition storage_attachment_of :: "u32 \<Rightarrow> bool \<Rightarrow> storage_attachment" where
  "storage_attachment_of bus removable =
     (if removable \<or> bus \<in> {4, 7, 12, 13} then External
      else if bus \<in> {14, 15} then UnknownAttachment
      else Internal)"

subsection \<open>The layout buffer\<close>

definition slice :: "nat \<Rightarrow> nat \<Rightarrow> bytes \<Rightarrow> bytes" where
  "slice i j b = take (j - i) (drop i b)"

fun le_value :: "bytes \<Rightarrow> nat" where
  "le_value [] = 0"
| "le_value (b # bs) = byte b + 256 * le_value bs"

definition ESP_TYPE :: bytes where
  "ESP_TYPE = map char_of [0x28, 0x73, 0x2a, 0xc1, 0x1f, 0xf8, 0xd2, 0x11, 0xba, 0x4b, 0x00, 0xa0, 0xc9, 0x3e, 0xc9, 0x3b :: nat]"

definition MSR_TYPE :: bytes where
  "MSR_TYPE = map char_of [0x16, 0xe3, 0xc9, 0xe3, 0x5c, 0x0b, 0xb8, 0x4d, 0x81, 0x7d, 0xf9, 0x2d, 0xf0, 0x02, 0x15, 0xae :: nat]"

definition RECOVERY_TYPE :: bytes where
  "RECOVERY_TYPE = map char_of [0xa4, 0xbb, 0x94, 0xde, 0xd1, 0x06, 0x40, 0x4d, 0xa1, 0x6a, 0xbf, 0xd5, 0x01, 0x79, 0xd6, 0xac :: nat]"

definition upper_hex :: "bytes \<Rightarrow> string" where
  "upper_hex bs = map to_upper (hex_bytes bs)"

definition guid_text :: "bytes \<Rightarrow> string" where
  "guid_text g = upper_hex (rev (take 4 g)) @ ''-'' @ upper_hex (rev (slice 4 6 g)) @ ''-'' @
     upper_hex (rev (slice 6 8 g)) @ ''-'' @ upper_hex (slice 8 10 g) @ ''-'' @ upper_hex (slice 10 16 g)"

record volume_facts =
  vf_letter :: "u32 \<Rightarrow> u64 \<Rightarrow> scalar option"
  vf_info :: "scalar \<Rightarrow> string \<times> string \<times> u64 \<times> u64"

text \<open>One entry of 144 bytes; an entry of no length is skipped.\<close>

definition parse_entry :: "volume_facts \<Rightarrow> edit_style \<Rightarrow> u32 \<Rightarrow> bytes \<Rightarrow> disk_partition option" where
  "parse_entry facts style disk_number e =
     (let off = of_nat (le_value (slice 8 16 e)) :: u64;
          len = of_nat (le_value (slice 16 24 e)) :: u64;
          ptype = slice 32 48 e;
          letter = vf_letter facts disk_number off in
      if sint len \<le> 0 then None
      else
        (case (case letter of None \<Rightarrow> ([], [], 0, 0) | Some l \<Rightarrow> vf_info facts l) of
           (label, fs, used, free) \<Rightarrow>
             Some \<lparr>dp_number = of_nat (le_value (slice 24 28 e)), dp_size = len, dp_offset = off, dp_letter = letter,
               dp_label = label, dp_file_system = fs,
               dp_esp = (style = StyleGpt \<and> ptype = ESP_TYPE), dp_msr = (style = StyleGpt \<and> ptype = MSR_TYPE),
               dp_recovery = (style = StyleGpt \<and> ptype = RECOVERY_TYPE),
               dp_type = (if style = StyleGpt then guid_text ptype else ''0x'' @ upper_hex [e ! 32]),
               dp_used = used, dp_free = free,
               dp_active = (style = StyleMbr \<and> 0x80 \<le> byte (e ! 33))\<rparr>))"

text \<open>The loop over the declared number of entries, which stops where the buffer ends.\<close>

fun parse_entries :: "(bytes \<Rightarrow> disk_partition option) \<Rightarrow> bytes \<Rightarrow> nat \<Rightarrow> nat \<Rightarrow> disk_partition list" where
  "parse_entries parse buffer i 0 = []"
| "parse_entries parse buffer i (Suc n) =
     (let off = 48 + i * 144 in
      if length buffer < off + 144 then []
      else
        (case parse (slice off (off + 144) buffer) of
           None \<Rightarrow> parse_entries parse buffer (i + 1) n
         | Some p \<Rightarrow> p # parse_entries parse buffer (i + 1) n))"

definition parse_partition_layout ::
  "volume_facts \<Rightarrow> bytes \<Rightarrow> u32 \<Rightarrow> edit_style \<Rightarrow> u32 \<Rightarrow> disk_partition list" where
  "parse_partition_layout facts buffer partition_count style disk_number =
     sort_key dp_offset (parse_entries (parse_entry facts style disk_number) buffer 0 (unat partition_count))"

subsection \<open>What the buffer means\<close>

text \<open>An entry as the Windows headers lay it out: the fields that are read, the others filled with anything.\<close>

record raw_entry =
  re_style :: bytes
  re_offset :: u64
  re_length :: u64
  re_number :: u32
  re_flags :: bytes
  re_union :: bytes

definition entry_wf :: "raw_entry \<Rightarrow> bool" where
  "entry_wf e \<longleftrightarrow> length (re_style e) = 8 \<and> length (re_flags e) = 4 \<and> length (re_union e) = 112"

definition entry_bytes :: "raw_entry \<Rightarrow> bytes" where
  "entry_bytes e = re_style e @ u64_le (re_offset e) @ u64_le (re_length e) @ le_bytes 4 (unat (re_number e)) @
     re_flags e @ re_union e"

definition entry_partition :: "volume_facts \<Rightarrow> edit_style \<Rightarrow> u32 \<Rightarrow> raw_entry \<Rightarrow> disk_partition" where
  "entry_partition facts style n e =
     (let letter = vf_letter facts n (re_offset e); ptype = take 16 (re_union e) in
      case (case letter of None \<Rightarrow> ([], [], 0, 0) | Some l \<Rightarrow> vf_info facts l) of
        (label, fs, used, free) \<Rightarrow>
          \<lparr>dp_number = re_number e, dp_size = re_length e, dp_offset = re_offset e, dp_letter = letter,
           dp_label = label, dp_file_system = fs, dp_esp = (style = StyleGpt \<and> ptype = ESP_TYPE),
           dp_msr = (style = StyleGpt \<and> ptype = MSR_TYPE), dp_recovery = (style = StyleGpt \<and> ptype = RECOVERY_TYPE),
           dp_type = (if style = StyleGpt then guid_text ptype else ''0x'' @ upper_hex [re_union e ! 0]),
           dp_used = used, dp_free = free,
           dp_active = (style = StyleMbr \<and> 0x80 \<le> byte (re_union e ! 1))\<rparr>)"

lemma le_value_bytes: "le_value (le_bytes w n) = n mod 256 ^ w"
proof (induction w arbitrary: n)
  case (Suc w)
  have "n mod 256 + 256 * (n div 256 mod 256 ^ w) = n mod (256 * 256 ^ w)"
    by (simp add: mod_mult2_eq)
  then show ?case by (simp add: Suc)
qed simp

lemma le_value_words [simp]:
  "of_nat (le_value (u64_le v)) = v" "of_nat (le_value (le_bytes 4 (unat n))) = (n :: u32)"
  using unat_bound [of v] unat_bound [of n] by (simp_all add: le_value_bytes u64_le_def)

lemma slice_append: "length a = i \<Longrightarrow> length b = j - i \<Longrightarrow> slice i j (a @ b @ c) = b"
  by (simp add: slice_def)

lemma parse_entry_bytes:
  assumes "entry_wf e"
  shows "parse_entry facts style n (entry_bytes e) =
    (if sint (re_length e) \<le> 0 then None else Some (entry_partition facts style n e))"
proof -
  let ?b = "entry_bytes e"
  have "slice 8 16 ?b = u64_le (re_offset e)" "slice 16 24 ?b = u64_le (re_length e)"
    "slice 24 28 ?b = le_bytes 4 (unat (re_number e))" "slice 32 48 ?b = take 16 (re_union e)"
    "?b ! 32 = re_union e ! 0" "?b ! 33 = re_union e ! 1"
    using assms by (simp_all add: entry_bytes_def entry_wf_def slice_def nth_append)
  then show ?thesis
    by (simp add: parse_entry_def entry_partition_def Let_def split: prod.splits option.splits)
qed

lemma length_entry_bytes: "entry_wf e \<Longrightarrow> length (entry_bytes e) = 144"
  by (simp add: entry_bytes_def entry_wf_def)

lemma parse_entries_bytes:
  assumes "list_all entry_wf es" and "length pre = 48 + i * 144" and "length tail < 144"
  shows "parse_entries (parse_entry facts style n) (pre @ concat (map entry_bytes es) @ tail) i k =
    map (entry_partition facts style n) (filter (\<lambda>e. 0 < sint (re_length e)) (take k es))"
  using assms
proof (induction k arbitrary: es pre i)
  case (Suc k)
  show ?case
  proof (cases es)
    case Nil
    then show ?thesis using Suc.prems by simp
  next
    case (Cons e rest)
    let ?b = "pre @ entry_bytes e @ concat (map entry_bytes rest) @ tail"
    have e: "length (entry_bytes e) = 144" "entry_wf e" using Suc.prems(1) by (simp_all add: Cons length_entry_bytes)
    have entry: "slice (48 + i * 144) (48 + i * 144 + 144) ?b = entry_bytes e"
      using Suc.prems(2) e by (intro slice_append) simp_all
    have "parse_entries (parse_entry facts style n) ((pre @ entry_bytes e) @ concat (map entry_bytes rest) @ tail) (i + 1) k =
        map (entry_partition facts style n) (filter (\<lambda>e. 0 < sint (re_length e)) (take k rest))"
      using Suc.prems e by (intro Suc.IH) (simp_all add: Cons)
    then show ?thesis
      using Suc.prems(2) e entry by (simp add: Cons Let_def parse_entry_bytes not_le)
  qed
qed simp

text \<open>A layout buffer means its entries: whatever the header, the unread fields and a cut-off rest of an entry
  contain, the parser returns, by offset, exactly the partitions of positive length among the declared entries
  that are there in full, on either partition style.\<close>

theorem layout_buffer_read_exactly:
  assumes "length header = 48" and "list_all entry_wf es" and "length tail < 144"
  shows "parse_partition_layout facts (header @ concat (map entry_bytes es) @ tail) k style n =
    sort_key dp_offset (map (entry_partition facts style n)
      (filter (\<lambda>e. 0 < sint (re_length e)) (take (unat k) es)))"
  using parse_entries_bytes [of es header 0 tail facts style n "unat k"] assms
  by (simp add: parse_partition_layout_def)

lemma layout_buffer_read_exactly_witness:
  "parse_partition_layout \<lparr>vf_letter = \<lambda>_ _. None, vf_info = \<lambda>_. ([], [], 0, 0)\<rparr>
     (replicate 48 NUL @ concat (map entry_bytes
        [\<lparr>re_style = replicate 8 NUL, re_offset = 1048576, re_length = 4096, re_number = 1, re_flags = replicate 4 NUL,
          re_union = replicate 112 NUL\<rparr>]) @ [NUL]) 2 StyleMbr 0 \<noteq> []"
  by (subst layout_buffer_read_exactly) (simp_all add: entry_wf_def)

end
