(* ===== verification/InstallConfig.thy ===== *)
theory InstallConfig
  imports ConfigText InstallControl Scatter
begin

section \<open>The installation configuration\<close>

text \<open>
  What an installation that continues in the boot environment is told. The normal system writes it
  (\<open>install_config.rs\<close>: \<open>InstallConfig\<close>, \<open>validate_install_ini_values\<close>, \<open>serialize_install_config\<close> and the
  composition with the binding of the manifest), the boot environment reads it (\<open>config.rs\<close> there:
  its own \<open>InstallConfig\<close>, \<open>deserialize_install_config\<close>) and compares it with the manifest
  (\<open>validate_authenticated_manifest_semantics\<close>). The two structures are different records, as in the code. The
  readers of single bindings in \<open>first_logon.rs\<close> and \<open>pe_network.rs\<close> and the ticket of \<open>install_stats.rs\<close> belong to
  it. The JSON codec of the plan and the decoding of the selected software are parameters.
\<close>

subsection \<open>Small values\<close>

record install_ticket =
  it_install_id :: string
  it_token :: string

definition is_lower_hex_text :: "string \<Rightarrow> nat \<Rightarrow> bool" where
  "is_lower_hex_text v n \<longleftrightarrow> length v = n \<and> list_all is_lower_hex v"

definition ticket_valid :: "install_ticket \<Rightarrow> bool" where
  "ticket_valid t \<longleftrightarrow> is_lower_hex_text (it_install_id t) 32 \<and> is_lower_hex_text (it_token t) 64"

definition ticket_from_config_value :: "string \<Rightarrow> install_ticket option" where
  "ticket_from_config_value v = (case split_once CHR '':'' (trim v) of
     None \<Rightarrow> None
   | Some (install_id, token) \<Rightarrow>
       let t = \<lparr>it_install_id = install_id, it_token = token\<rparr> in if ticket_valid t then Some t else None)"

definition ticket_config_value :: "install_ticket \<Rightarrow> string" where
  "ticket_config_value t = it_install_id t @ CHR '':'' # it_token t"

fun pca_as_config_value :: "pca_mode \<Rightarrow> string" where
  "pca_as_config_value PcaAuto = ''auto''"
| "pca_as_config_value Pca2011 = ''pca2011''"
| "pca_as_config_value Pca2023 = ''pca2023''"

definition pca_from_config_value :: "string \<Rightarrow> pca_mode" where
  "pca_from_config_value v = (let w = map to_lower (trim v) in
     if w \<in> {''pca2011'', ''2011'', ''1''} then Pca2011
     else if w \<in> {''pca2023'', ''2023'', ''2''} then Pca2023 else PcaAuto)"

definition driver_mode_from_u8 :: "u8 \<Rightarrow> driver_action" where
  "driver_mode_from_u8 n = (if n = 1 then DriverSaveOnly else if n = 2 then DriverAutoImport else DriverNone)"

definition default_administrator :: administrator_options where
  "default_administrator = \<lparr>ba_enabled = False, ba_account_name = ''Administrator'', ba_password = [], ba_auto_logon = True\<rparr>"

subsection \<open>The two structures\<close>

text \<open>\<open>InstallConfig\<close> of the normal system.\<close>

record install_config =
  ic_session_id :: string
  ic_unattended :: bool
  ic_restore_drivers :: bool
  ic_driver_action_mode :: u8
  ic_auto_reboot :: bool
  ic_automation_shutdown_on_terminal :: bool
  ic_install_report :: "install_ticket option"
  ic_format_partition :: bool
  ic_preserve_personal_files :: bool
  ic_repair_boot :: bool
  ic_original_guid :: string
  ic_volume_index :: u32
  ic_target_partition :: string
  ic_custom_install_plan :: install_plan
  ic_canonical_target :: "canonical_target option"
  ic_image_path :: string
  ic_source_image_verified :: bool
  ic_image_chunked :: bool
  ic_image_chunked_length :: u64
  ic_image_chunked_sha256 :: string
  ic_image_expanded_bytes :: u64
  ic_in_place_target_staging :: bool
  ic_is_gho :: bool
  ic_migrate_wifi :: bool
  ic_wifi_profile_length :: u64
  ic_wifi_profile_sha256 :: string
  ic_pe_network_enabled :: bool
  ic_pe_network_payload_length :: u64
  ic_pe_network_payload_sha256 :: string
  ic_automatic_feedback_mode :: string
  ic_wim_engine :: u8
  ic_is_xp :: bool
  ic_is_xp_i386 :: bool
  ic_xp_source_arch :: string
  ic_run_diskpart_scripts :: bool
  ic_boot_mode :: u8
  ic_boot_pca_mode :: pca_mode
  ic_pca_compat_package :: string
  ic_pca_compat_sha256 :: string
  ic_pca_compat_image_index :: u32
  ic_pca_compat_target_build :: u32
  ic_pca_compat_target_architecture :: u16
  ic_remove_shortcut_arrow :: bool
  ic_restore_classic_context_menu :: bool
  ic_bypass_nro :: bool
  ic_disable_windows_update :: bool
  ic_disable_windows_defender :: bool
  ic_disable_reserved_storage :: bool
  ic_disable_uac :: bool
  ic_disable_device_encryption :: bool
  ic_remove_uwp_apps :: bool
  ic_import_storage_controller_drivers :: bool
  ic_custom_username :: string
  ic_builtin_administrator :: administrator_options
  ic_volume_label :: string
  ic_custom_unattend :: string
  ic_preinstalled_software_config :: string
  ic_win7_uefi_patch :: bool
  ic_win7_inject_usb3_driver :: bool
  ic_win7_inject_nvme_driver :: bool
  ic_win7_fix_acpi_bsod :: bool
  ic_win7_fix_storage_bsod :: bool
  ic_xp_inject_usb3_driver :: bool
  ic_xp_inject_nvme_driver :: bool

text \<open>\<open>InstallConfig\<close> of the boot environment.\<close>

record pe_install_config =
  pi_session_id :: string
  pi_unattended :: bool
  pi_restore_drivers :: bool
  pi_driver_action_mode :: driver_action
  pi_auto_reboot :: bool
  pi_automation_shutdown_on_terminal :: bool
  pi_install_report :: "install_ticket option"
  pi_format_partition :: bool
  pi_preserve_personal_files :: bool
  pi_repair_boot :: bool
  pi_original_guid :: string
  pi_volume_index :: u32
  pi_target_partition :: string
  pi_custom_install_plan :: install_plan
  pi_image_path :: string
  pi_source_image_verified :: bool
  pi_image_chunked :: bool
  pi_image_chunked_length :: u64
  pi_image_chunked_sha256 :: string
  pi_image_expanded_bytes :: u64
  pi_in_place_target_staging :: bool
  pi_is_gho :: bool
  pi_migrate_wifi :: bool
  pi_wifi_profile_length :: u64
  pi_wifi_profile_sha256 :: string
  pi_pe_network_enabled :: bool
  pi_automatic_feedback_mode :: string
  pi_wim_engine :: u8
  pi_is_xp :: bool
  pi_is_xp_i386 :: bool
  pi_xp_source_arch :: string
  pi_run_diskpart_scripts :: bool
  pi_boot_mode :: u8
  pi_boot_pca_mode :: pca_mode
  pi_pca_compat_package :: string
  pi_pca_compat_sha256 :: string
  pi_pca_compat_image_index :: u32
  pi_pca_compat_target_build :: u32
  pi_pca_compat_target_architecture :: u16
  pi_language :: string
  pi_install_cab_packages :: bool
  pi_remove_shortcut_arrow :: bool
  pi_restore_classic_context_menu :: bool
  pi_bypass_nro :: bool
  pi_disable_windows_update :: bool
  pi_disable_windows_defender :: bool
  pi_disable_reserved_storage :: bool
  pi_disable_uac :: bool
  pi_disable_device_encryption :: bool
  pi_remove_uwp_apps :: bool
  pi_import_storage_controller_drivers :: bool
  pi_custom_username :: string
  pi_builtin_administrator :: administrator_options
  pi_volume_label :: string
  pi_custom_unattend :: string
  pi_preinstalled_software_config :: string
  pi_win7_uefi_patch :: bool
  pi_win7_inject_usb3_driver :: bool
  pi_win7_inject_nvme_driver :: bool
  pi_win7_fix_acpi_bsod :: bool
  pi_win7_fix_storage_bsod :: bool
  pi_xp_inject_usb3_driver :: bool
  pi_xp_inject_nvme_driver :: bool

definition pe_install_default :: pe_install_config where
  "pe_install_default = \<lparr>pi_session_id = [], pi_unattended = False, pi_restore_drivers = False, pi_driver_action_mode = DriverNone,
     pi_auto_reboot = False, pi_automation_shutdown_on_terminal = False, pi_install_report = None, pi_format_partition = True,
     pi_preserve_personal_files = False, pi_repair_boot = True, pi_original_guid = [], pi_volume_index = 1,
     pi_target_partition = [], pi_custom_install_plan = ReinstallPartition, pi_image_path = [], pi_source_image_verified = False,
     pi_image_chunked = False, pi_image_chunked_length = 0, pi_image_chunked_sha256 = [], pi_image_expanded_bytes = 0,
     pi_in_place_target_staging = False, pi_is_gho = False, pi_migrate_wifi = False, pi_wifi_profile_length = 0,
     pi_wifi_profile_sha256 = [], pi_pe_network_enabled = False, pi_automatic_feedback_mode = [], pi_wim_engine = 0,
     pi_is_xp = False, pi_is_xp_i386 = False, pi_xp_source_arch = [], pi_run_diskpart_scripts = False,
     pi_boot_mode = 0, pi_boot_pca_mode = PcaAuto, pi_pca_compat_package = [], pi_pca_compat_sha256 = [],
     pi_pca_compat_image_index = 0, pi_pca_compat_target_build = 0, pi_pca_compat_target_architecture = 0, pi_language = [],
     pi_install_cab_packages = False, pi_remove_shortcut_arrow = False, pi_restore_classic_context_menu = False, pi_bypass_nro = False,
     pi_disable_windows_update = False, pi_disable_windows_defender = False, pi_disable_reserved_storage = False, pi_disable_uac = False,
     pi_disable_device_encryption = False, pi_remove_uwp_apps = False, pi_import_storage_controller_drivers = False, pi_custom_username = [],
     pi_builtin_administrator = default_administrator, pi_volume_label = [], pi_custom_unattend = [], pi_preinstalled_software_config = [],
     pi_win7_uefi_patch = False, pi_win7_inject_usb3_driver = False, pi_win7_inject_nvme_driver = False, pi_win7_fix_acpi_bsod = False,
     pi_win7_fix_storage_bsod = False, pi_xp_inject_usb3_driver = False, pi_xp_inject_nvme_driver = False\<rparr>"

definition pi_has_driver_data :: "pe_install_config \<Rightarrow> bool" where
  "pi_has_driver_data c \<longleftrightarrow> pi_driver_action_mode c \<noteq> DriverNone \<or> pi_restore_drivers c"

definition pi_should_import_drivers :: "pe_install_config \<Rightarrow> bool" where
  "pi_should_import_drivers c = (if pi_driver_action_mode c \<noteq> DriverNone then pi_driver_action_mode c = DriverAutoImport
     else pi_restore_drivers c)"

definition ic_should_import_drivers :: "install_config \<Rightarrow> bool" where
  "ic_should_import_drivers c = (if 0 < ic_driver_action_mode c then ic_driver_action_mode c = 2
     else ic_restore_drivers c)"

fun driver_action_to_mode :: "driver_action \<Rightarrow> u8" where
  "driver_action_to_mode DriverNone = 0"
| "driver_action_to_mode DriverSaveOnly = 1"
| "driver_action_to_mode DriverAutoImport = 2"

definition has_requested_advanced_options :: "pe_install_config \<Rightarrow> bool" where
  "has_requested_advanced_options c \<longleftrightarrow>
     pi_remove_shortcut_arrow c \<or> pi_restore_classic_context_menu c \<or> pi_bypass_nro c \<or>
     pi_disable_windows_update c \<or> pi_disable_windows_defender c \<or> pi_disable_uac c \<or>
     pi_disable_device_encryption c \<or> pi_remove_uwp_apps c \<or> pi_import_storage_controller_drivers c \<or>
     pi_win7_inject_usb3_driver c \<or> pi_win7_inject_nvme_driver c \<or> pi_win7_fix_acpi_bsod c \<or>
     pi_win7_fix_storage_bsod c"

subsection \<open>Writing\<close>

definition PRIVATE_WIFI_PROFILE_MAX_BYTES :: u64 where "PRIVATE_WIFI_PROFILE_MAX_BYTES = 1048576"
definition PAYLOAD_MAX_BYTES :: u64 where "PAYLOAD_MAX_BYTES = 524288"

definition text_values :: "install_config \<Rightarrow> (string \<times> string) list" where
  "text_values c =
     [(''SessionId'', ic_session_id c), (''OriginalGUID'', ic_original_guid c),
      (''TargetPartition'', ic_target_partition c), (''ImagePath'', ic_image_path c),
      (''XpSourceArch'', ic_xp_source_arch c), (''PcaCompatPackage'', ic_pca_compat_package c),
      (''PcaCompatSha256'', ic_pca_compat_sha256 c), (''CustomUsername'', ic_custom_username c),
      (''BuiltinAdministratorName'', ba_account_name (ic_builtin_administrator c)),
      (''BuiltinAdministratorPassword'', ba_password (ic_builtin_administrator c)),
      (''VolumeLabel'', ic_volume_label c), (''CustomUnattendFile'', ic_custom_unattend c),
      (''PreinstalledSoftwareConfig'', ic_preinstalled_software_config c)]"

definition validate_install_ini_values :: "install_config \<Rightarrow> string + unit" where
  "validate_install_ini_values c =
     and_then (try_fold (\<lambda>_. validate_ini_value) () (text_values c)) (\<lambda>_.
     ensure (\<not> (ic_source_image_verified c \<and>
         (\<not> has_extension (ic_image_path c) [''wim'', ''esd''] \<or> ic_is_gho c \<or> ic_is_xp c \<or> ic_is_xp_i386 c)))
       ''SourceImageVerified is valid only for a one-file WIM/ESD handoff'')"

definition digest_ok :: "string \<Rightarrow> bool" where
  "digest_ok h \<longleftrightarrow> length h = 64 \<and> list_all is_hexdigit h"

definition wifi_lines :: "install_config \<Rightarrow> string + (string \<times> string) list" where
  "wifi_lines c = (if ic_migrate_wifi c then
     (let sha256 = map to_lower (trim (ic_wifi_profile_sha256 c)) in
      and_then (ensure (\<not> (ic_wifi_profile_length c = 0 \<or>
          PRIVATE_WIFI_PROFILE_MAX_BYTES < ic_wifi_profile_length c \<or> \<not> digest_ok sha256))
        ''private Wi-Fi profile binding is invalid'') (\<lambda>_.
      Inr [(''MigrateWifi'', ''true''), (''WifiProfileLength'', show_word (ic_wifi_profile_length c)),
           (''WifiProfileSha256'', sha256)]))
     else Inr [])"

definition report_lines :: "install_config \<Rightarrow> (string \<times> string) list" where
  "report_lines c = (case ic_install_report c of None \<Rightarrow> []
     | Some t \<Rightarrow> if ticket_valid t then [(''InstallReport'', ticket_config_value t)] else [])"

definition network_lines :: "install_config \<Rightarrow> string + (string \<times> string) list" where
  "network_lines c = (if 0 < ic_pe_network_payload_length c then
     (let sha256 = map to_lower (trim (ic_pe_network_payload_sha256 c)) in
      and_then (ensure (\<not> (PAYLOAD_MAX_BYTES < ic_pe_network_payload_length c \<or> \<not> digest_ok sha256))
        ''PE network payload binding is invalid'') (\<lambda>_.
      Inr [(''PeNetworkPayloadLength'', show_word (ic_pe_network_payload_length c)),
           (''PeNetworkPayloadSha256'', sha256)]))
     else Inr [])"

definition source_lines :: "install_config \<Rightarrow> string + (string \<times> string) list" where
  "source_lines c =
     (let verified = (if ic_source_image_verified c then [(''SourceImageVerified'', ''true'')] else []) @
        (if ic_in_place_target_staging c then [(''InPlaceTargetStaging'', ''true'')] else []) in
      if ic_image_chunked c then
        (let sha256 = map to_lower (trim (ic_image_chunked_sha256 c)) in
         and_then (ensure (\<not> (ic_image_chunked_length c = 0 \<or> \<not> digest_ok sha256))
           ''chunked image binding is invalid'') (\<lambda>_.
         Inr (verified @ [(''ImageChunked'', ''true''), (''ImageChunkedLength'', show_word (ic_image_chunked_length c)),
           (''ImageChunkedSha256'', sha256), (''ImageExpandedBytes'', show_word (ic_image_expanded_bytes c))])))
      else Inr verified)"

definition feedback_mode :: "install_config \<Rightarrow> string" where
  "feedback_mode c = (if ic_automatic_feedback_mode c \<in> {''disabled'', ''normal'', ''normal_and_pe''}
     then ic_automatic_feedback_mode c else ''normal_and_pe'')"

text \<open>The template is one raw string with line feeds; the optional lines inside it end in \<open>\r\n\<close>.\<close>

definition task_pairs :: "string \<Rightarrow> install_config \<Rightarrow> (string \<times> string) list" where
  "task_pairs plan c =
     [(''SessionId'', ic_session_id c),
      (''Unattended'', show_bool (ic_unattended c)),
      (''RestoreDrivers'', show_bool (ic_restore_drivers c)),
      (''DriverActionMode'', show_word (ic_driver_action_mode c)),
      (''AutoReboot'', show_bool (ic_auto_reboot c)),
      (''AutomationShutdownOnTerminal'', show_bool (ic_automation_shutdown_on_terminal c)),
      (''FormatPartition'', show_bool (ic_format_partition c)),
      (''PreservePersonalFiles'', show_bool (ic_preserve_personal_files c)),
      (''RepairBoot'', show_bool (ic_repair_boot c)),
      (''OriginalGUID'', ic_original_guid c),
      (''VolumeIndex'', show_word (ic_volume_index c)),
      (''TargetPartition'', ic_target_partition c),
      (''CustomInstallPlanJson'', plan),
      (''ImagePath'', ic_image_path c)]"

definition image_pairs :: "string \<Rightarrow> install_config \<Rightarrow> (string \<times> string) list" where
  "image_pairs lang c =
     [(''IsGho'', show_bool (ic_is_gho c)),
      (''WimEngine'', show_word (ic_wim_engine c)),
      (''IsXp'', show_bool (ic_is_xp c)),
      (''IsXpI386'', show_bool (ic_is_xp_i386 c)),
      (''XpSourceArch'', ic_xp_source_arch c),
      (''RunDiskpartScripts'', ''false''),
      (''BootMode'', show_word (ic_boot_mode c)),
      (''BootPcaMode'', pca_as_config_value (ic_boot_pca_mode c)),
      (''PcaCompatPackage'', ic_pca_compat_package c),
      (''PcaCompatSha256'', ic_pca_compat_sha256 c),
      (''PcaCompatImageIndex'', show_word (ic_pca_compat_image_index c)),
      (''PcaCompatTargetBuild'', show_word (ic_pca_compat_target_build c)),
      (''PcaCompatTargetArchitecture'', show_word (ic_pca_compat_target_architecture c)),
      (''Language'', lang),
      (''PeNetworkEnabled'', show_bool (ic_pe_network_enabled c)),
      (''AutomaticFeedbackMode'', feedback_mode c)]"

definition advanced_pairs :: "install_config \<Rightarrow> (string \<times> string) list" where
  "advanced_pairs c =
     [(''RemoveShortcutArrow'', show_bool (ic_remove_shortcut_arrow c)),
      (''RestoreClassicContextMenu'', show_bool (ic_restore_classic_context_menu c)),
      (''BypassNRO'', show_bool (ic_bypass_nro c)),
      (''DisableWindowsUpdate'', show_bool (ic_disable_windows_update c)),
      (''DisableWindowsDefender'', show_bool (ic_disable_windows_defender c)),
      (''DisableReservedStorage'', show_bool (ic_disable_reserved_storage c)),
      (''DisableUAC'', show_bool (ic_disable_uac c)),
      (''DisableDeviceEncryption'', show_bool (ic_disable_device_encryption c)),
      (''RemoveUWPApps'', show_bool (ic_remove_uwp_apps c)),
      (''ImportStorageControllerDrivers'', show_bool (ic_import_storage_controller_drivers c)),
      (''CustomUsername'', ic_custom_username c),
      (''BuiltinAdministrator'', show_bool (ba_enabled (ic_builtin_administrator c))),
      (''BuiltinAdministratorName'', ba_account_name (ic_builtin_administrator c)),
      (''BuiltinAdministratorPassword'', ba_password (ic_builtin_administrator c)),
      (''BuiltinAdministratorAutoLogon'', show_bool (ba_auto_logon (ic_builtin_administrator c))),
      (''VolumeLabel'', ic_volume_label c),
      (''CustomUnattendFile'', ic_custom_unattend c),
      (''PreinstalledSoftwareConfig'', ic_preinstalled_software_config c)]"

definition win7_pairs :: "install_config \<Rightarrow> (string \<times> string) list" where
  "win7_pairs c =
     [(''Win7UefiPatch'', show_bool (ic_win7_uefi_patch c)),
      (''Win7InjectUsb3Driver'', show_bool (ic_win7_inject_usb3_driver c)),
      (''Win7InjectNvmeDriver'', show_bool (ic_win7_inject_nvme_driver c)),
      (''Win7FixAcpiBsod'', show_bool (ic_win7_fix_acpi_bsod c)),
      (''Win7FixStorageBsod'', show_bool (ic_win7_fix_storage_bsod c))]"

definition xp_pairs :: "install_config \<Rightarrow> (string \<times> string) list" where
  "xp_pairs c =
     [(''XpInjectUsb3Driver'', show_bool (ic_xp_inject_usb3_driver c)),
      (''XpInjectNvmeDriver'', show_bool (ic_xp_inject_nvme_driver c))]"

definition pair_lines :: "(string \<times> string) list \<Rightarrow> string" where
  "pair_lines ps = crlf_text (map line_of ps)"

definition serialize_install_config ::
  "(install_plan \<Rightarrow> string option) \<Rightarrow> string \<Rightarrow> install_config \<Rightarrow> string + string" where
  "serialize_install_config to_string lang c =
     and_then (validate_install_ini_values c) (\<lambda>_.
     and_then (map_err (\<lambda>_. ''serialize authenticated custom installation plan'')
       (plan_to_json to_string (ic_custom_install_plan c))) (\<lambda>plan.
     and_then (wifi_lines c) (\<lambda>wifi.
     and_then (network_lines c) (\<lambda>network.
     and_then (source_lines c) (\<lambda>source.
     Inr (lf_text (''[Install]'' # map line_of (task_pairs plan c)) @ pair_lines source @
       lf_text ([] # map line_of (image_pairs lang c)) @ pair_lines (wifi @ report_lines c @ network) @
       lf_text ([] # [] # ''[Advanced]'' # map line_of (advanced_pairs c) @
         [] # ''[Win7]'' # map line_of (win7_pairs c) @ [] # ''[Xp]'' # map line_of (xp_pairs c))))))))"

text \<open>The configuration that goes into the boot payload: bound to the manifest, and passed through the gate.\<close>

definition bound_install_config ::
  "(install_plan \<Rightarrow> string option) \<Rightarrow> string \<Rightarrow> install_config \<Rightarrow> manifest_binding \<Rightarrow> string + string" where
  "bound_install_config to_string lang c b =
     and_then (serialize_install_config to_string lang c) (\<lambda>text.
     let content = text @ crlf_text [''[HandoffManifest]''] @ binding_to_config_lines b in
     and_then (validate_install_handoff_ini content) (\<lambda>_. Inr content))"

subsection \<open>Reading\<close>

definition strict_bool :: "string \<Rightarrow> string \<Rightarrow> string + bool" where
  "strict_bool key v = ok_or (bool_of v) (''invalid '' @ key @ '' boolean: '' @ v)"

definition install_field :: "(string \<Rightarrow> install_plan option) \<Rightarrow> string \<Rightarrow> string \<Rightarrow>
    pe_install_config \<Rightarrow> string + pe_install_config" where
  "install_field from_str key v c =
     (if key = ''SessionId'' then Inr (c\<lparr>pi_session_id := v\<rparr>)
      else if key = ''Unattended'' then Inr (c\<lparr>pi_unattended := bool_or_false v\<rparr>)
      else if key = ''RestoreDrivers'' then Inr (c\<lparr>pi_restore_drivers := bool_or_false v\<rparr>)
      else if key = ''DriverActionMode'' then Inr (c\<lparr>pi_driver_action_mode := driver_mode_from_u8 (word_or 0 v)\<rparr>)
      else if key = ''AutoReboot'' then Inr (c\<lparr>pi_auto_reboot := bool_or_false v\<rparr>)
      else if key = ''InstallReport'' then Inr (c\<lparr>pi_install_report := ticket_from_config_value v\<rparr>)
      else if key = ''AutomationShutdownOnTerminal'' then and_then (strict_bool ''AutomationShutdownOnTerminal'' v) (\<lambda>b. Inr (c\<lparr>pi_automation_shutdown_on_terminal := b\<rparr>))
      else if key = ''FormatPartition'' then and_then (strict_bool ''FormatPartition'' v) (\<lambda>b. Inr (c\<lparr>pi_format_partition := b\<rparr>))
      else if key = ''PreservePersonalFiles'' then and_then (strict_bool ''PreservePersonalFiles'' v) (\<lambda>b. Inr (c\<lparr>pi_preserve_personal_files := b\<rparr>))
      else if key = ''RepairBoot'' then and_then (strict_bool ''RepairBoot'' v) (\<lambda>b. Inr (c\<lparr>pi_repair_boot := b\<rparr>))
      else if key = ''OriginalGUID'' then Inr (c\<lparr>pi_original_guid := v\<rparr>)
      else if key = ''VolumeIndex'' then Inr (c\<lparr>pi_volume_index := word_or 1 v\<rparr>)
      else if key = ''TargetPartition'' then Inr (c\<lparr>pi_target_partition := v\<rparr>)
      else if key = ''CustomInstallPlanJson'' then map_err (\<lambda>_. ''parse authenticated custom installation plan'')
          (and_then (plan_from_json from_str v) (\<lambda>p. Inr (c\<lparr>pi_custom_install_plan := p\<rparr>)))
      else if key = ''ImagePath'' then Inr (c\<lparr>pi_image_path := v\<rparr>)
      else if key = ''SourceImageVerified'' then and_then (strict_bool ''SourceImageVerified'' v) (\<lambda>b. Inr (c\<lparr>pi_source_image_verified := b\<rparr>))
      else if key = ''ImageChunked'' then Inr (c\<lparr>pi_image_chunked := bool_or_false v\<rparr>)
      else if key = ''ImageChunkedLength'' then Inr (c\<lparr>pi_image_chunked_length := word_or 0 v\<rparr>)
      else if key = ''ImageChunkedSha256'' then Inr (c\<lparr>pi_image_chunked_sha256 := map to_lower (trim v)\<rparr>)
      else if key = ''ImageExpandedBytes'' then Inr (c\<lparr>pi_image_expanded_bytes := word_or 0 v\<rparr>)
      else if key = ''InPlaceTargetStaging'' then Inr (c\<lparr>pi_in_place_target_staging := bool_or_false v\<rparr>)
      else if key = ''IsGho'' then Inr (c\<lparr>pi_is_gho := bool_or_false v\<rparr>)
      else if key = ''MigrateWifi'' then Inr (c\<lparr>pi_migrate_wifi := bool_or_false v\<rparr>)
      else if key = ''WifiProfileLength'' then Inr (c\<lparr>pi_wifi_profile_length := word_or 0 v\<rparr>)
      else if key = ''WifiProfileSha256'' then Inr (c\<lparr>pi_wifi_profile_sha256 := v\<rparr>)
      else if key = ''PeNetworkEnabled'' then Inr (c\<lparr>pi_pe_network_enabled := bool_or_false v\<rparr>)
      else if key = ''AutomaticFeedbackMode'' then Inr (c\<lparr>pi_automatic_feedback_mode := v\<rparr>)
      else if key = ''WimEngine'' then Inr (c\<lparr>pi_wim_engine := word_or 0 v\<rparr>)
      else if key = ''IsXp'' then Inr (c\<lparr>pi_is_xp := bool_or_false v\<rparr>)
      else if key = ''IsXpI386'' then Inr (c\<lparr>pi_is_xp_i386 := bool_or_false v\<rparr>)
      else if key = ''XpSourceArch'' then Inr (c\<lparr>pi_xp_source_arch := v\<rparr>)
      else if key = ''RunDiskpartScripts'' then Inr (c\<lparr>pi_run_diskpart_scripts := bool_or_false v\<rparr>)
      else if key = ''BootMode'' then Inr (c\<lparr>pi_boot_mode := word_or 0 v\<rparr>)
      else if key = ''BootPcaMode'' then Inr (c\<lparr>pi_boot_pca_mode := pca_from_config_value v\<rparr>)
      else if key = ''PcaCompatPackage'' then Inr (c\<lparr>pi_pca_compat_package := v\<rparr>)
      else if key = ''PcaCompatSha256'' then Inr (c\<lparr>pi_pca_compat_sha256 := v\<rparr>)
      else if key = ''PcaCompatImageIndex'' then Inr (c\<lparr>pi_pca_compat_image_index := word_or 0 v\<rparr>)
      else if key = ''PcaCompatTargetBuild'' then Inr (c\<lparr>pi_pca_compat_target_build := word_or 0 v\<rparr>)
      else if key = ''PcaCompatTargetArchitecture'' then Inr (c\<lparr>pi_pca_compat_target_architecture := word_or 0 v\<rparr>)
      else if key = ''Language'' then Inr (c\<lparr>pi_language := v\<rparr>)
      else if key = ''InstallCabPackages'' then Inr (c\<lparr>pi_install_cab_packages := bool_or_false v\<rparr>)
      else if key = ''RemoveShortcutArrow'' then Inr (c\<lparr>pi_remove_shortcut_arrow := bool_or_false v\<rparr>)
      else if key = ''RestoreClassicContextMenu'' then Inr (c\<lparr>pi_restore_classic_context_menu := bool_or_false v\<rparr>)
      else if key = ''BypassNRO'' then Inr (c\<lparr>pi_bypass_nro := bool_or_false v\<rparr>)
      else if key = ''DisableWindowsUpdate'' then Inr (c\<lparr>pi_disable_windows_update := bool_or_false v\<rparr>)
      else if key = ''DisableWindowsDefender'' then Inr (c\<lparr>pi_disable_windows_defender := bool_or_false v\<rparr>)
      else if key = ''DisableReservedStorage'' then Inr (c\<lparr>pi_disable_reserved_storage := bool_or_false v\<rparr>)
      else if key = ''DisableUAC'' then Inr (c\<lparr>pi_disable_uac := bool_or_false v\<rparr>)
      else if key = ''DisableDeviceEncryption'' then Inr (c\<lparr>pi_disable_device_encryption := bool_or_false v\<rparr>)
      else if key = ''RemoveUWPApps'' then Inr (c\<lparr>pi_remove_uwp_apps := bool_or_false v\<rparr>)
      else if key = ''ImportStorageControllerDrivers'' then Inr (c\<lparr>pi_import_storage_controller_drivers := bool_or_false v\<rparr>)
      else if key = ''CustomUsername'' then Inr (c\<lparr>pi_custom_username := v\<rparr>)
      else if key = ''BuiltinAdministrator'' then Inr (c\<lparr>pi_builtin_administrator := (pi_builtin_administrator c)\<lparr>ba_enabled := bool_or_false v\<rparr>\<rparr>)
      else if key = ''BuiltinAdministratorName'' then Inr (c\<lparr>pi_builtin_administrator := (pi_builtin_administrator c)\<lparr>ba_account_name := v\<rparr>\<rparr>)
      else if key = ''BuiltinAdministratorPassword'' then Inr (c\<lparr>pi_builtin_administrator := (pi_builtin_administrator c)\<lparr>ba_password := v\<rparr>\<rparr>)
      else if key = ''BuiltinAdministratorAutoLogon'' then Inr (c\<lparr>pi_builtin_administrator := (pi_builtin_administrator c)\<lparr>ba_auto_logon := bool_or_false v\<rparr>\<rparr>)
      else if key = ''VolumeLabel'' then Inr (c\<lparr>pi_volume_label := v\<rparr>)
      else if key = ''CustomUnattendFile'' then Inr (c\<lparr>pi_custom_unattend := v\<rparr>)
      else if key = ''PreinstalledSoftwareConfig'' then Inr (c\<lparr>pi_preinstalled_software_config := v\<rparr>)
      else if key = ''Win7UefiPatch'' then Inr (c\<lparr>pi_win7_uefi_patch := bool_or_false v\<rparr>)
      else if key = ''Win7InjectUsb3Driver'' then Inr (c\<lparr>pi_win7_inject_usb3_driver := bool_or_false v\<rparr>)
      else if key = ''Win7InjectNvmeDriver'' then Inr (c\<lparr>pi_win7_inject_nvme_driver := bool_or_false v\<rparr>)
      else if key = ''Win7FixAcpiBsod'' then Inr (c\<lparr>pi_win7_fix_acpi_bsod := bool_or_false v\<rparr>)
      else if key = ''Win7FixStorageBsod'' then Inr (c\<lparr>pi_win7_fix_storage_bsod := False\<rparr>)
      else if key = ''XpInjectUsb3Driver'' then Inr (c\<lparr>pi_xp_inject_usb3_driver := bool_or_false v\<rparr>)
      else if key = ''XpInjectNvmeDriver'' then Inr (c\<lparr>pi_xp_inject_nvme_driver := bool_or_false v\<rparr>)
      else Inr c)"

definition install_line ::
  "(string \<Rightarrow> install_plan option) \<Rightarrow> pe_install_config \<Rightarrow> string \<Rightarrow> string + pe_install_config" where
  "install_line from_str c raw_line =
     (let line = trim raw_line in
      if line = [] \<or> starts_with ''['' line \<or> starts_with ''#'' line then Inr c
      else (case split_once CHR ''='' line of
          None \<Rightarrow> Inr c
        | Some (key, v) \<Rightarrow> install_field from_str (trim key) (trim v) c))"

text \<open>\<open>private_wifi_binding_from_install_ini\<close>, which reads the configuration on its own.\<close>

record payload_binding =
  pb_length :: u64
  pb_sha256 :: string

record wifi_scan =
  ws_enabled :: "bool option"
  ws_length :: "u64 option"
  ws_sha256 :: "string option"
  ws_in_install :: bool

definition wifi_line :: "wifi_scan \<Rightarrow> string \<Rightarrow> string + wifi_scan" where
  "wifi_line s raw =
     (let line = trim raw in
      if starts_with ''['' line \<and> ends_with '']'' line
        then Inr (s\<lparr>ws_in_install := eq_ignore_ascii_case line ''[Install]''\<rparr>)
      else if \<not> ws_in_install s \<or> line = [] \<or> starts_with_any [CHR '';'', CHR ''#''] line then Inr s
      else (case split_once CHR ''='' line of
          None \<Rightarrow> Inr s
        | Some (key, v) \<Rightarrow>
            (if trim key = ''MigrateWifi''
               then and_then (ok_or (bool_of (trim v)) ''provided string was not `true` or `false`'')
                 (\<lambda>b. Inr (s\<lparr>ws_enabled := Some b\<rparr>))
             else if trim key = ''WifiProfileLength''
               then and_then (ok_or (word_of (trim v)) ''invalid digit found in string'')
                 (\<lambda>n. Inr (s\<lparr>ws_length := Some n\<rparr>))
             else if trim key = ''WifiProfileSha256'' then Inr (s\<lparr>ws_sha256 := Some (map to_lower (trim v))\<rparr>)
             else Inr s)))"

definition wifi_start :: wifi_scan where
  "wifi_start = \<lparr>ws_enabled = None, ws_length = None, ws_sha256 = None, ws_in_install = False\<rparr>"

definition wifi_result :: "wifi_scan \<Rightarrow> string + payload_binding option" where
  "wifi_result s = (case (ws_enabled s, ws_length s, ws_sha256 s) of
     (None, None, None) \<Rightarrow> Inr None
   | (Some False, None, None) \<Rightarrow> Inr None
   | (Some True, Some n, Some h) \<Rightarrow>
       (if n = 0 \<or> PRIVATE_WIFI_PROFILE_MAX_BYTES < n
          then Inl ''authenticated Wi-Fi profile length is outside the supported range''
        else if \<not> digest_ok h then Inl ''authenticated Wi-Fi profile SHA-256 is malformed''
        else Inr (Some \<lparr>pb_length = n, pb_sha256 = h\<rparr>))
   | (Some False, Some n, Some h) \<Rightarrow>
       (if n = 0 \<and> h = [] then Inr None
        else Inl ''authenticated Wi-Fi migration fields are incomplete or contradictory'')
   | _ \<Rightarrow> Inl ''authenticated Wi-Fi migration fields are incomplete or contradictory'')"

definition private_wifi_binding_from_install_ini :: "string \<Rightarrow> string + payload_binding option" where
  "private_wifi_binding_from_install_ini content =
     and_then (try_fold wifi_line wifi_start (str_lines content)) wifi_result"

text \<open>\<open>PeNetworkPayloadBinding::from_config_text\<close> and \<open>policy_enabled\<close>.\<close>

definition network_line :: "string option \<times> string option \<Rightarrow> string \<Rightarrow> string + string option \<times> string option" where
  "network_line s raw = (case s of (len, sha256) \<Rightarrow>
     (case split_once CHR ''='' (trim raw) of
        None \<Rightarrow> Inr (len, sha256)
      | Some (key, v) \<Rightarrow>
          (if trim key = ''PeNetworkPayloadLength'' then
             (if len \<noteq> None then Inl ''PE network payload length is repeated'' else Inr (Some (trim v), sha256))
           else if trim key = ''PeNetworkPayloadSha256'' then
             (if sha256 \<noteq> None then Inl ''PE network payload SHA-256 is repeated'' else Inr (len, Some (trim v)))
           else Inr (len, sha256))))"

definition network_result :: "string option \<times> string option \<Rightarrow> string + payload_binding option" where
  "network_result s = (case s of
     (None, None) \<Rightarrow> Inr None
   | (Some len, Some sha256) \<Rightarrow>
       and_then (ok_or (word_of len) ''PE network payload length is not an integer'') (\<lambda>n.
       and_then (ensure (\<not> (n = 0 \<or> PAYLOAD_MAX_BYTES < n)) ''PE network payload length is outside its supported range'') (\<lambda>_.
       and_then (decode_hex_array 32 sha256 ''PE network payload SHA-256'') (\<lambda>_.
       Inr (Some \<lparr>pb_length = n, pb_sha256 = map to_lower sha256\<rparr>))))
   | _ \<Rightarrow> Inl ''PE network payload binding fields are incomplete'')"

definition network_binding_from_config_text :: "string \<Rightarrow> string + payload_binding option" where
  "network_binding_from_config_text content =
     and_then (try_fold network_line (None, None) (str_lines content)) network_result"

definition policy_line :: "bool \<Rightarrow> string \<Rightarrow> unit + bool" where
  "policy_line seen raw = (case split_once CHR ''='' (trim raw) of
     None \<Rightarrow> Inr seen
   | Some (key, v) \<Rightarrow>
       if trim key \<noteq> ''PeNetworkEnabled'' then Inr seen
       else if seen \<or> \<not> eq_ignore_ascii_case (trim v) ''true'' then Inl ()
       else Inr True)"

definition policy_enabled :: "string \<Rightarrow> bool" where
  "policy_enabled content = (case try_fold policy_line False (str_lines content) of Inl _ \<Rightarrow> False | Inr seen \<Rightarrow> seen)"

definition bind_wifi :: "payload_binding option \<Rightarrow> pe_install_config \<Rightarrow> string + pe_install_config" where
  "bind_wifi expected c = (case expected of
     Some b \<Rightarrow> and_then (ensure (\<not> (\<not> pi_migrate_wifi c \<or> pi_wifi_profile_length c \<noteq> pb_length b \<or>
         pi_wifi_profile_sha256 c \<noteq> pb_sha256 b)) ''Wi-Fi binding fields were not parsed consistently'') (\<lambda>_. Inr c)
   | None \<Rightarrow> Inr (c\<lparr>pi_migrate_wifi := False, pi_wifi_profile_length := 0, pi_wifi_profile_sha256 := []\<rparr>))"

definition check_preservation :: "pe_install_config \<Rightarrow> string + unit" where
  "check_preservation c =
     (if pi_preserve_personal_files c then
        and_then (ensure (\<not> pi_format_partition c) ''personal-file preservation conflicts with target formatting'') (\<lambda>_.
        and_then (ensure (\<not> (pi_is_gho c \<or> pi_is_xp c \<or> pi_is_xp_i386 c))
          ''personal-file preservation requires a Windows 7+ WIM/ESD/SWM source'') (\<lambda>_.
        ensure (plan_mode (pi_custom_install_plan c) = ReinstallPartitionMode)
          ''personal-file preservation only supports partition reinstall''))
      else Inr ())"

definition deserialize_install_config ::
  "(string \<Rightarrow> install_plan option) \<Rightarrow> string \<Rightarrow> string + pe_install_config" where
  "deserialize_install_config from_str content =
     and_then (validate_install_handoff_ini content) (\<lambda>_.
     and_then (try_fold (install_line from_str) pe_install_default (str_lines content)) (\<lambda>c.
     and_then (private_wifi_binding_from_install_ini content) (\<lambda>expected.
     and_then (bind_wifi expected c) (\<lambda>c.
     and_then (check_preservation c) (\<lambda>_. Inr c)))))"

subsection \<open>What arrives\<close>

text \<open>
  The structure of the boot environment that corresponds to one of the normal system. White space around a text
  is lost; the fields of an absent binding are empty; a ticket that is not valid is not sent; the two fields that are
  only kept for old configurations are false.
\<close>

definition received_administrator :: "administrator_options \<Rightarrow> administrator_options" where
  "received_administrator a = a\<lparr>ba_account_name := trim (ba_account_name a), ba_password := trim (ba_password a)\<rparr>"

definition received :: "string \<Rightarrow> install_config \<Rightarrow> pe_install_config" where
  "received lang c = \<lparr>
     pi_session_id = trim (ic_session_id c),
     pi_unattended = ic_unattended c,
     pi_restore_drivers = ic_restore_drivers c,
     pi_driver_action_mode = driver_mode_from_u8 (ic_driver_action_mode c),
     pi_auto_reboot = ic_auto_reboot c,
     pi_automation_shutdown_on_terminal = ic_automation_shutdown_on_terminal c,
     pi_install_report = (case ic_install_report c of None \<Rightarrow> None | Some t \<Rightarrow> if ticket_valid t then Some t else None),
     pi_format_partition = ic_format_partition c,
     pi_preserve_personal_files = ic_preserve_personal_files c,
     pi_repair_boot = ic_repair_boot c,
     pi_original_guid = trim (ic_original_guid c),
     pi_volume_index = ic_volume_index c,
     pi_target_partition = trim (ic_target_partition c),
     pi_custom_install_plan = ic_custom_install_plan c,
     pi_image_path = trim (ic_image_path c),
     pi_source_image_verified = ic_source_image_verified c,
     pi_image_chunked = ic_image_chunked c,
     pi_image_chunked_length = (if ic_image_chunked c then ic_image_chunked_length c else 0),
     pi_image_chunked_sha256 = (if ic_image_chunked c then map to_lower (trim (ic_image_chunked_sha256 c)) else []),
     pi_image_expanded_bytes = (if ic_image_chunked c then ic_image_expanded_bytes c else 0),
     pi_in_place_target_staging = ic_in_place_target_staging c,
     pi_is_gho = ic_is_gho c,
     pi_migrate_wifi = ic_migrate_wifi c,
     pi_wifi_profile_length = (if ic_migrate_wifi c then ic_wifi_profile_length c else 0),
     pi_wifi_profile_sha256 = (if ic_migrate_wifi c then map to_lower (trim (ic_wifi_profile_sha256 c)) else []),
     pi_pe_network_enabled = ic_pe_network_enabled c,
     pi_automatic_feedback_mode = feedback_mode c,
     pi_wim_engine = ic_wim_engine c,
     pi_is_xp = ic_is_xp c,
     pi_is_xp_i386 = ic_is_xp_i386 c,
     pi_xp_source_arch = trim (ic_xp_source_arch c),
     pi_run_diskpart_scripts = False,
     pi_boot_mode = ic_boot_mode c,
     pi_boot_pca_mode = ic_boot_pca_mode c,
     pi_pca_compat_package = trim (ic_pca_compat_package c),
     pi_pca_compat_sha256 = trim (ic_pca_compat_sha256 c),
     pi_pca_compat_image_index = ic_pca_compat_image_index c,
     pi_pca_compat_target_build = ic_pca_compat_target_build c,
     pi_pca_compat_target_architecture = ic_pca_compat_target_architecture c,
     pi_language = trim lang,
     pi_install_cab_packages = False,
     pi_remove_shortcut_arrow = ic_remove_shortcut_arrow c,
     pi_restore_classic_context_menu = ic_restore_classic_context_menu c,
     pi_bypass_nro = ic_bypass_nro c,
     pi_disable_windows_update = ic_disable_windows_update c,
     pi_disable_windows_defender = ic_disable_windows_defender c,
     pi_disable_reserved_storage = ic_disable_reserved_storage c,
     pi_disable_uac = ic_disable_uac c,
     pi_disable_device_encryption = ic_disable_device_encryption c,
     pi_remove_uwp_apps = ic_remove_uwp_apps c,
     pi_import_storage_controller_drivers = ic_import_storage_controller_drivers c,
     pi_custom_username = trim (ic_custom_username c),
     pi_builtin_administrator = received_administrator (ic_builtin_administrator c),
     pi_volume_label = trim (ic_volume_label c),
     pi_custom_unattend = trim (ic_custom_unattend c),
     pi_preinstalled_software_config = trim (ic_preinstalled_software_config c),
     pi_win7_uefi_patch = ic_win7_uefi_patch c,
     pi_win7_inject_usb3_driver = ic_win7_inject_usb3_driver c,
     pi_win7_inject_nvme_driver = ic_win7_inject_nvme_driver c,
     pi_win7_fix_acpi_bsod = ic_win7_fix_acpi_bsod c,
     pi_win7_fix_storage_bsod = False,
     pi_xp_inject_usb3_driver = ic_xp_inject_usb3_driver c,
     pi_xp_inject_nvme_driver = ic_xp_inject_nvme_driver c\<rparr>"

lemma install_field_simps:
  "install_field from_str ''SessionId'' v c = Inr (c\<lparr>pi_session_id := v\<rparr>)"
  "install_field from_str ''Unattended'' v c = Inr (c\<lparr>pi_unattended := bool_or_false v\<rparr>)"
  "install_field from_str ''RestoreDrivers'' v c = Inr (c\<lparr>pi_restore_drivers := bool_or_false v\<rparr>)"
  "install_field from_str ''DriverActionMode'' v c = Inr (c\<lparr>pi_driver_action_mode := driver_mode_from_u8 (word_or 0 v)\<rparr>)"
  "install_field from_str ''AutoReboot'' v c = Inr (c\<lparr>pi_auto_reboot := bool_or_false v\<rparr>)"
  "install_field from_str ''InstallReport'' v c = Inr (c\<lparr>pi_install_report := ticket_from_config_value v\<rparr>)"
  "install_field from_str ''AutomationShutdownOnTerminal'' v c = and_then (strict_bool ''AutomationShutdownOnTerminal'' v) (\<lambda>b. Inr (c\<lparr>pi_automation_shutdown_on_terminal := b\<rparr>))"
  "install_field from_str ''FormatPartition'' v c = and_then (strict_bool ''FormatPartition'' v) (\<lambda>b. Inr (c\<lparr>pi_format_partition := b\<rparr>))"
  "install_field from_str ''PreservePersonalFiles'' v c = and_then (strict_bool ''PreservePersonalFiles'' v) (\<lambda>b. Inr (c\<lparr>pi_preserve_personal_files := b\<rparr>))"
  "install_field from_str ''RepairBoot'' v c = and_then (strict_bool ''RepairBoot'' v) (\<lambda>b. Inr (c\<lparr>pi_repair_boot := b\<rparr>))"
  "install_field from_str ''OriginalGUID'' v c = Inr (c\<lparr>pi_original_guid := v\<rparr>)"
  "install_field from_str ''VolumeIndex'' v c = Inr (c\<lparr>pi_volume_index := word_or 1 v\<rparr>)"
  "install_field from_str ''TargetPartition'' v c = Inr (c\<lparr>pi_target_partition := v\<rparr>)"
  "install_field from_str ''CustomInstallPlanJson'' v c = map_err (\<lambda>_. ''parse authenticated custom installation plan'')
          (and_then (plan_from_json from_str v) (\<lambda>p. Inr (c\<lparr>pi_custom_install_plan := p\<rparr>)))"
  "install_field from_str ''ImagePath'' v c = Inr (c\<lparr>pi_image_path := v\<rparr>)"
  "install_field from_str ''SourceImageVerified'' v c = and_then (strict_bool ''SourceImageVerified'' v) (\<lambda>b. Inr (c\<lparr>pi_source_image_verified := b\<rparr>))"
  "install_field from_str ''ImageChunked'' v c = Inr (c\<lparr>pi_image_chunked := bool_or_false v\<rparr>)"
  "install_field from_str ''ImageChunkedLength'' v c = Inr (c\<lparr>pi_image_chunked_length := word_or 0 v\<rparr>)"
  "install_field from_str ''ImageChunkedSha256'' v c = Inr (c\<lparr>pi_image_chunked_sha256 := map to_lower (trim v)\<rparr>)"
  "install_field from_str ''ImageExpandedBytes'' v c = Inr (c\<lparr>pi_image_expanded_bytes := word_or 0 v\<rparr>)"
  "install_field from_str ''InPlaceTargetStaging'' v c = Inr (c\<lparr>pi_in_place_target_staging := bool_or_false v\<rparr>)"
  "install_field from_str ''IsGho'' v c = Inr (c\<lparr>pi_is_gho := bool_or_false v\<rparr>)"
  "install_field from_str ''MigrateWifi'' v c = Inr (c\<lparr>pi_migrate_wifi := bool_or_false v\<rparr>)"
  "install_field from_str ''WifiProfileLength'' v c = Inr (c\<lparr>pi_wifi_profile_length := word_or 0 v\<rparr>)"
  "install_field from_str ''WifiProfileSha256'' v c = Inr (c\<lparr>pi_wifi_profile_sha256 := v\<rparr>)"
  "install_field from_str ''PeNetworkEnabled'' v c = Inr (c\<lparr>pi_pe_network_enabled := bool_or_false v\<rparr>)"
  "install_field from_str ''AutomaticFeedbackMode'' v c = Inr (c\<lparr>pi_automatic_feedback_mode := v\<rparr>)"
  "install_field from_str ''WimEngine'' v c = Inr (c\<lparr>pi_wim_engine := word_or 0 v\<rparr>)"
  "install_field from_str ''IsXp'' v c = Inr (c\<lparr>pi_is_xp := bool_or_false v\<rparr>)"
  "install_field from_str ''IsXpI386'' v c = Inr (c\<lparr>pi_is_xp_i386 := bool_or_false v\<rparr>)"
  "install_field from_str ''XpSourceArch'' v c = Inr (c\<lparr>pi_xp_source_arch := v\<rparr>)"
  "install_field from_str ''RunDiskpartScripts'' v c = Inr (c\<lparr>pi_run_diskpart_scripts := bool_or_false v\<rparr>)"
  "install_field from_str ''BootMode'' v c = Inr (c\<lparr>pi_boot_mode := word_or 0 v\<rparr>)"
  "install_field from_str ''BootPcaMode'' v c = Inr (c\<lparr>pi_boot_pca_mode := pca_from_config_value v\<rparr>)"
  "install_field from_str ''PcaCompatPackage'' v c = Inr (c\<lparr>pi_pca_compat_package := v\<rparr>)"
  "install_field from_str ''PcaCompatSha256'' v c = Inr (c\<lparr>pi_pca_compat_sha256 := v\<rparr>)"
  "install_field from_str ''PcaCompatImageIndex'' v c = Inr (c\<lparr>pi_pca_compat_image_index := word_or 0 v\<rparr>)"
  "install_field from_str ''PcaCompatTargetBuild'' v c = Inr (c\<lparr>pi_pca_compat_target_build := word_or 0 v\<rparr>)"
  "install_field from_str ''PcaCompatTargetArchitecture'' v c = Inr (c\<lparr>pi_pca_compat_target_architecture := word_or 0 v\<rparr>)"
  "install_field from_str ''Language'' v c = Inr (c\<lparr>pi_language := v\<rparr>)"
  "install_field from_str ''InstallCabPackages'' v c = Inr (c\<lparr>pi_install_cab_packages := bool_or_false v\<rparr>)"
  "install_field from_str ''RemoveShortcutArrow'' v c = Inr (c\<lparr>pi_remove_shortcut_arrow := bool_or_false v\<rparr>)"
  "install_field from_str ''RestoreClassicContextMenu'' v c = Inr (c\<lparr>pi_restore_classic_context_menu := bool_or_false v\<rparr>)"
  "install_field from_str ''BypassNRO'' v c = Inr (c\<lparr>pi_bypass_nro := bool_or_false v\<rparr>)"
  "install_field from_str ''DisableWindowsUpdate'' v c = Inr (c\<lparr>pi_disable_windows_update := bool_or_false v\<rparr>)"
  "install_field from_str ''DisableWindowsDefender'' v c = Inr (c\<lparr>pi_disable_windows_defender := bool_or_false v\<rparr>)"
  "install_field from_str ''DisableReservedStorage'' v c = Inr (c\<lparr>pi_disable_reserved_storage := bool_or_false v\<rparr>)"
  "install_field from_str ''DisableUAC'' v c = Inr (c\<lparr>pi_disable_uac := bool_or_false v\<rparr>)"
  "install_field from_str ''DisableDeviceEncryption'' v c = Inr (c\<lparr>pi_disable_device_encryption := bool_or_false v\<rparr>)"
  "install_field from_str ''RemoveUWPApps'' v c = Inr (c\<lparr>pi_remove_uwp_apps := bool_or_false v\<rparr>)"
  "install_field from_str ''ImportStorageControllerDrivers'' v c = Inr (c\<lparr>pi_import_storage_controller_drivers := bool_or_false v\<rparr>)"
  "install_field from_str ''CustomUsername'' v c = Inr (c\<lparr>pi_custom_username := v\<rparr>)"
  "install_field from_str ''BuiltinAdministrator'' v c = Inr (c\<lparr>pi_builtin_administrator := (pi_builtin_administrator c)\<lparr>ba_enabled := bool_or_false v\<rparr>\<rparr>)"
  "install_field from_str ''BuiltinAdministratorName'' v c = Inr (c\<lparr>pi_builtin_administrator := (pi_builtin_administrator c)\<lparr>ba_account_name := v\<rparr>\<rparr>)"
  "install_field from_str ''BuiltinAdministratorPassword'' v c = Inr (c\<lparr>pi_builtin_administrator := (pi_builtin_administrator c)\<lparr>ba_password := v\<rparr>\<rparr>)"
  "install_field from_str ''BuiltinAdministratorAutoLogon'' v c = Inr (c\<lparr>pi_builtin_administrator := (pi_builtin_administrator c)\<lparr>ba_auto_logon := bool_or_false v\<rparr>\<rparr>)"
  "install_field from_str ''VolumeLabel'' v c = Inr (c\<lparr>pi_volume_label := v\<rparr>)"
  "install_field from_str ''CustomUnattendFile'' v c = Inr (c\<lparr>pi_custom_unattend := v\<rparr>)"
  "install_field from_str ''PreinstalledSoftwareConfig'' v c = Inr (c\<lparr>pi_preinstalled_software_config := v\<rparr>)"
  "install_field from_str ''Win7UefiPatch'' v c = Inr (c\<lparr>pi_win7_uefi_patch := bool_or_false v\<rparr>)"
  "install_field from_str ''Win7InjectUsb3Driver'' v c = Inr (c\<lparr>pi_win7_inject_usb3_driver := bool_or_false v\<rparr>)"
  "install_field from_str ''Win7InjectNvmeDriver'' v c = Inr (c\<lparr>pi_win7_inject_nvme_driver := bool_or_false v\<rparr>)"
  "install_field from_str ''Win7FixAcpiBsod'' v c = Inr (c\<lparr>pi_win7_fix_acpi_bsod := bool_or_false v\<rparr>)"
  "install_field from_str ''Win7FixStorageBsod'' v c = Inr (c\<lparr>pi_win7_fix_storage_bsod := False\<rparr>)"
  "install_field from_str ''XpInjectUsb3Driver'' v c = Inr (c\<lparr>pi_xp_inject_usb3_driver := bool_or_false v\<rparr>)"
  "install_field from_str ''XpInjectNvmeDriver'' v c = Inr (c\<lparr>pi_xp_inject_nvme_driver := bool_or_false v\<rparr>)"
  "install_field from_str ''PeNetworkPayloadLength'' v c = Inr c"
  "install_field from_str ''PeNetworkPayloadSha256'' v c = Inr c"
  "install_field from_str ''HandoffManifestVersion'' v c = Inr c"
  "install_field from_str ''HandoffManifestLength'' v c = Inr c"
  "install_field from_str ''HandoffManifestSha256'' v c = Inr c"
  by (simp_all add: install_field_def)

subsection \<open>Reading the lines back\<close>

definition install_pair ::
  "(string \<Rightarrow> install_plan option) \<Rightarrow> pe_install_config \<Rightarrow> string \<times> string \<Rightarrow> string + pe_install_config" where
  "install_pair from_str c p = install_field from_str (fst p) (trim (snd p)) c"

lemma pair_line_parts:
  assumes "pair_key k"
  shows "split_once CHR ''='' (trim (line_of (k, v))) = Some (k, trim_end v)" and "trim k = k"
    and "trim (line_of (k, v)) \<noteq> []" and "hd (trim (line_of (k, v))) \<notin> set ''[#;''"
proof -
  have "CHR ''='' \<notin> set k" using assms by (simp add: pair_key_def)
  then show "split_once CHR ''='' (trim (line_of (k, v))) = Some (k, trim_end v)"
    unfolding trim_pair [OF assms] by (simp add: line_of_def split_once_append)
  show "trim k = k" using assms by (intro trim_id) (simp add: pair_key_def)
  show "trim (line_of (k, v)) \<noteq> []" "hd (trim (line_of (k, v))) \<notin> set ''[#;''"
    unfolding trim_pair [OF assms] using assms by (auto simp: pair_key_def line_of_def hd_append)
qed

lemma install_line_pair:
  assumes "pair_key k"
  shows "install_line from_str c (line_of (k, v)) = install_pair from_str c (k, v)"
  using pair_line_parts (1,3,4) [OF assms, of v] pair_line_parts(2) [OF assms]
  by (simp add: install_line_def install_pair_def Let_def starts_with_char)

definition keyed :: "(string \<times> string) list \<Rightarrow> bool" where
  "keyed ps \<longleftrightarrow> list_all (\<lambda>p. pair_key (fst p)) ps"

lemma keyed_simps [simp]: "keyed []" "keyed (p # ps) \<longleftrightarrow> pair_key (fst p) \<and> keyed ps" "keyed (ps @ qs) \<longleftrightarrow> keyed ps \<and> keyed qs"
  by (simp_all add: keyed_def)

lemma install_lines_pairs:
  "keyed ps \<Longrightarrow> try_fold (install_line from_str) c (map line_of ps) = try_fold (install_pair from_str) c ps"
proof (induction ps arbitrary: c)
  case (Cons p ps)
  then have "install_line from_str c (line_of p) = install_pair from_str c p"
    using install_line_pair [of "fst p" from_str c "snd p"] by simp
  with Cons show ?case by (simp add: and_then_def split: sum.splits)
qed simp

lemma install_line_ignored: "trim l = [] \<or> hd (trim l) = CHR ''['' \<Longrightarrow> install_line from_str c l = Inr c"
  by (auto simp: install_line_def Let_def starts_with_char)

lemma install_keys:
  "keyed (task_pairs plan x)" "keyed (image_pairs lang x)" "keyed (advanced_pairs x)" "keyed (win7_pairs x)"
  "keyed (xp_pairs x)" "keyed (report_lines x)" "wifi_lines x = Inr wifi \<Longrightarrow> keyed wifi"
  "network_lines x = Inr network \<Longrightarrow> keyed network" "source_lines x = Inr source \<Longrightarrow> keyed source"
  by (auto simp: task_pairs_def image_pairs_def advanced_pairs_def win7_pairs_def xp_pairs_def report_lines_def
      wifi_lines_def network_lines_def source_lines_def Let_def res_simps pair_key_def printable_def
      split: if_splits option.splits)

subsection \<open>Each group of lines\<close>

lemma pca_read [simp]: "pca_from_config_value (pca_as_config_value m) = m" "trim (pca_as_config_value m) = pca_as_config_value m"
proof -
  have "list_all printable (pca_as_config_value m)" by (cases m) (simp_all add: printable_def)
  then show t: "trim (pca_as_config_value m) = pca_as_config_value m" by (rule trim_printable)
  show "pca_from_config_value (pca_as_config_value m) = m"
    unfolding pca_from_config_value_def t
    by (cases m) (simp_all add: to_lower_def is_upper_def)
qed

lemma feedback_trim [simp]: "trim (feedback_mode x) = feedback_mode x" "plain_line (feedback_mode x)"
  by (auto simp: feedback_mode_def trim_printable printable_def)

lemma false_trim [simp]: "trim ''false'' = ''false''" "trim ''true'' = ''true''" "bool_or_false ''false'' = False"
    "bool_or_false ''true'' = True" "strict_bool k ''true'' = Inr True" "strict_bool k (show_bool b) = Inr b"
  by (simp_all add: trim_printable printable_def bool_or_false_def bool_of_def strict_bool_def)
    (simp add: show_bool_def)

lemmas read_simps = install_pair_def install_field_simps

lemma task_read:
  assumes "trim plan = plan" and "plan_from_json from_str plan = Inr p"
  shows "try_fold (install_pair from_str) c (task_pairs plan x) = Inr (c\<lparr>pi_session_id := trim (ic_session_id x), pi_unattended := ic_unattended x, pi_restore_drivers := ic_restore_drivers x,
       pi_driver_action_mode := driver_mode_from_u8 (ic_driver_action_mode x), pi_auto_reboot := ic_auto_reboot x, pi_automation_shutdown_on_terminal := ic_automation_shutdown_on_terminal x,
       pi_format_partition := ic_format_partition x, pi_preserve_personal_files := ic_preserve_personal_files x, pi_repair_boot := ic_repair_boot x,
       pi_original_guid := trim (ic_original_guid x), pi_volume_index := ic_volume_index x, pi_target_partition := trim (ic_target_partition x),
       pi_custom_install_plan := p, pi_image_path := trim (ic_image_path x)\<rparr>)"
  using assms by (simp add: task_pairs_def read_simps)

lemma image_read:
  "try_fold (install_pair from_str) c (image_pairs lang x) = Inr (c\<lparr>pi_is_gho := ic_is_gho x, pi_wim_engine := ic_wim_engine x, pi_is_xp := ic_is_xp x,
       pi_is_xp_i386 := ic_is_xp_i386 x, pi_xp_source_arch := trim (ic_xp_source_arch x), pi_run_diskpart_scripts := False,
       pi_boot_mode := ic_boot_mode x, pi_boot_pca_mode := ic_boot_pca_mode x, pi_pca_compat_package := trim (ic_pca_compat_package x),
       pi_pca_compat_sha256 := trim (ic_pca_compat_sha256 x), pi_pca_compat_image_index := ic_pca_compat_image_index x, pi_pca_compat_target_build := ic_pca_compat_target_build x,
       pi_pca_compat_target_architecture := ic_pca_compat_target_architecture x, pi_language := trim lang, pi_pe_network_enabled := ic_pe_network_enabled x,
       pi_automatic_feedback_mode := feedback_mode x\<rparr>)"
  by (simp add: image_pairs_def read_simps)

lemma advanced_read:
  "try_fold (install_pair from_str) c (advanced_pairs x) = Inr (c\<lparr>pi_remove_shortcut_arrow := ic_remove_shortcut_arrow x, pi_restore_classic_context_menu := ic_restore_classic_context_menu x, pi_bypass_nro := ic_bypass_nro x,
       pi_disable_windows_update := ic_disable_windows_update x, pi_disable_windows_defender := ic_disable_windows_defender x, pi_disable_reserved_storage := ic_disable_reserved_storage x,
       pi_disable_uac := ic_disable_uac x, pi_disable_device_encryption := ic_disable_device_encryption x, pi_remove_uwp_apps := ic_remove_uwp_apps x,
       pi_import_storage_controller_drivers := ic_import_storage_controller_drivers x, pi_custom_username := trim (ic_custom_username x), pi_builtin_administrator := received_administrator (ic_builtin_administrator x),
       pi_volume_label := trim (ic_volume_label x), pi_custom_unattend := trim (ic_custom_unattend x), pi_preinstalled_software_config := trim (ic_preinstalled_software_config x)\<rparr>)"
  by (simp add: advanced_pairs_def read_simps received_administrator_def)

lemma win7_read:
  "try_fold (install_pair from_str) c (win7_pairs x) = Inr (c\<lparr>pi_win7_uefi_patch := ic_win7_uefi_patch x, pi_win7_inject_usb3_driver := ic_win7_inject_usb3_driver x, pi_win7_inject_nvme_driver := ic_win7_inject_nvme_driver x,
       pi_win7_fix_acpi_bsod := ic_win7_fix_acpi_bsod x, pi_win7_fix_storage_bsod := False\<rparr>)"
  by (simp add: win7_pairs_def read_simps)

lemma xp_read:
  "try_fold (install_pair from_str) c (xp_pairs x) = Inr (c\<lparr>pi_xp_inject_usb3_driver := ic_xp_inject_usb3_driver x, pi_xp_inject_nvme_driver := ic_xp_inject_nvme_driver x\<rparr>)"
  by (simp add: xp_pairs_def read_simps)

lemma digest_clean:
  assumes "digest_ok h"
  shows "trim h = h" and "plain_line h"
proof -
  have "list_all printable h"
    using assms by (auto simp: digest_ok_def list_all_iff hexdigit_printable)
  then show "trim h = h" "plain_line h" by (rule trim_printable printable_line)+
qed

lemma wifi_read:
  assumes "wifi_lines x = Inr wifi"
  shows "try_fold (install_pair from_str) c wifi = Inr (if ic_migrate_wifi x
    then c\<lparr>pi_migrate_wifi := True, pi_wifi_profile_length := ic_wifi_profile_length x,
      pi_wifi_profile_sha256 := map to_lower (trim (ic_wifi_profile_sha256 x))\<rparr> else c)"
  using assms by (auto simp: wifi_lines_def Let_def res_simps read_simps digest_clean split: if_splits)

lemma ticket_read:
  assumes "ticket_valid t"
  shows "ticket_from_config_value (ticket_config_value t) = Some t" "trim (ticket_config_value t) = ticket_config_value t"
    "plain_line (ticket_config_value t)"
proof -
  have hex: "list_all is_lower_hex (it_install_id t)" "list_all is_lower_hex (it_token t)"
    using assms by (auto simp: ticket_valid_def is_lower_hex_text_def)
  then have "list_all printable (ticket_config_value t)"
    by (auto simp: ticket_config_value_def lower_hex_printable_list) (simp add: printable_def)
  then show "trim (ticket_config_value t) = ticket_config_value t" "plain_line (ticket_config_value t)"
    by (rule trim_printable printable_line)+
  moreover have "CHR '':'' \<notin> set (it_install_id t)"
    using hex(1) by (auto simp: list_all_iff is_lower_hex_def is_digit_def)
  ultimately show "ticket_from_config_value (ticket_config_value t) = Some t"
    using assms unfolding ticket_from_config_value_def
    by (cases t) (simp add: ticket_config_value_def split_once_append)
qed

lemma report_read:
  "try_fold (install_pair from_str) c (report_lines x) = Inr (case ic_install_report x of None \<Rightarrow> c
     | Some t \<Rightarrow> if ticket_valid t then c\<lparr>pi_install_report := Some t\<rparr> else c)"
  by (auto simp: report_lines_def read_simps ticket_read split: option.splits)

lemma network_read: "network_lines x = Inr network \<Longrightarrow> try_fold (install_pair from_str) c network = Inr c"
  by (auto simp: network_lines_def Let_def res_simps read_simps split: if_splits)

lemma source_read:
  assumes "source_lines x = Inr source"
  shows "try_fold (install_pair from_str) c source = Inr (c\<lparr>
    pi_source_image_verified := ic_source_image_verified x \<or> pi_source_image_verified c,
    pi_in_place_target_staging := ic_in_place_target_staging x \<or> pi_in_place_target_staging c,
    pi_image_chunked := ic_image_chunked x \<or> pi_image_chunked c,
    pi_image_chunked_length := (if ic_image_chunked x then ic_image_chunked_length x else pi_image_chunked_length c),
    pi_image_chunked_sha256 := (if ic_image_chunked x then map to_lower (trim (ic_image_chunked_sha256 x))
      else pi_image_chunked_sha256 c),
    pi_image_expanded_bytes := (if ic_image_chunked x then ic_image_expanded_bytes x else pi_image_expanded_bytes c)\<rparr>)"
  using assms
  by (cases "ic_source_image_verified x"; cases "ic_in_place_target_staging x"; cases "ic_image_chunked x")
    (auto simp: source_lines_def Let_def res_simps read_simps digest_clean)

lemma binding_pairs_read:
  "try_fold (install_pair from_str) c [(''HandoffManifestVersion'', v), (''HandoffManifestLength'', w),
     (''HandoffManifestSha256'', h)] = Inr c"
  by (simp add: read_simps)


subsection \<open>The lines of the written configuration\<close>

definition content_lines ::
  "string \<Rightarrow> string \<Rightarrow> (string \<times> string) list \<Rightarrow> (string \<times> string) list \<Rightarrow> (string \<times> string) list \<Rightarrow> install_config \<Rightarrow> string list" where
  "content_lines lang plan source optional binding c =
     ''[Install]'' # map line_of (task_pairs plan c) @ map line_of source @
     [] # map line_of (image_pairs lang c) @ map line_of optional @
     [] # [] # ''[Advanced]'' # map line_of (advanced_pairs c) @
     [] # ''[Win7]'' # map line_of (win7_pairs c) @ [] # ''[Xp]'' # map line_of (xp_pairs c) @
     ''[HandoffManifest]'' # map line_of binding"

definition binding_pairs :: "manifest_binding \<Rightarrow> (string \<times> string) list" where
  "binding_pairs b = [(''HandoffManifestVersion'', ''1''), (''HandoffManifestLength'', show_u64 (mb_length b)),
     (''HandoffManifestSha256'', encode_hex (mb_sha256 b))]"

lemma binding_lines: "binding_to_config_lines b = pair_lines (binding_pairs b)"
  by (simp add: binding_to_config_lines_def pair_lines_def binding_pairs_def line_of_def)

definition plain_pairs :: "(string \<times> string) list \<Rightarrow> bool" where
  "plain_pairs ps \<longleftrightarrow> list_all plain_line (map line_of ps)"

lemma plain_pairs_simps [simp]: "plain_pairs []" "plain_pairs ((k, v) # ps) \<longleftrightarrow> plain_line k \<and> plain_line v \<and> plain_pairs ps"
    "plain_pairs (ps @ qs) \<longleftrightarrow> plain_pairs ps \<and> plain_pairs qs"
  by (auto simp: plain_pairs_def line_of_def)

lemma validated_texts_plain:
  assumes "validate_install_ini_values c = Inr u"
  shows "list_all (\<lambda>p. plain_line (snd p)) (text_values c)"
proof -
  have "try_fold (\<lambda>_. validate_ini_value) () (text_values c) = Inr ()"
    using assms by (auto simp: validate_install_ini_values_def res_simps)
  moreover have "list_all (\<lambda>p. plain_line (snd p)) ps" if "try_fold (\<lambda>_. validate_ini_value) () ps = Inr ()" for ps
    using that by (induction ps) (auto simp: res_simps validate_ini_value_def contains_any_iff plain_line_def)
  ultimately show ?thesis by blast
qed

lemma pca_plain [simp]: "plain_line (pca_as_config_value m)"
  by (cases m) simp_all

lemma written_pairs_plain:
  assumes "validate_install_ini_values c = Inr u" and "plain_line plan" and "plain_line lang"
  shows "plain_pairs (task_pairs plan c)" "plain_pairs (image_pairs lang c)" "plain_pairs (advanced_pairs c)"
    "plain_pairs (win7_pairs c)" "plain_pairs (xp_pairs c)" "plain_pairs (report_lines c)"
    "wifi_lines c = Inr wifi \<Longrightarrow> plain_pairs wifi" "network_lines c = Inr network \<Longrightarrow> plain_pairs network"
    "source_lines c = Inr source \<Longrightarrow> plain_pairs source"
  using assms(2,3) validated_texts_plain [OF assms(1)]
  by (auto simp: text_values_def task_pairs_def image_pairs_def advanced_pairs_def win7_pairs_def xp_pairs_def
      report_lines_def wifi_lines_def network_lines_def source_lines_def Let_def res_simps digest_clean ticket_read
      split: option.splits if_splits)

lemma binding_plain: "plain_pairs (binding_pairs b)"
  by (simp add: binding_pairs_def show_u64_def encode_hex_def printable_line)

lemma six_texts:
  assumes "list_all plain_line (l1 @ l2 @ l3 @ l4 @ l5 @ l6)"
  shows "str_lines (lf_text l1 @ crlf_text l2 @ lf_text l3 @ crlf_text l4 @ lf_text l5 @ crlf_text l6) =
    l1 @ l2 @ l3 @ l4 @ l5 @ l6"
  using assms str_lines_crlf_text [of l6 "[]"]
  by (simp add: str_lines_lf_text [folded lf_text_def] str_lines_crlf_text)

lemma serialized_lines:
  assumes "serialize_install_config to_string lang c = Inr written" and "plain_line lang"
    and "\<And>p v. to_string p = Some v \<Longrightarrow> plain_line v"
  obtains plan wifi network source where
    "plan_to_json to_string (ic_custom_install_plan c) = Inr plan" "wifi_lines c = Inr wifi"
    "network_lines c = Inr network" "source_lines c = Inr source"
    "str_lines (written @ crlf_text [''[HandoffManifest]''] @ binding_to_config_lines b) =
      content_lines lang plan source (wifi @ report_lines c @ network) (binding_pairs b) c"
proof -
  from assms(1) obtain plan wifi network source where
    parts: "validate_install_ini_values c = Inr ()" "plan_to_json to_string (ic_custom_install_plan c) = Inr plan"
      "wifi_lines c = Inr wifi" "network_lines c = Inr network" "source_lines c = Inr source" and
    written: "written = lf_text (''[Install]'' # map line_of (task_pairs plan c)) @ pair_lines source @
       lf_text ([] # map line_of (image_pairs lang c)) @ pair_lines (wifi @ report_lines c @ network) @
       lf_text ([] # [] # ''[Advanced]'' # map line_of (advanced_pairs c) @
         [] # ''[Win7]'' # map line_of (win7_pairs c) @ [] # ''[Xp]'' # map line_of (xp_pairs c))"
    by (auto simp: serialize_install_config_def Let_def res_simps)
  have "to_string (ic_custom_install_plan c) = Some plan"
    using parts(2) by (auto simp: plan_to_json_def res_simps)
  then have "plain_line plan" by (rule assms(3))
  note plain = written_pairs_plain [OF parts(1) this assms(2)] binding_plain [of b]
  have shape: "written @ crlf_text [''[HandoffManifest]''] @ binding_to_config_lines b =
       lf_text (''[Install]'' # map line_of (task_pairs plan c)) @ crlf_text (map line_of source) @
       lf_text ([] # map line_of (image_pairs lang c)) @ crlf_text (map line_of (wifi @ report_lines c @ network)) @
       lf_text ([] # [] # ''[Advanced]'' # map line_of (advanced_pairs c) @
         [] # ''[Win7]'' # map line_of (win7_pairs c) @ [] # ''[Xp]'' # map line_of (xp_pairs c)) @
       crlf_text (''[HandoffManifest]'' # map line_of (binding_pairs b))"
    unfolding written binding_lines pair_lines_def crlf_text_def by simp
  have "str_lines (written @ crlf_text [''[HandoffManifest]''] @ binding_to_config_lines b) =
      content_lines lang plan source (wifi @ report_lines c @ network) (binding_pairs b) c"
    unfolding shape
    by (subst six_texts)
      (use plain(1-6) plain(7) [OF parts(3)] plain(8) [OF parts(4)] plain(9) [OF parts(5)] plain(10) in
        \<open>simp_all add: plain_pairs_def content_lines_def\<close>)
  with parts show thesis by (intro that)
qed


lemma install_content_read:
  assumes "keyed source" and "keyed optional"
  shows "try_fold (install_line from_str) x (content_lines lang plan source optional (binding_pairs b) c) =
    try_fold (install_pair from_str) x
      (task_pairs plan c @ source @ image_pairs lang c @ optional @ advanced_pairs c @ win7_pairs c @ xp_pairs c @
       binding_pairs b)"
proof -
  have "trim ''[Install]'' = ''[Install]''" "trim ''[Advanced]'' = ''[Advanced]''" "trim ''[Win7]'' = ''[Win7]''"
    "trim ''[Xp]'' = ''[Xp]''" "trim ''[HandoffManifest]'' = ''[HandoffManifest]''" "trim [] = []"
    by (simp_all add: trim_id printable_def)
  then have ignored: "install_line from_str x [] = Inr x" "install_line from_str x ''[Install]'' = Inr x"
    "install_line from_str x ''[Advanced]'' = Inr x" "install_line from_str x ''[Win7]'' = Inr x"
    "install_line from_str x ''[Xp]'' = Inr x" "install_line from_str x ''[HandoffManifest]'' = Inr x" for x
    by (intro install_line_ignored, simp)+
  have keys: "keyed (binding_pairs b)"
    by (simp add: binding_pairs_def pair_key_def printable_def)
  show ?thesis
    using assms keys
    by (simp only: content_lines_def try_fold_append try_fold.simps ignored and_then_simps install_lines_pairs install_keys)
qed

lemma wifi_line_other:
  assumes "pair_key k" and "k \<notin> {''MigrateWifi'', ''WifiProfileLength'', ''WifiProfileSha256''}"
  shows "wifi_line s (line_of (k, v)) = Inr s"
  using pair_line_parts (1,3,4) [OF assms(1), of v] pair_line_parts(2) [OF assms(1)] assms(2)
  by (auto simp: wifi_line_def Let_def starts_with_char starts_with_any_def)

definition no_wifi :: "(string \<times> string) list \<Rightarrow> bool" where
  "no_wifi ps \<longleftrightarrow> list_all (\<lambda>p. fst p \<notin> {''MigrateWifi'', ''WifiProfileLength'', ''WifiProfileSha256''}) ps"

lemma wifi_lines_other: "keyed ps \<Longrightarrow> no_wifi ps \<Longrightarrow> try_fold wifi_line s (map line_of ps) = Inr s"
proof (induction ps)
  case (Cons p ps)
  have "wifi_line s (line_of (fst p, snd p)) = Inr s"
    using Cons.prems by (intro wifi_line_other) (auto simp: no_wifi_def)
  with Cons show ?case by (simp add: no_wifi_def)
qed simp

lemma install_no_wifi:
  "no_wifi (task_pairs plan x)" "no_wifi (image_pairs lang x)" "no_wifi (advanced_pairs x)" "no_wifi (win7_pairs x)"
  "no_wifi (xp_pairs x)" "no_wifi (report_lines x)" "no_wifi (binding_pairs b)"
  "network_lines x = Inr network \<Longrightarrow> no_wifi network" "source_lines x = Inr source \<Longrightarrow> no_wifi source"
  by (auto simp: no_wifi_def task_pairs_def image_pairs_def advanced_pairs_def win7_pairs_def xp_pairs_def
      report_lines_def binding_pairs_def network_lines_def source_lines_def Let_def res_simps
      split: if_splits option.splits)

lemma wifi_lines_read:
  assumes "wifi_lines x = Inr wifi" and "ws_in_install s" and "s = wifi_start\<lparr>ws_in_install := True\<rparr>"
  shows "try_fold wifi_line s (map line_of wifi) = Inr (if ic_migrate_wifi x then
     \<lparr>ws_enabled = Some True, ws_length = Some (ic_wifi_profile_length x),
      ws_sha256 = Some (map to_lower (trim (ic_wifi_profile_sha256 x))), ws_in_install = True\<rparr> else s)"
proof -
  have keys: "pair_key ''MigrateWifi''" "pair_key ''WifiProfileLength''" "pair_key ''WifiProfileSha256''"
    by (simp_all add: pair_key_def printable_def)
  have "wifi_line t (line_of (''MigrateWifi'', ''true'')) = Inr (t\<lparr>ws_enabled := Some True\<rparr>)"
    "wifi_line t (line_of (''WifiProfileLength'', show_word (n :: u64))) = Inr (t\<lparr>ws_length := Some n\<rparr>)"
    "wifi_line t (line_of (''WifiProfileSha256'', h)) = Inr (t\<lparr>ws_sha256 := Some (map to_lower (trim h))\<rparr>)"
    if "ws_in_install t" for t n h
    using that pair_line_parts (1,3,4) [OF keys(1), of "''true''"] pair_line_parts(2) [OF keys(1)]
      pair_line_parts (1,3,4) [OF keys(2), of "show_word n"] pair_line_parts(2) [OF keys(2)]
      pair_line_parts (1,3,4) [OF keys(3), of h] pair_line_parts(2) [OF keys(3)]
    by (simp_all add: wifi_line_def Let_def starts_with_char starts_with_any_def bool_of_def)
  then show ?thesis
    using assms by (auto simp: wifi_lines_def Let_def res_simps digest_clean wifi_start_def split: if_splits)
qed

lemma wifi_content_read:
  assumes "wifi_lines c = Inr wifi" "network_lines c = Inr network" "source_lines c = Inr source"
  shows "and_then (try_fold wifi_line wifi_start
      (content_lines lang plan source (wifi @ report_lines c @ network) (binding_pairs b) c)) wifi_result =
    Inr (if ic_migrate_wifi c then Some \<lparr>pb_length = ic_wifi_profile_length c,
      pb_sha256 = map to_lower (trim (ic_wifi_profile_sha256 c))\<rparr> else None)"
proof -
  have trims: "trim ''[Install]'' = ''[Install]''" "trim ''[Advanced]'' = ''[Advanced]''" "trim ''[Win7]'' = ''[Win7]''"
    "trim ''[Xp]'' = ''[Xp]''" "trim ''[HandoffManifest]'' = ''[HandoffManifest]''" "trim [] = []"
    by (simp_all add: trim_id printable_def)
  have install: "eq_ignore_ascii_case ''[Install]'' ''[Install]''" "\<not> eq_ignore_ascii_case ''[Advanced]'' ''[Install]''"
    "\<not> eq_ignore_ascii_case ''[Win7]'' ''[Install]''" "\<not> eq_ignore_ascii_case ''[Xp]'' ''[Install]''"
    "\<not> eq_ignore_ascii_case ''[HandoffManifest]'' ''[Install]''"
    by (auto simp: eq_ignore_ascii_case_def dest: arg_cong [of _ _ length])
  have headers: "wifi_line s [] = Inr s" "wifi_line s ''[Install]'' = Inr (s\<lparr>ws_in_install := True\<rparr>)"
    "wifi_line s ''[Advanced]'' = Inr (s\<lparr>ws_in_install := False\<rparr>)" "wifi_line s ''[Win7]'' = Inr (s\<lparr>ws_in_install := False\<rparr>)"
    "wifi_line s ''[Xp]'' = Inr (s\<lparr>ws_in_install := False\<rparr>)"
    "wifi_line s ''[HandoffManifest]'' = Inr (s\<lparr>ws_in_install := False\<rparr>)" for s
    by (simp_all add: wifi_line_def Let_def trims install starts_with_char ends_with_char)
  have keys: "keyed (binding_pairs b)"
    by (simp add: binding_pairs_def pair_key_def printable_def)
  note other = wifi_lines_other [OF install_keys(1) install_no_wifi(1)] wifi_lines_other [OF install_keys(2) install_no_wifi(2)]
    wifi_lines_other [OF install_keys(3) install_no_wifi(3)] wifi_lines_other [OF install_keys(4) install_no_wifi(4)]
    wifi_lines_other [OF install_keys(5) install_no_wifi(5)] wifi_lines_other [OF install_keys(6) install_no_wifi(6)]
    wifi_lines_other [OF keys install_no_wifi(7)] wifi_lines_other [OF install_keys(8) install_no_wifi(8), OF assms(2,2)]
    wifi_lines_other [OF install_keys(9) install_no_wifi(9), OF assms(3,3)]
  have scan: "try_fold wifi_line wifi_start
      (content_lines lang plan source (wifi @ report_lines c @ network) (binding_pairs b) c) =
    Inr ((if ic_migrate_wifi c then
     \<lparr>ws_enabled = Some True, ws_length = Some (ic_wifi_profile_length c),
      ws_sha256 = Some (map to_lower (trim (ic_wifi_profile_sha256 c))), ws_in_install = True\<rparr>
      else wifi_start)\<lparr>ws_in_install := False\<rparr>)"
    using wifi_lines_read [OF assms(1) _ refl]
    by (simp add: content_lines_def try_fold_append headers other)
  show ?thesis
    unfolding scan and_then_simps
    using assms(1) by (auto simp: wifi_result_def wifi_lines_def Let_def res_simps wifi_start_def split: if_splits)
qed



subsection \<open>The gate and the writer\<close>

lemma field_rules:
  "field_rule ''SessionId'' = Some (''Install'', TextValue)"
  "field_rule ''Unattended'' = Some (''Install'', BoolValue)"
  "field_rule ''RestoreDrivers'' = Some (''Install'', BoolValue)"
  "field_rule ''DriverActionMode'' = Some (''Install'', U8Value 2)"
  "field_rule ''AutoReboot'' = Some (''Install'', BoolValue)"
  "field_rule ''AutomationShutdownOnTerminal'' = Some (''Install'', BoolValue)"
  "field_rule ''FormatPartition'' = Some (''Install'', BoolValue)"
  "field_rule ''PreservePersonalFiles'' = Some (''Install'', BoolValue)"
  "field_rule ''RepairBoot'' = Some (''Install'', BoolValue)"
  "field_rule ''OriginalGUID'' = Some (''Install'', TextValue)"
  "field_rule ''VolumeIndex'' = Some (''Install'', NonZeroU32Value)"
  "field_rule ''TargetPartition'' = Some (''Install'', TextValue)"
  "field_rule ''CustomInstallPlanJson'' = Some (''Install'', TextValue)"
  "field_rule ''ImagePath'' = Some (''Install'', TextValue)"
  "field_rule ''IsGho'' = Some (''Install'', BoolValue)"
  "field_rule ''WimEngine'' = Some (''Install'', U8Value 1)"
  "field_rule ''IsXp'' = Some (''Install'', BoolValue)"
  "field_rule ''IsXpI386'' = Some (''Install'', BoolValue)"
  "field_rule ''XpSourceArch'' = Some (''Install'', TextValue)"
  "field_rule ''RunDiskpartScripts'' = Some (''Install'', BoolValue)"
  "field_rule ''BootMode'' = Some (''Install'', U8Value 2)"
  "field_rule ''BootPcaMode'' = Some (''Install'', BootPcaValue)"
  "field_rule ''PcaCompatPackage'' = Some (''Install'', TextValue)"
  "field_rule ''PcaCompatSha256'' = Some (''Install'', TextValue)"
  "field_rule ''PcaCompatImageIndex'' = Some (''Install'', U32Value)"
  "field_rule ''PcaCompatTargetBuild'' = Some (''Install'', U32Value)"
  "field_rule ''PcaCompatTargetArchitecture'' = Some (''Install'', U16Value)"
  "field_rule ''Language'' = Some (''Install'', TextValue)"
  "field_rule ''PeNetworkEnabled'' = Some (''Install'', BoolValue)"
  "field_rule ''AutomaticFeedbackMode'' = Some (''Install'', TextValue)"
  "field_rule ''RemoveShortcutArrow'' = Some (''Advanced'', BoolValue)"
  "field_rule ''RestoreClassicContextMenu'' = Some (''Advanced'', BoolValue)"
  "field_rule ''BypassNRO'' = Some (''Advanced'', BoolValue)"
  "field_rule ''DisableWindowsUpdate'' = Some (''Advanced'', BoolValue)"
  "field_rule ''DisableWindowsDefender'' = Some (''Advanced'', BoolValue)"
  "field_rule ''DisableReservedStorage'' = Some (''Advanced'', BoolValue)"
  "field_rule ''DisableUAC'' = Some (''Advanced'', BoolValue)"
  "field_rule ''DisableDeviceEncryption'' = Some (''Advanced'', BoolValue)"
  "field_rule ''RemoveUWPApps'' = Some (''Advanced'', BoolValue)"
  "field_rule ''ImportStorageControllerDrivers'' = Some (''Advanced'', BoolValue)"
  "field_rule ''CustomUsername'' = Some (''Advanced'', TextValue)"
  "field_rule ''BuiltinAdministrator'' = Some (''Advanced'', BoolValue)"
  "field_rule ''BuiltinAdministratorName'' = Some (''Advanced'', TextValue)"
  "field_rule ''BuiltinAdministratorPassword'' = Some (''Advanced'', TextValue)"
  "field_rule ''BuiltinAdministratorAutoLogon'' = Some (''Advanced'', BoolValue)"
  "field_rule ''VolumeLabel'' = Some (''Advanced'', TextValue)"
  "field_rule ''CustomUnattendFile'' = Some (''Advanced'', TextValue)"
  "field_rule ''PreinstalledSoftwareConfig'' = Some (''Advanced'', TextValue)"
  "field_rule ''Win7UefiPatch'' = Some (''Win7'', BoolValue)"
  "field_rule ''Win7InjectUsb3Driver'' = Some (''Win7'', BoolValue)"
  "field_rule ''Win7InjectNvmeDriver'' = Some (''Win7'', BoolValue)"
  "field_rule ''Win7FixAcpiBsod'' = Some (''Win7'', BoolValue)"
  "field_rule ''Win7FixStorageBsod'' = Some (''Win7'', BoolValue)"
  "field_rule ''XpInjectUsb3Driver'' = Some (''Xp'', BoolValue)"
  "field_rule ''XpInjectNvmeDriver'' = Some (''Xp'', BoolValue)"
  "field_rule ''SourceImageVerified'' = Some (''Install'', BoolValue)"
  "field_rule ''InPlaceTargetStaging'' = Some (''Install'', BoolValue)"
  "field_rule ''ImageChunked'' = Some (''Install'', BoolValue)"
  "field_rule ''ImageChunkedLength'' = Some (''Install'', U64Value)"
  "field_rule ''ImageChunkedSha256'' = Some (''Install'', HexValue 32)"
  "field_rule ''ImageExpandedBytes'' = Some (''Install'', U64Value)"
  "field_rule ''MigrateWifi'' = Some (''Install'', BoolValue)"
  "field_rule ''WifiProfileLength'' = Some (''Install'', U64Value)"
  "field_rule ''WifiProfileSha256'' = Some (''Install'', HexValue 32)"
  "field_rule ''InstallReport'' = Some (''Install'', TextValue)"
  "field_rule ''PeNetworkPayloadLength'' = Some (''Install'', U64Value)"
  "field_rule ''PeNetworkPayloadSha256'' = Some (''Install'', HexValue 32)"
  "field_rule ''HandoffManifestVersion'' = Some (''HandoffManifest'', U8Value 1)"
  "field_rule ''HandoffManifestLength'' = Some (''HandoffManifest'', U64Value)"
  "field_rule ''HandoffManifestSha256'' = Some (''HandoffManifest'', HexValue 32)"
  by (simp_all add: field_rule_def install_text_fields_def install_bool_fields_def install_u64_fields_def
      advanced_bool_fields_def advanced_text_fields_def)

lemma read_line_pair:
  assumes "pair_key k"
  shows "read_line (line_of (k, v)) = FieldLine k (trim v)"
proof -
  have head: "k \<noteq> []" "printable (hd k)" using assms by (auto simp: pair_key_def)
  then have "\<not> starts_with BOM (k @ s)" for s
    by (cases k) (auto simp: BOM_def starts_with_iff printable_def)
  then have "trim_start_bom (trim (line_of (k, v))) = trim (line_of (k, v))"
    unfolding trim_pair [OF assms] by (subst trim_start_bom.simps) (simp add: line_of_def)
  then show ?thesis
    using pair_line_parts (1,3,4) [OF assms, of v] pair_line_parts(2) [OF assms]
    by (simp add: read_line_def Let_def)
qed

definition in_section :: "string \<Rightarrow> (string \<times> string) list \<Rightarrow> (string \<times> string \<times> string) list" where
  "in_section s ps = map (\<lambda>(k, v). (s, k, trim v)) ps"

lemma in_section_simps [simp]: "in_section s [] = []" "in_section s ((k, v) # ps) = (s, k, trim v) # in_section s ps"
    "in_section s (ps @ qs) = in_section s ps @ in_section s qs"
    "map (fst \<circ> snd) (in_section s ps) = map fst ps"
  by (auto simp: in_section_def)

lemma ini_fields_pairs:
  "keyed ps \<Longrightarrow> ini_fields s (map read_line (map line_of ps) @ ls) = in_section s ps @ ini_fields s ls"
  "keyed ps \<Longrightarrow> MalformedLine \<notin> set (map read_line (map line_of ps))"
  by (induction ps) (auto simp: read_line_pair)

lemma section_lines:
  "read_line [] = Ignored" "read_line ''[Install]'' = SectionLine ''Install''"
  "read_line ''[Advanced]'' = SectionLine ''Advanced''" "read_line ''[Win7]'' = SectionLine ''Win7''"
  "read_line ''[Xp]'' = SectionLine ''Xp''" "read_line ''[HandoffManifest]'' = SectionLine ''HandoffManifest''"
proof -
  have "trim_start_bom (CHR ''['' # s) = CHR ''['' # s" "trim_start_bom [] = []" for s
    by (subst trim_start_bom.simps, simp add: BOM_def starts_with_iff)+
  then show "read_line [] = Ignored" "read_line ''[Install]'' = SectionLine ''Install''"
    "read_line ''[Advanced]'' = SectionLine ''Advanced''" "read_line ''[Win7]'' = SectionLine ''Win7''"
    "read_line ''[Xp]'' = SectionLine ''Xp''" "read_line ''[HandoffManifest]'' = SectionLine ''HandoffManifest''"
    by (simp_all add: read_line_def trim_id printable_def)
qed

lemma shown_values:
  "validate_value k (show_bool b) BoolValue = Inr ()"
  "validate_value k ''true'' BoolValue = Inr ()" "validate_value k ''false'' BoolValue = Inr ()"
  "validate_value k (show_word (n8 :: u8)) (U8Value limit) = Inr () \<longleftrightarrow> unat n8 \<le> limit"
  "validate_value k (show_word (n16 :: u16)) U16Value = Inr ()"
  "validate_value k (show_word (n32 :: u32)) U32Value = Inr ()"
  "validate_value k (show_word n32) NonZeroU32Value = Inr () \<longleftrightarrow> n32 \<noteq> 0"
  "validate_value k (show_word (n64 :: u64)) U64Value = Inr ()"
  "validate_value k (show_u64 n64) U64Value = Inr ()"
  using unat_bound [of n8] unat_bound [of n16] unat_bound [of n32] unat_bound [of n64]
  by (auto simp: unat_eq_0 show_bool_def parse_integer_def show_word_def show_u64_def res_simps ensure_def)

lemma text_value: "validate_value k v TextValue = Inr ()"
  by simp

lemma version_value: "validate_value k ''1'' (U8Value (Suc 0)) = Inr ()"
  by (simp add: parse_integer_def parse_uint_def is_digit_def digits_val_def ensure_def)

lemma hex_value: "length d = 32 \<Longrightarrow> validate_value k (encode_hex d) (HexValue 32) = Inr ()"
  by (simp add: encode_hex_def lower_hex_hexdigits hex_bytes_lower)

lemma pca_value: "validate_value k (pca_as_config_value m) BootPcaValue = Inr ()"
  by (cases m) (simp_all add: boot_pca_names_def to_lower_def is_upper_def trim_printable printable_def)

lemma digest_value: "digest_ok h \<Longrightarrow> validate_value k h (HexValue 32) = Inr ()"
  by (simp add: digest_ok_def)

lemmas gate_simps = field_accepted_def field_rules shown_values pca_value digest_value digest_clean text_value
  version_value hex_value

declare validate_value.simps [simp del]

lemma accepted_groups:
  "list_all field_accepted (in_section ''Install'' (task_pairs plan c)) \<longleftrightarrow>
     ic_driver_action_mode c \<le> 2 \<and> ic_volume_index c \<noteq> 0"
  "list_all field_accepted (in_section ''Install'' (image_pairs lang c)) \<longleftrightarrow> ic_wim_engine c \<le> 1 \<and> ic_boot_mode c \<le> 2"
  "list_all field_accepted (in_section ''Advanced'' (advanced_pairs c))"
  "list_all field_accepted (in_section ''Win7'' (win7_pairs c))"
  "list_all field_accepted (in_section ''Xp'' (xp_pairs c))"
  by (simp_all add: task_pairs_def image_pairs_def advanced_pairs_def win7_pairs_def xp_pairs_def gate_simps word_le_nat_alt)

lemma accepted_optional:
  "source_lines c = Inr source \<Longrightarrow> list_all field_accepted (in_section ''Install'' source)"
  "wifi_lines c = Inr wifi \<Longrightarrow> list_all field_accepted (in_section ''Install'' wifi)"
  "network_lines c = Inr network \<Longrightarrow> list_all field_accepted (in_section ''Install'' network)"
  "list_all field_accepted (in_section ''Install'' (report_lines c))"
  by (auto simp: source_lines_def wifi_lines_def network_lines_def report_lines_def Let_def res_simps gate_simps
      split: if_splits option.splits)

lemma accepted_binding:
  "length (mb_sha256 b) = 32 \<Longrightarrow> list_all field_accepted (in_section ''HandoffManifest'' (binding_pairs b))"
  by (simp add: binding_pairs_def trim_printable printable_def encode_hex_def show_u64_def)
    (simp add: gate_simps flip: show_u64_def encode_hex_def)

definition source_keys :: "string list" where
  "source_keys = [''SourceImageVerified'', ''InPlaceTargetStaging'', ''ImageChunked'', ''ImageChunkedLength'',
     ''ImageChunkedSha256'', ''ImageExpandedBytes'']"

definition optional_keys :: "string list" where
  "optional_keys = [''MigrateWifi'', ''WifiProfileLength'', ''WifiProfileSha256'', ''InstallReport'',
     ''PeNetworkPayloadLength'', ''PeNetworkPayloadSha256'']"

lemma fixed_keys_distinct:
  "distinct (map fst (task_pairs plan c @ image_pairs lang c @ advanced_pairs c @ win7_pairs c @ xp_pairs c @
     binding_pairs b) @ source_keys @ optional_keys)"
  by (rule distinct_by [where f = "foldl (\<lambda>a c. 2 * a + byte c) 0"])
    (simp add: task_pairs_def image_pairs_def advanced_pairs_def win7_pairs_def xp_pairs_def binding_pairs_def
      source_keys_def optional_keys_def)

lemma optional_keys_written:
  "source_lines c = Inr source \<Longrightarrow> map fst source = filter (\<lambda>k.
     if k = ''SourceImageVerified'' then ic_source_image_verified c
     else if k = ''InPlaceTargetStaging'' then ic_in_place_target_staging c else ic_image_chunked c) source_keys"
  "wifi_lines c = Inr wifi \<Longrightarrow> network_lines c = Inr network \<Longrightarrow>
     map fst (wifi @ report_lines c @ network) = filter (\<lambda>k.
       if k = ''InstallReport'' then report_lines c \<noteq> []
       else if k = ''PeNetworkPayloadLength'' \<or> k = ''PeNetworkPayloadSha256'' then 0 < ic_pe_network_payload_length c
       else ic_migrate_wifi c) optional_keys"
proof -
  assume "source_lines c = Inr source"
  then show "map fst source = filter (\<lambda>k.
     if k = ''SourceImageVerified'' then ic_source_image_verified c
     else if k = ''InPlaceTargetStaging'' then ic_in_place_target_staging c else ic_image_chunked c) source_keys"
    by (cases "ic_source_image_verified c"; cases "ic_in_place_target_staging c"; cases "ic_image_chunked c")
      (auto simp: source_lines_def source_keys_def Let_def res_simps)
next
  assume "wifi_lines c = Inr wifi" and "network_lines c = Inr network"
  moreover have "map fst (report_lines c) = (if report_lines c = [] then [] else [''InstallReport''])"
    by (simp add: report_lines_def split: option.splits)
  ultimately show "map fst (wifi @ report_lines c @ network) = filter (\<lambda>k.
       if k = ''InstallReport'' then report_lines c \<noteq> []
       else if k = ''PeNetworkPayloadLength'' \<or> k = ''PeNetworkPayloadSha256'' then 0 < ic_pe_network_payload_length c
       else ic_migrate_wifi c) optional_keys"
    by (cases "ic_migrate_wifi c"; cases "0 < ic_pe_network_payload_length c")
      (auto simp: wifi_lines_def network_lines_def optional_keys_def Let_def res_simps)
qed

lemma optional_distinct:
  assumes "wifi_lines c = Inr wifi" "network_lines c = Inr network" "source_lines c = Inr source"
  shows "distinct (map fst source)" "set (map fst source) \<subseteq> set source_keys"
    "distinct (map fst (wifi @ report_lines c @ network))"
    "set (map fst (wifi @ report_lines c @ network)) \<subseteq> set optional_keys"
  using fixed_keys_distinct
  unfolding optional_keys_written(1) [OF assms(3)] optional_keys_written(2) [OF assms(1,2)] distinct_append
  by (auto intro: distinct_filter)


lemma distinct_parts:
  assumes "distinct (k1 @ k2 @ k3 @ k4 @ k5 @ k6 @ u @ v)" and "distinct s" "set s \<subseteq> set u" "distinct t" "set t \<subseteq> set v"
  shows "distinct (k1 @ s @ k2 @ t @ k3 @ k4 @ k5 @ k6)"
  using assms by auto

lemma written_fields:
  assumes "keyed source" "keyed optional"
    and "str_lines content = content_lines lang plan source optional (binding_pairs b) c"
  shows "ini_fields [] (map read_line (str_lines content)) =
      in_section ''Install'' (task_pairs plan c @ source @ image_pairs lang c @ optional) @
      in_section ''Advanced'' (advanced_pairs c) @ in_section ''Win7'' (win7_pairs c) @
      in_section ''Xp'' (xp_pairs c) @ in_section ''HandoffManifest'' (binding_pairs b)"
    and "MalformedLine \<notin> set (map read_line (str_lines content))"
proof -
  have keys: "keyed (binding_pairs b)"
    by (simp add: binding_pairs_def pair_key_def printable_def)
  note all = install_keys(1-5) assms(1,2) keys
  show "ini_fields [] (map read_line (str_lines content)) =
      in_section ''Install'' (task_pairs plan c @ source @ image_pairs lang c @ optional) @
      in_section ''Advanced'' (advanced_pairs c) @ in_section ''Win7'' (win7_pairs c) @
      in_section ''Xp'' (xp_pairs c) @ in_section ''HandoffManifest'' (binding_pairs b)"
    using ini_fields_pairs(1) [OF keys, of "''HandoffManifest''" "[]"]
    unfolding assms(3) content_lines_def list.map map_append section_lines ini_fields.simps
    by (simp only: ini_fields_pairs(1) [OF all(1)] ini_fields_pairs(1) [OF all(2)] ini_fields_pairs(1) [OF all(3)]
        ini_fields_pairs(1) [OF all(4)] ini_fields_pairs(1) [OF all(5)] ini_fields_pairs(1) [OF all(6)]
        ini_fields_pairs(1) [OF all(7)] ini_fields.simps in_section_simps append_Nil2 append_assoc)
  show "MalformedLine \<notin> set (map read_line (str_lines content))"
    using ini_fields_pairs(2) [OF all(1)] ini_fields_pairs(2) [OF all(2)] ini_fields_pairs(2) [OF all(3)]
      ini_fields_pairs(2) [OF all(4)] ini_fields_pairs(2) [OF all(5)] ini_fields_pairs(2) [OF all(6)]
      ini_fields_pairs(2) [OF all(7)] ini_fields_pairs(2) [OF all(8)]
    unfolding assms(3) content_lines_def list.map map_append section_lines by simp
qed

lemma written_gate:
  assumes "serialize_install_config to_string lang c = Inr written" and "plain_line lang"
    and "\<And>p v. to_string p = Some v \<Longrightarrow> plain_line v" and "length (mb_sha256 b) = 32"
  shows "validate_install_handoff_ini (written @ crlf_text [''[HandoffManifest]''] @ binding_to_config_lines b) = Inr () \<longleftrightarrow>
    ic_driver_action_mode c \<le> 2 \<and> ic_volume_index c \<noteq> 0 \<and> ic_wim_engine c \<le> 1 \<and> ic_boot_mode c \<le> 2"
proof -
  define content where "content = written @ crlf_text [''[HandoffManifest]''] @ binding_to_config_lines b"
  obtain plan wifi network source where parts:
      "wifi_lines c = Inr wifi" "network_lines c = Inr network" "source_lines c = Inr source"
      "str_lines content = content_lines lang plan source (wifi @ report_lines c @ network) (binding_pairs b) c"
    unfolding content_def by (rule serialized_lines [OF assms(1-3)])
  have keyed: "keyed source" "keyed (wifi @ report_lines c @ network)"
    using install_keys parts(1-3) by auto
  note fields = written_fields [OF keyed parts(4)]
  have "distinct (map fst (task_pairs plan c) @ map fst source @ map fst (image_pairs lang c) @
      map fst (wifi @ report_lines c @ network) @ map fst (advanced_pairs c) @ map fst (win7_pairs c) @
      map fst (xp_pairs c) @ map fst (binding_pairs b))"
    by (rule distinct_parts [OF _ optional_distinct [OF parts(1-3)]])
      (use fixed_keys_distinct [of plan c lang b] in \<open>simp only: map_append append_assoc\<close>)
  then have keys: "distinct (map (fst \<circ> snd) (ini_fields [] (map read_line (str_lines content))))"
    unfolding fields(1) map_append in_section_simps append_assoc .
  have "list_all field_accepted (ini_fields [] (map read_line (str_lines content))) \<longleftrightarrow>
    ic_driver_action_mode c \<le> 2 \<and> ic_volume_index c \<noteq> 0 \<and> ic_wim_engine c \<le> 1 \<and> ic_boot_mode c \<le> 2"
    using accepted_optional(1) [OF parts(3)] accepted_optional(2) [OF parts(1)] accepted_optional(3) [OF parts(2)]
    unfolding fields(1) list_all_append in_section_simps(3) accepted_groups
    by (simp only: accepted_optional(4) accepted_binding [OF assms(4)] accepted_groups simp_thms) blast
  then show ?thesis
    using fields(2) keys unfolding install_gate_exact content_def [symmetric] Let_def by blast
qed
text \<open>C19. The two programs agree about the format. Whatever the normal system serializes, bound to any manifest,
  passes the strict gate of the boot environment, unless one of four numbers is out of the range that only the
  gate knows: the driver action, the image engine, the boot mode, or an image index of zero. All keys are known,
  stand in their sections, occur once and have values of their type, whichever optional groups are written.\<close>

theorem written_config_passes_gate:
  assumes "serialize_install_config to_string lang c = Inr written" and "plain_line lang"
    and "\<And>p v. to_string p = Some v \<Longrightarrow> plain_line v" and "length (mb_sha256 b) = 32"
  shows "validate_install_handoff_ini (written @ crlf_text [''[HandoffManifest]''] @ binding_to_config_lines b) = Inr () \<longleftrightarrow>
    ic_driver_action_mode c \<le> 2 \<and> ic_volume_index c \<noteq> 0 \<and> ic_wim_engine c \<le> 1 \<and> ic_boot_mode c \<le> 2"
  by (rule written_gate [OF assms])

definition sample_install_config :: install_config where
  "sample_install_config = \<lparr>ic_session_id = ''0123456789abcdef0123456789abcdef'', ic_unattended = False, ic_restore_drivers = False, ic_driver_action_mode = 0,
     ic_auto_reboot = False, ic_automation_shutdown_on_terminal = False, ic_install_report = None, ic_format_partition = False,
     ic_preserve_personal_files = False, ic_repair_boot = False, ic_original_guid = [], ic_volume_index = 1,
     ic_target_partition = [], ic_custom_install_plan = ReinstallPartition, ic_canonical_target = None, ic_image_path = ''install.wim'',
     ic_source_image_verified = False, ic_image_chunked = False, ic_image_chunked_length = 0, ic_image_chunked_sha256 = [],
     ic_image_expanded_bytes = 0, ic_in_place_target_staging = False, ic_is_gho = False, ic_migrate_wifi = False,
     ic_wifi_profile_length = 0, ic_wifi_profile_sha256 = [], ic_pe_network_enabled = False, ic_pe_network_payload_length = 0,
     ic_pe_network_payload_sha256 = [], ic_automatic_feedback_mode = [], ic_wim_engine = 0, ic_is_xp = False,
     ic_is_xp_i386 = False, ic_xp_source_arch = [], ic_run_diskpart_scripts = False, ic_boot_mode = 0,
     ic_boot_pca_mode = PcaAuto, ic_pca_compat_package = [], ic_pca_compat_sha256 = [], ic_pca_compat_image_index = 0,
     ic_pca_compat_target_build = 0, ic_pca_compat_target_architecture = 0, ic_remove_shortcut_arrow = False, ic_restore_classic_context_menu = False,
     ic_bypass_nro = False, ic_disable_windows_update = False, ic_disable_windows_defender = False, ic_disable_reserved_storage = False,
     ic_disable_uac = False, ic_disable_device_encryption = False, ic_remove_uwp_apps = False, ic_import_storage_controller_drivers = False,
     ic_custom_username = [], ic_builtin_administrator = default_administrator, ic_volume_label = '' Windows '', ic_custom_unattend = [],
     ic_preinstalled_software_config = [], ic_win7_uefi_patch = False, ic_win7_inject_usb3_driver = False, ic_win7_inject_nvme_driver = False,
     ic_win7_fix_acpi_bsod = False, ic_win7_fix_storage_bsod = False, ic_xp_inject_usb3_driver = False, ic_xp_inject_nvme_driver = False\<rparr>"

definition sample_plan_string :: "install_plan \<Rightarrow> string option" where
  "sample_plan_string p = (if p = ReinstallPartition then Some ''{}'' else None)"

definition sample_plan_of :: "string \<Rightarrow> install_plan option" where
  "sample_plan_of v = (if v = ''{}'' then Some ReinstallPartition else None)"

lemma sample_plan_codec:
  "sample_plan_string p = Some v \<Longrightarrow> plain_line v \<and> trim v = v \<and> sample_plan_of v = Some p"
  by (auto simp: sample_plan_string_def sample_plan_of_def trim_id printable_def split: if_splits)

lemma sample_serialized: "\<exists>written. serialize_install_config sample_plan_string ''en-US'' sample_install_config = Inr written"
proof -
  have "validate_install_ini_values sample_install_config = Inr ()"
    unfolding validate_install_ini_values_def text_values_def sample_install_config_def
    by (simp add: validate_ini_value_def contains_any_def default_administrator_def)
  moreover have "plan_to_json sample_plan_string (ic_custom_install_plan sample_install_config) = Inr ''{}''"
    by (simp add: plan_to_json_def sample_plan_string_def sample_install_config_def)
  moreover have "wifi_lines sample_install_config = Inr []" "network_lines sample_install_config = Inr []"
    "source_lines sample_install_config = Inr []"
    by (simp_all add: wifi_lines_def network_lines_def source_lines_def sample_install_config_def)
  ultimately show ?thesis by (simp add: serialize_install_config_def)
qed

lemma written_config_passes_gate_witness:
  "\<exists>written. serialize_install_config sample_plan_string ''en-US'' sample_install_config = Inr written \<and>
     validate_install_handoff_ini (written @ crlf_text [''[HandoffManifest]''] @ binding_to_config_lines sample_binding) = Inr ()"
proof -
  obtain written where w: "serialize_install_config sample_plan_string ''en-US'' sample_install_config = Inr written"
    using sample_serialized by blast
  have "validate_install_handoff_ini (written @ crlf_text [''[HandoffManifest]''] @ binding_to_config_lines sample_binding) = Inr ()"
    by (subst written_config_passes_gate [OF w])
      (use sample_plan_codec in \<open>auto simp: sample_install_config_def sample_binding_def\<close>)
  with w show ?thesis by blast
qed

lemma sample_bound:
  "\<exists>content. bound_install_config sample_plan_string ''en-US'' sample_install_config sample_binding = Inr content"
proof -
  obtain written where w: "serialize_install_config sample_plan_string ''en-US'' sample_install_config = Inr written"
    using sample_serialized by blast
  have "validate_install_handoff_ini (written @ crlf_text [''[HandoffManifest]''] @ binding_to_config_lines sample_binding) = Inr ()"
    by (subst written_gate [OF w])
      (use sample_plan_codec in \<open>auto simp: sample_install_config_def sample_binding_def\<close>)
  with w show ?thesis by (simp add: bound_install_config_def Let_def)
qed



subsection \<open>The readers of single bindings\<close>

lemma fold_pairs:
  assumes "keyed ps" and "\<And>s k v. pair_key k \<Longrightarrow> f s (line_of (k, v)) = g s (k, v)"
  shows "try_fold f s (map line_of ps) = try_fold g s ps"
  using assms(1)
proof (induction ps arbitrary: s)
  case (Cons p ps)
  then have "f s (line_of p) = g s p" using assms(2) [of "fst p" s "snd p"] by simp
  with Cons show ?case by (simp add: and_then_def split: sum.splits)
qed simp

definition network_pair ::
  "string option \<times> string option \<Rightarrow> string \<times> string \<Rightarrow> string + string option \<times> string option" where
  "network_pair s p = (case s of (len, sha256) \<Rightarrow>
     if fst p = ''PeNetworkPayloadLength'' then
       (if len \<noteq> None then Inl ''PE network payload length is repeated'' else Inr (Some (trim (snd p)), sha256))
     else if fst p = ''PeNetworkPayloadSha256'' then
       (if sha256 \<noteq> None then Inl ''PE network payload SHA-256 is repeated'' else Inr (len, Some (trim (snd p))))
     else Inr s)"

definition policy_pair :: "bool \<Rightarrow> string \<times> string \<Rightarrow> unit + bool" where
  "policy_pair seen p = (if fst p \<noteq> ''PeNetworkEnabled'' then Inr seen
     else if seen \<or> \<not> eq_ignore_ascii_case (trim (snd p)) ''true'' then Inl () else Inr True)"

lemma pair_readers:
  assumes "pair_key k"
  shows "network_line s (line_of (k, v)) = network_pair s (k, v)" "policy_line seen (line_of (k, v)) = policy_pair seen (k, v)"
  using pair_line_parts (1) [OF assms, of v] pair_line_parts(2) [OF assms]
  by (auto simp: network_line_def network_pair_def policy_line_def policy_pair_def split: prod.splits)

lemma header_readers:
  "network_line s l = Inr s" "policy_line seen l = Inr seen"
  if "l \<in> {[], ''[Install]'', ''[Advanced]'', ''[Win7]'', ''[Xp]'', ''[HandoffManifest]''}"
  using that by (auto simp: network_line_def policy_line_def trim_id printable_def split: prod.splits)

lemma networkless:
  "list_all (\<lambda>p. fst p \<notin> {''PeNetworkPayloadLength'', ''PeNetworkPayloadSha256''}) ps \<Longrightarrow> try_fold network_pair s ps = Inr s"
  by (induction ps) (auto simp: network_pair_def split: prod.splits)

lemma policyless: "list_all (\<lambda>p. fst p \<noteq> ''PeNetworkEnabled'') ps \<Longrightarrow> try_fold policy_pair s ps = Inr s"
  by (induction ps) (auto simp: policy_pair_def)

definition plain_keys :: "(string \<times> string) list \<Rightarrow> bool" where
  "plain_keys ps \<longleftrightarrow> list_all (\<lambda>p. fst p \<notin> {''PeNetworkPayloadLength'', ''PeNetworkPayloadSha256'', ''PeNetworkEnabled''}) ps"

lemma plain_keys_read: "plain_keys ps \<Longrightarrow> try_fold network_pair s ps = Inr s \<and> try_fold policy_pair seen ps = Inr seen"
  by (auto intro!: networkless policyless simp: plain_keys_def list_all_iff)

lemma install_plain_keys:
  "plain_keys (task_pairs plan x)" "plain_keys (advanced_pairs x)" "plain_keys (win7_pairs x)"
  "plain_keys (xp_pairs x)" "plain_keys (report_lines x)" "plain_keys (binding_pairs b)"
  "wifi_lines x = Inr wifi \<Longrightarrow> plain_keys wifi" "source_lines x = Inr source \<Longrightarrow> plain_keys source"
  by (auto simp: plain_keys_def task_pairs_def advanced_pairs_def win7_pairs_def xp_pairs_def
      report_lines_def binding_pairs_def wifi_lines_def source_lines_def Let_def res_simps
      split: if_splits option.splits)

lemma shown_true: "eq_ignore_ascii_case (show_bool b) ''true'' = b"
  by (auto simp: show_bool_def eq_ignore_ascii_case_def dest: arg_cong [of _ _ length])

lemma image_pairs_read:
  "try_fold network_pair s (image_pairs lang x) = Inr s"
  "try_fold policy_pair False (image_pairs lang x) = (if ic_pe_network_enabled x then Inr True else Inl ())"
proof -
  show "try_fold network_pair s (image_pairs lang x) = Inr s"
    by (rule networkless) (simp add: image_pairs_def)
  show "try_fold policy_pair False (image_pairs lang x) = (if ic_pe_network_enabled x then Inr True else Inl ())"
    by (simp add: image_pairs_def policy_pair_def shown_true)
qed

lemma network_lines_read:
  "network_lines x = Inr network \<Longrightarrow> try_fold network_pair (None, None) network = Inr (if 0 < ic_pe_network_payload_length x
     then (Some (show_word (ic_pe_network_payload_length x)), Some (map to_lower (trim (ic_pe_network_payload_sha256 x))))
     else (None, None))"
  "network_lines x = Inr network \<Longrightarrow> try_fold policy_pair seen network = Inr seen"
  by (auto simp: network_lines_def Let_def res_simps network_pair_def policy_pair_def digest_clean split: if_splits)

text \<open>The runtime of the network reads the same configuration on its own, line by line and without sections.
  It is allowed to start exactly when the normal system allowed it, and it finds the binding of its payload
  exactly when one was written, with the length and the digest that were bound.\<close>

theorem network_policy_crosses_restart:
  assumes "bound_install_config to_string lang c b = Inr content" and "plain_line lang"
    and "\<And>p v. to_string p = Some v \<Longrightarrow> plain_line v"
  shows "policy_enabled content = ic_pe_network_enabled c \<and>
    network_binding_from_config_text content = Inr (if 0 < ic_pe_network_payload_length c then
      Some \<lparr>pb_length = ic_pe_network_payload_length c,
            pb_sha256 = map to_lower (trim (ic_pe_network_payload_sha256 c))\<rparr> else None)"
proof -
  from assms(1) obtain written where written: "serialize_install_config to_string lang c = Inr written"
      "content = written @ crlf_text [''[HandoffManifest]''] @ binding_to_config_lines b"
    by (auto simp: bound_install_config_def Let_def res_simps)
  obtain plan wifi network source where parts: "wifi_lines c = Inr wifi" "network_lines c = Inr network"
      "source_lines c = Inr source"
      "str_lines content = content_lines lang plan source (wifi @ report_lines c @ network) (binding_pairs b) c"
    unfolding written(2) by (rule serialized_lines [OF written(1) assms(2,3)])
  have keys: "keyed source" "keyed wifi" "keyed network" "keyed (binding_pairs b)"
    using install_keys parts(1-3) by (auto simp: binding_pairs_def pair_key_def printable_def)
  note quiet = plain_keys_read [OF install_plain_keys(1)] plain_keys_read [OF install_plain_keys(2)]
    plain_keys_read [OF install_plain_keys(3)] plain_keys_read [OF install_plain_keys(4)]
    plain_keys_read [OF install_plain_keys(5)] plain_keys_read [OF install_plain_keys(6)]
    plain_keys_read [OF install_plain_keys(7) [OF parts(1)]] plain_keys_read [OF install_plain_keys(8) [OF parts(3)]]
  note folds = fold_pairs [where f = network_line and g = network_pair, OF _ pair_readers(1)]
    fold_pairs [where f = policy_line and g = policy_pair, OF _ pair_readers(2)]
  have "try_fold network_line (None, None) (str_lines content) = Inr (if 0 < ic_pe_network_payload_length c
     then (Some (show_word (ic_pe_network_payload_length c)), Some (map to_lower (trim (ic_pe_network_payload_sha256 c))))
     else (None, None))"
    unfolding parts(4) content_lines_def try_fold_append try_fold.simps
    by (simp add: header_readers folds install_keys keys try_fold_append and_then_Inr quiet image_pairs_read network_lines_read [OF parts(2)])
  moreover have "try_fold policy_line False (str_lines content) = (if ic_pe_network_enabled c then Inr True else Inl ())"
    unfolding parts(4) content_lines_def try_fold_append try_fold.simps
    by (simp add: header_readers folds install_keys keys try_fold_append and_then_Inr quiet image_pairs_read network_lines_read [OF parts(2)])
  moreover have "digest_ok h \<Longrightarrow> decode_hex_array 32 h f = Inr (hex_pairs h)" for h f
    using decode_hex_gate [of h 32] by (simp add: digest_ok_def)
  ultimately show ?thesis
    using parts(2) by (auto simp: policy_enabled_def network_binding_from_config_text_def network_result_def
        network_lines_def Let_def res_simps split: if_splits)
qed

lemma network_policy_crosses_restart_witness:
  "\<exists>content. bound_install_config sample_plan_string ''en-US'' sample_install_config sample_binding = Inr content \<and>
     \<not> policy_enabled content \<and> network_binding_from_config_text content = Inr None"
proof -
  obtain content where b: "bound_install_config sample_plan_string ''en-US'' sample_install_config sample_binding = Inr content"
    using sample_bound by blast
  have "ic_pe_network_payload_length sample_install_config = 0" "\<not> ic_pe_network_enabled sample_install_config"
    by (simp_all add: sample_install_config_def)
  then show ?thesis
    using network_policy_crosses_restart [OF b] sample_plan_codec b by fastforce
qed

end
