(* ===== verification/ExpandHandoff.thy ===== *)
theory ExpandHandoff
  imports InstallConfig Expand PartitionDisk
begin

section \<open>From the expansion dialog to the boot environment\<close>

text \<open>
  How a volume that is to grow is analysed in the running Windows, confirmed, written down, and read again
  after the restart: \<open>native_expand_c_controller.rs\<close>, the checks of \<open>native_expand_c_executor.rs\<close>,
  \<open>write_expand_config_transactional\<close> of \<open>install_config.rs\<close> up to the files it writes, and
  \<open>deserialize_expand_config\<close> of the boot environment's \<open>config.rs\<close>, whose result \<open>Expand\<close> starts from. The
  inventory of the disks, the BitLocker state and the shrink limit of a volume are parameters. The translated
  messages are constructors.
\<close>

subsection \<open>Analysis\<close>

record moved_partition =
  mv_number :: u32
  mv_offset :: u64
  mv_size :: u64
  mv_letter :: "scalar option"
  mv_recovery :: bool

definition MAX_MOVED_PARTITIONS :: nat where "MAX_MOVED_PARTITIONS = 3"

record move_donor =
  md_number :: u32
  md_offset :: u64
  md_size :: u64
  md_letter :: scalar
  md_shrinkable :: u64
  md_free_after :: u64
  md_moved :: "moved_partition list"
  md_reach_mb :: u64

definition moved_identity :: "move_donor \<Rightarrow> (u32 \<times> u64 \<times> u64) list" where
  "moved_identity d = map (\<lambda>m. (mv_number m, mv_offset m, mv_size m)) (md_moved d)"

datatype move_blocker =
    RecoveryOnMbr
  | SystemPartitionBehind
  | NoDriveLetter
  | NotNtfs scalar
  | UnsupportedMbrType scalar
  | BitLockerEnabled scalar

datatype expand_reason =
    NoReason
  | TargetNotFound scalar
  | BlockedBehind scalar move_blocker
  | NothingBehind scalar

record expand_analysis =
  xa_found :: bool
  xa_disk :: "disk_print option"
  xa_number :: u32
  xa_current_mb :: u64
  xa_used_mb :: u64
  xa_free_mb :: u64
  xa_max_mb :: u64
  xa_no_move_max_mb :: u64
  xa_can_expand :: bool
  xa_reason :: expand_reason
  xa_options :: "move_donor list"

definition analysis_default :: expand_analysis where
  "analysis_default = \<lparr>xa_found = False, xa_disk = None, xa_number = 0, xa_current_mb = 0, xa_used_mb = 0,
     xa_free_mb = 0, xa_max_mb = 0, xa_no_move_max_mb = 0, xa_can_expand = False, xa_reason = NoReason,
     xa_options = []\<rparr>"

text \<open>What is asked of Windows: whether BitLocker is known to be in use on a volume, and by how much it can shrink.\<close>

record expand_env =
  xe_encrypted :: "scalar \<Rightarrow> bool"
  xe_reclaimable :: "scalar \<Rightarrow> string + u64"
  xe_snapshot :: "u32 \<Rightarrow> string + disk_snapshot"

definition movable_data_letter :: "expand_env \<Rightarrow> physical_disk \<Rightarrow> disk_partition \<Rightarrow> move_blocker + scalar" where
  "movable_data_letter env d p =
     (if dp_esp p \<or> dp_msr p \<or> dp_recovery p then Inl SystemPartitionBehind
      else
        and_then (ok_or (map_option scalar_upper (dp_letter p)) NoDriveLetter) (\<lambda>l.
        if \<not> eq_ignore_ascii_case (dp_file_system p) ''NTFS'' then Inl (NotNtfs l)
        else if pd_style d = StyleMbr \<and> \<not> eq_ignore_ascii_case (dp_type p) ''0x07'' then Inl (UnsupportedMbrType l)
        else if xe_encrypted env l then Inl (BitLockerEnabled l)
        else Inr l))"

definition carry_along :: "expand_env \<Rightarrow> physical_disk \<Rightarrow> disk_partition \<Rightarrow> move_blocker + moved_partition" where
  "carry_along env d p =
     and_then (if dp_recovery p \<and> \<not> dp_esp p \<and> \<not> dp_msr p
         then ensure (pd_style d = StyleGpt) RecoveryOnMbr
         else and_then (movable_data_letter env d p) (\<lambda>_. Inr ())) (\<lambda>_.
     Inr \<lparr>mv_number = dp_number p, mv_offset = dp_offset p, mv_size = dp_size p,
          mv_letter = map_option scalar_upper (dp_letter p), mv_recovery = dp_recovery p\<rparr>)"

definition donor_boundary :: "physical_disk \<Rightarrow> disk_partition \<Rightarrow> disk_partition list \<Rightarrow> u64" where
  "donor_boundary d p following =
     (let later = map dp_offset (filter (\<lambda>q. dp_offset p < dp_offset q) following) in
      if later = [] then pd_size d else foldl min (hd later) (tl later))"

definition plan_move_donor ::
  "expand_env \<Rightarrow> physical_disk \<Rightarrow> disk_partition \<Rightarrow> disk_partition list \<Rightarrow> move_blocker + move_donor" where
  "plan_move_donor env d p following =
     and_then (movable_data_letter env d p) (\<lambda>l.
     (let next_end = saturating_add (dp_offset p) (dp_size p);
          free_after = saturating_sub (donor_boundary d p following) next_end;
          reserve = max (2 * 1024 * PART_MIB) (dp_size p div 20);
          by_free_space = saturating_sub (dp_free p) reserve;
          shrinkable = (case xe_reclaimable env l of
             Inr reclaimable \<Rightarrow> min reclaimable by_free_space
           | Inl _ \<Rightarrow> by_free_space div 2) div PART_MIB * PART_MIB in
      Inr \<lparr>md_number = dp_number p, md_offset = dp_offset p, md_size = dp_size p, md_letter = l,
           md_shrinkable = shrinkable, md_free_after = free_after, md_moved = [], md_reach_mb = 0\<rparr>))"

text \<open>The loop over the partitions behind the target: the options found, what blocks the way, and what would be carried.\<close>

definition reach_of :: "u64 \<Rightarrow> u64 \<Rightarrow> move_donor \<Rightarrow> u64" where
  "reach_of current_mb free_behind donor = saturating_add current_mb
     (saturating_add (saturating_add free_behind (md_free_after donor)) (md_shrinkable donor) div PART_MIB)"

definition offer ::
  "expand_env \<Rightarrow> physical_disk \<Rightarrow> disk_partition list \<Rightarrow> u64 \<Rightarrow> u64 \<Rightarrow> u64 \<Rightarrow> disk_partition \<Rightarrow>
    moved_partition list \<Rightarrow> move_donor list \<Rightarrow> move_donor list" where
  "offer env d following current_mb free_behind no_move_max_mb p carried options =
     (case plan_move_donor env d p following of
        Inl _ \<Rightarrow> options
      | Inr donor \<Rightarrow>
          (let donor = donor\<lparr>md_moved := carried\<rparr>;
               donor = donor\<lparr>md_reach_mb := reach_of current_mb free_behind donor\<rparr> in
           if saturating_add no_move_max_mb 1024 < md_reach_mb donor \<and>
              (options = [] \<or> md_reach_mb (last options) < md_reach_mb donor)
           then options @ [donor] else options))"

fun scan_behind ::
  "expand_env \<Rightarrow> physical_disk \<Rightarrow> disk_partition list \<Rightarrow> u64 \<Rightarrow> u64 \<Rightarrow> u64 \<Rightarrow> disk_partition list \<Rightarrow>
    moved_partition list \<Rightarrow> move_donor list \<Rightarrow> move_donor list \<times> move_blocker option" where
  "scan_behind env d following current_mb free_behind no_move_max_mb [] carried options = (options, None)"
| "scan_behind env d following current_mb free_behind no_move_max_mb (p # ps) carried options =
     (let options = offer env d following current_mb free_behind no_move_max_mb p carried options in
      case carry_along env d p of
        Inr moved \<Rightarrow> scan_behind env d following current_mb free_behind no_move_max_mb ps (carried @ [moved]) options
      | Inl b \<Rightarrow> (options, if options = [] then Some b else None))"

definition has_letter :: "scalar \<Rightarrow> disk_partition \<Rightarrow> bool" where
  "has_letter l p \<longleftrightarrow> (case dp_letter p of None \<Rightarrow> False | Some m \<Rightarrow> scalar_eq m l)"

definition partitions_behind :: "physical_disk \<Rightarrow> disk_partition \<Rightarrow> disk_partition list" where
  "partitions_behind d target =
     sort_key dp_offset (filter (\<lambda>p. saturating_add (dp_offset target) (dp_size target) \<le> dp_offset p) (pd_partitions d))"

definition analyze_target :: "expand_env \<Rightarrow> scalar \<Rightarrow> physical_disk \<Rightarrow> disk_partition \<Rightarrow> expand_analysis" where
  "analyze_target env letter d target =
     (let current_mb = dp_size target div PART_MIB;
          target_end = saturating_add (dp_offset target) (dp_size target);
          following = partitions_behind d target;
          free_behind = (case following of
             [] \<Rightarrow> saturating_sub (pd_size d) target_end
           | p # _ \<Rightarrow> saturating_sub (dp_offset p) target_end);
          no_move_max_mb = saturating_add current_mb (free_behind div PART_MIB);
          (options, move_blocker) = scan_behind env d following current_mb free_behind no_move_max_mb
             (take (MAX_MOVED_PARTITIONS + 1) following) [] [];
          max_mb = max (foldl max 0 (map md_reach_mb options)) no_move_max_mb;
          can_expand = (saturating_add current_mb 1024 < max_mb) in
      \<lparr>xa_found = True, xa_disk = Some (disk_print_of (xe_snapshot env) d), xa_number = dp_number target,
       xa_current_mb = current_mb, xa_used_mb = dp_used target div PART_MIB, xa_free_mb = dp_free target div PART_MIB,
       xa_max_mb = max_mb, xa_no_move_max_mb = no_move_max_mb, xa_can_expand = can_expand,
       xa_reason = (if can_expand then NoReason
         else case move_blocker of Some b \<Rightarrow> BlockedBehind letter b | None \<Rightarrow> NothingBehind letter),
       xa_options = options\<rparr>)"

fun find_target :: "scalar \<Rightarrow> physical_disk list \<Rightarrow> (physical_disk \<times> disk_partition) option" where
  "find_target l [] = None"
| "find_target l (d # ds) = (case find (has_letter l) (pd_partitions d) of
     Some p \<Rightarrow> Some (d, p)
   | None \<Rightarrow> find_target l ds)"

definition analyze_expand_partition :: "expand_env \<Rightarrow> physical_disk list \<Rightarrow> scalar \<Rightarrow> expand_analysis" where
  "analyze_expand_partition env disks letter =
     (let l = scalar_upper letter in
      case find_target l disks of
        None \<Rightarrow> analysis_default\<lparr>xa_reason := TargetNotFound l\<rparr>
      | Some (d, target) \<Rightarrow> analyze_target env l d target)"

subsection \<open>The request and its confirmation\<close>

record expand_request =
  xr_target :: scalar
  xr_expected_disk :: "disk_print option"
  xr_expected_number :: "u32 option"
  xr_target_mb :: u64
  xr_use_maximum :: bool
  xr_current_mb :: u64
  xr_max_mb :: u64
  xr_no_move_max_mb :: u64
  xr_strict :: bool
  xr_borrow_from_left :: bool
  xr_donor_target_mb :: u64
  xr_requires_move :: bool
  xr_donor_number :: u32
  xr_donor_offset :: u64
  xr_donor_size :: u64
  xr_moved :: "(u32 \<times> u64 \<times> u64) list"
  xr_minimum_free_mb :: u64
  xr_wim_engine :: u8

datatype handoff_error =
    UnsupportedRawMove
  | LayoutChanged
  | DonorChanged
  | SizeOutOfRange
  | NoDiskIdentity
  | TargetNotInFingerprint

definition require_supported_plan :: "expand_request \<Rightarrow> handoff_error + unit" where
  "require_supported_plan r =
     (if xr_borrow_from_left r \<or> xr_donor_target_mb r \<noteq> 0 then Inl UnsupportedRawMove
      else
        (let beyond_adjacent = (xr_no_move_max_mb r \<le> xr_current_mb r \<or> xr_no_move_max_mb r < xr_target_mb r) in
         ensure (\<not> (beyond_adjacent \<and>
           (\<not> xr_requires_move r \<or> xr_donor_number r = 0 \<or> xr_donor_offset r = 0 \<or> xr_donor_size r = 0 \<or>
            xr_max_mb r < xr_target_mb r))) UnsupportedRawMove))"

text \<open>\<open>char::encode_utf8\<close>\<close>

definition scalar_text :: "scalar \<Rightarrow> string" where
  "scalar_text c =
     (if c < 0x80 then [char_of c]
      else if c < 0x800 then [char_of (0xC0 + c div 64), char_of (0x80 + c mod 64)]
      else if c < 0x10000 then [char_of (0xE0 + c div 4096), char_of (0x80 + c div 64 mod 64), char_of (0x80 + c mod 64)]
      else [char_of (0xF0 + c div 262144), char_of (0x80 + c div 4096 mod 64), char_of (0x80 + c div 64 mod 64),
            char_of (0x80 + c mod 64)])"

text \<open>\<open>ExpandConfig\<close> of the normal system.\<close>

record expand_task =
  xt_session :: string
  xt_target :: string
  xt_target_mb :: u64
  xt_wim_engine :: u8
  xt_borrow_from_left :: bool
  xt_donor_target_mb :: u64
  xt_disk :: u32
  xt_disk_size :: u64
  xt_number :: u32
  xt_offset :: u64
  xt_size :: u64
  xt_donor_number :: u32
  xt_donor_offset :: u64
  xt_donor_size :: u64
  xt_moved :: "(u32 \<times> u64 \<times> u64) list"

definition same_donor :: "expand_request \<Rightarrow> move_donor \<Rightarrow> bool" where
  "same_donor r d \<longleftrightarrow> xr_requires_move r \<and> md_number d = xr_donor_number r \<and> md_offset d = xr_donor_offset r \<and>
     md_size d = xr_donor_size r \<and> moved_identity d = xr_moved r"

definition confirmed_donor :: "expand_analysis \<Rightarrow> expand_request \<Rightarrow> handoff_error + move_donor option" where
  "confirmed_donor fresh r =
     (if xa_no_move_max_mb fresh < xr_target_mb r
      then and_then (ok_or (find (same_donor r) (xa_options fresh)) DonorChanged) (\<lambda>d. Inr (Some d))
      else Inr None)"

text \<open>\<open>run_handoff\<close> up to the configuration: the fresh analysis is compared with what the user confirmed.\<close>

definition layout_changed :: "expand_analysis \<Rightarrow> expand_request \<Rightarrow> bool" where
  "layout_changed fresh r \<longleftrightarrow> \<not> xa_found fresh \<or> xa_current_mb fresh \<noteq> xr_current_mb r \<or>
     (xr_strict r \<and> xa_no_move_max_mb fresh \<noteq> xr_no_move_max_mb r) \<or>
     (case xr_expected_disk r of None \<Rightarrow> False | Some e \<Rightarrow> xa_disk fresh \<noteq> Some e) \<or>
     (case xr_expected_number r of None \<Rightarrow> False | Some e \<Rightarrow> xa_number fresh \<noteq> e)"

definition confirm_expansion :: "expand_analysis \<Rightarrow> expand_request \<Rightarrow> string \<Rightarrow> handoff_error + expand_task" where
  "confirm_expansion fresh r session =
     and_then (require_supported_plan r) (\<lambda>_.
     and_then (ensure (\<not> layout_changed fresh r) LayoutChanged) (\<lambda>_.
     (let minimum = max (xa_current_mb fresh) (saturating_add (xa_used_mb fresh) (xr_minimum_free_mb r)) in
      and_then (confirmed_donor fresh r) (\<lambda>donor.
      (let maximum = (case donor of None \<Rightarrow> xa_no_move_max_mb fresh | Some d \<Rightarrow> md_reach_mb d) in
       and_then (ensure (\<not> (xr_target_mb r < minimum \<or> maximum < xr_target_mb r)) SizeOutOfRange) (\<lambda>_.
       and_then (ok_or (xa_disk fresh) NoDiskIdentity) (\<lambda>disk.
       and_then (ok_or (find (\<lambda>p. pp_number p = xa_number fresh) (dk_partitions disk)) TargetNotInFingerprint) (\<lambda>target.
       Inr \<lparr>xt_session = session, xt_target = scalar_text (scalar_upper (xr_target r)) @ '':'',
         xt_target_mb = xr_target_mb r, xt_wim_engine = xr_wim_engine r, xt_borrow_from_left = False,
         xt_donor_target_mb = 0, xt_disk = dk_number disk, xt_disk_size = dk_size disk, xt_number = pp_number target,
         xt_offset = pp_offset target, xt_size = pp_size target,
         xt_donor_number = (case donor of None \<Rightarrow> 0 | Some d \<Rightarrow> md_number d),
         xt_donor_offset = (case donor of None \<Rightarrow> 0 | Some d \<Rightarrow> md_offset d),
         xt_donor_size = (case donor of None \<Rightarrow> 0 | Some d \<Rightarrow> md_size d),
         xt_moved = (case donor of None \<Rightarrow> [] | Some d \<Rightarrow> moved_identity d)\<rparr>))))))))"

subsection \<open>Writing the configuration\<close>

definition show_moved :: "u32 \<times> u64 \<times> u64 \<Rightarrow> string" where
  "show_moved m = (case m of (number, off, len) \<Rightarrow>
     show_word number @ '':'' @ show_word off @ '':'' @ show_word len)"

definition moved_pairs :: "expand_task \<Rightarrow> (string \<times> string) list" where
  "moved_pairs t = (if xt_moved t = [] then []
     else [(''ExpectedMovedPartitions'', join_words '';'' (map show_moved (xt_moved t)))])"

definition expand_pairs :: "expand_task \<Rightarrow> (string \<times> string) list" where
  "expand_pairs t =
     [(''SessionId'', xt_session t), (''TargetPartition'', xt_target t), (''TargetSizeMb'', show_word (xt_target_mb t)),
      (''WimEngine'', show_word (xt_wim_engine t)), (''BorrowFromLeft'', show_bool (xt_borrow_from_left t)),
      (''DonorTargetSizeMb'', show_word (xt_donor_target_mb t)), (''ExpectedDiskNumber'', show_word (xt_disk t)),
      (''ExpectedDiskSizeBytes'', show_word (xt_disk_size t)), (''ExpectedPartitionNumber'', show_word (xt_number t)),
      (''ExpectedPartitionOffsetBytes'', show_word (xt_offset t)), (''ExpectedPartitionSizeBytes'', show_word (xt_size t)),
      (''ExpectedDonorPartitionNumber'', show_word (xt_donor_number t)),
      (''ExpectedDonorOffsetBytes'', show_word (xt_donor_offset t)),
      (''ExpectedDonorSizeBytes'', show_word (xt_donor_size t))]"

definition expand_config_text :: "string \<Rightarrow> manifest_binding \<Rightarrow> expand_task \<Rightarrow> string" where
  "expand_config_text lang b t =
     crlf_text (''[Expand]'' # map line_of (expand_pairs t @ moved_pairs t @ [(''Language'', lang)])) @
     binding_to_config_lines b"

text \<open>What \<open>write_expand_config_transactional\<close> puts into the boot payload: the configuration and the manifest.\<close>

definition prepare_expand_handoff ::
  "(bytes \<Rightarrow> bytes) \<Rightarrow> (string \<Rightarrow> string \<Rightarrow> string + bool) \<Rightarrow> string \<Rightarrow> string \<Rightarrow> string \<Rightarrow> string \<Rightarrow> string \<Rightarrow>
    expand_task \<Rightarrow> string + (bytes \<times> bytes)" where
  "prepare_expand_handoff sha same_path fresh_session data_token lang target_partition data_partition t =
     (let t = (if xt_session t = [] then t\<lparr>xt_session := fresh_session\<rparr> else t) in
      and_then (validate_session_id (xt_session t)) (\<lambda>_.
      and_then (validate_ini_value (''target_partition'', target_partition)) (\<lambda>_.
      and_then (validate_ini_value (''data_partition'', data_partition)) (\<lambda>_.
      and_then (validate_ini_value (''TargetPartition'', xt_target t)) (\<lambda>_.
      and_then (manifest_new same_path Expand (xt_session t) data_token None None []) (\<lambda>m.
      and_then (manifest_to_bytes same_path m) (\<lambda>manifest_bytes.
      and_then (binding_new sha same_path manifest_bytes) (\<lambda>b.
      Inr (expand_config_text lang b t, manifest_bytes)))))))))"

subsection \<open>Reading the configuration\<close>

definition decimal :: "string \<Rightarrow> string \<Rightarrow> string + 'a::len word" where
  "decimal v field =
     and_then (ok_or (word_of v) (''invalid '' @ field)) (\<lambda>n.
     and_then (ensure (show_word n = v) (field @ '' is not canonical decimal'')) (\<lambda>_. Inr n))"

definition parse_moved_item :: "string \<Rightarrow> string \<Rightarrow> string + (u32 \<times> u64 \<times> u64)" where
  "parse_moved_item key item = (case split_on CHR '':'' item of
     [number, off, len] \<Rightarrow>
       and_then (decimal number key) (\<lambda>n. and_then (decimal off key) (\<lambda>o'. and_then (decimal len key) (\<lambda>l. Inr (n, o', l))))
   | _ \<Rightarrow> Inl ''ExpectedMovedPartitions has a malformed entry'')"

definition parse_moved :: "string \<Rightarrow> string \<Rightarrow> string + (u32 \<times> u64 \<times> u64) list" where
  "parse_moved key v =
     and_then (try_fold (\<lambda>moved item. and_then (parse_moved_item key item) (\<lambda>m. Inr (moved @ [m]))) []
       (split_on CHR '';'' v)) (\<lambda>moved.
     and_then (ensure (\<not> (moved = [] \<or> 8 < length moved)) ''ExpectedMovedPartitions is outside its supported range'')
       (\<lambda>_. Inr moved))"

definition expand_field :: "string \<Rightarrow> string \<Rightarrow> expand_config \<Rightarrow> string + expand_config" where
  "expand_field key v c =
     (if key = ''SessionId'' then Inr (c\<lparr>ec_session := v\<rparr>)
      else if key = ''TargetPartition'' then Inr (c\<lparr>ec_target := v\<rparr>)
      else if key = ''TargetSizeMb'' then and_then (decimal v key) (\<lambda>n. Inr (c\<lparr>ec_target_mb := n\<rparr>))
      else if key = ''WimEngine'' then
        and_then (decimal v key) (\<lambda>n.
        and_then (ensure (\<not> 1 < n) ''WimEngine is outside its supported range'') (\<lambda>_. Inr (c\<lparr>ec_wim_engine := n\<rparr>)))
      else if key = ''BorrowFromLeft'' then
        (if v = ''true'' then Inr (c\<lparr>ec_borrow_from_left := True\<rparr>)
         else if v = ''false'' then Inr (c\<lparr>ec_borrow_from_left := False\<rparr>)
         else Inl ''BorrowFromLeft must be true or false'')
      else if key = ''DonorTargetSizeMb'' then and_then (decimal v key) (\<lambda>n. Inr (c\<lparr>ec_donor_target_mb := n\<rparr>))
      else if key = ''ExpectedDiskNumber'' then and_then (decimal v key) (\<lambda>n. Inr (c\<lparr>ec_disk := n\<rparr>))
      else if key = ''ExpectedDiskSizeBytes'' then and_then (decimal v key) (\<lambda>n. Inr (c\<lparr>ec_disk_size := n\<rparr>))
      else if key = ''ExpectedPartitionNumber'' then and_then (decimal v key) (\<lambda>n. Inr (c\<lparr>ec_number := n\<rparr>))
      else if key = ''ExpectedPartitionOffsetBytes'' then and_then (decimal v key) (\<lambda>n. Inr (c\<lparr>ec_offset := n\<rparr>))
      else if key = ''ExpectedPartitionSizeBytes'' then and_then (decimal v key) (\<lambda>n. Inr (c\<lparr>ec_size := n\<rparr>))
      else if key = ''ExpectedDonorPartitionNumber'' then and_then (decimal v key) (\<lambda>n. Inr (c\<lparr>ec_donor_number := n\<rparr>))
      else if key = ''ExpectedDonorOffsetBytes'' then and_then (decimal v key) (\<lambda>n. Inr (c\<lparr>ec_donor_offset := n\<rparr>))
      else if key = ''ExpectedDonorSizeBytes'' then and_then (decimal v key) (\<lambda>n. Inr (c\<lparr>ec_donor_size := n\<rparr>))
      else if key = ''ExpectedMovedPartitions'' then and_then (parse_moved key v) (\<lambda>m. Inr (c\<lparr>ec_moved := m\<rparr>))
      else if key = ''Language'' then Inr (c\<lparr>ec_language := v\<rparr>)
      else if key \<in> {''HandoffManifestVersion'', ''HandoffManifestLength'', ''HandoffManifestSha256''} then Inr c
      else Inl (''authenticated expand config contains unknown field '' @ key))"

definition expand_line :: "expand_config \<times> string set \<Rightarrow> string \<Rightarrow> string + expand_config \<times> string set" where
  "expand_line st line = (case st of (c, seen) \<Rightarrow>
     if line = [] \<or> line = ''[Expand]'' \<or> line = ''[HandoffManifest]'' then Inr (c, seen)
     else
       and_then (ok_or (split_once CHR ''='' line) ''authenticated expand config contains a malformed line'') (\<lambda>(key, v).
       and_then (ensure (\<not> (key = [] \<or> trim v \<noteq> v \<or> key \<in> seen))
         (''authenticated expand config has an invalid or duplicate '' @ key @ '' field'')) (\<lambda>_.
       and_then (expand_field key v c) (\<lambda>c. Inr (c, insert key seen)))))"

definition EXPAND_REQUIRED :: "string list" where
  "EXPAND_REQUIRED = [''SessionId'', ''TargetPartition'', ''TargetSizeMb'', ''WimEngine'', ''BorrowFromLeft'',
     ''DonorTargetSizeMb'', ''ExpectedDiskNumber'', ''ExpectedDiskSizeBytes'', ''ExpectedPartitionNumber'',
     ''ExpectedPartitionOffsetBytes'', ''ExpectedPartitionSizeBytes'', ''ExpectedDonorPartitionNumber'',
     ''ExpectedDonorOffsetBytes'', ''ExpectedDonorSizeBytes'', ''Language'', ''HandoffManifestVersion'',
     ''HandoffManifestLength'', ''HandoffManifestSha256'']"

definition expand_default :: expand_config where
  "expand_default = \<lparr>ec_session = [], ec_target = [], ec_target_mb = 0, ec_wim_engine = 0, ec_borrow_from_left = False,
     ec_donor_target_mb = 0, ec_disk = 0, ec_disk_size = 0, ec_number = 0, ec_offset = 0, ec_size = 0,
     ec_donor_number = 0, ec_donor_offset = 0, ec_donor_size = 0, ec_moved = [], ec_language = []\<rparr>"

definition deserialize_expand_config :: "string \<Rightarrow> string + expand_config" where
  "deserialize_expand_config content =
     and_then (ensure (\<not> (starts_with BOM content \<or> contains_any [CR, LF] (remove_crlf content)))
       ''authenticated expand config has invalid line endings'') (\<lambda>_.
     and_then (try_fold expand_line (expand_default, {}) (split_crlf content)) (\<lambda>(c, seen).
     and_then (try_fold (\<lambda>_ required. ensure (required \<in> seen) (''authenticated expand config is missing '' @ required)) ()
       EXPAND_REQUIRED) (\<lambda>_.
     and_then (validate_session_id (ec_session c)) (\<lambda>_. Inr c))))"

subsection \<open>What was written is what is read\<close>

definition expand_received :: "string \<Rightarrow> expand_task \<Rightarrow> expand_config" where
  "expand_received lang t =
     \<lparr>ec_session = xt_session t, ec_target = xt_target t, ec_target_mb = xt_target_mb t,
      ec_wim_engine = xt_wim_engine t, ec_borrow_from_left = xt_borrow_from_left t,
      ec_donor_target_mb = xt_donor_target_mb t, ec_disk = xt_disk t, ec_disk_size = xt_disk_size t,
      ec_number = xt_number t, ec_offset = xt_offset t, ec_size = xt_size t, ec_donor_number = xt_donor_number t,
      ec_donor_offset = xt_donor_offset t, ec_donor_size = xt_donor_size t, ec_moved = xt_moved t, ec_language = lang\<rparr>"

lemma decimal_show [simp]: "decimal (show_word n) f = Inr n"
  by (simp add: decimal_def)

lemma show_word_digits: "list_all is_digit (show_word n)"
  by (simp add: show_word_def show_nat_digits)

lemma show_word_no_sign [simp]: "CHR '':'' \<notin> set (show_word n)" "CHR '';'' \<notin> set (show_word n)"
  using show_word_digits [of n] by (auto simp: list_all_iff is_digit_def)

lemma split_on_plain: "d \<notin> set l \<Longrightarrow> split_on d l = [l]"
  by (induction l) auto

lemma show_moved_read: "parse_moved_item key (show_moved m) = Inr m"
  by (cases m) (simp add: parse_moved_item_def show_moved_def split_on_line split_on_plain)

lemma show_moved_no_sign: "CHR '';'' \<notin> set (show_moved m)"
  by (cases m) (simp add: show_moved_def)

lemma split_on_join: "ws \<noteq> [] \<Longrightarrow> list_all (\<lambda>w. d \<notin> set w) ws \<Longrightarrow> split_on d (join_words [d] ws) = ws"
  by (induction "[d]" ws rule: join_words.induct) (simp_all add: split_on_line split_on_plain)

lemma moved_read:
  assumes "ms \<noteq> []" and "length ms \<le> 8"
  shows "parse_moved key (join_words '';'' (map show_moved ms)) = Inr ms"
proof -
  have "split_on CHR '';'' (join_words '';'' (map show_moved ms)) = map show_moved ms"
    using assms(1) show_moved_no_sign by (intro split_on_join) (simp_all add: list_all_iff)
  moreover have "try_fold (\<lambda>moved item. and_then (parse_moved_item key item) (\<lambda>m. Inr (moved @ [m]))) acc (map show_moved ms) =
      Inr (acc @ ms)" for acc
    by (induction ms arbitrary: acc) (simp_all add: show_moved_read)
  ultimately show ?thesis using assms by (simp add: parse_moved_def)
qed

lemma show_moved_printable: "list_all printable (show_moved m)"
  by (cases m) (simp add: show_moved_def, simp add: printable_def)

lemma join_printable: "list_all printable d \<Longrightarrow> list_all (list_all printable) ws \<Longrightarrow> list_all printable (join_words d ws)"
  by (induction d ws rule: join_words.induct) simp_all

lemma moved_text_printable: "list_all printable (join_words '';'' (map show_moved ms))"
proof (rule join_printable)
  show "list_all (list_all printable) (map show_moved ms)"
    by (induction ms) (simp_all add: show_moved_printable)
qed (simp add: printable_def)

lemma expand_line_pair:
  assumes "k \<noteq> []" "CHR ''='' \<notin> set k" "hd k \<noteq> CHR ''[''" "trim v = v" "k \<notin> seen"
  shows "expand_line (c, seen) (line_of (k, v)) = and_then (expand_field k v c) (\<lambda>c. Inr (c, insert k seen))"
proof -
  have "line_of (k, v) \<noteq> ''[Expand]''" "line_of (k, v) \<noteq> ''[HandoffManifest]''" "line_of (k, v) \<noteq> []"
    using assms(1,3) by (cases k; simp add: line_of_def)+
  then show ?thesis
    using assms split_once_append [of "CHR ''=''" k v] by (simp add: expand_line_def) (simp add: line_of_def)
qed

definition expand_pair :: "expand_config \<Rightarrow> string \<times> string \<Rightarrow> string + expand_config" where
  "expand_pair c p = expand_field (fst p) (snd p) c"

lemma expand_lines_pairs:
  assumes "keyed ps" and "list_all (\<lambda>p. trim (snd p) = snd p) ps" and "distinct (map fst ps)"
    and "set (map fst ps) \<inter> seen = {}"
  shows "try_fold expand_line (c, seen) (map line_of ps) =
    and_then (try_fold expand_pair c ps) (\<lambda>c. Inr (c, seen \<union> set (map fst ps)))"
  using assms
proof (induction ps arbitrary: c seen)
  case (Cons p ps)
  obtain k v where p: "p = (k, v)" by fastforce
  have "expand_line (c, seen) (line_of (k, v)) = and_then (expand_field k v c) (\<lambda>c. Inr (c, insert k seen))"
    using Cons.prems by (intro expand_line_pair) (auto simp: p pair_key_def)
  moreover have "try_fold expand_line (c', insert k seen) (map line_of ps) =
      and_then (try_fold expand_pair c' ps) (\<lambda>c. Inr (c, insert k seen \<union> set (map fst ps)))" for c'
    using Cons.prems by (intro Cons.IH) (auto simp: p)
  moreover have "expand_pair c (k, v) = expand_field k v c" by (simp add: expand_pair_def)
  ultimately show ?case
    by (cases "expand_field k v c") (simp_all add: p)
qed simp

lemma expand_pairs_read:
  assumes "xt_wim_engine t \<le> 1" and "length (xt_moved t) \<le> 8"
  shows "try_fold expand_pair expand_default (expand_pairs t @ moved_pairs t @ [(''Language'', lang)] @ binding_pairs b) =
    Inr (expand_received lang t)"
proof -
  have bool: "show_bool a = ''true'' \<longleftrightarrow> a" "show_bool a = ''false'' \<longleftrightarrow> \<not> a" for a
    by (simp_all add: show_bool_def)
  have base: "try_fold expand_pair expand_default (expand_pairs t) = Inr (expand_received [] (t\<lparr>xt_moved := []\<rparr>))"
    using assms(1) by (simp add: expand_pairs_def expand_pair_def expand_field_def expand_default_def
        expand_received_def bool not_less)
  have moved: "try_fold expand_pair (expand_received [] (t\<lparr>xt_moved := []\<rparr>)) (moved_pairs t) = Inr (expand_received [] t)"
    using assms(2) moved_read [of "xt_moved t"]
    by (cases "xt_moved t = []") (simp_all add: moved_pairs_def expand_pair_def expand_field_def expand_received_def)
  have "try_fold expand_pair (expand_received [] t) ((''Language'', lang) # binding_pairs b) = Inr (expand_received lang t)"
    by (simp add: binding_pairs_def expand_pair_def expand_field_def expand_received_def)
  with base moved show ?thesis by (simp add: try_fold_append)
qed

lemma expand_written_keys:
  "keyed (expand_pairs t @ moved_pairs t @ [(''Language'', lang)] @ binding_pairs b)"
  "distinct (map fst (expand_pairs t @ moved_pairs t @ [(''Language'', lang)] @ binding_pairs b))"
  "list_all (\<lambda>k. k \<in> set (map fst (expand_pairs t @ moved_pairs t @ [(''Language'', lang)] @ binding_pairs b))) EXPAND_REQUIRED"
  by (cases "xt_moved t = []"; simp add: expand_pairs_def moved_pairs_def binding_pairs_def EXPAND_REQUIRED_def pair_key_def
      printable_def)+

lemma expand_written_lines:
  assumes "plain_line (xt_session t)" "plain_line (xt_target t)" "plain_line lang"
  shows "list_all plain_line (map line_of (expand_pairs t @ moved_pairs t @ [(''Language'', lang)] @ binding_pairs b))"
proof -
  have "plain_line (join_words '';'' (map show_moved (xt_moved t)))"
    by (intro printable_line moved_text_printable)
  moreover have "plain_pairs (binding_pairs b)" by (rule binding_plain)
  ultimately have "plain_pairs (expand_pairs t @ moved_pairs t @ [(''Language'', lang)] @ binding_pairs b)"
    using assms by (simp add: expand_pairs_def moved_pairs_def)
  then show ?thesis by (simp add: plain_pairs_def)
qed

lemma expand_text_lines:
  "expand_config_text lang b t =
     crlf_text (''[Expand]'' # map line_of (expand_pairs t @ moved_pairs t @ [(''Language'', lang)] @ binding_pairs b))"
  by (simp add: expand_config_text_def binding_lines pair_lines_def crlf_text_def)

lemma expand_content_read:
  assumes "validate_session_id (xt_session t) = Inr s" and "plain_line (xt_target t)" and "trim (xt_target t) = xt_target t"
    and "plain_line lang" and "trim lang = lang" and "xt_wim_engine t \<le> 1" and "length (xt_moved t) \<le> 8"
  shows "deserialize_expand_config (expand_config_text lang b t) = Inr (expand_received lang t)"
proof -
  let ?ps = "expand_pairs t @ moved_pairs t @ [(''Language'', lang)] @ binding_pairs b"
  have "list_all is_lower_hex (xt_session t)"
    using assms(1) by (auto simp: validate_session_id_def split: if_splits)
  then have session: "list_all printable (xt_session t)" by (rule lower_hex_printable_list)
  then have lines: "list_all plain_line (''[Expand]'' # map line_of ?ps)"
    using expand_written_lines [of t lang b] assms(2,4) printable_line by simp
  have "trim (join_words '';'' (map show_moved (xt_moved t))) = join_words '';'' (map show_moved (xt_moved t))"
    by (intro trim_printable moved_text_printable)
  moreover have "trim (show_u64 (mb_length b)) = show_u64 (mb_length b)" "trim (encode_hex (mb_sha256 b)) = encode_hex (mb_sha256 b)"
    "trim ''1'' = ''1''"
    by (simp_all add: show_u64_def encode_hex_def trim_printable printable_def)
  ultimately have trimmed: "list_all (\<lambda>p. trim (snd p) = snd p) ?ps"
    using assms(3,5) trim_printable [OF session] by (simp add: expand_pairs_def moved_pairs_def binding_pairs_def)
  have "try_fold expand_line (expand_default, {}) (map line_of ?ps) = Inr (expand_received lang t, set (map fst ?ps))"
    using expand_lines_pairs [OF expand_written_keys(1) trimmed expand_written_keys(2), of "{}" expand_default]
    unfolding expand_pairs_read [OF assms(6,7)] by simp
  moreover have "expand_line st ''[Expand]'' = Inr st" "expand_line st [] = Inr st" for st
    by (simp_all add: expand_line_def split: prod.splits)
  ultimately have fold: "try_fold expand_line (expand_default, {}) (split_crlf (expand_config_text lang b t)) =
      Inr (expand_received lang t, set (map fst ?ps))"
    unfolding expand_text_lines split_crlf_text [OF lines] by (simp only: append_Cons try_fold.simps try_fold_append and_then_simps)
  have endings: "\<not> starts_with BOM (expand_config_text lang b t)" "\<not> contains_any [CR, LF] (remove_crlf (expand_config_text lang b t))"
  proof -
    show "\<not> starts_with BOM (expand_config_text lang b t)"
      unfolding expand_text_lines by (simp add: BOM_def starts_with_iff)
    have "plain_line (concat ls)" if "list_all plain_line ls" for ls
      using that by (induction ls) simp_all
    from this [OF lines] show "\<not> contains_any [CR, LF] (remove_crlf (expand_config_text lang b t))"
      unfolding expand_text_lines remove_crlf_text [OF lines] by (auto simp: contains_any_iff plain_line_def)
  qed
  have required: "try_fold (\<lambda>_ required. ensure (required \<in> set (map fst ?ps)) (m @ required)) () ks = Inr ()"
    if "list_all (\<lambda>k. k \<in> set (map fst ?ps)) ks" for ks m
    using that by (induction ks) simp_all
  have "validate_session_id (ec_session (expand_received lang t)) = Inr s"
    using assms(1) by (simp add: expand_received_def)
  moreover have "ensure (\<not> (starts_with BOM (expand_config_text lang b t) \<or>
      contains_any [CR, LF] (remove_crlf (expand_config_text lang b t))))
      ''authenticated expand config has invalid line endings'' = Inr ()"
    using endings by simp
  ultimately show ?thesis
    by (simp only: deserialize_expand_config_def fold required [OF expand_written_keys(3)] and_then_simps prod.case)
qed

subsection \<open>What the analysis offers\<close>

definition data_volume :: "expand_env \<Rightarrow> physical_disk \<Rightarrow> disk_partition \<Rightarrow> bool" where
  "data_volume env d p \<longleftrightarrow> \<not> dp_esp p \<and> \<not> dp_msr p \<and> \<not> dp_recovery p \<and>
     eq_ignore_ascii_case (dp_file_system p) ''NTFS'' \<and>
     (pd_style d = StyleMbr \<longrightarrow> eq_ignore_ascii_case (dp_type p) ''0x07'') \<and>
     (\<exists>c. dp_letter p = Some c \<and> \<not> xe_encrypted env (scalar_upper c))"

definition carriable :: "expand_env \<Rightarrow> physical_disk \<Rightarrow> disk_partition \<Rightarrow> bool" where
  "carriable env d p \<longleftrightarrow> data_volume env d p \<or>
     (dp_recovery p \<and> \<not> dp_esp p \<and> \<not> dp_msr p \<and> pd_style d = StyleGpt)"

definition identity_of :: "disk_partition \<Rightarrow> u32 \<times> u64 \<times> u64" where
  "identity_of p = (dp_number p, dp_offset p, dp_size p)"

text \<open>
  An option carries the first \<open>k\<close> partitions behind the target as they are and takes space from the next: what
  the donor's file system gives up leaves it 2 GiB of its free space, and the unallocated space behind it ends
  where the next partition begins and where the disk ends.
\<close>

definition offered :: "expand_env \<Rightarrow> physical_disk \<Rightarrow> disk_partition list \<Rightarrow> u64 \<Rightarrow> u64 \<Rightarrow> nat \<Rightarrow> move_donor \<Rightarrow> bool" where
  "offered env d behind current_mb free_behind k donor \<longleftrightarrow> k \<le> 3 \<and> k < length behind \<and>
     moved_identity donor = map identity_of (take k behind) \<and> list_all (carriable env d) (take k behind) \<and>
     (md_number donor, md_offset donor, md_size donor) = identity_of (behind ! k) \<and>
     data_volume env d (behind ! k) \<and>
     unat (md_shrinkable donor) \<le> unat (dp_free (behind ! k)) - 2147483648 \<and>
     (\<forall>q \<in> set behind. md_offset donor < dp_offset q \<longrightarrow>
        unat (md_free_after donor) \<le> unat (dp_offset q) - (unat (md_offset donor) + unat (md_size donor))) \<and>
     ((\<forall>q \<in> set behind. \<not> md_offset donor < dp_offset q) \<longrightarrow>
        unat (md_free_after donor) \<le> unat (pd_size d) - (unat (md_offset donor) + unat (md_size donor))) \<and>
     unat (md_reach_mb donor) \<le> unat current_mb +
       (unat free_behind + unat (md_free_after donor) + unat (md_shrinkable donor)) div 1048576"

lemma movable_data_letter_Inr:
  "movable_data_letter env d p = Inr l \<Longrightarrow> data_volume env d p"
  by (auto simp: movable_data_letter_def data_volume_def res_simps split: if_splits)

lemma carry_along_Inr:
  assumes "carry_along env d p = Inr m"
  shows "carriable env d p" "(mv_number m, mv_offset m, mv_size m) = identity_of p"
  using assms movable_data_letter_Inr
  by (auto simp: carry_along_def carriable_def identity_of_def res_simps split: if_splits)

lemma foldl_min_le:
  fixes a :: "'a::linorder"
  shows "foldl min a xs \<le> a \<and> (\<forall>x \<in> set xs. foldl min a xs \<le> x)"
proof (induction xs arbitrary: a)
  case (Cons x xs)
  from Cons [of "min a x"] show ?case by auto
qed simp

lemma donor_boundary_below:
  "q \<in> set behind \<Longrightarrow> dp_offset p < dp_offset q \<Longrightarrow> donor_boundary d p behind \<le> dp_offset q"
  "\<forall>q \<in> set behind. \<not> dp_offset p < dp_offset q \<Longrightarrow> donor_boundary d p behind = pd_size d"
proof -
  assume q: "q \<in> set behind" "dp_offset p < dp_offset q"
  then obtain x xs where later: "map dp_offset (filter (\<lambda>q. dp_offset p < dp_offset q) behind) = x # xs"
    by (cases "map dp_offset (filter (\<lambda>q. dp_offset p < dp_offset q) behind)") (auto simp: filter_empty_conv)
  have "dp_offset q \<in> set (x # xs)"
    unfolding later [symmetric] using q by simp
  then show "donor_boundary d p behind \<le> dp_offset q"
    using foldl_min_le [of x xs] unfolding donor_boundary_def Let_def later by auto
next
  assume "\<forall>q \<in> set behind. \<not> dp_offset p < dp_offset q"
  then have "filter (\<lambda>q. dp_offset p < dp_offset q) behind = []" by (simp add: filter_empty_conv)
  then show "donor_boundary d p behind = pd_size d" by (simp add: donor_boundary_def)
qed

lemma whole_mib_le: "unat (x div PART_MIB * PART_MIB) \<le> unat (x :: u64)"
proof -
  have "unat (x div PART_MIB * PART_MIB) = unat (x div PART_MIB) * unat PART_MIB mod 2 ^ 64"
    by (simp add: unat_word_ariths)
  also have "\<dots> \<le> unat (x div PART_MIB) * unat PART_MIB" by simp
  also have "\<dots> \<le> unat x" by (simp add: unat_div_distrib PART_MIB_def)
  finally show ?thesis .
qed

lemma reserve_spared:
  "unat (saturating_sub free (max (2 * 1024 * PART_MIB) x)) \<le> unat (free :: u64) - 2147483648"
proof -
  have "unat (2 * 1024 * PART_MIB) = 2147483648" by (simp add: PART_MIB_def)
  moreover have "unat (2 * 1024 * PART_MIB) \<le> unat (max (2 * 1024 * PART_MIB) x)"
    by (simp only: word_le_nat_alt [symmetric] max.cobounded1)
  ultimately show ?thesis by (simp only: unat_saturating_sub diff_le_mono2)
qed

lemma shrinkable_le:
  fixes room :: u64 and limit :: "string + u64"
  shows "unat ((case limit of Inl _ \<Rightarrow> room div 2 | Inr r \<Rightarrow> min r room) div PART_MIB * PART_MIB) \<le> unat room"
proof -
  have "unat (room div 2) \<le> unat room" by (simp add: unat_div_distrib)
  moreover have "unat (min r room) \<le> unat room" for r by (simp add: word_le_nat_alt [symmetric])
  ultimately have "unat (case limit of Inl _ \<Rightarrow> room div 2 | Inr r \<Rightarrow> min r room) \<le> unat room"
    by (cases limit) simp_all
  with whole_mib_le show ?thesis by (rule order_trans)
qed

lemma plan_move_donor_Inr:
  assumes "plan_move_donor env d p behind = Inr donor"
  shows "data_volume env d p" "(md_number donor, md_offset donor, md_size donor) = identity_of p"
    and "unat (md_shrinkable donor) \<le> unat (dp_free p) - 2147483648"
    and "unat (md_free_after donor) = unat (donor_boundary d p behind) - (unat (dp_offset p) + unat (dp_size p))"
proof -
  obtain l where l: "movable_data_letter env d p = Inr l" and donor: "donor = \<lparr>md_number = dp_number p, md_offset = dp_offset p,
      md_size = dp_size p, md_letter = l, md_shrinkable = (case xe_reclaimable env l of
             Inr reclaimable \<Rightarrow> min reclaimable (saturating_sub (dp_free p) (max (2 * 1024 * PART_MIB) (dp_size p div 20)))
           | Inl _ \<Rightarrow> saturating_sub (dp_free p) (max (2 * 1024 * PART_MIB) (dp_size p div 20)) div 2) div PART_MIB * PART_MIB,
      md_free_after = saturating_sub (donor_boundary d p behind) (saturating_add (dp_offset p) (dp_size p)),
      md_moved = [], md_reach_mb = 0\<rparr>"
    using assms unfolding plan_move_donor_def Let_def and_then_Inr_iff by (metis Inr_inject)
  show "data_volume env d p" using l by (rule movable_data_letter_Inr)
  show "(md_number donor, md_offset donor, md_size donor) = identity_of p" by (simp add: donor identity_of_def)
  show "unat (md_shrinkable donor) \<le> unat (dp_free p) - 2147483648"
    unfolding donor move_donor.select_convs by (rule order_trans [OF shrinkable_le reserve_spared])
  show "unat (md_free_after donor) = unat (donor_boundary d p behind) - (unat (dp_offset p) + unat (dp_size p))"
    using unsigned_less [of "donor_boundary d p behind", where 'a=nat] by (simp add: donor word_facts)
qed

lemma reach_of_le:
  "unat (reach_of current_mb free_behind donor) \<le> unat current_mb +
    (unat free_behind + unat (md_free_after donor) + unat (md_shrinkable donor)) div 1048576"
proof -
  let ?x = "saturating_add (saturating_add free_behind (md_free_after donor)) (md_shrinkable donor)"
  have "unat ?x \<le> unat free_behind + unat (md_free_after donor) + unat (md_shrinkable donor)"
    by (simp add: word_facts)
  then have "unat (?x div PART_MIB) \<le> (unat free_behind + unat (md_free_after donor) + unat (md_shrinkable donor)) div 1048576"
    by (simp add: unat_div_distrib PART_MIB_def div_le_mono)
  then show ?thesis by (simp add: reach_of_def word_facts)
qed

lemma donor_is_offered:
  assumes plan: "plan_move_donor env d p behind = Inr donor" and behind: "behind = front @ p # rest" and "length front \<le> 3"
    and carried: "map (\<lambda>m. (mv_number m, mv_offset m, mv_size m)) carried = map identity_of front"
    and movable: "list_all (carriable env d) front"
    and reach: "donor' = donor\<lparr>md_moved := carried, md_reach_mb := r\<rparr>" "r = reach_of current_mb free_behind donor"
  shows "offered env d behind current_mb free_behind (length front) donor'"
  unfolding offered_def
proof (intro conjI ballI impI)
  note p = plan_move_donor_Inr [OF plan]
  have k: "behind ! length front = p" "take (length front) behind = front" by (simp_all add: behind)
  have off: "md_offset donor = dp_offset p" "md_size donor = dp_size p" using p(2) by (simp_all add: identity_of_def)
  show "length front \<le> 3" "length front < length behind" using assms(3) by (simp_all add: behind)
  show "moved_identity donor' = map identity_of (take (length front) behind)"
    by (simp add: k moved_identity_def reach carried)
  show "list_all (carriable env d) (take (length front) behind)" by (simp add: k movable)
  show "(md_number donor', md_offset donor', md_size donor') = identity_of (behind ! length front)"
    using p(2) by (simp add: k reach)
  show "data_volume env d (behind ! length front)" by (simp add: k p(1))
  show "unat (md_shrinkable donor') \<le> unat (dp_free (behind ! length front)) - 2147483648"
    using p(3) by (simp add: k reach)
  show "unat (md_reach_mb donor') \<le> unat current_mb +
      (unat free_behind + unat (md_free_after donor') + unat (md_shrinkable donor')) div 1048576"
    using reach_of_le [of current_mb free_behind donor] by (simp add: reach)
  show "unat (md_free_after donor') \<le> unat (dp_offset q) - (unat (md_offset donor') + unat (md_size donor'))"
    if "q \<in> set behind" "md_offset donor' < dp_offset q" for q
    using donor_boundary_below(1) [OF that(1), of p d] that(2) p(4) off by (simp add: reach word_le_nat_alt diff_le_mono)
  show "unat (md_free_after donor') \<le> unat (pd_size d) - (unat (md_offset donor') + unat (md_size donor'))"
    if "\<forall>q \<in> set behind. \<not> md_offset donor' < dp_offset q"
    using donor_boundary_below(2) [of behind p d] that p(4) off by (simp add: reach)
qed

definition rising :: "u64 \<Rightarrow> move_donor list \<Rightarrow> bool" where
  "rising no_move_max_mb options \<longleftrightarrow> sorted_wrt (\<lambda>a b. md_reach_mb a < md_reach_mb b) options \<and>
     list_all (\<lambda>o'. saturating_add no_move_max_mb 1024 < md_reach_mb o') options"

lemma rising_snoc:
  assumes "rising m options" and "saturating_add m 1024 < md_reach_mb donor"
    and "options = [] \<or> md_reach_mb (last options) < md_reach_mb donor"
  shows "rising m (options @ [donor])"
proof -
  have "md_reach_mb o' < md_reach_mb donor" if "o' \<in> set options" for o'
  proof (cases "o' = last options")
    case False
    have "options = butlast options @ [last options]" using that by (intro append_butlast_last_id [symmetric]) auto
    moreover have "o' \<in> set (butlast options)"
      using that False by (metis append_butlast_last_id empty_iff empty_set in_set_conv_decomp rotate1.simps(2) set_ConsD set_rotate1)
    moreover have "sorted_wrt (\<lambda>a b. md_reach_mb a < md_reach_mb b) options" using assms(1) by (simp add: rising_def)
    ultimately have "md_reach_mb o' < md_reach_mb (last options)" by (metis sorted_wrt_append list.set_intros(1))
    moreover have "options \<noteq> []" using that by auto
    ultimately show ?thesis using assms(3) by (auto intro: order.strict_trans)
  qed (use that assms(3) in auto)
  with assms show ?thesis by (auto simp: rising_def sorted_wrt_append list_all_iff)
qed

lemma scan_behind_sound:
  assumes "behind = front @ ps @ rest" "length front + length ps \<le> 4"
    and "map (\<lambda>m. (mv_number m, mv_offset m, mv_size m)) carried = map identity_of front"
    and "list_all (carriable env d) front"
    and "\<forall>o' \<in> set options. \<exists>k. offered env d behind current_mb free_behind k o'" "rising m options"
  shows "(\<forall>o' \<in> set (fst (scan_behind env d behind current_mb free_behind m ps carried options)).
      \<exists>k. offered env d behind current_mb free_behind k o') \<and>
    rising m (fst (scan_behind env d behind current_mb free_behind m ps carried options))"
  using assms
proof (induction ps arbitrary: front carried options)
  case (Cons p ps)
  let ?options = "offer env d behind current_mb free_behind m p carried options"
  have options: "(\<forall>o' \<in> set ?options. \<exists>k. offered env d behind current_mb free_behind k o') \<and> rising m ?options"
  proof (cases "plan_move_donor env d p behind")
    case (Inr donor)
    let ?donor = "donor\<lparr>md_moved := carried, md_reach_mb := reach_of current_mb free_behind donor\<rparr>"
    have "offered env d behind current_mb free_behind (length front) ?donor"
      by (rule donor_is_offered [OF Inr _ _ Cons.prems(3,4) refl refl]) (use Cons.prems(1,2) in auto)
    moreover have "reach_of current_mb free_behind (donor\<lparr>md_moved := carried\<rparr>) = reach_of current_mb free_behind donor"
      by (simp add: reach_of_def)
    ultimately show ?thesis
      using Cons.prems(5,6) rising_snoc [OF Cons.prems(6), of ?donor] Inr
      by (auto simp: offer_def Let_def)
  qed (use Cons.prems(5,6) in \<open>simp add: offer_def\<close>)
  show ?case
  proof (cases "carry_along env d p")
    case (Inr moved)
    have "(\<forall>o' \<in> set (fst (scan_behind env d behind current_mb free_behind m ps (carried @ [moved]) ?options)).
        \<exists>k. offered env d behind current_mb free_behind k o') \<and>
      rising m (fst (scan_behind env d behind current_mb free_behind m ps (carried @ [moved]) ?options))"
      using Cons.prems options carry_along_Inr [OF Inr] by (intro Cons.IH [of "front @ [p]"]) auto
    then show ?thesis by (simp add: Inr Let_def)
  qed (use options in \<open>simp add: Let_def\<close>)
qed simp

lemma analysis_options_sound:
  assumes "find_target (scalar_upper letter) disks = Some (d, target)"
  defines "behind \<equiv> partitions_behind d target" and "target_end \<equiv> saturating_add (dp_offset target) (dp_size target)"
  defines "free_behind \<equiv> case behind of [] \<Rightarrow> saturating_sub (pd_size d) target_end | p # _ \<Rightarrow> saturating_sub (dp_offset p) target_end"
  shows "\<forall>o' \<in> set (xa_options (analyze_expand_partition env disks letter)).
      \<exists>k. offered env d behind (dp_size target div PART_MIB) free_behind k o'"
    and "rising (xa_no_move_max_mb (analyze_expand_partition env disks letter)) (xa_options (analyze_expand_partition env disks letter))"
    and "xa_no_move_max_mb (analyze_expand_partition env disks letter) =
      saturating_add (dp_size target div PART_MIB) (free_behind div PART_MIB)"
proof -
  let ?m = "saturating_add (dp_size target div PART_MIB) (free_behind div PART_MIB)"
  let ?scan = "scan_behind env d behind (dp_size target div PART_MIB) free_behind ?m (take (MAX_MOVED_PARTITIONS + 1) behind) [] []"
  have a: "xa_options (analyze_expand_partition env disks letter) = fst ?scan"
    "xa_no_move_max_mb (analyze_expand_partition env disks letter) = ?m"
    unfolding analyze_expand_partition_def analyze_target_def Let_def assms(1) option.case prod.case behind_def
      free_behind_def target_end_def
    by (simp_all add: split_beta)
  have "(\<forall>o' \<in> set (fst ?scan). \<exists>k. offered env d behind (dp_size target div PART_MIB) free_behind k o') \<and> rising ?m (fst ?scan)"
    by (rule scan_behind_sound [where front = "[]" and rest = "drop (MAX_MOVED_PARTITIONS + 1) behind"])
      (simp_all add: MAX_MOVED_PARTITIONS_def rising_def)
  then show "\<forall>o' \<in> set (xa_options (analyze_expand_partition env disks letter)).
      \<exists>k. offered env d behind (dp_size target div PART_MIB) free_behind k o'"
    "rising (xa_no_move_max_mb (analyze_expand_partition env disks letter)) (xa_options (analyze_expand_partition env disks letter))"
    by (simp_all add: a)
  show "xa_no_move_max_mb (analyze_expand_partition env disks letter) = ?m" by (rule a(2))
qed

text \<open>What a confirmed task is entitled to, in terms of the disk that was analysed.\<close>

definition expansion_justified :: "expand_env \<Rightarrow> expand_request \<Rightarrow> physical_disk \<Rightarrow> disk_partition \<Rightarrow> expand_task \<Rightarrow> bool" where
  "expansion_justified env r d target t \<longleftrightarrow>
     (let behind = partitions_behind d target;
          target_end = saturating_add (dp_offset target) (dp_size target);
          free_behind = (case behind of [] \<Rightarrow> saturating_sub (pd_size d) target_end
            | p # _ \<Rightarrow> saturating_sub (dp_offset p) target_end);
          current_mb = dp_size target div PART_MIB in
      xt_disk t = pd_number d \<and> xt_disk_size t = pd_size d \<and> xt_number t = dp_number target \<and>
      (xt_number t, xt_offset t, xt_size t) \<in> identity_of ` set (pd_partitions d) \<and>
      current_mb \<le> xt_target_mb t \<and>
      saturating_add (dp_used target div PART_MIB) (xr_minimum_free_mb r) \<le> xt_target_mb t \<and>
      xt_target_mb t = xr_target_mb r \<and> \<not> xt_borrow_from_left t \<and> xt_donor_target_mb t = 0 \<and>
      (unat (xt_target_mb t) \<le> unat current_mb + unat free_behind div 1048576 \<and> xt_donor_number t = 0 \<and>
         xt_donor_offset t = 0 \<and> xt_donor_size t = 0 \<and> xt_moved t = [] \<or>
       (\<exists>k donor. offered env d behind current_mb free_behind k donor \<and> xt_target_mb t \<le> md_reach_mb donor \<and>
         (xt_donor_number t, xt_donor_offset t, xt_donor_size t) = identity_of (behind ! k) \<and>
         xt_moved t = map identity_of (take k behind) \<and>
         (xr_donor_number r, xr_donor_offset r, xr_donor_size r, xr_moved r) =
           (xt_donor_number t, xt_donor_offset t, xt_donor_size t, xt_moved t))))"

lemma confirm_expansion_Inr:
  assumes "confirm_expansion fresh r session = Inr t"
  obtains donor disk p where "confirmed_donor fresh r = Inr donor" "xa_disk fresh = Some disk"
    "find (\<lambda>p. pp_number p = xa_number fresh) (dk_partitions disk) = Some p" "\<not> layout_changed fresh r"
    "require_supported_plan r = Inr ()"
    "max (xa_current_mb fresh) (saturating_add (xa_used_mb fresh) (xr_minimum_free_mb r)) \<le> xr_target_mb r"
    "xr_target_mb r \<le> (case donor of None \<Rightarrow> xa_no_move_max_mb fresh | Some d \<Rightarrow> md_reach_mb d)"
    "t = \<lparr>xt_session = session, xt_target = scalar_text (scalar_upper (xr_target r)) @ '':'',
         xt_target_mb = xr_target_mb r, xt_wim_engine = xr_wim_engine r, xt_borrow_from_left = False,
         xt_donor_target_mb = 0, xt_disk = dk_number disk, xt_disk_size = dk_size disk, xt_number = pp_number p,
         xt_offset = pp_offset p, xt_size = pp_size p,
         xt_donor_number = (case donor of None \<Rightarrow> 0 | Some d \<Rightarrow> md_number d),
         xt_donor_offset = (case donor of None \<Rightarrow> 0 | Some d \<Rightarrow> md_offset d),
         xt_donor_size = (case donor of None \<Rightarrow> 0 | Some d \<Rightarrow> md_size d),
         xt_moved = (case donor of None \<Rightarrow> [] | Some d \<Rightarrow> moved_identity d)\<rparr>"
proof -
  let ?minimum = "max (xa_current_mb fresh) (saturating_add (xa_used_mb fresh) (xr_minimum_free_mb r))"
  from assms obtain u donor disk p where *: "require_supported_plan r = Inr u" "\<not> layout_changed fresh r"
    "confirmed_donor fresh r = Inr donor" "xa_disk fresh = Some disk"
    "\<not> (xr_target_mb r < ?minimum \<or>
       (case donor of None \<Rightarrow> xa_no_move_max_mb fresh | Some d \<Rightarrow> md_reach_mb d) < xr_target_mb r)"
    "find (\<lambda>p. pp_number p = xa_number fresh) (dk_partitions disk) = Some p" and t: "(Inr \<lparr>xt_session = session,
         xt_target = scalar_text (scalar_upper (xr_target r)) @ '':'',
         xt_target_mb = xr_target_mb r, xt_wim_engine = xr_wim_engine r, xt_borrow_from_left = False,
         xt_donor_target_mb = 0, xt_disk = dk_number disk, xt_disk_size = dk_size disk, xt_number = pp_number p,
         xt_offset = pp_offset p, xt_size = pp_size p,
         xt_donor_number = (case donor of None \<Rightarrow> 0 | Some d \<Rightarrow> md_number d),
         xt_donor_offset = (case donor of None \<Rightarrow> 0 | Some d \<Rightarrow> md_offset d),
         xt_donor_size = (case donor of None \<Rightarrow> 0 | Some d \<Rightarrow> md_size d),
         xt_moved = (case donor of None \<Rightarrow> [] | Some d \<Rightarrow> moved_identity d)\<rparr> :: handoff_error + expand_task) = Inr t"
    unfolding confirm_expansion_def Let_def and_then_Inr_iff ensure_Inr_iff ok_or_Inr_iff
    by blast
  have u: "u = ()" by simp
  have bounds: "?minimum \<le> xr_target_mb r"
    "xr_target_mb r \<le> (case donor of None \<Rightarrow> xa_no_move_max_mb fresh | Some d \<Rightarrow> md_reach_mb d)"
    using *(5) unfolding de_Morgan_disj not_less by simp_all
  show thesis by (rule that [OF *(3,4,6,2) *(1) [unfolded u] bounds t [THEN Inr_inject, symmetric]])
qed

lemma analyze_target_facts:
  assumes "find_target (scalar_upper letter) disks = Some (d, target)"
  shows "xa_disk (analyze_expand_partition env disks letter) = Some (disk_print_of (xe_snapshot env) d)"
    "xa_number (analyze_expand_partition env disks letter) = dp_number target"
    "xa_current_mb (analyze_expand_partition env disks letter) = dp_size target div PART_MIB"
    "xa_used_mb (analyze_expand_partition env disks letter) = dp_used target div PART_MIB"
  by (simp_all add: analyze_expand_partition_def analyze_target_def assms Let_def split_beta)

text \<open>C15. A confirmed expansion is justified by the disk as it was found when the request was executed. The task names
  the analysed disk and a partition of it with the target's number, does not shrink the volume and leaves the requested free space. Either the
  unallocated space behind the volume is enough and no donor is named; or the donor is the \<open>k\<close>-th partition behind
  the target with \<open>k \<le> 3\<close>, it and the \<open>k\<close> partitions carried along are data volumes without BitLocker or, on a GPT
  disk, recovery partitions, they are exactly those the user was shown, and the size asked for is within what the
  donor's free space and the unallocated space around it can give.\<close>

theorem confirmed_expansion_is_justified:
  assumes "confirm_expansion (analyze_expand_partition env disks letter) r session = Inr t"
  shows "\<exists>d target. find_target (scalar_upper letter) disks = Some (d, target) \<and> expansion_justified env r d target t"
proof -
  let ?fresh = "analyze_expand_partition env disks letter"
  obtain donor disk p where donor: "confirmed_donor ?fresh r = Inr donor" and disk: "xa_disk ?fresh = Some disk"
    and p: "find (\<lambda>p. pp_number p = xa_number ?fresh) (dk_partitions disk) = Some p"
    and same: "\<not> layout_changed ?fresh r"
    and lower: "max (xa_current_mb ?fresh) (saturating_add (xa_used_mb ?fresh) (xr_minimum_free_mb r)) \<le> xr_target_mb r"
    and upper: "xr_target_mb r \<le> (case donor of None \<Rightarrow> xa_no_move_max_mb ?fresh | Some d \<Rightarrow> md_reach_mb d)"
    and t: "t = \<lparr>xt_session = session, xt_target = scalar_text (scalar_upper (xr_target r)) @ '':'',
         xt_target_mb = xr_target_mb r, xt_wim_engine = xr_wim_engine r, xt_borrow_from_left = False,
         xt_donor_target_mb = 0, xt_disk = dk_number disk, xt_disk_size = dk_size disk, xt_number = pp_number p,
         xt_offset = pp_offset p, xt_size = pp_size p,
         xt_donor_number = (case donor of None \<Rightarrow> 0 | Some d \<Rightarrow> md_number d),
         xt_donor_offset = (case donor of None \<Rightarrow> 0 | Some d \<Rightarrow> md_offset d),
         xt_donor_size = (case donor of None \<Rightarrow> 0 | Some d \<Rightarrow> md_size d),
         xt_moved = (case donor of None \<Rightarrow> [] | Some d \<Rightarrow> moved_identity d)\<rparr>"
    using assms by (rule confirm_expansion_Inr)
  have "xa_found ?fresh" using same by (simp add: layout_changed_def)
  then obtain d target where found: "find_target (scalar_upper letter) disks = Some (d, target)"
    by (cases "find_target (scalar_upper letter) disks") (auto simp: analyze_expand_partition_def Let_def analysis_default_def)
  let ?behind = "partitions_behind d target" and ?target_end = "saturating_add (dp_offset target) (dp_size target)"
  let ?free = "case ?behind of [] \<Rightarrow> saturating_sub (pd_size d) ?target_end | p # _ \<Rightarrow> saturating_sub (dp_offset p) ?target_end"
  note a = analyze_target_facts [OF found] and o = analysis_options_sound [OF found]
  have disk': "disk = disk_print_of (xe_snapshot env) d" using disk a(1) by simp
  have p': "pp_number p = dp_number target" "p \<in> set (dk_partitions disk)"
    using p a(2) unfolding find_Some_iff by auto
  then obtain q where q: "q \<in> set (pd_partitions d)" "p = partition_print_of q"
    by (auto simp: disk' disk_print_of_def)
  then have q': "(pp_number p, pp_offset p, pp_size p) \<in> identity_of ` set (pd_partitions d)"
    by (intro image_eqI [of _ _ q]) (simp_all add: identity_of_def partition_print_of_def)
  show ?thesis
  proof (cases donor)
    case None
    have "unat (xa_no_move_max_mb ?fresh) \<le> unat (dp_size target div PART_MIB) + unat ?free div 1048576"
      unfolding o(3) by (simp add: word_facts unat_div_distrib PART_MIB_def)
    then have "unat (xr_target_mb r) \<le> unat (dp_size target div PART_MIB) + unat ?free div 1048576"
      using upper unfolding None word_le_nat_alt option.case by linarith
    then show ?thesis
      using found lower p'(1) q' None a(3,4) by (auto simp: expansion_justified_def Let_def t disk' disk_print_of_def)
  next
    case (Some m)
    then have m: "same_donor r m" "m \<in> set (xa_options ?fresh)"
      using donor unfolding confirmed_donor_def by (auto simp: res_simps find_Some_iff split: if_splits)
    then obtain k where k: "offered env d ?behind (dp_size target div PART_MIB) ?free k m" using o(1) by auto
    have "(md_number m, md_offset m, md_size m) = identity_of (?behind ! k)"
      "moved_identity m = map identity_of (take k ?behind)" using k by (simp_all add: offered_def)
    then show ?thesis
      using found lower upper p'(1) q' Some a(3,4) k m(1)
      by (auto simp: expansion_justified_def Let_def t disk' disk_print_of_def same_donor_def intro!: exI [of _ k] exI [of _ m])
  qed
qed

subsection \<open>The confirmed task in the boot environment\<close>

lemma expand_pairs_printable:
  assumes "list_all printable (xt_session t)" "list_all printable (xt_target t)" "list_all printable lang"
  shows "list_all (list_all printable) (map line_of (expand_pairs t @ moved_pairs t @ [(''Language'', lang)] @ binding_pairs b))"
proof -
  have name: "list_all printable ''BorrowFromLeft''" by code_simp
  have moved: "list_all (list_all printable) (map line_of (moved_pairs t))"
    by (simp add: moved_pairs_def line_printable moved_text_printable) (simp add: line_of_def moved_text_printable printable_def)
  have "list_all printable (show_bool a)" for a by (simp add: show_bool_def printable_def)
  then show ?thesis
    using assms moved by (simp add: expand_pairs_def binding_pairs_def line_of_def show_u64_def encode_hex_def)
      (simp add: printable_def)
qed

lemma no_binding_field_first: "hd l \<noteq> CHR ''H'' \<Longrightarrow> l \<noteq> [] \<Longrightarrow> no_binding_field l"
  by (cases l) (auto simp: no_binding_field_def)

lemma expand_lines_carry_no_binding:
  "list_all no_binding_field (''[Expand]'' # map line_of (expand_pairs t @ moved_pairs t @ [(''Language'', lang)]))"
proof -
  have "list_all (\<lambda>l. l \<noteq> [] \<and> hd l \<noteq> CHR ''H'')
      (''[Expand]'' # map line_of (expand_pairs t @ moved_pairs t @ [(''Language'', lang)]))"
    by (simp add: expand_pairs_def moved_pairs_def line_of_def)
  then show ?thesis by (auto simp only: list_all_iff intro: no_binding_field_first)
qed

lemma expand_binding_read:
  assumes "list_all printable (xt_session t)" "list_all printable (xt_target t)" "list_all printable lang"
    and b: "mb_length b \<noteq> 0" "unat (mb_length b) \<le> HANDOFF_MANIFEST_MAX_BYTES" "length (mb_sha256 b) = 32"
  shows "binding_from_config_bytes (expand_config_text lang b t) = Inr b"
proof -
  let ?before = "''[Expand]'' # map line_of (expand_pairs t @ moved_pairs t @ [(''Language'', lang)])"
  let ?ls = "?before @ map line_of (binding_pairs b)"
  have config: "expand_config_text lang b t = crlf_text ?ls"
    unfolding expand_text_lines by simp
  have "list_all (list_all printable) (map line_of (expand_pairs t @ moved_pairs t @ [(''Language'', lang)] @ binding_pairs b))"
    by (rule expand_pairs_printable [OF assms(1-3)])
  then have printable: "list_all (list_all printable) ?ls" by (simp add: printable_def)
  show ?thesis
  proof (rule binding_read_from_config [where before = ?before and after = "[]"])
    show "expand_config_text lang b t = crlf_text ?before @ binding_to_config_lines b @ crlf_text []"
      by (simp add: expand_config_text_def crlf_text_def)
    show "list_all plain_line (?before @ [])"
      using printable by (auto simp only: list_all_iff append_Nil2 set_append intro: printable_line)
    show "list_all no_binding_field (?before @ [])" using expand_lines_carry_no_binding by (simp only: append_Nil2)
    show "utf8_valid (expand_config_text lang b t)" unfolding config by (rule utf8_valid_crlf_text [OF printable])
    show "\<not> starts_with BOM (expand_config_text lang b t)" unfolding config by (simp add: BOM_def starts_with_iff)
    have "NUL \<notin> set (crlf_text ls)" if "list_all (list_all printable) ls" for ls
      using that by (induction ls) (auto simp: list_all_iff printable_def)
    from this [OF printable] show "NUL \<notin> set (expand_config_text lang b t)" unfolding config .
  qed (use b in simp_all)
qed

lemma letter_printable: "scalar_alpha c \<Longrightarrow> list_all printable (scalar_text (scalar_upper c) @ '':'')"
proof -
  assume "scalar_alpha c"
  then have "65 \<le> scalar_upper c" "scalar_upper c \<le> 0x7E"
    by (auto simp: scalar_alpha_def scalar_upper_def)
  moreover from this have "printable (char_of (scalar_upper c))"
    by (simp add: printable_def)
  ultimately show ?thesis by (simp add: scalar_text_def) (simp add: printable_def)
qed

lemma manifest_new_empty: "manifest_new same_path p s d t None [] = Inr m \<Longrightarrow>
  m = \<lparr>mf_purpose = p, mf_session = s, mf_data_token = d, mf_target_token = t, mf_staging = None, mf_artifacts = []\<rparr> \<and>
  manifest_typed m"
  by (auto simp: manifest_new_def res_simps manifest_typed_def Let_def)

text \<open>What the user confirmed is what the boot environment is asked to do. If a request is confirmed and the
  hand-off is written, then the configuration reads back as exactly the confirmed task, under the session identity
  of the hand-off, and carries a binding which verifies the manifest written beside it, for an expansion of this
  session without any artifact.\<close>

theorem confirmed_expansion_reaches_pe:
  assumes confirmed: "confirm_expansion fresh r session = Inr task" and letter: "scalar_alpha (xr_target r)"
    and engine: "xr_wim_engine r \<le> 1" and moved: "length (xt_moved task) \<le> 8" and lang: "list_all printable lang"
    and sha: "\<And>bs. length (sha bs) = 32"
    and written: "prepare_expand_handoff sha same_path fresh_session token lang part data task = Inr (config, manifest_bytes)"
  shows "\<exists>s b m. s = (if session = [] then fresh_session else session) \<and>
    deserialize_expand_config config = Inr (expand_received lang (task\<lparr>xt_session := s\<rparr>)) \<and>
    binding_from_config_bytes config = Inr b \<and>
    binding_verify_for sha same_path b manifest_bytes Expand s = Inr m \<and>
    mf_data_token m = token \<and> mf_artifacts m = [] \<and> mf_staging m = None \<and> mf_target_token m = None \<and>
    length token = 64 \<and> list_all is_lower_hex token"
proof -
  let ?s = "if session = [] then fresh_session else session"
  let ?t = "task\<lparr>xt_session := ?s\<rparr>"
  have task: "xt_session task = session" "xt_target task = scalar_text (scalar_upper (xr_target r)) @ '':''"
    "xt_wim_engine task = xr_wim_engine r"
    using confirmed by (rule confirm_expansion_Inr, simp)+
  have t: "(if xt_session task = [] then task\<lparr>xt_session := fresh_session\<rparr> else task) = ?t"
    by (simp add: task)
  obtain u m b where session: "validate_session_id (xt_session ?t) = Inr u"
    and m: "manifest_new same_path Expand (xt_session ?t) token None None [] = Inr m"
    and bytes: "manifest_to_bytes same_path m = Inr manifest_bytes" and b: "binding_new sha same_path manifest_bytes = Inr b"
    and config: "config = expand_config_text lang b ?t"
    using written unfolding prepare_expand_handoff_def Let_def t and_then_Inr_iff by auto
  have "list_all is_lower_hex (xt_session ?t)"
    using session by (auto simp: validate_session_id_def split: if_splits)
  then have printable: "list_all printable (xt_session ?t)" "list_all printable (xt_target ?t)"
    using letter_printable [OF letter] by (auto intro: lower_hex_printable_list simp: task)
  have typed: "m = \<lparr>mf_purpose = Expand, mf_session = xt_session ?t, mf_data_token = token, mf_target_token = None,
      mf_staging = None, mf_artifacts = []\<rparr>" "manifest_typed m"
    using manifest_new_empty [OF m] by blast+
  have parse: "manifest_parse same_path manifest_bytes = Inr m" by (rule manifest_roundtrip [OF typed(2) bytes])
  then have b': "b = \<lparr>mb_length = of_nat (length manifest_bytes), mb_sha256 = sha manifest_bytes\<rparr>"
    using b by (simp add: binding_new_def)
  have len: "length manifest_bytes \<le> HANDOFF_MANIFEST_MAX_BYTES" "manifest_bytes \<noteq> []"
    using bytes by (auto simp: to_bytes_Inr manifest_text_def)
  then have "unat (of_nat (length manifest_bytes) :: u64) = length manifest_bytes"
    by (simp add: unat_of_nat take_bit_nat_eq_self HANDOFF_MANIFEST_MAX_BYTES_def)
  moreover from this have "mb_length b \<noteq> 0" using len(2) by (auto simp: b')
  ultimately have "binding_from_config_bytes config = Inr b"
    unfolding config using printable lang len(1) sha by (intro expand_binding_read) (simp_all add: b')
  moreover have "deserialize_expand_config config = Inr (expand_received lang ?t)"
    unfolding config
  proof (rule expand_content_read [OF session])
    show "plain_line (xt_target ?t)" "trim (xt_target ?t) = xt_target ?t"
      using printable(2) by (rule printable_line, rule trim_printable)
    show "plain_line lang" "trim lang = lang" using lang by (rule printable_line, rule trim_printable)
    show "xt_wim_engine ?t \<le> 1" using engine by (simp add: task)
    show "length (xt_moved ?t) \<le> 8" using moved by simp
  qed
  moreover have "length token = 64 \<and> list_all is_lower_hex token"
    using m by (auto simp: manifest_new_def manifest_validate_def validate_locator_token_def res_simps Let_def split: if_splits)
  moreover have "binding_verify_for sha same_path b manifest_bytes Expand ?s = Inr m"
    using session parse by (simp add: binding_verify_for_def binding_verify_def b' typed(1))
  ultimately show ?thesis by (intro exI [of _ ?s] exI [of _ b] exI [of _ m]) (simp add: typed(1))
qed

text \<open>A GPT disk with the volume C, a recovery partition behind it and then a data volume: the size asked for takes
  the recovery partition along.\<close>

definition sample_part :: "u32 \<Rightarrow> u64 \<Rightarrow> u64 \<Rightarrow> scalar option \<Rightarrow> bool \<Rightarrow> disk_partition" where
  "sample_part n off mb letter recovery =
     \<lparr>dp_number = n, dp_size = mb * PART_MIB, dp_offset = off * PART_MIB, dp_letter = letter, dp_label = [],
      dp_file_system = ''NTFS'', dp_esp = False, dp_msr = False, dp_recovery = recovery, dp_type = [],
      dp_used = mb div 2 * PART_MIB, dp_free = mb div 2 * PART_MIB, dp_active = False\<rparr>"

definition sample_expand_disk :: physical_disk where
  "sample_expand_disk = \<lparr>pd_number = 0, pd_size = 131072 * PART_MIB, pd_model = ''Disk'', pd_style = StyleGpt,
     pd_initialized = True, pd_partitions = [sample_part 1 1 40960 (Some 67) False, sample_part 2 40961 1000 None True,
       sample_part 3 41961 40960 (Some 68) False], pd_unallocated = 0\<rparr>"

definition sample_expand_env :: expand_env where
  "sample_expand_env = \<lparr>xe_encrypted = (\<lambda>_. False), xe_reclaimable = (\<lambda>_. Inr (10240 * PART_MIB)),
     xe_snapshot = (\<lambda>_. Inl [])\<rparr>"

definition sample_expand_request :: expand_request where
  "sample_expand_request = \<lparr>xr_target = 99, xr_expected_disk = None, xr_expected_number = Some 1, xr_target_mb = 50000,
     xr_use_maximum = False, xr_current_mb = 40960, xr_max_mb = 60000, xr_no_move_max_mb = 40960, xr_strict = True,
     xr_borrow_from_left = False, xr_donor_target_mb = 0, xr_requires_move = True, xr_donor_number = 3,
     xr_donor_offset = 41961 * PART_MIB, xr_donor_size = 40960 * PART_MIB, xr_moved = [(2, 40961 * PART_MIB, 1000 * PART_MIB)],
     xr_minimum_free_mb = 1024, xr_wim_engine = 0\<rparr>"

definition sample_expand_task :: expand_task where
  "sample_expand_task = \<lparr>xt_session = sample_session, xt_target = ''C:'', xt_target_mb = 50000, xt_wim_engine = 0,
     xt_borrow_from_left = False, xt_donor_target_mb = 0, xt_disk = 0, xt_disk_size = 131072 * PART_MIB, xt_number = 1,
     xt_offset = PART_MIB, xt_size = 40960 * PART_MIB, xt_donor_number = 3, xt_donor_offset = 41961 * PART_MIB,
     xt_donor_size = 40960 * PART_MIB, xt_moved = [(2, 40961 * PART_MIB, 1000 * PART_MIB)]\<rparr>"

lemma sample_target_found: "find_target (scalar_upper 99) [sample_expand_disk] = Some (sample_expand_disk, sample_part 1 1 40960 (Some 67) False)"
  by (simp add: sample_expand_disk_def has_letter_def sample_part_def scalar_eq_def scalar_upper_def)

lemma sample_behind: "partitions_behind sample_expand_disk (sample_part 1 1 40960 (Some 67) False) =
    [sample_part 2 40961 1000 None True, sample_part 3 41961 40960 (Some 68) False]"
  by (simp add: partitions_behind_def sample_expand_disk_def sample_part_def saturating_add_def PART_MIB_def)

definition sample_donor :: move_donor where
  "sample_donor = \<lparr>md_number = 3, md_offset = 41961 * PART_MIB, md_size = 40960 * PART_MIB, md_letter = 68,
     md_shrinkable = 10240 * PART_MIB, md_free_after = 48151 * PART_MIB,
     md_moved = [\<lparr>mv_number = 2, mv_offset = 40961 * PART_MIB, mv_size = 1000 * PART_MIB, mv_letter = None, mv_recovery = True\<rparr>],
     md_reach_mb = 99351\<rparr>"

lemma sample_scan:
  "scan_behind sample_expand_env sample_expand_disk
     [sample_part 2 40961 1000 None True, sample_part 3 41961 40960 (Some 68) False] 40960 0 40960
     [sample_part 2 40961 1000 None True, sample_part 3 41961 40960 (Some 68) False] [] [] = ([sample_donor], None)"
proof -
  let ?behind = "[sample_part 2 40961 1000 None True, sample_part 3 41961 40960 (Some 68) False]"
  have first: "plan_move_donor sample_expand_env sample_expand_disk (sample_part 2 40961 1000 None True) ?behind = Inl SystemPartitionBehind"
    by (simp add: plan_move_donor_def movable_data_letter_def sample_part_def)
  have second: "plan_move_donor sample_expand_env sample_expand_disk (sample_part 3 41961 40960 (Some 68) False) ?behind =
      Inr (sample_donor\<lparr>md_moved := [], md_reach_mb := 0\<rparr>)"
    by (simp add: plan_move_donor_def movable_data_letter_def sample_part_def sample_expand_env_def sample_expand_disk_def
        eq_ignore_ascii_case_def donor_boundary_def sample_donor_def saturating_add_def saturating_sub_def PART_MIB_def scalar_upper_def)
  have carry: "carry_along sample_expand_env sample_expand_disk (sample_part 2 40961 1000 None True) =
      Inr \<lparr>mv_number = 2, mv_offset = 40961 * PART_MIB, mv_size = 1000 * PART_MIB, mv_letter = None, mv_recovery = True\<rparr>"
    "is_ok (carry_along sample_expand_env sample_expand_disk (sample_part 3 41961 40960 (Some 68) False))"
    by (simp_all add: carry_along_def movable_data_letter_def sample_part_def sample_expand_env_def sample_expand_disk_def
        eq_ignore_ascii_case_def)
  from carry(2) obtain m where m: "carry_along sample_expand_env sample_expand_disk (sample_part 3 41961 40960 (Some 68) False) = Inr m"
    by (cases "carry_along sample_expand_env sample_expand_disk (sample_part 3 41961 40960 (Some 68) False)") auto
  have reach: "reach_of 40960 0 sample_donor = 99351"
    by (simp add: reach_of_def sample_donor_def saturating_add_def PART_MIB_def)
  have "reach_of 40960 0 (sample_donor\<lparr>md_moved := ms, md_reach_mb := 0\<rparr>) = reach_of 40960 0 sample_donor" for ms
    by (simp add: reach_of_def)
  then show ?thesis
    by (simp add: offer_def first second carry(1) m Let_def reach) (simp add: sample_donor_def saturating_add_def)
qed

lemma sample_confirmed:
  "confirm_expansion (analyze_expand_partition sample_expand_env [sample_expand_disk] 99) sample_expand_request sample_session =
    Inr sample_expand_task"
proof -
  let ?fresh = "analyze_expand_partition sample_expand_env [sample_expand_disk] 99"
  let ?disk = "disk_print_of (xe_snapshot sample_expand_env) sample_expand_disk"
  have sizes: "dp_size (sample_part 1 1 40960 (Some 67) False) div PART_MIB = 40960"
    "saturating_sub (dp_offset (sample_part 2 40961 1000 None True))
       (saturating_add (dp_offset (sample_part 1 1 40960 (Some 67) False)) (dp_size (sample_part 1 1 40960 (Some 67) False))) = 0"
    "saturating_add 40960 (0 div PART_MIB) = 40960" "dp_used (sample_part 1 1 40960 (Some 67) False) div PART_MIB = 20480"
    by (simp_all add: sample_part_def saturating_add_def saturating_sub_def PART_MIB_def)
  have all: "take (MAX_MOVED_PARTITIONS + 1) [a, b] = [a, b]" for a b :: disk_partition
    by (simp add: MAX_MOVED_PARTITIONS_def)
  have fresh: "xa_found ?fresh" "xa_current_mb ?fresh = 40960" "xa_no_move_max_mb ?fresh = 40960" "xa_options ?fresh = [sample_donor]"
    "xa_disk ?fresh = Some ?disk" "xa_used_mb ?fresh = 20480"
    unfolding analyze_expand_partition_def Let_def sample_target_found option.case prod.case analyze_target_def sample_behind
      list.case sizes all sample_scan
    by simp_all
  have number: "xa_number ?fresh = 1"
    unfolding analyze_target_facts(2) [OF sample_target_found] by (simp add: sample_part_def)
  have supported: "require_supported_plan sample_expand_request = Inr ()"
    by (simp add: require_supported_plan_def sample_expand_request_def PART_MIB_def)
  have same: "\<not> layout_changed ?fresh sample_expand_request"
    by (simp add: layout_changed_def fresh number) (simp add: sample_expand_request_def number)
  have donor: "confirmed_donor ?fresh sample_expand_request = Inr (Some sample_donor)"
    by (simp add: confirmed_donor_def fresh)
      (simp add: sample_expand_request_def same_donor_def sample_donor_def moved_identity_def)
  have disk: "dk_number ?disk = 0" "dk_size ?disk = 131072 * PART_MIB"
    by (simp_all add: disk_print_of_def sample_expand_disk_def)
  have "sort_key (\<lambda>p. (unat (pp_offset p), unat (pp_number p))) (map partition_print_of (pd_partitions sample_expand_disk)) =
      map partition_print_of (pd_partitions sample_expand_disk)"
    by (simp add: sample_expand_disk_def sample_part_def partition_print_of_def PART_MIB_def)
  then have p: "find (\<lambda>p. pp_number p = 1) (dk_partitions ?disk) = Some (partition_print_of (sample_part 1 1 40960 (Some 67) False))"
    by (simp add: disk_print_of_def) (simp add: sample_expand_disk_def partition_print_of_def sample_part_def)
  have room: "max 40960 (saturating_add 20480 (xr_minimum_free_mb sample_expand_request)) = 40960"
    "xr_target_mb sample_expand_request = 50000" "md_reach_mb sample_donor = 99351"
    by (simp_all add: sample_expand_request_def saturating_add_def sample_donor_def)
  have c: "char_of (67 :: nat) = CHR ''C''" by code_simp
  show ?thesis
    using same
    by (simp add: confirm_expansion_def supported donor fresh number disk p room Let_def)
      (simp add: sample_expand_task_def sample_expand_request_def sample_donor_def moved_identity_def partition_print_of_def
        sample_part_def scalar_text_def scalar_upper_def c)
qed

lemma confirmed_expansion_is_justified_witness:
  "\<exists>t. confirm_expansion (analyze_expand_partition sample_expand_env [sample_expand_disk] 99) sample_expand_request sample_session = Inr t \<and>
     xt_moved t \<noteq> [] \<and> expansion_justified sample_expand_env sample_expand_request sample_expand_disk (sample_part 1 1 40960 (Some 67) False) t"
proof -
  have "expansion_justified sample_expand_env sample_expand_request sample_expand_disk (sample_part 1 1 40960 (Some 67) False) sample_expand_task"
    using confirmed_expansion_is_justified [OF sample_confirmed] unfolding sample_target_found by simp
  with sample_confirmed show ?thesis by (auto simp: sample_expand_task_def)
qed

definition sample_empty_manifest :: manifest where
  "sample_empty_manifest = \<lparr>mf_purpose = Expand, mf_session = sample_session, mf_data_token = replicate 64 (CHR ''b''),
     mf_target_token = None, mf_staging = None, mf_artifacts = []\<rparr>"

lemma sample_expand_written:
  "\<exists>config manifest_bytes. prepare_expand_handoff sample_sha sample_same_path sample_session (replicate 64 (CHR ''b'')) ''en-US'' ''C:'' ''D:''
     sample_expand_task = Inr (config, manifest_bytes)"
proof -
  have session: "validate_session_id sample_session = Inr sample_session"
    by (simp add: validate_session_id_def sample_session_def is_lower_hex_def is_digit_def)
  have "try_fold (\<lambda>_. validate_role Expand []) () all_roles = Inr ()"
    by (simp add: try_fold_unit validate_role_Inr records_of_def)
  then have valid: "manifest_validate sample_same_path sample_empty_manifest = Inr ()"
    using session by (simp add: manifest_validate_def sample_empty_manifest_def validate_locator_token_def validate_target_token_def
        is_lower_hex_def is_digit_def list_all_iff validate_role_matrix_def records_of_def)
  then have new: "manifest_new sample_same_path Expand sample_session (replicate 64 (CHR ''b'')) None None [] = Inr sample_empty_manifest"
    by (simp add: manifest_new_def sample_empty_manifest_def Let_def)
  have texts: "show_nat 0 = ''0''" by code_simp
  have fields: "manifest_fields sample_empty_manifest =
    [(''Purpose'', ''expand''), (''SessionId'', sample_session),
     (''DataLocatorToken'', replicate 64 (CHR ''b'')), (''InstallTargetToken'', ''none''),
     (''AutoStagingPresent'', ''false''), (''ArtifactCount'', ''0'')]"
    using texts by (simp add: sample_empty_manifest_def manifest_fields_def header_fields_def staging_fields_def
        artifact_fields_def show_u64_def Let_def)
  have plain: "list_all field_ok (manifest_fields sample_empty_manifest)"
    unfolding fields by code_simp
  have "length (manifest_text sample_empty_manifest) \<le> HANDOFF_MANIFEST_MAX_BYTES"
    unfolding manifest_text_def fields
    by (simp add: crlf_text_def line_of_def HANDOFF_MANIFEST_MAGIC_def HANDOFF_MANIFEST_MAX_BYTES_def sample_session_def)
  then have bytes: "manifest_to_bytes sample_same_path sample_empty_manifest = Inr (manifest_text sample_empty_manifest)"
    using valid plain by (simp add: to_bytes_Inr sample_empty_manifest_def)
  then have "manifest_parse sample_same_path (manifest_text sample_empty_manifest) = Inr sample_empty_manifest"
    by (rule manifest_roundtrip [rotated]) (simp add: manifest_typed_def sample_empty_manifest_def)
  then have "\<exists>b. binding_new sample_sha sample_same_path (manifest_text sample_empty_manifest) = Inr b"
    by (simp add: binding_new_def)
  moreover have "validate_ini_value (k, ''C:'') = Inr ()" "validate_ini_value (k, ''D:'') = Inr ()" for k
    by (simp_all add: validate_ini_value_def contains_any_def)
  ultimately show ?thesis
    using session new bytes by (auto simp: prepare_expand_handoff_def sample_expand_task_def sample_session_def Let_def)
qed

lemma confirmed_expansion_reaches_pe_witness:
  "\<exists>config manifest_bytes. prepare_expand_handoff sample_sha sample_same_path sample_session (replicate 64 (CHR ''b'')) ''en-US'' ''C:'' ''D:''
      sample_expand_task = Inr (config, manifest_bytes) \<and>
    deserialize_expand_config config = Inr (expand_received ''en-US'' sample_expand_task)"
proof -
  obtain config manifest_bytes where w: "prepare_expand_handoff sample_sha sample_same_path sample_session (replicate 64 (CHR ''b''))
      ''en-US'' ''C:'' ''D:'' sample_expand_task = Inr (config, manifest_bytes)"
    using sample_expand_written by blast
  have "sample_expand_task\<lparr>xt_session := sample_session\<rparr> = sample_expand_task" by (simp add: sample_expand_task_def)
  moreover have "scalar_alpha (xr_target sample_expand_request)" "xr_wim_engine sample_expand_request \<le> 1"
    "length (xt_moved sample_expand_task) \<le> 8" "list_all printable ''en-US''"
    by (simp_all add: sample_expand_request_def scalar_alpha_def sample_expand_task_def printable_def)
  ultimately have "deserialize_expand_config config = Inr (expand_received ''en-US'' sample_expand_task)"
    using confirmed_expansion_reaches_pe [OF sample_confirmed _ _ _ _ sample_sha_length w] by (auto simp: sample_session_def)
  with w show ?thesis by blast
qed

end
