(* ===== verification/ImageSet.thy ===== *)
theory ImageSet
  imports InstallControl "HOL-Library.Multiset"
begin

section \<open>The files of a split image\<close>

text \<open>
  \<open>install_source_lock.rs\<close>: which files an image engine will read when it is given the first volume of a split
  image. The normal system uses it to lock and hash the source, the boot environment to compare the directory
  with the manifest, before the engine follows the numbering on its own.

  The file system is the record \<open>span_fs\<close>: the canonical path of a path, the entries of a directory (each may
  fail), whether a path is a regular file. Paths are texts; \<open>BTreeMap\<close> is an association list sorted by its key.
\<close>

subsection \<open>Paths\<close>

record span_fs =
  fs_canonical :: "string \<Rightarrow> string + string"
  fs_read_dir :: "string \<Rightarrow> string + (string + string) list"
  fs_is_file :: "string \<Rightarrow> bool"
  fs_is_regular :: "string \<Rightarrow> string + bool"

definition path_file_name :: "string \<Rightarrow> string option" where
  "path_file_name path =
     (let ws = path_components path in if ws = [] \<or> last ws \<in> {''.'', ''..''} then None else Some (last ws))"

definition path_file_stem :: "string \<Rightarrow> string option" where
  "path_file_stem path = (case path_file_name path of
     None \<Rightarrow> None
   | Some name \<Rightarrow> Some (case split_once CHR ''.'' (rev name) of
         None \<Rightarrow> name
       | Some (_, before) \<Rightarrow> if before = [] then name else rev before))"

text \<open>\<open>Path::join\<close> with a relative path, and \<open>Path::parent\<close> of a path that does not end with a separator.\<close>

definition join_path :: "string \<Rightarrow> string \<Rightarrow> string" where
  "join_path root name = (if root \<noteq> [] \<and> is_path_separator (last root) then root @ name else root @ [BSLASH] @ name)"

definition path_parent :: "string \<Rightarrow> string option" where
  "path_parent path =
     (let ws = path_components path in
      if ws = [] then None
      else (let front = take (length path - length (last ws)) path in
        Some (if path_components front = [] then front else butlast front)))"

definition extension_is :: "string \<Rightarrow> string \<Rightarrow> bool" where
  "extension_is path expected \<longleftrightarrow> some_and (path_extension path) (\<lambda>e. eq_ignore_ascii_case e expected)"

definition strip_prefix_ascii_case :: "string \<Rightarrow> string \<Rightarrow> string option" where
  "strip_prefix_ascii_case v prefix =
     (if length prefix \<le> length v \<and> eq_ignore_ascii_case (take (length prefix) v) prefix
      then Some (drop (length prefix) v) else None)"

subsection \<open>The number of a volume\<close>

definition decimal_suffix :: "string \<Rightarrow> string \<Rightarrow> (string \<times> nat) option" where
  "decimal_suffix candidate stem = (case strip_prefix_ascii_case candidate stem of
     None \<Rightarrow> None
   | Some suffix \<Rightarrow>
       if suffix \<noteq> [] \<and> list_all is_digit suffix then map_option (Pair suffix) (parse_uint (2 ^ 64) suffix) else None)"

definition swm_index :: "string \<Rightarrow> string \<Rightarrow> nat option" where
  "swm_index stem candidate =
     (if eq_ignore_ascii_case candidate stem then Some 1
      else (case decimal_suffix candidate stem of
          None \<Rightarrow> None
        | Some (suffix, i) \<Rightarrow> if 2 \<le> i \<and> suffix = show_nat i then Some i else None))"

definition ghs_index :: "string \<Rightarrow> string \<Rightarrow> nat option" where
  "ghs_index stem candidate =
     (if eq_ignore_ascii_case candidate stem then Some 1
      else (case decimal_suffix candidate stem of
          None \<Rightarrow> None
        | Some (suffix, i) \<Rightarrow>
            if 1 \<le> i \<and> (suffix = show_nat i \<or> suffix = pad_left 3 (show_nat i)) then Some i else None))"

definition numbered :: "string \<Rightarrow> (string \<Rightarrow> nat option) \<Rightarrow> string \<Rightarrow> nat option" where
  "numbered ext index path =
     (if \<not> extension_is path ext then None else Option.bind (path_file_stem path) index)"

definition add_span ::
  "string \<Rightarrow> (string \<Rightarrow> nat option) \<Rightarrow> (nat \<times> string) list \<Rightarrow> string + string \<Rightarrow> string + (nat \<times> string) list" where
  "add_span ext index m entry =
     and_then entry (\<lambda>path.
     (case numbered ext index path of
        None \<Rightarrow> Inr m
      | Some i \<Rightarrow>
          and_then (ensure (i \<notin> fst ` set m) ''duplicate volume index'') (\<lambda>_. Inr (insort_key fst (i, path) m))))"

definition check_contiguous :: "nat \<Rightarrow> (nat \<times> string) list \<Rightarrow> string + unit" where
  "check_contiguous first m =
     ensure (list_all (\<lambda>k. k \<in> fst ` set m) [first ..< Suc (if m = [] then 0 else fst (last m))]) ''missing volume index''"

subsection \<open>The set\<close>

definition entries_of :: "span_fs \<Rightarrow> string \<Rightarrow> string + (string + string) list" where
  "entries_of fs parent =
     and_then (fs_read_dir fs parent) (\<lambda>es. Inr (map (\<lambda>e. and_then e (\<lambda>name. Inr (join_path parent name))) es))"

definition is_later_swm :: "span_fs \<Rightarrow> string \<Rightarrow> string \<Rightarrow> bool" where
  "is_later_swm fs parent stem =
     (let trimmed = rev (dropWhile is_digit (rev stem)) in
      length trimmed \<noteq> length stem \<and> trimmed \<noteq> [] \<and> fs_is_file fs (join_path parent (trimmed @ ''.swm'')))"

definition enumerate_swm :: "span_fs \<Rightarrow> string \<Rightarrow> string \<Rightarrow> string \<Rightarrow> string + string list" where
  "enumerate_swm fs source parent stem =
     and_then (ensure (\<not> is_later_swm fs parent stem) ''select the primary SWM volume'') (\<lambda>_.
     and_then (entries_of fs parent) (\<lambda>es.
     and_then (try_fold (add_span ''swm'' (swm_index stem)) [] es) (\<lambda>m.
     and_then (ensure (map_of m 1 = Some source) ''selected SWM is not the primary volume'') (\<lambda>_.
     and_then (check_contiguous 1 m) (\<lambda>_. Inr (map snd m))))))"

definition enumerate_gho :: "span_fs \<Rightarrow> string \<Rightarrow> string \<Rightarrow> string \<Rightarrow> string + string list" where
  "enumerate_gho fs source parent stem =
     and_then (entries_of fs parent) (\<lambda>es.
     and_then (try_fold (add_span ''ghs'' (ghs_index stem)) [(0, source)] es) (\<lambda>m.
     and_then (check_contiguous 0 m) (\<lambda>_. Inr (map snd m))))"

definition enumerate_install_image_set :: "span_fs \<Rightarrow> string \<Rightarrow> string + string list" where
  "enumerate_install_image_set fs source =
     and_then (fs_canonical fs source) (\<lambda>source.
     and_then (ok_or (path_file_name source) ''install source has no Unicode file name'') (\<lambda>_.
     and_then (ensure (\<not> extension_is source ''ghs'') ''select the primary .gho volume instead of a .ghs span'') (\<lambda>_.
     if \<not> extension_is source ''swm'' \<and> \<not> extension_is source ''gho'' then Inr [source]
     else
       and_then (ok_or (path_parent source) ''split image has no parent directory'') (\<lambda>parent.
       and_then (ok_or (path_file_stem source) ''split image has no Unicode stem'') (\<lambda>stem.
       if extension_is source ''swm'' then enumerate_swm fs source parent stem
       else enumerate_gho fs source parent stem)))))"

text \<open>\<open>install_image_spans_share_directory\<close>, and the two comparisons of a directory with the set of the manifest.\<close>

definition span_directory :: "span_fs \<Rightarrow> string \<Rightarrow> string option" where
  "span_directory fs path = (case fs_canonical fs path of
     Inr canonical \<Rightarrow> (case path_parent canonical of Some p \<Rightarrow> Some p | None \<Rightarrow> path_parent path)
   | Inl _ \<Rightarrow> path_parent path)"

definition install_image_spans_share_directory :: "span_fs \<Rightarrow> string list \<Rightarrow> bool" where
  "install_image_spans_share_directory fs paths = (case map (span_directory fs) paths of
     [] \<Rightarrow> True
   | first # parents \<Rightarrow> list_all (\<lambda>p. p = first) parents)"

definition verify_exact_install_image_span_paths :: "span_fs \<Rightarrow> string \<Rightarrow> string list \<Rightarrow> string + unit" where
  "verify_exact_install_image_span_paths fs selected expected =
     and_then (ensure (expected \<noteq> []) ''authenticated install image set is empty'') (\<lambda>_.
     and_then (enumerate_install_image_set fs selected) (\<lambda>actual.
     and_then (ensure (length actual = length expected)
       ''authenticated install image span inventory contains missing or extra files'') (\<lambda>_.
     try_fold (\<lambda>_ (a, e).
         and_then (fs_canonical fs e) (\<lambda>e.
         ensure (a = e) ''authenticated install image span order/path mismatch'')) () (zip actual expected))))"

definition add_parent :: "span_fs \<Rightarrow> string option \<times> string list \<Rightarrow> string \<Rightarrow> string + string option \<times> string list" where
  "add_parent fs st path =
     and_then (fs_canonical fs path) (\<lambda>canonical.
     and_then (ok_or (path_parent canonical) ''install span has no parent directory'') (\<lambda>parent.
     and_then (ensure (fst st = None \<or> fst st = Some parent) ''authenticated install spans do not share one directory'') (\<lambda>_.
     Inr (Some parent, snd st @ [canonical]))))"

definition add_entry :: "span_fs \<Rightarrow> string list \<Rightarrow> string + string \<Rightarrow> string + string list" where
  "add_entry fs actual entry =
     and_then entry (\<lambda>path.
     and_then (fs_is_regular fs path) (\<lambda>regular.
     and_then (ensure regular ''engine-visible install directory contains a non-regular entry'') (\<lambda>_.
     and_then (fs_canonical fs path) (\<lambda>canonical. Inr (actual @ [canonical])))))"

definition verify_engine_visible_directory_contains_only :: "span_fs \<Rightarrow> string list \<Rightarrow> string + unit" where
  "verify_engine_visible_directory_contains_only fs expected =
     and_then (ensure (expected \<noteq> []) ''authenticated install image set is empty'') (\<lambda>_.
     and_then (try_fold (add_parent fs) (None, []) expected) (\<lambda>(parent, canonical_expected).
     and_then (entries_of fs (the parent)) (\<lambda>es.
     and_then (try_fold (add_entry fs) [] es) (\<lambda>actual.
     ensure (mset actual = mset canonical_expected)
       ''engine-visible install directory contains a missing or manifest-external entry''))))"

subsection \<open>The set is complete and in order\<close>

lemma distinct_map_insort:
  "distinct (map fst (insort_key fst x m)) \<longleftrightarrow> fst x \<notin> fst ` set m \<and> distinct (map fst m)"
  by (induction m) (auto simp: set_insort_key)

lemma add_spans:
  assumes "try_fold (add_span ext index) m es = Inr m'" and "sorted (map fst m)" and "distinct (map fst m)"
  shows "sorted (map fst m') \<and> distinct (map fst m') \<and>
    set m' = set m \<union> {(i, p). Inr p \<in> set es \<and> numbered ext index p = Some i}"
  using assms
proof (induction es arbitrary: m)
  case Nil
  then show ?case by simp
next
  case (Cons e es)
  from Cons.prems(1) obtain m1 where m1: "add_span ext index m e = Inr m1"
    and rest: "try_fold (add_span ext index) m1 es = Inr m'"
    by (auto simp: res_simps)
  show ?case
  proof (cases e)
    case (Inl err)
    with m1 show ?thesis by (simp add: add_span_def)
  next
    case e: (Inr p)
    show ?thesis
    proof (cases "numbered ext index p")
      case None
      with m1 e have "m1 = m" by (simp add: add_span_def)
      moreover have "{(i, q). Inr q \<in> set (e # es) \<and> numbered ext index q = Some i} =
          {(i, q). Inr q \<in> set es \<and> numbered ext index q = Some i}"
        using None by (auto simp: e)
      ultimately show ?thesis using Cons.IH [OF rest] Cons.prems(2,3) by simp
    next
      case (Some i)
      with m1 e have new: "i \<notin> fst ` set m" and ins: "m1 = insort_key fst (i, p) m"
        by (simp_all add: add_span_def res_simps)
      have distinct: "distinct (map fst m1)" using Cons.prems(3) new by (simp add: ins distinct_map_insort)
      have sorted: "sorted (map fst m1)" using Cons.prems(2) by (simp add: ins sorted_insort_key)
      have "set m1 = insert (i, p) (set m)" by (simp add: ins set_insort_key)
      moreover have "{(i, q). Inr q \<in> set (e # es) \<and> numbered ext index q = Some i} =
          insert (i, p) {(i, q). Inr q \<in> set es \<and> numbered ext index q = Some i}"
        using Some by (auto simp: e)
      ultimately show ?thesis using Cons.IH [OF rest sorted distinct] by simp
    qed
  qed
qed

lemma contiguous_keys:
  assumes "check_contiguous lo m = Inr u" and "sorted (map fst m)" and "distinct (map fst m)"
    and low: "\<And>k. k \<in> fst ` set m \<Longrightarrow> lo \<le> k"
  shows "map fst m = [lo ..< lo + length m]"
proof (cases "m = []")
  case False
  let ?hi = "Suc (fst (last m))"
  have "k \<le> fst (last m)" if "k \<in> fst ` set m" for k
    using that assms(2) False by (induction m) (auto simp: image_iff)
  moreover have "k \<in> fst ` set m" if "lo \<le> k" "k < ?hi" for k
    using assms(1) that False by (simp add: check_contiguous_def res_simps list_all_iff del: upt_Suc)
  ultimately have "fst ` set m = {lo ..< ?hi}" using low
    by (intro subset_antisym subsetI) (simp_all add: less_Suc_eq_le)
  then have keys: "set (map fst m) = {lo ..< ?hi}" by simp
  then have eq: "map fst m = [lo ..< ?hi]"
    using assms(2,3) by (intro sorted_distinct_set_unique) (simp_all del: upt_Suc)
  then have "length m = ?hi - lo" by (metis length_map length_upt)
  moreover have "lo \<le> fst (last m)" using low False by simp
  ultimately show ?thesis using eq by simp
qed simp

text \<open>The number of a file as a volume of the image whose first file is \<open>src\<close>, counted from zero.\<close>

definition volume_number :: "string \<Rightarrow> string \<Rightarrow> nat option" where
  "volume_number src path =
     (let stem = the (path_file_stem src) in
      if extension_is src ''swm'' then map_option (\<lambda>i. i - 1) (numbered ''swm'' (swm_index stem) path)
      else if path = src then Some 0
      else numbered ''ghs'' (ghs_index stem) path)"

lemma swm_index_pos: "swm_index stem c = Some i \<Longrightarrow> 1 \<le> i"
  by (auto simp: swm_index_def split: if_splits option.splits)

lemma ghs_index_pos: "ghs_index stem c = Some i \<Longrightarrow> 1 \<le> i"
  by (auto simp: ghs_index_def split: if_splits option.splits)

lemma numbered_Some:
  "numbered ext index p = Some i \<longleftrightarrow> extension_is p ext \<and> (\<exists>c. path_file_stem p = Some c \<and> index c = Some i)"
  by (auto simp: numbered_def split: Option.bind_splits)

lemma nth_of_keys: "map fst m = [lo ..< lo + length m] \<Longrightarrow> k < length m \<Longrightarrow> (lo + k, snd (m ! k)) \<in> set m"
  by (metis nth_map nth_mem nth_upt nat_add_left_cancel_less prod.collapse)

lemma enumerate_swm_complete:
  assumes "enumerate_swm fs src parent stem = Inr spans"
  shows "\<exists>es. entries_of fs parent = Inr es \<and> spans \<noteq> [] \<and> hd spans = src \<and>
    (\<forall>k < length spans. numbered ''swm'' (swm_index stem) (spans ! k) = Some (Suc k)) \<and>
    set spans = {p. Inr p \<in> set es \<and> numbered ''swm'' (swm_index stem) p \<noteq> None}"
proof -
  from assms obtain es m u where es: "entries_of fs parent = Inr es"
    and m: "try_fold (add_span ''swm'' (swm_index stem)) [] es = Inr m"
    and first: "map_of m 1 = Some src" and cont: "check_contiguous 1 m = Inr u" and spans: "spans = map snd m"
    by (auto simp: enumerate_swm_def res_simps)
  have facts: "sorted (map fst m)" "distinct (map fst m)"
    "set m = {(i, p). Inr p \<in> set es \<and> numbered ''swm'' (swm_index stem) p = Some i}"
    using add_spans [OF m] by auto
  have keys: "map fst m = [1 ..< 1 + length m]"
    by (rule contiguous_keys [OF cont facts(1,2)]) (auto simp: facts(3) numbered_Some dest: swm_index_pos)
  have nonempty: "m \<noteq> []" using first by auto
  have "(1, snd (m ! 0)) \<in> set m" using nth_of_keys [OF keys, of 0] nonempty by simp
  then have hd: "snd (m ! 0) = src" using first facts(2) by simp
  have numbers: "numbered ''swm'' (swm_index stem) (snd (m ! k)) = Some (Suc k)" if "k < length m" for k
    using nth_of_keys [OF keys that] by (simp add: facts(3))
  have "set (map snd m) = {p. Inr p \<in> set es \<and> numbered ''swm'' (swm_index stem) p \<noteq> None}"
    by (force simp: facts(3))
  with es nonempty hd numbers show ?thesis
    by (intro exI [of _ es]) (simp add: spans hd_conv_nth hd_map)
qed

lemma enumerate_gho_complete:
  assumes "enumerate_gho fs src parent stem = Inr spans"
  shows "\<exists>es. entries_of fs parent = Inr es \<and> spans \<noteq> [] \<and> hd spans = src \<and>
    (\<forall>k < length spans. 0 < k \<longrightarrow> numbered ''ghs'' (ghs_index stem) (spans ! k) = Some k) \<and>
    set spans = insert src {p. Inr p \<in> set es \<and> numbered ''ghs'' (ghs_index stem) p \<noteq> None}"
proof -
  from assms obtain es m u where es: "entries_of fs parent = Inr es"
    and m: "try_fold (add_span ''ghs'' (ghs_index stem)) [(0, src)] es = Inr m"
    and cont: "check_contiguous 0 m = Inr u" and spans: "spans = map snd m"
    by (auto simp: enumerate_gho_def res_simps)
  have facts: "sorted (map fst m)" "distinct (map fst m)"
    "set m = insert (0, src) {(i, p). Inr p \<in> set es \<and> numbered ''ghs'' (ghs_index stem) p = Some i}"
    using add_spans [OF m] by auto
  have keys: "map fst m = [0 ..< 0 + length m]"
    by (rule contiguous_keys [OF cont facts(1,2)]) simp
  have nonempty: "m \<noteq> []" using facts(3) by auto
  have pos: "numbered ''ghs'' (ghs_index stem) p \<noteq> Some 0" for p
    by (auto simp: numbered_Some dest: ghs_index_pos)
  have "(0, snd (m ! 0)) \<in> set m" using nth_of_keys [OF keys, of 0] nonempty by simp
  then have hd: "snd (m ! 0) = src" using pos by (auto simp: facts(3))
  have numbers: "numbered ''ghs'' (ghs_index stem) (snd (m ! k)) = Some k" if "k < length m" "0 < k" for k
    using nth_of_keys [OF keys that(1)] that(2) by (simp add: facts(3))
  have "set (map snd m) = insert src {p. Inr p \<in> set es \<and> numbered ''ghs'' (ghs_index stem) p \<noteq> None}"
    by (force simp: facts(3))
  with es nonempty hd numbers show ?thesis
    by (intro exI [of _ es]) (simp add: spans hd_conv_nth hd_map)
qed

text \<open>
  C14. The files of a split image are listed exactly: when the enumeration of an \<open>.swm\<close> or \<open>.gho\<close> source succeeds,
  the first file is the canonical source, the file at place \<open>k\<close> has the number \<open>k\<close> in its name (no gap, no
  repetition, no other order), and no file of the directory that carries a number is left out.
\<close>
theorem split_image_set_is_exact:
  assumes "enumerate_install_image_set fs source = Inr spans" and "fs_canonical fs source = Inr src"
    and "extension_is src ''swm'' \<or> extension_is src ''gho''"
  shows "\<exists>parent es. path_parent src = Some parent \<and> entries_of fs parent = Inr es \<and>
    spans \<noteq> [] \<and> hd spans = src \<and> distinct spans \<and>
    (\<forall>k < length spans. volume_number src (spans ! k) = Some k) \<and>
    set spans = insert src {p. Inr p \<in> set es \<and> volume_number src p \<noteq> None}"
proof -
  from assms obtain parent stem where parent: "path_parent src = Some parent" and stem: "path_file_stem src = Some stem"
    and run: "(if extension_is src ''swm'' then enumerate_swm fs src parent stem else enumerate_gho fs src parent stem) = Inr spans"
    by (auto simp: enumerate_install_image_set_def res_simps)
  have key: "\<exists>es. entries_of fs parent = Inr es \<and> spans \<noteq> [] \<and> hd spans = src \<and>
    (\<forall>k < length spans. volume_number src (spans ! k) = Some k) \<and>
    set spans = insert src {p. Inr p \<in> set es \<and> volume_number src p \<noteq> None}"
  proof (cases "extension_is src ''swm''")
    case True
    with run have "enumerate_swm fs src parent stem = Inr spans" by simp
    from enumerate_swm_complete [OF this] obtain es where es: "entries_of fs parent = Inr es" "spans \<noteq> []" "hd spans = src"
      "\<forall>k < length spans. numbered ''swm'' (swm_index stem) (spans ! k) = Some (Suc k)"
      "set spans = {p. Inr p \<in> set es \<and> numbered ''swm'' (swm_index stem) p \<noteq> None}" by auto
    have "src \<in> set spans" using es(2,3) by (metis hd_in_set)
    with es True stem show ?thesis by (intro exI [of _ es]) (auto simp: volume_number_def)
  next
    case False
    with run have "enumerate_gho fs src parent stem = Inr spans" by simp
    from enumerate_gho_complete [OF this] obtain es where es: "entries_of fs parent = Inr es" "spans \<noteq> []" "hd spans = src"
      "\<forall>k < length spans. 0 < k \<longrightarrow> numbered ''ghs'' (ghs_index stem) (spans ! k) = Some k"
      "set spans = insert src {p. Inr p \<in> set es \<and> numbered ''ghs'' (ghs_index stem) p \<noteq> None}" by auto
    have "extension_is src ''gho''" using assms(3) False by simp
    then have no: "numbered ''ghs'' (ghs_index stem) src = None"
      by (auto simp: numbered_def extension_is_def some_and_def eq_ignore_ascii_case_def to_lower_def is_upper_def
        split: option.splits)
    have "volume_number src (spans ! k) = Some k" if "k < length spans" for k
    proof (cases "k = 0")
      case True
      with es(2,3) False show ?thesis by (simp add: volume_number_def hd_conv_nth)
    next
      case pos: False
      with es(4) that have "numbered ''ghs'' (ghs_index stem) (spans ! k) = Some k" by simp
      with no have "spans ! k \<noteq> src" by auto
      with es(4) that pos False stem show ?thesis by (simp add: volume_number_def)
    qed
    with es False stem show ?thesis
      by (intro exI [of _ es]) (auto simp: volume_number_def)
  qed
  then obtain es where es: "entries_of fs parent = Inr es" "spans \<noteq> []" "hd spans = src"
    "\<forall>k < length spans. volume_number src (spans ! k) = Some k"
    "set spans = insert src {p. Inr p \<in> set es \<and> volume_number src p \<noteq> None}" by auto
  have "distinct spans"
  proof (rule distinct_conv_nth [THEN iffD2], intro allI impI)
    fix i j assume "i < length spans" "j < length spans" "i \<noteq> j"
    with es(4) show "spans ! i \<noteq> spans ! j" by (metis option.inject)
  qed
  with parent es show ?thesis by blast
qed

definition sample_dir :: string where "sample_dir = ''D:'' @ [BSLASH] @ ''img''"

definition sample_span_fs :: span_fs where
  "sample_span_fs = \<lparr>fs_canonical = Inr,
     fs_read_dir = (\<lambda>d. if d = sample_dir
        then Inr [Inr ''a3.swm'', Inr ''notes.txt'', Inr ''A.swm'', Inr ''a02.swm'', Inr ''a2.SWM''] else Inl ''not found''),
     fs_is_file = (\<lambda>_. False), fs_is_regular = (\<lambda>_. Inr True)\<rparr>"

lemma sample_paths:
  "path_parent (join_path sample_dir ''A.swm'') = Some sample_dir"
  "path_file_stem (join_path sample_dir ''A.swm'') = Some ''A''"
  "path_file_name (join_path sample_dir ''A.swm'') = Some ''A.swm''"
  "extension_is (join_path sample_dir ''A.swm'') ''swm''"
  "\<not> extension_is (join_path sample_dir ''A.swm'') ''ghs''"
  by code_simp+

lemma sample_strips:
  "numbered ''swm'' f (join_path sample_dir ''notes.txt'') = None"
  "numbered ''swm'' f (join_path sample_dir ''A.swm'') = f ''A''"
  "numbered ''swm'' f (join_path sample_dir ''a02.swm'') = f ''a02''"
  "numbered ''swm'' f (join_path sample_dir ''a2.SWM'') = f ''a2''"
  "numbered ''swm'' f (join_path sample_dir ''a3.swm'') = f ''a3''"
  by code_simp+

lemma sample_numbers:
  "swm_index ''A'' ''A'' = Some 1" "swm_index ''A'' ''a02'' = None"
  "swm_index ''A'' ''a2'' = Some 2" "swm_index ''A'' ''a3'' = Some 3"
proof -
  have digits: "show_nat 2 = ''2''" "show_nat 3 = ''3''" by code_simp+
  have strips: "strip_prefix_ascii_case ''a2'' ''A'' = Some ''2''" "strip_prefix_ascii_case ''a3'' ''A'' = Some ''3''"
    "strip_prefix_ascii_case ''a02'' ''A'' = Some ''02''" "list_all is_digit ''2''" "list_all is_digit ''3''"
    "list_all is_digit ''02''" "\<not> eq_ignore_ascii_case ''a2'' ''A''" "\<not> eq_ignore_ascii_case ''a3'' ''A''"
    "\<not> eq_ignore_ascii_case ''a02'' ''A''" "eq_ignore_ascii_case ''A'' ''A''" by code_simp+
  have parse: "parse_uint (2 ^ 64) ''2'' = Some 2" "parse_uint (2 ^ 64) ''3'' = Some 3"
    using parse_uint_show_nat [of 2 "2 ^ 64"] parse_uint_show_nat [of 3 "2 ^ 64"] by (simp_all add: digits)
  have "show_nat i \<noteq> ''02''" for i
    using show_nat_zero_prefix [of i] by auto
  then have zero: "(''02'' = show_nat i) = False" for i by metis
  show "swm_index ''A'' ''A'' = Some 1" "swm_index ''A'' ''a02'' = None"
    "swm_index ''A'' ''a2'' = Some 2" "swm_index ''A'' ''a3'' = Some 3"
    using strips parse digits zero
    by (auto simp: swm_index_def decimal_suffix_def split: option.splits)
qed

lemma sample_span_set:
  "enumerate_install_image_set sample_span_fs (join_path sample_dir ''A.swm'') =
    Inr (map (join_path sample_dir) [''A.swm'', ''a2.SWM'', ''a3.swm''])"
  "fs_canonical sample_span_fs p = Inr p"
  using sample_paths sample_strips sample_numbers
  by (simp_all add: enumerate_install_image_set_def enumerate_swm_def is_later_swm_def entries_of_def sample_span_fs_def
    add_span_def check_contiguous_def upt_rec)

theorem split_image_set_is_exact_witness:
  "\<exists>parent es. path_parent (join_path sample_dir ''A.swm'') = Some parent \<and> entries_of sample_span_fs parent = Inr es \<and>
    set (map (join_path sample_dir) [''A.swm'', ''a2.SWM'', ''a3.swm'']) =
      insert (join_path sample_dir ''A.swm'')
        {p. Inr p \<in> set es \<and> volume_number (join_path sample_dir ''A.swm'') p \<noteq> None}"
  using split_image_set_is_exact [OF sample_span_set disjI1 [OF sample_paths(4)]] by metis

subsection \<open>The comparison with the manifest\<close>

lemma try_fold_each:
  "try_fold (\<lambda>_. f) () xs = Inr u \<longleftrightarrow> (\<forall>x\<in>set xs. f x = Inr ())"
  by (induction xs) (auto simp: res_simps)

text \<open>The expected paths, made canonical, are the enumerated set, in its order.\<close>

lemma verify_exact_iff:
  "verify_exact_install_image_span_paths fs selected expected = Inr u \<longleftrightarrow>
     expected \<noteq> [] \<and> (\<exists>actual. enumerate_install_image_set fs selected = Inr actual \<and>
       list_all2 (\<lambda>a e. fs_canonical fs e = Inr a) actual expected)"
proof -
  have "try_fold (\<lambda>_ (a, e). and_then (fs_canonical fs e) (\<lambda>e. ensure (a = e) msg)) () (zip actual expected) = Inr u \<longleftrightarrow>
      (\<forall>(a, e)\<in>set (zip actual expected). fs_canonical fs e = Inr a)" for actual msg
    by (simp add: try_fold_each res_simps case_prod_unfold split_beta)
  then show ?thesis
    by (auto simp: verify_exact_install_image_span_paths_def res_simps list_all2_iff)
qed

end
