(* ===== verification/SoftwareInstall.thy ===== *)
theory SoftwareInstall
  imports ImageSet PartitionDisk
begin

section \<open>Software installed at the first logon\<close>

text \<open>
  \<open>lr-core/src/software_install.rs\<close>: the software a user selects, the silent command of each package, and the
  plan that the first logon of the new system executes. A command comes from a server as text; it is never given
  to a shell but split by the quoting rules of the Windows C runtime, and only the downloaded installer or
  \<open>msiexec\<close> may be its program. URLs, JSON and Base64 are read and written by other crates: parameters.
\<close>

subsection \<open>Splitting a command line\<close>

abbreviation QUOTE :: char where "QUOTE \<equiv> CHR 0x22"
abbreviation SLASH :: char where "SLASH \<equiv> CHR 0x5C"

datatype silent_command_error =
    CommandEmpty
  | CommandTooLong
  | PlaceholderCount nat
  | UnterminatedQuote
  | EmptyArgumentVector
  | UnsupportedProgram string
  | InstallerArgumentMissing

fun slashes :: "string \<Rightarrow> nat \<times> string" where
  "slashes [] = (0, [])"
| "slashes (c # s) = (if c = SLASH then (Suc (fst (slashes s)), snd (slashes s)) else (0, c # s))"

lemma slashes_length: "fst (slashes s) + length (snd (slashes s)) = length s"
  by (induction s) auto

lemma slashes_none: "fst (slashes s) = 0 \<Longrightarrow> snd (slashes s) = s"
  by (cases s) auto

lemma slashes_tail: "snd (slashes s) \<noteq> [] \<Longrightarrow> length (snd (slashes s)) - Suc 0 < length s"
  using slashes_length [of s] by (cases "snd (slashes s)") auto

lemma slashes_progress: "fst (slashes s) \<noteq> 0 \<Longrightarrow> length (snd (slashes s)) < length s"
  using slashes_length [of s] by linarith

lemma slashes_stuck:
  assumes "s \<noteq> [] \<and> (quoted \<or> ws_len False s = 0)" "snd (slashes s) = [] \<or> 0 < ws_len False (snd (slashes s)) \<and> \<not> quoted"
  shows "length (snd (slashes s)) < length s"
proof (rule slashes_progress)
  show "fst (slashes s) \<noteq> 0"
  proof
    assume "fst (slashes s) = 0"
    from slashes_none [OF this] show False using assms by auto
  qed
qed

text \<open>
  One argument: whether a quote is open, what was read of the argument, and the rest. White space is a whole
  Unicode character; all other characters may be copied byte by byte, because no byte inside a character begins
  white space.
\<close>

function scan_argument :: "bool \<Rightarrow> string \<Rightarrow> string \<Rightarrow> bool \<times> string \<times> string" where
  "scan_argument quoted argument s =
     (let n = fst (slashes s); t = snd (slashes s) in
      if s = [] \<or> \<not> quoted \<and> ws_len False s \<noteq> 0 then (quoted, argument, s)
      else if t \<noteq> [] \<and> hd t = QUOTE then
        (if even n then scan_argument (\<not> quoted) (argument @ replicate (n div 2) SLASH) (tl t)
         else scan_argument quoted (argument @ replicate (n div 2) SLASH @ [QUOTE]) (tl t))
      else if t \<noteq> [] \<and> (ws_len False t = 0 \<or> quoted) then
        scan_argument quoted (argument @ replicate n SLASH @ [hd t]) (tl t)
      else scan_argument quoted (argument @ replicate n SLASH) t)"
  by pat_completeness auto
termination
  by (relation "measure (\<lambda>(quoted, argument, s). length s)") (simp_all add: slashes_tail, erule slashes_stuck, assumption)

declare scan_argument.simps [simp del]

text \<open>The steps of the scanner: it stops, meets a quote, or copies.\<close>

lemma scan_stop: "s = [] \<or> \<not> quoted \<and> ws_len False s \<noteq> 0 \<Longrightarrow> scan_argument quoted a s = (quoted, a, s)"
  by (subst scan_argument.simps) (auto simp: Let_def)

lemma scan_quote:
  assumes "s \<noteq> []" "quoted \<or> ws_len False s = 0" "slashes s = (n, QUOTE # t)"
  shows "scan_argument quoted a s = (if even n then scan_argument (\<not> quoted) (a @ replicate (n div 2) SLASH) t
      else scan_argument quoted (a @ replicate (n div 2) SLASH @ [QUOTE]) t)"
  using assms by (cases quoted; subst scan_argument.simps) (simp_all add: Let_def)

lemma scan_copy:
  assumes "s \<noteq> []" "quoted \<or> ws_len False s = 0" "slashes s = (n, c # t)" "c \<noteq> QUOTE" "quoted \<or> ws_len False (c # t) = 0"
  shows "scan_argument quoted a s = scan_argument quoted (a @ replicate n SLASH @ [c]) t"
  using assms by (subst scan_argument.simps) (auto simp: Let_def)

lemma scan_slashes:
  assumes "s \<noteq> []" "quoted \<or> ws_len False s = 0" "slashes s = (n, t)" "t = [] \<or> \<not> quoted \<and> ws_len False t \<noteq> 0"
  shows "scan_argument quoted a s = scan_argument quoted (a @ replicate n SLASH) t"
proof -
  have "\<not> (t \<noteq> [] \<and> hd t = QUOTE)"
    using assms(4) by (cases t) (auto simp: ws_len_def ws1_def ws2_def ws3_def)
  then show ?thesis using assms by (subst scan_argument.simps) (auto simp: Let_def)
qed

lemma scan_cases:
  obtains (Stop) "s = [] \<or> \<not> quoted \<and> ws_len False s \<noteq> 0"
  | (Quote) n t where "s \<noteq> []" "quoted \<or> ws_len False s = 0" "slashes s = (n, QUOTE # t)"
  | (Copy) n c t where "s \<noteq> []" "quoted \<or> ws_len False s = 0" "slashes s = (n, c # t)" "c \<noteq> QUOTE"
      "quoted \<or> ws_len False (c # t) = 0"
  | (Slashes) n t where "s \<noteq> []" "quoted \<or> ws_len False s = 0" "slashes s = (n, t)" "t = [] \<or> \<not> quoted \<and> ws_len False t \<noteq> 0"
proof (cases "s = [] \<or> \<not> quoted \<and> ws_len False s \<noteq> 0")
  case False
  obtain n t where t: "slashes s = (n, t)" by fastforce
  show thesis
  proof (cases t)
    case (Cons c u)
    show thesis
    proof (cases "c = QUOTE")
      case True then show thesis using Quote False t Cons by blast
    next
      case c: False
      then show thesis using Copy Slashes False t Cons by (cases "quoted \<or> ws_len False (c # u) = 0") blast+
    qed
  qed (use Slashes False t in blast)
qed (use Stop in blast)

lemma scan_argument_length: "length (snd (snd (scan_argument quoted a s))) \<le> length s"
proof (induction "length s" arbitrary: quoted a s rule: less_induct)
  case less
  have IH: "length (snd (snd (scan_argument q b t))) \<le> length s" if "length t < length s" for q b t
    using less [OF that, of q b] that by simp
  note shorter = slashes_length [of s]
  show ?case
  proof (cases rule: scan_cases [of s quoted])
    case Stop then show ?thesis by (simp add: scan_stop)
  next
    case (Quote n t) then show ?thesis using IH shorter by (simp add: scan_quote)
  next
    case (Copy n c t) then show ?thesis using IH shorter by (simp add: scan_copy)
  next
    case (Slashes n t)
    then have "length t < length s" using slashes_stuck [of s quoted] by auto
    then show ?thesis using IH Slashes by (simp add: scan_slashes)
  qed
qed

text \<open>The first step of an argument consumes something, so that the loop over the arguments ends.\<close>

lemma scan_argument_progress:
  assumes "s \<noteq> []" "ws_len False s = 0"
  shows "length (snd (snd (scan_argument False a s))) < length s"
proof -
  note shorter = slashes_length [of s]
  show ?thesis
  proof (cases rule: scan_cases [of s False])
    case Stop then show ?thesis using assms by simp
  next
    case (Quote n t)
    then have "length t < length s" using shorter by simp
    then show ?thesis using Quote scan_argument_length [of _ _ t] by (auto simp: scan_quote intro: le_less_trans)
  next
    case (Copy n c t)
    then have "length t < length s" using shorter by simp
    then show ?thesis using Copy scan_argument_length [of _ _ t] by (auto simp: scan_copy intro: le_less_trans)
  next
    case (Slashes n t)
    then have "length t < length s" using slashes_stuck [of s False] by auto
    then show ?thesis using Slashes scan_argument_length [of _ _ t] by (auto simp: scan_slashes intro: le_less_trans)
  qed
qed

function split_windows_command_line :: "string \<Rightarrow> silent_command_error + string list" where
  "split_windows_command_line s =
     (let s = trim_ws False s in
      if s = [] then Inr []
      else case scan_argument False [] s of (quoted, argument, rest) \<Rightarrow>
        if quoted then Inl UnterminatedQuote
        else and_then (split_windows_command_line rest) (\<lambda>arguments. Inr (argument # arguments)))"
  by pat_completeness auto
termination
proof (relation "measure length")
  fix s t x y z p q assume *: "t = trim_ws False s" "t \<noteq> []" "(x, y) = scan_argument False [] t" "(p, q) = y" "\<not> x"
  have "length q < length t"
    using scan_argument_progress [OF *(2), of "[]"] trim_ws_done [of False s] * by (metis snd_conv)
  then show "(q, s) \<in> measure length" using length_trim_ws [of False s] * by simp
qed simp

declare split_windows_command_line.simps [simp del]

subsection \<open>The silent command\<close>

definition INSTALLER_PLACEHOLDER :: string where "INSTALLER_PLACEHOLDER = ''{installer}''"
definition FIRST_LOGON_INSTALLER_ARGUMENT_PLACEHOLDER :: string where
  "FIRST_LOGON_INSTALLER_ARGUMENT_PLACEHOLDER = ''__LETRECOVERY_FIRST_LOGON_INSTALLER__''"
definition MAX_TEMPLATE_CHARS :: nat where "MAX_TEMPLATE_CHARS = 2048"
definition MAX_SELECTED_SOFTWARE_PACKAGES :: nat where "MAX_SELECTED_SOFTWARE_PACKAGES = 128"
definition MAX_SELECTED_SOFTWARE_CONFIG_BYTES :: nat where "MAX_SELECTED_SOFTWARE_CONFIG_BYTES = 1048576"

text \<open>\<open>chars().count()\<close>, and the pieces between the occurrences of a text, with \<open>matches\<close> and \<open>replace\<close>.\<close>

definition char_count :: "string \<Rightarrow> nat" where
  "char_count s = length (filter (\<lambda>c. \<not> is_continuation c) s)"

function split_text :: "string \<Rightarrow> string \<Rightarrow> string list" where
  "split_text p s =
     (if p = [] \<or> s = [] then [s]
      else case strip_prefix p s of
          Some r \<Rightarrow> [] # split_text p r
        | None \<Rightarrow> (hd s # hd (split_text p (tl s))) # tl (split_text p (tl s)))"
  by pat_completeness auto
termination
  by (relation "measure (\<lambda>(p, s). length s)") (auto simp: strip_prefix_Some_iff)

declare split_text.simps [simp del]

definition count_matches :: "string \<Rightarrow> string \<Rightarrow> nat" where
  "count_matches p s = length (split_text p s) - 1"

definition replace_text :: "string \<Rightarrow> string \<Rightarrow> string \<Rightarrow> string" where
  "replace_text p r s = join_words r (split_text p s)"

definition paths_equal :: "string \<Rightarrow> string \<Rightarrow> bool" where
  "paths_equal candidate expected \<longleftrightarrow> eq_ignore_ascii_case candidate expected"

datatype installer_program = DownloadedInstaller string | WindowsInstaller

record parsed_install =
  si_program :: installer_program
  si_arguments :: "string list"

definition installer_program_of :: "string \<Rightarrow> string \<Rightarrow> string list \<Rightarrow> silent_command_error + installer_program" where
  "installer_program_of installer program_text arguments =
     (if paths_equal program_text installer then Inr (DownloadedInstaller installer)
      else if eq_ignore_ascii_case program_text ''msiexec.exe'' \<or> eq_ignore_ascii_case program_text ''msiexec'' then
        and_then (ensure (list_ex (\<lambda>a. paths_equal a installer) arguments) InstallerArgumentMissing) (\<lambda>_. Inr WindowsInstaller)
      else Inl (UnsupportedProgram program_text))"

definition parse_silent_install_template :: "string \<Rightarrow> string \<Rightarrow> silent_command_error + parsed_install" where
  "parse_silent_install_template template installer =
     (let template = trim template; placeholder_count = count_matches INSTALLER_PLACEHOLDER template in
      if template = [] then Inl CommandEmpty
      else if MAX_TEMPLATE_CHARS < char_count template then Inl CommandTooLong
      else if placeholder_count \<noteq> 1 then Inl (PlaceholderCount placeholder_count)
      else
        and_then (split_windows_command_line (replace_text INSTALLER_PLACEHOLDER installer template)) (\<lambda>argv.
        (case argv of
           [] \<Rightarrow> Inl EmptyArgumentVector
         | program_text # arguments \<Rightarrow>
             and_then (installer_program_of installer program_text arguments) (\<lambda>program.
             Inr \<lparr>si_program = program, si_arguments = arguments\<rparr>))))"

subsection \<open>The selection\<close>

text \<open>What \<open>url::Url\<close> reports of an address.\<close>

record url_parts =
  url_scheme :: string
  url_username :: string
  url_password :: "string option"
  url_host :: "string option"

definition validate_token :: "string \<Rightarrow> string \<Rightarrow> nat \<Rightarrow> string + unit" where
  "validate_token v label limit =
     ensure (\<not> (v = [] \<or> limit < length v \<or> \<not> list_all (\<lambda>c. is_alnum c \<or> c \<in> {CHR ''-'', CHR ''_'', CHR ''.''}) v))
       (label @ '' is malformed'')"

definition validate_label :: "string \<Rightarrow> string \<Rightarrow> nat \<Rightarrow> string + unit" where
  "validate_label v label limit =
     ensure (\<not> (trim v = [] \<or> limit < char_count v \<or> has_control v)) (label @ '' is malformed'')"

definition validate_filename :: "string \<Rightarrow> string + unit" where
  "validate_filename v =
     and_then (validate_label v ''software filename'' 255) (\<lambda>_.
     ensure (\<not> (path_file_name v \<noteq> Some v \<or> v = ''.'' \<or> v = ''..'' \<or> contains_any [CHR ''/'', SLASH, CHR '':''] v))
       ''software filename is not a single safe path component'')"

definition validation_installer_path :: "string \<Rightarrow> string" where
  "validation_installer_path filename =
     [SLASH, SLASH, CHR ''?'', SLASH] @ ''LetRecoveryTemplate'' @ [SLASH] @ ''LetRecovery_Scripts'' @ [SLASH] @
     ''PreinstalledSoftware'' @ [SLASH] @ filename"

definition anonymous_http :: "url_parts \<Rightarrow> bool" where
  "anonymous_http u \<longleftrightarrow> url_scheme u \<in> {''http'', ''https''} \<and> url_username u = [] \<and> url_password u = None \<and> url_host u \<noteq> None"

definition validate_package ::
  "(string \<Rightarrow> url_parts option) \<Rightarrow> string set \<times> string set \<Rightarrow> software_package \<Rightarrow> string + string set \<times> string set" where
  "validate_package url_parse seen p = (case seen of (ids, filenames) \<Rightarrow>
     and_then (validate_token (sp_id p) ''software id'' 128) (\<lambda>_.
     and_then (validate_label (sp_name p) ''software name'' 256) (\<lambda>_.
     and_then (validate_filename (sp_filename p)) (\<lambda>_.
     and_then (ok_or (url_parse (sp_url p)) ''parse software download URL'') (\<lambda>u.
     and_then (ensure (anonymous_http u) ''software download URL is not an anonymous HTTP(S) URL'') (\<lambda>_.
     and_then (map_err (\<lambda>_. ''validate silent command for '' @ sp_name p)
       (parse_silent_install_template (sp_silent_command p) (validation_installer_path (sp_filename p)))) (\<lambda>_.
     and_then (ensure (map to_lower (sp_id p) \<notin> ids) ''selected software id appears more than once'') (\<lambda>_.
     and_then (ensure (map to_lower (sp_filename p) \<notin> filenames) ''selected software filename appears more than once'') (\<lambda>_.
     Inr (insert (map to_lower (sp_id p)) ids, insert (map to_lower (sp_filename p)) filenames))))))))))"

definition validate_selected_packages :: "(string \<Rightarrow> url_parts option) \<Rightarrow> software_package list \<Rightarrow> string + unit" where
  "validate_selected_packages url_parse ps =
     and_then (ensure (\<not> MAX_SELECTED_SOFTWARE_PACKAGES < length ps) ''too many selected software packages'') (\<lambda>_.
     and_then (try_fold (validate_package url_parse) ({}, {}) ps) (\<lambda>_. Inr ()))"

definition encode_selected_packages ::
  "(string \<Rightarrow> url_parts option) \<Rightarrow> (software_package list \<Rightarrow> bytes option) \<Rightarrow> (bytes \<Rightarrow> string) \<Rightarrow> software_package list \<Rightarrow>
    string + string" where
  "encode_selected_packages url_parse to_json to_base64 ps =
     and_then (validate_selected_packages url_parse ps) (\<lambda>_.
     and_then (ok_or (to_json ps) ''serialize selected software'') (\<lambda>json.
     and_then (ensure (\<not> MAX_SELECTED_SOFTWARE_CONFIG_BYTES < length json)
       ''selected software configuration exceeds its byte limit'') (\<lambda>_.
     Inr (to_base64 json))))"

definition decode_selected_packages ::
  "(string \<Rightarrow> url_parts option) \<Rightarrow> (bytes \<Rightarrow> software_package list option) \<Rightarrow> (string \<Rightarrow> bytes option) \<Rightarrow> string \<Rightarrow>
    string + software_package list" where
  "decode_selected_packages url_parse of_json of_base64 encoded =
     and_then (ensure (\<not> MAX_SELECTED_SOFTWARE_CONFIG_BYTES * 2 < length encoded)
       ''encoded selected software configuration exceeds its byte limit'') (\<lambda>_.
     and_then (ok_or (of_base64 (trim encoded)) ''decode selected software configuration'') (\<lambda>json.
     and_then (ensure (\<not> MAX_SELECTED_SOFTWARE_CONFIG_BYTES < length json)
       ''selected software configuration exceeds its byte limit'') (\<lambda>_.
     and_then (ok_or (of_json json) ''parse selected software configuration'') (\<lambda>ps.
     and_then (validate_selected_packages url_parse ps) (\<lambda>_. Inr ps)))))"

subsection \<open>The plan of the first logon\<close>

record plan_entry =
  fe_id :: string
  fe_name :: string
  fe_filename :: string
  fe_program :: string
  fe_arguments :: "string list"

definition first_logon_argument :: "string \<Rightarrow> string \<Rightarrow> string" where
  "first_logon_argument installer a =
     (if paths_equal a installer then FIRST_LOGON_INSTALLER_ARGUMENT_PLACEHOLDER else a)"

definition first_logon_entry :: "software_package \<Rightarrow> string + plan_entry" where
  "first_logon_entry p =
     (let installer = validation_installer_path (sp_filename p) in
      and_then (map_err (\<lambda>_. ''render silent command for '' @ sp_name p)
        (parse_silent_install_template (sp_silent_command p) installer)) (\<lambda>parsed.
      Inr \<lparr>fe_id = sp_id p, fe_name = sp_name p, fe_filename = sp_filename p,
        fe_program = (case si_program parsed of DownloadedInstaller _ \<Rightarrow> ''installer'' | WindowsInstaller \<Rightarrow> ''msiexec''),
        fe_arguments = map (first_logon_argument installer) (si_arguments parsed)\<rparr>))"

definition first_logon_plan :: "(string \<Rightarrow> url_parts option) \<Rightarrow> software_package list \<Rightarrow> string + plan_entry list" where
  "first_logon_plan url_parse ps =
     and_then (validate_selected_packages url_parse ps) (\<lambda>_.
     try_fold (\<lambda>entries p. and_then (first_logon_entry p) (\<lambda>e. Inr (entries @ [e]))) [] ps)"

definition first_logon_plan_bytes ::
  "(string \<Rightarrow> url_parts option) \<Rightarrow> (plan_entry list \<Rightarrow> bytes option) \<Rightarrow> software_package list \<Rightarrow> string + bytes" where
  "first_logon_plan_bytes url_parse entries_to_json ps =
     and_then (first_logon_plan url_parse ps) (\<lambda>entries.
     and_then (ok_or (entries_to_json entries) ''serialize first-logon software plan'') (\<lambda>bs.
     and_then (ensure (\<not> MAX_SELECTED_SOFTWARE_CONFIG_BYTES < length bs) ''first-logon software plan exceeds its byte limit'') (\<lambda>_.
     Inr bs)))"

subsection \<open>The quoting rules, the other way round\<close>

text \<open>
  How a program writes an argument so that the C runtime gives it back: in quotes, every quote behind an odd number of
  backslashes, and twice as many backslashes before a quote. \<open>n\<close> counts the backslashes directly before.
\<close>

fun crt_escape :: "nat \<Rightarrow> string \<Rightarrow> string" where
  "crt_escape n [] = replicate (2 * n) SLASH"
| "crt_escape n (c # s) =
     (if c = SLASH then crt_escape (Suc n) s
      else if c = QUOTE then replicate (2 * n + 1) SLASH @ QUOTE # crt_escape 0 s
      else replicate n SLASH @ c # crt_escape 0 s)"

definition crt_quote :: "string \<Rightarrow> string" where
  "crt_quote a = QUOTE # crt_escape 0 a @ [QUOTE]"

definition command_line :: "string list \<Rightarrow> string" where
  "command_line args = join_words '' '' (map crt_quote args)"

lemma slashes_replicate: "c \<noteq> SLASH \<Longrightarrow> slashes (replicate n SLASH @ c # t) = (n, c # t)"
  by (induction n) auto

lemma replicate_split: "replicate (m + n) c @ s = replicate m c @ replicate n c @ s"
  by (simp add: replicate_add)

lemma scan_escaped:
  "scan_argument True a (crt_escape n s @ QUOTE # rest) = scan_argument False (a @ replicate n SLASH @ s) rest"
proof (induction s arbitrary: n a)
  case Nil
  have "slashes (replicate (2 * n) SLASH @ QUOTE # rest) = (2 * n, QUOTE # rest)" by (rule slashes_replicate) simp
  then show ?case by (simp add: scan_quote)
next
  case (Cons c s)
  consider "c = SLASH" | "c = QUOTE" | "c \<noteq> SLASH" "c \<noteq> QUOTE" by blast
  then show ?case
  proof cases
    case 1
    then show ?thesis using Cons [of a "Suc n"] by (simp add: replicate_app_Cons_same)
  next
    case 2
    have "slashes (replicate (2 * n + 1) SLASH @ QUOTE # crt_escape 0 s @ QUOTE # rest) =
        (2 * n + 1, QUOTE # crt_escape 0 s @ QUOTE # rest)" by (rule slashes_replicate) simp
    then show ?thesis using Cons [of "a @ replicate n SLASH @ [QUOTE]" 0] 2
      by (simp add: scan_quote)
  next
    case 3
    have "slashes (replicate n SLASH @ c # crt_escape 0 s @ QUOTE # rest) = (n, c # crt_escape 0 s @ QUOTE # rest)"
      by (rule slashes_replicate [OF 3(1)])
    then show ?thesis using Cons [of "a @ replicate n SLASH @ [c]" 0] 3
      by (simp add: scan_copy)
  qed
qed

lemma scan_quoted: "scan_argument False a (crt_quote s @ rest) = scan_argument False (a @ s) rest"
proof -
  have "scan_argument False a (QUOTE # t) = scan_argument True a t" for t
    using scan_quote [of "QUOTE # t" False 0 t a] by (simp add: ws_len_def ws1_def ws2_def ws3_def)
  then show ?thesis using scan_escaped [of a 0 s rest] by (simp add: crt_quote_def)
qed

lemma split_quoted:
  "rest = [] \<or> ws_len False rest \<noteq> 0 \<Longrightarrow> split_windows_command_line (crt_quote s @ rest) =
    and_then (split_windows_command_line rest) (\<lambda>as. Inr (s # as))"
proof -
  assume "rest = [] \<or> ws_len False rest \<noteq> 0"
  then have "scan_argument False [] (crt_quote s @ rest) = (False, s, rest)"
    by (simp add: scan_quoted scan_stop)
  moreover have "trim_ws False (crt_quote s @ rest) = crt_quote s @ rest"
    by (rule trim_ws_stop) (simp add: crt_quote_def ws_len_def ws1_def ws2_def ws3_def)
  ultimately show ?thesis
    by (subst split_windows_command_line.simps) (simp add: crt_quote_def)
qed

lemma split_blank: "split_windows_command_line (CHR '' '' # s) = split_windows_command_line s"
proof -
  have "trim_ws False (CHR '' '' # s) = trim_ws False s"
    by (subst trim_ws.simps) (simp add: ws_len_def ws1_def)
  then show ?thesis by (subst (1 2) split_windows_command_line.simps) simp
qed

lemma split_command_line: "split_windows_command_line (command_line args) = Inr args"
proof (induction args)
  case Nil
  show ?case by (subst split_windows_command_line.simps) (simp add: command_line_def trim_ws_stop ws_len_def)
next
  case (Cons a as)
  show ?case
  proof (cases as)
    case Nil
    then show ?thesis using split_quoted [of "[]" a] Cons by (simp add: command_line_def)
  next
    case (Cons b bs)
    then have "command_line (a # as) = crt_quote a @ CHR '' '' # command_line as"
      by (simp add: command_line_def)
    moreover have "ws_len False (CHR '' '' # command_line as) \<noteq> 0" by (simp add: ws_len_def ws1_def)
    ultimately show ?thesis using Cons.IH by (simp add: split_quoted split_blank)
  qed
qed

text \<open>C30. The splitter implements the quoting rules of the Windows C runtime: whatever arguments are quoted by the
  documented rules and joined with blanks, it gives back exactly these arguments, with their blanks, quotes and
  backslashes, the empty argument included.\<close>

theorem splitting_inverts_quoting: "split_windows_command_line (command_line args) = Inr args"
  by (rule split_command_line)

lemma installer_program_of_Inr:
  "installer_program_of installer program_text arguments = Inr program \<longleftrightarrow>
     program = DownloadedInstaller installer \<and> paths_equal program_text installer \<or>
     program = WindowsInstaller \<and> \<not> paths_equal program_text installer \<and>
       map to_lower program_text \<in> {''msiexec.exe'', ''msiexec''} \<and> list_ex (\<lambda>a. paths_equal a installer) arguments"
proof -
  have "map to_lower ''msiexec.exe'' = ''msiexec.exe''" "map to_lower ''msiexec'' = ''msiexec''" by code_simp+
  then show ?thesis by (auto simp: installer_program_of_def eq_ignore_ascii_case_def res_simps)
qed

lemma parse_silent_Inr:
  assumes "parse_silent_install_template template installer = Inr parsed"
  obtains program_text where
    "split_windows_command_line (replace_text INSTALLER_PLACEHOLDER installer (trim template)) = Inr (program_text # si_arguments parsed)"
    "installer_program_of installer program_text (si_arguments parsed) = Inr (si_program parsed)"
    "count_matches INSTALLER_PLACEHOLDER (trim template) = 1"
proof -
  from assms obtain argv where argv: "count_matches INSTALLER_PLACEHOLDER (trim template) = 1"
      "split_windows_command_line (replace_text INSTALLER_PLACEHOLDER installer (trim template)) = Inr argv"
      "(case argv of [] \<Rightarrow> Inl EmptyArgumentVector | program_text # arguments \<Rightarrow>
          and_then (installer_program_of installer program_text arguments) (\<lambda>program.
            Inr \<lparr>si_program = program, si_arguments = arguments\<rparr>)) = Inr parsed"
    by (auto simp: parse_silent_install_template_def Let_def res_simps split: if_splits)
  then obtain program_text arguments where "argv = program_text # arguments" by (cases argv) auto
  with argv show thesis by (intro that [of program_text]) (auto simp: res_simps)
qed

lemma validate_package_Inr:
  assumes "validate_package url_parse (ids, filenames) p = Inr seen"
  shows "seen = (insert (map to_lower (sp_id p)) ids, insert (map to_lower (sp_filename p)) filenames)"
    "map to_lower (sp_id p) \<notin> ids" "map to_lower (sp_filename p) \<notin> filenames"
    "\<exists>parsed. parse_silent_install_template (sp_silent_command p) (validation_installer_path (sp_filename p)) = Inr parsed"
    "validate_filename (sp_filename p) = Inr ()" "\<exists>u. url_parse (sp_url p) = Some u \<and> anonymous_http u"
  using assms by (auto simp: validate_package_def res_simps)

definition package_keys_fresh :: "string set \<times> string set \<Rightarrow> software_package list \<Rightarrow> bool" where
  "package_keys_fresh seen ps \<longleftrightarrow> distinct (map (map to_lower \<circ> sp_id) ps) \<and> distinct (map (map to_lower \<circ> sp_filename) ps) \<and>
     (\<forall>p \<in> set ps. map to_lower (sp_id p) \<notin> fst seen \<and> map to_lower (sp_filename p) \<notin> snd seen)"

definition package_ok :: "(string \<Rightarrow> url_parts option) \<Rightarrow> software_package \<Rightarrow> bool" where
  "package_ok url_parse p \<longleftrightarrow> validate_filename (sp_filename p) = Inr () \<and>
     (\<exists>u. url_parse (sp_url p) = Some u \<and> anonymous_http u) \<and>
     (\<exists>parsed. parse_silent_install_template (sp_silent_command p) (validation_installer_path (sp_filename p)) = Inr parsed)"

lemma validated_packages:
  "try_fold (validate_package url_parse) seen ps = Inr seen' \<Longrightarrow>
    package_keys_fresh seen ps \<and> list_all (package_ok url_parse) ps"
proof (induction ps arbitrary: seen)
  case (Cons p ps)
  obtain ids filenames where seen: "seen = (ids, filenames)" by fastforce
  from Cons.prems obtain next_seen where step: "validate_package url_parse (ids, filenames) p = Inr next_seen"
      and rest: "try_fold (validate_package url_parse) next_seen ps = Inr seen'"
    by (auto simp: seen res_simps)
  note p = validate_package_Inr [OF step]
  show ?case
    using Cons.IH [OF rest] p by (auto simp: package_keys_fresh_def package_ok_def seen)
qed (simp add: package_keys_fresh_def)

lemma first_logon_entry_ok:
  assumes "package_ok url_parse p"
  obtains e where "first_logon_entry p = Inr e" "fe_id e = sp_id p" "fe_name e = sp_name p" "fe_filename e = sp_filename p"
    "fe_program e = ''installer'' \<or> fe_program e = ''msiexec'' \<and> FIRST_LOGON_INSTALLER_ARGUMENT_PLACEHOLDER \<in> set (fe_arguments e)"
    "\<forall>a \<in> set (fe_arguments e). \<not> paths_equal a (validation_installer_path (sp_filename p))"
proof -
  let ?installer = "validation_installer_path (sp_filename p)"
  obtain parsed where parsed: "parse_silent_install_template (sp_silent_command p) ?installer = Inr parsed"
    using assms by (auto simp: package_ok_def)
  then obtain program_text where program: "installer_program_of ?installer program_text (si_arguments parsed) = Inr (si_program parsed)"
    by (rule parse_silent_Inr)
  let ?e = "\<lparr>fe_id = sp_id p, fe_name = sp_name p, fe_filename = sp_filename p,
      fe_program = (case si_program parsed of DownloadedInstaller _ \<Rightarrow> ''installer'' | WindowsInstaller \<Rightarrow> ''msiexec''),
      fe_arguments = map (first_logon_argument ?installer) (si_arguments parsed)\<rparr>"
  have "\<not> paths_equal FIRST_LOGON_INSTALLER_ARGUMENT_PLACEHOLDER ?installer"
    by (simp add: paths_equal_def eq_ignore_ascii_case_def FIRST_LOGON_INSTALLER_ARGUMENT_PLACEHOLDER_def
        validation_installer_path_def to_lower_def is_upper_def)
  then have "\<forall>a \<in> set (fe_arguments ?e). \<not> paths_equal a ?installer"
    by (auto simp: first_logon_argument_def)
  moreover have "fe_program ?e = ''installer'' \<or>
      fe_program ?e = ''msiexec'' \<and> FIRST_LOGON_INSTALLER_ARGUMENT_PLACEHOLDER \<in> set (fe_arguments ?e)"
    using program unfolding installer_program_of_Inr
    by (auto simp: list_ex_iff first_logon_argument_def intro!: image_eqI)
  ultimately show thesis
    using parsed by (intro that [of ?e]) (simp_all add: first_logon_entry_def)
qed

lemma entries_collected:
  assumes "list_all (package_ok url_parse) ps"
  shows "\<exists>entries. try_fold (\<lambda>entries p. and_then (first_logon_entry p) (\<lambda>e. Inr (entries @ [e]))) acc ps = Inr (acc @ entries) \<and>
    list_all2 (\<lambda>p e. first_logon_entry p = Inr e) ps entries"
  using assms
proof (induction ps arbitrary: acc)
  case (Cons p ps)
  then obtain e where e: "first_logon_entry p = Inr e" by (auto elim: first_logon_entry_ok)
  from Cons obtain entries where
    "try_fold (\<lambda>entries p. and_then (first_logon_entry p) (\<lambda>e. Inr (entries @ [e]))) (acc @ [e]) ps = Inr ((acc @ [e]) @ entries)"
    "list_all2 (\<lambda>p e. first_logon_entry p = Inr e) ps entries" by fastforce
  then show ?case by (intro exI [of _ "e # entries"]) (simp add: e)
qed simp

definition entry_safe :: "software_package \<Rightarrow> plan_entry \<Rightarrow> bool" where
  "entry_safe p e \<longleftrightarrow> fe_id e = sp_id p \<and> fe_name e = sp_name p \<and> fe_filename e = sp_filename p \<and>
     (fe_program e = ''installer'' \<or>
      fe_program e = ''msiexec'' \<and> FIRST_LOGON_INSTALLER_ARGUMENT_PLACEHOLDER \<in> set (fe_arguments e)) \<and>
     (\<forall>a \<in> set (fe_arguments e). \<not> paths_equal a (validation_installer_path (sp_filename p))) \<and>
     \<not> contains_any [CHR ''/'', SLASH, CHR '':''] (fe_filename e) \<and> fe_filename e \<notin> {[], ''.'', ''..''}"

lemma validate_filename_Inr:
  "validate_filename v = Inr () \<Longrightarrow> \<not> contains_any [CHR ''/'', SLASH, CHR '':''] v \<and> v \<notin> {[], ''.'', ''..''}"
  by (auto simp: validate_filename_def validate_label_def res_simps trim_def trim_ws_stop ws_len_def)

lemma first_logon_entry_safe:
  assumes "first_logon_entry p = Inr e" "package_ok url_parse p"
  shows "entry_safe p e"
proof -
  have filename: "validate_filename (sp_filename p) = Inr ()" using assms(2) by (simp add: package_ok_def)
  from assms(2) show ?thesis
  proof (rule first_logon_entry_ok)
    fix e'
    assume e': "first_logon_entry p = Inr e'" "fe_id e' = sp_id p" "fe_name e' = sp_name p" "fe_filename e' = sp_filename p"
      "fe_program e' = ''installer'' \<or> fe_program e' = ''msiexec'' \<and> FIRST_LOGON_INSTALLER_ARGUMENT_PLACEHOLDER \<in> set (fe_arguments e')"
      "\<forall>a \<in> set (fe_arguments e'). \<not> paths_equal a (validation_installer_path (sp_filename p))"
    from assms(1) e'(1) have "e' = e" by simp
    with e'(2-) validate_filename_Inr [OF filename] show ?thesis by (simp add: entry_safe_def)
  qed
qed

text \<open>C29. A validated selection can always be carried out, and only as intended. The plan of the first logon is
  made for every package, in order; each entry runs its own downloaded installer or \<open>msiexec\<close> with that installer
  among its arguments, names a file that cannot leave its directory and that no other entry names, and nothing
  of the path used for validation is left in the arguments.\<close>

theorem validated_selection_has_safe_plan:
  assumes "validate_selected_packages url_parse ps = Inr ()"
  shows "\<exists>entries. first_logon_plan url_parse ps = Inr entries \<and> list_all2 entry_safe ps entries \<and>
    distinct (map (map to_lower \<circ> fe_filename) entries) \<and> distinct (map (map to_lower \<circ> fe_id) entries)"
proof -
  from assms obtain seen where "try_fold (validate_package url_parse) ({}, {}) ps = Inr seen"
    by (auto simp: validate_selected_packages_def res_simps)
  then have fresh: "package_keys_fresh ({}, {}) ps" and ok: "list_all (package_ok url_parse) ps"
    using validated_packages by blast+
  obtain entries where entries: "first_logon_plan url_parse ps = Inr entries"
      "list_all2 (\<lambda>p e. first_logon_entry p = Inr e) ps entries"
    using entries_collected [OF ok, of "[]"] assms by (auto simp: first_logon_plan_def)
  have "list_all2 entry_safe ps entries"
    using entries(2) ok by (induction rule: list_all2_induct) (auto intro: first_logon_entry_safe)
  moreover from this have "map fe_filename entries = map sp_filename ps" "map fe_id entries = map sp_id ps"
    by (induction rule: list_all2_induct) (auto simp: entry_safe_def)
  then have "map (map to_lower \<circ> fe_filename) entries = map (map to_lower \<circ> sp_filename) ps"
    "map (map to_lower \<circ> fe_id) entries = map (map to_lower \<circ> sp_id) ps"
    by (metis map_map)+
  moreover have "distinct (map (map to_lower \<circ> sp_filename) ps)" "distinct (map (map to_lower \<circ> sp_id) ps)"
    using fresh by (simp_all add: package_keys_fresh_def)
  ultimately show ?thesis using entries(1) by auto
qed

subsection \<open>Commands that are written as they should be\<close>

lemma crt_escape_plain:
  "QUOTE \<notin> set s \<Longrightarrow> s \<noteq> [] \<Longrightarrow> last s \<noteq> SLASH \<Longrightarrow> crt_escape n s = replicate n SLASH @ s"
  by (induction n s rule: crt_escape.induct) (auto simp: replicate_app_Cons_same split: if_splits)

lemma split_text_plain: "p \<noteq> [] \<Longrightarrow> hd p \<notin> set s \<Longrightarrow> split_text p s = [s]"
proof (induction s)
  case (Cons c s)
  then have "strip_prefix p (c # s) = None" by (cases p) auto
  with Cons show ?case by (simp add: split_text.simps [of p "c # s"])
qed (simp add: split_text.simps [of p "[]"])

lemma split_text_once:
  "p \<noteq> [] \<Longrightarrow> hd p \<notin> set a \<Longrightarrow> hd p \<notin> set b \<Longrightarrow> split_text p (a @ p @ b) = [a, b]"
proof (induction a)
  case Nil
  then show ?case by (simp add: split_text.simps [of p "p @ b"] split_text_plain)
next
  case (Cons c a)
  then have "strip_prefix p (c # a @ p @ b) = None" by (cases p) auto
  with Cons show ?case by (simp add: split_text.simps [of p "c # a @ p @ b"])
qed

lemma crt_escape_chars: "set (crt_escape n s) \<subseteq> insert SLASH (insert QUOTE (set s))"
  by (induction n s rule: crt_escape.induct) auto

text \<open>The template that quotes the installer and every argument.\<close>

definition quoted_template :: "string list \<Rightarrow> string" where
  "quoted_template args = QUOTE # INSTALLER_PLACEHOLDER @ QUOTE # concat (map (\<lambda>a. CHR '' '' # crt_quote a) args)"

lemma quoted_template_rendered:
  assumes path: "QUOTE \<notin> set installer" "installer \<noteq> []" "last installer \<noteq> SLASH"
    and args: "list_all (\<lambda>a. CHR ''{'' \<notin> set a) args"
  shows "count_matches INSTALLER_PLACEHOLDER (quoted_template args) = 1"
    "replace_text INSTALLER_PLACEHOLDER installer (quoted_template args) = command_line (installer # args)"
proof -
  have "CHR ''{'' \<notin> set (crt_quote a)" if "CHR ''{'' \<notin> set a" for a
    using that crt_escape_chars [of 0 a] by (auto simp: crt_quote_def)
  then have "CHR ''{'' \<notin> set (QUOTE # concat (map (\<lambda>a. CHR '' '' # crt_quote a) args))"
    using args by (auto simp: list_all_iff)
  then have split: "split_text INSTALLER_PLACEHOLDER (quoted_template args) =
      [[QUOTE], QUOTE # concat (map (\<lambda>a. CHR '' '' # crt_quote a) args)]"
    using split_text_once [of INSTALLER_PLACEHOLDER "[QUOTE]"] by (simp add: quoted_template_def INSTALLER_PLACEHOLDER_def)
  then show "count_matches INSTALLER_PLACEHOLDER (quoted_template args) = 1" by (simp add: count_matches_def)
  have join: "command_line (a # as) = crt_quote a @ concat (map (\<lambda>a. CHR '' '' # crt_quote a) as)" for a as
  proof (induction as arbitrary: a)
    case (Cons b as)
    from this [of b] show ?case by (simp add: command_line_def)
  qed (simp add: command_line_def)
  show "replace_text INSTALLER_PLACEHOLDER installer (quoted_template args) = command_line (installer # args)"
    using crt_escape_plain [OF path, of 0] by (simp add: replace_text_def split join crt_quote_def)
qed

lemma quoted_template_trimmed: "trim (quoted_template args) = quoted_template args"
proof (rule trim_id)
  have "last (quoted_template args) = QUOTE"
    by (cases args rule: rev_cases) (simp_all add: quoted_template_def crt_quote_def)
  then show "quoted_template args = [] \<or> printable (hd (quoted_template args)) \<and> printable (last (quoted_template args))"
    by (simp add: quoted_template_def printable_def)
qed

lemma quoted_command_parsed:
  assumes "QUOTE \<notin> set installer" "installer \<noteq> []" "last installer \<noteq> SLASH"
    and "list_all (\<lambda>a. CHR ''{'' \<notin> set a) args" and "char_count (quoted_template args) \<le> MAX_TEMPLATE_CHARS"
  shows "parse_silent_install_template (quoted_template args) installer =
    Inr \<lparr>si_program = DownloadedInstaller installer, si_arguments = args\<rparr>"
proof -
  have "installer_program_of installer installer args = Inr (DownloadedInstaller installer)"
    by (simp add: installer_program_of_def paths_equal_def eq_ignore_ascii_case_def)
  moreover have "quoted_template args \<noteq> []" by (simp add: quoted_template_def)
  ultimately show ?thesis
    using quoted_template_rendered [OF assms(1-4)] assms(5) split_command_line [of "installer # args"]
    by (simp add: parse_silent_install_template_def quoted_template_trimmed not_less)
qed

text \<open>A command that quotes the installer and its arguments is carried out as written, wherever the installer
  lies: for a path without quotes that does not end in a backslash, blanks included, the program is the installer and
  it gets exactly the arguments that were quoted.\<close>

theorem quoted_command_runs_as_written:
  assumes "QUOTE \<notin> set installer" "installer \<noteq> []" "last installer \<noteq> SLASH"
    and "list_all (\<lambda>a. CHR ''{'' \<notin> set a) args" and "char_count (quoted_template args) \<le> MAX_TEMPLATE_CHARS"
  shows "parse_silent_install_template (quoted_template args) installer =
    Inr \<lparr>si_program = DownloadedInstaller installer, si_arguments = args\<rparr>"
  by (rule quoted_command_parsed [OF assms])

text \<open>A sample: an installer with two arguments, one of them with a blank and a quote.\<close>

definition sample_software :: software_package where
  "sample_software = \<lparr>sp_id = ''tool'', sp_name = ''Tool'', sp_url = ''https://example.com/tool.exe'', sp_filename = ''tool.exe'',
     sp_silent_command = quoted_template [''/S'', ''/v='' @ [QUOTE] @ ''a b'' @ [QUOTE]], sp_requires_admin = True\<rparr>"

definition sample_url_parse :: "string \<Rightarrow> url_parts option" where
  "sample_url_parse s = (if strip_prefix ''https://'' s = None then None
     else Some \<lparr>url_scheme = ''https'', url_username = [], url_password = None, url_host = Some ''example.com''\<rparr>)"

lemma quoted_command_runs_as_written_witness:
  "parse_silent_install_template (quoted_template [''/S'', ''/v='' @ [QUOTE] @ ''a b'' @ [QUOTE]]) ''D:/My Files/tool.exe'' =
    Inr \<lparr>si_program = DownloadedInstaller ''D:/My Files/tool.exe'', si_arguments = [''/S'', ''/v='' @ [QUOTE] @ ''a b'' @ [QUOTE]]\<rparr>"
  by (rule quoted_command_runs_as_written) (simp_all add: char_count_def quoted_template_def INSTALLER_PLACEHOLDER_def
      crt_quote_def MAX_TEMPLATE_CHARS_def is_continuation_def)

lemma sample_software_parses:
  "parse_silent_install_template (sp_silent_command sample_software) (validation_installer_path (sp_filename sample_software)) =
    Inr \<lparr>si_program = DownloadedInstaller (validation_installer_path ''tool.exe''), si_arguments = [''/S'', ''/v='' @ [QUOTE] @ ''a b'' @ [QUOTE]]\<rparr>"
  unfolding sample_software_def software_package.select_convs
  by (rule quoted_command_parsed) (simp_all add: char_count_def quoted_template_def INSTALLER_PLACEHOLDER_def
      validation_installer_path_def crt_quote_def MAX_TEMPLATE_CHARS_def is_continuation_def)

lemma sample_software_validated: "validate_selected_packages sample_url_parse [sample_software] = Inr ()"
proof -
  have "validate_token ''tool'' ''software id'' 128 = Inr ()" "validate_label ''Tool'' ''software name'' 256 = Inr ()"
    "validate_filename ''tool.exe'' = Inr ()"
    by code_simp+
  moreover have "sample_url_parse (sp_url sample_software) =
      Some \<lparr>url_scheme = ''https'', url_username = [], url_password = None, url_host = Some ''example.com''\<rparr>"
    by (simp add: sample_url_parse_def sample_software_def)
  ultimately have "\<exists>seen. validate_package sample_url_parse ({}, {}) sample_software = Inr seen"
    using sample_software_parses
    by (simp add: validate_package_def anonymous_http_def) (simp add: sample_software_def)
  then show ?thesis
    by (auto simp: validate_selected_packages_def MAX_SELECTED_SOFTWARE_PACKAGES_def)
qed

lemma validated_selection_has_safe_plan_witness:
  "\<exists>e. first_logon_plan sample_url_parse [sample_software] = Inr [e] \<and> entry_safe sample_software e \<and> fe_program e \<noteq> []"
proof -
  from validated_selection_has_safe_plan [OF sample_software_validated] obtain entries where
    "first_logon_plan sample_url_parse [sample_software] = Inr entries" "list_all2 entry_safe [sample_software] entries"
    by blast
  then show ?thesis by (auto simp: list_all2_Cons1 entry_safe_def)
qed

text \<open>The selection survives the configuration that carries it: what was encoded is decoded as it was, validated
  again on the other side.\<close>

theorem selection_roundtrip:
  assumes "encode_selected_packages url_parse to_json to_base64 ps = Inr encoded"
    and json: "\<And>json. to_json ps = Some json \<Longrightarrow> of_json json = Some ps"
    and base64: "\<And>bs. of_base64 (to_base64 bs) = Some bs \<and> trim (to_base64 bs) = to_base64 bs \<and>
      length (to_base64 bs) \<le> 2 * length bs"
  shows "decode_selected_packages url_parse of_json of_base64 encoded = Inr ps"
proof -
  from assms(1) obtain bs where *: "validate_selected_packages url_parse ps = Inr ()" "to_json ps = Some bs"
      "length bs \<le> MAX_SELECTED_SOFTWARE_CONFIG_BYTES" "encoded = to_base64 bs"
    by (auto simp: encode_selected_packages_def res_simps)
  have "length encoded \<le> MAX_SELECTED_SOFTWARE_CONFIG_BYTES * 2"
    using base64 [of bs] *(3,4) by simp
  then show ?thesis
    using base64 [of bs] json *  by (simp add: decode_selected_packages_def not_less)
qed

end
