(* ===== verification/RecoveryKeys.thy ===== *)
theory RecoveryKeys
  imports ConfigText PartitionDisk
begin

section \<open>BitLocker recovery passwords on their way to the boot environment\<close>

text \<open>
  \<open>lr-core/src/bl_passthrough.rs\<close> and \<open>format_recovery_key\<close> of \<open>fveapi.rs\<close>: the bundle of recovery passwords that
  the private boot image carries, and its strict parser. The clearing of memory is left out.
\<close>

definition KEYS_MAGIC :: string where "KEYS_MAGIC = ''LRBL1''"
definition MAX_KEYS :: nat where "MAX_KEYS = 26"
definition MAX_BUNDLE_BYTES :: nat where "MAX_BUNDLE_BYTES = 32768"
definition KEYS_FILE_NAME :: string where "KEYS_FILE_NAME = ''LR_BitLockerKeys.txt''"

text \<open>Eight groups of six digits; everything else in the input is skipped.\<close>

definition format_recovery_key :: "string \<Rightarrow> string + string" where
  "format_recovery_key input =
     (let digits = filter is_digit input in
      if length digits \<noteq> 48 then Inl ''recovery key must have 48 digits''
      else Inr (join_words ''-'' (map (\<lambda>i. take 6 (drop (i * 6) digits)) [0..<8])))"

definition bundle_lines :: "string list \<Rightarrow> string list" where
  "bundle_lines keys = KEYS_MAGIC # (''Count='' @ show_nat (length keys)) # map (\<lambda>k. ''Key='' @ k) keys"

definition add_key :: "string list \<Rightarrow> string \<Rightarrow> string + string list" where
  "add_key keys entry = and_then (format_recovery_key entry) (\<lambda>key.
     Inr (if key \<in> set keys then keys else keys @ [key]))"

definition serialize_keys :: "string list \<Rightarrow> string + bytes" where
  "serialize_keys entries =
     and_then (try_fold add_key [] entries) (\<lambda>keys.
     and_then (ensure (\<not> (keys = [] \<or> MAX_KEYS < length keys))
       ''BitLocker recovery-password count is outside the supported range'') (\<lambda>_.
     and_then (ensure (\<not> MAX_BUNDLE_BYTES < length (crlf_text (bundle_lines keys)))
       ''BitLocker recovery-password bundle exceeds its byte limit'') (\<lambda>_.
     Inr (crlf_text (bundle_lines keys)))))"

fun parse_key_lines :: "nat \<Rightarrow> string list \<Rightarrow> string list \<Rightarrow> string + (string list \<times> string list)" where
  "parse_key_lines 0 ls keys = Inr (keys, ls)"
| "parse_key_lines (Suc n) ls keys =
     and_then (ok_or (case ls of [] \<Rightarrow> None | l # _ \<Rightarrow> strip_prefix ''Key='' l)
       ''BitLocker recovery-password entry is missing'') (\<lambda>raw.
     and_then (format_recovery_key raw) (\<lambda>key.
     and_then (ensure (key \<notin> set keys) ''BitLocker recovery-password bundle contains a duplicate'') (\<lambda>_.
     parse_key_lines n (tl ls) (keys @ [key]))))"

definition parse_keys :: "bytes \<Rightarrow> string + string list" where
  "parse_keys content =
     and_then (ensure (\<not> (content = [] \<or> MAX_BUNDLE_BYTES < length content))
       ''BitLocker recovery-password bundle length is outside its limit'') (\<lambda>_.
     and_then (ensure (utf8_valid content) ''BitLocker recovery-password bundle is not UTF-8'') (\<lambda>_.
     and_then (ensure (\<not> (\<not> ends_with CRLF content \<or> contains_any [CR, LF] (remove_crlf content)))
       ''BitLocker recovery-password bundle has invalid line endings'') (\<lambda>_.
     (let ls = split_crlf content in
     and_then (ensure (hd ls = KEYS_MAGIC) ''unsupported BitLocker recovery-password bundle'') (\<lambda>_.
     and_then (ok_or (case tl ls of [] \<Rightarrow> None | l # _ \<Rightarrow> strip_prefix ''Count='' l)
       ''BitLocker recovery-password bundle has no count'') (\<lambda>count_text.
     and_then (ok_or (parse_uint (2 ^ 64) count_text) ''BitLocker recovery-password count is invalid'') (\<lambda>count.
     and_then (ensure (\<not> (count = 0 \<or> MAX_KEYS < count))
       ''BitLocker recovery-password count is outside the supported range'') (\<lambda>_.
     and_then (parse_key_lines count (tl (tl ls)) []) (\<lambda>(keys, rest).
     and_then (ensure (list_all (\<lambda>l. l = []) rest) ''BitLocker recovery-password bundle has trailing fields'') (\<lambda>_.
     and_then (serialize_keys keys) (\<lambda>canonical.
     and_then (ensure (canonical = content) ''BitLocker recovery-password bundle is not canonical'') (\<lambda>_.
     Inr keys))))))))))))"

subsection \<open>Canonical keys\<close>

definition canonical_key :: "string \<Rightarrow> bool" where
  "canonical_key k \<longleftrightarrow> (\<exists>digits. length digits = 48 \<and> list_all is_digit digits \<and>
     k = join_words ''-'' (map (\<lambda>i. take 6 (drop (i * 6) digits)) [0..<8]))"

lemma groups_of_six:
  assumes "length digits = 48"
  shows "concat (map (\<lambda>i. take 6 (drop (i * 6) digits)) [0..<8]) = digits"
proof -
  have "take 6 (drop n digits) @ drop (n + 6) digits = drop n digits" for n
    by (metis append_take_drop_id add.commute drop_drop)
  note step = this
  have "drop 48 digits = []" using assms by simp
  then show ?thesis
    using step [of 0] step [of 6] step [of 12] step [of 18] step [of 24] step [of 30] step [of 36] step [of 42]
    by (simp add: upt_rec numeral_eq_Suc)
qed

lemma filter_join: "list_all (\<lambda>d. \<not> P d) sep \<Longrightarrow> list_all (list_all P) ws \<Longrightarrow> filter P (join_words sep ws) = concat ws"
  by (induction sep ws rule: join_words.induct) (auto simp: list_all_iff filter_empty_conv intro: filter_True)

lemma format_Inr: "format_recovery_key s = Inr k \<Longrightarrow> canonical_key k"
  by (auto simp: format_recovery_key_def canonical_key_def Let_def list_all_iff split: if_splits)

lemma format_canonical:
  assumes "canonical_key k"
  shows "format_recovery_key k = Inr k"
proof -
  obtain digits where d: "length digits = 48" "list_all is_digit digits"
      and k: "k = join_words ''-'' (map (\<lambda>i. take 6 (drop (i * 6) digits)) [0..<8])"
    using assms by (auto simp: canonical_key_def)
  have "list_all (list_all is_digit) (map (\<lambda>i. take 6 (drop (i * 6) digits)) [0..<8])"
    using d(2) by (auto simp: list_all_iff dest: in_set_takeD in_set_dropD)
  then have "filter is_digit k = digits"
    unfolding k using groups_of_six [OF d(1)] by (subst filter_join) (simp_all add: is_digit_def)
  with d(1) show ?thesis by (simp add: format_recovery_key_def k)
qed

interpretation recovery_key_codec: text_codec "\<lambda>k. k" format_recovery_key canonical_key
proof
  fix k assume k: "canonical_key k"
  then show "format_recovery_key k = Inr k" by (rule format_canonical)
  from k obtain digits where d: "list_all is_digit digits"
      "k = join_words ''-'' (map (\<lambda>i. take 6 (drop (i * 6) digits)) [0..<8])"
    by (auto simp: canonical_key_def)
  have "list_all printable (join_words sep ws)" if "list_all printable sep" "list_all (list_all printable) ws" for sep ws
    using that by (induction sep ws rule: join_words.induct) simp_all
  moreover have "list_all (list_all printable) (map (\<lambda>i. take 6 (drop (i * 6) digits)) [0..<8])"
    using d(1) digit_printable by (auto simp: list_all_iff dest!: in_set_takeD in_set_dropD)
  ultimately show "list_all printable k" unfolding d(2) by (simp add: printable_def)
qed

subsection \<open>The bundle\<close>

definition bundle_ok :: "string list \<Rightarrow> bool" where
  "bundle_ok ks \<longleftrightarrow> list_all canonical_key ks \<and> distinct ks"

lemma add_keys_canonical:
  "list_all canonical_key ks \<Longrightarrow> distinct (acc @ ks) \<Longrightarrow> try_fold add_key acc ks = Inr (acc @ ks)"
proof (induction ks arbitrary: acc)
  case (Cons k ks)
  then have "add_key acc k = Inr (acc @ [k])"
    by (simp add: add_key_def format_canonical)
  with Cons.IH [of "acc @ [k]"] Cons.prems show ?case by simp
qed simp

lemma add_keys_ok: "try_fold add_key acc entries = Inr ks \<Longrightarrow> bundle_ok acc \<Longrightarrow> bundle_ok ks"
proof (induction entries arbitrary: acc)
  case (Cons e es)
  then obtain acc' where acc': "add_key acc e = Inr acc'" "try_fold add_key acc' es = Inr ks"
    by (auto simp: res_simps)
  then have "bundle_ok acc'"
    using Cons.prems(2) format_Inr by (auto simp: add_key_def bundle_ok_def res_simps split: if_splits)
  with Cons.IH acc' show ?case by blast
qed simp

lemma parse_key_lines_written:
  "list_all canonical_key ks \<Longrightarrow> distinct (acc @ ks) \<Longrightarrow>
    parse_key_lines (length ks) (map (\<lambda>k. ''Key='' @ k) ks @ rest) acc = Inr (acc @ ks, rest)"
proof (induction ks arbitrary: acc)
  case (Cons k ks)
  have "strip_prefix ''Key='' (''Key='' @ k) = Some k" by (rule strip_prefix_append)
  then show ?case
    using Cons.prems Cons.IH [of "acc @ [k]"] by (simp add: format_canonical)
qed simp

lemma parse_key_lines_ok:
  "parse_key_lines n ls acc = Inr (ks, rest) \<Longrightarrow> bundle_ok acc \<Longrightarrow> bundle_ok ks"
proof (induction n ls acc rule: parse_key_lines.induct)
  case (2 n ls keys)
  then obtain raw key where step: "format_recovery_key raw = Inr key" "key \<notin> set keys"
      "parse_key_lines n (tl ls) (keys @ [key]) = Inr (ks, rest)"
      "ok_or (case ls of [] \<Rightarrow> None | l # _ \<Rightarrow> strip_prefix ''Key='' l) ''BitLocker recovery-password entry is missing'' = Inr raw"
    by (auto simp: res_simps)
  moreover have "bundle_ok (keys @ [key])"
    using 2(3) step(1,2) format_Inr by (auto simp: bundle_ok_def)
  ultimately show ?case using 2(1) by (auto simp: res_simps)
qed simp

lemma bundle_printable:
  assumes "list_all canonical_key ks"
  shows "list_all (list_all printable) (bundle_lines ks)"
proof -
  have "list_all (list_all printable) ks"
    using assms recovery_key_codec.print_clean unfolding list_all_iff by blast
  moreover have "list_all printable (show_nat (length ks))" by (rule show_nat_printable)
  ultimately show ?thesis
    by (simp add: bundle_lines_def KEYS_MAGIC_def list_all_iff) (simp add: printable_def)
qed

lemma serialize_canonical:
  "bundle_ok ks \<Longrightarrow> serialize_keys ks = Inr bs \<longleftrightarrow>
    0 < length ks \<and> length ks \<le> MAX_KEYS \<and> length bs \<le> MAX_BUNDLE_BYTES \<and> bs = crlf_text (bundle_lines ks)"
proof -
  assume "bundle_ok ks"
  then have "try_fold add_key [] ks = Inr ks" using add_keys_canonical [of ks "[]"] by (simp add: bundle_ok_def)
  then show ?thesis
    by (simp add: serialize_keys_def res_simps not_less) (safe; simp)
qed

lemma bundle_read:
  assumes "bundle_ok ks" and "serialize_keys ks = Inr bs"
  shows "parse_keys bs = Inr ks"
proof -
  have bs: "0 < length ks" "length ks \<le> MAX_KEYS" "length bs \<le> MAX_BUNDLE_BYTES" "bs = crlf_text (bundle_lines ks)"
    using iffD1 [OF serialize_canonical [OF assms(1)] assms(2)] by blast+
  have canonical: "list_all canonical_key ks" "distinct ks" using assms(1) by (simp_all add: bundle_ok_def)
  note printable = bundle_printable [OF canonical(1)]
  then have plain: "list_all plain_line (bundle_lines ks)" by (auto simp: list_all_iff intro!: printable_line)
  have utf8: "utf8_valid bs" unfolding bs(4) by (rule utf8_valid_crlf_text [OF printable])
  have ends: "ends_with CRLF bs"
    by (cases "bundle_lines ks" rule: rev_cases)
      (simp_all add: bs(4) crlf_text_def ends_with_def strip_suffix_def bundle_lines_def)
  have "plain_line (concat ls)" if "list_all plain_line ls" for ls
    using that by (induction ls) simp_all
  then have endings: "\<not> contains_any [CR, LF] (remove_crlf bs)"
    unfolding bs(4) remove_crlf_text [OF plain] using plain by (auto simp: contains_any_iff plain_line_def)
  have split: "split_crlf bs = KEYS_MAGIC # (''Count='' @ show_nat (length ks)) # map (\<lambda>k. ''Key='' @ k) ks @ [[]]"
    unfolding bs(4) split_crlf_text [OF plain] by (simp add: bundle_lines_def)
  have count: "strip_prefix ''Count='' (''Count='' @ show_nat (length ks)) = Some (show_nat (length ks))"
    by (rule strip_prefix_append)
  have "length ks < 2 ^ 64" using bs(2) by (simp add: MAX_KEYS_def)
  moreover have "parse_key_lines (length ks) (map (\<lambda>k. ''Key='' @ k) ks @ [[]]) [] = Inr (ks, [[]])"
    using parse_key_lines_written [of ks "[]"] canonical by simp
  moreover have "bs \<noteq> []" using split by auto
  ultimately show ?thesis
    using bs(1-3) utf8 ends endings assms(2) count by (simp add: parse_keys_def split Let_def)
qed

lemma bundle_accepted:
  assumes "parse_keys bs = Inr ks"
  shows "bundle_ok ks" "serialize_keys ks = Inr bs"
proof -
  obtain n ls rest where "parse_key_lines n ls [] = Inr (ks, rest)" and "serialize_keys ks = Inr bs"
    using assms unfolding parse_keys_def Let_def by (auto simp: res_simps)
  then show "bundle_ok ks" "serialize_keys ks = Inr bs"
    using parse_key_lines_ok by (simp_all add: bundle_ok_def)
qed

text \<open>C31. The parser of the recovery passwords accepts exactly the bundles that the writer makes of distinct canonical
  keys, and returns these keys; and whatever the user typed, what the writer makes of it is such a bundle.\<close>

theorem key_bundle_exact:
  "(parse_keys bs = Inr ks \<longleftrightarrow> bundle_ok ks \<and> serialize_keys ks = Inr bs) \<and>
   (serialize_keys entries = Inr bs \<longrightarrow> (\<exists>keys. parse_keys bs = Inr keys \<and> try_fold add_key [] entries = Inr keys))"
proof (intro conjI impI)
  show "parse_keys bs = Inr ks \<longleftrightarrow> bundle_ok ks \<and> serialize_keys ks = Inr bs"
    using bundle_read bundle_accepted by blast
  assume written: "serialize_keys entries = Inr bs"
  then obtain keys where keys: "try_fold add_key [] entries = Inr keys"
    by (auto simp: serialize_keys_def res_simps)
  then have ok: "bundle_ok keys" using add_keys_ok [of "[]"] by (simp add: bundle_ok_def)
  have "serialize_keys keys = Inr bs"
    using written keys ok add_keys_canonical [of keys "[]"] by (simp add: serialize_keys_def bundle_ok_def)
  with ok keys show "\<exists>keys. parse_keys bs = Inr keys \<and> try_fold add_key [] entries = Inr keys"
    using bundle_read by blast
qed

lemma key_bundle_exact_witness:
  "\<exists>bs keys. serialize_keys [replicate 48 (CHR ''1'')] = Inr bs \<and> parse_keys bs = Inr keys \<and> keys \<noteq> []"
proof -
  let ?key = "join_words ''-'' (map (\<lambda>i. take 6 (drop (i * 6) (replicate 48 (CHR ''1'')))) [0..<8])"
  have "format_recovery_key (replicate 48 (CHR ''1'')) = Inr ?key"
    by (simp add: format_recovery_key_def is_digit_def)
  then have keys: "try_fold add_key [] [replicate 48 (CHR ''1'')] = Inr [?key]" by (simp add: add_key_def)
  have "length (join_words sep ws) \<le> length (concat ws) + length sep * length ws" for sep ws
    by (induction sep ws rule: join_words.induct) simp_all
  from this [of "''-''" "map (\<lambda>i. take 6 (drop (i * 6) (replicate 48 (CHR ''1'')))) [0..<8]"]
  have "length ?key \<le> 56" unfolding groups_of_six [OF length_replicate] by simp
  moreover have "show_nat 1 = ''1''" by code_simp
  ultimately have "length (crlf_text (bundle_lines [?key])) \<le> MAX_BUNDLE_BYTES"
    by (simp add: bundle_lines_def crlf_text_def KEYS_MAGIC_def MAX_BUNDLE_BYTES_def)
  with keys have "\<exists>bs. serialize_keys [replicate 48 (CHR ''1'')] = Inr bs"
    by (simp add: serialize_keys_def MAX_KEYS_def)
  then obtain bs where bs: "serialize_keys [replicate 48 (CHR ''1'')] = Inr bs" by blast
  with keys show ?thesis using key_bundle_exact [of bs _ "[replicate 48 (CHR ''1'')]"] by fastforce
qed

end
