(* ===== verification/BootTask.thy ===== *)
theory BootTask
  imports ExpandHandoff Backup SoftwareInstall RecoveryKeys
begin

section \<open>The task the boot environment accepts\<close>

text \<open>
  \<open>config.rs\<close> of the boot environment: from the files in the private boot image to the one task object that the
  destructive workers accept. The guard holds the capsule, the configuration, the manifest and the protected
  secrets of the boot image; the task adds the volumes found by their random markers and every public file,
  locked and compared with the manifest.

  What Windows answers is the record \<open>boot_env\<close>. A file is opened once and kept open with writing and deletion
  denied, so its bytes are fixed; the pins of its directories and the binding of its name are checked again
  later, and the answers may differ from check to check, hence the number of the check as an argument.
  Progress reports are left out.
\<close>

subsection \<open>Files and volumes\<close>

record boot_env =
  be_payload :: "string \<Rightarrow> string + bytes"
  be_pinned :: "nat \<Rightarrow> string \<Rightarrow> string + unit"
  be_volumes :: "string + string list"
  be_identity :: "string \<Rightarrow> string + volume_identity"
  be_letters :: "u32 \<Rightarrow> u64 \<Rightarrow> string + char list"
  be_free_letter :: "char option"
  be_layout :: "u32 \<Rightarrow> string + unit"
  be_assign :: "volume_identity \<Rightarrow> char \<Rightarrow> string + unit"
  be_letter_identity :: "char \<Rightarrow> string + volume_identity"
  be_unassign :: "volume_identity \<Rightarrow> char \<Rightarrow> string + unit"
  be_artifact :: "string \<Rightarrow> string + (string \<times> bytes)"
  be_bound :: "nat \<Rightarrow> string \<Rightarrow> string + unit"
  be_files :: "nat \<Rightarrow> span_fs"
  be_protected_directory :: "string \<Rightarrow> string + unit"
  be_custody :: "nat \<Rightarrow> string \<Rightarrow> string + unit"

definition X_drive :: "string \<Rightarrow> string" where
  "X_drive file_name = ''X:'' @ [BSLASH] @ file_name"

definition HANDOFF_CAPSULE_PATH :: string where "HANDOFF_CAPSULE_PATH = X_drive ''LR_HandoffAuth.txt''"
definition HANDOFF_CONFIG_PATH :: string where "HANDOFF_CONFIG_PATH = X_drive ''LR_HandoffConfig.ini''"
definition HANDOFF_MANIFEST_PATH :: string where "HANDOFF_MANIFEST_PATH = X_drive ''LR_HandoffManifest.txt''"
definition HANDOFF_WIFI_PATH :: string where "HANDOFF_WIFI_PATH = X_drive ''LR_WifiProfile.xml''"
definition HANDOFF_ADMINISTRATOR_PATH :: string where "HANDOFF_ADMINISTRATOR_PATH = X_drive ''LR_AdministratorSecret.txt''"
definition HANDOFF_BITLOCKER_PATH :: string where "HANDOFF_BITLOCKER_PATH = X_drive ''LR_BitLockerKeys.txt''"
definition PROTECTED_ADMINISTRATOR_SECRET_FILE_NAME :: string where
  "PROTECTED_ADMINISTRATOR_SECRET_FILE_NAME = ''LR_AdministratorSecret.txt''"
definition DATA_VOLUME_MARKER_NAME :: string where "DATA_VOLUME_MARKER_NAME = ''LetRecovery_Data.marker''"
definition INSTALL_TARGET_MARKER_NAME :: string where "INSTALL_TARGET_MARKER_NAME = ''LetRecovery_Target.marker''"
definition FULL_DISK_MARKER_NAME :: string where "FULL_DISK_MARKER_NAME = ''LetRecovery_FullDisk.marker''"
definition SCATTER_MARKER_NAME :: string where "SCATTER_MARKER_NAME = ''LetRecovery_Scatter.marker''"
definition DATA_DIR :: string where "DATA_DIR = ''LetRecovery_Data''"
definition IMAGE_CHUNK_DIRECTORY :: string where "IMAGE_CHUNK_DIRECTORY = ''image_chunks''"
definition VERBATIM_PREFIX :: string where "VERBATIM_PREFIX = [BSLASH, BSLASH, CHR ''?'', BSLASH]"

text \<open>\<open>LockedBootPayloadFile::open\<close>: the size of an ordinary file is limited before it is read.\<close>

definition open_payload :: "boot_env \<Rightarrow> string \<Rightarrow> nat \<Rightarrow> string + bytes" where
  "open_payload env path maximum =
     and_then (be_payload env path) (\<lambda>bs.
     and_then (ensure (\<not> (bs = [] \<or> maximum < length bs)) (''fixed boot payload size is outside its range: '' @ path)) (\<lambda>_.
     Inr bs))"

definition trim_end_char :: "(char \<Rightarrow> bool) \<Rightarrow> string \<Rightarrow> string" where
  "trim_end_char P s = rev (dropWhile P (rev s))"

subsection \<open>The guard\<close>

record operation_guard =
  gd_capsule :: auth_capsule
  gd_config :: bytes
  gd_manifest_bytes :: bytes
  gd_manifest :: manifest
  gd_wifi :: "bytes option"
  gd_administrator :: "bytes option"
  gd_bitlocker :: "bytes option"

definition authenticate_guard ::
  "(bytes \<Rightarrow> bytes) \<Rightarrow> (string \<Rightarrow> string \<Rightarrow> string + bool) \<Rightarrow> bytes \<Rightarrow> bytes \<Rightarrow> bytes \<Rightarrow> string + operation_guard" where
  "authenticate_guard sha same_path capsule_bytes config manifest_bytes =
     and_then (capsule_parse capsule_bytes) (\<lambda>capsule.
     and_then (capsule_verify_config sha (cap_purpose capsule) config capsule) (\<lambda>_.
     and_then (binding_from_config_bytes config) (\<lambda>b.
     and_then (binding_verify sha same_path b manifest_bytes) (\<lambda>m.
     and_then (ensure (\<not> (mf_purpose m \<noteq> cap_purpose capsule \<or> mf_session m \<noteq> cap_session capsule))
       ''handoff manifest purpose/session does not match authentication capsule'') (\<lambda>_.
     Inr \<lparr>gd_capsule = capsule, gd_config = config, gd_manifest_bytes = manifest_bytes, gd_manifest = m,
          gd_wifi = None, gd_administrator = None, gd_bitlocker = None\<rparr>)))))"

text \<open>\<open>PrivateWifiProfileBinding::from_bytes\<close> and \<open>verify\<close>; the digest is compared as text.\<close>

definition wifi_binding_of :: "(bytes \<Rightarrow> bytes) \<Rightarrow> bytes \<Rightarrow> string + payload_binding" where
  "wifi_binding_of sha bs =
     and_then (ensure (\<not> (bs = [] \<or> unat PRIVATE_WIFI_PROFILE_MAX_BYTES < length bs)) ''Wi-Fi profile size is outside its range'') (\<lambda>_.
     Inr \<lparr>pb_length = of_nat (length bs), pb_sha256 = encode_hex (sha bs)\<rparr>)"

definition wifi_binding_verify :: "(bytes \<Rightarrow> bytes) \<Rightarrow> payload_binding \<Rightarrow> bytes \<Rightarrow> string + unit" where
  "wifi_binding_verify sha b bs =
     and_then (wifi_binding_of sha bs) (\<lambda>actual.
     ensure (actual = b) ''private Wi-Fi profile does not match its authenticated binding'')"

text \<open>A protected file is its artifact of the manifest, byte by byte.\<close>

definition record_matches :: "(bytes \<Rightarrow> bytes) \<Rightarrow> artifact \<Rightarrow> bytes \<Rightarrow> bool" where
  "record_matches sha a bs \<longleftrightarrow> art_length a = of_nat (length bs) \<and> art_sha256 a = sha bs"

definition load_administrator :: "(bytes \<Rightarrow> bytes) \<Rightarrow> boot_env \<Rightarrow> operation_guard \<Rightarrow> string + bytes option" where
  "load_administrator sha env g = (case records_of ProtectedAdministratorSecret (mf_artifacts (gd_manifest g)) of
     [a] \<Rightarrow>
       and_then (ensure (\<not> (cap_purpose (gd_capsule g) \<noteq> Install \<or> art_location a \<noteq> ProtectedBoot \<or>
           art_path a \<noteq> PROTECTED_ADMINISTRATOR_SECRET_FILE_NAME))
         ''protected Administrator secret has an invalid install binding'') (\<lambda>_.
       and_then (open_payload env HANDOFF_ADMINISTRATOR_PATH SECRET_MAX_BYTES) (\<lambda>secret.
       and_then (ensure (record_matches sha a secret) ''protected Administrator secret does not match its manifest binding'') (\<lambda>_.
       and_then (parse_protected_secret secret) (\<lambda>_. Inr (Some secret)))))
   | [] \<Rightarrow> Inr None
   | _ \<Rightarrow> Inl ''install handoff has more than one protected Administrator secret'')"

definition load_bitlocker :: "(bytes \<Rightarrow> bytes) \<Rightarrow> boot_env \<Rightarrow> operation_guard \<Rightarrow> string + bytes option" where
  "load_bitlocker sha env g = (case records_of ProtectedBitLockerSecret (mf_artifacts (gd_manifest g)) of
     [a] \<Rightarrow>
       and_then (ensure (\<not> (cap_purpose (gd_capsule g) \<notin> {Install, Backup, Maintenance} \<or> art_location a \<noteq> ProtectedBoot \<or>
           art_path a \<noteq> KEYS_FILE_NAME))
         ''protected BitLocker secret has an invalid PE handoff binding'') (\<lambda>_.
       and_then (open_payload env HANDOFF_BITLOCKER_PATH MAX_BUNDLE_BYTES) (\<lambda>secret.
       and_then (ensure (record_matches sha a secret) ''protected BitLocker secret does not match its manifest binding'') (\<lambda>_.
       and_then (parse_keys secret) (\<lambda>_. Inr (Some secret)))))
   | [] \<Rightarrow> Inr None
   | _ \<Rightarrow> Inl ''PE handoff has more than one protected BitLocker secret'')"

definition load_wifi :: "(bytes \<Rightarrow> bytes) \<Rightarrow> boot_env \<Rightarrow> operation_guard \<Rightarrow> string + bytes option" where
  "load_wifi sha env g =
     and_then (ensure (utf8_valid (gd_config g)) ''authenticated handoff config is not UTF-8'') (\<lambda>_.
     and_then (private_wifi_binding_from_install_ini (gd_config g)) (\<lambda>binding.
     (case binding of
        None \<Rightarrow> Inr None
      | Some b \<Rightarrow>
          and_then (open_payload env HANDOFF_WIFI_PATH (unat PRIVATE_WIFI_PROFILE_MAX_BYTES)) (\<lambda>wifi.
          and_then (wifi_binding_verify sha b wifi) (\<lambda>_. Inr (Some wifi))))))"

definition discover ::
  "(bytes \<Rightarrow> bytes) \<Rightarrow> (string \<Rightarrow> string \<Rightarrow> string + bool) \<Rightarrow> boot_env \<Rightarrow> string + operation_guard" where
  "discover sha same_path env =
     and_then (open_payload env HANDOFF_CAPSULE_PATH AUTH_CAPSULE_MAX_BYTES) (\<lambda>capsule_bytes.
     and_then (open_payload env HANDOFF_CONFIG_PATH AUTH_CONFIG_MAX_BYTES) (\<lambda>config.
     and_then (open_payload env HANDOFF_MANIFEST_PATH HANDOFF_MANIFEST_MAX_BYTES) (\<lambda>manifest_bytes.
     and_then (authenticate_guard sha same_path capsule_bytes config manifest_bytes) (\<lambda>g.
     and_then (load_wifi sha env g) (\<lambda>wifi.
     and_then (load_administrator sha env g) (\<lambda>administrator.
     and_then (load_bitlocker sha env g) (\<lambda>bitlocker.
     Inr (g\<lparr>gd_wifi := wifi, gd_administrator := administrator, gd_bitlocker := bitlocker\<rparr>))))))))"

text \<open>\<open>verify_unchanged\<close>: the same comparisons on the bytes that are held.\<close>

definition check_wifi :: "(bytes \<Rightarrow> bytes) \<Rightarrow> boot_env \<Rightarrow> nat \<Rightarrow> operation_guard \<Rightarrow> string + unit" where
  "check_wifi sha env n g = (case gd_wifi g of
     None \<Rightarrow> Inr ()
   | Some wifi \<Rightarrow>
       and_then (be_pinned env n HANDOFF_WIFI_PATH) (\<lambda>_.
       and_then (ensure (utf8_valid (gd_config g)) ''authenticated handoff config is not UTF-8'') (\<lambda>_.
       and_then (private_wifi_binding_from_install_ini (gd_config g)) (\<lambda>binding.
       and_then (ok_or binding ''private Wi-Fi file exists without an authenticated binding'') (\<lambda>b.
       wifi_binding_verify sha b wifi)))))"

definition check_secret ::
  "(bytes \<Rightarrow> bytes) \<Rightarrow> boot_env \<Rightarrow> nat \<Rightarrow> operation_guard \<Rightarrow> artifact_role \<Rightarrow> string \<Rightarrow> bytes option \<Rightarrow> string + unit" where
  "check_secret sha env n g role path secret = (case secret of
     None \<Rightarrow> Inr ()
   | Some bs \<Rightarrow>
       and_then (be_pinned env n path) (\<lambda>_.
       and_then (ok_or (find (\<lambda>a. art_role a = role) (mf_artifacts (gd_manifest g)))
         ''protected secret exists without a manifest binding'') (\<lambda>a.
       and_then (ensure (record_matches sha a bs) ''protected secret changed after authentication'') (\<lambda>_.
       if role = ProtectedAdministratorSecret then and_then (parse_protected_secret bs) (\<lambda>_. Inr ()) else Inr ()))))"

definition guard_unchanged ::
  "(bytes \<Rightarrow> bytes) \<Rightarrow> (string \<Rightarrow> string \<Rightarrow> string + bool) \<Rightarrow> boot_env \<Rightarrow> nat \<Rightarrow> operation_guard \<Rightarrow> string + unit" where
  "guard_unchanged sha same_path env n g =
     and_then (be_pinned env n HANDOFF_CAPSULE_PATH) (\<lambda>_.
     and_then (be_pinned env n HANDOFF_CONFIG_PATH) (\<lambda>_.
     and_then (be_pinned env n HANDOFF_MANIFEST_PATH) (\<lambda>_.
     and_then (check_wifi sha env n g) (\<lambda>_.
     and_then (check_secret sha env n g ProtectedAdministratorSecret HANDOFF_ADMINISTRATOR_PATH (gd_administrator g)) (\<lambda>_.
     and_then (check_secret sha env n g ProtectedBitLockerSecret HANDOFF_BITLOCKER_PATH (gd_bitlocker g)) (\<lambda>_.
     and_then (capsule_verify_config sha (cap_purpose (gd_capsule g)) (gd_config g) (gd_capsule g)) (\<lambda>_.
     and_then (binding_from_config_bytes (gd_config g)) (\<lambda>b.
     and_then (binding_verify sha same_path b (gd_manifest_bytes g)) (\<lambda>_. Inr ())))))))))"

datatype operation_type = InstallOperation | BackupOperation | ExpandOperation

definition operation_type_of :: "operation_guard \<Rightarrow> operation_type option" where
  "operation_type_of g = (case cap_purpose (gd_capsule g) of
     Install \<Rightarrow> Some InstallOperation
   | Backup \<Rightarrow> Some BackupOperation
   | Expand \<Rightarrow> Some ExpandOperation
   | Maintenance \<Rightarrow> None)"

subsection \<open>The configuration of the task\<close>

datatype backup_format = FormatWim | FormatEsd | FormatSwm | FormatGho

definition backup_format_from_u8 :: "u8 \<Rightarrow> backup_format" where
  "backup_format_from_u8 v =
     (if v = 0 then FormatWim else if v = 1 then FormatEsd else if v = 2 then FormatSwm
      else if v = 3 then FormatGho else FormatWim)"

record pe_backup_config =
  pb_name :: string
  pb_description :: string
  pb_format :: backup_format
  pb_wim_engine :: u8
  pb_language :: string
  pb_handoff :: "backup_handoff option"

definition deserialize_backup_config :: "string \<Rightarrow> string + pe_backup_config" where
  "deserialize_backup_config content =
     and_then (parse_backup_payload content) (\<lambda>(p, h).
     Inr \<lparr>pb_name = bp_name p, pb_description = bp_description p, pb_format = backup_format_from_u8 (bp_format p),
          pb_wim_engine = bp_wim_engine p, pb_language = bp_language p, pb_handoff = Some h\<rparr>)"

datatype operation_config =
    InstallTask pe_install_config
  | BackupTask pe_backup_config
  | ExpandTask expand_config

definition read_operation_config ::
  "(string \<Rightarrow> install_plan option) \<Rightarrow> handoff_purpose \<Rightarrow> string \<Rightarrow> string + operation_config" where
  "read_operation_config from_str purpose content = (case purpose of
     Install \<Rightarrow> and_then (deserialize_install_config from_str content) (\<lambda>c. Inr (InstallTask c))
   | Backup \<Rightarrow> and_then (deserialize_backup_config content) (\<lambda>c. Inr (BackupTask c))
   | Expand \<Rightarrow> and_then (deserialize_expand_config content) (\<lambda>c. Inr (ExpandTask c))
   | Maintenance \<Rightarrow> Inl ''maintenance handoff does not contain an install/backup/expand task'')"

definition bind_protected_administrator_secret ::
  "pe_install_config \<Rightarrow> bytes option \<Rightarrow> string + pe_install_config" where
  "bind_protected_administrator_secret c secret =
     and_then (ensure (ba_password (pi_builtin_administrator c) = [])
       ''public install configuration contains an Administrator password'') (\<lambda>_.
     (case (ba_enabled (pi_builtin_administrator c), secret) of
        (True, Some bs) \<Rightarrow>
          and_then (parse_protected_secret bs) (\<lambda>password.
          (let a = (pi_builtin_administrator c)\<lparr>ba_password := password\<rparr> in
           and_then (map_err administrator_error_text (validate_administrator a)) (\<lambda>_.
           Inr (c\<lparr>pi_builtin_administrator := a\<rparr>))))
      | (False, None) \<Rightarrow> Inr c
      | (True, None) \<Rightarrow> Inl ''built-in Administrator is enabled without a protected boot secret''
      | (False, Some _) \<Rightarrow> Inl ''protected Administrator secret exists while the option is disabled''))"

definition bind_administrator :: "operation_config \<Rightarrow> bytes option \<Rightarrow> string + operation_config" where
  "bind_administrator config secret = (case config of
     InstallTask c \<Rightarrow> and_then (bind_protected_administrator_secret c secret) (\<lambda>c. Inr (InstallTask c))
   | _ \<Rightarrow> Inr config)"

subsection \<open>What the manifest must contain\<close>

definition role_count :: "manifest \<Rightarrow> artifact_role \<Rightarrow> nat" where
  "role_count m r = length (records_of r (mf_artifacts m))"

definition under :: "string list \<Rightarrow> string" where
  "under parts = concat (map (\<lambda>p. p @ [BSLASH]) parts)"

definition plain_path :: "artifact \<Rightarrow> string" where
  "plain_path a = strip_scatter_prefix (art_path a)"

definition supported_install_roles :: "artifact_role list" where
  "supported_install_roles =
     [InstallImageSpan, InstallImageChunk, XpSourceFile, PreservedDriver, UserDriver, PcaPackage, UefiSevenFile,
      PreinstalledSoftware, AutoPartitionMarker, ProtectedAdministratorSecret, ProtectedBitLockerSecret]"

definition check_receipt :: "pe_install_config \<Rightarrow> string + unit" where
  "check_receipt c =
     ensure (\<not> (pi_source_image_verified c \<and>
         \<not> (\<not> pi_is_gho c \<and> \<not> pi_is_xp_i386 c \<and> has_extension (pi_image_path c) [''wim'', ''esd''])))
       ''authenticated source verification receipt is limited to one-file WIM/ESD sources''"

definition xp_prefix :: "pe_install_config \<Rightarrow> string" where
  "xp_prefix c = under [DATA_DIR, trim_end_char is_path_separator (pi_image_path c), pi_xp_source_arch c]"

definition check_xp_source :: "pe_install_config \<Rightarrow> manifest \<Rightarrow> string + unit" where
  "check_xp_source c m =
     and_then (ensure (\<not> (role_count m InstallImageSpan \<noteq> 0 \<or> role_count m InstallImageChunk \<noteq> 0 \<or> role_count m XpSourceFile = 0))
       ''XP directory install must have only XP source artifacts'') (\<lambda>_.
     and_then (ensure (pi_xp_source_arch c \<in> {''I386'', ''AMD64''}) ''authenticated XP source architecture is invalid'') (\<lambda>_.
     ensure (\<not> list_ex (\<lambda>a. \<not> starts_with (xp_prefix c) (plain_path a)) (records_of XpSourceFile (mf_artifacts m)))
       ''XP manifest artifact escapes the configured source/architecture''))"

definition add_chunk :: "u64 \<Rightarrow> artifact \<Rightarrow> string + u64" where
  "add_chunk n a =
     and_then (ensure (starts_with (under [DATA_DIR, IMAGE_CHUNK_DIRECTORY]) (plain_path a))
       ''authenticated image chunk has an unexpected path'') (\<lambda>_.
     ok_or (checked_add n (art_length a)) ''authenticated image chunk length overflow'')"

definition check_chunks :: "pe_install_config \<Rightarrow> manifest \<Rightarrow> string + unit" where
  "check_chunks c m =
     and_then (ensure (\<not> (role_count m InstallImageSpan \<noteq> 0 \<or> role_count m XpSourceFile \<noteq> 0 \<or> role_count m InstallImageChunk = 0))
       ''chunked image install requires raw image chunks only'') (\<lambda>_.
     and_then (try_fold add_chunk 0 (records_of InstallImageChunk (mf_artifacts m))) (\<lambda>n.
     and_then (ensure (n = pi_image_chunked_length c)
       ''authenticated image chunks do not add up to the configured image length'') (\<lambda>_.
     ensure (length (pi_image_chunked_sha256 c) = 64) ''chunked image configuration has no whole-image SHA-256'')))"

definition check_spans :: "pe_install_config \<Rightarrow> manifest \<Rightarrow> string + unit" where
  "check_spans c m =
     and_then (ensure (\<not> (role_count m InstallImageSpan = 0 \<or> role_count m XpSourceFile \<noteq> 0 \<or> role_count m InstallImageChunk \<noteq> 0))
       ''PE image install requires one or more authenticated image spans'') (\<lambda>_.
     ensure (list_ex (\<lambda>a. art_role a = InstallImageSpan \<and> art_ordinal a = 0 \<and>
         plain_path a = under [DATA_DIR] @ pi_image_path c) (mf_artifacts m))
       ''configured install image is absent from authenticated spans'')"

definition check_pca :: "pe_install_config \<Rightarrow> manifest \<Rightarrow> string + unit" where
  "check_pca c m =
     (let pca = records_of PcaPackage (mf_artifacts m) in
      if pi_pca_compat_package c = [] then ensure (pca = []) ''PCA artifact exists while PCA compatibility is disabled''
      else
        and_then (ensure (\<not> (length pca \<noteq> 1 \<or> plain_path (hd pca) \<noteq> under [DATA_DIR] @ pi_pca_compat_package c))
          ''PCA config does not bind exactly one matching manifest artifact'') (\<lambda>_.
        and_then (decode_hex_array 32 (pi_pca_compat_sha256 c) ''PCA compatibility SHA-256'') (\<lambda>expected.
        ensure (art_sha256 (hd pca) = expected) ''PCA manifest digest does not match the authenticated config'')))"

definition SOFTWARE_PREFIX :: string where "SOFTWARE_PREFIX = under [DATA_DIR, ''preinstalled_software'']"

definition selected_preinstalled_software ::
  "(string \<Rightarrow> string + software_package list) \<Rightarrow> pe_install_config \<Rightarrow> string + software_package list" where
  "selected_preinstalled_software decode c =
     (if pi_preinstalled_software_config c = [] then Inr [] else decode (pi_preinstalled_software_config c))"

definition software_name :: "artifact \<Rightarrow> string + string" where
  "software_name a =
     ok_or (Option.bind (strip_prefix SOFTWARE_PREFIX (plain_path a))
         (\<lambda>v. if v \<noteq> [] \<and> \<not> contains_any [BSLASH, CHR ''/''] v then Some v else None))
       ''preinstalled-software artifact has an unexpected path''"

definition add_software_name :: "string set \<Rightarrow> artifact \<Rightarrow> string + string set" where
  "add_software_name seen a =
     and_then (software_name a) (\<lambda>name.
     and_then (ensure (map to_lower name \<notin> seen) ''preinstalled-software manifest filename appears more than once'') (\<lambda>_.
     Inr (insert (map to_lower name) seen)))"

definition check_software ::
  "(string \<Rightarrow> string + software_package list) \<Rightarrow> pe_install_config \<Rightarrow> manifest \<Rightarrow> string + unit" where
  "check_software decode c m =
     and_then (selected_preinstalled_software decode c) (\<lambda>selected.
     (let expected = map (\<lambda>p. map to_lower (sp_filename p)) selected;
          recs = records_of PreinstalledSoftware (mf_artifacts m) in
      and_then (ensure (length recs = length (remdups expected))
        ''preinstalled-software manifest count does not match the authenticated selection'') (\<lambda>_.
      and_then (try_fold add_software_name {} recs) (\<lambda>actual.
      ensure (actual = set expected) ''preinstalled-software manifest filenames do not match the authenticated selection''))))"

definition check_directories :: "manifest \<Rightarrow> string + unit" where
  "check_directories m =
     try_fold (\<lambda>_ (r, prefix). ensure (\<not> list_ex (\<lambda>a. \<not> starts_with prefix (plain_path a)) (records_of r (mf_artifacts m)))
         ''authenticated directory artifact has an unexpected root'') ()
       [(PreservedDriver, under [DATA_DIR, ''drivers'']), (UserDriver, under [DATA_DIR, ''user_drivers'']),
        (UefiSevenFile, under [DATA_DIR, ''uefiseven'']), (PreinstalledSoftware, SOFTWARE_PREFIX)]"

definition validate_install_semantics ::
  "(string \<Rightarrow> string + software_package list) \<Rightarrow> pe_install_config \<Rightarrow> manifest \<Rightarrow> string + unit" where
  "validate_install_semantics decode c m =
     and_then (ensure (pi_session_id c = mf_session m) ''install config session does not match authenticated manifest'') (\<lambda>_.
     and_then (ensure (list_all (\<lambda>a. art_role a \<in> set supported_install_roles) (mf_artifacts m))
       ''install handoff contains an unsupported active artifact role'') (\<lambda>_.
     and_then (check_receipt c) (\<lambda>_.
     and_then (ensure (ba_enabled (pi_builtin_administrator c) = (role_count m ProtectedAdministratorSecret = 1))
       ''protected Administrator manifest does not match the authenticated option'') (\<lambda>_.
     and_then (ensure (\<not> 1 < role_count m ProtectedAdministratorSecret)
       ''install handoff has more than one protected Administrator secret'') (\<lambda>_.
     and_then (if pi_is_xp_i386 c then check_xp_source c m
               else if pi_image_chunked c then check_chunks c m else check_spans c m) (\<lambda>_.
     and_then (check_pca c m) (\<lambda>_.
     and_then (ensure (pi_has_driver_data c = (role_count m PreservedDriver \<noteq> 0))
       ''preserved-driver manifest does not match the authenticated mode'') (\<lambda>_.
     and_then (ensure ((pi_win7_uefi_patch c \<and> pi_repair_boot c) = (role_count m UefiSevenFile \<noteq> 0))
       ''UefiSeven manifest does not match the authenticated install options'') (\<lambda>_.
     and_then (check_software decode c m) (\<lambda>_.
     check_directories m))))))))))"

definition validate_authenticated_manifest_semantics ::
  "(string \<Rightarrow> string + software_package list) \<Rightarrow> operation_config \<Rightarrow> manifest \<Rightarrow> string + unit" where
  "validate_authenticated_manifest_semantics decode config m = (case config of
     InstallTask c \<Rightarrow> validate_install_semantics decode c m
   | BackupTask c \<Rightarrow>
       and_then (ok_or (pb_handoff c) ''authenticated backup has no LRBK2 authorization'') (\<lambda>h.
       and_then (ensure (bh_session h = mf_session m) ''backup config session does not match authenticated manifest'') (\<lambda>_.
       and_then (ensure (list_all (\<lambda>a. art_role a = ProtectedBitLockerSecret) (mf_artifacts m))
         ''create-only PE backup contains an unsupported public artifact'') (\<lambda>_.
       ensure (\<not> 1 < role_count m ProtectedBitLockerSecret)
         ''backup handoff has more than one protected BitLocker secret'')))
   | ExpandTask c \<Rightarrow>
       and_then (ensure (ec_session c = mf_session m) ''expand config session does not match authenticated manifest'') (\<lambda>_.
       ensure (mf_artifacts m = []) ''expand handoff must not contain external artifacts''))"

subsection \<open>Volumes found by their markers\<close>

record located_volume =
  lv_partition :: string
  lv_root :: string
  lv_expected :: volume_identity
  lv_marker :: bytes
  lv_marker_path :: string

definition locate_step ::
  "boot_env \<Rightarrow> string \<Rightarrow> string \<Rightarrow> bytes \<Rightarrow> located_volume option \<Rightarrow> string \<Rightarrow> string + located_volume option" where
  "locate_step env marker_name token expected selected root =
     (case open_payload env (join_path root marker_name) 4096 of
        Inl _ \<Rightarrow> Inr selected
      | Inr marker \<Rightarrow>
          if marker \<noteq> expected \<or> \<not> locator_marker_matches marker token then Inr selected
          else
            and_then (be_identity env root) (\<lambda>identity.
            (case selected of
               Some current \<Rightarrow>
                 if same_volume_identity (lv_expected current) identity then Inr selected
                 else Inl ''multiple volumes contain the exact authenticated locator''
             | None \<Rightarrow>
                 and_then (be_letters env (vi_disk identity) (vi_offset identity)) (\<lambda>letters.
                 Inr (Some \<lparr>lv_partition = (case letters of
                                [] \<Rightarrow> trim_end_char (\<lambda>c. c = BSLASH) root
                              | letter # _ \<Rightarrow> [letter, CHR '':'']),
                            lv_root = root, lv_expected = identity, lv_marker = marker,
                            lv_marker_path = join_path root marker_name\<rparr>)))))"

definition find_volume_locator :: "boot_env \<Rightarrow> string \<Rightarrow> string \<Rightarrow> string + located_volume" where
  "find_volume_locator env marker_name token =
     and_then (locator_marker_bytes token) (\<lambda>expected.
     and_then (be_volumes env) (\<lambda>roots.
     and_then (try_fold (locate_step env marker_name token expected) None roots) (\<lambda>selected.
     ok_or selected ''no volume contains the exact authenticated locator'')))"

text \<open>
  A target without a drive letter gets one while the task lives. The second component of the result are the
  letters that are in force when the function returns.
\<close>

record temporary_mount =
  tm_letter :: char
  tm_identity :: volume_identity

record located_target =
  lt_partition :: string
  lt_expected :: volume_identity
  lt_marker :: bytes
  lt_marker_path :: string
  lt_mount :: "temporary_mount option"

definition target_of :: "located_volume \<Rightarrow> located_target" where
  "target_of v = \<lparr>lt_partition = lv_partition v, lt_expected = lv_expected v, lt_marker = lv_marker v,
     lt_marker_path = lv_marker_path v, lt_mount = None\<rparr>"

definition mount_target :: "boot_env \<Rightarrow> located_volume \<Rightarrow> (string + located_target) \<times> char list" where
  "mount_target env v = (case be_free_letter env of
     None \<Rightarrow> (Inl ''no drive letter is available'', [])
   | Some letter \<Rightarrow> (case be_layout env (vi_disk (lv_expected v)) of
       Inl e \<Rightarrow> (Inl e, [])
     | Inr _ \<Rightarrow> (case be_assign env (lv_expected v) letter of
         Inl e \<Rightarrow> (Inl e, [])
       | Inr _ \<Rightarrow> (case be_letter_identity env letter of
           Inl e \<Rightarrow> (Inl e, [letter])
         | Inr actual \<Rightarrow>
             if \<not> same_volume_identity actual (lv_expected v) then
               (case be_unassign env (lv_expected v) letter of
                  Inr _ \<Rightarrow> (Inl ''temporary target access path resolves to a different extent'', [])
                | Inl _ \<Rightarrow> (Inl ''temporary target access path resolves to a different extent and cleanup failed'', [letter]))
             else (Inr ((target_of v)\<lparr>lt_partition := [letter, CHR '':''],
                          lt_mount := Some \<lparr>tm_letter = letter, tm_identity = lv_expected v\<rparr>\<rparr>), [letter])))))"

definition find_install_target_marker ::
  "boot_env \<Rightarrow> string \<Rightarrow> bool \<Rightarrow> (string + located_target) \<times> char list" where
  "find_install_target_marker env token require_letter =
     (case find_volume_locator env INSTALL_TARGET_MARKER_NAME token of
        Inl e \<Rightarrow> (Inl e, [])
      | Inr v \<Rightarrow>
          if require_letter \<and> starts_with VERBATIM_PREFIX (lv_partition v) then mount_target env v
          else (Inr (target_of v), []))"

definition drop_mount :: "boot_env \<Rightarrow> located_target \<Rightarrow> char list" where
  "drop_mount env t = (case lt_mount t of
     None \<Rightarrow> []
   | Some m \<Rightarrow> (case be_unassign env (tm_identity m) (tm_letter m) of Inr _ \<Rightarrow> [] | Inl _ \<Rightarrow> [tm_letter m]))"

record full_disk_target =
  fd_token :: string
  fd_disk_number :: u32
  fd_role :: full_disk_role
  fd_partition :: string
  fd_expected :: volume_identity
  fd_marker :: bytes
  fd_marker_path :: string

definition add_full_disk_target ::
  "boot_env \<Rightarrow> full_disk_target list \<Rightarrow> full_disk_selection \<Rightarrow> string + full_disk_target list" where
  "add_full_disk_target env targets selection =
     and_then (find_volume_locator env FULL_DISK_MARKER_NAME (fds_token selection)) (\<lambda>v.
     and_then (ensure (\<not> list_ex (\<lambda>t. same_volume_identity (fd_expected t) (lv_expected v)) targets)
       ''two authenticated full-disk locators resolved to the same current volume'') (\<lambda>_.
     Inr (targets @ [\<lparr>fd_token = fds_token selection, fd_disk_number = fds_disk_number selection, fd_role = fds_role selection,
       fd_partition = lv_partition v, fd_expected = lv_expected v, fd_marker = lv_marker v,
       fd_marker_path = lv_marker_path v\<rparr>])))"

definition find_full_disk_targets :: "boot_env \<Rightarrow> operation_config \<Rightarrow> string + full_disk_target list" where
  "find_full_disk_targets env config = (case config of
     InstallTask c \<Rightarrow> (case pi_custom_install_plan c of
         RepartitionAllDisks plan \<Rightarrow> try_fold (add_full_disk_target env) [] (rp_disks plan)
       | _ \<Rightarrow> Inr [])
   | _ \<Rightarrow> Inr [])"

subsection \<open>The public files\<close>

record public_artifact =
  pa_record :: artifact
  pa_path :: string
  pa_bytes :: bytes

text \<open>The root of a scattered file is the volume whose marker carries its token; each token is searched once.\<close>

definition artifact_root ::
  "boot_env \<Rightarrow> string \<Rightarrow> (string \<times> located_volume) list \<Rightarrow> string \<Rightarrow> string + string \<times> (string \<times> located_volume) list" where
  "artifact_root env data_root scatter path = (case split_scatter_prefix path of
     None \<Rightarrow> Inr (data_root, scatter)
   | Some (token, _) \<Rightarrow> (case find (\<lambda>(known, _). eq_ignore_ascii_case known token) scatter of
       Some (_, v) \<Rightarrow> Inr (lv_root v, scatter)
     | None \<Rightarrow>
         and_then (find_volume_locator env (join_path (scatter_root_name token) SCATTER_MARKER_NAME) token) (\<lambda>v.
         Inr (lv_root v, scatter @ [(token, v)]))))"

definition lock_artifact ::
  "(bytes \<Rightarrow> bytes) \<Rightarrow> boot_env \<Rightarrow> string \<Rightarrow> (string \<times> located_volume) list \<times> public_artifact list \<Rightarrow> artifact \<Rightarrow>
   string + (string \<times> located_volume) list \<times> public_artifact list" where
  "lock_artifact sha env data_root st a =
     (if art_location a \<noteq> PublicData then Inr st
      else
        and_then (artifact_root env data_root (fst st) (art_path a)) (\<lambda>(root, scatter).
        and_then (be_artifact env (join_path root (art_path a))) (\<lambda>(path, bs).
        and_then (ensure (record_matches sha a bs) (''authenticated public artifact changed: '' @ art_path a)) (\<lambda>_.
        Inr (scatter, snd st @ [\<lparr>pa_record = a, pa_path = path, pa_bytes = bs\<rparr>])))))"

definition public_total :: "manifest \<Rightarrow> string + u64" where
  "public_total m =
     try_fold (\<lambda>n a. ok_or (checked_add n (art_length a)) ''authenticated artifact byte total overflow'') 0
       (filter (\<lambda>a. art_location a = PublicData) (mf_artifacts m))"

record image_set =
  ms_primary :: string
  ms_ordered :: "string list"
  ms_directory :: "string option"
  ms_scattered :: bool

definition image_set_unchanged :: "boot_env \<Rightarrow> nat \<Rightarrow> image_set \<Rightarrow> string + unit" where
  "image_set_unchanged env n s =
     (let fs = be_files env n in
      if ms_scattered s then
        ensure (list_all (fs_is_file fs) (ms_ordered s)) ''authenticated scattered image part is missing''
      else
        and_then (case ms_directory s of
            None \<Rightarrow> Inr ()
          | Some directory \<Rightarrow>
              and_then (be_custody env n directory) (\<lambda>_.
              verify_engine_visible_directory_contains_only fs (ms_ordered s))) (\<lambda>_.
        verify_exact_install_image_span_paths fs (ms_primary s) (ms_ordered s)))"

definition image_spans :: "public_artifact list \<Rightarrow> public_artifact list" where
  "image_spans artifacts =
     sort_key (\<lambda>p. unat (art_ordinal (pa_record p))) (filter (\<lambda>p. art_role (pa_record p) = InstallImageSpan) artifacts)"

definition capture_image_set ::
  "boot_env \<Rightarrow> nat \<Rightarrow> pe_install_config \<Rightarrow> public_artifact list \<Rightarrow> string + image_set" where
  "capture_image_set env n c spans =
     and_then (ensure (spans \<noteq> []) ''authenticated install task has no primary image span'') (\<lambda>_.
     (let primary = pa_path (hd spans); ordered = map pa_path spans; fs = be_files env n in
      and_then (ok_or (map_option (map to_lower) (path_extension primary))
        ''authenticated install image has no Unicode extension'') (\<lambda>extension.
      and_then (ensure (pi_is_gho c = (extension = ''gho''))
        ''authenticated image type does not match the install configuration'') (\<lambda>_.
      and_then (ensure (\<not> (1 < length spans \<and> extension \<notin> {''swm'', ''gho''}))
        ''only SWM and GHO/GHS may contain multiple authenticated image spans'') (\<lambda>_.
      (let scattered = \<not> install_image_spans_share_directory fs ordered in
       and_then (if scattered then Inr () else verify_exact_install_image_span_paths fs primary ordered) (\<lambda>_.
       and_then (if 1 < length ordered \<and> \<not> scattered
                 then and_then (ok_or (path_parent primary) ''authenticated split image has no parent directory'') (\<lambda>parent.
                      and_then (be_protected_directory env parent) (\<lambda>_. Inr (Some parent)))
                 else Inr None) (\<lambda>directory.
       (let s = \<lparr>ms_primary = primary, ms_ordered = ordered, ms_directory = directory, ms_scattered = scattered\<rparr> in
        and_then (image_set_unchanged env n s) (\<lambda>_. Inr s))))))))))"

definition authenticate_install_image_set ::
  "boot_env \<Rightarrow> nat \<Rightarrow> operation_config \<Rightarrow> public_artifact list \<Rightarrow> string + image_set option" where
  "authenticate_install_image_set env n config artifacts = (case config of
     InstallTask c \<Rightarrow>
       if pi_is_xp_i386 c \<or> pi_image_chunked c then Inr None
       else and_then (capture_image_set env n c (image_spans artifacts)) (\<lambda>s. Inr (Some s))
   | _ \<Rightarrow> Inr None)"

subsection \<open>The task\<close>

record operation_task =
  tk_guard :: operation_guard
  tk_config :: operation_config
  tk_data :: located_volume
  tk_target :: "located_target option"
  tk_mount :: "temporary_mount option"
  tk_full_disk :: "full_disk_target list"
  tk_scatter :: "(string \<times> located_volume) list"
  tk_artifacts :: "public_artifact list"
  tk_image_set :: "image_set option"

definition task_config ::
  "(string \<Rightarrow> install_plan option) \<Rightarrow> (string \<Rightarrow> string + software_package list) \<Rightarrow> operation_guard \<Rightarrow> string + operation_config" where
  "task_config from_str decode g =
     and_then (ensure (utf8_valid (gd_config g)) ''authenticated handoff configuration is not UTF-8'') (\<lambda>_.
     and_then (read_operation_config from_str (cap_purpose (gd_capsule g)) (gd_config g)) (\<lambda>config.
     and_then (bind_administrator config (gd_administrator g)) (\<lambda>config.
     and_then (validate_authenticated_manifest_semantics decode config (gd_manifest g)) (\<lambda>_.
     Inr config))))"

definition is_full_disk :: "operation_config \<Rightarrow> bool" where
  "is_full_disk config = (case config of
     InstallTask c \<Rightarrow> (case pi_custom_install_plan c of RepartitionAllDisks _ \<Rightarrow> True | _ \<Rightarrow> False)
   | _ \<Rightarrow> False)"

definition finish_task ::
  "(bytes \<Rightarrow> bytes) \<Rightarrow> (string \<Rightarrow> string \<Rightarrow> string + bool) \<Rightarrow> boot_env \<Rightarrow> operation_guard \<Rightarrow> operation_config \<Rightarrow>
   located_volume \<Rightarrow> located_target option \<Rightarrow> string + operation_task" where
  "finish_task sha same_path env g config data target =
     and_then (find_full_disk_targets env config) (\<lambda>full_disk.
     and_then (public_total (gd_manifest g)) (\<lambda>_.
     and_then (try_fold (lock_artifact sha env (lv_root data)) ([], []) (mf_artifacts (gd_manifest g))) (\<lambda>(scatter, artifacts).
     and_then (guard_unchanged sha same_path env 1 g) (\<lambda>_.
     and_then (try_fold (\<lambda>_ p. be_bound env 1 (pa_path p)) () artifacts) (\<lambda>_.
     and_then (authenticate_install_image_set env 1 config artifacts) (\<lambda>images.
     Inr \<lparr>tk_guard = g, tk_config = config, tk_data = data, tk_target = target, tk_mount = None,
          tk_full_disk = full_disk,
          tk_scatter = scatter, tk_artifacts = artifacts, tk_image_set = images\<rparr>))))))"

text \<open>As above, the second component are the temporary letters in force at the return.\<close>

definition authenticate_operation_task ::
  "(bytes \<Rightarrow> bytes) \<Rightarrow> (string \<Rightarrow> string \<Rightarrow> string + bool) \<Rightarrow> (string \<Rightarrow> install_plan option) \<Rightarrow>
   (string \<Rightarrow> string + software_package list) \<Rightarrow> boot_env \<Rightarrow> operation_guard \<Rightarrow> (string + operation_task) \<times> char list" where
  "authenticate_operation_task sha same_path from_str decode env g =
     (case and_then (guard_unchanged sha same_path env 0 g) (\<lambda>_.
           and_then (task_config from_str decode g) (\<lambda>config.
           and_then (find_volume_locator env DATA_VOLUME_MARKER_NAME (mf_data_token (gd_manifest g))) (\<lambda>data.
           Inr (config, data)))) of
        Inl e \<Rightarrow> (Inl e, [])
      | Inr (config, data) \<Rightarrow> (case mf_target_token (gd_manifest g) of
          None \<Rightarrow> (finish_task sha same_path env g config data None, [])
        | Some token \<Rightarrow> (case find_install_target_marker env token (\<not> is_full_disk config) of
            (Inl e, letters) \<Rightarrow> (Inl e, letters)
          | (Inr target, letters) \<Rightarrow> (case finish_task sha same_path env g config data (Some target) of
              Inl e \<Rightarrow> (Inl e, drop_mount env target)
            | Inr task \<Rightarrow> (Inr task, letters)))))"

subsection \<open>What an accepted task is bound to\<close>

text \<open>
  \<open>sole_marked_volume\<close>: the volume carries the marker, and every volume with these very bytes under this name is
  the same extent of the same disk.
\<close>

definition sole_marked_volume :: "boot_env \<Rightarrow> string \<Rightarrow> string \<Rightarrow> located_volume \<Rightarrow> bool" where
  "sole_marked_volume env name token v \<longleftrightarrow>
     length token = 64 \<and> list_all is_lower_hex token \<and> lv_marker v = token \<and>
     (\<exists>roots. be_volumes env = Inr roots \<and> lv_root v \<in> set roots \<and>
       open_payload env (join_path (lv_root v) name) 4096 = Inr token \<and>
       be_identity env (lv_root v) = Inr (lv_expected v) \<and>
       (\<forall>root \<in> set roots. open_payload env (join_path root name) 4096 = Inr token \<longrightarrow>
          (\<exists>i. be_identity env root = Inr i \<and> same_volume_identity (lv_expected v) i)))"

lemma same_volume_identity_refl [simp]: "same_volume_identity i i"
  by (simp add: same_volume_identity_def same_physical_partition_def)

lemma locate_step_cases:
  assumes "locate_step env name token token sel root = Inr sel'" and "length token = 64" and "list_all is_lower_hex token"
  shows "if open_payload env (join_path root name) 4096 = Inr token then
      (\<exists>i. be_identity env root = Inr i \<and>
        (case sel of
           Some v \<Rightarrow> sel' = Some v \<and> same_volume_identity (lv_expected v) i
         | None \<Rightarrow> (\<exists>v. sel' = Some v \<and> lv_root v = root \<and> lv_expected v = i \<and> lv_marker v = token)))
    else sel' = sel"
proof -
  have "locator_marker_matches token token" using assms(2,3) by (simp add: locator_marker_matches_iff)
  then show ?thesis using assms(1)
    by (auto simp: locate_step_def res_simps split: sum.splits if_splits option.splits)
qed

lemma locate_fold:
  assumes "try_fold (locate_step env name token token) sel roots = Inr sel'"
    and "length token = 64" and "list_all is_lower_hex token"
  shows "(\<forall>v. sel = Some v \<longrightarrow> sel' = Some v) \<and>
    (\<forall>root \<in> set roots. open_payload env (join_path root name) 4096 = Inr token \<longrightarrow>
      (\<exists>i v. be_identity env root = Inr i \<and> sel' = Some v \<and> same_volume_identity (lv_expected v) i)) \<and>
    (\<forall>v. sel = None \<and> sel' = Some v \<longrightarrow> lv_root v \<in> set roots \<and> lv_marker v = token \<and>
      open_payload env (join_path (lv_root v) name) 4096 = Inr token \<and> be_identity env (lv_root v) = Inr (lv_expected v))"
  using assms(1)
proof (induction roots arbitrary: sel)
  case Nil
  then show ?case by (cases sel') simp_all
next
  case (Cons root roots)
  from Cons.prems obtain s where s: "locate_step env name token token sel root = Inr s"
    and rest: "try_fold (locate_step env name token token) s roots = Inr sel'"
    by (auto simp: res_simps)
  note IH = Cons.IH [OF rest]
  note step = locate_step_cases [OF s assms(2,3)]
  show ?case
  proof (cases "open_payload env (join_path root name) 4096 = Inr token")
    case False
    with step have "s = sel" by simp
    with IH False show ?thesis by auto
  next
    case True
    with step obtain i where i: "be_identity env root = Inr i" and c: "case sel of
        Some v \<Rightarrow> s = Some v \<and> same_volume_identity (lv_expected v) i
      | None \<Rightarrow> (\<exists>v. s = Some v \<and> lv_root v = root \<and> lv_expected v = i \<and> lv_marker v = token)" by auto
    show ?thesis
    proof (cases sel)
      case None
      with c obtain v where "s = Some v" "lv_root v = root" "lv_expected v = i" "lv_marker v = token" by auto
      with IH i None True show ?thesis by auto
    next
      case (Some v)
      with c have "s = Some v" "same_volume_identity (lv_expected v) i" by auto
      with IH i Some show ?thesis by auto
    qed
  qed
qed

lemma find_volume_locator_sole:
  assumes "find_volume_locator env name token = Inr v"
  shows "sole_marked_volume env name token v"
proof -
  from assms obtain roots where hex: "length token = 64" "list_all is_lower_hex token" and roots: "be_volumes env = Inr roots"
    and fold: "try_fold (locate_step env name token token) None roots = Inr (Some v)"
    by (auto simp: find_volume_locator_def locator_marker_bytes_def validate_locator_token_def res_simps split: if_splits)
  show ?thesis using locate_fold [OF fold hex] hex roots by (auto simp: sole_marked_volume_def)
qed

definition artifact_found :: "boot_env \<Rightarrow> string \<Rightarrow> public_artifact \<Rightarrow> bool" where
  "artifact_found env data_root p \<longleftrightarrow>
     (\<exists>root. be_artifact env (join_path root (art_path (pa_record p))) = Inr (pa_path p, pa_bytes p) \<and>
       (case split_scatter_prefix (art_path (pa_record p)) of
          None \<Rightarrow> root = data_root
        | Some (token, _) \<Rightarrow> (\<exists>known v. eq_ignore_ascii_case known token \<and> root = lv_root v \<and>
            sole_marked_volume env (join_path (scatter_root_name known) SCATTER_MARKER_NAME) known v)))"

definition scatter_sole :: "boot_env \<Rightarrow> (string \<times> located_volume) list \<Rightarrow> bool" where
  "scatter_sole env scatter \<longleftrightarrow>
     (\<forall>(t, v) \<in> set scatter. sole_marked_volume env (join_path (scatter_root_name t) SCATTER_MARKER_NAME) t v)"

lemma artifact_root_sole:
  assumes "artifact_root env data_root scatter path = Inr (root, scatter')" and "scatter_sole env scatter"
  shows "scatter_sole env scatter' \<and> (case split_scatter_prefix path of
      None \<Rightarrow> root = data_root
    | Some (token, _) \<Rightarrow> (\<exists>known v. eq_ignore_ascii_case known token \<and> root = lv_root v \<and>
        sole_marked_volume env (join_path (scatter_root_name known) SCATTER_MARKER_NAME) known v))"
proof (cases "split_scatter_prefix path")
  case None
  with assms show ?thesis by (simp add: artifact_root_def)
next
  case (Some p)
  obtain token rest where p: "p = (token, rest)" by (cases p)
  show ?thesis
  proof (cases "find (\<lambda>(known, _). eq_ignore_ascii_case known token) scatter")
    case None
    with assms Some p obtain v where "find_volume_locator env (join_path (scatter_root_name token) SCATTER_MARKER_NAME) token = Inr v"
      and "root = lv_root v" "scatter' = scatter @ [(token, v)]"
      by (auto simp: artifact_root_def res_simps)
    moreover have "eq_ignore_ascii_case token token" by (simp add: eq_ignore_ascii_case_def)
    ultimately show ?thesis using assms(2) Some p
      by (auto simp: scatter_sole_def dest: find_volume_locator_sole)
  next
    case found: (Some q)
    obtain known v where q: "q = (known, v)" by (cases q)
    from found q have "(known, v) \<in> set scatter" "eq_ignore_ascii_case known token"
      by (auto simp: find_Some_iff in_set_conv_nth)
    moreover have "root = lv_root v" "scatter' = scatter"
      using assms(1) Some p found q by (simp_all add: artifact_root_def)
    moreover have "sole_marked_volume env (join_path (scatter_root_name known) SCATTER_MARKER_NAME) known v"
      using assms(2) calculation(1) by (auto simp: scatter_sole_def)
    ultimately show ?thesis using assms(2) Some p by auto
  qed
qed

lemma lock_fold:
  assumes "try_fold (lock_artifact sha env data_root) (scatter, locked) arts = Inr (scatter', locked')"
    and "scatter_sole env scatter"
  shows "scatter_sole env scatter' \<and> (\<exists>new. locked' = locked @ new \<and>
    map pa_record new = filter (\<lambda>a. art_location a = PublicData) arts \<and>
    (\<forall>p \<in> set new. record_matches sha (pa_record p) (pa_bytes p) \<and> artifact_found env data_root p))"
  using assms
proof (induction arts arbitrary: scatter locked)
  case Nil
  then show ?case by simp
next
  case (Cons a arts)
  from Cons.prems(1) obtain st where st: "lock_artifact sha env data_root (scatter, locked) a = Inr st"
    and rest: "try_fold (lock_artifact sha env data_root) (fst st, snd st) arts = Inr (scatter', locked')"
    by (auto simp: res_simps)
  show ?case
  proof (cases "art_location a = PublicData")
    case False
    with st have "st = (scatter, locked)" by (simp add: lock_artifact_def)
    with Cons.IH [OF rest] Cons.prems(2) False show ?thesis by simp
  next
    case True
    with st obtain root sc path bs where root: "artifact_root env data_root scatter (art_path a) = Inr (root, sc)"
      and found: "be_artifact env (join_path root (art_path a)) = Inr (path, bs)" and m: "record_matches sha a bs"
      and st': "st = (sc, locked @ [\<lparr>pa_record = a, pa_path = path, pa_bytes = bs\<rparr>])"
      by (auto simp: lock_artifact_def res_simps)
    note sole = artifact_root_sole [OF root Cons.prems(2)]
    have "artifact_found env data_root \<lparr>pa_record = a, pa_path = path, pa_bytes = bs\<rparr>"
      unfolding artifact_found_def using sole found by (intro exI [of _ root]) simp
    moreover from Cons.IH [OF rest] sole st' obtain new where "scatter_sole env scatter'"
      "locked' = (locked @ [\<lparr>pa_record = a, pa_path = path, pa_bytes = bs\<rparr>]) @ new"
      "map pa_record new = filter (\<lambda>a. art_location a = PublicData) arts"
      "\<forall>p \<in> set new. record_matches sha (pa_record p) (pa_bytes p) \<and> artifact_found env data_root p" by auto
    ultimately show ?thesis using True m
      by (intro conjI exI [of _ "\<lparr>pa_record = a, pa_path = path, pa_bytes = bs\<rparr> # new"]) simp_all
  qed
qed

lemma authenticate_guard_Inr:
  assumes "authenticate_guard sha same_path cb config mb = Inr g"
  shows "capsule_parse cb = Inr (gd_capsule g) \<and> gd_config g = config \<and> gd_manifest_bytes g = mb \<and>
    capsule_verify_config sha (cap_purpose (gd_capsule g)) config (gd_capsule g) = Inr () \<and>
    (\<exists>b. binding_from_config_bytes config = Inr b \<and> binding_verify sha same_path b mb = Inr (gd_manifest g)) \<and>
    mf_purpose (gd_manifest g) = cap_purpose (gd_capsule g) \<and> mf_session (gd_manifest g) = cap_session (gd_capsule g)"
  using assms by (auto simp: authenticate_guard_def res_simps)

lemma discover_Inr:
  assumes "discover sha same_path env = Inr g"
  shows "\<exists>cb. be_payload env HANDOFF_CAPSULE_PATH = Inr cb \<and> capsule_parse cb = Inr (gd_capsule g) \<and>
    be_payload env HANDOFF_CONFIG_PATH = Inr (gd_config g) \<and> be_payload env HANDOFF_MANIFEST_PATH = Inr (gd_manifest_bytes g) \<and>
    capsule_verify_config sha (cap_purpose (gd_capsule g)) (gd_config g) (gd_capsule g) = Inr () \<and>
    (\<exists>b. binding_from_config_bytes (gd_config g) = Inr b \<and>
      binding_verify sha same_path b (gd_manifest_bytes g) = Inr (gd_manifest g)) \<and>
    mf_purpose (gd_manifest g) = cap_purpose (gd_capsule g) \<and> mf_session (gd_manifest g) = cap_session (gd_capsule g)"
proof -
  from assms obtain cb config mb h where files: "open_payload env HANDOFF_CAPSULE_PATH AUTH_CAPSULE_MAX_BYTES = Inr cb"
      "open_payload env HANDOFF_CONFIG_PATH AUTH_CONFIG_MAX_BYTES = Inr config"
      "open_payload env HANDOFF_MANIFEST_PATH HANDOFF_MANIFEST_MAX_BYTES = Inr mb"
    and h: "authenticate_guard sha same_path cb config mb = Inr h"
    and g: "\<exists>w a k. g = h\<lparr>gd_wifi := w, gd_administrator := a, gd_bitlocker := k\<rparr>"
    unfolding discover_def and_then_Inr_iff by blast
  from files have "be_payload env HANDOFF_CAPSULE_PATH = Inr cb" "be_payload env HANDOFF_CONFIG_PATH = Inr config"
    "be_payload env HANDOFF_MANIFEST_PATH = Inr mb" by (auto simp: open_payload_def res_simps)
  with authenticate_guard_Inr [OF h] g show ?thesis by auto
qed

text \<open>The session the configuration itself names.\<close>

definition config_session :: "operation_config \<Rightarrow> string option" where
  "config_session config = (case config of
     InstallTask c \<Rightarrow> Some (pi_session_id c)
   | BackupTask c \<Rightarrow> map_option bh_session (pb_handoff c)
   | ExpandTask c \<Rightarrow> Some (ec_session c))"

lemma semantics_session:
  "validate_authenticated_manifest_semantics decode config m = Inr u \<Longrightarrow> config_session config = Some (mf_session m)"
  by (auto simp: validate_authenticated_manifest_semantics_def validate_install_semantics_def config_session_def res_simps
    split: operation_config.splits)

lemma find_target_Inr:
  assumes "find_install_target_marker env token r = (Inr t, letters)"
  shows "(\<exists>v. sole_marked_volume env INSTALL_TARGET_MARKER_NAME token v \<and> lt_expected t = lv_expected v \<and> lt_marker t = token) \<and>
    letters = (case lt_mount t of None \<Rightarrow> [] | Some m \<Rightarrow> [tm_letter m])"
  using assms
  by (auto simp: find_install_target_marker_def mount_target_def target_of_def sole_marked_volume_def
    split: sum.splits if_splits option.splits dest!: find_volume_locator_sole)

text \<open>
  When the mount of a target fails, its letter stays exactly if it could be assigned and then either could not be
  asked for its extent (here nothing tries to remove it) or named another extent and could not be removed.
\<close>

lemma failed_mount_leaves_letter:
  assumes "mount_target env v = (Inl e, letters)"
  shows "letters \<noteq> [] \<longleftrightarrow> (\<exists>l u u'. be_free_letter env = Some l \<and> be_layout env (vi_disk (lv_expected v)) = Inr u \<and>
    be_assign env (lv_expected v) l = Inr u' \<and>
    (case be_letter_identity env l of
       Inl _ \<Rightarrow> True
     | Inr i \<Rightarrow> \<not> same_volume_identity i (lv_expected v) \<and> \<not> is_ok (be_unassign env (lv_expected v) l)))"
  using assms by (auto simp: mount_target_def split: option.splits sum.splits if_splits)

lemma accepted_task_parts:
  assumes "authenticate_operation_task sha same_path from_str decode env g = (Inr task, letters)"
  shows "task_config from_str decode g = Inr (tk_config task) \<and>
    sole_marked_volume env DATA_VOLUME_MARKER_NAME (mf_data_token (gd_manifest g)) (tk_data task) \<and>
    finish_task sha same_path env g (tk_config task) (tk_data task) (tk_target task) = Inr task \<and>
    (case mf_target_token (gd_manifest g) of
       None \<Rightarrow> tk_target task = None \<and> letters = []
     | Some token \<Rightarrow> (\<exists>t. tk_target task = Some t \<and>
         find_install_target_marker env token (\<not> is_full_disk (tk_config task)) = (Inr t, letters)))"
proof -
  have fin: "tk_config task = config \<and> tk_data task = data \<and> tk_target task = target"
    if "finish_task sha same_path env g config data target = Inr task" for config data target
    using that by (auto simp: finish_task_def res_simps)
  from assms obtain config data where c: "task_config from_str decode g = Inr config"
    and d: "find_volume_locator env DATA_VOLUME_MARKER_NAME (mf_data_token (gd_manifest g)) = Inr data"
    and rest: "(case mf_target_token (gd_manifest g) of
          None \<Rightarrow> (finish_task sha same_path env g config data None, [])
        | Some token \<Rightarrow> (case find_install_target_marker env token (\<not> is_full_disk config) of
            (Inl e, letters) \<Rightarrow> (Inl e, letters)
          | (Inr target, letters) \<Rightarrow> (case finish_task sha same_path env g config data (Some target) of
              Inl e \<Rightarrow> (Inl e, drop_mount env target)
            | Inr task \<Rightarrow> (Inr task, letters)))) = (Inr task, letters)"
    unfolding authenticate_operation_task_def
    by (auto simp: and_then_Inr_iff split: sum.splits prod.splits)
  note sole = find_volume_locator_sole [OF d]
  show ?thesis
  proof (cases "mf_target_token (gd_manifest g)")
    case None
    with rest have "finish_task sha same_path env g config data None = Inr task" "letters = []" by simp_all
    with fin [OF this(1)] c sole None show ?thesis by simp
  next
    case (Some token)
    with rest obtain t where t: "find_install_target_marker env token (\<not> is_full_disk config) = (Inr t, letters)"
      and f: "finish_task sha same_path env g config data (Some t) = Inr task"
      by (auto split: prod.splits sum.splits)
    with fin [OF f] c sole Some show ?thesis by simp
  qed
qed

text \<open>The targets of a whole-disk installation are the disks of the plan, in its order, and pairwise different volumes.\<close>

lemma full_disk_fold:
  assumes "try_fold (add_full_disk_target env) ts ds = Inr ts'"
    and "sorted_wrt (\<lambda>a b. \<not> same_volume_identity (fd_expected a) (fd_expected b)) ts"
    and "\<forall>t \<in> set ts. \<exists>v. sole_marked_volume env FULL_DISK_MARKER_NAME (fd_token t) v \<and> fd_expected t = lv_expected v"
  shows "sorted_wrt (\<lambda>a b. \<not> same_volume_identity (fd_expected a) (fd_expected b)) ts' \<and>
    map fd_token ts' = map fd_token ts @ map fds_token ds \<and> map fd_role ts' = map fd_role ts @ map fds_role ds \<and>
    (\<forall>t \<in> set ts'. \<exists>v. sole_marked_volume env FULL_DISK_MARKER_NAME (fd_token t) v \<and> fd_expected t = lv_expected v)"
  using assms
proof (induction ds arbitrary: ts)
  case Nil
  then show ?case by simp
next
  case (Cons d ds)
  from Cons.prems(1) obtain s where s: "add_full_disk_target env ts d = Inr s"
    and tail: "try_fold (add_full_disk_target env) s ds = Inr ts'"
    by (auto simp: res_simps)
  from s tail obtain v where v: "find_volume_locator env FULL_DISK_MARKER_NAME (fds_token d) = Inr v"
    and new: "\<forall>t \<in> set ts. \<not> same_volume_identity (fd_expected t) (lv_expected v)"
    and rest: "try_fold (add_full_disk_target env) (ts @ [\<lparr>fd_token = fds_token d, fd_disk_number = fds_disk_number d,
      fd_role = fds_role d, fd_partition = lv_partition v, fd_expected = lv_expected v, fd_marker = lv_marker v,
       fd_marker_path = lv_marker_path v\<rparr>]) ds = Inr ts'"
    by (auto simp: res_simps add_full_disk_target_def [of env ts d] list_ex_iff)
  show ?case using Cons.IH [OF rest] Cons.prems(2,3) new find_volume_locator_sole [OF v]
    by (auto simp: sorted_wrt_append)
qed

lemma full_disk_targets_planned:
  assumes "find_full_disk_targets env (InstallTask c) = Inr ts" and "pi_custom_install_plan c = RepartitionAllDisks plan"
  shows "sorted_wrt (\<lambda>a b. \<not> same_volume_identity (fd_expected a) (fd_expected b)) ts \<and>
    map fd_token ts = map fds_token (rp_disks plan) \<and> map fd_role ts = map fds_role (rp_disks plan) \<and>
    (\<forall>t \<in> set ts. \<exists>v. sole_marked_volume env FULL_DISK_MARKER_NAME (fd_token t) v \<and> fd_expected t = lv_expected v)"
  using full_disk_fold [of env "[]" "rp_disks plan" ts] assms by (simp add: find_full_disk_targets_def)

lemma finish_task_Inr:
  assumes "finish_task sha same_path env g config data target = Inr task"
  shows "tk_guard task = g \<and> tk_config task = config \<and> tk_data task = data \<and> tk_target task = target \<and>
    find_full_disk_targets env config = Inr (tk_full_disk task) \<and>
    try_fold (lock_artifact sha env (lv_root data)) ([], []) (mf_artifacts (gd_manifest g)) =
      Inr (tk_scatter task, tk_artifacts task) \<and>
    authenticate_install_image_set env 1 config (tk_artifacts task) = Inr (tk_image_set task)"
  using assms by (auto simp: finish_task_def res_simps)

text \<open>
  C10. What the boot environment accepts is what was authorised before the restart. When a task comes out of the
  files of the boot image, its configuration is read from bytes which the key of the capsule authenticates for this
  purpose and session; the manifest has the digest which that configuration names, and its purpose and session agree
  with the capsule's and the configuration's own; the data volume and the target are the only volumes that carry the
  markers of the manifest; and the public files it will use are the public files of the manifest, in its order, each
  with the length and the digest recorded there, on the volume its path names.
\<close>
theorem accepted_task_is_authorised:
  assumes found: "discover sha same_path env = Inr g"
    and accepted: "authenticate_operation_task sha same_path from_str decode env g = (Inr task, letters)"
  shows "tk_guard task = g \<and>
    capsule_verify_config sha (cap_purpose (gd_capsule g)) (gd_config g) (gd_capsule g) = Inr () \<and>
    (\<exists>raw. read_operation_config from_str (cap_purpose (gd_capsule g)) (gd_config g) = Inr raw \<and>
      bind_administrator raw (gd_administrator g) = Inr (tk_config task)) \<and>
    (\<exists>b. binding_from_config_bytes (gd_config g) = Inr b \<and> mb_sha256 b = sha (gd_manifest_bytes g) \<and>
      manifest_parse same_path (gd_manifest_bytes g) = Inr (gd_manifest g)) \<and>
    mf_purpose (gd_manifest g) = cap_purpose (gd_capsule g) \<and> mf_session (gd_manifest g) = cap_session (gd_capsule g) \<and>
    config_session (tk_config task) = Some (cap_session (gd_capsule g)) \<and>
    sole_marked_volume env DATA_VOLUME_MARKER_NAME (mf_data_token (gd_manifest g)) (tk_data task) \<and>
    (case mf_target_token (gd_manifest g) of
       None \<Rightarrow> tk_target task = None
     | Some token \<Rightarrow> (\<exists>t v. tk_target task = Some t \<and> lt_expected t = lv_expected v \<and>
         sole_marked_volume env INSTALL_TARGET_MARKER_NAME token v)) \<and>
    map pa_record (tk_artifacts task) = filter (\<lambda>a. art_location a = PublicData) (mf_artifacts (gd_manifest g)) \<and>
    (\<forall>p \<in> set (tk_artifacts task). art_length (pa_record p) = of_nat (length (pa_bytes p)) \<and>
      art_sha256 (pa_record p) = sha (pa_bytes p) \<and> artifact_found env (lv_root (tk_data task)) p)"
proof -
  note a = accepted_task_parts [OF accepted]
  note d = discover_Inr [OF found]
  have guard: "tk_guard task = g" and fold: "try_fold (lock_artifact sha env (lv_root (tk_data task))) ([], [])
      (mf_artifacts (gd_manifest g)) = Inr (tk_scatter task, tk_artifacts task)"
    using a finish_task_Inr by blast+
  have files: "map pa_record (tk_artifacts task) = filter (\<lambda>a. art_location a = PublicData) (mf_artifacts (gd_manifest g)) \<and>
    (\<forall>p \<in> set (tk_artifacts task). art_length (pa_record p) = of_nat (length (pa_bytes p)) \<and>
      art_sha256 (pa_record p) = sha (pa_bytes p) \<and> artifact_found env (lv_root (tk_data task)) p)"
    using lock_fold [OF fold] by (simp add: scatter_sole_def record_matches_def)
  from a obtain raw u where raw: "read_operation_config from_str (cap_purpose (gd_capsule g)) (gd_config g) = Inr raw"
      "bind_administrator raw (gd_administrator g) = Inr (tk_config task)"
    and sem: "validate_authenticated_manifest_semantics decode (tk_config task) (gd_manifest g) = Inr u"
    by (auto simp: task_config_def res_simps)
  have target: "case mf_target_token (gd_manifest g) of
       None \<Rightarrow> tk_target task = None
     | Some token \<Rightarrow> (\<exists>t v. tk_target task = Some t \<and> lt_expected t = lv_expected v \<and>
         sole_marked_volume env INSTALL_TARGET_MARKER_NAME token v)"
    using a by (auto split: option.splits dest!: find_target_Inr)
  from d obtain b where b: "binding_from_config_bytes (gd_config g) = Inr b"
    and m: "binding_verify sha same_path b (gd_manifest_bytes g) = Inr (gd_manifest g)" by auto
  from m have digest: "mb_sha256 b = sha (gd_manifest_bytes g)" "manifest_parse same_path (gd_manifest_bytes g) = Inr (gd_manifest g)"
    by (auto simp: binding_verify_def res_simps)
  have session: "config_session (tk_config task) = Some (cap_session (gd_capsule g))"
    using semantics_session [OF sem] d by auto
  show ?thesis using guard d raw b digest session a target files by blast
qed

subsection \<open>What the image engine will read\<close>

lemma capture_image_set_Inr:
  assumes "capture_image_set env n c spans = Inr s"
  shows "spans \<noteq> [] \<and> ms_ordered s = map pa_path spans \<and> ms_primary s = pa_path (hd spans) \<and>
    (\<exists>e. path_extension (ms_primary s) = Some e \<and> (pi_is_gho c \<longleftrightarrow> map to_lower e = ''gho'') \<and>
      (1 < length spans \<longrightarrow> map to_lower e \<in> {''swm'', ''gho''})) \<and>
    ms_scattered s = (\<not> install_image_spans_share_directory (be_files env n) (ms_ordered s)) \<and>
    image_set_unchanged env n s = Inr () \<and> (ms_directory s \<noteq> None \<longleftrightarrow> 1 < length spans \<and> \<not> ms_scattered s)"
proof -
  from assms obtain e directory where spans: "spans \<noteq> []"
    and e: "map_option (map to_lower) (path_extension (pa_path (hd spans))) = Some e" "pi_is_gho c = (e = ''gho'')"
      "\<not> (1 < length spans \<and> e \<notin> {''swm'', ''gho''})"
    and d: "(if 1 < length (map pa_path spans) \<and> install_image_spans_share_directory (be_files env n) (map pa_path spans)
        then and_then (ok_or (path_parent (pa_path (hd spans))) ''authenticated split image has no parent directory'') (\<lambda>parent.
             and_then (be_protected_directory env parent) (\<lambda>_. Inr (Some parent)))
        else Inr None) = Inr directory"
    and s: "s = \<lparr>ms_primary = pa_path (hd spans), ms_ordered = map pa_path spans, ms_directory = directory,
      ms_scattered = (\<not> install_image_spans_share_directory (be_files env n) (map pa_path spans))\<rparr>"
    and same: "image_set_unchanged env n s = Inr ()"
    unfolding capture_image_set_def Let_def and_then_Inr_iff ensure_Inr_iff ok_or_Inr_iff by auto
  from d have "directory \<noteq> None \<longleftrightarrow> 1 < length spans \<and> install_image_spans_share_directory (be_files env n) (map pa_path spans)"
    by (auto simp: res_simps split: if_splits)
  with spans e s same show ?thesis by auto
qed


definition sample_image_artifact :: "u32 \<Rightarrow> string \<Rightarrow> public_artifact" where
  "sample_image_artifact n name =
     \<lparr>pa_record = \<lparr>art_role = InstallImageSpan, art_location = PublicData, art_ordinal = n,
        art_path = join_path DATA_DIR name, art_length = 0, art_sha256 = []\<rparr>,
      pa_path = join_path sample_dir name, pa_bytes = []\<rparr>"

definition sample_image_env :: boot_env where
  "sample_image_env =
     \<lparr>be_payload = (\<lambda>_. Inl []), be_pinned = (\<lambda>_ _. Inr ()), be_volumes = Inl [], be_identity = (\<lambda>_. Inl []),
      be_letters = (\<lambda>_ _. Inl []), be_free_letter = None, be_layout = (\<lambda>_. Inl []), be_assign = (\<lambda>_ _. Inl []),
      be_letter_identity = (\<lambda>_. Inl []), be_unassign = (\<lambda>_ _. Inl []), be_artifact = (\<lambda>_. Inl []), be_bound = (\<lambda>_ _. Inr ()),
      be_files = (\<lambda>_. sample_span_fs\<lparr>fs_read_dir := (\<lambda>d. if d = sample_dir
        then Inr [Inr ''a3.swm'', Inr ''A.swm'', Inr ''a2.SWM''] else Inl [])\<rparr>),
      be_protected_directory = (\<lambda>_. Inr ()), be_custody = (\<lambda>_ _. Inr ())\<rparr>"

abbreviation sample_image_artifacts :: "public_artifact list" where
  "sample_image_artifacts \<equiv>
     [sample_image_artifact 2 ''a3.swm'', sample_image_artifact 0 ''A.swm'', sample_image_artifact 1 ''a2.SWM'']"

lemma sample_image_set:
  "authenticate_install_image_set sample_image_env 0 (InstallTask pe_install_default) sample_image_artifacts =
    Inr (Some \<lparr>ms_primary = join_path sample_dir ''A.swm'', ms_ordered = map (join_path sample_dir) [''A.swm'', ''a2.SWM'', ''a3.swm''],
      ms_directory = Some sample_dir, ms_scattered = False\<rparr>)"
proof -
  have parents: "path_parent (join_path sample_dir ''a2.SWM'') = Some sample_dir" "path_parent (join_path sample_dir ''a3.swm'') = Some sample_dir"
    "path_extension (join_path sample_dir ''A.swm'') = Some ''swm''" "map to_lower ''swm'' = ''swm''"
    by code_simp+
  let ?fs = "be_files sample_image_env 0"
  have canonical: "fs_canonical ?fs p = Inr p" for p by (simp add: sample_image_env_def sample_span_fs_def)
  have set: "enumerate_install_image_set ?fs (join_path sample_dir ''A.swm'') = Inr (map (join_path sample_dir) [''A.swm'', ''a2.SWM'', ''a3.swm''])"
    using sample_paths sample_strips sample_numbers
    by (simp add: enumerate_install_image_set_def enumerate_swm_def is_later_swm_def entries_of_def sample_span_fs_def
        sample_image_env_def add_span_def check_contiguous_def upt_rec)
  then have exact: "verify_exact_install_image_span_paths ?fs (join_path sample_dir ''A.swm'')
      (map (join_path sample_dir) [''A.swm'', ''a2.SWM'', ''a3.swm'']) = Inr ()"
    by (simp add: verify_exact_iff canonical)
  have only: "verify_engine_visible_directory_contains_only ?fs (map (join_path sample_dir) [''A.swm'', ''a2.SWM'', ''a3.swm'']) = Inr ()"
    using sample_paths(1) parents
    by (simp add: verify_engine_visible_directory_contains_only_def add_parent_def add_entry_def entries_of_def
        sample_image_env_def sample_span_fs_def)
  have spans: "image_spans sample_image_artifacts =
      [sample_image_artifact 0 ''A.swm'', sample_image_artifact 1 ''a2.SWM'', sample_image_artifact 2 ''a3.swm'']"
    by (simp add: image_spans_def sample_image_artifact_def)
  have share: "install_image_spans_share_directory ?fs (map (join_path sample_dir) [''A.swm'', ''a2.SWM'', ''a3.swm''])"
    using sample_paths(1) parents by (simp add: install_image_spans_share_directory_def span_directory_def canonical)
  have answers: "be_protected_directory sample_image_env p = Inr ()" "be_custody sample_image_env 0 p = Inr ()"
    "pa_path (sample_image_artifact n name) = join_path sample_dir name" for p n name
    by (simp_all add: sample_image_env_def sample_image_artifact_def)
  have config: "\<not> pi_is_xp_i386 pe_install_default" "\<not> pi_image_chunked pe_install_default" "\<not> pi_is_gho pe_install_default"
    by (simp_all add: pe_install_default_def)
  show ?thesis
    using exact only share sample_paths(1) parents(3,4)
    by (simp add: authenticate_install_image_set_def config spans capture_image_set_def image_set_unchanged_def Let_def answers)
qed


end
