(* ===== verification/TaskLife.thy ===== *)
theory TaskLife
  imports BootTask "HOL-Library.Sublist"
begin

section \<open>The life of an accepted task\<close>

text \<open>
  The operations of \<open>AuthenticatedOperationTask\<close> in \<open>config.rs\<close> of the boot environment: the paths a task hands to
  the workers, the checks before they are used, and the removal of its markers. A marker on a volume is what makes a
  task retryable after another restart, so which markers are deleted, and when, is the subject of the lemmas.

  State is threaded explicitly: the task that is left, and the paths of the markers deleted so far. What deleting a
  locked file answers is the parameter \<open>delete\<close>; it is called after the pins of the marker's directory were checked,
  and a deletion that is not confirmed counts as none.
  As in \<open>BootTask\<close> an answer may depend on the number of the check. A temporary letter that is still held when a
  task is dropped is removed then; this happens after the functions here and is not followed.
\<close>

subsection \<open>What a task hands out\<close>

definition task_install_config :: "operation_task \<Rightarrow> string + pe_install_config" where
  "task_install_config t = (case tk_config t of
     InstallTask c \<Rightarrow> Inr c
   | _ \<Rightarrow> Inl ''authenticated handoff is not an install task'')"

definition task_markers_pinned :: "boot_env \<Rightarrow> nat \<Rightarrow> operation_task \<Rightarrow> string + unit" where
  "task_markers_pinned env n t =
     and_then (be_pinned env n (lv_marker_path (tk_data t))) (\<lambda>_.
     and_then (try_fold (\<lambda>_ (_, v). be_pinned env n (lv_marker_path v)) () (tk_scatter t)) (\<lambda>_.
     and_then (case tk_target t of None \<Rightarrow> Inr () | Some target \<Rightarrow> be_pinned env n (lt_marker_path target)) (\<lambda>_.
     try_fold (\<lambda>_ target. be_pinned env n (fd_marker_path target)) () (tk_full_disk t))))"

definition task_unchanged ::
  "(bytes \<Rightarrow> bytes) \<Rightarrow> (string \<Rightarrow> string \<Rightarrow> string + bool) \<Rightarrow> boot_env \<Rightarrow> nat \<Rightarrow> operation_task \<Rightarrow> string + unit" where
  "task_unchanged sha same_path env n t =
     and_then (guard_unchanged sha same_path env n (tk_guard t)) (\<lambda>_.
     and_then (task_markers_pinned env n t) (\<lambda>_.
     and_then (try_fold (\<lambda>_ p. be_bound env n (pa_path p)) () (tk_artifacts t)) (\<lambda>_.
     (case tk_image_set t of None \<Rightarrow> Inr () | Some s \<Rightarrow> image_set_unchanged env n s))))"

definition private_wifi_profile_bytes ::
  "(bytes \<Rightarrow> bytes) \<Rightarrow> (string \<Rightarrow> string \<Rightarrow> string + bool) \<Rightarrow> boot_env \<Rightarrow> nat \<Rightarrow> operation_task \<Rightarrow> string + bytes option" where
  "private_wifi_profile_bytes sha same_path env n t =
     and_then (task_install_config t) (\<lambda>c.
     and_then (task_unchanged sha same_path env n t) (\<lambda>_.
     (case (gd_wifi (tk_guard t), pi_migrate_wifi c) of
        (Some profile, True) \<Rightarrow> Inr (Some profile)
      | (None, False) \<Rightarrow> Inr None
      | _ \<Rightarrow> Inl ''authenticated Wi-Fi profile state is inconsistent'')))"

definition install_target_of :: "operation_task \<Rightarrow> string + (string \<times> volume_identity)" where
  "install_target_of t =
     and_then (ok_or (tk_target t) ''authenticated install task has no target marker match'') (\<lambda>target.
     Inr (lt_partition target, lt_expected target))"

definition install_data_dir :: "operation_task \<Rightarrow> string + string" where
  "install_data_dir t = and_then (task_install_config t) (\<lambda>_. Inr (join_path (lv_root (tk_data t)) DATA_DIR))"

definition required_image_set :: "boot_env \<Rightarrow> nat \<Rightarrow> operation_task \<Rightarrow> string + image_set" where
  "required_image_set env n t =
     and_then (ok_or (tk_image_set t) ''authenticated install task has no exact image-set authorization'') (\<lambda>s.
     and_then (image_set_unchanged env n s) (\<lambda>_. Inr s))"

definition install_source_path :: "boot_env \<Rightarrow> nat \<Rightarrow> operation_task \<Rightarrow> string + string" where
  "install_source_path env n t =
     and_then (task_install_config t) (\<lambda>c.
     if pi_is_xp_i386 c then
       and_then (install_data_dir t) (\<lambda>d. Inr (join_path (join_path d (pi_image_path c)) (pi_xp_source_arch c)))
     else and_then (required_image_set env n t) (\<lambda>s. Inr (ms_primary s)))"

definition install_image_span_paths :: "boot_env \<Rightarrow> nat \<Rightarrow> operation_task \<Rightarrow> string + string list" where
  "install_image_span_paths env n t = and_then (required_image_set env n t) (\<lambda>s. Inr (ms_ordered s))"

definition install_artifact_paths :: "boot_env \<Rightarrow> nat \<Rightarrow> artifact_role \<Rightarrow> operation_task \<Rightarrow> string + string list" where
  "install_artifact_paths env n role t =
     and_then (task_install_config t) (\<lambda>_.
     try_fold (\<lambda>paths p. and_then (be_bound env n (pa_path p)) (\<lambda>_. Inr (paths @ [pa_path p]))) []
       (sort_key (\<lambda>p. unat (art_ordinal (pa_record p))) (filter (\<lambda>p. art_role (pa_record p) = role) (tk_artifacts t))))"

record execution_target =
  xe_token :: string
  xe_disk_number :: u32
  xe_role :: full_disk_role
  xe_partition :: string
  xe_expected :: volume_identity

definition execution_target_of :: "full_disk_target \<Rightarrow> execution_target" where
  "execution_target_of f = \<lparr>xe_token = fd_token f, xe_disk_number = fd_disk_number f, xe_role = fd_role f,
     xe_partition = fd_partition f, xe_expected = fd_expected f\<rparr>"

definition full_disk_execution_targets ::
  "(bytes \<Rightarrow> bytes) \<Rightarrow> (string \<Rightarrow> string \<Rightarrow> string + bool) \<Rightarrow> boot_env \<Rightarrow> nat \<Rightarrow> operation_task \<Rightarrow> string + execution_target list" where
  "full_disk_execution_targets sha same_path env n t =
     and_then (task_install_config t) (\<lambda>_.
     and_then (task_unchanged sha same_path env n t) (\<lambda>_. Inr (map execution_target_of (tk_full_disk t))))"

subsection \<open>Releasing and deleting\<close>

text \<open>After a success the files of the scattered directories are released and the directories removed.\<close>

definition scatter_roots :: "operation_task \<Rightarrow> string list" where
  "scatter_roots t = map (\<lambda>(token, v). join_path (lv_root v) (scatter_root_name token)) (tk_scatter t)"

definition release_scatter_payload :: "operation_task \<Rightarrow> operation_task" where
  "release_scatter_payload t =
     (if scatter_roots t = [] then t
      else t\<lparr>tk_artifacts := filter (\<lambda>p. split_scatter_prefix (art_path (pa_record p)) = None) (tk_artifacts t),
             tk_image_set := None, tk_scatter := []\<rparr>)"

definition release_full_disk_markers :: "operation_task \<Rightarrow> string + (execution_target list \<times> operation_task)" where
  "release_full_disk_markers t =
     and_then (task_install_config t) (\<lambda>_. Inr (map execution_target_of (tk_full_disk t), t\<lparr>tk_target := None, tk_full_disk := []\<rparr>))"

definition delete_marker :: "boot_env \<Rightarrow> (string \<Rightarrow> string + unit) \<Rightarrow> nat \<Rightarrow> string \<Rightarrow> string list \<Rightarrow> (string + unit) \<times> string list" where
  "delete_marker env delete n path deleted =
     (case and_then (be_pinned env n path) (\<lambda>_. delete path) of
        Inl e \<Rightarrow> (Inl e, deleted)
      | Inr _ \<Rightarrow> (Inr (), deleted @ [path]))"

definition remove_mount :: "boot_env \<Rightarrow> temporary_mount option \<Rightarrow> string + unit" where
  "remove_mount env m = (case m of None \<Rightarrow> Inr () | Some m \<Rightarrow> be_unassign env (tm_identity m) (tm_letter m))"

definition release_install_target_marker ::
  "boot_env \<Rightarrow> (string \<Rightarrow> string + unit) \<Rightarrow> nat \<Rightarrow> operation_task \<times> string list \<Rightarrow>
   (string + unit) \<times> operation_task \<times> string list" where
  "release_install_target_marker env delete n st = (case st of (t, deleted) \<Rightarrow> (case tk_target t of
     None \<Rightarrow> (Inl ''authenticated installation target marker was already released'', t, deleted)
   | Some target \<Rightarrow>
       (case delete_marker env delete n (lt_marker_path target) deleted of
          (r, deleted) \<Rightarrow> (r, t\<lparr>tk_target := None, tk_mount := lt_mount target\<rparr>, deleted))))"

definition cleanup_public_control_files ::
  "(bytes \<Rightarrow> bytes) \<Rightarrow> (string \<Rightarrow> string \<Rightarrow> string + bool) \<Rightarrow> boot_env \<Rightarrow> (string \<Rightarrow> string + unit) \<Rightarrow> nat \<Rightarrow> operation_task \<Rightarrow>
   string list \<Rightarrow> (string + unit) \<times> string list" where
  "cleanup_public_control_files sha same_path env delete n t deleted =
     st_bind (task_unchanged sha same_path env n t, deleted) (\<lambda>_ deleted.
     st_bind (remove_mount env (tk_mount t), deleted) (\<lambda>_ deleted.
     st_bind (case tk_target t of
         None \<Rightarrow> (Inr (), deleted)
       | Some target \<Rightarrow>
           st_bind (remove_mount env (lt_mount target), deleted) (\<lambda>_ deleted.
           delete_marker env delete n (lt_marker_path target) deleted)) (\<lambda>_ deleted.
     st_bind (st_iter (\<lambda>target. delete_marker env delete n (fd_marker_path target)) (tk_full_disk t) deleted) (\<lambda>_ deleted.
     delete_marker env delete n (lv_marker_path (tk_data t)) deleted))))"

definition release_target_and_mount ::
  "boot_env \<Rightarrow> (string \<Rightarrow> string + unit) \<Rightarrow> nat \<Rightarrow> operation_task \<times> string list \<Rightarrow>
   (string + unit) \<times> operation_task \<times> string list" where
  "release_target_and_mount env delete n st =
     st_bind (if tk_target (fst st) \<noteq> None then release_install_target_marker env delete n st else (Inr (), st)) (\<lambda>_ (t, deleted).
     (remove_mount env (tk_mount t), t\<lparr>tk_mount := None\<rparr>, deleted))"

definition into_install_cleanup_authorization ::
  "(bytes \<Rightarrow> bytes) \<Rightarrow> (string \<Rightarrow> string \<Rightarrow> string + bool) \<Rightarrow> boot_env \<Rightarrow> (string \<Rightarrow> string + unit) \<Rightarrow> nat \<Rightarrow> operation_task \<Rightarrow>
   (string + auto_staging option) \<times> string list" where
  "into_install_cleanup_authorization sha same_path env delete n t =
     (case st_bind (and_then (task_install_config t) (\<lambda>_. task_unchanged sha same_path env n t), t, []) (\<lambda>_.
           release_target_and_mount env delete n) of
        (Inl e, _, deleted) \<Rightarrow> (Inl e, deleted)
      | (Inr _, t, deleted) \<Rightarrow>
          (let authorization = mf_staging (gd_manifest (tk_guard t)) in
           if authorization = None then
             st_bind (cleanup_public_control_files sha same_path env delete (n + 1) t deleted) (\<lambda>_ deleted.
             (Inr authorization, deleted))
           else (Inr authorization, deleted)))"

definition into_prewrite_cleanup_authorization ::
  "(bytes \<Rightarrow> bytes) \<Rightarrow> (string \<Rightarrow> string \<Rightarrow> string + bool) \<Rightarrow> boot_env \<Rightarrow> (string \<Rightarrow> string + unit) \<Rightarrow> nat \<Rightarrow> operation_task \<Rightarrow>
   (string + auto_staging option) \<times> string list" where
  "into_prewrite_cleanup_authorization sha same_path env delete n t =
     st_bind (and_then (task_install_config t) (\<lambda>_. task_unchanged sha same_path env n t), []) (\<lambda>_ deleted.
     (let authorization = mf_staging (gd_manifest (tk_guard t)) in
      if authorization = None then
        st_bind (cleanup_public_control_files sha same_path env delete (n + 1) t deleted) (\<lambda>_ deleted. (Inr None, deleted))
      else
        (case release_target_and_mount env delete n (t, deleted) of
           (Inl e, _, deleted) \<Rightarrow> (Inl e, deleted)
         | (Inr _, t, deleted) \<Rightarrow>
             st_bind (st_iter (\<lambda>target. delete_marker env delete n (fd_marker_path target)) (tk_full_disk t) deleted) (\<lambda>_ deleted.
             (Inr authorization, deleted)))))"

subsection \<open>What is deleted\<close>

definition target_markers :: "operation_task \<Rightarrow> string list" where
  "target_markers t = (case tk_target t of None \<Rightarrow> [] | Some target \<Rightarrow> [lt_marker_path target])"

definition full_disk_markers :: "operation_task \<Rightarrow> string list" where
  "full_disk_markers t = map fd_marker_path (tk_full_disk t)"

lemma delete_marker_cases:
  obtains (Deleted) "delete_marker env delete n path deleted = (Inr (), deleted @ [path])"
  | (Kept) e where "delete_marker env delete n path deleted = (Inl e, deleted)"
  by (cases "and_then (be_pinned env n path) (\<lambda>_. delete path)") (auto simp: delete_marker_def)

lemma delete_markers:
  assumes "st_iter (\<lambda>x. delete_marker env delete n (f x)) xs deleted = (r, deleted')"
  shows "\<exists>new. deleted' = deleted @ new \<and> prefix new (map f xs) \<and> (is_ok r \<longleftrightarrow> new = map f xs)"
  using assms
proof (induction xs arbitrary: deleted)
  case Nil
  then show ?case by auto
next
  case (Cons x xs)
  show ?case
  proof (cases rule: delete_marker_cases [of env delete n "f x" deleted])
    case Deleted
    with Cons.prems have "st_iter (\<lambda>x. delete_marker env delete n (f x)) xs (deleted @ [f x]) = (r, deleted')" by simp
    from Cons.IH [OF this] show ?thesis by auto
  next
    case (Kept e)
    with Cons.prems show ?thesis by auto
  qed
qed

lemma cleanup_prefix:
  assumes "cleanup_public_control_files sha same_path env delete n t deleted = (r, deleted')"
  shows "\<exists>new. deleted' = deleted @ new \<and> prefix new (target_markers t @ full_disk_markers t @ [lv_marker_path (tk_data t)]) \<and>
    (is_ok r \<longleftrightarrow> new = target_markers t @ full_disk_markers t @ [lv_marker_path (tk_data t)]) \<and>
    (\<not> is_ok (task_unchanged sha same_path env n t) \<or> \<not> is_ok (remove_mount env (tk_mount t)) \<or>
      (\<exists>target. tk_target t = Some target \<and> \<not> is_ok (remove_mount env (lt_mount target))) \<longrightarrow> new = [])"
proof -
  let ?data = "lv_marker_path (tk_data t)"
  have tail: "\<exists>new. deleted' = d @ new \<and> prefix new (full_disk_markers t @ [?data]) \<and> (is_ok r \<longleftrightarrow> new = full_disk_markers t @ [?data])"
    if run: "st_bind (st_iter (\<lambda>target. delete_marker env delete n (fd_marker_path target)) (tk_full_disk t) d) (\<lambda>_.
      delete_marker env delete n ?data) = (r, deleted')" for d
  proof -
    obtain r1 d1 where it: "st_iter (\<lambda>target. delete_marker env delete n (fd_marker_path target)) (tk_full_disk t) d = (r1, d1)"
      by fastforce
    from delete_markers [OF it] obtain new where new: "d1 = d @ new" "prefix new (full_disk_markers t)" "is_ok r1 \<longleftrightarrow> new = full_disk_markers t"
      unfolding full_disk_markers_def by blast
    show ?thesis
    proof (cases r1)
      case (Inl e)
      with run it have "r = Inl e" "deleted' = d @ new" by (simp_all add: new(1))
      moreover have "prefix new (full_disk_markers t @ [?data])" using new(2) by (rule prefix_prefix)
      moreover have "new \<noteq> full_disk_markers t @ [?data]" using new(2) by (auto dest: prefix_length_le)
      ultimately show ?thesis by auto
    next
      case (Inr u)
      with run it have last: "delete_marker env delete n ?data (d @ full_disk_markers t) = (r, deleted')" using new by simp
      show ?thesis
        by (cases rule: delete_marker_cases [of env delete n ?data "d @ full_disk_markers t"])
          (use last in \<open>auto intro: exI [of _ "full_disk_markers t @ [?data]"] exI [of _ "full_disk_markers t"]\<close>)
    qed
  qed
  show ?thesis
  proof (cases "is_ok (task_unchanged sha same_path env n t) \<and> is_ok (remove_mount env (tk_mount t))")
    case False
    then consider (Changed) e where "task_unchanged sha same_path env n t = Inl e"
      | (Mount) u e where "task_unchanged sha same_path env n t = Inr u" "remove_mount env (tk_mount t) = Inl e"
      by (cases "task_unchanged sha same_path env n t"; cases "remove_mount env (tk_mount t)") auto
    then have "\<exists>e. (Inl e, deleted) = (r, deleted')"
      by cases (use assms in \<open>simp_all add: cleanup_public_control_files_def\<close>, blast+)
    then have "deleted' = deleted \<and> \<not> is_ok r" by auto
    with False show ?thesis by (intro exI [of _ "[]"]) simp
  next
    case ok: True
    then obtain u u' where ok': "task_unchanged sha same_path env n t = Inr u" "remove_mount env (tk_mount t) = Inr u'"
      by (cases "task_unchanged sha same_path env n t"; cases "remove_mount env (tk_mount t)") auto
    show ?thesis
    proof (cases "tk_target t")
      case None
      with assms ok' have "st_bind (st_iter (\<lambda>target. delete_marker env delete n (fd_marker_path target)) (tk_full_disk t) deleted)
          (\<lambda>_. delete_marker env delete n ?data) = (r, deleted')"
        by (simp add: cleanup_public_control_files_def)
      from tail [OF this] show ?thesis using None ok by (simp add: target_markers_def)
    next
      case (Some target)
      show ?thesis
      proof (cases "remove_mount env (lt_mount target)")
        case (Inl e)
        with assms ok' Some have "r = Inl e \<and> deleted' = deleted" by (auto simp: cleanup_public_control_files_def)
        with Inl Some show ?thesis by (intro exI [of _ "[]"]) simp
      next
        case (Inr w)
        show ?thesis
        proof (cases rule: delete_marker_cases [of env delete n "lt_marker_path target" deleted])
          case (Kept e)
          with assms ok' Some Inr have "r = Inl e \<and> deleted' = deleted" by (auto simp: cleanup_public_control_files_def)
          with Some show ?thesis by (intro exI [of _ "[]"]) simp
        next
          case Deleted
          with assms ok' Some Inr have "st_bind (st_iter (\<lambda>target. delete_marker env delete n (fd_marker_path target)) (tk_full_disk t)
              (deleted @ [lt_marker_path target])) (\<lambda>_. delete_marker env delete n ?data) = (r, deleted')"
            by (simp add: cleanup_public_control_files_def)
          from tail [OF this] show ?thesis using Some ok Inr by (auto simp: target_markers_def)
        qed
      qed
    qed
  qed
qed

lemma release_target_and_mount_deleted:
  assumes "release_target_and_mount env delete n (t, deleted) = (r, t', deleted')"
  shows "\<exists>new. deleted' = deleted @ new \<and> prefix new (target_markers t) \<and> (is_ok r \<longrightarrow> new = target_markers t) \<and>
    (is_ok r \<longrightarrow> t' = t\<lparr>tk_target := None, tk_mount := None\<rparr>)"
proof (cases "tk_target t")
  case None
  then have "t\<lparr>tk_target := None\<rparr> = t" by (cases t) simp
  with assms None show ?thesis by (auto simp: release_target_and_mount_def target_markers_def intro!: exI [of _ "[]"])
next
  case (Some target)
  show ?thesis
    by (cases rule: delete_marker_cases [of env delete n "lt_marker_path target" deleted])
      (use assms Some in \<open>auto simp: release_target_and_mount_def release_install_target_marker_def target_markers_def\<close>)
qed

lemma install_cleanup_deleted:
  assumes "into_install_cleanup_authorization sha same_path env delete n t = (r, deleted)"
    and "mf_staging (gd_manifest (tk_guard t)) = Some s"
  shows "prefix deleted (target_markers t) \<and> (is_ok r \<longrightarrow> r = Inr (Some s))"
proof (cases "and_then (task_install_config t) (\<lambda>_. task_unchanged sha same_path env n t)")
  case (Inl e)
  with assms show ?thesis by (auto simp: into_install_cleanup_authorization_def)
next
  case (Inr u)
  obtain q t' d where run: "release_target_and_mount env delete n (t, []) = (q, t', d)" by (metis prod_cases3)
  from release_target_and_mount_deleted [OF run] have d: "prefix d (target_markers t)"
    "is_ok q \<longrightarrow> t' = t\<lparr>tk_target := None, tk_mount := None\<rparr>" by auto
  with assms Inr run show ?thesis
    by (cases q) (auto simp: into_install_cleanup_authorization_def Let_def)
qed

lemma prewrite_cleanup_deleted:
  assumes "into_prewrite_cleanup_authorization sha same_path env delete n t = (r, deleted)"
    and "mf_staging (gd_manifest (tk_guard t)) = Some s"
  shows "prefix deleted (target_markers t @ full_disk_markers t) \<and> (is_ok r \<longrightarrow> r = Inr (Some s))"
proof (cases "and_then (task_install_config t) (\<lambda>_. task_unchanged sha same_path env n t)")
  case (Inl e)
  with assms show ?thesis by (auto simp: into_prewrite_cleanup_authorization_def)
next
  case (Inr u)
  obtain q t' d where run: "release_target_and_mount env delete n (t, []) = (q, t', d)" by (metis prod_cases3)
  note facts = release_target_and_mount_deleted [OF run]
  show ?thesis
  proof (cases q)
    case (Inl e)
    with assms Inr run have "r = Inl e" "deleted = d" by (auto simp: into_prewrite_cleanup_authorization_def Let_def)
    with facts show ?thesis by (auto intro: prefix_prefix)
  next
    case ok: (Inr v)
    with facts have d: "d = target_markers t" and t': "tk_full_disk t' = tk_full_disk t" by auto
    obtain q1 d1 where it: "st_iter (\<lambda>target. delete_marker env delete n (fd_marker_path target)) (tk_full_disk t) d = (q1, d1)"
      by fastforce
    from delete_markers [OF it] have "prefix d1 (target_markers t @ full_disk_markers t)"
      by (auto simp: d full_disk_markers_def)
    with assms Inr run ok t' it show ?thesis
      by (cases q1) (auto simp: into_prewrite_cleanup_authorization_def Let_def)
  qed
qed


text \<open>
  The order of the ordinary clean-up, first the temporary letter and then the marker, is not kept when the marker is
  released for a staging partition: if the letter then cannot be removed, the marker is already gone.
\<close>

lemma marker_deleted_before_mount:
  assumes "tk_target t = Some target" and "be_pinned env n (lt_marker_path target) = Inr ()" and "delete (lt_marker_path target) = Inr ()"
    and "remove_mount env (lt_mount target) = Inl e"
  shows "fst (release_target_and_mount env delete n (t, [])) = Inl e \<and>
    snd (snd (release_target_and_mount env delete n (t, []))) = [lt_marker_path target]"
  using assms by (simp add: release_target_and_mount_def release_install_target_marker_def delete_marker_def)

end
