(* ===== verification/BootExpand.thy ===== *)
theory BootExpand
  imports TaskLife
begin

section \<open>An expansion across the restart\<close>

text \<open>
  The hand-off of \<open>ExpandHandoff\<close>, sealed by the capsule of \<open>HandoffAuth\<close>, in front of the boot environment of
  \<open>BootTask\<close>: the files that the normal system puts into the boot image are accepted, and the accepted task is the
  one the user confirmed.
\<close>

subsection \<open>The pieces\<close>

lemma capsule_accepts_own:
  assumes "capsule_new sha k p s c = Inr cap"
  shows "capsule_verify_config sha p c cap = Inr () \<and> cap_purpose cap = p \<and> cap_session cap = s \<and>
    c \<noteq> [] \<and> length c \<le> AUTH_CONFIG_MAX_BYTES"
  using assms by (auto simp: capsule_new_def capsule_verify_config_def validate_config_length_def verify_Inr res_simps)

lemma capsule_text_size:
  assumes "capsule_parse t = Inr cap"
  shows "t \<noteq> [] \<and> length t \<le> AUTH_CAPSULE_MAX_BYTES"
proof -
  have "strict_lines limit what [] = Inr ls \<Longrightarrow> ls = []" for limit what ls
    by (auto simp: strict_lines_def str_lines_def res_simps)
  with assms show ?thesis
    by (cases "t = []") (auto simp: capsule_parse_def res_simps line_at_def strict_lines_def str_lines_def)
qed

lemma expand_no_wifi:
  assumes "plain_line (xt_session t)" "plain_line (xt_target t)" "plain_line lang"
  shows "private_wifi_binding_from_install_ini (expand_config_text lang b t) = Inr None"
proof -
  let ?ps = "expand_pairs t @ moved_pairs t @ [(''Language'', lang)] @ binding_pairs b"
  have lines: "list_all plain_line (''[Expand]'' # map line_of ?ps)"
    using expand_written_lines [OF assms, of b] by simp
  have "str_lines (expand_config_text lang b t) = (''[Expand]'' # map line_of ?ps) @ str_lines []"
    unfolding expand_text_lines using str_lines_crlf_text [OF lines, of "[]"] by (simp only: append_Nil2)
  moreover have "str_lines [] = []" by (simp add: str_lines_def)
  moreover have "wifi_line wifi_start ''[Expand]'' = Inr wifi_start" by code_simp
  moreover have "no_wifi ?ps"
    by (simp add: no_wifi_def expand_pairs_def moved_pairs_def binding_pairs_def)
  then have "try_fold wifi_line wifi_start (map line_of ?ps) = Inr wifi_start"
    by (intro wifi_lines_other expand_written_keys)
  ultimately have "private_wifi_binding_from_install_ini (expand_config_text lang b t) = wifi_result wifi_start"
    unfolding private_wifi_binding_from_install_ini_def by (simp only: append_Nil2 try_fold.simps and_then_simps)
  then show ?thesis by (simp add: wifi_result_def wifi_start_def)
qed

text \<open>A marker on one volume only is found there.\<close>

lemma locate_only:
  assumes "\<forall>r \<in> set roots. open_payload env (join_path r name) 4096 = Inr token \<longrightarrow> r = root"
    and "be_identity env root = Inr i" and "be_letters env (vi_disk i) (vi_offset i) = Inr letters"
    and "\<forall>v. sel = Some v \<longrightarrow> lv_expected v = i \<and> lv_root v = root"
  shows "\<exists>sel'. try_fold (locate_step env name token token) sel roots = Inr sel' \<and>
    (\<forall>v. sel' = Some v \<longrightarrow> lv_expected v = i \<and> lv_root v = root)"
  using assms(1,4)
proof (induction roots arbitrary: sel)
  case Nil
  then show ?case by simp
next
  case (Cons r roots)
  have "\<exists>s. locate_step env name token token sel r = Inr s \<and> (\<forall>v. s = Some v \<longrightarrow> lv_expected v = i \<and> lv_root v = root)"
    using Cons.prems assms(2,3)
    by (cases "open_payload env (join_path r name) 4096"; cases sel) (auto simp: locate_step_def)
  then obtain s where s: "locate_step env name token token sel r = Inr s"
    "\<forall>v. s = Some v \<longrightarrow> lv_expected v = i \<and> lv_root v = root" by auto
  with Cons.IH [of s] Cons.prems show ?case by simp
qed

lemma find_only:
  assumes hex: "length token = 64" "list_all is_lower_hex token" and roots: "be_volumes env = Inr roots" "root \<in> set roots"
    and found: "open_payload env (join_path root name) 4096 = Inr token"
    and only: "\<forall>r \<in> set roots. open_payload env (join_path r name) 4096 = Inr token \<longrightarrow> r = root"
    and i: "be_identity env root = Inr i" and letters: "be_letters env (vi_disk i) (vi_offset i) = Inr letters"
  shows "\<exists>v. find_volume_locator env name token = Inr v \<and> lv_root v = root"
proof -
  from locate_only [OF only i letters, of None] obtain sel
    where fold: "try_fold (locate_step env name token token) None roots = Inr sel"
      and sel: "\<forall>v. sel = Some v \<longrightarrow> lv_expected v = i \<and> lv_root v = root" by auto
  obtain v where "sel = Some v" using locate_fold [OF fold hex] roots(2) found by auto
  with sel fold hex roots show ?thesis
    by (auto simp: find_volume_locator_def locator_marker_bytes_def validate_locator_token_def)
qed

subsection \<open>The restart\<close>

text \<open>
  \<open>boots_with\<close>: the boot image holds these three files, its directories stay in place, and one volume, whose extent
  Windows can read, carries the data marker.
\<close>

definition boots_with :: "boot_env \<Rightarrow> bytes \<Rightarrow> bytes \<Rightarrow> bytes \<Rightarrow> string \<Rightarrow> string \<Rightarrow> bool" where
  "boots_with env capsule_bytes config manifest_bytes token root \<longleftrightarrow>
     be_payload env HANDOFF_CAPSULE_PATH = Inr capsule_bytes \<and> be_payload env HANDOFF_CONFIG_PATH = Inr config \<and>
     be_payload env HANDOFF_MANIFEST_PATH = Inr manifest_bytes \<and> (\<forall>n path. be_pinned env n path = Inr ()) \<and>
     (\<exists>roots i letters. be_volumes env = Inr roots \<and> root \<in> set roots \<and>
       open_payload env (join_path root DATA_VOLUME_MARKER_NAME) 4096 = Inr token \<and>
       (\<forall>r \<in> set roots. open_payload env (join_path r DATA_VOLUME_MARKER_NAME) 4096 = Inr token \<longrightarrow> r = root) \<and>
       be_identity env root = Inr i \<and> be_letters env (vi_disk i) (vi_offset i) = Inr letters)"

lemma discover_expand:
  assumes "capsule_parse ct = Inr cap" and "cap_purpose cap = Expand" and "cap_session cap = s"
    and "capsule_verify_config sha Expand config cap = Inr ()" and "config \<noteq> []" and "length config \<le> AUTH_CONFIG_MAX_BYTES"
    and "binding_from_config_bytes config = Inr b" and "binding_verify sha same_path b mb = Inr m"
    and "mf_purpose m = Expand" and "mf_session m = s" and "mf_artifacts m = []"
    and "mb \<noteq> []" and "length mb \<le> HANDOFF_MANIFEST_MAX_BYTES"
    and wifi: "private_wifi_binding_from_install_ini config = Inr None" and utf8: "utf8_valid config"
    and boot: "boots_with env ct config mb token root"
  shows "\<exists>g. discover sha same_path env = Inr g \<and> gd_capsule g = cap \<and> gd_config g = config \<and> gd_manifest g = m \<and>
    gd_administrator g = None \<and> (\<forall>n. guard_unchanged sha same_path env n g = Inr ())"
proof -
  let ?g = "\<lparr>gd_capsule = cap, gd_config = config, gd_manifest_bytes = mb, gd_manifest = m,
          gd_wifi = None, gd_administrator = None, gd_bitlocker = None\<rparr>"
  have "authenticate_guard sha same_path ct config mb = Inr ?g"
    using assms by (simp add: authenticate_guard_def)
  moreover have "load_wifi sha env ?g = Inr None" using wifi utf8 by (simp add: load_wifi_def)
  moreover have "load_administrator sha env ?g = Inr None" "load_bitlocker sha env ?g = Inr None"
    using assms(11) by (simp_all add: load_administrator_def load_bitlocker_def records_of_def)
  moreover have "open_payload env HANDOFF_CAPSULE_PATH AUTH_CAPSULE_MAX_BYTES = Inr ct"
    "open_payload env HANDOFF_CONFIG_PATH AUTH_CONFIG_MAX_BYTES = Inr config"
    "open_payload env HANDOFF_MANIFEST_PATH HANDOFF_MANIFEST_MAX_BYTES = Inr mb"
    using boot assms(5,6,12,13) capsule_text_size [OF assms(1)] by (simp_all add: open_payload_def boots_with_def)
  ultimately have "discover sha same_path env = Inr ?g" by (simp add: discover_def)
  moreover have "guard_unchanged sha same_path env n ?g = Inr ()" for n
    using boot assms by (simp add: guard_unchanged_def boots_with_def check_wifi_def check_secret_def)
  ultimately show ?thesis by (intro exI [of _ ?g]) simp
qed

definition bare_task :: "(bytes \<Rightarrow> bytes) \<Rightarrow> (string \<Rightarrow> string \<Rightarrow> string + bool) \<Rightarrow> boot_env \<Rightarrow> operation_task \<Rightarrow> bool" where
  "bare_task sha same_path env t \<longleftrightarrow> tk_target t = None \<and> tk_mount t = None \<and> tk_full_disk t = [] \<and> tk_scatter t = [] \<and>
     tk_artifacts t = [] \<and> tk_image_set t = None \<and> (\<forall>n. guard_unchanged sha same_path env n (tk_guard t) = Inr ())"

lemma expand_task_accepted:
  assumes "deserialize_expand_config (gd_config g) = Inr c" and "ec_session c = mf_session (gd_manifest g)"
    and "cap_purpose (gd_capsule g) = Expand" and "utf8_valid (gd_config g)"
    and "\<forall>n. guard_unchanged sha same_path env n g = Inr ()"
    and "mf_artifacts (gd_manifest g) = []" and "mf_target_token (gd_manifest g) = None"
    and "find_volume_locator env DATA_VOLUME_MARKER_NAME (mf_data_token (gd_manifest g)) = Inr v"
  shows "\<exists>task. authenticate_operation_task sha same_path from_str decode env g = (Inr task, []) \<and>
    tk_config task = ExpandTask c \<and> tk_data task = v \<and> bare_task sha same_path env task"
proof -
  have "task_config from_str decode g = Inr (ExpandTask c)"
    using assms by (simp add: task_config_def read_operation_config_def bind_administrator_def
        validate_authenticated_manifest_semantics_def)
  then show ?thesis
    using assms by (simp add: authenticate_operation_task_def finish_task_def find_full_disk_targets_def public_total_def
        authenticate_install_image_set_def bare_task_def)
qed

lemma expand_written_text:
  assumes confirmed: "confirm_expansion fresh r session = Inr task"
    and s: "s = (if session = [] then fresh_session else session)"
    and written: "prepare_expand_handoff sha same_path fresh_session token lang part data task = Inr (config, manifest_bytes)"
  shows "(\<exists>b. config = expand_config_text lang b (task\<lparr>xt_session := s\<rparr>) \<and> mb_sha256 b = sha manifest_bytes) \<and> list_all is_lower_hex s \<and>
    manifest_bytes \<noteq> [] \<and> length manifest_bytes \<le> HANDOFF_MANIFEST_MAX_BYTES"
proof -
  have "xt_session task = session" using confirmed by (rule confirm_expansion_Inr) simp
  then have t: "(if xt_session task = [] then task\<lparr>xt_session := fresh_session\<rparr> else task) = task\<lparr>xt_session := s\<rparr>"
    by (simp add: s)
  obtain u m b where session: "validate_session_id s = Inr u"
    and bytes: "manifest_to_bytes same_path m = Inr manifest_bytes"
    and config: "config = expand_config_text lang b (task\<lparr>xt_session := s\<rparr>)"
    and b: "binding_new sha same_path manifest_bytes = Inr b"
    using written unfolding prepare_expand_handoff_def Let_def t and_then_Inr_iff by auto
  have "list_all is_lower_hex s" using session by (auto simp: validate_session_id_def split: if_splits)
  moreover have "manifest_bytes \<noteq> []" "length manifest_bytes \<le> HANDOFF_MANIFEST_MAX_BYTES"
    using bytes by (auto simp: to_bytes_Inr manifest_text_def)
  moreover have "mb_sha256 b = sha manifest_bytes" using b by (auto simp: binding_new_def res_simps)
  ultimately show ?thesis using config by blast
qed

lemma sealed_expansion_accepted:
  assumes written: "prepare_expand_handoff sha same_path fresh_session token lang part data task = Inr (config, manifest_bytes)"
    and confirmed: "confirm_expansion fresh r session = Inr task" and letter: "scalar_alpha (xr_target r)"
    and s: "s = (if session = [] then fresh_session else session)" and lang: "list_all printable lang"
    and sha: "\<And>bs. length (sha bs) = 32" and key: "key_ok key"
    and sealed: "capsule_new sha key Expand s config = Inr cap" and text_of: "capsule_to_text cap = Inr capsule_bytes"
    and boot: "boots_with env capsule_bytes config manifest_bytes token root"
    and read: "deserialize_expand_config config = Inr c" "ec_session c = s"
    and b: "binding_from_config_bytes config = Inr b" and v: "binding_verify_for sha same_path b manifest_bytes Expand s = Inr m"
    and m: "mf_data_token m = token" "mf_artifacts m = []" "mf_target_token m = None" "length token = 64" "list_all is_lower_hex token"
  shows "\<exists>g accepted. discover sha same_path env = Inr g \<and>
    authenticate_operation_task sha same_path from_str decode env g = (Inr accepted, []) \<and>
    tk_config accepted = ExpandTask c \<and> lv_root (tk_data accepted) = root \<and> bare_task sha same_path env accepted"
proof -
  from v have m': "binding_verify sha same_path b manifest_bytes = Inr m" "mf_purpose m = Expand" "mf_session m = s"
    by (auto simp: binding_verify_for_def res_simps)
  have own: "capsule_verify_config sha Expand config cap = Inr ()" "cap_purpose cap = Expand" "cap_session cap = s"
    "config \<noteq> []" "length config \<le> AUTH_CONFIG_MAX_BYTES" using capsule_accepts_own [OF sealed] by auto
  have parse: "capsule_parse capsule_bytes = Inr cap"
    using capsule_roundtrip [OF capsule_new_wf [OF sealed sha key]] text_of by auto
  obtain b' where task: "config = expand_config_text lang b' (task\<lparr>xt_session := s\<rparr>)"
    and session: "list_all is_lower_hex s" and sizes: "manifest_bytes \<noteq> []" "length manifest_bytes \<le> HANDOFF_MANIFEST_MAX_BYTES"
    using expand_written_text [OF confirmed s written] by blast
  have target: "xt_target task = scalar_text (scalar_upper (xr_target r)) @ '':''"
    using confirmed by (rule confirm_expansion_Inr) simp
  have printable: "list_all printable s" "list_all printable (xt_target task)"
    using lower_hex_printable_list [OF session] letter_printable [OF letter] by (simp_all add: target)
  have wifi: "private_wifi_binding_from_install_ini config = Inr None"
    unfolding task by (intro expand_no_wifi printable_line) (simp_all add: printable lang)
  have utf8: "utf8_valid config"
    using b by (auto simp: binding_from_config_bytes_def res_simps)
  obtain g where g: "discover sha same_path env = Inr g" "gd_capsule g = cap" "gd_config g = config" "gd_manifest g = m"
    "\<forall>n. guard_unchanged sha same_path env n g = Inr ()"
    using discover_expand [OF parse own(2,3,1,4,5) b m'(1-3) m(2) sizes wifi utf8 boot] by auto
  obtain vol where vol: "find_volume_locator env DATA_VOLUME_MARKER_NAME token = Inr vol" "lv_root vol = root"
    using boot find_only [OF m(4,5)] unfolding boots_with_def by blast
  have "\<exists>accepted. authenticate_operation_task sha same_path from_str decode env g = (Inr accepted, []) \<and>
      tk_config accepted = ExpandTask c \<and> tk_data accepted = vol \<and>
      bare_task sha same_path env accepted"
    by (rule expand_task_accepted) (simp_all add: g own utf8 m m' vol read)
  with g vol show ?thesis by blast
qed

text \<open>
  C11. The boot environment performs what the user confirmed. If an expansion is confirmed, its hand-off is written
  and sealed with a fresh key, and the computer starts with these files and with the data marker on one volume,
  then the boot environment accepts the files, and the task it accepts is exactly the confirmed one, under the
  session of the hand-off and with the data volume that carries the marker; no temporary drive letter remains.
\<close>
theorem confirmed_expansion_is_accepted:
  assumes confirmed: "confirm_expansion fresh r session = Inr task" and letter: "scalar_alpha (xr_target r)"
    and engine: "xr_wim_engine r \<le> 1" and moved: "length (xt_moved task) \<le> 8" and lang: "list_all printable lang"
    and sha: "\<And>bs. length (sha bs) = 32" and key: "key_ok key"
    and s: "s = (if session = [] then fresh_session else session)"
    and written: "prepare_expand_handoff sha same_path fresh_session token lang part data task = Inr (config, manifest_bytes)"
    and sealed: "capsule_new sha key Expand s config = Inr cap" and text_of: "capsule_to_text cap = Inr capsule_bytes"
    and boot: "boots_with env capsule_bytes config manifest_bytes token root"
  shows "\<exists>g accepted. discover sha same_path env = Inr g \<and>
    authenticate_operation_task sha same_path from_str decode env g = (Inr accepted, []) \<and>
    tk_config accepted = ExpandTask (expand_received lang (task\<lparr>xt_session := s\<rparr>)) \<and>
    lv_root (tk_data accepted) = root"
proof -
  obtain b m where read: "deserialize_expand_config config = Inr (expand_received lang (task\<lparr>xt_session := s\<rparr>))"
    and b: "binding_from_config_bytes config = Inr b" and v: "binding_verify_for sha same_path b manifest_bytes Expand s = Inr m"
    and m: "mf_data_token m = token" "mf_artifacts m = []" "mf_target_token m = None" "length token = 64" "list_all is_lower_hex token"
    using confirmed_expansion_reaches_pe [OF confirmed letter engine moved lang sha written] by (auto simp: s)
  have "ec_session (expand_received lang (task\<lparr>xt_session := s\<rparr>)) = s" by (simp add: expand_received_def)
  from sealed_expansion_accepted [OF written confirmed letter s lang sha key sealed text_of boot read this b v m]
  show ?thesis by blast
qed

subsection \<open>A restart that succeeds\<close>

definition sample_boot_env :: "bytes \<Rightarrow> bytes \<Rightarrow> bytes \<Rightarrow> boot_env" where
  "sample_boot_env capsule_bytes config manifest_bytes =
     \<lparr>be_payload = (\<lambda>p. if p = HANDOFF_CAPSULE_PATH then Inr capsule_bytes else if p = HANDOFF_CONFIG_PATH then Inr config
        else if p = HANDOFF_MANIFEST_PATH then Inr manifest_bytes
        else if p = join_path ''V'' DATA_VOLUME_MARKER_NAME then Inr (replicate 64 (CHR ''b'')) else Inl ''not found''),
      be_pinned = (\<lambda>_ _. Inr ()), be_volumes = Inr [''U'', ''V''],
      be_identity = (\<lambda>_. Inr \<lparr>vi_disk = 0, vi_offset = 1048576, vi_length = 4096\<rparr>), be_letters = (\<lambda>_ _. Inr ''D''),
      be_free_letter = None, be_layout = (\<lambda>_. Inl ''''), be_assign = (\<lambda>_ _. Inl ''''), be_letter_identity = (\<lambda>_. Inl ''''),
      be_unassign = (\<lambda>_ _. Inl ''''), be_artifact = (\<lambda>_. Inl ''''), be_bound = (\<lambda>_ _. Inr ()),
      be_files = (\<lambda>_. sample_span_fs), be_protected_directory = (\<lambda>_. Inr ()), be_custody = (\<lambda>_ _. Inr ())\<rparr>"

lemma sample_boots: "boots_with (sample_boot_env ct config mb) ct config mb (replicate 64 (CHR ''b'')) ''V''"
proof -
  have paths: "HANDOFF_CONFIG_PATH \<noteq> HANDOFF_CAPSULE_PATH" "HANDOFF_MANIFEST_PATH \<noteq> HANDOFF_CAPSULE_PATH"
    "HANDOFF_MANIFEST_PATH \<noteq> HANDOFF_CONFIG_PATH"
    "join_path v DATA_VOLUME_MARKER_NAME \<notin> {HANDOFF_CAPSULE_PATH, HANDOFF_CONFIG_PATH, HANDOFF_MANIFEST_PATH}"
    "join_path ''U'' DATA_VOLUME_MARKER_NAME \<noteq> join_path ''V'' DATA_VOLUME_MARKER_NAME" if "v \<in> {''U'', ''V''}" for v
    using that by (auto; code_simp)+
  from paths [of "''U''"] paths [of "''V''"] show ?thesis
    by (simp add: boots_with_def sample_boot_env_def open_payload_def)
qed

lemma number_texts:
  "length (show_word (n :: u64)) \<le> 20" "length (show_word (d :: u32)) \<le> 20" "length (show_word (b :: u8)) \<le> 20"
proof -
  have short: "length (show_nat k) \<le> 20" if "k < 2 ^ 64" for k
    by (rule length_show_nat) (use that in \<open>simp_all\<close>)
  have bounds: "unat n < 2 ^ LENGTH(64)" "unat d < 2 ^ LENGTH(32)" "unat b < 2 ^ LENGTH(8)"
    by (rule unsigned_less)+
  have limits: "unat n < 2 ^ 64" "unat d < 2 ^ 64" "unat b < 2 ^ 64"
    using bounds by simp_all
  with short show "length (show_word n) \<le> 20" "length (show_word d) \<le> 20" "length (show_word b) \<le> 20"
    by (simp_all add: show_word_def)
qed

lemma sample_config_size:
  assumes "length (mb_sha256 b) = 32"
  shows "length (expand_config_text ''en-US'' b sample_expand_task) \<le> 2000"
proof -
  have sum: "length (crlf_text ls) = sum_list (map (\<lambda>l. length l + 2) ls)" for ls
    by (induction ls) simp_all
  have moved: "length (show_moved m) \<le> 62" for m
    using number_texts(2) [of "fst m"] number_texts(1) [of "fst (snd m)"] number_texts(1) [of "snd (snd m)"]
    by (cases m) (simp add: show_moved_def)
  have hex: "length (encode_hex (mb_sha256 b)) = 64" using assms by (simp add: encode_hex_def)
  have len: "length (show_u64 (mb_length b)) \<le> 20" using number_texts(1) [of "mb_length b"] by (simp add: show_u64_def show_word_def)
  note parts = number_texts(1) [of "xt_target_mb sample_expand_task"] number_texts(3) [of "xt_wim_engine sample_expand_task"] number_texts(1) [of "xt_donor_target_mb sample_expand_task"]
    number_texts(2) [of "xt_disk sample_expand_task"] number_texts(1) [of "xt_disk_size sample_expand_task"] number_texts(2) [of "xt_number sample_expand_task"]
    number_texts(1) [of "xt_offset sample_expand_task"] number_texts(1) [of "xt_size sample_expand_task"] number_texts(2) [of "xt_donor_number sample_expand_task"]
    number_texts(1) [of "xt_donor_offset sample_expand_task"] number_texts(1) [of "xt_donor_size sample_expand_task"]
  have "length (line_of (k, v)) = length k + length v + 1" for k v by (simp add: line_of_def)
  moreover have "xt_session sample_expand_task = sample_session" "length sample_session = 32" "xt_target sample_expand_task = ''C:''"
    "xt_borrow_from_left sample_expand_task = False" "\<exists>m. xt_moved sample_expand_task = [m]"
    by (simp_all add: sample_expand_task_def sample_session_def)
  moreover have "length (show_bool False) = 5" by (simp add: show_bool_def)
  ultimately show ?thesis
    using parts hex len moved [of "hd (xt_moved sample_expand_task)"]
    unfolding expand_text_lines sum expand_pairs_def moved_pairs_def binding_pairs_def by auto
qed

lemma sample_task_session: "sample_expand_task\<lparr>xt_session := sample_session\<rparr> = sample_expand_task"
  by (simp add: sample_expand_task_def)

lemma sample_side:
  "scalar_alpha (xr_target sample_expand_request)" "xr_wim_engine sample_expand_request \<le> 1"
  "length (xt_moved sample_expand_task) \<le> 8" "list_all printable ''en-US''"
  "sample_session = (if sample_session = [] then sample_session else sample_session)"
  by (simp_all add: sample_expand_request_def scalar_alpha_def sample_expand_task_def printable_def)

lemma sample_restart:
  "\<exists>config mb cap ct. prepare_expand_handoff sample_sha sample_same_path sample_session (replicate 64 (CHR ''b'')) ''en-US'' ''C:'' ''D:''
      sample_expand_task = Inr (config, mb) \<and>
    capsule_new sample_sha sample_key Expand sample_session config = Inr cap \<and> capsule_to_text cap = Inr ct"
proof -
  obtain config mb where w: "prepare_expand_handoff sample_sha sample_same_path sample_session (replicate 64 (CHR ''b''))
      ''en-US'' ''C:'' ''D:'' sample_expand_task = Inr (config, mb)"
    using sample_expand_written by blast
  obtain b where c: "config = expand_config_text ''en-US'' b sample_expand_task" "mb_sha256 b = sample_sha mb"
    using expand_written_text [OF sample_confirmed sample_side(5) w] unfolding sample_task_session by blast
  have "length config \<le> 2000" using sample_config_size [of b] sample_sha_length c by simp
  moreover have "config \<noteq> []" unfolding c expand_text_lines by simp
  ultimately have "\<exists>cap. capsule_new sample_sha sample_key Expand sample_session config = Inr cap"
    by (simp add: capsule_new_def validate_config_length_def AUTH_CONFIG_MAX_BYTES_def authenticate_def validate_session_id_def
        sample_session_def is_lower_hex_def is_digit_def)
  then obtain cap where cap: "capsule_new sample_sha sample_key Expand sample_session config = Inr cap" by blast
  with capsule_roundtrip [OF capsule_new_wf [OF cap sample_sha_length sample_key_ok]] w show ?thesis by blast
qed

theorem confirmed_expansion_is_accepted_witness:
  "\<exists>env g accepted. discover sample_sha sample_same_path env = Inr g \<and>
    authenticate_operation_task sample_sha sample_same_path (\<lambda>_. None) (\<lambda>_. Inl []) env g = (Inr accepted, []) \<and>
    tk_config accepted = ExpandTask (expand_received ''en-US'' sample_expand_task) \<and> lv_root (tk_data accepted) = ''V''"
proof -
  obtain config mb cap ct where w: "prepare_expand_handoff sample_sha sample_same_path sample_session (replicate 64 (CHR ''b''))
      ''en-US'' ''C:'' ''D:'' sample_expand_task = Inr (config, mb)"
    and cap: "capsule_new sample_sha sample_key Expand sample_session config = Inr cap" and ct: "capsule_to_text cap = Inr ct"
    using sample_restart by blast
  from confirmed_expansion_is_accepted [OF sample_confirmed sample_side(1-4) sample_sha_length sample_key_ok sample_side(5) w cap ct sample_boots]
  show ?thesis unfolding sample_task_session by blast
qed

text \<open>The witness of \<open>BootTask.accepted_task_is_authorised\<close>: the task of the same restart.\<close>

lemma sample_accepted:
  "\<exists>env g task. discover sample_sha sample_same_path env = Inr g \<and> (\<forall>n path. be_pinned env n path = Inr ()) \<and>
    authenticate_operation_task sample_sha sample_same_path (\<lambda>_. None) (\<lambda>_. Inl []) env g = (Inr task, []) \<and>
    bare_task sample_sha sample_same_path env task"
proof -
  obtain config mb cap ct where w: "prepare_expand_handoff sample_sha sample_same_path sample_session (replicate 64 (CHR ''b''))
      ''en-US'' ''C:'' ''D:'' sample_expand_task = Inr (config, mb)"
    and cap: "capsule_new sample_sha sample_key Expand sample_session config = Inr cap" and ct: "capsule_to_text cap = Inr ct"
    using sample_restart by blast
  from confirmed_expansion_reaches_pe [OF sample_confirmed sample_side(1-4) sample_sha_length w]
  obtain b m where read: "deserialize_expand_config config = Inr (expand_received ''en-US'' sample_expand_task)"
    and b: "binding_from_config_bytes config = Inr b"
    and v: "binding_verify_for sample_sha sample_same_path b mb Expand sample_session = Inr m"
    and m: "mf_data_token m = replicate 64 (CHR ''b'')" "mf_artifacts m = []" "mf_target_token m = None"
      "length (replicate 64 (CHR ''b'')) = 64" "list_all is_lower_hex (replicate 64 (CHR ''b''))"
    unfolding sample_side(5) [symmetric] by (auto simp: sample_task_session)
  have "ec_session (expand_received ''en-US'' sample_expand_task) = sample_session"
    by (simp add: expand_received_def sample_expand_task_def)
  from sealed_expansion_accepted [OF w sample_confirmed sample_side(1,5,4) sample_sha_length sample_key_ok cap ct sample_boots read this b v m]
  moreover have "be_pinned (sample_boot_env ct config mb) n path = Inr ()" for n path by (simp add: sample_boot_env_def)
  ultimately show ?thesis by blast
qed

theorem accepted_task_is_authorised_witness:
  "\<exists>env g task. discover sample_sha sample_same_path env = Inr g \<and>
    authenticate_operation_task sample_sha sample_same_path (\<lambda>_. None) (\<lambda>_. Inl []) env g = (Inr task, []) \<and>
    config_session (tk_config task) = Some (cap_session (gd_capsule g)) \<and>
    sole_marked_volume env DATA_VOLUME_MARKER_NAME (mf_data_token (gd_manifest g)) (tk_data task)"
  using sample_accepted accepted_task_is_authorised by meson


end
